(* ===== verification/Prelude.thy ===== *)
theory Prelude
  imports Main "HOL-Library.Word"
begin

text \<open>
  What every component shares.

  \<^item> Results. A contract call either returns or reverts the whole transaction. A revert is a value:
    \<open>Err e\<close> is a \<open>panic_with_error!\<close> with the contract's own error code, \<open>Trap t\<close> is a host trap
    (arithmetic overflow, a missing storage entry behind \<open>unwrap\<close>, a failed \<open>require_auth\<close>, a failed
    sub-call). The workspace builds with \<open>overflow-checks = true\<close>, so a Rust arithmetic operator traps
    instead of wrapping; the checked operators below write that out at their width.
  \<^item> The ledger environment: time, sequence number, the running contract, its invoker and the
    addresses that signed.
  \<^item> Addresses: an account or a contract, each a 32-byte key (\<open>BytesN<32>\<close>, a 256-bit word here).
\<close>

named_theorems rs \<open>how a successful result decomposes into the results of its steps\<close>
named_theorems arith_defs \<open>the checked machine operators, unfolded\<close>

subsection \<open>Results\<close>

datatype trap = Overflow | DivByZero | Unwrap | Unauthorized | CallFailed | AssertFailed

datatype 'e failure = Err 'e | Trap trap

type_synonym ('e, 'a) res = "'e failure + 'a"

definition and_then :: "('e, 'a) res \<Rightarrow> ('a \<Rightarrow> ('e, 'b) res) \<Rightarrow> ('e, 'b) res" where
  "and_then m f = (case m of Inl e \<Rightarrow> Inl e | Inr x \<Rightarrow> f x)"

text \<open>\<open>if b { panic_with_error!(env, e) }\<close>.\<close>

definition panic_if :: "bool \<Rightarrow> 'e \<Rightarrow> ('e, unit) res" where
  "panic_if b e = (if b then Inl (Err e) else Inr ())"

text \<open>\<open>Option::unwrap\<close> traps on \<open>None\<close>.\<close>

definition unwrap :: "'a option \<Rightarrow> ('e, 'a) res" where
  "unwrap x = (case x of None \<Rightarrow> Inl (Trap Unwrap) | Some v \<Rightarrow> Inr v)"

text \<open>\<open>unwrap_or_else(|| panic_with_error!(env, e))\<close>.\<close>

definition or_panic :: "'a option \<Rightarrow> 'e \<Rightarrow> ('e, 'a) res" where
  "or_panic x e = (case x of None \<Rightarrow> Inl (Err e) | Some v \<Rightarrow> Inr v)"

text \<open>A call into another contract: its failure, whatever it is, traps the caller.\<close>

definition sub_call :: "('f, 'a) res \<Rightarrow> ('e, 'a) res" where
  "sub_call r = (case r of Inl _ \<Rightarrow> Inl (Trap CallFailed) | Inr v \<Rightarrow> Inr v)"

text \<open>A \<open>try_\<close> call: its failure comes back as a value.\<close>

definition try_call :: "('f, 'a) res \<Rightarrow> 'a option" where
  "try_call r = (case r of Inl _ \<Rightarrow> None | Inr v \<Rightarrow> Some v)"

text \<open>The same failure under another contract's error type: a library's panic in its caller.\<close>

definition map_err :: "('f \<Rightarrow> 'e) \<Rightarrow> ('f, 'a) res \<Rightarrow> ('e, 'a) res" where
  "map_err g r = (case r of Inl (Err f) \<Rightarrow> Inl (Err (g f)) | Inl (Trap t) \<Rightarrow> Inl (Trap t) | Inr v \<Rightarrow> Inr v)"

definition succeeds :: "('e, 'a) res \<Rightarrow> bool" where
  "succeeds r \<longleftrightarrow> (\<exists>v. r = Inr v)"

lemma and_then_simps [simp]:
  "and_then (Inr x) f = f x"
  "and_then (Inl e) f = Inl e"
  by (simp_all add: and_then_def)

lemma and_then_Inr_iff [rs]: "and_then m f = Inr y \<longleftrightarrow> (\<exists>x. m = Inr x \<and> f x = Inr y)"
  by (cases m) auto

lemma and_then_assoc: "and_then (and_then m f) g = and_then m (\<lambda>x. and_then (f x) g)"
  by (cases m) auto

lemma and_then_if: "and_then (if b then x else y) f = (if b then and_then x f else and_then y f)"
  by simp

lemma panic_if_simps [simp]:
  "panic_if True e = Inl (Err e)"
  "panic_if False e = Inr ()"
  by (simp_all add: panic_if_def)

lemma panic_if_Inr_iff [rs]: "panic_if b e = Inr u \<longleftrightarrow> \<not> b"
  by (simp add: panic_if_def)

lemma unwrap_simps [simp]:
  "unwrap (Some v) = Inr v"
  "unwrap None = Inl (Trap Unwrap)"
  by (simp_all add: unwrap_def)

lemma unwrap_Inr_iff [rs]: "unwrap x = Inr v \<longleftrightarrow> x = Some v"
  by (cases x) auto

lemma or_panic_simps [simp]:
  "or_panic (Some v) e = Inr v"
  "or_panic None e = Inl (Err e)"
  by (simp_all add: or_panic_def)

lemma or_panic_Inr_iff [rs]: "or_panic x e = Inr v \<longleftrightarrow> x = Some v"
  by (cases x) auto

lemma sub_call_simps [simp]:
  "sub_call (Inr v) = Inr v"
  "sub_call (Inl e) = Inl (Trap CallFailed)"
  by (simp_all add: sub_call_def)

lemma sub_call_Inr_iff [rs]: "sub_call r = Inr v \<longleftrightarrow> r = Inr v"
  by (cases r) auto

lemma try_call_simps [simp]:
  "try_call (Inr v) = Some v"
  "try_call (Inl e) = None"
  by (simp_all add: try_call_def)

lemma try_call_Some_iff [rs]: "try_call r = Some v \<longleftrightarrow> r = Inr v"
  by (cases r) auto

lemma map_err_simps [simp]:
  "map_err g (Inr v) = Inr v"
  "map_err g (Inl (Err f)) = Inl (Err (g f))"
  "map_err g (Inl (Trap t)) = Inl (Trap t)"
  by (simp_all add: map_err_def)

lemma map_err_Inr_iff [rs]: "map_err g r = Inr v \<longleftrightarrow> r = Inr v"
  by (auto simp: map_err_def split: sum.splits failure.splits)

lemma succeeds_simps [simp]: "succeeds (Inr v)" "\<not> succeeds (Inl e)"
  by (simp_all add: succeeds_def)

lemma succeeds_and_then:
  "succeeds (and_then m f) \<longleftrightarrow> (\<exists>x. m = Inr x \<and> succeeds (f x))"
  by (auto simp: succeeds_def rs)

subsection \<open>Machine integers\<close>

text \<open>
  \<open>i128\<close> values are \<open>int\<close>, \<open>u32\<close> and \<open>u64\<close> values are \<open>nat\<close>; \<open>is_i128\<close>, \<open>is_u32\<close> and \<open>is_u64\<close> say
  that a number is one of the type. An operator returns only a number of its type.
\<close>

definition i128_max :: int where "i128_max = 2 ^ 127 - 1"
definition i128_min :: int where "i128_min = - (2 ^ 127)"
definition u32_max :: nat where "u32_max = 2 ^ 32 - 1"
definition u64_max :: nat where "u64_max = 2 ^ 64 - 1"
definition u128_max :: nat where "u128_max = 2 ^ 128 - 1"
definition u256_max :: nat where "u256_max = 2 ^ 256 - 1"

definition is_i128 :: "int \<Rightarrow> bool" where "is_i128 x \<longleftrightarrow> i128_min \<le> x \<and> x \<le> i128_max"
definition is_u32 :: "nat \<Rightarrow> bool" where "is_u32 x \<longleftrightarrow> x \<le> u32_max"
definition is_u64 :: "nat \<Rightarrow> bool" where "is_u64 x \<longleftrightarrow> x \<le> u64_max"

definition i128_checked :: "int \<Rightarrow> ('e, int) res" where
  "i128_checked x = (if is_i128 x then Inr x else Inl (Trap Overflow))"

definition i128_add :: "int \<Rightarrow> int \<Rightarrow> ('e, int) res" where
  "i128_add a b = i128_checked (a + b)"

definition i128_sub :: "int \<Rightarrow> int \<Rightarrow> ('e, int) res" where
  "i128_sub a b = i128_checked (a - b)"

definition i128_mul :: "int \<Rightarrow> int \<Rightarrow> ('e, int) res" where
  "i128_mul a b = i128_checked (a * b)"

definition i128_abs :: "int \<Rightarrow> ('e, int) res" where
  "i128_abs a = i128_checked \<bar>a\<bar>"

definition u32_add :: "nat \<Rightarrow> nat \<Rightarrow> ('e, nat) res" where
  "u32_add a b = (if a + b \<le> u32_max then Inr (a + b) else Inl (Trap Overflow))"

definition u32_sub :: "nat \<Rightarrow> nat \<Rightarrow> ('e, nat) res" where
  "u32_sub a b = (if b \<le> a then Inr (a - b) else Inl (Trap Overflow))"

definition u64_add :: "nat \<Rightarrow> nat \<Rightarrow> ('e, nat) res" where
  "u64_add a b = (if a + b \<le> u64_max then Inr (a + b) else Inl (Trap Overflow))"

definition u64_sub :: "nat \<Rightarrow> nat \<Rightarrow> ('e, nat) res" where
  "u64_sub a b = (if b \<le> a then Inr (a - b) else Inl (Trap Overflow))"

definition u64_mul :: "nat \<Rightarrow> nat \<Rightarrow> ('e, nat) res" where
  "u64_mul a b = (if a * b \<le> u64_max then Inr (a * b) else Inl (Trap Overflow))"

definition u64_div :: "nat \<Rightarrow> nat \<Rightarrow> ('e, nat) res" where
  "u64_div a b = (if b = 0 then Inl (Trap DivByZero) else Inr (a div b))"

definition u64_saturating_add :: "nat \<Rightarrow> nat \<Rightarrow> nat" where
  "u64_saturating_add a b = min (a + b) u64_max"

text \<open>\<open>abs_diff\<close> on an unsigned type, and the \<open>as\<close> casts that may truncate.\<close>

definition abs_diff :: "nat \<Rightarrow> nat \<Rightarrow> nat" where
  "abs_diff a b = (if a \<le> b then b - a else a - b)"

definition as_u32 :: "nat \<Rightarrow> nat" where "as_u32 x = x mod 2 ^ 32"
definition as_u64 :: "int \<Rightarrow> nat" where "as_u64 x = nat (x mod 2 ^ 64)"

lemma i128_ops_Inr_iff [rs]:
  "i128_checked x = Inr c \<longleftrightarrow> c = x \<and> is_i128 x"
  "i128_add a b = Inr c \<longleftrightarrow> c = a + b \<and> is_i128 (a + b)"
  "i128_sub a b = Inr c \<longleftrightarrow> c = a - b \<and> is_i128 (a - b)"
  "i128_mul a b = Inr c \<longleftrightarrow> c = a * b \<and> is_i128 (a * b)"
  "i128_abs a = Inr c \<longleftrightarrow> c = \<bar>a\<bar> \<and> is_i128 \<bar>a\<bar>"
  by (auto simp: i128_add_def i128_sub_def i128_mul_def i128_abs_def i128_checked_def)

lemma unsigned_ops_Inr_iff [rs]:
  "u32_add a b = Inr c \<longleftrightarrow> c = a + b \<and> a + b \<le> u32_max"
  "u32_sub a b = Inr c \<longleftrightarrow> c = a - b \<and> b \<le> a"
  "u64_add a b = Inr c \<longleftrightarrow> c = a + b \<and> a + b \<le> u64_max"
  "u64_sub a b = Inr c \<longleftrightarrow> c = a - b \<and> b \<le> a"
  "u64_mul a b = Inr c \<longleftrightarrow> c = a * b \<and> a * b \<le> u64_max"
  "u64_div a d = Inr c \<longleftrightarrow> c = a div d \<and> d \<noteq> 0"
  by (auto simp: u32_add_def u32_sub_def u64_add_def u64_sub_def u64_mul_def u64_div_def)

lemmas width_defs = i128_max_def i128_min_def u32_max_def u64_max_def u128_max_def u256_max_def
  is_i128_def is_u32_def is_u64_def

declare i128_checked_def [arith_defs] i128_add_def [arith_defs] i128_sub_def [arith_defs]
  i128_mul_def [arith_defs] i128_abs_def [arith_defs] u32_add_def [arith_defs] u32_sub_def [arith_defs]
  u64_add_def [arith_defs] u64_sub_def [arith_defs] u64_mul_def [arith_defs]
  u64_div_def [arith_defs] u64_saturating_add_def [arith_defs] abs_diff_def [arith_defs]
  as_u32_def [arith_defs] as_u64_def [arith_defs]

lemma as_u32_id: "x \<le> u32_max \<Longrightarrow> as_u32 x = x"
  by (simp add: as_u32_def u32_max_def)

lemma as_u64_id: "0 \<le> x \<Longrightarrow> x \<le> int u64_max \<Longrightarrow> as_u64 x = nat x"
  by (simp add: as_u64_def u64_max_def)

lemma is_i128_nonneg: "0 \<le> x \<Longrightarrow> is_i128 x \<longleftrightarrow> x \<le> i128_max"
  by (simp add: width_defs)

lemma is_i128_between: "is_i128 a \<Longrightarrow> is_i128 b \<Longrightarrow> a \<le> x \<Longrightarrow> x \<le> b \<Longrightarrow> is_i128 x"
  by (simp add: is_i128_def)

lemma is_i128_0 [simp]: "is_i128 0"
  by (simp add: width_defs)

subsection \<open>Addresses and the ledger environment\<close>

type_synonym byte = "8 word"
type_synonym bytes32 = "256 word"

datatype address = Account bytes32 | Contract bytes32

record env =
  ledger_timestamp :: nat
  ledger_sequence :: nat
  current_contract :: address
  invoker :: "address option"
  signed :: "address \<Rightarrow> bool"

text \<open>
  \<open>Address::require_auth\<close>: the direct invoker contract is authorised by the call itself, any other
  address needs an authorisation signed into the transaction.
\<close>

definition authorised :: "env \<Rightarrow> address \<Rightarrow> bool" where
  "authorised e a \<longleftrightarrow> invoker e = Some a \<or> signed e a"

definition require_auth :: "env \<Rightarrow> address \<Rightarrow> ('e, unit) res" where
  "require_auth e a = (if authorised e a then Inr () else Inl (Trap Unauthorized))"

text \<open>The environment a contract's call into \<open>callee\<close> runs in.\<close>

definition calling :: "env \<Rightarrow> address \<Rightarrow> env" where
  "calling e callee = e\<lparr>current_contract := callee, invoker := Some (current_contract e)\<rparr>"

lemma require_auth_Inr_iff [rs]: "require_auth e a = Inr u \<longleftrightarrow> authorised e a"
  by (simp add: require_auth_def)

lemma authorised_calling [simp]:
  "authorised (calling e c) a \<longleftrightarrow> a = current_contract e \<or> signed e a"
  by (auto simp: authorised_def calling_def)

lemma calling_fields [simp]:
  "ledger_timestamp (calling e c) = ledger_timestamp e"
  "ledger_sequence (calling e c) = ledger_sequence e"
  "current_contract (calling e c) = c"
  "signed (calling e c) = signed e"
  by (simp_all add: calling_def)

lemma require_auth_calling:
  "require_auth (calling e c) a = (if a = current_contract e \<or> signed e a then Inr () else Inl (Trap Unauthorized))"
  by (simp add: require_auth_def)

text \<open>
  Host values (\<open>Val\<close>) as far as the contracts look into them: the unit value, addresses and \<open>i128\<close> numbers; any other
  value is told apart by its serialisation. A \<open>Symbol\<close> is its text.
\<close>

datatype val = VoidVal | AddressVal address | I128Val int | OtherVal "byte list"

type_synonym symbol = string

text \<open>\<open>Address::try_from_val\<close>.\<close>

fun val_address :: "val \<Rightarrow> address option" where
  "val_address (AddressVal a) = Some a"
| "val_address _ = None"

lemma val_address_Some [simp]: "val_address v = Some a \<longleftrightarrow> v = AddressVal a"
  by (cases v) auto

subsection \<open>Lists and finite sums\<close>

text \<open>\<open>Vec::first_index_of\<close>.\<close>

fun index_of :: "'a \<Rightarrow> 'a list \<Rightarrow> nat option" where
  "index_of x [] = None"
| "index_of x (y # ys) = (if x = y then Some 0 else map_option Suc (index_of x ys))"

text \<open>\<open>Vec::remove(i)\<close> for an index in range.\<close>

definition remove_at :: "nat \<Rightarrow> 'a list \<Rightarrow> 'a list" where
  "remove_at i xs = take i xs @ drop (Suc i) xs"

lemma index_of_None_iff [simp]: "index_of x xs = None \<longleftrightarrow> x \<notin> set xs"
  by (induction xs) auto

lemma index_of_Some: "index_of x xs = Some i \<Longrightarrow> i < length xs \<and> xs ! i = x"
  by (induction xs arbitrary: i) (auto split: if_splits)

lemma index_of_not_None: "index_of x xs \<noteq> None \<longleftrightarrow> x \<in> set xs"
  by simp

lemma remove_at_index_of:
  "index_of x xs = Some i \<Longrightarrow> remove_at i xs = remove1 x xs"
proof (induction xs arbitrary: i)
  case Nil
  then show ?case by simp
next
  case (Cons y ys)
  then show ?case
    by (cases "x = y") (auto simp: remove_at_def)
qed

text \<open>
  The sum of a storage map with default 0 over a finite set of keys. \<open>covers\<close> says that the set holds
  every key with a non-zero entry, so the sum is the total whatever larger set is taken.
\<close>

definition total_over :: "'k set \<Rightarrow> ('k \<Rightarrow> int) \<Rightarrow> int" where
  "total_over K f = (\<Sum>k\<in>K. f k)"

lemma total_over_upd:
  assumes "finite K" "k \<in> K"
  shows "total_over K (f(k := v)) = total_over K f - f k + v"
proof -
  have "total_over K (f(k := v)) = v + (\<Sum>x\<in>K - {k}. (f(k := v)) x)"
    using assms by (simp add: total_over_def sum.remove)
  also have "(\<Sum>x\<in>K - {k}. (f(k := v)) x) = (\<Sum>x\<in>K - {k}. f x)"
    by (rule sum.cong) auto
  also have "\<dots> = total_over K f - f k"
    using assms by (simp add: total_over_def sum_diff1)
  finally show ?thesis by (simp add: fun_upd_def)
qed

lemma total_over_extend:
  assumes "finite L" "K \<subseteq> L" "\<And>k. k \<notin> K \<Longrightarrow> f k = 0"
  shows "total_over L f = total_over K f"
  unfolding total_over_def using assms by (intro sum.mono_neutral_right) auto

lemma total_over_ge:
  assumes "finite K" "k \<in> K" "\<And>x. 0 \<le> f x"
  shows "f k \<le> total_over K f"
  unfolding total_over_def using assms by (intro member_le_sum) auto

text \<open>The sum of a quantity over the entries of a finite map.\<close>

definition map_total :: "('k \<Rightarrow> 'v \<Rightarrow> int) \<Rightarrow> ('k \<rightharpoonup> 'v) \<Rightarrow> int" where
  "map_total f m = total_over (dom m) (\<lambda>k. case m k of None \<Rightarrow> 0 | Some v \<Rightarrow> f k v)"

lemma map_total_put:
  assumes "finite (dom m)"
  shows "map_total f (m(k \<mapsto> v)) = map_total f m - (case m k of None \<Rightarrow> 0 | Some u \<Rightarrow> f k u) + f k v"
proof -
  let ?g = "\<lambda>m k. case m k of None \<Rightarrow> 0 | Some v \<Rightarrow> f k v"
  have "?g (m(k \<mapsto> v)) = (?g m)(k := f k v)" by (auto simp: fun_eq_iff)
  then have "map_total f (m(k \<mapsto> v)) = total_over (insert k (dom m)) ((?g m)(k := f k v))" by (simp add: map_total_def)
  also have "\<dots> = total_over (insert k (dom m)) (?g m) - ?g m k + f k v" using assms by (intro total_over_upd) auto
  also have "total_over (insert k (dom m)) (?g m) = map_total f m"
    unfolding map_total_def using assms by (intro total_over_extend) (auto simp: domIff)
  finally show ?thesis .
qed

lemma map_total_remove:
  assumes "finite (dom m)"
  shows "map_total f (m(k := None)) = map_total f m - (case m k of None \<Rightarrow> 0 | Some u \<Rightarrow> f k u)"
proof (cases "m k")
  case None
  then have "m(k := None) = m" by auto
  with None show ?thesis by simp
next
  case (Some v)
  then have m: "(m(k := None))(k \<mapsto> v) = m" by auto
  have "finite (dom (m(k := None)))" using assms by simp
  from map_total_put [OF this, of f k v] show ?thesis unfolding m using Some by simp
qed

lemma map_total_nonneg: "(\<And>k v. m k = Some v \<Longrightarrow> 0 \<le> f k v) \<Longrightarrow> 0 \<le> map_total f m"
  unfolding map_total_def total_over_def by (intro sum_nonneg) (auto split: option.splits)

subsection \<open>Histories\<close>

text \<open>
  A property that holds at the end of a run and did not hold before it was brought about by one of its steps, and has
  held ever since.
\<close>

lemma run_origin:
  assumes "\<not> P s0" "P (fold step calls s0)"
  shows "\<exists>before x after. calls = before @ x # after \<and> \<not> P (fold step before s0) \<and>
     (\<forall>n \<le> length after. P (fold step (before @ x # take n after) s0))"
  using assms(2)
proof (induction calls rule: rev_induct)
  case Nil
  with assms(1) show ?case by simp
next
  case (snoc y calls)
  show ?case
  proof (cases "P (fold step calls s0)")
    case True
    then obtain before x after where "calls = before @ x # after" "\<not> P (fold step before s0)"
      "\<forall>n \<le> length after. P (fold step (before @ x # take n after) s0)"
      using snoc.IH by blast
    with snoc.prems show ?thesis
      by (intro exI [of _ before] exI [of _ x] exI [of _ "after @ [y]"]) (auto simp: le_Suc_eq)
  next
    case False
    with snoc.prems show ?thesis
      by (intro exI [of _ calls] exI [of _ y] exI [of _ "[]"]) simp
  qed
qed

subsection \<open>Concrete values for the witnesses\<close>

definition alice :: address where "alice = Account 1"
definition bob :: address where "bob = Account 2"
definition carol :: address where "carol = Account 3"
definition admin_addr :: address where "admin_addr = Account 4"
definition this_contract :: address where "this_contract = Contract 5"
definition token_a :: address where "token_a = Contract 6"
definition token_b :: address where "token_b = Contract 7"

lemmas demo_defs = alice_def bob_def carol_def admin_addr_def this_contract_def token_a_def token_b_def

text \<open>A transaction at time \<open>t\<close> signed by everyone.\<close>

definition demo_env :: "nat \<Rightarrow> env" where
  "demo_env t = \<lparr>ledger_timestamp = t, ledger_sequence = t, current_contract = this_contract,
     invoker = None, signed = (\<lambda>_. True)\<rparr>"

lemma demo_env_simps [simp]:
  "ledger_timestamp (demo_env t) = t"
  "ledger_sequence (demo_env t) = t"
  "current_contract (demo_env t) = this_contract"
  "authorised (demo_env t) a"
  "require_auth (demo_env t) a = Inr ()"
  "signed (demo_env t) a"
  "require_auth (calling (demo_env t) c) a = Inr ()"
  by (simp_all add: demo_env_def authorised_def require_auth_def calling_def)

text \<open>The same, signed by everyone but the contract itself, which cannot sign.\<close>

definition user_env :: "nat \<Rightarrow> env" where
  "user_env t = (demo_env t)\<lparr>signed := (\<lambda>a. a \<noteq> this_contract)\<rparr>"

lemma user_env_simps [simp]:
  "ledger_timestamp (user_env t) = t"
  "ledger_sequence (user_env t) = t"
  "current_contract (user_env t) = this_contract"
  "authorised (user_env t) a \<longleftrightarrow> a \<noteq> this_contract"
  "require_auth (user_env t) a = (if a \<noteq> this_contract then Inr () else Inl (Trap Unauthorized))"
  "require_auth (calling (user_env t) c) a = Inr ()"
  by (auto simp: user_env_def demo_env_def authorised_def require_auth_def calling_def)

lemma demo_distinct [simp]:
  "alice \<noteq> bob" "bob \<noteq> alice" "alice \<noteq> carol" "carol \<noteq> alice" "bob \<noteq> carol" "carol \<noteq> bob"
  "alice \<noteq> this_contract" "this_contract \<noteq> alice" "bob \<noteq> this_contract" "this_contract \<noteq> bob"
  "admin_addr \<noteq> alice" "alice \<noteq> admin_addr" "admin_addr \<noteq> bob" "bob \<noteq> admin_addr"
  "token_a \<noteq> token_b" "token_b \<noteq> token_a" "token_a \<noteq> this_contract" "token_b \<noteq> this_contract"
  "this_contract \<noteq> token_a" "this_contract \<noteq> token_b" "admin_addr \<noteq> this_contract" "this_contract \<noteq> admin_addr"
  by (simp_all add: demo_defs)

end
