(* ===== verification/Common_Math.thy ===== *)
theory Common_Math
  imports Prelude
begin

text \<open>
  \<open>crates/common/src/math.rs\<close>: the price scale and the 256-bit multiply-divide every contract
  prices with. The host's \<open>U256\<close> operations trap past 256 bits; \<open>mul_div_round_spec\<close> shows that no
  pair of \<open>i128\<close> operands reaches that trap and that the result is the exact floor or ceiling of the
  rational quotient, or \<open>MathOverflow\<close> exactly when it does not fit an \<open>i128\<close>.
\<close>

definition ONE :: int where "ONE = 1000000000000000000"
definition BPS :: int where "BPS = 10000"
definition RATE_SCALE :: int where "RATE_SCALE = 100"
definition DENOM :: int where "DENOM = BPS * RATE_SCALE * 86400"

datatype MathError = Domain | MathOverflow

definition u256_mul :: "nat \<Rightarrow> nat \<Rightarrow> ('e, nat) res" where
  "u256_mul a b = (if a * b \<le> u256_max then Inr (a * b) else Inl (Trap Overflow))"

definition u256_add :: "nat \<Rightarrow> nat \<Rightarrow> ('e, nat) res" where
  "u256_add a b = (if a + b \<le> u256_max then Inr (a + b) else Inl (Trap Overflow))"

definition u256_sub :: "nat \<Rightarrow> nat \<Rightarrow> ('e, nat) res" where
  "u256_sub a b = (if b \<le> a then Inr (a - b) else Inl (Trap Overflow))"

definition u256_div :: "nat \<Rightarrow> nat \<Rightarrow> ('e, nat) res" where
  "u256_div a b = (if b = 0 then Inl (Trap DivByZero) else Inr (a div b))"

definition u256_to_u128 :: "nat \<Rightarrow> nat option" where
  "u256_to_u128 a = (if a \<le> u128_max then Some a else None)"

definition mul_div_round :: "int \<Rightarrow> int \<Rightarrow> int \<Rightarrow> bool \<Rightarrow> (MathError, int) res" where
  "mul_div_round a b d ceil =
    (if a < 0 \<or> b < 0 \<or> d \<le> 0 then Inl (Err Domain)
     else
       let den = nat d in
       and_then (u256_mul (nat a) (nat b)) (\<lambda>num.
       and_then (if ceil then and_then (u256_add num den) (\<lambda>s. u256_sub s 1) else Inr num) (\<lambda>num.
       and_then (u256_div num den) (\<lambda>q.
         (case u256_to_u128 q of
            Some v \<Rightarrow> if int v \<le> i128_max then Inr (int v) else Inl (Err MathOverflow)
          | None \<Rightarrow> Inl (Err MathOverflow))))))"

definition mul_div :: "int \<Rightarrow> int \<Rightarrow> int \<Rightarrow> (MathError, int) res" where
  "mul_div a b d = mul_div_round a b d False"

definition mul_div_ceil :: "int \<Rightarrow> int \<Rightarrow> int \<Rightarrow> (MathError, int) res" where
  "mul_div_ceil a b d = mul_div_round a b d True"

text \<open>
  The three \<open>checked\<close> wrappers of the contracts: each maps the two math errors to error codes of its
  own and lets a trap through.
\<close>

definition checked_math :: "'e \<Rightarrow> 'e \<Rightarrow> (MathError, 'a) res \<Rightarrow> ('e, 'a) res" where
  "checked_math on_domain on_overflow r =
    (case r of
       Inr v \<Rightarrow> Inr v
     | Inl (Err Domain) \<Rightarrow> Inl (Err on_domain)
     | Inl (Err MathOverflow) \<Rightarrow> Inl (Err on_overflow)
     | Inl (Trap t) \<Rightarrow> Inl (Trap t))"

lemma checked_math_Inr_iff [rs]: "checked_math x y r = Inr v \<longleftrightarrow> r = Inr v"
  by (auto simp: checked_math_def split: sum.splits failure.splits MathError.splits)

subsection \<open>Rounding on the integers\<close>

definition ceil_div :: "int \<Rightarrow> int \<Rightarrow> int" where
  "ceil_div n d = - ((- n) div d)"

lemma ceil_div_alt: "0 < d \<Longrightarrow> ceil_div n d = (n + d - 1) div d"
proof -
  assume "0 < d"
  have "(- n) div d = - ((n + d - 1) div d)"
  proof (rule int_div_pos_eq)
    show "- n = d * - ((n + d - 1) div d) + (d - 1 - (n + d - 1) mod d)"
      using div_mult_mod_eq [of "n + d - 1" d] by (simp add: algebra_simps)
    show "0 \<le> d - 1 - (n + d - 1) mod d"
      using pos_mod_bound [OF \<open>0 < d\<close>, of "n + d - 1"] by linarith
    show "d - 1 - (n + d - 1) mod d < d"
      using pos_mod_sign [OF \<open>0 < d\<close>, of "n + d - 1"] by linarith
  qed
  then show ?thesis by (simp add: ceil_div_def)
qed

lemma floor_div_mult_le: "0 < d \<Longrightarrow> n div d * d \<le> (n::int)"
  using div_mult_mod_eq [of n d] pos_mod_sign [of d n] by linarith

lemma floor_div_le_iff: "0 < d \<Longrightarrow> q \<le> n div d \<longleftrightarrow> q * d \<le> (n::int)"
proof
  assume d: "0 < d" and "q \<le> n div d"
  then have "q * d \<le> n div d * d" by simp
  with floor_div_mult_le [OF d, of n] show "q * d \<le> n" by linarith
next
  assume d: "0 < d" and "q * d \<le> n"
  then have "(q * d) div d \<le> n div d" by (intro zdiv_mono1)
  with d show "q \<le> n div d" by simp
qed

lemma ceil_div_le_iff: "0 < d \<Longrightarrow> ceil_div n d \<le> q \<longleftrightarrow> n \<le> q * d"
  using floor_div_le_iff [of d "- q" "- n"] by (auto simp: ceil_div_def)

lemma ceil_div_mult_ge: "0 < d \<Longrightarrow> n \<le> ceil_div n d * d"
  using ceil_div_le_iff [of d n "ceil_div n d"] by simp

lemma floor_le_ceil_div:
  assumes "0 < d"
  shows "n div d \<le> ceil_div n d"
proof -
  have "n div d * d \<le> ceil_div n d * d"
    using floor_div_mult_le [OF assms, of n] ceil_div_mult_ge [OF assms, of n] by linarith
  with assms show ?thesis by simp
qed

lemma ceil_div_nonneg: "0 < d \<Longrightarrow> 0 \<le> n \<Longrightarrow> 0 \<le> ceil_div n d"
  using floor_le_ceil_div [of d n] pos_imp_zdiv_nonneg_iff [of d n] by linarith

lemma ceil_div_pos: "0 < d \<Longrightarrow> 0 < n \<Longrightarrow> 0 < ceil_div n d"
  using ceil_div_le_iff [of d n 0] by (auto simp: not_le [symmetric])

subsection \<open>What the multiply-divide computes\<close>

text \<open>The tail of the computation: the quotient as a 256-bit number, narrowed to an \<open>i128\<close>.\<close>

lemma narrow_to_i128:
  assumes "0 \<le> q"
  shows "(case u256_to_u128 (nat q) of
            Some v \<Rightarrow> if int v \<le> i128_max then Inr (int v) else Inl (Err MathOverflow)
          | None \<Rightarrow> Inl (Err MathOverflow)) =
         (if q \<le> i128_max then Inr q else Inl (Err MathOverflow) :: (MathError, int) res)"
proof -
  have "q \<le> i128_max \<Longrightarrow> nat q \<le> u128_max"
    by (simp add: width_defs)
  with assms show ?thesis by (simp add: u256_to_u128_def)
qed

lemma mul_div_round_floor:
  assumes "0 \<le> a" "0 \<le> b" "0 < d"
  shows "mul_div_round a b d False =
    (if a * b \<le> int u256_max
     then if a * b div d \<le> i128_max then Inr (a * b div d) else Inl (Err MathOverflow)
     else Inl (Trap Overflow))"
proof -
  have "nat a * nat b = nat (a * b)" and "nat (a * b) div nat d = nat (a * b div d)"
    using assms by (simp_all add: nat_mult_distrib nat_div_distrib)
  moreover have "nat (a * b) \<le> u256_max \<longleftrightarrow> a * b \<le> int u256_max"
    using assms by (simp add: nat_le_iff)
  moreover have "0 \<le> a * b div d"
    using assms by (simp add: pos_imp_zdiv_nonneg_iff)
  ultimately show ?thesis
    using assms narrow_to_i128 [of "a * b div d"]
    by (simp add: mul_div_round_def u256_mul_def u256_div_def)
qed

lemma mul_div_round_ceil:
  assumes "0 \<le> a" "0 \<le> b" "0 < d"
  shows "mul_div_round a b d True =
    (if a * b + d \<le> int u256_max
     then if ceil_div (a * b) d \<le> i128_max then Inr (ceil_div (a * b) d)
          else Inl (Err MathOverflow)
     else Inl (Trap Overflow))"
proof -
  have "0 \<le> a * b" using assms by simp
  then have pos: "1 \<le> a * b + d" using \<open>0 < d\<close> by linarith
  have ab: "nat a * nat b = nat (a * b)" and sum: "nat (a * b) + nat d = nat (a * b + d)"
    using assms by (simp_all add: nat_mult_distrib nat_add_distrib)
  have "nat (a * b + d) - Suc 0 = nat (a * b + d - 1)"
    using assms by (simp add: nat_diff_distrib)
  moreover have "nat (a * b + d - 1) div nat d = nat (ceil_div (a * b) d)"
    using assms ceil_div_alt [of d "a * b"] nat_div_distrib [of "a * b + d - 1" d]
    by (simp add: add_nonneg_pos int_one_le_iff_zero_less)
  moreover have "nat (a * b + d) \<le> u256_max \<longleftrightarrow> a * b + d \<le> int u256_max"
    "nat (a * b) \<le> u256_max \<longleftrightarrow> a * b \<le> int u256_max" "1 \<le> nat (a * b + d)"
    using assms pos by (auto simp: nat_le_iff le_nat_iff)
  ultimately show ?thesis
    using assms narrow_to_i128 [OF ceil_div_nonneg, of d "a * b"]
    by (simp add: mul_div_round_def u256_mul_def u256_add_def u256_sub_def u256_div_def ab sum)
qed

lemma i128_product_fits:
  assumes "is_i128 a" "is_i128 b" "is_i128 d" "0 \<le> a" "0 \<le> b" "0 < d"
  shows "a * b + d \<le> int u256_max"
proof -
  have "a * b \<le> i128_max * i128_max"
    using assms by (intro mult_mono) (auto simp: is_i128_def)
  with assms show ?thesis by (simp add: width_defs)
qed

lemma mul_div_round_spec:
  assumes "is_i128 a" "is_i128 b" "is_i128 d"
  shows "mul_div_round a b d ceil =
    (if a < 0 \<or> b < 0 \<or> d \<le> 0 then Inl (Err Domain)
     else let q = (if ceil then ceil_div (a * b) d else a * b div d) in
       if q \<le> i128_max then Inr q else Inl (Err MathOverflow))"
proof (cases "a < 0 \<or> b < 0 \<or> d \<le> 0")
  case True
  then show ?thesis by (simp add: mul_div_round_def)
next
  case False
  with i128_product_fits [OF assms] have "a * b + d \<le> int u256_max" "a * b \<le> int u256_max"
    by auto
  with False show ?thesis
    by (cases ceil) (simp_all add: mul_div_round_floor mul_div_round_ceil Let_def)
qed

text \<open>How a successful call decomposes, with no range hypothesis: what the clients' proofs use.\<close>

lemma mul_div_Inr_iff [rs]:
  "mul_div a b d = Inr q \<longleftrightarrow>
     0 \<le> a \<and> 0 \<le> b \<and> 0 < d \<and> a * b \<le> int u256_max \<and> q \<le> i128_max \<and> q = a * b div d"
proof (cases "a < 0 \<or> b < 0 \<or> d \<le> 0")
  case True
  then show ?thesis by (auto simp: mul_div_def mul_div_round_def)
next
  case False
  then show ?thesis by (auto simp: mul_div_def mul_div_round_floor)
qed

lemma mul_div_ceil_Inr_iff [rs]:
  "mul_div_ceil a b d = Inr q \<longleftrightarrow>
     0 \<le> a \<and> 0 \<le> b \<and> 0 < d \<and> a * b + d \<le> int u256_max \<and> q \<le> i128_max \<and> q = ceil_div (a * b) d"
proof (cases "a < 0 \<or> b < 0 \<or> d \<le> 0")
  case True
  then show ?thesis by (auto simp: mul_div_ceil_def mul_div_round_def)
next
  case False
  then show ?thesis by (auto simp: mul_div_ceil_def mul_div_round_ceil)
qed

lemma mul_div_nonneg: "mul_div a b d = Inr q \<Longrightarrow> 0 \<le> q"
  by (auto simp: rs pos_imp_zdiv_nonneg_iff)

lemma mul_div_ceil_nonneg: "mul_div_ceil a b d = Inr q \<Longrightarrow> 0 \<le> q"
  by (auto simp: rs ceil_div_nonneg)

text \<open>A fraction of at most one never exceeds the amount it is taken of.\<close>

lemma floor_fraction_le:
  assumes "0 \<le> a" "0 < d" "(b::int) \<le> d"
  shows "a * b div d \<le> a"
proof -
  have "a * b div d \<le> a * d div d"
    using assms by (intro zdiv_mono1 mult_left_mono) auto
  with assms show ?thesis by simp
qed

lemma mul_div_le: "mul_div a b d = Inr q \<Longrightarrow> b \<le> d \<Longrightarrow> q \<le> a"
  by (auto simp: rs floor_fraction_le)

text \<open>Rounding a list of slices: floors add up to no more, ceilings to no less.\<close>

lemma sum_list_floor_le:
  assumes "0 < d"
  shows "(\<Sum>x\<leftarrow>xs. c * x div d) \<le> c * sum_list xs div (d::int)"
proof (induction xs)
  case Nil
  then show ?case by simp
next
  case (Cons x xs)
  have "(c * x div d) * d + (c * sum_list xs div d) * d \<le> c * x + c * sum_list xs"
    using floor_div_mult_le [OF assms] by (intro add_mono) auto
  then have "c * x div d + c * sum_list xs div d \<le> (c * x + c * sum_list xs) div d"
    using assms by (simp add: floor_div_le_iff distrib_right)
  with Cons show ?case by (simp add: distrib_left)
qed

lemma sum_list_ceil_ge:
  assumes "0 < d"
  shows "ceil_div (c * sum_list xs) d \<le> (\<Sum>x\<leftarrow>xs. ceil_div (c * x) (d::int))"
proof (induction xs)
  case Nil
  then show ?case by (simp add: ceil_div_def)
next
  case (Cons x xs)
  have "c * x + c * sum_list xs \<le> ceil_div (c * x) d * d + ceil_div (c * sum_list xs) d * d"
    using ceil_div_mult_ge [OF assms] by (intro add_mono) auto
  then have "ceil_div (c * x + c * sum_list xs) d \<le> ceil_div (c * x) d + ceil_div (c * sum_list xs) d"
    using assms by (simp add: ceil_div_le_iff distrib_right)
  with Cons show ?case by (simp add: distrib_left)
qed

subsection \<open>Properties\<close>

text \<open>
  For every triple of \<open>i128\<close> operands \<open>mul_div\<close> and \<open>mul_div_ceil\<close> return the
  exact floor and ceiling of \<open>a * b / d\<close> when that fits an \<open>i128\<close>, \<open>MathOverflow\<close> when it does not and
  \<open>Domain\<close> for a negative factor or a non-positive divisor: the 256-bit intermediate never traps.
\<close>

theorem mul_div_exact:
  assumes "is_i128 a" "is_i128 b" "is_i128 d"
  shows "mul_div a b d =
      (if a < 0 \<or> b < 0 \<or> d \<le> 0 then Inl (Err Domain)
       else if a * b div d \<le> i128_max then Inr (a * b div d) else Inl (Err MathOverflow)) \<and>
    mul_div_ceil a b d =
      (if a < 0 \<or> b < 0 \<or> d \<le> 0 then Inl (Err Domain)
       else if ceil_div (a * b) d \<le> i128_max then Inr (ceil_div (a * b) d) else Inl (Err MathOverflow))"
  using mul_div_round_spec [OF assms, of False] mul_div_round_spec [OF assms, of True]
  unfolding mul_div_def mul_div_ceil_def Let_def by presburger

theorem mul_div_exact_witness:
  "mul_div i128_max i128_max (i128_max - 1) = Inl (Err MathOverflow) \<and>
   mul_div 7 10 3 = Inr 23 \<and> mul_div_ceil 7 10 3 = Inr 24"
proof (intro conjI)
  have big: "is_i128 i128_max" "is_i128 (i128_max - 1)" by (simp_all add: width_defs)
  show "mul_div i128_max i128_max (i128_max - 1) = Inl (Err MathOverflow)"
    using mul_div_exact [OF big(1) big(1) big(2)] by (simp add: width_defs)
  have small: "is_i128 7" "is_i128 10" "is_i128 3" by (simp_all add: width_defs)
  show "mul_div 7 10 3 = Inr 23" "mul_div_ceil 7 10 3 = Inr 24"
    using mul_div_exact [OF small] by (simp_all add: width_defs ceil_div_def)
qed

end
