(* ===== verification/Schedule.thy ===== *)
theory Schedule
  imports Common_Math
begin

text \<open>
  \<open>crates/common/src/schedule.rs\<close> and the types it works on (\<open>crates/common/src/types.rs\<close>): an asset's
  redemption schedule and the seconds left to its next redemption. The lemmas show that a cyclical
  schedule names the first redemption date strictly after now, and that a schedule accepted once keeps
  giving a horizon within ten years at every later time.
\<close>

datatype ScheduleMode = Rolling | Cyclical

record Schedule =
  sc_mode :: ScheduleMode
  sc_rolling_seconds :: nat
  sc_next_redemption_at :: nat
  sc_cycle_seconds :: nat
  sc_max_bps_per_day :: nat

record PriceData =
  pd_price :: int
  pd_timestamp :: nat

definition MAX_SECONDS :: nat where "MAX_SECONDS = 3650 * 86400"

definition in_horizon :: "nat \<Rightarrow> bool" where
  "in_horizon seconds \<longleftrightarrow> 1 \<le> seconds \<and> seconds \<le> MAX_SECONDS"

definition is_valid :: "nat \<Rightarrow> Schedule \<Rightarrow> ('e, bool) res" where
  "is_valid now s =
    (if sc_max_bps_per_day s = 0 then Inr False
     else if sc_mode s = Rolling then Inr (in_horizon (sc_rolling_seconds s))
     else if in_horizon (sc_cycle_seconds s) \<and> 0 < sc_next_redemption_at s
       then and_then (u64_add now MAX_SECONDS) (\<lambda>limit. Inr (sc_next_redemption_at s \<le> limit))
       else Inr False)"

definition seconds_for :: "nat \<Rightarrow> Schedule \<Rightarrow> ('e, nat option) res" where
  "seconds_for now s =
    (if sc_mode s = Rolling then Inr (Some (sc_rolling_seconds s))
     else
       let cycle = sc_cycle_seconds s; anchor = sc_next_redemption_at s in
       and_then
         (if anchor \<le> now
          then and_then (u64_sub now anchor) (\<lambda>late.
               and_then (u64_div late cycle) (\<lambda>k.
               and_then (u64_add k 1) (\<lambda>k1.
               and_then (u64_mul k1 cycle) (\<lambda>jump. u64_add anchor jump))))
          else Inr anchor) (\<lambda>anchor.
       and_then (u64_sub anchor now) (\<lambda>remaining.
         Inr (if remaining \<le> MAX_SECONDS then Some (as_u32 remaining) else None))))"

definition wf_schedule :: "Schedule \<Rightarrow> bool" where
  "wf_schedule s \<longleftrightarrow> is_u32 (sc_rolling_seconds s) \<and> is_u64 (sc_next_redemption_at s) \<and>
     is_u32 (sc_cycle_seconds s) \<and> is_u32 (sc_max_bps_per_day s)"

lemma MAX_SECONDS_u32: "MAX_SECONDS \<le> u32_max"
  by (simp add: MAX_SECONDS_def u32_max_def)

lemma as_u32_horizon [simp]: "r \<le> MAX_SECONDS \<Longrightarrow> as_u32 r = r"
  using MAX_SECONDS_u32 by (intro as_u32_id) linarith

lemma next_cycle_after:
  assumes "0 < c" "a \<le> (t::nat)"
  shows "t < a + ((t - a) div c + 1) * c" "a + ((t - a) div c + 1) * c \<le> t + c"
proof -
  have split: "(t - a) div c * c + (t - a) mod c = t - a"
    by (rule div_mult_mod_eq)
  have below: "(t - a) mod c < c"
    using assms(1) by simp
  have expand: "((t - a) div c + 1) * c = (t - a) div c * c + c"
    by (simp add: distrib_right)
  show "t < a + ((t - a) div c + 1) * c" "a + ((t - a) div c + 1) * c \<le> t + c"
    using split below assms(2) unfolding expand by linarith+
qed

lemma next_cycle_least:
  assumes "0 < c" "a \<le> (t::nat)" "t < a + k * c"
  shows "a + ((t - a) div c + 1) * c \<le> a + k * c"
proof -
  have "t - a < k * c" using assms by linarith
  then have "(t - a) div c < k" using assms(1) by (simp add: div_less_iff_less_mult)
  then have "((t - a) div c + 1) * c \<le> k * c" by (intro mult_le_mono1) simp
  then show ?thesis by simp
qed

text \<open>The cyclical branch with the arithmetic evaluated.\<close>

lemma seconds_for_cyclical:
  assumes "sc_mode s = Cyclical" "seconds_for now s = Inr (Some r)"
  defines "a \<equiv> sc_next_redemption_at s" and "c \<equiv> sc_cycle_seconds s"
  shows "if a \<le> now then 0 < c \<and> now + r = a + ((now - a) div c + 1) * c else now + r = a"
    and "r \<le> MAX_SECONDS"
proof -
  show "r \<le> MAX_SECONDS"
    using assms(1,2) by (auto simp: seconds_for_def Let_def rs split: if_splits)
  show "if a \<le> now then 0 < c \<and> now + r = a + ((now - a) div c + 1) * c else now + r = a"
    using assms(1,2) next_cycle_after(1) [of c a now]
    by (auto simp: seconds_for_def Let_def rs a_def c_def split: if_splits)
qed

lemma seconds_for_first_redemption:
  assumes "sc_mode s = Cyclical" "seconds_for now s = Inr (Some r)"
  shows "\<exists>k. now + r = sc_next_redemption_at s + k * sc_cycle_seconds s"
    and "0 < r"
    and "now < sc_next_redemption_at s + k * sc_cycle_seconds s \<Longrightarrow>
         now + r \<le> sc_next_redemption_at s + k * sc_cycle_seconds s"
proof -
  let ?a = "sc_next_redemption_at s" and ?c = "sc_cycle_seconds s"
  note r = seconds_for_cyclical(1) [OF assms]
  show "\<exists>k. now + r = ?a + k * ?c"
  proof (cases "?a \<le> now")
    case True
    with r show ?thesis by (intro exI [of _ "(now - ?a) div ?c + 1"]) simp
  next
    case False
    with r show ?thesis by (intro exI [of _ 0]) simp
  qed
  show "0 < r"
    using r next_cycle_after(1) [of ?c ?a now] by (cases "?a \<le> now") auto
  show "now + r \<le> ?a + k * ?c" if "now < ?a + k * ?c"
    using r next_cycle_least [of ?c ?a now k] that by (cases "?a \<le> now") auto
qed

text \<open>A schedule accepted at one time gives a horizon at every later time.\<close>

lemma is_valid_True_iff:
  "is_valid now s = Inr True \<longleftrightarrow> 0 < sc_max_bps_per_day s \<and>
     (if sc_mode s = Rolling then in_horizon (sc_rolling_seconds s)
      else in_horizon (sc_cycle_seconds s) \<and> 0 < sc_next_redemption_at s \<and>
        now + MAX_SECONDS \<le> u64_max \<and> sc_next_redemption_at s \<le> now + MAX_SECONDS)"
  by (auto simp: is_valid_def rs)

lemma seconds_for_defined:
  assumes valid: "is_valid t s = Inr True" and later: "t \<le> now" and "now + MAX_SECONDS \<le> u64_max"
  shows "\<exists>r. seconds_for now s = Inr (Some r) \<and> 1 \<le> r \<and> r \<le> MAX_SECONDS"
proof (cases "sc_mode s")
  case Rolling
  with valid show ?thesis
    by (auto simp: is_valid_True_iff seconds_for_def in_horizon_def)
next
  case Cyclical
  let ?a = "sc_next_redemption_at s" and ?c = "sc_cycle_seconds s"
  from Cyclical valid have c: "1 \<le> ?c" "?c \<le> MAX_SECONDS" and a: "?a \<le> t + MAX_SECONDS"
    by (auto simp: is_valid_True_iff in_horizon_def)
  show ?thesis
  proof (cases "?a \<le> now")
    case True
    let ?n = "?a + ((now - ?a) div ?c + 1) * ?c"
    have n: "now < ?n" "?n \<le> now + ?c"
      using next_cycle_after [of ?c ?a now] c True by auto
    have "(now - ?a) div ?c \<le> now"
      by (meson diff_le_self div_le_dividend order_trans)
    moreover have "1 \<le> MAX_SECONDS"
      by (simp add: MAX_SECONDS_def)
    ultimately have "(now - ?a) div ?c + 1 \<le> u64_max" "((now - ?a) div ?c + 1) * ?c \<le> u64_max"
        "?n \<le> u64_max" "?n - now \<le> MAX_SECONDS"
      using n c assms(3) by linarith+
    with Cyclical True c n show ?thesis
      by (auto simp: seconds_for_def Let_def u64_sub_def u64_div_def u64_add_def u64_mul_def)
  next
    case False
    with Cyclical a later show ?thesis
      by (auto simp: seconds_for_def Let_def u64_sub_def)
  qed
qed

lemma seconds_for_le_max:
  "seconds_for now s = Inr (Some r) \<Longrightarrow> sc_mode s = Rolling \<longrightarrow> in_horizon (sc_rolling_seconds s) \<Longrightarrow>
    r \<le> MAX_SECONDS"
  by (auto simp: seconds_for_def Let_def rs in_horizon_def split: if_splits)

subsection \<open>Properties\<close>

text \<open>
  A schedule \<open>is_valid\<close> accepted at time \<open>t\<close> prices at every later time \<open>now\<close> that a
  64-bit clock reaches ten years before its end: \<open>seconds_for\<close> returns a positive number of seconds
  within the ten-year horizon. For a cyclical schedule that is the first date of the cycle strictly
  after \<open>now\<close>: \<open>now + r\<close> is a date of the cycle and no date of the cycle lies between.
\<close>

theorem schedule_next_redemption:
  assumes "is_valid t s = Inr True" "t \<le> now" "now + MAX_SECONDS \<le> u64_max"
  shows "\<exists>r. seconds_for now s = Inr (Some r) \<and> 1 \<le> r \<and> r \<le> MAX_SECONDS \<and>
    (sc_mode s = Cyclical \<longrightarrow>
      (\<exists>k. now + r = sc_next_redemption_at s + k * sc_cycle_seconds s) \<and>
      (\<forall>k. now < sc_next_redemption_at s + k * sc_cycle_seconds s \<longrightarrow>
           now + r \<le> sc_next_redemption_at s + k * sc_cycle_seconds s))"
  using seconds_for_defined [OF assms] seconds_for_first_redemption [of s now] by blast

theorem schedule_next_redemption_witness:
  "\<exists>r. seconds_for 2500 \<lparr>sc_mode = Cyclical, sc_rolling_seconds = 0, sc_next_redemption_at = 1000,
       sc_cycle_seconds = 400, sc_max_bps_per_day = 5\<rparr> = (Inr (Some r) :: (MathError, nat option) res) \<and> r = 100 \<and> r \<le> MAX_SECONDS"
proof -
  let ?s = "\<lparr>sc_mode = Cyclical, sc_rolling_seconds = 0, sc_next_redemption_at = 1000,
       sc_cycle_seconds = 400, sc_max_bps_per_day = 5\<rparr>"
  have "is_valid 900 ?s = Inr True" "(900::nat) \<le> 2500" "2500 + MAX_SECONDS \<le> u64_max"
    by (simp_all add: is_valid_True_iff in_horizon_def MAX_SECONDS_def u64_max_def)
  from schedule_next_redemption [OF this] obtain r where
    r: "seconds_for 2500 ?s = (Inr (Some r) :: (MathError, nat option) res)"
    "r \<le> MAX_SECONDS" by auto
  moreover have "seconds_for 2500 ?s = (Inr (Some 100) :: (MathError, nat option) res)"
    by (simp add: seconds_for_def Let_def arith_defs MAX_SECONDS_def u64_max_def)
  ultimately show ?thesis by simp
qed

end
