(* ===== verification/Feed_Oracle.thy ===== *)
theory Feed_Oracle
  imports Schedule
begin

text \<open>
  \<open>contracts/oracles/feed_oracle/src/lib.rs\<close>: the SEP-40 adapter. The feed it reads (\<open>Sep40Client\<close>) is
  another contract, a parameter here. The lemmas show what a returned price is: the feed's rate,
  crossed or inverted as configured, rounded down at each step, never older than \<open>max_age\<close> on either
  leg, always positive.
\<close>

datatype Asset = Stellar address | Other string

datatype FeedError = FO_AlreadyInitialized | PairMismatch | FO_NoPrice | FO_Overflow

record FeedConfig =
  fc_source :: address
  fc_base :: address
  fc_quote :: address
  fc_base_asset :: Asset
  fc_quote_asset :: Asset
  fc_cross :: bool
  fc_base_decimals :: nat
  fc_quote_decimals :: nat
  fc_max_age :: nat
  fc_invert :: bool

record feed_oracle =
  fo_admin :: "address option"
  fo_cfg :: "FeedConfig option"

text \<open>The feed: its decimals, and its last price of an asset; \<open>None\<close> on the outside is a failed call.\<close>

record sep40 =
  s40_decimals :: "address \<Rightarrow> nat option"
  s40_lastprice :: "address \<Rightarrow> Asset \<Rightarrow> PriceData option option"

definition remote :: "'a option \<Rightarrow> (FeedError, 'a) res" where
  "remote r = (case r of None \<Rightarrow> Inl (Trap CallFailed) | Some v \<Rightarrow> Inr v)"

definition feed_initialize :: "env \<Rightarrow> address \<Rightarrow> FeedConfig \<Rightarrow> feed_oracle \<Rightarrow> (FeedError, feed_oracle) res" where
  "feed_initialize e admin cfg s =
    and_then (panic_if (fo_admin s \<noteq> None) FO_AlreadyInitialized) (\<lambda>_.
    and_then (require_auth e admin) (\<lambda>_.
      Inr (s\<lparr>fo_admin := Some admin, fo_cfg := Some cfg\<rparr>)))"

definition feed_set_config :: "env \<Rightarrow> FeedConfig \<Rightarrow> feed_oracle \<Rightarrow> (FeedError, feed_oracle) res" where
  "feed_set_config e cfg s =
    and_then (unwrap (fo_admin s)) (\<lambda>admin.
    and_then (require_auth e admin) (\<lambda>_.
      Inr (s\<lparr>fo_cfg := Some cfg\<rparr>)))"

definition feed_mul_div :: "int \<Rightarrow> int \<Rightarrow> int \<Rightarrow> (FeedError, int) res" where
  "feed_mul_div a b d = checked_math FO_NoPrice FO_Overflow (mul_div a b d)"

definition pow10 :: "nat \<Rightarrow> (FeedError, int) res" where
  "pow10 ex = and_then (panic_if (38 < ex) FO_Overflow) (\<lambda>_. Inr (10 ^ ex))"

text \<open>\<open>as i32\<close>, and \<open>i32\<close> addition, subtraction and negation, which trap on overflow.\<close>

definition as_i32 :: "nat \<Rightarrow> int" where
  "as_i32 x = (let r = int (x mod 2 ^ 32) in if r < 2 ^ 31 then r else r - 2 ^ 32)"

definition i32_checked :: "int \<Rightarrow> (FeedError, int) res" where
  "i32_checked x = (if - (2 ^ 31) \<le> x \<and> x < 2 ^ 31 then Inr x else Inl (Trap Overflow))"

definition checked_mul :: "int \<Rightarrow> int \<Rightarrow> int option" where
  "checked_mul a b = (if is_i128 (a * b) then Some (a * b) else None)"

definition fresh :: "env \<Rightarrow> nat \<Rightarrow> PriceData option \<Rightarrow> (FeedError, PriceData) res" where
  "fresh e max_age data =
    (case data of
       None \<Rightarrow> Inl (Err FO_NoPrice)
     | Some p \<Rightarrow>
         if 0 < pd_price p \<and> 0 < pd_timestamp p
         then and_then (u64_add (pd_timestamp p) max_age) (\<lambda>limit.
                if ledger_timestamp e \<le> limit then Inr p else Inl (Err FO_NoPrice))
         else Inl (Err FO_NoPrice))"

definition feed_rate :: "sep40 \<Rightarrow> env \<Rightarrow> FeedConfig \<Rightarrow> nat \<Rightarrow> (FeedError, int \<times> nat) res" where
  "feed_rate F e cfg decimals =
    and_then (remote (s40_lastprice F (fc_source cfg) (fc_base_asset cfg))) (\<lambda>d.
    and_then (fresh e (fc_max_age cfg) d) (\<lambda>head.
    and_then
      (if fc_cross cfg
       then and_then (remote (s40_lastprice F (fc_source cfg) (fc_quote_asset cfg))) (\<lambda>d.
            and_then (fresh e (fc_max_age cfg) d) (\<lambda>leg.
            and_then (pow10 decimals) (\<lambda>unit.
            and_then (feed_mul_div (pd_price head) unit (pd_price leg)) (\<lambda>raw.
              Inr (raw, min (pd_timestamp head) (pd_timestamp leg))))))
       else Inr (pd_price head, pd_timestamp head)) (\<lambda>(raw, timestamp).
    and_then
      (if fc_invert cfg
       then and_then (pow10 decimals) (\<lambda>unit. feed_mul_div unit unit raw)
       else Inr raw) (\<lambda>raw.
    and_then (panic_if (raw \<le> 0) FO_NoPrice) (\<lambda>_.
      Inr (raw, timestamp))))))"

definition scale_to_1e18 :: "int \<Rightarrow> FeedConfig \<Rightarrow> nat \<Rightarrow> (FeedError, int) res" where
  "scale_to_1e18 raw cfg decimals =
    and_then (i32_checked (18 + as_i32 (fc_quote_decimals cfg))) (\<lambda>x.
    and_then (i32_checked (x - as_i32 (fc_base_decimals cfg))) (\<lambda>x.
    and_then (i32_checked (x - as_i32 decimals)) (\<lambda>ex.
    and_then
      (if 0 \<le> ex
       then and_then (pow10 (nat ex)) (\<lambda>u. or_panic (checked_mul raw u) FO_Overflow)
       else and_then (i32_checked (- ex)) (\<lambda>m.
            and_then (pow10 (nat m)) (\<lambda>u. Inr (raw div u)))) (\<lambda>price.
    and_then (panic_if (price \<le> 0) FO_NoPrice) (\<lambda>_. Inr price)))))"

definition feed_get_price :: "sep40 \<Rightarrow> env \<Rightarrow> address \<Rightarrow> address \<Rightarrow> feed_oracle \<Rightarrow> (FeedError, PriceData) res" where
  "feed_get_price F e base quote s =
    and_then (unwrap (fo_cfg s)) (\<lambda>cfg.
    and_then (panic_if (base \<noteq> fc_base cfg \<or> quote \<noteq> fc_quote cfg) PairMismatch) (\<lambda>_.
    and_then (remote (s40_decimals F (fc_source cfg))) (\<lambda>decimals.
    and_then (feed_rate F e cfg decimals) (\<lambda>(raw, timestamp).
    and_then (scale_to_1e18 raw cfg decimals) (\<lambda>price.
      Inr \<lparr>pd_price = price, pd_timestamp = timestamp\<rparr>)))))"

subsection \<open>What a reading means\<close>

lemma remote_Inr_iff [rs]: "remote r = Inr v \<longleftrightarrow> r = Some v"
  by (cases r) (auto simp: remote_def)

lemma pow10_Inr_iff [rs]: "pow10 n = Inr u \<longleftrightarrow> n \<le> 38 \<and> u = 10 ^ n"
  by (auto simp: pow10_def rs)

lemma feed_mul_div_Inr_iff [rs]: "feed_mul_div a b d = Inr q \<longleftrightarrow> mul_div a b d = Inr q"
  by (simp add: feed_mul_div_def rs)

lemma fresh_Inr_iff [rs]:
  "fresh e m d = Inr p \<longleftrightarrow> d = Some p \<and> 0 < pd_price p \<and> 0 < pd_timestamp p \<and>
     pd_timestamp p + m \<le> u64_max \<and> ledger_timestamp e \<le> pd_timestamp p + m"
  by (auto simp: fresh_def rs split: option.splits if_splits)

lemma i32_checked_Inr_iff [rs]: "i32_checked x = Inr y \<longleftrightarrow> y = x \<and> - (2 ^ 31) \<le> x \<and> x < 2 ^ 31"
  by (auto simp: i32_checked_def)

lemma as_i32_id: "x < 2 ^ 31 \<Longrightarrow> as_i32 x = int x"
  by (simp add: as_i32_def Let_def)

text \<open>The rate before scaling, as one rational rounded down at each division.\<close>

definition rate_spec :: "FeedConfig \<Rightarrow> nat \<Rightarrow> int \<Rightarrow> int \<Rightarrow> int" where
  "rate_spec cfg decimals head leg =
    (let r = (if fc_cross cfg then head * 10 ^ decimals div leg else head) in
     if fc_invert cfg then 10 ^ decimals * 10 ^ decimals div r else r)"

text \<open>Shifting the decimal point by \<open>e\<close> places, down for a negative \<open>e\<close>.\<close>

definition shift10 :: "int \<Rightarrow> int \<Rightarrow> int" where
  "shift10 raw x = (if 0 \<le> x then raw * 10 ^ nat x else raw div 10 ^ nat (- x))"

lemma scale_to_1e18_Inr:
  assumes "scale_to_1e18 raw cfg decimals = Inr price"
    and "fc_base_decimals cfg < 2 ^ 31" "fc_quote_decimals cfg < 2 ^ 31" "decimals < 2 ^ 31"
  shows "0 < price" "price = shift10 raw (18 + int (fc_quote_decimals cfg) - int (fc_base_decimals cfg) - int decimals)"
  using assms(1) unfolding scale_to_1e18_def as_i32_id [OF assms(2)] as_i32_id [OF assms(3)] as_i32_id [OF assms(4)]
  by (auto simp: rs shift10_def checked_mul_def split: if_splits)

lemma feed_rate_Inr:
  assumes "feed_rate F e cfg decimals = Inr (raw, timestamp)"
  obtains head leg where
    "s40_lastprice F (fc_source cfg) (fc_base_asset cfg) = Some (Some head)"
    "fc_cross cfg \<longrightarrow> s40_lastprice F (fc_source cfg) (fc_quote_asset cfg) = Some (Some leg)"
    "raw = rate_spec cfg decimals (pd_price head) (pd_price leg)"
    "timestamp = (if fc_cross cfg then min (pd_timestamp head) (pd_timestamp leg) else pd_timestamp head)"
    "ledger_timestamp e \<le> timestamp + fc_max_age cfg"
proof (cases "fc_cross cfg")
  case True
  from assms obtain head leg where
    "s40_lastprice F (fc_source cfg) (fc_base_asset cfg) = Some (Some head)"
    "s40_lastprice F (fc_source cfg) (fc_quote_asset cfg) = Some (Some leg)"
    "raw = rate_spec cfg decimals (pd_price head) (pd_price leg)"
    "timestamp = min (pd_timestamp head) (pd_timestamp leg)"
    "ledger_timestamp e \<le> pd_timestamp head + fc_max_age cfg"
    "ledger_timestamp e \<le> pd_timestamp leg + fc_max_age cfg"
    unfolding feed_rate_def if_P [OF True]
    by (auto simp: rs rate_spec_def Let_def True split: if_splits)
  with True show thesis by (intro that [of head leg]) auto
next
  case False
  from assms obtain head where
    "s40_lastprice F (fc_source cfg) (fc_base_asset cfg) = Some (Some head)"
    "raw = rate_spec cfg decimals (pd_price head) 0"
    "timestamp = pd_timestamp head"
    "ledger_timestamp e \<le> pd_timestamp head + fc_max_age cfg"
    unfolding feed_rate_def if_not_P [OF False]
    by (auto simp: rs rate_spec_def Let_def False split: if_splits)
  with False show thesis
    by (intro that [of head "\<lparr>pd_price = 0, pd_timestamp = 0\<rparr>"]) auto
qed

subsection \<open>Properties\<close>

text \<open>
  A price the feed adapter returns is for the configured pair, is positive, equals the
  feed's rate (crossed through the second asset and inverted as configured, each division rounded
  down) shifted by \<open>18 + quote_decimals - base_decimals - decimals\<close> decimal places, and carries the older
  of the times of the readings it used, which is at most \<open>max_age\<close> old.
\<close>

theorem feed_price_meaning:
  assumes "feed_get_price F e base quote s = Inr p" "fo_cfg s = Some cfg"
    and "s40_decimals F (fc_source cfg) = Some decimals"
    and "fc_base_decimals cfg < 2 ^ 31" "fc_quote_decimals cfg < 2 ^ 31" "decimals < 2 ^ 31"
  shows "base = fc_base cfg \<and> quote = fc_quote cfg \<and> 0 < pd_price p \<and>
    ledger_timestamp e \<le> pd_timestamp p + fc_max_age cfg \<and>
    (\<exists>head leg. s40_lastprice F (fc_source cfg) (fc_base_asset cfg) = Some (Some head) \<and>
       (fc_cross cfg \<longrightarrow> s40_lastprice F (fc_source cfg) (fc_quote_asset cfg) = Some (Some leg)) \<and>
       pd_price p = shift10 (rate_spec cfg decimals (pd_price head) (pd_price leg))
         (18 + int (fc_quote_decimals cfg) - int (fc_base_decimals cfg) - int decimals) \<and>
       pd_timestamp p = (if fc_cross cfg then min (pd_timestamp head) (pd_timestamp leg) else pd_timestamp head))"
proof -
  from assms(1-3) obtain raw timestamp where
    pair: "base = fc_base cfg" "quote = fc_quote cfg"
    and rate: "feed_rate F e cfg decimals = Inr (raw, timestamp)"
    and scale: "scale_to_1e18 raw cfg decimals = Inr (pd_price p)" and ts: "pd_timestamp p = timestamp"
    by (auto simp: feed_get_price_def rs)
  note price = scale_to_1e18_Inr [OF scale assms(4-6)]
  from rate obtain head leg where
    "s40_lastprice F (fc_source cfg) (fc_base_asset cfg) = Some (Some head)"
    "fc_cross cfg \<longrightarrow> s40_lastprice F (fc_source cfg) (fc_quote_asset cfg) = Some (Some leg)"
    "raw = rate_spec cfg decimals (pd_price head) (pd_price leg)"
    "timestamp = (if fc_cross cfg then min (pd_timestamp head) (pd_timestamp leg) else pd_timestamp head)"
    "ledger_timestamp e \<le> timestamp + fc_max_age cfg"
    by (rule feed_rate_Inr)
  with pair price ts show ?thesis by blast
qed

theorem feed_price_meaning_witness:
  "(let F = \<lparr>s40_decimals = (\<lambda>_. Some 14),
             s40_lastprice = (\<lambda>_ a. Some (Some \<lparr>pd_price = (if a = Other ''XLM'' then 25000000000000 else 10 ^ 14),
               pd_timestamp = 100\<rparr>))\<rparr>;
        cfg = \<lparr>fc_source = this_contract, fc_base = token_a, fc_quote = token_b, fc_base_asset = Other ''XLM'',
          fc_quote_asset = Other ''USDC'', fc_cross = True, fc_base_decimals = 7, fc_quote_decimals = 7,
          fc_max_age = 60, fc_invert = False\<rparr> in
    feed_get_price F (demo_env 150) token_a token_b \<lparr>fo_admin = None, fo_cfg = Some cfg\<rparr> =
      Inr \<lparr>pd_price = 250000000000000000, pd_timestamp = 100\<rparr> \<and> (150::nat) \<le> 100 + fc_max_age cfg)"
proof -
  let ?F = "\<lparr>s40_decimals = (\<lambda>_. Some 14),
             s40_lastprice = (\<lambda>_ a. Some (Some \<lparr>pd_price = (if a = Other ''XLM'' then 25000000000000 else 10 ^ 14),
               pd_timestamp = 100\<rparr>))\<rparr>"
  let ?cfg = "\<lparr>fc_source = this_contract, fc_base = token_a, fc_quote = token_b, fc_base_asset = Other ''XLM'',
          fc_quote_asset = Other ''USDC'', fc_cross = True, fc_base_decimals = 7, fc_quote_decimals = 7,
          fc_max_age = 60, fc_invert = False\<rparr>"
  have "feed_get_price ?F (demo_env 150) token_a token_b \<lparr>fo_admin = None, fo_cfg = Some ?cfg\<rparr> =
      Inr \<lparr>pd_price = 250000000000000000, pd_timestamp = 100\<rparr>"
    by (simp add: feed_get_price_def feed_rate_def remote_def fresh_def pow10_def feed_mul_div_def checked_math_def
        mul_div_def mul_div_round_floor scale_to_1e18_def i32_checked_def as_i32_def checked_mul_def
        arith_defs width_defs)
  from feed_price_meaning [OF this, of ?cfg 14] this show ?thesis by (simp add: Let_def)
qed

end
