(* ===== verification/Push_Oracle.thy ===== *)
theory Push_Oracle
  imports Schedule
begin

text \<open>
  \<open>contracts/oracles/push_oracle/src/lib.rs\<close>: the price store that keepers push to. The lemmas show
  that a price an updater pushes stays within the configured deviation of the last one, that the
  times of the stored prices only advance and never lie in the future, and how far any number of
  updater pushes can drift.
\<close>

datatype PushError = NotUpdater | InvalidPrice | StaleOrFuture | DeviationTooLarge | PO_NoPrice

record push_oracle =
  po_admin :: "address option"
  po_max_deviation :: "nat option"
  po_updaters :: "address \<rightharpoonup> bool"
  po_prices :: "address \<times> address \<rightharpoonup> PriceData"

definition po_empty :: push_oracle where
  "po_empty = \<lparr>po_admin = None, po_max_deviation = None, po_updaters = Map.empty, po_prices = Map.empty\<rparr>"

definition po_constructor :: "address \<Rightarrow> nat \<Rightarrow> push_oracle \<Rightarrow> push_oracle" where
  "po_constructor admin max_deviation_bps s =
    s\<lparr>po_admin := Some admin, po_max_deviation := Some max_deviation_bps\<rparr>"

definition oracle_admin :: "push_oracle \<Rightarrow> (PushError, address) res" where
  "oracle_admin s = unwrap (po_admin s)"

definition max_deviation_bps :: "push_oracle \<Rightarrow> (PushError, nat) res" where
  "max_deviation_bps s = unwrap (po_max_deviation s)"

definition is_updater :: "push_oracle \<Rightarrow> address \<Rightarrow> bool" where
  "is_updater s who = (po_updaters s who = Some True)"

definition po_set_admin :: "env \<Rightarrow> address \<Rightarrow> push_oracle \<Rightarrow> (PushError, push_oracle) res" where
  "po_set_admin e admin s =
    and_then (oracle_admin s) (\<lambda>a.
    and_then (require_auth e a) (\<lambda>_.
      Inr (s\<lparr>po_admin := Some admin\<rparr>)))"

definition set_max_deviation :: "env \<Rightarrow> nat \<Rightarrow> push_oracle \<Rightarrow> (PushError, push_oracle) res" where
  "set_max_deviation e bps s =
    and_then (oracle_admin s) (\<lambda>a.
    and_then (require_auth e a) (\<lambda>_.
      Inr (s\<lparr>po_max_deviation := Some bps\<rparr>)))"

definition set_updater :: "env \<Rightarrow> address \<Rightarrow> bool \<Rightarrow> push_oracle \<Rightarrow> (PushError, push_oracle) res" where
  "set_updater e updater allowed s =
    and_then (oracle_admin s) (\<lambda>a.
    and_then (require_auth e a) (\<lambda>_.
      Inr (s\<lparr>po_updaters := (po_updaters s)(updater \<mapsto> allowed)\<rparr>)))"

text \<open>The closure of the deviation check: its arithmetic runs only when the bound applies.\<close>

definition deviates :: "bool \<Rightarrow> int \<Rightarrow> int \<Rightarrow> PriceData \<Rightarrow> (PushError, bool) res" where
  "deviates is_admin mx price l =
    (if \<not> is_admin \<and> 0 < mx
     then and_then (i128_sub price (pd_price l)) (\<lambda>d.
          and_then (i128_abs d) (\<lambda>d.
          and_then (i128_mul d BPS) (\<lambda>lhs.
          and_then (i128_mul (pd_price l) mx) (\<lambda>rhs. Inr (rhs < lhs)))))
     else Inr False)"

definition push :: "env \<Rightarrow> address \<Rightarrow> address \<Rightarrow> address \<Rightarrow> int \<Rightarrow> nat \<Rightarrow> push_oracle \<Rightarrow>
    (PushError, push_oracle) res" where
  "push e caller base quote price timestamp s =
    and_then (require_auth e caller) (\<lambda>_.
    and_then (oracle_admin s) (\<lambda>admin.
      let is_admin = (caller = admin) in
      and_then (panic_if (\<not> is_admin \<and> \<not> is_updater s caller) NotUpdater) (\<lambda>_.
      and_then (panic_if (price \<le> 0) InvalidPrice) (\<lambda>_.
        let last = po_prices s (base, quote) in
        and_then (panic_if (ledger_timestamp e < timestamp \<or>
            (case last of None \<Rightarrow> False | Some l \<Rightarrow> timestamp \<le> pd_timestamp l)) StaleOrFuture) (\<lambda>_.
        and_then (max_deviation_bps s) (\<lambda>mx.
        and_then (case last of None \<Rightarrow> Inr False | Some l \<Rightarrow> deviates is_admin (int mx) price l) (\<lambda>far.
        and_then (panic_if far DeviationTooLarge) (\<lambda>_.
          Inr (s\<lparr>po_prices := (po_prices s)((base, quote) \<mapsto>
            \<lparr>pd_price = price, pd_timestamp = timestamp\<rparr>)\<rparr>)))))))))"

definition get_price :: "address \<Rightarrow> address \<Rightarrow> push_oracle \<Rightarrow> (PushError, PriceData) res" where
  "get_price base quote s = or_panic (po_prices s (base, quote)) PO_NoPrice"

subsection \<open>One push\<close>

lemma push_Inr:
  assumes "push e caller base quote price timestamp s = Inr s'"
  obtains admin mx where "po_admin s = Some admin" "po_max_deviation s = Some mx"
    "authorised e caller" "caller = admin \<or> is_updater s caller" "0 < price" "timestamp \<le> ledger_timestamp e"
    "\<And>l. po_prices s (base, quote) = Some l \<Longrightarrow> pd_timestamp l < timestamp \<and>
       (caller = admin \<or> mx = 0 \<or> \<bar>price - pd_price l\<bar> * BPS \<le> pd_price l * int mx)"
    "s' = s\<lparr>po_prices := (po_prices s)((base, quote) \<mapsto> \<lparr>pd_price = price, pd_timestamp = timestamp\<rparr>)\<rparr>"
  using assms
  by (auto simp: push_def Let_def rs oracle_admin_def max_deviation_bps_def deviates_def
      split: option.splits if_splits intro: that)

definition prices_ok :: "nat \<Rightarrow> push_oracle \<Rightarrow> bool" where
  "prices_ok now s \<longleftrightarrow> (\<forall>k p. po_prices s k = Some p \<longrightarrow> 0 < pd_price p \<and> pd_timestamp p \<le> now)"

lemma prices_ok_push:
  assumes "prices_ok t s" "t \<le> ledger_timestamp e" "push e c b q x ts s = Inr s'"
  shows "prices_ok (ledger_timestamp e) s'"
  using assms(3)
proof (rule push_Inr)
  assume "0 < x" "ts \<le> ledger_timestamp e"
    "s' = s\<lparr>po_prices := (po_prices s)((b, q) \<mapsto> \<lparr>pd_price = x, pd_timestamp = ts\<rparr>)\<rparr>"
  with assms(1,2) show ?thesis by (fastforce simp: prices_ok_def)
qed

text \<open>A step of at most \<open>mx\<close> basis points, as a bound on both sides.\<close>

lemma deviation_bounds:
  fixes p l m :: int
  assumes "\<bar>p - l\<bar> * BPS \<le> l * m"
  shows "p * BPS \<le> l * (BPS + m)" "l * (BPS - m) \<le> p * BPS"
proof -
  have "(p - l) * BPS \<le> \<bar>p - l\<bar> * BPS" "(l - p) * BPS \<le> \<bar>p - l\<bar> * BPS"
    by (intro mult_right_mono; simp add: BPS_def)+
  with assms have "(p - l) * BPS \<le> l * m" "(l - p) * BPS \<le> l * m" by linarith+
  then show "p * BPS \<le> l * (BPS + m)" "l * (BPS - m) \<le> p * BPS"
    by (simp_all add: algebra_simps)
qed

subsection \<open>Runs of updater pushes on one pair\<close>

text \<open>
  \<open>updater_run base quote s ps s'\<close>: callers that are not the admin push the prices \<open>ps\<close>, in order, on
  one pair.
\<close>

inductive updater_run :: "address \<Rightarrow> address \<Rightarrow> push_oracle \<Rightarrow> int list \<Rightarrow> push_oracle \<Rightarrow> bool" where
  done_run: "updater_run b q s [] s"
| push_run: "updater_run b q s ps s1 \<Longrightarrow> po_admin s1 \<noteq> Some c \<Longrightarrow>
    push e c b q x ts s1 = Inr s2 \<Longrightarrow> updater_run b q s (ps @ [x]) s2"

lemma drift_step:
  fixes x y p0 m B :: int
  assumes "0 < B" "0 \<le> m" "m \<le> B" "0 < p0"
    and hi: "x * B ^ n \<le> p0 * (B + m) ^ n" and lo: "p0 * (B - m) ^ n \<le> x * B ^ n"
    and step: "y * B \<le> x * (B + m)" "x * (B - m) \<le> y * B"
  shows "y * B ^ Suc n \<le> p0 * (B + m) ^ Suc n" "p0 * (B - m) ^ Suc n \<le> y * B ^ Suc n"
proof -
  have "y * B * B ^ n \<le> x * (B + m) * B ^ n"
    using step(1) assms(1) by (intro mult_right_mono) auto
  also have "\<dots> = x * B ^ n * (B + m)" by (simp add: algebra_simps)
  also have "\<dots> \<le> p0 * (B + m) ^ n * (B + m)"
    using hi assms(1,2) by (intro mult_right_mono) auto
  finally show "y * B ^ Suc n \<le> p0 * (B + m) ^ Suc n" by (simp add: algebra_simps)
  have "p0 * (B - m) ^ n * (B - m) \<le> x * B ^ n * (B - m)"
    using lo assms(3) by (intro mult_right_mono) auto
  also have "\<dots> = x * (B - m) * B ^ n" by (simp add: algebra_simps)
  also have "\<dots> \<le> y * B * B ^ n"
    using step(2) assms(1) by (intro mult_right_mono) auto
  finally show "p0 * (B - m) ^ Suc n \<le> y * B ^ Suc n" by (simp add: algebra_simps)
qed

lemma updater_run_drift:
  assumes "updater_run b q s ps s'" "po_prices s (b, q) = Some l" "0 < pd_price l"
    and "po_max_deviation s = Some mx" "0 < mx" "mx \<le> 10000"
  shows "po_max_deviation s' = Some mx \<and> (\<exists>l'. po_prices s' (b, q) = Some l' \<and>
     pd_timestamp l + length ps \<le> pd_timestamp l' \<and> (ps \<noteq> [] \<longrightarrow> pd_price l' = last ps) \<and>
     pd_price l' * BPS ^ length ps \<le> pd_price l * (BPS + int mx) ^ length ps \<and>
     pd_price l * (BPS - int mx) ^ length ps \<le> pd_price l' * BPS ^ length ps)"
  using assms
proof (induction rule: updater_run.induct)
  case (push_run b q s ps s1 c e x ts s2)
  then obtain l1 where ih: "po_max_deviation s1 = Some mx" "po_prices s1 (b, q) = Some l1"
    "pd_timestamp l + length ps \<le> pd_timestamp l1"
    "pd_price l1 * BPS ^ length ps \<le> pd_price l * (BPS + int mx) ^ length ps"
    "pd_price l * (BPS - int mx) ^ length ps \<le> pd_price l1 * BPS ^ length ps"
    by auto
  from push_run.hyps(3) show ?case
  proof (rule push_Inr)
    fix admin mx'
    assume adm: "po_admin s1 = Some admin" "po_max_deviation s1 = Some mx'"
      and last: "\<And>l. po_prices s1 (b, q) = Some l \<Longrightarrow> pd_timestamp l < ts \<and>
         (c = admin \<or> mx' = 0 \<or> \<bar>x - pd_price l\<bar> * BPS \<le> pd_price l * int mx')"
      and s2: "s2 = s1\<lparr>po_prices := (po_prices s1)((b, q) \<mapsto> \<lparr>pd_price = x, pd_timestamp = ts\<rparr>)\<rparr>"
    have step: "\<bar>x - pd_price l1\<bar> * BPS \<le> pd_price l1 * int mx" and ts: "pd_timestamp l1 < ts"
      using last [OF ih(2)] adm ih(1) push_run.hyps(2) push_run.prems(4) by auto
    have "x * BPS ^ Suc (length ps) \<le> pd_price l * (BPS + int mx) ^ Suc (length ps)"
      "pd_price l * (BPS - int mx) ^ Suc (length ps) \<le> x * BPS ^ Suc (length ps)"
      using ih(4,5) deviation_bounds [OF step] push_run.prems
      by (intro drift_step [of BPS "int mx" "pd_price l" "pd_price l1"]; simp add: BPS_def)+
    with s2 ih ts show ?thesis by simp
  qed
qed auto

subsection \<open>Properties\<close>

text \<open>
  However many times callers other than the admin push a pair's price, \<open>n\<close> pushes move it
  by at most \<open>(1 + max/10000)^n\<close> up and \<open>(1 - max/10000)^n\<close> down from the price they started at, the
  bound in force never changes in between, the stored price is the last one pushed, and its
  timestamp advances with every push.
\<close>

theorem push_oracle_bounded_drift:
  assumes "updater_run base quote s ps s'" "po_prices s (base, quote) = Some l" "0 < pd_price l"
    and "po_max_deviation s = Some mx" "0 < mx" "mx \<le> 10000" "ps \<noteq> []"
  shows "\<exists>l'. get_price base quote s' = Inr l' \<and> pd_price l' = last ps \<and>
     pd_timestamp l + length ps \<le> pd_timestamp l' \<and> po_max_deviation s' = Some mx \<and>
     pd_price l' * BPS ^ length ps \<le> pd_price l * (BPS + int mx) ^ length ps \<and>
     pd_price l * (BPS - int mx) ^ length ps \<le> pd_price l' * BPS ^ length ps"
  using updater_run_drift [OF assms(1-6)] assms(7) by (auto simp: get_price_def)

theorem push_oracle_bounded_drift_witness:
  "\<exists>s' l'. updater_run token_a token_b
      \<lparr>po_admin = Some admin_addr, po_max_deviation = Some 500, po_updaters = [alice \<mapsto> True],
       po_prices = [(token_a, token_b) \<mapsto> \<lparr>pd_price = 10000, pd_timestamp = 5\<rparr>]\<rparr> [10500, 10000] s' \<and>
     get_price token_a token_b s' = Inr l' \<and> pd_price l' = 10000 \<and> 7 \<le> pd_timestamp l'"
proof -
  let ?s = "\<lparr>po_admin = Some admin_addr, po_max_deviation = Some 500, po_updaters = [alice \<mapsto> True],
       po_prices = [(token_a, token_b) \<mapsto> \<lparr>pd_price = 10000, pd_timestamp = 5\<rparr>]\<rparr>"
  let ?at = "\<lambda>x t. ?s\<lparr>po_prices := [(token_a, token_b) \<mapsto> \<lparr>pd_price = x, pd_timestamp = t\<rparr>]\<rparr>"
  have 1: "push (demo_env 9) alice token_a token_b 10500 6 ?s = Inr (?at 10500 6)"
    and 2: "push (demo_env 9) alice token_a token_b 10000 7 (?at 10500 6) = Inr (?at 10000 7)"
    by (simp_all add: push_def Let_def oracle_admin_def max_deviation_bps_def deviates_def is_updater_def
        arith_defs width_defs BPS_def)
  have "updater_run token_a token_b ?s ([] @ [10500]) (?at 10500 6)"
    by (rule push_run [OF done_run _ 1]) simp
  then have "updater_run token_a token_b ?s (([] @ [10500]) @ [10000]) (?at 10000 7)"
    by (rule push_run [OF _ _ 2]) simp
  then have run: "updater_run token_a token_b ?s [10500, 10000] (?at 10000 7)" by simp
  from push_oracle_bounded_drift [OF run, of "\<lparr>pd_price = 10000, pd_timestamp = 5\<rparr>" 500] run show ?thesis
    by fastforce
qed

end
