(* ===== verification/Token_Interface.thy ===== *)
theory Token_Interface
  imports Schedule
begin

text \<open>
  The contracts a component calls but does not contain: SEP-41 tokens and price oracles. \<open>'w\<close> is the
  state of everything outside the contract under study; a \<open>host\<close> holds the calls into it. The Soroban
  host forbids re-entry, so such a call changes \<open>'w\<close> and never the caller's own storage. Every
  definition that moves tokens takes the host as an argument and holds for any token, also one that
  taxes transfers.

  Two interfaces are stated as locales. \<open>sep41_token\<close> is one token contract seen from its own
  operations; it is interpreted by the repository's own tokens (\<open>Test_Token\<close>, \<open>Shares\<close>). \<open>sep41_host\<close>
  is the view of a client that calls many tokens by address; it follows from the first
  (\<open>lift_host_sep41\<close>).
\<close>

record 'w host =
  tk_balance :: "address \<Rightarrow> address \<Rightarrow> 'w \<Rightarrow> int"
  tk_transfer :: "env \<Rightarrow> address \<Rightarrow> address \<Rightarrow> address \<Rightarrow> int \<Rightarrow> 'w \<Rightarrow> 'w option"
  tk_transfer_from :: "env \<Rightarrow> address \<Rightarrow> address \<Rightarrow> address \<Rightarrow> address \<Rightarrow> int \<Rightarrow> 'w \<Rightarrow> 'w option"
  tk_approve :: "env \<Rightarrow> address \<Rightarrow> address \<Rightarrow> address \<Rightarrow> int \<Rightarrow> nat \<Rightarrow> 'w \<Rightarrow> 'w option"
  or_get_price :: "env \<Rightarrow> address \<Rightarrow> address \<Rightarrow> address \<Rightarrow> 'w \<Rightarrow> PriceData option"

text \<open>The calls of \<open>token::Client\<close>: a failing call traps the caller.\<close>

definition call_result :: "'a option \<Rightarrow> ('e, 'a) res" where
  "call_result r = (case r of None \<Rightarrow> Inl (Trap CallFailed) | Some v \<Rightarrow> Inr v)"

definition token_transfer ::
  "'w host \<Rightarrow> env \<Rightarrow> address \<Rightarrow> address \<Rightarrow> address \<Rightarrow> int \<Rightarrow> 'w \<Rightarrow> ('e, 'w) res" where
  "token_transfer H e tok from to amount w =
     call_result (tk_transfer H (calling e tok) tok from to amount w)"

definition token_transfer_from ::
  "'w host \<Rightarrow> env \<Rightarrow> address \<Rightarrow> address \<Rightarrow> address \<Rightarrow> address \<Rightarrow> int \<Rightarrow> 'w \<Rightarrow> ('e, 'w) res" where
  "token_transfer_from H e tok spender from to amount w =
     call_result (tk_transfer_from H (calling e tok) tok spender from to amount w)"

definition token_approve ::
  "'w host \<Rightarrow> env \<Rightarrow> address \<Rightarrow> address \<Rightarrow> address \<Rightarrow> int \<Rightarrow> nat \<Rightarrow> 'w \<Rightarrow> ('e, 'w) res" where
  "token_approve H e tok from spender amount until w =
     call_result (tk_approve H (calling e tok) tok from spender amount until w)"

lemma call_result_Inr_iff [rs]: "call_result r = Inr v \<longleftrightarrow> r = Some v"
  by (auto simp: call_result_def split: option.splits)

lemma call_result_simps [simp]:
  "call_result (Some v) = Inr v"
  "call_result None = Inl (Trap CallFailed)"
  by (simp_all add: call_result_def)

text \<open>A balance function after \<open>x\<close> has moved from \<open>a\<close> to \<open>b\<close>.\<close>

definition moved :: "address \<Rightarrow> address \<Rightarrow> int \<Rightarrow> (address \<Rightarrow> int) \<Rightarrow> address \<Rightarrow> int" where
  "moved a b x f c = f c - (if c = a then x else 0) + (if c = b then x else 0)"

lemma moved_simps [simp]:
  "moved a a x f c = f c"
  "a \<noteq> b \<Longrightarrow> moved a b x f a = f a - x"
  "a \<noteq> b \<Longrightarrow> moved a b x f b = f b + x"
  "c \<noteq> a \<Longrightarrow> c \<noteq> b \<Longrightarrow> moved a b x f c = f c"
  by (auto simp: moved_def)

lemma moved_total:
  assumes "finite K" "a \<in> K" "b \<in> K"
  shows "total_over K (moved a b x f) = total_over K f"
proof -
  have "moved a b x f = (let g = f(a := f a - x) in g(b := g b + x))"
    by (auto simp: moved_def fun_eq_iff)
  with assms show ?thesis by (simp add: Let_def total_over_upd)
qed

subsection \<open>Pre-authorised calls\<close>

text \<open>
  The host's \<open>InvokerContractAuthEntry\<close>: a call of a contract with the calls nested beneath it, or one of the two ways to deploy
  a contract, which the contracts only tell apart from a call.
\<close>

datatype InvokerContractAuthEntry =
    ContractEntry address symbol "val list" "InvokerContractAuthEntry list"
  | CreateContractEntry "byte list"
  | CreateContractWithCtorEntry "byte list"

text \<open>The one entry the adapters authorise: a transfer of their own tokens.\<close>

definition transfer_entry :: "address \<Rightarrow> address \<Rightarrow> address \<Rightarrow> int \<Rightarrow> InvokerContractAuthEntry" where
  "transfer_entry tok from_a to_a amount = ContractEntry tok ''transfer'' [AddressVal from_a, AddressVal to_a, I128Val amount] []"

subsection \<open>One SEP-41 token\<close>

locale sep41_token =
  fixes balance :: "'s \<Rightarrow> address \<Rightarrow> int"
    and transfer :: "env \<Rightarrow> address \<Rightarrow> address \<Rightarrow> int \<Rightarrow> 's \<Rightarrow> ('e, 's) res"
    and transfer_from :: "env \<Rightarrow> address \<Rightarrow> address \<Rightarrow> address \<Rightarrow> int \<Rightarrow> 's \<Rightarrow> ('e, 's) res"
    and approve :: "env \<Rightarrow> address \<Rightarrow> address \<Rightarrow> int \<Rightarrow> nat \<Rightarrow> 's \<Rightarrow> ('e, 's) res"
  assumes transfer_moves: "transfer e a b x s = Inr s' \<Longrightarrow>
      authorised e a \<and> 0 \<le> x \<and> x \<le> balance s a \<and> balance s' = moved a b x (balance s)"
    and transfer_from_moves: "transfer_from e p a b x s = Inr s' \<Longrightarrow>
      authorised e p \<and> 0 \<le> x \<and> x \<le> balance s a \<and> balance s' = moved a b x (balance s)"
    and approve_keeps: "approve e a p x u s = Inr s' \<Longrightarrow>
      authorised e a \<and> balance s' = balance s"
begin

lemma transfer_conserves:
  "transfer e a b x s = Inr s' \<Longrightarrow> finite K \<Longrightarrow> a \<in> K \<Longrightarrow> b \<in> K \<Longrightarrow>
     total_over K (balance s') = total_over K (balance s)"
  using transfer_moves by (simp add: moved_total)

lemma transfer_from_conserves:
  "transfer_from e p a b x s = Inr s' \<Longrightarrow> finite K \<Longrightarrow> a \<in> K \<Longrightarrow> b \<in> K \<Longrightarrow>
     total_over K (balance s') = total_over K (balance s)"
  using transfer_from_moves by (simp add: moved_total)

end

subsection \<open>Many tokens by address\<close>

locale sep41_host =
  fixes H :: "'w host"
  assumes host_transfer: "tk_transfer H e tok a b x w = Some w' \<Longrightarrow>
      authorised e a \<and> 0 \<le> x \<and> x \<le> tk_balance H tok a w \<and>
      (\<forall>t c. tk_balance H t c w' =
         (if t = tok then moved a b x (\<lambda>c. tk_balance H tok c w) c else tk_balance H t c w))"
    and host_transfer_from: "tk_transfer_from H e tok p a b x w = Some w' \<Longrightarrow>
      authorised e p \<and> 0 \<le> x \<and> x \<le> tk_balance H tok a w \<and>
      (\<forall>t c. tk_balance H t c w' =
         (if t = tok then moved a b x (\<lambda>c. tk_balance H tok c w) c else tk_balance H t c w))"
    and host_approve: "tk_approve H e tok a p x u w = Some w' \<Longrightarrow>
      authorised e a \<and> (\<forall>t c. tk_balance H t c w' = tk_balance H t c w)"
begin

lemma token_transfer_moves:
  assumes "token_transfer H e tok a b x w = Inr w'"
  shows "0 \<le> x" "x \<le> tk_balance H tok a w" "a = current_contract e \<or> signed e a"
    "tk_balance H t c w' =
       (if t = tok then moved a b x (\<lambda>c. tk_balance H tok c w) c else tk_balance H t c w)"
  using assms host_transfer by (fastforce simp: token_transfer_def rs)+

lemma token_transfer_from_moves:
  assumes "token_transfer_from H e tok p a b x w = Inr w'"
  shows "0 \<le> x" "x \<le> tk_balance H tok a w" "p = current_contract e \<or> signed e p"
    "tk_balance H t c w' =
       (if t = tok then moved a b x (\<lambda>c. tk_balance H tok c w) c else tk_balance H t c w)"
  using assms host_transfer_from by (fastforce simp: token_transfer_from_def rs)+

lemma token_approve_keeps:
  "token_approve H e tok a p x u w = Inr w' \<Longrightarrow> tk_balance H t c w' = tk_balance H t c w"
  using host_approve by (auto simp: token_approve_def rs)

end

text \<open>
  A host whose tokens all run one token contract, each address with its own storage, and whose
  oracles answer \<open>prices\<close>.
\<close>

definition lift_host ::
  "('s \<Rightarrow> address \<Rightarrow> int) \<Rightarrow>
   (env \<Rightarrow> address \<Rightarrow> address \<Rightarrow> int \<Rightarrow> 's \<Rightarrow> ('e, 's) res) \<Rightarrow>
   (env \<Rightarrow> address \<Rightarrow> address \<Rightarrow> address \<Rightarrow> int \<Rightarrow> 's \<Rightarrow> ('e, 's) res) \<Rightarrow>
   (env \<Rightarrow> address \<Rightarrow> address \<Rightarrow> int \<Rightarrow> nat \<Rightarrow> 's \<Rightarrow> ('e, 's) res) \<Rightarrow>
   (env \<Rightarrow> address \<Rightarrow> address \<Rightarrow> address \<Rightarrow> 'o \<Rightarrow> PriceData option) \<Rightarrow>
   ((address \<Rightarrow> 's) \<times> 'o) host" where
  "lift_host bal tr trf app prices =
    \<lparr>tk_balance = (\<lambda>tok c w. bal (fst w tok) c),
     tk_transfer = (\<lambda>e tok a b x w.
       map_option (\<lambda>s. ((fst w)(tok := s), snd w)) (try_call (tr e a b x (fst w tok)))),
     tk_transfer_from = (\<lambda>e tok p a b x w.
       map_option (\<lambda>s. ((fst w)(tok := s), snd w)) (try_call (trf e p a b x (fst w tok)))),
     tk_approve = (\<lambda>e tok a p x u w.
       map_option (\<lambda>s. ((fst w)(tok := s), snd w)) (try_call (app e a p x u (fst w tok)))),
     or_get_price = (\<lambda>e oracle base quote w. prices e oracle base quote (snd w))\<rparr>"

lemma lift_host_sep41:
  assumes "sep41_token bal tr trf app"
  shows "sep41_host (lift_host bal tr trf app prices)"
proof
  fix e tok a b x w w'
  assume "tk_transfer (lift_host bal tr trf app prices) e tok a b x w = Some w'"
  then show "authorised e a \<and> 0 \<le> x \<and> x \<le> tk_balance (lift_host bal tr trf app prices) tok a w \<and>
    (\<forall>t c. tk_balance (lift_host bal tr trf app prices) t c w' =
      (if t = tok then moved a b x (\<lambda>c. tk_balance (lift_host bal tr trf app prices) tok c w) c
       else tk_balance (lift_host bal tr trf app prices) t c w))"
    using sep41_token.transfer_moves [OF assms]
    by (auto simp: lift_host_def rs moved_def fun_eq_iff)
next
  fix e tok p a b x w w'
  assume "tk_transfer_from (lift_host bal tr trf app prices) e tok p a b x w = Some w'"
  then show "authorised e p \<and> 0 \<le> x \<and> x \<le> tk_balance (lift_host bal tr trf app prices) tok a w \<and>
    (\<forall>t c. tk_balance (lift_host bal tr trf app prices) t c w' =
      (if t = tok then moved a b x (\<lambda>c. tk_balance (lift_host bal tr trf app prices) tok c w) c
       else tk_balance (lift_host bal tr trf app prices) t c w))"
    using sep41_token.transfer_from_moves [OF assms]
    by (auto simp: lift_host_def rs moved_def fun_eq_iff)
next
  fix e tok a p x u w w'
  assume "tk_approve (lift_host bal tr trf app prices) e tok a p x u w = Some w'"
  then show "authorised e a \<and>
    (\<forall>t c. tk_balance (lift_host bal tr trf app prices) t c w' =
       tk_balance (lift_host bal tr trf app prices) t c w)"
    using sep41_token.approve_keeps [OF assms] by (auto simp: lift_host_def rs)
qed

subsection \<open>A world with more beside the tokens\<close>

text \<open>The same tokens and prices where the world carries a second part, which they neither read nor change.\<close>

definition beside :: "'g \<Rightarrow> 'w option \<Rightarrow> ('w \<times> 'g) option" where
  "beside g r = map_option (\<lambda>w. (w, g)) r"

definition host_beside :: "'w host \<Rightarrow> ('w \<times> 'g) host" where
  "host_beside H =
    \<lparr>tk_balance = (\<lambda>t a w. tk_balance H t a (fst w)),
     tk_transfer = (\<lambda>e t a b x w. beside (snd w) (tk_transfer H e t a b x (fst w))),
     tk_transfer_from = (\<lambda>e t p a b x w. beside (snd w) (tk_transfer_from H e t p a b x (fst w))),
     tk_approve = (\<lambda>e t a p x u w. beside (snd w) (tk_approve H e t a p x u (fst w))),
     or_get_price = (\<lambda>e orc b q w. or_get_price H e orc b q (fst w))\<rparr>"

lemma beside_Some: "beside g r = Some w' \<longleftrightarrow> (\<exists>w. r = Some w \<and> w' = (w, g))" by (auto simp: beside_def)

lemma host_beside_sep41: "sep41_host H \<Longrightarrow> sep41_host (host_beside H)"
proof -
  assume H: "sep41_host H"
  show ?thesis
  proof
    fix e tok a b x and w w' :: "'a \<times> 'b"
    assume "tk_transfer (host_beside H) e tok a b x w = Some w'"
    then obtain v where "tk_transfer H e tok a b x (fst w) = Some v" "w' = (v, snd w)" by (auto simp: host_beside_def beside_Some)
    with sep41_host.host_transfer [OF H this(1)] show "authorised e a \<and> 0 \<le> x \<and> x \<le> tk_balance (host_beside H) tok a w \<and>
      (\<forall>t c. tk_balance (host_beside H) t c w' =
        (if t = tok then moved a b x (\<lambda>c. tk_balance (host_beside H) tok c w) c else tk_balance (host_beside H) t c w))"
      by (simp add: host_beside_def)
  next
    fix e tok p a b x and w w' :: "'a \<times> 'b"
    assume "tk_transfer_from (host_beside H) e tok p a b x w = Some w'"
    then obtain v where "tk_transfer_from H e tok p a b x (fst w) = Some v" "w' = (v, snd w)" by (auto simp: host_beside_def beside_Some)
    with sep41_host.host_transfer_from [OF H this(1)] show "authorised e p \<and> 0 \<le> x \<and> x \<le> tk_balance (host_beside H) tok a w \<and>
      (\<forall>t c. tk_balance (host_beside H) t c w' =
        (if t = tok then moved a b x (\<lambda>c. tk_balance (host_beside H) tok c w) c else tk_balance (host_beside H) t c w))"
      by (simp add: host_beside_def)
  next
    fix e tok a p x u and w w' :: "'a \<times> 'b"
    assume "tk_approve (host_beside H) e tok a p x u w = Some w'"
    then obtain v where "tk_approve H e tok a p x u (fst w) = Some v" "w' = (v, snd w)" by (auto simp: host_beside_def beside_Some)
    with sep41_host.host_approve [OF H this(1)]
    show "authorised e a \<and> (\<forall>t c. tk_balance (host_beside H) t c w' = tk_balance (host_beside H) t c w)"
      by (simp add: host_beside_def)
  qed
qed

end
