(* ===== verification/Test_Token.thy ===== *)
theory Test_Token
  imports Token_Interface
begin

text \<open>
  \<open>contracts/test_token\<close>: the repository's plain SEP-41 token. It discharges the token interface, so
  every property stated for a standard token holds on a ledger of these.
\<close>

datatype TokenError = TT_NotInitialized | TT_AlreadyInitialized | TT_InsufficientBalance
  | TT_InsufficientAllowance | TT_NegativeAmount

record AllowanceValue =
  al_amount :: int
  al_expiration_ledger :: nat

record token_state =
  tt_admin :: "address option"
  tt_meta :: "(nat \<times> string \<times> string) option"
  tt_balances :: "address \<rightharpoonup> int"
  tt_allowances :: "address \<times> address \<rightharpoonup> AllowanceValue"

definition tt_empty :: token_state where
  "tt_empty = \<lparr>tt_admin = None, tt_meta = None, tt_balances = Map.empty, tt_allowances = Map.empty\<rparr>"

definition read_balance :: "token_state \<Rightarrow> address \<Rightarrow> int" where
  "read_balance s a = (case tt_balances s a of None \<Rightarrow> 0 | Some v \<Rightarrow> v)"

definition write_balance :: "address \<Rightarrow> int \<Rightarrow> token_state \<Rightarrow> token_state" where
  "write_balance a v s = s\<lparr>tt_balances := (tt_balances s)(a \<mapsto> v)\<rparr>"

definition read_allowance :: "token_state \<Rightarrow> address \<Rightarrow> address \<Rightarrow> AllowanceValue" where
  "read_allowance s from spender =
    (case tt_allowances s (from, spender) of
       None \<Rightarrow> \<lparr>al_amount = 0, al_expiration_ledger = 0\<rparr> | Some v \<Rightarrow> v)"

definition check_nonneg :: "int \<Rightarrow> (TokenError, unit) res" where
  "check_nonneg amount = panic_if (amount < 0) TT_NegativeAmount"

definition tt_initialize :: "address \<Rightarrow> nat \<Rightarrow> string \<Rightarrow> string \<Rightarrow> token_state \<Rightarrow>
    (TokenError, token_state) res" where
  "tt_initialize admin decimal name symbol s =
    and_then (panic_if (tt_admin s \<noteq> None) TT_AlreadyInitialized) (\<lambda>_.
      Inr (s\<lparr>tt_admin := Some admin, tt_meta := Some (decimal, name, symbol)\<rparr>))"

definition tt_mint :: "env \<Rightarrow> address \<Rightarrow> int \<Rightarrow> token_state \<Rightarrow> (TokenError, token_state) res" where
  "tt_mint e to amount s =
    and_then (check_nonneg amount) (\<lambda>_.
    and_then (unwrap (tt_admin s)) (\<lambda>admin.
    and_then (require_auth e admin) (\<lambda>_.
    and_then (i128_add (read_balance s to) amount) (\<lambda>b.
      Inr (write_balance to b s)))))"

definition tt_allowance :: "env \<Rightarrow> address \<Rightarrow> address \<Rightarrow> token_state \<Rightarrow> int" where
  "tt_allowance e from spender s =
    (let a = read_allowance s from spender in
     if al_expiration_ledger a < ledger_sequence e then 0 else al_amount a)"

definition tt_approve :: "env \<Rightarrow> address \<Rightarrow> address \<Rightarrow> int \<Rightarrow> nat \<Rightarrow> token_state \<Rightarrow>
    (TokenError, token_state) res" where
  "tt_approve e from spender amount expiration_ledger s =
    and_then (check_nonneg amount) (\<lambda>_.
    and_then (require_auth e from) (\<lambda>_.
      Inr (s\<lparr>tt_allowances := (tt_allowances s)((from, spender) \<mapsto>
        \<lparr>al_amount = amount, al_expiration_ledger = expiration_ledger\<rparr>)\<rparr>)))"

definition do_transfer :: "address \<Rightarrow> address \<Rightarrow> int \<Rightarrow> token_state \<Rightarrow> (TokenError, token_state) res" where
  "do_transfer from to amount s =
    (let from_balance = read_balance s from in
     and_then (panic_if (from_balance < amount) TT_InsufficientBalance) (\<lambda>_.
     and_then (i128_sub from_balance amount) (\<lambda>left.
       let s = write_balance from left s in
       and_then (i128_add (read_balance s to) amount) (\<lambda>b.
         Inr (write_balance to b s)))))"

definition tt_spend_allowance :: "env \<Rightarrow> address \<Rightarrow> address \<Rightarrow> int \<Rightarrow> token_state \<Rightarrow>
    (TokenError, token_state) res" where
  "tt_spend_allowance e from spender amount s =
    (let a = read_allowance s from spender;
         live = ledger_sequence e \<le> al_expiration_ledger a in
     and_then (panic_if (\<not> live \<or> al_amount a < amount) TT_InsufficientAllowance) (\<lambda>_.
     and_then (i128_sub (al_amount a) amount) (\<lambda>left.
       Inr (s\<lparr>tt_allowances := (tt_allowances s)((from, spender) \<mapsto>
         \<lparr>al_amount = left, al_expiration_ledger = al_expiration_ledger a\<rparr>)\<rparr>))))"

definition tt_transfer :: "env \<Rightarrow> address \<Rightarrow> address \<Rightarrow> int \<Rightarrow> token_state \<Rightarrow> (TokenError, token_state) res" where
  "tt_transfer e from to amount s =
    and_then (check_nonneg amount) (\<lambda>_.
    and_then (require_auth e from) (\<lambda>_.
      do_transfer from to amount s))"

definition tt_transfer_from :: "env \<Rightarrow> address \<Rightarrow> address \<Rightarrow> address \<Rightarrow> int \<Rightarrow> token_state \<Rightarrow>
    (TokenError, token_state) res" where
  "tt_transfer_from e spender from to amount s =
    and_then (check_nonneg amount) (\<lambda>_.
    and_then (require_auth e spender) (\<lambda>_.
    and_then (tt_spend_allowance e from spender amount s) (\<lambda>s.
      do_transfer from to amount s)))"

lemma read_write_balance [simp]: "read_balance (write_balance a v s) = (read_balance s)(a := v)"
  by (auto simp: read_balance_def write_balance_def fun_eq_iff)

lemma do_transfer_moves:
  "do_transfer a b x s = Inr s' \<Longrightarrow> x \<le> read_balance s a \<and> read_balance s' = moved a b x (read_balance s)"
  by (auto simp: do_transfer_def Let_def rs moved_def fun_eq_iff split: if_splits)

lemma spend_allowance_balance:
  "tt_spend_allowance e a p x s = Inr s' \<Longrightarrow> read_balance s' = read_balance s"
  by (auto simp: tt_spend_allowance_def Let_def rs read_balance_def fun_eq_iff)

interpretation tt: sep41_token read_balance tt_transfer tt_transfer_from tt_approve
proof
  fix e a b x s s'
  assume "tt_transfer e a b x s = Inr s'"
  then show "authorised e a \<and> 0 \<le> x \<and> x \<le> read_balance s a \<and> read_balance s' = moved a b x (read_balance s)"
    using do_transfer_moves by (auto simp: tt_transfer_def check_nonneg_def rs)
next
  fix e p a b x s s'
  assume "tt_transfer_from e p a b x s = Inr s'"
  then show "authorised e p \<and> 0 \<le> x \<and> x \<le> read_balance s a \<and> read_balance s' = moved a b x (read_balance s)"
    using do_transfer_moves spend_allowance_balance
    by (fastforce simp: tt_transfer_from_def check_nonneg_def rs)
next
  fix e a p x u s s'
  assume "tt_approve e a p x u s = Inr s'"
  then show "authorised e a \<and> read_balance s' = read_balance s"
    by (auto simp: tt_approve_def check_nonneg_def rs read_balance_def fun_eq_iff)
qed

end
