(* ===== verification/Ledger.thy ===== *)
theory Ledger
  imports Test_Token Push_Oracle
begin

text \<open>
  A concrete outside world for the contracts: every token is the repository's \<open>test_token\<close>, every oracle
  its \<open>push_oracle\<close>. It meets the laws of \<open>sep41_host\<close>, so every theorem that assumes them applies to it.
\<close>

type_synonym ledger = "(address \<Rightarrow> token_state) \<times> (address \<Rightarrow> push_oracle)"

definition ledger_price :: "env \<Rightarrow> address \<Rightarrow> address \<Rightarrow> address \<Rightarrow> (address \<Rightarrow> push_oracle) \<Rightarrow> PriceData option" where
  "ledger_price e orc base quote oracles = try_call (get_price base quote (oracles orc))"

definition ledger_host :: "ledger host" where
  "ledger_host = lift_host read_balance tt_transfer tt_transfer_from tt_approve ledger_price"

interpretation ledger: sep41_host ledger_host
  unfolding ledger_host_def by (rule lift_host_sep41) (rule tt.sep41_token_axioms)

text \<open>
  A token in which \<open>alice\<close> and \<open>bob\<close> hold ten thousand each and have approved the running contract.
\<close>

definition funded_token :: token_state where
  "funded_token =
    \<lparr>tt_admin = None, tt_meta = None,
     tt_balances = [alice \<mapsto> 10000, bob \<mapsto> 10000],
     tt_allowances = [(alice, this_contract) \<mapsto> \<lparr>al_amount = 10000, al_expiration_ledger = 10 ^ 6\<rparr>,
                      (bob, this_contract) \<mapsto> \<lparr>al_amount = 10000, al_expiration_ledger = 10 ^ 6\<rparr>]\<rparr>"

definition demo_ledger :: ledger where
  "demo_ledger = (\<lambda>_. funded_token, \<lambda>_. po_empty)"

lemmas ledger_eval = ledger_host_def lift_host_def ledger_price_def demo_ledger_def funded_token_def
  tt_transfer_def tt_transfer_from_def tt_approve_def check_nonneg_def tt_spend_allowance_def
  do_transfer_def read_balance_def write_balance_def read_allowance_def get_price_def po_empty_def
  token_transfer_def token_transfer_from_def token_approve_def

end
