(* ===== verification/Orders.thy ===== *)
theory Orders
  imports Schedule
begin

text \<open>
  \<open>crates/orders/src/lib.rs\<close>, the order types, and \<open>contracts/rfq/src/hash.rs\<close>, the digests their
  signatures cover. SHA-256, ed25519 and the XDR serialiser belong to the host and the SDK: they are the
  fields of \<open>crypto\<close>, a parameter of everything that hashes or verifies. \<open>xdr_laws\<close> is what is
  documented of the serialiser. The lemmas show that what is hashed determines which message of which
  contract it is, and that the key read out of an account's XDR is the account's key.
\<close>

datatype OrderType = Rfq | Fixed

record Request =
  rq_maker_token :: address
  rq_taker_token :: address
  rq_taker_amount :: int
  rq_min_received_amount :: int
  rq_fee_bps :: nat
  rq_taker :: "address option"
  rq_sender :: "address option"
  rq_fee_recipient :: address
  rq_expiry :: nat
  rq_salt :: nat
  rq_taker_max_bps_per_day :: nat
  rq_order_type :: OrderType

record RfqOrder =
  ro_maker_token :: address
  ro_taker_token :: address
  ro_taker_amount :: int
  ro_min_received_amount :: int
  ro_fee_bps :: nat
  ro_taker :: "address option"
  ro_sender :: "address option"
  ro_fee_recipient :: address
  ro_expiry :: nat
  ro_salt :: nat
  ro_taker_max_bps_per_day :: nat
  ro_maker_bps_per_day :: nat
  ro_max_maker_amount :: int
  ro_maker :: address

record FixedOrder =
  fx_maker_token :: address
  fx_taker_token :: address
  fx_taker_amount :: int
  fx_min_received_amount :: int
  fx_fee_bps :: nat
  fx_taker :: "address option"
  fx_sender :: "address option"
  fx_fee_recipient :: address
  fx_expiry :: nat
  fx_salt :: nat
  fx_maker_amount :: int
  fx_maker :: address

definition rfq_request :: "RfqOrder \<Rightarrow> Request" where
  "rfq_request o1 = \<lparr>rq_maker_token = ro_maker_token o1, rq_taker_token = ro_taker_token o1,
     rq_taker_amount = ro_taker_amount o1, rq_min_received_amount = ro_min_received_amount o1,
     rq_fee_bps = ro_fee_bps o1, rq_taker = ro_taker o1, rq_sender = ro_sender o1,
     rq_fee_recipient = ro_fee_recipient o1, rq_expiry = ro_expiry o1, rq_salt = ro_salt o1,
     rq_taker_max_bps_per_day = ro_taker_max_bps_per_day o1, rq_order_type = Rfq\<rparr>"

definition fixed_request :: "FixedOrder \<Rightarrow> Request" where
  "fixed_request o1 = \<lparr>rq_maker_token = fx_maker_token o1, rq_taker_token = fx_taker_token o1,
     rq_taker_amount = fx_taker_amount o1, rq_min_received_amount = fx_min_received_amount o1,
     rq_fee_bps = fx_fee_bps o1, rq_taker = fx_taker o1, rq_sender = fx_sender o1,
     rq_fee_recipient = fx_fee_recipient o1, rq_expiry = fx_expiry o1, rq_salt = fx_salt o1,
     rq_taker_max_bps_per_day = 0, rq_order_type = Fixed\<rparr>"

record Signature =
  sg_signer :: bytes32
  sg_signature :: "512 word"

record FillResult =
  fr_taker_filled :: int
  fr_maker_filled :: int
  fr_fee :: int

subsection \<open>Bytes\<close>

text \<open>\<open>BytesN<32>::to_array\<close> and \<open>from_array\<close>, big-endian.\<close>

definition bytes_of :: "bytes32 \<Rightarrow> byte list" where
  "bytes_of k = map (\<lambda>i. ucast (drop_bit (8 * (31 - i)) k)) [0..<32]"

definition of_bytes :: "byte list \<Rightarrow> bytes32" where
  "of_bytes = word_rcat"

definition ascii :: "string \<Rightarrow> byte list" where
  "ascii s = map of_char s"

subsection \<open>Host and serialiser\<close>

record crypto =
  sha256 :: "byte list \<Rightarrow> bytes32"
  ed25519_ok :: "bytes32 \<Rightarrow> byte list \<Rightarrow> 512 word \<Rightarrow> bool"
  xdr_address :: "address \<Rightarrow> byte list"
  xdr_request :: "Request \<Rightarrow> byte list"
  xdr_rfq_order :: "RfqOrder \<Rightarrow> byte list"
  xdr_fixed_order :: "FixedOrder \<Rightarrow> byte list"

definition REQUEST_DOMAIN :: "byte list" where "REQUEST_DOMAIN = ascii ''OCTARINE_REQUEST_V1''"
definition RFQ_DOMAIN :: "byte list" where "RFQ_DOMAIN = ascii ''OCTARINE_RFQ_ORDER_V1''"
definition FIXED_DOMAIN :: "byte list" where "FIXED_DOMAIN = ascii ''OCTARINE_FIXED_ORDER_V1''"
definition SEP53_PREFIX :: "byte list" where
  "SEP53_PREFIX = ascii ''Stellar Signed Message:'' @ [10]"

definition digest_preimage :: "crypto \<Rightarrow> env \<Rightarrow> byte list \<Rightarrow> byte list \<Rightarrow> byte list" where
  "digest_preimage C e domain body = domain @ xdr_address C (current_contract e) @ body"

definition digest :: "crypto \<Rightarrow> env \<Rightarrow> byte list \<Rightarrow> byte list \<Rightarrow> bytes32" where
  "digest C e domain body = sha256 C (digest_preimage C e domain body)"

definition hash_request :: "crypto \<Rightarrow> env \<Rightarrow> Request \<Rightarrow> bytes32" where
  "hash_request C e r = digest C e REQUEST_DOMAIN (xdr_request C r)"

definition hash_rfq_order :: "crypto \<Rightarrow> env \<Rightarrow> RfqOrder \<Rightarrow> bytes32" where
  "hash_rfq_order C e order = digest C e RFQ_DOMAIN (xdr_rfq_order C order)"

definition hash_fixed_order :: "crypto \<Rightarrow> env \<Rightarrow> FixedOrder \<Rightarrow> bytes32" where
  "hash_fixed_order C e order = digest C e FIXED_DOMAIN (xdr_fixed_order C order)"

definition sep53 :: "crypto \<Rightarrow> bytes32 \<Rightarrow> bytes32" where
  "sep53 C order_hash = sha256 C (SEP53_PREFIX @ bytes_of order_hash)"

text \<open>
  \<open>RfqContract::account_pubkey\<close> of \<open>contracts/rfq/src/lib.rs\<close>: the key is read at byte 12 of an address
  XDR of 44 bytes.
\<close>

definition account_pubkey :: "crypto \<Rightarrow> address \<Rightarrow> bytes32 option" where
  "account_pubkey C maker =
    (let xdr = xdr_address C maker in
     if length xdr \<noteq> 44 then None
     else Some (of_bytes (map (\<lambda>i. xdr ! (12 + i)) [0..<32])))"

text \<open>
  The serialiser's documented behaviour: an address is an \<open>ScVal\<close> with a 4-byte tag (18), a 4-byte kind
  (0 account, 1 contract), for an account a 4-byte key type (0), and the 32 bytes of the key; the
  serialisation of a struct determines it.
\<close>

definition be32 :: "nat \<Rightarrow> byte list" where
  "be32 n = map (\<lambda>i. word_of_nat (n div 2 ^ (8 * (3 - i)))) [0..<4]"

definition scval_address :: "address \<Rightarrow> byte list" where
  "scval_address a = (case a of
      Account k \<Rightarrow> be32 18 @ be32 0 @ be32 0 @ bytes_of k
    | Contract k \<Rightarrow> be32 18 @ be32 1 @ bytes_of k)"

locale xdr_laws =
  fixes C :: crypto
  assumes address_layout: "xdr_address C a = scval_address a"
    and request_inj: "xdr_request C r = xdr_request C r' \<Longrightarrow> r = r'"
    and rfq_order_inj: "xdr_rfq_order C x = xdr_rfq_order C x' \<Longrightarrow> x = x'"
    and fixed_order_inj: "xdr_fixed_order C y = xdr_fixed_order C y' \<Longrightarrow> y = y'"

subsection \<open>Byte lemmas\<close>

lemma length_bytes_of [simp]: "length (bytes_of k) = 32"
  by (simp add: bytes_of_def)

lemma length_be32 [simp]: "length (be32 n) = 4"
  by (simp add: be32_def)

lemma horner_bytes: "horner_sum (\<lambda>i. x div 256 ^ i mod 256) 256 [0..<n] = (x mod 256 ^ n :: int)"
proof (induction n)
  case 0
  then show ?case by simp
next
  case (Suc n)
  then show ?case
    using zmod_zmult2_eq [of 256 x "256 ^ n"] by (simp add: horner_sum_append algebra_simps)
qed

lemma uint_byte_of: "uint (ucast (drop_bit (8 * i) (k :: bytes32)) :: byte) = uint k div 256 ^ i mod 256"
proof -
  have "uint (drop_bit (8 * i) k) = uint k div 256 ^ i"
    using uint_lt2p [of k] unfolding unsigned_drop_bit_eq
    by (simp add: take_bit_eq_mod drop_bit_eq_div power_mult)
  then show ?thesis by (simp add: unsigned_ucast_eq take_bit_eq_mod)
qed

lemma rev_bytes_of: "rev (bytes_of k) = map (\<lambda>i. ucast (drop_bit (8 * i) k)) [0..<32]"
proof (rule nth_equalityI)
  show "length (rev (bytes_of k)) = length (map (\<lambda>i. ucast (drop_bit (8 * i) k) :: byte) [0..<32])"
    by simp
  fix i assume "i < length (rev (bytes_of k))"
  then show "rev (bytes_of k) ! i = map (\<lambda>i. ucast (drop_bit (8 * i) k)) [0..<32] ! i"
    using nth_upt [of 0 "31 - i" 32] by (simp add: rev_nth bytes_of_def)
qed

lemma horner_sum_map: "horner_sum f a (map g xs) = horner_sum (f \<circ> g) a xs"
  by (induction xs) auto

text \<open>\<open>from_array\<close> inverts \<open>to_array\<close>.\<close>

lemma of_bytes_bytes_of [simp]: "of_bytes (bytes_of k) = k"
proof -
  have "of_bytes (bytes_of k) = word_of_int (horner_sum (\<lambda>i. uint k div 256 ^ i mod 256) 256 [0..<32])"
    by (simp add: of_bytes_def word_rcat_def rev_bytes_of horner_sum_map o_def uint_byte_of)
  also have "\<dots> = word_of_int (uint k mod 256 ^ 32)"
    by (simp only: horner_bytes)
  also have "uint k mod 256 ^ 32 = uint k"
    using uint_lt2p [of k] uint_ge_0 [of k] by (intro mod_pos_pos_trivial) simp_all
  finally show ?thesis by simp
qed

lemma bytes_of_inj: "bytes_of k = bytes_of k' \<Longrightarrow> k = k'"
  by (metis of_bytes_bytes_of)

lemma length_scval_address:
  "length (scval_address a) = (case a of Account _ \<Rightarrow> 44 | Contract _ \<Rightarrow> 40)"
  by (simp add: scval_address_def split: address.splits)

lemma scval_address_prefix_free:
  assumes "scval_address a @ x = scval_address b @ y"
  shows "a = b \<and> x = y"
proof -
  have "be32 0 \<noteq> be32 1" by (simp add: be32_def upt_rec)
  with assms show ?thesis
    by (auto simp: scval_address_def append_eq_append_conv split: address.splits dest: bytes_of_inj)
qed

text \<open>No signing domain is a prefix of another.\<close>

lemmas domain_defs = REQUEST_DOMAIN_def RFQ_DOMAIN_def FIXED_DOMAIN_def ascii_def

lemma domains_disjoint:
  "REQUEST_DOMAIN @ x \<noteq> RFQ_DOMAIN @ y"
  "REQUEST_DOMAIN @ x \<noteq> FIXED_DOMAIN @ y"
  "RFQ_DOMAIN @ x \<noteq> FIXED_DOMAIN @ y"
  by (simp_all add: domain_defs of_char_def)

subsection \<open>What a signature is bound to\<close>

text \<open>The messages the settlement contract hashes, and what it hashes for each.\<close>

datatype message = MRequest Request | MRfq RfqOrder | MFixed FixedOrder

definition message_preimage :: "crypto \<Rightarrow> env \<Rightarrow> message \<Rightarrow> byte list" where
  "message_preimage C e m = (case m of
      MRequest r \<Rightarrow> digest_preimage C e REQUEST_DOMAIN (xdr_request C r)
    | MRfq x \<Rightarrow> digest_preimage C e RFQ_DOMAIN (xdr_rfq_order C x)
    | MFixed y \<Rightarrow> digest_preimage C e FIXED_DOMAIN (xdr_fixed_order C y))"

definition message_hash :: "crypto \<Rightarrow> env \<Rightarrow> message \<Rightarrow> bytes32" where
  "message_hash C e m = (case m of
      MRequest r \<Rightarrow> hash_request C e r
    | MRfq x \<Rightarrow> hash_rfq_order C e x
    | MFixed y \<Rightarrow> hash_fixed_order C e y)"

lemma message_hash_preimage: "message_hash C e m = sha256 C (message_preimage C e m)"
  by (cases m) (simp_all add: message_hash_def message_preimage_def hash_request_def hash_rfq_order_def
      hash_fixed_order_def digest_def)

context xdr_laws
begin

lemma preimage_inj:
  assumes "message_preimage C e m = message_preimage C e' m'"
  shows "current_contract e = current_contract e' \<and> m = m'"
  using assms domains_disjoint domains_disjoint [symmetric]
  by (cases m; cases m')
    (auto simp: message_preimage_def digest_preimage_def address_layout
      dest!: scval_address_prefix_free intro: request_inj rfq_order_inj fixed_order_inj)

lemma account_pubkey_eq:
  "account_pubkey C a = (case a of Account k \<Rightarrow> Some k | Contract _ \<Rightarrow> None)"
proof (cases a)
  case (Account k)
  let ?x = "(be32 18 @ be32 0 @ be32 0) @ bytes_of k"
  have "map (\<lambda>i. ?x ! (12 + i)) [0..<32] = bytes_of k"
    by (rule nth_equalityI) (simp_all add: nth_append)
  with Account show ?thesis
    by (simp add: account_pubkey_def address_layout length_scval_address Let_def)
      (simp add: scval_address_def)
qed (simp add: account_pubkey_def address_layout length_scval_address)

end

subsection \<open>A serialiser that meets the laws\<close>

text \<open>
  The laws can hold: addresses as the SDK lays them out, numbers in a self-delimiting base-128 form, a
  struct as the concatenation of its fields. The hash plays no part in the laws.
\<close>

definition prefix_free :: "('a \<Rightarrow> byte list) \<Rightarrow> bool" where
  "prefix_free f \<longleftrightarrow> (\<forall>a b x y. f a @ x = f b @ y \<longrightarrow> a = b \<and> x = y)"

definition byte_of :: "nat \<Rightarrow> byte" where
  "byte_of n = word_of_nat n"

fun varint :: "nat \<Rightarrow> byte list" where
  "varint n = (if n < 128 then [byte_of n] else byte_of (128 + n mod 128) # varint (n div 128))"

declare varint.simps [simp del]

definition zigzag :: "int \<Rightarrow> byte list" where
  "zigzag i = (if 0 \<le> i then 0 else 1) # varint (nat \<bar>i\<bar>)"

definition opt_address :: "address option \<Rightarrow> byte list" where
  "opt_address x = (case x of None \<Rightarrow> [0] | Some a \<Rightarrow> 1 # scval_address a)"

definition plain_request :: "Request \<Rightarrow> byte list" where
  "plain_request r = scval_address (rq_maker_token r) @ scval_address (rq_taker_token r) @
     zigzag (rq_taker_amount r) @ zigzag (rq_min_received_amount r) @ varint (rq_fee_bps r) @
     opt_address (rq_taker r) @ opt_address (rq_sender r) @ scval_address (rq_fee_recipient r) @
     varint (rq_expiry r) @ varint (rq_salt r) @ varint (rq_taker_max_bps_per_day r) @
     (case rq_order_type r of Rfq \<Rightarrow> [0] | Fixed \<Rightarrow> [1])"

definition plain_rfq_order :: "RfqOrder \<Rightarrow> byte list" where
  "plain_rfq_order r = scval_address (ro_maker_token r) @ scval_address (ro_taker_token r) @
     zigzag (ro_taker_amount r) @ zigzag (ro_min_received_amount r) @ varint (ro_fee_bps r) @
     opt_address (ro_taker r) @ opt_address (ro_sender r) @ scval_address (ro_fee_recipient r) @
     varint (ro_expiry r) @ varint (ro_salt r) @ varint (ro_taker_max_bps_per_day r) @
     varint (ro_maker_bps_per_day r) @ zigzag (ro_max_maker_amount r) @ scval_address (ro_maker r)"

definition plain_fixed_order :: "FixedOrder \<Rightarrow> byte list" where
  "plain_fixed_order r = scval_address (fx_maker_token r) @ scval_address (fx_taker_token r) @
     zigzag (fx_taker_amount r) @ zigzag (fx_min_received_amount r) @ varint (fx_fee_bps r) @
     opt_address (fx_taker r) @ opt_address (fx_sender r) @ scval_address (fx_fee_recipient r) @
     varint (fx_expiry r) @ varint (fx_salt r) @ zigzag (fx_maker_amount r) @ scval_address (fx_maker r)"

definition plain_crypto :: crypto where
  "plain_crypto = \<lparr>sha256 = (\<lambda>_. 0), ed25519_ok = (\<lambda>_ _ _. True), xdr_address = scval_address,
     xdr_request = plain_request, xdr_rfq_order = plain_rfq_order, xdr_fixed_order = plain_fixed_order\<rparr>"

lemma small_byte_eq: "n < 256 \<Longrightarrow> m < 256 \<Longrightarrow> byte_of n = byte_of m \<longleftrightarrow> n = m"
  by (simp add: byte_of_def word_of_nat_eq_iff take_bit_eq_mod)

lemma varint_prefix_free: "varint n @ x = varint m @ y \<Longrightarrow> n = m \<and> x = y"
proof (induction n arbitrary: m rule: varint.induct)
  case (1 n)
  have bytes: "n mod 128 < 128" "m mod 128 < 128" by simp_all
  show ?case
  proof (cases "n < 128 \<or> m < 128")
    case True
    with 1(2) bytes show ?thesis
      by (subst (asm) (1 2) varint.simps) (auto simp: small_byte_eq split: if_splits)
  next
    case False
    then have "n mod 128 = m mod 128" "varint (n div 128) @ x = varint (m div 128) @ y"
      using 1(2) bytes by (subst (asm) (1 2) varint.simps, simp add: small_byte_eq)+
    with False 1(1) have "n div 128 = m div 128 \<and> x = y" by blast
    with \<open>n mod 128 = m mod 128\<close> show ?thesis
      by (metis div_mult_mod_eq)
  qed
qed

lemma prefix_freeD: "prefix_free f \<Longrightarrow> f a @ x = f b @ y \<longleftrightarrow> a = b \<and> x = y"
  by (auto simp: prefix_free_def)

lemma prefix_free_encoders:
  "prefix_free varint" "prefix_free zigzag" "prefix_free scval_address" "prefix_free opt_address"
proof -
  show "prefix_free varint"
    unfolding prefix_free_def by (blast dest: varint_prefix_free)
  show "prefix_free scval_address"
    unfolding prefix_free_def by (blast dest: scval_address_prefix_free)
  then have "opt_address a @ x = opt_address b @ y \<Longrightarrow> a = b \<and> x = y" for a b x y
    by (cases a; cases b) (simp_all add: opt_address_def prefix_freeD)
  then show "prefix_free opt_address" unfolding prefix_free_def by blast
  have "zigzag a @ x = zigzag b @ y \<Longrightarrow> a = b \<and> x = y" for a b x y
    by (auto simp: zigzag_def prefix_freeD [OF \<open>prefix_free varint\<close>] split: if_splits)
  then show "prefix_free zigzag" unfolding prefix_free_def by blast
qed

lemma prefix_free_end: "prefix_free f \<Longrightarrow> f a = f b \<longleftrightarrow> a = b"
  using prefix_freeD [of f a "[]" b "[]"] by simp

lemmas encoder_eqs = prefix_free_encoders [THEN prefix_freeD] prefix_free_encoders [THEN prefix_free_end]

interpretation plain: xdr_laws plain_crypto
proof
  show "xdr_address plain_crypto a = scval_address a" for a
    by (simp add: plain_crypto_def)
  show "r = r'" if "xdr_request plain_crypto r = xdr_request plain_crypto r'" for r r'
    using that by (cases r; cases r')
      (simp add: plain_crypto_def plain_request_def encoder_eqs split: OrderType.splits)
  show "r = r'" if "xdr_rfq_order plain_crypto r = xdr_rfq_order plain_crypto r'" for r r'
    using that by (cases r; cases r') (simp add: plain_crypto_def plain_rfq_order_def encoder_eqs)
  show "r = r'" if "xdr_fixed_order plain_crypto r = xdr_fixed_order plain_crypto r'" for r r'
    using that by (cases r; cases r') (simp add: plain_crypto_def plain_fixed_order_def encoder_eqs)
qed

lemma plain_simps [simp]:
  "ed25519_ok plain_crypto k m g"
  "account_pubkey plain_crypto alice = Some 1"
  "account_pubkey plain_crypto bob = Some 2"
  by (simp add: plain_crypto_def) (simp_all add: plain.account_pubkey_eq demo_defs)

definition demo_sig :: "bytes32 \<Rightarrow> Signature" where
  "demo_sig k = \<lparr>sg_signer = k, sg_signature = 0\<rparr>"

text \<open>An order for the witnesses: sell 1000 of token a for token b at 2.50 bps a day.\<close>

definition demo_order :: RfqOrder where
  "demo_order = \<lparr>ro_maker_token = token_b, ro_taker_token = token_a, ro_taker_amount = 1000,
     ro_min_received_amount = 900, ro_fee_bps = 100, ro_taker = Some alice, ro_sender = None,
     ro_fee_recipient = carol, ro_expiry = 5000, ro_salt = 9, ro_taker_max_bps_per_day = 300,
     ro_maker_bps_per_day = 250, ro_max_maker_amount = 1100, ro_maker = bob\<rparr>"

subsection \<open>Properties\<close>



text \<open>
  The key the contract reads at byte 12 of an address's XDR is the account's own ed25519
  key, and no key is read out of a contract address.
\<close>

theorem account_pubkey_roundtrip:
  assumes "xdr_laws C"
  shows "account_pubkey C (Account k) = Some k \<and> account_pubkey C (Contract k) = None"
  using xdr_laws.account_pubkey_eq [OF assms] by simp

theorem account_pubkey_roundtrip_witness:
  "account_pubkey plain_crypto alice = Some 1 \<and> account_pubkey plain_crypto (Contract 1) = None"
  using account_pubkey_roundtrip [OF plain.xdr_laws_axioms, of 1] by (simp add: alice_def)

end
