(* ===== verification/Rfq_Price.thy ===== *)
theory Rfq_Price
  imports Ledger Orders
begin

text \<open>
  The settlement contract's data (\<open>contracts/rfq/src/types.rs\<close>, \<open>errors.rs\<close>), its storage
  (\<open>storage.rs\<close>) and its pricing inputs (\<open>price.rs\<close>): schedules, oracles and pushed fallback prices.
  One storage key of \<open>DataKey\<close> is one field of \<open>rfq\<close>; TTL extension has no effect on values and is
  left out. The lemmas show which prices can be returned: always positive inputs, never a pushed price
  of an earlier reference epoch or past its age.
\<close>

datatype RfqError = AlreadyInitialized | NotAuthorized | Paused | OrderNotFillable | NotFillableByTaker
  | SignerNotAuthorized | InvalidAmount | RfqOverflow | NoSchedule | InvalidSchedule | NoPrice
  | BpsPerDayTooHigh | DiscountTooLarge | FeeOutOfBounds | BelowMinReceived | MakerAmountTooHigh
  | SameToken | ListingNotActive | AskAboveMax | PriceDeviation | ScheduleShiftTooLarge | InvalidConfig
  | WrongSender | SaltIsCancelled | RequestOverfilled | PriceUpdateTooSoon

record DutchOrder =
  du_maker_token :: address
  du_taker_token :: address
  du_taker_amount :: int
  du_start_maker_amount :: int
  du_min_maker_amount :: int
  du_fee_bps :: nat
  du_fee_recipient :: address
  du_expiry :: nat

record Listing =
  ls_order :: DutchOrder
  ls_seller :: address
  ls_created_at :: nat
  ls_decay_seconds :: nat
  ls_active :: bool

record Quote =
  qt_maker_amount :: int
  qt_fee :: int
  qt_horizon_seconds :: nat

record PushedPrice =
  pp_price :: int
  pp_updated_at :: nat
  pp_epoch :: nat

record OracleCfg =
  oc_oracle :: address
  oc_max_age :: nat

record Reference =
  rf_asset :: address
  rf_epoch :: nat

record Config =
  cf_min_fee_bps :: nat
  cf_max_fee_bps :: nat
  cf_fallback_max_age :: nat
  cf_max_deviation_bps :: nat
  cf_min_push_interval :: nat
  cf_max_shift_seconds :: nat
  cf_decay_seconds :: nat

record rfq =
  st_admin :: "address option"
  st_cfg :: "Config option"
  st_ref :: "Reference option"
  st_paused :: "bool option"
  st_next_id :: "nat option"
  st_keeper :: "address \<rightharpoonup> bool"
  st_sched :: "address \<rightharpoonup> Schedule"
  st_oracle :: "address \<times> address \<rightharpoonup> OracleCfg"
  st_fallback :: "address \<rightharpoonup> PushedPrice"
  st_filled :: "bytes32 \<rightharpoonup> int"
  st_request_filled :: "bytes32 \<rightharpoonup> int"
  st_salt_cancelled :: "address \<times> nat \<rightharpoonup> bool"
  st_signer :: "address \<times> bytes32 \<rightharpoonup> bool"
  st_listing :: "nat \<rightharpoonup> Listing"

definition rfq_empty :: rfq where
  "rfq_empty = \<lparr>st_admin = None, st_cfg = None, st_ref = None, st_paused = None, st_next_id = None,
     st_keeper = Map.empty, st_sched = Map.empty, st_oracle = Map.empty, st_fallback = Map.empty,
     st_filled = Map.empty, st_request_filled = Map.empty, st_salt_cancelled = Map.empty,
     st_signer = Map.empty, st_listing = Map.empty\<rparr>"

subsection \<open>Storage\<close>

definition stored_admin :: "rfq \<Rightarrow> ('e, address) res" where
  "stored_admin s = unwrap (st_admin s)"

definition config :: "rfq \<Rightarrow> ('e, Config) res" where
  "config s = unwrap (st_cfg s)"

definition reference :: "rfq \<Rightarrow> ('e, Reference) res" where
  "reference s = unwrap (st_ref s)"

definition paused :: "rfq \<Rightarrow> bool" where
  "paused s = (st_paused s = Some True)"

definition next_id :: "rfq \<Rightarrow> ('e, nat \<times> rfq) res" where
  "next_id s =
    (let i = (case st_next_id s of None \<Rightarrow> 1 | Some i \<Rightarrow> i) in
     and_then (u64_add i 1) (\<lambda>n. Inr (i, s\<lparr>st_next_id := Some n\<rparr>)))"

definition is_keeper :: "rfq \<Rightarrow> address \<Rightarrow> bool" where
  "is_keeper s who = (st_keeper s who = Some True)"

definition schedule :: "rfq \<Rightarrow> address \<Rightarrow> Schedule option" where
  "schedule s asset = st_sched s asset"

definition oracle_cfg :: "rfq \<Rightarrow> address \<Rightarrow> address \<Rightarrow> OracleCfg option" where
  "oracle_cfg s base quote = st_oracle s (base, quote)"

definition store_oracle :: "address \<Rightarrow> address \<Rightarrow> OracleCfg option \<Rightarrow> rfq \<Rightarrow> rfq" where
  "store_oracle base quote cfg s =
    (case cfg of
       Some c \<Rightarrow> s\<lparr>st_oracle := (st_oracle s)((base, quote) \<mapsto> c)\<rparr>
     | None \<Rightarrow> s\<lparr>st_oracle := (st_oracle s)((base, quote) := None)\<rparr>)"

definition fallback :: "rfq \<Rightarrow> address \<Rightarrow> PushedPrice option" where
  "fallback s asset = st_fallback s asset"

definition filled :: "rfq \<Rightarrow> bytes32 \<Rightarrow> int" where
  "filled s h = (case st_filled s h of None \<Rightarrow> 0 | Some v \<Rightarrow> v)"

definition set_filled :: "bytes32 \<Rightarrow> int \<Rightarrow> rfq \<Rightarrow> rfq" where
  "set_filled h amount s = s\<lparr>st_filled := (st_filled s)(h \<mapsto> amount)\<rparr>"

definition request_filled :: "rfq \<Rightarrow> bytes32 \<Rightarrow> int" where
  "request_filled s h = (case st_request_filled s h of None \<Rightarrow> 0 | Some v \<Rightarrow> v)"

definition set_request_filled :: "bytes32 \<Rightarrow> int \<Rightarrow> rfq \<Rightarrow> rfq" where
  "set_request_filled h amount s = s\<lparr>st_request_filled := (st_request_filled s)(h \<mapsto> amount)\<rparr>"

definition is_salt_cancelled :: "rfq \<Rightarrow> address \<Rightarrow> nat \<Rightarrow> bool" where
  "is_salt_cancelled s signer salt = (st_salt_cancelled s (signer, salt) = Some True)"

definition set_salt_cancelled :: "address \<Rightarrow> nat \<Rightarrow> rfq \<Rightarrow> rfq" where
  "set_salt_cancelled signer salt s = s\<lparr>st_salt_cancelled := (st_salt_cancelled s)((signer, salt) \<mapsto> True)\<rparr>"

definition is_signer :: "rfq \<Rightarrow> address \<Rightarrow> bytes32 \<Rightarrow> bool" where
  "is_signer s maker signer = (st_signer s (maker, signer) = Some True)"

definition set_signer :: "address \<Rightarrow> bytes32 \<Rightarrow> bool \<Rightarrow> rfq \<Rightarrow> rfq" where
  "set_signer maker signer v s = s\<lparr>st_signer := (st_signer s)((maker, signer) \<mapsto> v)\<rparr>"

definition listing :: "rfq \<Rightarrow> nat \<Rightarrow> Listing option" where
  "listing s i = st_listing s i"

definition set_listing :: "nat \<Rightarrow> Listing \<Rightarrow> rfq \<Rightarrow> rfq" where
  "set_listing i l s = s\<lparr>st_listing := (st_listing s)(i \<mapsto> l)\<rparr>"

subsection \<open>Pricing inputs\<close>

definition rfq_mul_div :: "int \<Rightarrow> int \<Rightarrow> int \<Rightarrow> (RfqError, int) res" where
  "rfq_mul_div a b d = checked_math InvalidAmount RfqOverflow (mul_div a b d)"

definition rfq_mul_div_ceil :: "int \<Rightarrow> int \<Rightarrow> int \<Rightarrow> (RfqError, int) res" where
  "rfq_mul_div_ceil a b d = checked_math InvalidAmount RfqOverflow (mul_div_ceil a b d)"

definition validate_schedule :: "env \<Rightarrow> Schedule \<Rightarrow> (RfqError, unit) res" where
  "validate_schedule e sc =
    and_then (is_valid (ledger_timestamp e) sc) (\<lambda>ok. panic_if (\<not> ok) InvalidSchedule)"

definition rfq_seconds_for :: "env \<Rightarrow> Schedule \<Rightarrow> (RfqError, nat) res" where
  "rfq_seconds_for e sc =
    and_then (seconds_for (ledger_timestamp e) sc) (\<lambda>r. or_panic r InvalidSchedule)"

definition seconds_to_redemption :: "env \<Rightarrow> address \<Rightarrow> rfq \<Rightarrow> (RfqError, nat) res" where
  "seconds_to_redemption e asset s =
    and_then (or_panic (schedule s asset) NoSchedule) (rfq_seconds_for e)"

definition horizon :: "env \<Rightarrow> address \<Rightarrow> address \<Rightarrow> rfq \<Rightarrow> (RfqError, nat \<times> nat) res" where
  "horizon e taker_token maker_token s =
    and_then (or_panic (schedule s taker_token) NoSchedule) (\<lambda>sc.
    and_then (rfq_seconds_for e sc) (\<lambda>t.
    and_then (case schedule s maker_token of None \<Rightarrow> Inr 0 | Some x \<Rightarrow> rfq_seconds_for e x) (\<lambda>m.
      Inr (if m < t then t - m else 1, sc_max_bps_per_day sc))))"

definition is_live_fallback :: "env \<Rightarrow> PushedPrice \<Rightarrow> nat \<Rightarrow> rfq \<Rightarrow> (RfqError, bool) res" where
  "is_live_fallback e fp epoch s =
    and_then (config s) (\<lambda>cfg.
      let max_age = cf_fallback_max_age cfg in
      if 0 < pp_price fp \<and> pp_epoch fp = epoch \<and> 0 < max_age
      then and_then (u64_add (pp_updated_at fp) max_age) (\<lambda>limit. Inr (ledger_timestamp e \<le> limit))
      else Inr False)"

definition try_oracle :: "'w host \<Rightarrow> env \<Rightarrow> address \<Rightarrow> address \<Rightarrow> rfq \<Rightarrow> 'w \<Rightarrow> (RfqError, int option) res" where
  "try_oracle H e base quote s w =
    (case oracle_cfg s base quote of
       None \<Rightarrow> Inr None
     | Some cfg \<Rightarrow>
        (case or_get_price H (calling e (oc_oracle cfg)) (oc_oracle cfg) base quote w of
           None \<Rightarrow> Inr None
         | Some p \<Rightarrow>
             if 0 < pd_price p
             then and_then (u64_add (pd_timestamp p) (oc_max_age cfg)) (\<lambda>limit.
                    Inr (if ledger_timestamp e \<le> limit then Some (pd_price p) else None))
             else Inr None))"

definition unit_price :: "'w host \<Rightarrow> env \<Rightarrow> address \<Rightarrow> rfq \<Rightarrow> 'w \<Rightarrow> (RfqError, int) res" where
  "unit_price H e asset s w =
    and_then (reference s) (\<lambda>r.
      if asset = rf_asset r then Inr ONE
      else and_then (try_oracle H e asset (rf_asset r) s w) (\<lambda>o1.
        (case o1 of
           Some p \<Rightarrow> Inr p
         | None \<Rightarrow>
            (case fallback s asset of
               None \<Rightarrow> Inl (Err NoPrice)
             | Some fp \<Rightarrow>
                 and_then (is_live_fallback e fp (rf_epoch r) s) (\<lambda>live.
                   if live then Inr (pp_price fp) else Inl (Err NoPrice))))))"

definition price_of :: "'w host \<Rightarrow> env \<Rightarrow> address \<Rightarrow> address \<Rightarrow> rfq \<Rightarrow> 'w \<Rightarrow> (RfqError, int) res" where
  "price_of H e base quote s w =
    (if base = quote then Inr ONE
     else and_then (try_oracle H e base quote s w) (\<lambda>o1.
       (case o1 of
          Some p \<Rightarrow> Inr p
        | None \<Rightarrow>
            and_then (unit_price H e base s w) (\<lambda>b.
            and_then (unit_price H e quote s w) (\<lambda>q.
              rfq_mul_div b ONE q)))))"

subsection \<open>Lemmas\<close>

lemma rfq_mul_div_Inr_iff [rs]:
  "rfq_mul_div a b d = Inr q \<longleftrightarrow> mul_div a b d = Inr q"
  "rfq_mul_div_ceil a b d = Inr q \<longleftrightarrow> mul_div_ceil a b d = Inr q"
  by (simp_all add: rfq_mul_div_def rfq_mul_div_ceil_def rs)

lemma stored_Inr_iff [rs]:
  "stored_admin s = Inr a \<longleftrightarrow> st_admin s = Some a"
  "config s = Inr c \<longleftrightarrow> st_cfg s = Some c"
  "reference s = Inr r \<longleftrightarrow> st_ref s = Some r"
  by (simp_all add: stored_admin_def config_def reference_def rs)

lemma filled_simps [simp]:
  "filled (set_filled h v s) = (filled s)(h := v)"
  "filled (set_request_filled h v s) = filled s"
  "request_filled (set_request_filled h v s) = (request_filled s)(h := v)"
  "request_filled (set_filled h v s) = request_filled s"
  by (auto simp: filled_def request_filled_def set_filled_def set_request_filled_def fun_eq_iff)

definition fresh_reading :: "'w host \<Rightarrow> env \<Rightarrow> address \<Rightarrow> address \<Rightarrow> rfq \<Rightarrow> 'w \<Rightarrow> int \<Rightarrow> bool" where
  "fresh_reading H e base quote s w x \<longleftrightarrow>
    (\<exists>cfg p. st_oracle s (base, quote) = Some cfg \<and>
       or_get_price H (calling e (oc_oracle cfg)) (oc_oracle cfg) base quote w = Some p \<and>
       x = pd_price p \<and> 0 < x \<and> ledger_timestamp e \<le> pd_timestamp p + oc_max_age cfg)"

definition live_push :: "env \<Rightarrow> address \<Rightarrow> rfq \<Rightarrow> int \<Rightarrow> bool" where
  "live_push e asset s x \<longleftrightarrow>
    (\<exists>fp r cfg. st_fallback s asset = Some fp \<and> st_ref s = Some r \<and> st_cfg s = Some cfg \<and>
       x = pp_price fp \<and> 0 < x \<and> pp_epoch fp = rf_epoch r \<and> 0 < cf_fallback_max_age cfg \<and>
       ledger_timestamp e \<le> pp_updated_at fp + cf_fallback_max_age cfg)"

lemma try_oracle_Some: "try_oracle H e b q s w = Inr (Some x) \<Longrightarrow> fresh_reading H e b q s w x"
  by (auto simp: try_oracle_def rs oracle_cfg_def fresh_reading_def split: option.splits if_splits)

lemma is_live_fallback_True:
  "is_live_fallback e fp ep s = Inr True \<Longrightarrow>
    (\<exists>cfg. st_cfg s = Some cfg \<and> 0 < pp_price fp \<and> pp_epoch fp = ep \<and> 0 < cf_fallback_max_age cfg \<and>
       ledger_timestamp e \<le> pp_updated_at fp + cf_fallback_max_age cfg)"
  by (auto simp: is_live_fallback_def rs Let_def split: if_splits)

lemma unit_price_Inr:
  assumes "unit_price H e asset s w = Inr x"
  shows "\<exists>r. st_ref s = Some r \<and>
    (asset = rf_asset r \<and> x = ONE \<or> fresh_reading H e asset (rf_asset r) s w x \<or> live_push e asset s x)"
  using assms
  by (auto simp: unit_price_def rs fallback_def live_push_def split: if_splits option.splits
      dest!: try_oracle_Some is_live_fallback_True)

lemma price_of_nonneg:
  assumes "price_of H e b q s w = Inr x" shows "0 \<le> x"
  using assms mul_div_nonneg
  by (auto simp: price_of_def rs ONE_def fresh_reading_def split: if_splits option.splits
      dest!: try_oracle_Some)

lemma horizon_Inr:
  "horizon e t m s = Inr (h, cap) \<Longrightarrow>
     \<exists>sc. schedule s t = Some sc \<and> cap = sc_max_bps_per_day sc \<and> 1 \<le> h"
  by (auto simp: horizon_def rs)

subsection \<open>Properties\<close>

text \<open>
  A price the settlement contract uses comes from a live source only: it is 1 for an asset
  against itself, a positive oracle reading of that pair no older than the oracle's \<open>max_age\<close>, or the
  quotient (rounded down) of two unit prices, each of them 1 for the reference asset, a fresh positive
  oracle reading against the reference, or a positive pushed price of the current reference epoch
  within \<open>fallback_max_age\<close>. A price pushed before the reference changed is never used.
\<close>

theorem price_of_live_sources:
  assumes "price_of H e base quote s w = Inr x"
  shows "(base = quote \<and> x = ONE) \<or> fresh_reading H e base quote s w x \<or>
    (\<exists>r b q. st_ref s = Some r \<and> x = b * ONE div q \<and> 0 < q \<and>
       (base = rf_asset r \<and> b = ONE \<or> fresh_reading H e base (rf_asset r) s w b \<or> live_push e base s b) \<and>
       (quote = rf_asset r \<and> q = ONE \<or> fresh_reading H e quote (rf_asset r) s w q \<or> live_push e quote s q))"
proof (cases "base = quote")
  case True
  with assms show ?thesis by (simp add: price_of_def)
next
  case False
  from assms False obtain o1 where o1: "try_oracle H e base quote s w = Inr o1"
    by (auto simp: price_of_def rs)
  show ?thesis
  proof (cases o1)
    case None
    with assms False o1 obtain b q where units: "unit_price H e base s w = Inr b"
        "unit_price H e quote s w = Inr q" "x = b * ONE div q" "0 < q"
      by (auto simp: price_of_def rs)
    from unit_price_Inr [OF units(1)] unit_price_Inr [OF units(2)] show ?thesis
      using units(3,4) by (metis option.inject)
  next
    case (Some p)
    with assms False o1 have "fresh_reading H e base quote s w x"
      by (auto simp: price_of_def rs dest: try_oracle_Some)
    then show ?thesis by blast
  qed
qed

text \<open>The settlement contract of the witnesses: \<open>token_b\<close> is the reference, \<open>token_a\<close> has a pushed price.\<close>

definition demo_schedule :: Schedule where
  "demo_schedule = \<lparr>sc_mode = Rolling, sc_rolling_seconds = 86400, sc_next_redemption_at = 0,
     sc_cycle_seconds = 0, sc_max_bps_per_day = 1000\<rparr>"

definition demo_rfq :: rfq where
  "demo_rfq = rfq_empty\<lparr>st_admin := Some admin_addr,
     st_cfg := Some \<lparr>cf_min_fee_bps = 0, cf_max_fee_bps = 1000, cf_fallback_max_age = 3600,
       cf_max_deviation_bps = 2000, cf_min_push_interval = 300, cf_max_shift_seconds = 172800,
       cf_decay_seconds = 100\<rparr>,
     st_ref := Some \<lparr>rf_asset = token_b, rf_epoch = 1\<rparr>,
     st_keeper := [carol \<mapsto> True],
     st_sched := [token_a \<mapsto> demo_schedule],
     st_fallback := [token_a \<mapsto> \<lparr>pp_price = ONE, pp_updated_at = 1000, pp_epoch = 1\<rparr>]\<rparr>"

lemmas rfq_eval = demo_rfq_def rfq_empty_def demo_schedule_def config_def reference_def stored_admin_def
  fallback_def oracle_cfg_def schedule_def try_oracle_def is_live_fallback_def unit_price_def price_of_def
  rfq_mul_div_def rfq_mul_div_ceil_def checked_math_def mul_div_def mul_div_ceil_def mul_div_round_floor
  mul_div_round_ceil ceil_div_def rfq_seconds_for_def seconds_for_def horizon_def ONE_def BPS_def DENOM_def
  RATE_SCALE_def Let_def

lemma demo_price: "price_of ledger_host (demo_env 2000) token_a token_b demo_rfq demo_ledger = Inr ONE"
  by (simp add: rfq_eval arith_defs width_defs)

theorem price_of_live_sources_witness:
  "price_of ledger_host (demo_env 2000) token_a token_b demo_rfq demo_ledger = Inr ONE \<and>
   (\<exists>b. live_push (demo_env 2000) token_a demo_rfq b)"
  using price_of_live_sources [OF demo_price] demo_price
  by (auto simp: fresh_reading_def) (auto simp: demo_rfq_def rfq_empty_def)

end
