(* ===== verification/Rfq.thy ===== *)
theory Rfq
  imports Rfq_Price
begin

text \<open>
  \<open>contracts/rfq/src/lib.rs\<close>: the settlement contract's entry points, each whole, in the order of the
  file. An entry point takes the host (tokens, oracles), the transaction's environment, the contract's
  storage and the outside world, and returns its result with the new storage and world, or the error or
  trap that reverts it. Events have no effect on state and are left out.
\<close>

definition MAX_FEE_BPS_LIMIT :: nat where "MAX_FEE_BPS_LIMIT = 2000"

subsection \<open>Checks shared by the entry points\<close>

definition active_listing :: "nat \<Rightarrow> rfq \<Rightarrow> (RfqError, Listing) res" where
  "active_listing i s =
    (case listing s i of
       Some l \<Rightarrow> if ls_active l then Inr l else Inl (Err ListingNotActive)
     | None \<Rightarrow> Inl (Err ListingNotActive))"

definition check_fee :: "nat \<Rightarrow> rfq \<Rightarrow> (RfqError, unit) res" where
  "check_fee fee_bps s =
    and_then (config s) (\<lambda>cfg.
      panic_if (fee_bps < cf_min_fee_bps cfg \<or> cf_max_fee_bps cfg < fee_bps) FeeOutOfBounds)"

definition not_paused :: "rfq \<Rightarrow> (RfqError, unit) res" where
  "not_paused s = panic_if (paused s) Paused"

definition keeper_auth :: "env \<Rightarrow> address \<Rightarrow> rfq \<Rightarrow> (RfqError, bool) res" where
  "keeper_auth e caller s =
    and_then (require_auth e caller) (\<lambda>_.
    and_then (stored_admin s) (\<lambda>admin.
      if caller = admin then Inr True
      else and_then (panic_if (\<not> is_keeper s caller) NotAuthorized) (\<lambda>_. Inr False)))"

definition check_price_move :: "PushedPrice \<Rightarrow> int \<Rightarrow> nat \<Rightarrow> bool \<Rightarrow> rfq \<Rightarrow> (RfqError, unit) res" where
  "check_price_move prev new_price now is_admin s =
    and_then (config s) (\<lambda>cfg.
    and_then (panic_if (\<not> is_admin \<and>
        now < u64_saturating_add (pp_updated_at prev) (max (cf_min_push_interval cfg) 1))
        PriceUpdateTooSoon) (\<lambda>_.
      if cf_max_deviation_bps cfg = 0 then Inr ()
      else
        and_then (i128_sub new_price (pp_price prev)) (\<lambda>d.
        and_then (i128_abs d) (\<lambda>diff.
        and_then (rfq_mul_div diff BPS (pp_price prev)) (\<lambda>moved_bps.
          panic_if (int (cf_max_deviation_bps cfg) < moved_bps) PriceDeviation)))))"

definition amplitude :: "Schedule \<Rightarrow> nat" where
  "amplitude sc = (if sc_mode sc = Rolling then sc_rolling_seconds sc else sc_cycle_seconds sc)"

definition check_keeper_shift :: "env \<Rightarrow> address \<Rightarrow> Schedule \<Rightarrow> rfq \<Rightarrow> (RfqError, unit) res" where
  "check_keeper_shift e asset sc s =
    and_then (or_panic (schedule s asset) NotAuthorized) (\<lambda>prev.
    and_then (panic_if (sc_max_bps_per_day prev < sc_max_bps_per_day sc) ScheduleShiftTooLarge) (\<lambda>_.
    and_then (config s) (\<lambda>cfg.
      if cf_max_shift_seconds cfg = 0 then Inr ()
      else
        and_then (rfq_seconds_for e prev) (\<lambda>t0.
        and_then (rfq_seconds_for e sc) (\<lambda>t1.
          panic_if (cf_max_shift_seconds cfg < abs_diff t0 t1 \<or>
                    cf_max_shift_seconds cfg < abs_diff (amplitude prev) (amplitude sc))
            ScheduleShiftTooLarge)))))"

subsection \<open>Administration\<close>

definition initialize :: "env \<Rightarrow> address \<Rightarrow> address \<Rightarrow> rfq \<Rightarrow> (RfqError, rfq) res" where
  "initialize e admin ref s =
    and_then (panic_if (st_admin s \<noteq> None) AlreadyInitialized) (\<lambda>_.
    and_then (require_auth e admin) (\<lambda>_.
      Inr (s\<lparr>st_admin := Some admin,
             st_ref := Some \<lparr>rf_asset = ref, rf_epoch = 1\<rparr>,
             st_cfg := Some \<lparr>cf_min_fee_bps = 0, cf_max_fee_bps = 1000, cf_fallback_max_age = 0,
               cf_max_deviation_bps = 2000, cf_min_push_interval = 300,
               cf_max_shift_seconds = 2 * 86400, cf_decay_seconds = 0\<rparr>\<rparr>)))"

definition admin_only :: "env \<Rightarrow> rfq \<Rightarrow> (RfqError, unit) res" where
  "admin_only e s = and_then (stored_admin s) (require_auth e)"

definition upgrade :: "env \<Rightarrow> bytes32 \<Rightarrow> rfq \<Rightarrow> (RfqError, bytes32) res" where
  "upgrade e new_wasm_hash s = and_then (admin_only e s) (\<lambda>_. Inr new_wasm_hash)"

definition set_config :: "env \<Rightarrow> Config \<Rightarrow> rfq \<Rightarrow> (RfqError, rfq) res" where
  "set_config e cfg s =
    and_then (admin_only e s) (\<lambda>_.
    and_then (panic_if (cf_max_fee_bps cfg < cf_min_fee_bps cfg \<or> MAX_FEE_BPS_LIMIT < cf_max_fee_bps cfg \<or>
        BPS < int (cf_max_deviation_bps cfg)) InvalidConfig) (\<lambda>_.
      Inr (s\<lparr>st_cfg := Some cfg\<rparr>)))"

definition set_reference :: "env \<Rightarrow> address \<Rightarrow> rfq \<Rightarrow> (RfqError, rfq) res" where
  "set_reference e asset s =
    and_then (admin_only e s) (\<lambda>_.
    and_then (reference s) (\<lambda>r.
    and_then (u32_add (rf_epoch r) 1) (\<lambda>epoch.
      Inr (s\<lparr>st_ref := Some \<lparr>rf_asset = asset, rf_epoch = epoch\<rparr>\<rparr>))))"

definition set_keeper :: "env \<Rightarrow> address \<Rightarrow> bool \<Rightarrow> rfq \<Rightarrow> (RfqError, rfq) res" where
  "set_keeper e keeper allowed s =
    and_then (admin_only e s) (\<lambda>_. Inr (s\<lparr>st_keeper := (st_keeper s)(keeper \<mapsto> allowed)\<rparr>))"

definition set_paused :: "env \<Rightarrow> bool \<Rightarrow> rfq \<Rightarrow> (RfqError, rfq) res" where
  "set_paused e v s = and_then (admin_only e s) (\<lambda>_. Inr (s\<lparr>st_paused := Some v\<rparr>))"

definition set_oracle :: "env \<Rightarrow> address \<Rightarrow> address \<Rightarrow> OracleCfg option \<Rightarrow> rfq \<Rightarrow> (RfqError, rfq) res" where
  "set_oracle e base quote cfg s =
    and_then (admin_only e s) (\<lambda>_.
    and_then (case cfg of Some c \<Rightarrow> panic_if (oc_max_age c = 0) InvalidConfig | None \<Rightarrow> Inr ()) (\<lambda>_.
      Inr (store_oracle base quote cfg s)))"

definition set_schedule :: "env \<Rightarrow> address \<Rightarrow> address \<Rightarrow> Schedule \<Rightarrow> rfq \<Rightarrow> (RfqError, rfq) res" where
  "set_schedule e caller asset sc s =
    and_then (keeper_auth e caller s) (\<lambda>is_admin.
    and_then (validate_schedule e sc) (\<lambda>_.
    and_then (if is_admin then Inr () else check_keeper_shift e asset sc s) (\<lambda>_.
      Inr (s\<lparr>st_sched := (st_sched s)(asset \<mapsto> sc)\<rparr>))))"

definition push_price :: "env \<Rightarrow> address \<Rightarrow> address \<Rightarrow> int \<Rightarrow> rfq \<Rightarrow> (RfqError, rfq) res" where
  "push_price e caller asset new_price s =
    and_then (keeper_auth e caller s) (\<lambda>is_admin.
    and_then (panic_if (new_price \<le> 0) InvalidAmount) (\<lambda>_.
    and_then (reference s) (\<lambda>r.
      let epoch = rf_epoch r; now = ledger_timestamp e in
      and_then (case fallback s asset of
                  Some prev \<Rightarrow> if pp_epoch prev = epoch then check_price_move prev new_price now is_admin s
                               else Inr ()
                | None \<Rightarrow> Inr ()) (\<lambda>_.
        Inr (s\<lparr>st_fallback := (st_fallback s)(asset \<mapsto>
          \<lparr>pp_price = new_price, pp_updated_at = now, pp_epoch = epoch\<rparr>)\<rparr>)))))"

definition register_order_signer :: "env \<Rightarrow> address \<Rightarrow> bytes32 \<Rightarrow> bool \<Rightarrow> rfq \<Rightarrow> (RfqError, rfq) res" where
  "register_order_signer e maker signer allowed s =
    and_then (require_auth e maker) (\<lambda>_. Inr (set_signer maker signer allowed s))"

definition cancel_salt :: "crypto \<Rightarrow> env \<Rightarrow> address \<Rightarrow> address \<Rightarrow> nat \<Rightarrow> rfq \<Rightarrow> (RfqError, rfq) res" where
  "cancel_salt C e caller signer salt s =
    and_then (require_auth e caller) (\<lambda>_.
      let delegated = (case account_pubkey C caller of Some pk \<Rightarrow> is_signer s signer pk | None \<Rightarrow> False) in
      and_then (panic_if (caller \<noteq> signer \<and> \<not> delegated) NotAuthorized) (\<lambda>_.
        Inr (set_salt_cancelled signer salt s)))"

subsection \<open>Moving tokens\<close>

definition deliver :: "'w host \<Rightarrow> env \<Rightarrow> address \<Rightarrow> address \<Rightarrow> address \<Rightarrow> int \<Rightarrow> 'w \<Rightarrow> (RfqError, int \<times> 'w) res" where
  "deliver H e tok from to amount w =
    (let before = tk_balance H tok to w in
     and_then (token_transfer_from H e tok (current_contract e) from to amount w) (\<lambda>w.
     and_then (i128_sub (tk_balance H tok to w) before) (\<lambda>received.
     and_then (panic_if (received \<le> 0) InvalidAmount) (\<lambda>_.
       Inr (if amount < received then amount else received, w)))))"

definition pay :: "'w host \<Rightarrow> env \<Rightarrow> address \<Rightarrow> address \<Rightarrow> address \<Rightarrow> address \<Rightarrow> int \<Rightarrow> int \<Rightarrow> 'w \<Rightarrow>
    (RfqError, int \<times> 'w) res" where
  "pay H e tok payer to fee_to net fee w =
    (let me = current_contract e; before = tk_balance H tok to w in
     and_then (if 0 < net then token_transfer_from H e tok me payer to net w else Inr w) (\<lambda>w.
     and_then (if 0 < fee then token_transfer_from H e tok me payer fee_to fee w else Inr w) (\<lambda>w.
     and_then (i128_sub (tk_balance H tok to w) before) (\<lambda>received.
       Inr (received, w)))))"

definition check_floor :: "int \<Rightarrow> int \<Rightarrow> int \<Rightarrow> int \<Rightarrow> (RfqError, unit) res" where
  "check_floor received min_received taker_amount_in taker_amount =
    and_then (rfq_mul_div_ceil min_received taker_amount_in taker_amount) (\<lambda>least.
      panic_if (received < least) BelowMinReceived)"

subsection \<open>Order validation\<close>

definition verify :: "crypto \<Rightarrow> address \<Rightarrow> bytes32 \<Rightarrow> Signature \<Rightarrow> rfq \<Rightarrow> (RfqError, unit) res" where
  "verify C maker order_hash sig s =
    and_then (if ed25519_ok C (sg_signer sig) (bytes_of (sep53 C order_hash)) (sg_signature sig)
              then Inr () else Inl (Trap CallFailed)) (\<lambda>_.
      let own = (case account_pubkey C maker of Some pk \<Rightarrow> pk = sg_signer sig | None \<Rightarrow> False) in
      panic_if (\<not> own \<and> \<not> is_signer s maker (sg_signer sig)) SignerNotAuthorized)"

definition check_taker_consent :: "crypto \<Rightarrow> address \<Rightarrow> address \<Rightarrow> bytes32 \<Rightarrow> Signature option \<Rightarrow> rfq \<Rightarrow>
    (RfqError, unit) res" where
  "check_taker_consent C taker sender request_hash taker_signature s =
    (if taker = sender then Inr ()
     else (case taker_signature of
             Some sig \<Rightarrow> verify C taker request_hash sig s
           | None \<Rightarrow> Inl (Err SignerNotAuthorized)))"

definition book_request :: "bytes32 \<Rightarrow> int \<Rightarrow> int \<Rightarrow> rfq \<Rightarrow> (RfqError, rfq) res" where
  "book_request request_hash taker_amount taker_amount_in s =
    and_then (i128_add (request_filled s request_hash) taker_amount_in) (\<lambda>total.
    and_then (panic_if (taker_amount < total) RequestOverfilled) (\<lambda>_.
      Inr (set_request_filled request_hash total s)))"

definition take_fill :: "bytes32 \<Rightarrow> int \<Rightarrow> int \<Rightarrow> rfq \<Rightarrow> (RfqError, rfq) res" where
  "take_fill order_hash taker_amount taker_amount_in s =
    and_then (i128_add (filled s order_hash) taker_amount_in) (\<lambda>total.
    and_then (panic_if (taker_amount < total) OrderNotFillable) (\<lambda>_.
      Inr (set_filled order_hash total s)))"

definition check_terms :: "env \<Rightarrow> Request \<Rightarrow> int \<Rightarrow> rfq \<Rightarrow> (RfqError, unit) res" where
  "check_terms e r taker_amount_in s =
    and_then (not_paused s) (\<lambda>_.
    and_then (panic_if (rq_maker_token r = rq_taker_token r) SameToken) (\<lambda>_.
    and_then (panic_if (taker_amount_in \<le> 0 \<or> rq_taker_amount r \<le> 0 \<or> rq_min_received_amount r \<le> 0)
        InvalidAmount) (\<lambda>_.
    and_then (panic_if (rq_expiry r \<le> ledger_timestamp e) OrderNotFillable) (\<lambda>_.
      check_fee (rq_fee_bps r) s))))"

definition check_sender :: "Request \<Rightarrow> address \<Rightarrow> (RfqError, unit) res" where
  "check_sender r sender =
    (case rq_sender r of None \<Rightarrow> Inr () | Some only \<Rightarrow> panic_if (only \<noteq> sender) WrongSender)"

definition validate_common :: "crypto \<Rightarrow> env \<Rightarrow> Request \<Rightarrow> address \<Rightarrow> Signature option \<Rightarrow> address \<Rightarrow> int \<Rightarrow>
    rfq \<Rightarrow> (RfqError, address \<times> rfq) res" where
  "validate_common C e r maker taker_signature sender taker_amount_in s =
    and_then (check_terms e r taker_amount_in s) (\<lambda>_.
    and_then (check_sender r sender) (\<lambda>_.
    and_then (panic_if (is_salt_cancelled s maker (rq_salt r)) SaltIsCancelled) (\<lambda>_.
      (case rq_taker r of
         None \<Rightarrow> Inr (sender, s)
       | Some taker \<Rightarrow>
           and_then (panic_if (is_salt_cancelled s taker (rq_salt r)) SaltIsCancelled) (\<lambda>_.
             let request_hash = hash_request C e r in
             and_then (check_taker_consent C taker sender request_hash taker_signature s) (\<lambda>_.
             and_then (book_request request_hash (rq_taker_amount r) taker_amount_in s) (\<lambda>s.
               Inr (taker, s))))))))"

subsection \<open>Quoting and filling signed orders\<close>

definition quote_rfq_order :: "'w host \<Rightarrow> env \<Rightarrow> RfqOrder \<Rightarrow> int \<Rightarrow> rfq \<Rightarrow> 'w \<Rightarrow> (RfqError, Quote) res" where
  "quote_rfq_order H e order taker_amount_in s w =
    and_then (horizon e (ro_taker_token order) (ro_maker_token order) s) (\<lambda>(horizon_seconds, cap).
    and_then (panic_if (cap < ro_maker_bps_per_day order \<or>
        ro_taker_max_bps_per_day order < ro_maker_bps_per_day order) BpsPerDayTooHigh) (\<lambda>_.
    and_then (i128_mul (int (ro_maker_bps_per_day order)) (int horizon_seconds)) (\<lambda>discount.
    and_then (panic_if (DENOM \<le> discount) DiscountTooLarge) (\<lambda>_.
    and_then (price_of H e (ro_taker_token order) (ro_maker_token order) s w) (\<lambda>rate.
    and_then (rfq_mul_div taker_amount_in rate ONE) (\<lambda>gross.
    and_then (i128_sub DENOM discount) (\<lambda>keep.
    and_then (rfq_mul_div gross keep DENOM) (\<lambda>maker_amount.
    and_then (rfq_mul_div maker_amount (int (ro_fee_bps order)) BPS) (\<lambda>fee.
      Inr \<lparr>qt_maker_amount = maker_amount, qt_fee = fee, qt_horizon_seconds = horizon_seconds\<rparr>)))))))))"

definition fill_rfq_order :: "crypto \<Rightarrow> 'w host \<Rightarrow> env \<Rightarrow> RfqOrder \<Rightarrow> Signature \<Rightarrow> Signature option \<Rightarrow> address \<Rightarrow>
    int \<Rightarrow> rfq \<Rightarrow> 'w \<Rightarrow> (RfqError, FillResult \<times> rfq \<times> 'w) res" where
  "fill_rfq_order C H e order maker_signature taker_signature sender taker_amount_in s w =
    and_then (require_auth e sender) (\<lambda>_.
      let order_hash = hash_rfq_order C e order in
      and_then (validate_common C e (rfq_request order) (ro_maker order) taker_signature sender
          taker_amount_in s) (\<lambda>(taker, s).
      and_then (take_fill order_hash (ro_taker_amount order) taker_amount_in s) (\<lambda>s.
      and_then (verify C (ro_maker order) order_hash maker_signature s) (\<lambda>_.
      and_then (deliver H e (ro_taker_token order) taker (ro_maker order) taker_amount_in w) (\<lambda>(delivered, w).
      and_then (quote_rfq_order H e order delivered s w) (\<lambda>q.
      and_then (rfq_mul_div (ro_max_maker_amount order) taker_amount_in (ro_taker_amount order)) (\<lambda>cap.
      and_then (panic_if (cap < qt_maker_amount q) MakerAmountTooHigh) (\<lambda>_.
      and_then (i128_sub (qt_maker_amount q) (qt_fee q)) (\<lambda>net.
      and_then (pay H e (ro_maker_token order) (ro_maker order) taker (ro_fee_recipient order) net (qt_fee q) w)
        (\<lambda>(received, w).
      and_then (check_floor received (ro_min_received_amount order) taker_amount_in (ro_taker_amount order)) (\<lambda>_.
        Inr (\<lparr>fr_taker_filled = taker_amount_in, fr_maker_filled = qt_maker_amount q, fr_fee = qt_fee q\<rparr>,
             s, w))))))))))))"

definition fill_fixed_order :: "crypto \<Rightarrow> 'w host \<Rightarrow> env \<Rightarrow> FixedOrder \<Rightarrow> Signature \<Rightarrow> Signature option \<Rightarrow> address \<Rightarrow>
    int \<Rightarrow> rfq \<Rightarrow> 'w \<Rightarrow> (RfqError, FillResult \<times> rfq \<times> 'w) res" where
  "fill_fixed_order C H e order maker_signature taker_signature sender taker_amount_in s w =
    and_then (require_auth e sender) (\<lambda>_.
      let order_hash = hash_fixed_order C e order in
      and_then (validate_common C e (fixed_request order) (fx_maker order) taker_signature sender
          taker_amount_in s) (\<lambda>(taker, s).
      and_then (take_fill order_hash (fx_taker_amount order) taker_amount_in s) (\<lambda>s.
      and_then (verify C (fx_maker order) order_hash maker_signature s) (\<lambda>_.
      and_then (deliver H e (fx_taker_token order) taker (fx_maker order) taker_amount_in w) (\<lambda>(delivered, w).
      and_then (rfq_mul_div (fx_maker_amount order) delivered (fx_taker_amount order)) (\<lambda>maker_amount.
      and_then (rfq_mul_div maker_amount (int (fx_fee_bps order)) BPS) (\<lambda>fee.
      and_then (i128_sub maker_amount fee) (\<lambda>net.
      and_then (pay H e (fx_maker_token order) (fx_maker order) taker (fx_fee_recipient order) net fee w)
        (\<lambda>(received, w).
      and_then (check_floor received (fx_min_received_amount order) taker_amount_in (fx_taker_amount order)) (\<lambda>_.
        Inr (\<lparr>fr_taker_filled = taker_amount_in, fr_maker_filled = maker_amount, fr_fee = fee\<rparr>,
             s, w)))))))))))"

subsection \<open>Dutch listings\<close>

definition check_listing_amounts :: "DutchOrder \<Rightarrow> (RfqError, unit) res" where
  "check_listing_amounts order =
    panic_if (du_taker_amount order \<le> 0 \<or> du_min_maker_amount order \<le> 0 \<or>
      du_start_maker_amount order < du_min_maker_amount order) InvalidAmount"

definition check_curve :: "DutchOrder \<Rightarrow> nat \<Rightarrow> (RfqError, unit) res" where
  "check_curve order decay_seconds =
    panic_if (decay_seconds = 0 \<and> du_start_maker_amount order \<noteq> du_min_maker_amount order) InvalidConfig"

definition check_listing :: "env \<Rightarrow> DutchOrder \<Rightarrow> nat \<Rightarrow> rfq \<Rightarrow> (RfqError, unit) res" where
  "check_listing e order decay_seconds s =
    and_then (not_paused s) (\<lambda>_.
    and_then (panic_if (du_maker_token order = du_taker_token order) SameToken) (\<lambda>_.
    and_then (panic_if (du_expiry order \<noteq> 0 \<and> du_expiry order \<le> ledger_timestamp e) OrderNotFillable) (\<lambda>_.
    and_then (check_listing_amounts order) (\<lambda>_.
    and_then (check_curve order decay_seconds) (\<lambda>_.
      check_fee (du_fee_bps order) s)))))"

definition rescale :: "DutchOrder \<Rightarrow> int \<Rightarrow> (RfqError, DutchOrder) res" where
  "rescale order escrowed =
    (if escrowed = du_taker_amount order then Inr order
     else
       and_then (rfq_mul_div (du_start_maker_amount order) escrowed (du_taker_amount order)) (\<lambda>start.
       and_then (rfq_mul_div (du_min_maker_amount order) escrowed (du_taker_amount order)) (\<lambda>least.
       and_then (panic_if (least \<le> 0) InvalidAmount) (\<lambda>_.
         Inr (order\<lparr>du_start_maker_amount := start, du_min_maker_amount := least,
           du_taker_amount := escrowed\<rparr>)))))"

definition ask :: "env \<Rightarrow> Listing \<Rightarrow> (RfqError, int) res" where
  "ask e l =
    (let start = du_start_maker_amount (ls_order l); least = du_min_maker_amount (ls_order l) in
     and_then (u64_sub (ledger_timestamp e) (ls_created_at l)) (\<lambda>elapsed.
       if ls_decay_seconds l = 0 \<or> ls_decay_seconds l \<le> elapsed then Inr least
       else
         and_then (i128_sub start least) (\<lambda>span.
         and_then (rfq_mul_div span (int elapsed) (int (ls_decay_seconds l))) (\<lambda>drop.
           i128_sub start drop))))"

definition create_dutch_order :: "'w host \<Rightarrow> env \<Rightarrow> address \<Rightarrow> DutchOrder \<Rightarrow> rfq \<Rightarrow> 'w \<Rightarrow>
    (RfqError, nat \<times> rfq \<times> 'w) res" where
  "create_dutch_order H e seller order s w =
    and_then (require_auth e seller) (\<lambda>_.
    and_then (config s) (\<lambda>cfg.
      let decay_seconds = cf_decay_seconds cfg in
      and_then (check_listing e order decay_seconds s) (\<lambda>_.
      and_then (deliver H e (du_taker_token order) seller (current_contract e) (du_taker_amount order) w)
        (\<lambda>(escrowed, w).
      and_then (rescale order escrowed) (\<lambda>terms.
      and_then (next_id s) (\<lambda>(i, s).
        Inr (i, set_listing i \<lparr>ls_order = terms, ls_seller = seller, ls_created_at = ledger_timestamp e,
               ls_decay_seconds = decay_seconds, ls_active = True\<rparr> s, w)))))))"

definition current_ask :: "env \<Rightarrow> nat \<Rightarrow> rfq \<Rightarrow> (RfqError, int) res" where
  "current_ask e i s = and_then (active_listing i s) (ask e)"

definition fill_dutch_order :: "'w host \<Rightarrow> env \<Rightarrow> nat \<Rightarrow> address \<Rightarrow> int \<Rightarrow> rfq \<Rightarrow> 'w \<Rightarrow>
    (RfqError, FillResult \<times> rfq \<times> 'w) res" where
  "fill_dutch_order H e i buyer max_maker_amount s w =
    and_then (require_auth e buyer) (\<lambda>_.
    and_then (not_paused s) (\<lambda>_.
    and_then (active_listing i s) (\<lambda>l.
      let order = ls_order l in
      and_then (panic_if (du_expiry order \<noteq> 0 \<and> du_expiry order < ledger_timestamp e) OrderNotFillable) (\<lambda>_.
      and_then (check_fee (du_fee_bps order) s) (\<lambda>_.
      and_then (ask e l) (\<lambda>maker_amount.
      and_then (panic_if (maker_amount \<le> 0) InvalidAmount) (\<lambda>_.
      and_then (panic_if (max_maker_amount < maker_amount) AskAboveMax) (\<lambda>_.
      and_then (rfq_mul_div maker_amount (int (du_fee_bps order)) BPS) (\<lambda>fee.
        let s = set_listing i (l\<lparr>ls_active := False\<rparr>) s in
        and_then (token_transfer H e (du_taker_token order) (current_contract e) buyer (du_taker_amount order) w) (\<lambda>w.
        and_then (i128_sub maker_amount fee) (\<lambda>net.
        and_then (pay H e (du_maker_token order) buyer (ls_seller l) (du_fee_recipient order) net fee w)
          (\<lambda>(received, w).
        and_then (panic_if (received < net) BelowMinReceived) (\<lambda>_.
          Inr (\<lparr>fr_taker_filled = du_taker_amount order, fr_maker_filled = maker_amount, fr_fee = fee\<rparr>,
               s, w))))))))))))))"

definition cancel_dutch_order :: "'w host \<Rightarrow> env \<Rightarrow> nat \<Rightarrow> rfq \<Rightarrow> 'w \<Rightarrow> (RfqError, rfq \<times> 'w) res" where
  "cancel_dutch_order H e i s w =
    and_then (active_listing i s) (\<lambda>l.
    and_then (require_auth e (ls_seller l)) (\<lambda>_.
      let s = set_listing i (l\<lparr>ls_active := False\<rparr>) s in
      and_then (token_transfer H e (du_taker_token (ls_order l)) (current_contract e) (ls_seller l)
          (du_taker_amount (ls_order l)) w) (\<lambda>w.
        Inr (s, w))))"

subsection \<open>The whole contract as one step function\<close>

datatype rfq_call =
    C_initialize address address
  | C_set_config Config
  | C_set_reference address
  | C_set_keeper address bool
  | C_set_paused bool
  | C_set_oracle address address "OracleCfg option"
  | C_set_schedule address address Schedule
  | C_push_price address address int
  | C_register_order_signer address bytes32 bool
  | C_cancel_salt address address nat
  | C_fill_rfq RfqOrder Signature "Signature option" address int
  | C_fill_fixed FixedOrder Signature "Signature option" address int
  | C_create_dutch address DutchOrder
  | C_fill_dutch nat address int
  | C_cancel_dutch nat

definition rfq_exec :: "crypto \<Rightarrow> 'w host \<Rightarrow> env \<Rightarrow> rfq_call \<Rightarrow> rfq \<Rightarrow> 'w \<Rightarrow>
    (RfqError, FillResult option \<times> rfq \<times> 'w) res" where
  "rfq_exec C H e c s w = (case c of
      C_initialize a r \<Rightarrow> and_then (initialize e a r s) (\<lambda>s. Inr (None, s, w))
    | C_set_config cfg \<Rightarrow> and_then (set_config e cfg s) (\<lambda>s. Inr (None, s, w))
    | C_set_reference a \<Rightarrow> and_then (set_reference e a s) (\<lambda>s. Inr (None, s, w))
    | C_set_keeper k b \<Rightarrow> and_then (set_keeper e k b s) (\<lambda>s. Inr (None, s, w))
    | C_set_paused b \<Rightarrow> and_then (set_paused e b s) (\<lambda>s. Inr (None, s, w))
    | C_set_oracle b q cfg \<Rightarrow> and_then (set_oracle e b q cfg s) (\<lambda>s. Inr (None, s, w))
    | C_set_schedule a t sc \<Rightarrow> and_then (set_schedule e a t sc s) (\<lambda>s. Inr (None, s, w))
    | C_push_price a t x \<Rightarrow> and_then (push_price e a t x s) (\<lambda>s. Inr (None, s, w))
    | C_register_order_signer m k b \<Rightarrow> and_then (register_order_signer e m k b s) (\<lambda>s. Inr (None, s, w))
    | C_cancel_salt a g n \<Rightarrow> and_then (cancel_salt C e a g n s) (\<lambda>s. Inr (None, s, w))
    | C_fill_rfq order ms ts sender x \<Rightarrow>
        and_then (fill_rfq_order C H e order ms ts sender x s w) (\<lambda>(r, s, w). Inr (Some r, s, w))
    | C_fill_fixed order ms ts sender x \<Rightarrow>
        and_then (fill_fixed_order C H e order ms ts sender x s w) (\<lambda>(r, s, w). Inr (Some r, s, w))
    | C_create_dutch seller order \<Rightarrow>
        and_then (create_dutch_order H e seller order s w) (\<lambda>(_, s, w). Inr (None, s, w))
    | C_fill_dutch i buyer m \<Rightarrow>
        and_then (fill_dutch_order H e i buyer m s w) (\<lambda>(r, s, w). Inr (Some r, s, w))
    | C_cancel_dutch i \<Rightarrow> and_then (cancel_dutch_order H e i s w) (\<lambda>(s, w). Inr (None, s, w)))"

text \<open>
  A run of the contract at address \<open>me\<close>: the successful calls, each with its environment and result, in
  any world the outside leaves between them. A call that fails reverts and is no step.
\<close>

record rfq_event =
  ev_env :: env
  ev_call :: rfq_call
  ev_fill :: "FillResult option"

inductive rfq_run :: "crypto \<Rightarrow> 'w host \<Rightarrow> address \<Rightarrow> rfq \<Rightarrow> rfq_event list \<Rightarrow> rfq \<Rightarrow> bool"
  for C :: crypto and H :: "'w host" and me :: address and s0 :: rfq where
  start: "rfq_run C H me s0 [] s0"
| call: "rfq_run C H me s0 evs s \<Longrightarrow> current_contract e = me \<Longrightarrow>
    rfq_exec C H e c s w = Inr (fr, s', w') \<Longrightarrow>
    rfq_run C H me s0 (evs @ [\<lparr>ev_env = e, ev_call = c, ev_fill = fr\<rparr>]) s'"

end
