(* ===== verification/Rfq_Settlement.thy ===== *)
theory Rfq_Settlement
  imports Rfq
begin

text \<open>
  What a successful fill of a signed order has checked and done (\<open>settled\<close>, the common part of
  \<open>fill_rfq_order\<close> and \<open>fill_fixed_order\<close>), and what follows for a whole run: no order and no request is
  ever overfilled, the maker never pays past the order's maximum however it is sliced, a cancelled salt
  stays dead, and on standard tokens each fill moves exactly the amounts it reports.
\<close>

subsection \<open>The common part of both fills\<close>

definition settled :: "crypto \<Rightarrow> 'w host \<Rightarrow> env \<Rightarrow> Request \<Rightarrow> address \<Rightarrow> bytes32 \<Rightarrow> Signature \<Rightarrow> Signature option \<Rightarrow>
    address \<Rightarrow> int \<Rightarrow> rfq \<Rightarrow> 'w \<Rightarrow> address \<Rightarrow> FillResult \<Rightarrow> rfq \<Rightarrow> 'w \<Rightarrow> bool" where
  "settled C H e r maker h sig tsig sender x s w taker fr s' w' \<longleftrightarrow>
    authorised e sender \<and> fr_taker_filled fr = x \<and>
    (\<exists>s1. validate_common C e r maker tsig sender x s = Inr (taker, s1) \<and>
          take_fill h (rq_taker_amount r) x s1 = Inr s') \<and>
    verify C maker h sig s' = Inr () \<and>
    mul_div (fr_maker_filled fr) (int (rq_fee_bps r)) BPS = Inr (fr_fee fr) \<and>
    (\<exists>d w1 received. deliver H e (rq_taker_token r) taker maker x w = Inr (d, w1) \<and>
       pay H e (rq_maker_token r) maker taker (rq_fee_recipient r) (fr_maker_filled fr - fr_fee fr)
         (fr_fee fr) w1 = Inr (received, w') \<and>
       ceil_div (rq_min_received_amount r * x) (rq_taker_amount r) \<le> received)"

lemmas request_fields = rfq_request_def fixed_request_def

lemma quote_fee: "quote_rfq_order H e order x s w = Inr q \<Longrightarrow>
    mul_div (qt_maker_amount q) (int (ro_fee_bps order)) BPS = Inr (qt_fee q)"
  by (auto simp: quote_rfq_order_def rs split: prod.splits)

lemma fill_rfq_settled:
  assumes "fill_rfq_order C H e order ms ts sender x s w = Inr (fr, s', w')"
  obtains taker where
    "settled C H e (rfq_request order) (ro_maker order) (hash_rfq_order C e order) ms ts sender x s w taker fr s' w'"
    "mul_div (ro_max_maker_amount order) x (ro_taker_amount order) =
       Inr (ro_max_maker_amount order * x div ro_taker_amount order)"
    "fr_maker_filled fr \<le> ro_max_maker_amount order * x div ro_taker_amount order"
proof -
  from assms obtain taker s1 d w1 q cap received where
    steps: "authorised e sender"
      "validate_common C e (rfq_request order) (ro_maker order) ts sender x s = Inr (taker, s1)"
      "take_fill (hash_rfq_order C e order) (ro_taker_amount order) x s1 = Inr s'"
      "verify C (ro_maker order) (hash_rfq_order C e order) ms s' = Inr ()"
      "deliver H e (ro_taker_token order) taker (ro_maker order) x w = Inr (d, w1)"
      "quote_rfq_order H e order d s' w1 = Inr q"
      "rfq_mul_div (ro_max_maker_amount order) x (ro_taker_amount order) = Inr cap"
      "qt_maker_amount q \<le> cap"
      "pay H e (ro_maker_token order) (ro_maker order) taker (ro_fee_recipient order)
         (qt_maker_amount q - qt_fee q) (qt_fee q) w1 = Inr (received, w')"
      "check_floor received (ro_min_received_amount order) x (ro_taker_amount order) = Inr ()"
      "fr = \<lparr>fr_taker_filled = x, fr_maker_filled = qt_maker_amount q, fr_fee = qt_fee q\<rparr>"
    by (auto simp: fill_rfq_order_def Let_def and_then_Inr_iff require_auth_Inr_iff panic_if_Inr_iff
        i128_ops_Inr_iff)
  show thesis
  proof (rule that [of taker])
    have "ceil_div (ro_min_received_amount order * x) (ro_taker_amount order) \<le> received"
      using steps(10) by (auto simp: check_floor_def rs)
    with steps quote_fee [OF steps(6)]
    show "settled C H e (rfq_request order) (ro_maker order) (hash_rfq_order C e order) ms ts sender x s w
        taker fr s' w'"
      unfolding settled_def by (auto simp: request_fields)
    show "fr_maker_filled fr \<le> ro_max_maker_amount order * x div ro_taker_amount order"
      "mul_div (ro_max_maker_amount order) x (ro_taker_amount order) =
         Inr (ro_max_maker_amount order * x div ro_taker_amount order)"
      using steps(7,8,11) by (auto simp: rs)
  qed
qed

lemma fill_fixed_settled:
  assumes "fill_fixed_order C H e order ms ts sender x s w = Inr (fr, s', w')"
  obtains taker d w1 where
    "settled C H e (fixed_request order) (fx_maker order) (hash_fixed_order C e order) ms ts sender x s w taker fr s' w'"
    "deliver H e (fx_taker_token order) taker (fx_maker order) x w = Inr (d, w1)"
    "mul_div (fx_maker_amount order) d (fx_taker_amount order) = Inr (fr_maker_filled fr)"
proof -
  from assms obtain taker s1 d w1 m fee received where
    steps: "authorised e sender"
      "validate_common C e (fixed_request order) (fx_maker order) ts sender x s = Inr (taker, s1)"
      "take_fill (hash_fixed_order C e order) (fx_taker_amount order) x s1 = Inr s'"
      "verify C (fx_maker order) (hash_fixed_order C e order) ms s' = Inr ()"
      "deliver H e (fx_taker_token order) taker (fx_maker order) x w = Inr (d, w1)"
      "rfq_mul_div (fx_maker_amount order) d (fx_taker_amount order) = Inr m"
      "rfq_mul_div m (int (fx_fee_bps order)) BPS = Inr fee"
      "pay H e (fx_maker_token order) (fx_maker order) taker (fx_fee_recipient order)
         (m - fee) fee w1 = Inr (received, w')"
      "check_floor received (fx_min_received_amount order) x (fx_taker_amount order) = Inr ()"
      "fr = \<lparr>fr_taker_filled = x, fr_maker_filled = m, fr_fee = fee\<rparr>"
    by (auto simp: fill_fixed_order_def Let_def and_then_Inr_iff require_auth_Inr_iff panic_if_Inr_iff
        i128_ops_Inr_iff)
  show thesis
  proof (rule that [of taker d w1])
    have "ceil_div (fx_min_received_amount order * x) (fx_taker_amount order) \<le> received"
      using steps(9) by (auto simp: check_floor_def rs)
    with steps
    show "settled C H e (fixed_request order) (fx_maker order) (hash_fixed_order C e order) ms ts sender x s w
        taker fr s' w'"
      unfolding settled_def by (auto simp: request_fields rfq_mul_div_Inr_iff)
    show "deliver H e (fx_taker_token order) taker (fx_maker order) x w = Inr (d, w1)" by (rule steps(5))
    show "mul_div (fx_maker_amount order) d (fx_taker_amount order) = Inr (fr_maker_filled fr)"
      using steps(6,10) by (simp add: rs)
  qed
qed

subsection \<open>What was checked\<close>

lemma check_terms_Inr_iff [rs]:
  "check_terms e r x s = Inr u \<longleftrightarrow> \<not> paused s \<and> rq_maker_token r \<noteq> rq_taker_token r \<and> 0 < x \<and>
     0 < rq_taker_amount r \<and> 0 < rq_min_received_amount r \<and> ledger_timestamp e < rq_expiry r \<and>
     (\<exists>cfg. st_cfg s = Some cfg \<and> cf_min_fee_bps cfg \<le> rq_fee_bps r \<and> rq_fee_bps r \<le> cf_max_fee_bps cfg)"
  by (auto simp: check_terms_def check_fee_def not_paused_def rs not_le not_less)

lemma check_sender_Inr_iff [rs]:
  "check_sender r sender = Inr u \<longleftrightarrow> rq_sender r = None \<or> rq_sender r = Some sender"
  by (auto simp: check_sender_def rs split: option.splits)

lemma validate_common_Inr:
  assumes "validate_common C e r maker tsig sender x s = Inr (taker, s')"
  shows "\<not> paused s" "rq_maker_token r \<noteq> rq_taker_token r" "0 < x" "0 < rq_taker_amount r"
    "0 < rq_min_received_amount r" "ledger_timestamp e < rq_expiry r"
    "rq_sender r = None \<or> rq_sender r = Some sender"
    "\<not> is_salt_cancelled s maker (rq_salt r)"
    "\<exists>cfg. st_cfg s = Some cfg \<and> cf_min_fee_bps cfg \<le> rq_fee_bps r \<and> rq_fee_bps r \<le> cf_max_fee_bps cfg"
    "case rq_taker r of
       None \<Rightarrow> taker = sender \<and> s' = s
     | Some t \<Rightarrow> taker = t \<and> \<not> is_salt_cancelled s t (rq_salt r) \<and>
         (t = sender \<or> (\<exists>sig. tsig = Some sig \<and> verify C t (hash_request C e r) sig s = Inr ())) \<and>
         request_filled s (hash_request C e r) + x \<le> rq_taker_amount r \<and>
         s' = set_request_filled (hash_request C e r) (request_filled s (hash_request C e r) + x) s"
  using assms
  by (auto simp: validate_common_def rs Let_def check_taker_consent_def book_request_def
      split: option.splits if_splits)

lemma take_fill_Inr_iff [rs]:
  "take_fill h T x s = Inr s' \<longleftrightarrow> is_i128 (filled s h + x) \<and> filled s h + x \<le> T \<and>
     s' = set_filled h (filled s h + x) s"
  by (auto simp: take_fill_def rs)

lemma settled_validated:
  assumes "settled C H e r maker h sig tsig sender x s w taker fr s' w'"
  obtains s1 where "validate_common C e r maker tsig sender x s = Inr (taker, s1)"
    "filled s1 h + x \<le> rq_taker_amount r" "s' = set_filled h (filled s1 h + x) s1"
  using assms by (auto simp: settled_def rs)

subsection \<open>What a call changes\<close>

definition signed_fill :: "crypto \<Rightarrow> env \<Rightarrow> rfq_call \<Rightarrow> (Request \<times> address \<times> bytes32 \<times> int) option" where
  "signed_fill C e c = (case c of
      C_fill_rfq order _ _ _ x \<Rightarrow> Some (rfq_request order, ro_maker order, hash_rfq_order C e order, x)
    | C_fill_fixed order _ _ _ x \<Rightarrow> Some (fixed_request order, fx_maker order, hash_fixed_order C e order, x)
    | _ \<Rightarrow> None)"

lemma counters_cong:
  "st_filled s' = st_filled s \<Longrightarrow> filled s' = filled s"
  "st_request_filled s' = st_request_filled s \<Longrightarrow> request_filled s' = request_filled s"
  "st_salt_cancelled s' = st_salt_cancelled s \<Longrightarrow> is_salt_cancelled s' = is_salt_cancelled s"
  by (auto simp: filled_def request_filled_def is_salt_cancelled_def fun_eq_iff)

lemmas admin_op_defs = initialize_def set_config_def set_reference_def set_keeper_def set_paused_def
  set_oracle_def store_oracle_def set_schedule_def push_price_def register_order_signer_def set_signer_def
  cancel_salt_def set_salt_cancelled_def

lemmas dutch_op_defs = create_dutch_order_def fill_dutch_order_def cancel_dutch_order_def next_id_def
  set_listing_def

lemma exec_other_counters:
  assumes "rfq_exec C H e c s w = Inr (fr, s', w')" "signed_fill C e c = None"
  shows "st_filled s' = st_filled s" "st_request_filled s' = st_request_filled s"
    "is_salt_cancelled s a n \<Longrightarrow> is_salt_cancelled s' a n"
  using assms
  by (cases c; auto simp: rfq_exec_def rs Let_def admin_op_defs dutch_op_defs signed_fill_def
      is_salt_cancelled_def split: prod.splits option.splits if_splits)+

lemma exec_signed_fill:
  assumes "rfq_exec C H e c s w = Inr (fr, s', w')" "signed_fill C e c = Some (r, maker, h, x)"
  obtains sig tsig sender taker f where "fr = Some f"
    "settled C H e r maker h sig tsig sender x s w taker f s' w'"
proof (cases c)
  case (C_fill_rfq order ms ts sender y)
  with assms obtain f where "fr = Some f" "fill_rfq_order C H e order ms ts sender x s w = Inr (f, s', w')"
    by (auto simp: rfq_exec_def rs signed_fill_def)
  with C_fill_rfq assms(2) show thesis
    by (auto simp: signed_fill_def elim!: fill_rfq_settled intro: that)
next
  case (C_fill_fixed order ms ts sender y)
  with assms obtain f where "fr = Some f" "fill_fixed_order C H e order ms ts sender x s w = Inr (f, s', w')"
    by (auto simp: rfq_exec_def rs signed_fill_def)
  with C_fill_fixed assms(2) show thesis
    by (auto simp: signed_fill_def elim!: fill_fixed_settled intro: that)
qed (use assms in \<open>simp_all add: signed_fill_def\<close>)

lemma settled_counters:
  assumes "settled C H e r maker h sig tsig sender x s w taker fr s' w'"
  shows "0 < x" "filled s h + x \<le> rq_taker_amount r" "filled s' = (filled s)(h := filled s h + x)"
    "request_filled s' = (if rq_taker r = None then request_filled s
       else (request_filled s)(hash_request C e r := request_filled s (hash_request C e r) + x))"
    "rq_taker r \<noteq> None \<Longrightarrow> request_filled s (hash_request C e r) + x \<le> rq_taker_amount r"
    "is_salt_cancelled s' = is_salt_cancelled s"
    "\<not> is_salt_cancelled s maker (rq_salt r)" "rq_taker r = Some t \<Longrightarrow> \<not> is_salt_cancelled s t (rq_salt r)"
proof -
  from assms obtain s1 where v: "validate_common C e r maker tsig sender x s = Inr (taker, s1)"
    and f: "filled s1 h + x \<le> rq_taker_amount r" "s' = set_filled h (filled s1 h + x) s1"
    by (rule settled_validated)
  have salts: "is_salt_cancelled (set_filled k y z) = is_salt_cancelled z"
    "is_salt_cancelled (set_request_filled k y z) = is_salt_cancelled z" for k y z
    by (simp_all add: set_filled_def set_request_filled_def is_salt_cancelled_def fun_eq_iff)
  note V = validate_common_Inr [OF v]
  show "0 < x" "\<not> is_salt_cancelled s maker (rq_salt r)" by (fact V(3), fact V(8))
  show "filled s h + x \<le> rq_taker_amount r" "filled s' = (filled s)(h := filled s h + x)"
    "request_filled s' = (if rq_taker r = None then request_filled s
       else (request_filled s)(hash_request C e r := request_filled s (hash_request C e r) + x))"
    "is_salt_cancelled s' = is_salt_cancelled s"
    using V(10) f by (auto simp: salts split: option.splits)
  show "rq_taker r \<noteq> None \<Longrightarrow> request_filled s (hash_request C e r) + x \<le> rq_taker_amount r"
    "rq_taker r = Some t \<Longrightarrow> \<not> is_salt_cancelled s t (rq_salt r)"
    using V(10) by (auto split: option.splits)
qed

subsection \<open>Runs\<close>

text \<open>How much of an order, or of a request with a named taker, one event filled, and what it paid.\<close>

definition rfq_amount :: "RfqOrder \<Rightarrow> rfq_event \<Rightarrow> int" where
  "rfq_amount order ev = (case ev_call ev of C_fill_rfq o1 _ _ _ x \<Rightarrow> if o1 = order then x else 0 | _ \<Rightarrow> 0)"

definition fixed_amount :: "FixedOrder \<Rightarrow> rfq_event \<Rightarrow> int" where
  "fixed_amount order ev = (case ev_call ev of C_fill_fixed o1 _ _ _ x \<Rightarrow> if o1 = order then x else 0 | _ \<Rightarrow> 0)"

definition request_amount :: "Request \<Rightarrow> rfq_event \<Rightarrow> int" where
  "request_amount r ev = (case ev_call ev of
      C_fill_rfq o1 _ _ _ x \<Rightarrow> if rfq_request o1 = r then x else 0
    | C_fill_fixed o1 _ _ _ x \<Rightarrow> if fixed_request o1 = r then x else 0
    | _ \<Rightarrow> 0)"

definition event_total :: "(rfq_event \<Rightarrow> int) \<Rightarrow> rfq_event list \<Rightarrow> int" where
  "event_total f evs = sum_list (map f evs)"

lemma event_total_simps [simp]: "event_total f [] = 0" "event_total f (evs @ [ev]) = event_total f evs + f ev"
  by (simp_all add: event_total_def)

text \<open>
  One argument for all three counters: an amount per event, booked on a counter that starts non-negative,
  never past \<open>T\<close> by an event of the amount's own kind, and never lowered by another.
\<close>

lemma run_total_bound:
  fixes ctr :: "rfq \<Rightarrow> int" and T :: int
  assumes "rfq_run C H me s0 evs s" "0 \<le> ctr s0"
    and step: "\<And>e c s w fr s' w'. current_contract e = me \<Longrightarrow> rfq_exec C H e c s w = Inr (fr, s', w') \<Longrightarrow>
      (let x = f \<lparr>ev_env = e, ev_call = c, ev_fill = fr\<rparr> in
       0 \<le> x \<and> ctr s + x \<le> ctr s' \<and> (x = 0 \<or> ctr s + x \<le> T))"
  shows "event_total f evs \<le> max 0 T"
proof -
  have "event_total f evs \<le> ctr s \<and> event_total f evs \<le> max 0 T"
    using assms(1)
  proof induction
    case start
    with assms(2) show ?case by simp
  next
    case (call evs s e c w fr s' w')
    from step [OF call.hyps(2,3)] call.IH show ?case
      by (auto simp: Let_def)
  qed
  then show ?thesis by simp
qed

lemma hash_env_cong:
  "current_contract e = current_contract e' \<Longrightarrow> hash_rfq_order C e order = hash_rfq_order C e' order"
  "current_contract e = current_contract e' \<Longrightarrow> hash_fixed_order C e order2 = hash_fixed_order C e' order2"
  "current_contract e = current_contract e' \<Longrightarrow> hash_request C e r = hash_request C e' r"
  by (simp_all add: hash_rfq_order_def hash_fixed_order_def hash_request_def digest_def digest_preimage_def)

text \<open>Every call raises a counter by a non-negative amount; the order of the fill bounds it.\<close>

lemma exec_counters:
  assumes "rfq_exec C H e c s w = Inr (fr, s', w')"
  shows "filled s k \<le> filled s' k" "request_filled s k \<le> request_filled s' k"
    "signed_fill C e c = Some (r, maker, h, x) \<Longrightarrow> 0 < x \<and> filled s' h = filled s h + x \<and> filled s h + x \<le> rq_taker_amount r"
    "signed_fill C e c = Some (r, maker, h, x) \<Longrightarrow> rq_taker r \<noteq> None \<Longrightarrow>
       request_filled s' (hash_request C e r) = request_filled s (hash_request C e r) + x \<and>
       request_filled s (hash_request C e r) + x \<le> rq_taker_amount r"
proof -
  have "filled s k \<le> filled s' k \<and> request_filled s k \<le> request_filled s' k"
  proof (cases "signed_fill C e c")
    case None
    then have "filled s' = filled s" "request_filled s' = request_filled s"
      using exec_other_counters [OF assms] counters_cong by blast+
    then show ?thesis by simp
  next
    case (Some q)
    obtain r maker h x where "q = (r, maker, h, x)" by (cases q)
    with Some assms obtain sig tsig sender taker f where
      "settled C H e r maker h sig tsig sender x s w taker f s' w'"
      by (auto elim: exec_signed_fill)
    from settled_counters [OF this] show ?thesis by auto
  qed
  then show "filled s k \<le> filled s' k" "request_filled s k \<le> request_filled s' k" by auto
  assume "signed_fill C e c = Some (r, maker, h, x)"
  with assms obtain sig tsig sender taker f where
    st: "settled C H e r maker h sig tsig sender x s w taker f s' w'"
    by (auto elim: exec_signed_fill)
  from settled_counters [OF st]
  show "0 < x \<and> filled s' h = filled s h + x \<and> filled s h + x \<le> rq_taker_amount r"
    "rq_taker r \<noteq> None \<Longrightarrow>
       request_filled s' (hash_request C e r) = request_filled s (hash_request C e r) + x \<and>
       request_filled s (hash_request C e r) + x \<le> rq_taker_amount r"
    by auto
qed

lemma run_rfq_order_bound:
  assumes "rfq_run C H me s0 evs s" "\<And>h. 0 \<le> filled s0 h"
  shows "event_total (rfq_amount order) evs \<le> max 0 (ro_taker_amount order)"
proof -
  obtain e0 :: env where e0: "current_contract e0 = me" by (metis calling_fields(3))
  show ?thesis
  proof (rule run_total_bound [OF assms(1), where ctr = "\<lambda>s. filled s (hash_rfq_order C e0 order)"])
    fix e c s w fr s' w'
    assume e: "current_contract e = me" and x: "rfq_exec C H e c s w = Inr (fr, s', w')"
    from e e0 have "hash_rfq_order C e order = hash_rfq_order C e0 order"
      by (intro hash_env_cong(1)) simp
    with exec_counters(1) [OF x, of "hash_rfq_order C e0 order"] exec_counters(3) [OF x]
    show "let x = rfq_amount order \<lparr>ev_env = e, ev_call = c, ev_fill = fr\<rparr> in
        0 \<le> x \<and> filled s (hash_rfq_order C e0 order) + x \<le> filled s' (hash_rfq_order C e0 order) \<and>
        (x = 0 \<or> filled s (hash_rfq_order C e0 order) + x \<le> ro_taker_amount order)"
      by (auto simp: rfq_amount_def signed_fill_def request_fields split: rfq_call.splits)
  qed (rule assms(2))
qed

lemma run_fixed_order_bound:
  assumes "rfq_run C H me s0 evs s" "\<And>h. 0 \<le> filled s0 h"
  shows "event_total (fixed_amount order) evs \<le> max 0 (fx_taker_amount order)"
proof -
  obtain e0 :: env where e0: "current_contract e0 = me" by (metis calling_fields(3))
  show ?thesis
  proof (rule run_total_bound [OF assms(1), where ctr = "\<lambda>s. filled s (hash_fixed_order C e0 order)"])
    fix e c s w fr s' w'
    assume e: "current_contract e = me" and x: "rfq_exec C H e c s w = Inr (fr, s', w')"
    from e e0 have "hash_fixed_order C e order = hash_fixed_order C e0 order"
      by (intro hash_env_cong(2)) simp
    with exec_counters(1) [OF x, of "hash_fixed_order C e0 order"] exec_counters(3) [OF x]
    show "let x = fixed_amount order \<lparr>ev_env = e, ev_call = c, ev_fill = fr\<rparr> in
        0 \<le> x \<and> filled s (hash_fixed_order C e0 order) + x \<le> filled s' (hash_fixed_order C e0 order) \<and>
        (x = 0 \<or> filled s (hash_fixed_order C e0 order) + x \<le> fx_taker_amount order)"
      by (auto simp: fixed_amount_def signed_fill_def request_fields split: rfq_call.splits)
  qed (rule assms(2))
qed

lemma run_request_bound:
  assumes "rfq_run C H me s0 evs s" "\<And>h. 0 \<le> request_filled s0 h" "rq_taker r \<noteq> None"
  shows "event_total (request_amount r) evs \<le> max 0 (rq_taker_amount r)"
proof -
  obtain e0 :: env where e0: "current_contract e0 = me" by (metis calling_fields(3))
  show ?thesis
  proof (rule run_total_bound [OF assms(1), where ctr = "\<lambda>s. request_filled s (hash_request C e0 r)"])
    fix e c s w fr s' w'
    assume e: "current_contract e = me" and x: "rfq_exec C H e c s w = Inr (fr, s', w')"
    from e e0 have "hash_request C e r = hash_request C e0 r"
      by (intro hash_env_cong(3)) simp
    with exec_counters(2) [OF x, of "hash_request C e0 r"] exec_counters(3,4) [OF x] assms(3)
    show "let x = request_amount r \<lparr>ev_env = e, ev_call = c, ev_fill = fr\<rparr> in
        0 \<le> x \<and> request_filled s (hash_request C e0 r) + x \<le> request_filled s' (hash_request C e0 r) \<and>
        (x = 0 \<or> request_filled s (hash_request C e0 r) + x \<le> rq_taker_amount r)"
      by (auto simp: request_amount_def signed_fill_def split: rfq_call.splits)
  qed (rule assms(2))
qed

text \<open>The maker's side of a run: what the fills of one order paid out in all.\<close>

definition rfq_paid :: "RfqOrder \<Rightarrow> rfq_event \<Rightarrow> int" where
  "rfq_paid order ev = (case ev_call ev of
      C_fill_rfq o1 _ _ _ _ \<Rightarrow>
        (if o1 = order then (case ev_fill ev of Some fr \<Rightarrow> fr_maker_filled fr | None \<Rightarrow> 0) else 0)
    | _ \<Rightarrow> 0)"

lemma run_rfq_paid:
  assumes "rfq_run C H me s0 evs s" "0 < ro_taker_amount order"
  shows "event_total (rfq_paid order) evs * ro_taker_amount order \<le> ro_max_maker_amount order * event_total (rfq_amount order) evs"
  using assms(1)
proof induction
  case (call evs s e c w fr s' w')
  let ?ev = "\<lparr>ev_env = e, ev_call = c, ev_fill = fr\<rparr>"
  have "rfq_paid order ?ev * ro_taker_amount order \<le> ro_max_maker_amount order * rfq_amount order ?ev"
  proof (cases "\<exists>ms ts sender x. c = C_fill_rfq order ms ts sender x")
    case True
    then obtain ms ts sender x f where c: "c = C_fill_rfq order ms ts sender x" and "fr = Some f"
      and fill: "fill_rfq_order C H e order ms ts sender x s w = Inr (f, s', w')"
      using call.hyps(3) by (auto simp: rfq_exec_def rs)
    from fill have "fr_maker_filled f \<le> ro_max_maker_amount order * x div ro_taker_amount order"
      by (rule fill_rfq_settled)
    with c \<open>fr = Some f\<close> assms(2) show ?thesis
      by (simp add: rfq_paid_def rfq_amount_def floor_div_le_iff)
  next
    case False
    then show ?thesis by (auto simp: rfq_paid_def rfq_amount_def split: rfq_call.splits)
  qed
  with call.IH show ?case by (simp add: distrib_left distrib_right)
qed simp

subsection \<open>A run for the witnesses\<close>

lemmas fill_eval = fill_rfq_order_def validate_common_def check_terms_def check_sender_def check_fee_def
  not_paused_def paused_def is_salt_cancelled_def check_taker_consent_def book_request_def
  request_filled_def rfq_request_def demo_order_def take_fill_def filled_def verify_def demo_sig_def
  deliver_def quote_rfq_order_def pay_def check_floor_def set_filled_def set_request_filled_def
  rfq_eval ledger_eval arith_defs width_defs

definition demo_fill :: FillResult where
  "demo_fill = \<lparr>fr_taker_filled = 400, fr_maker_filled = 399, fr_fee = 3\<rparr>"

definition demo_event :: rfq_event where
  "demo_event = \<lparr>ev_env = demo_env 2000, ev_call = C_fill_rfq demo_order (demo_sig 2) None alice 400,
     ev_fill = Some demo_fill\<rparr>"

lemma demo_fill_runs:
  "\<exists>s' w'. fill_rfq_order plain_crypto ledger_host (demo_env 2000) demo_order (demo_sig 2) None alice 400
     (demo_rfq\<lparr>st_salt_cancelled := [(carol, 9) \<mapsto> True]\<rparr>) demo_ledger = Inr (demo_fill, s', w')"
  by (simp add: fill_eval demo_fill_def)

lemma demo_run:
  "\<exists>s'. rfq_run plain_crypto ledger_host this_contract
     (demo_rfq\<lparr>st_salt_cancelled := [(carol, 9) \<mapsto> True]\<rparr>) [demo_event] s'"
proof -
  let ?s = "demo_rfq\<lparr>st_salt_cancelled := [(carol, 9) \<mapsto> True]\<rparr>"
  from demo_fill_runs obtain s' w' where
    "rfq_exec plain_crypto ledger_host (demo_env 2000) (C_fill_rfq demo_order (demo_sig 2) None alice 400)
       ?s demo_ledger = Inr (Some demo_fill, s', w')"
    by (auto simp: rfq_exec_def)
  then have "rfq_run plain_crypto ledger_host this_contract ?s ([] @ [demo_event]) s'"
    unfolding demo_event_def by (rule rfq_run.call [OF rfq_run.start demo_env_simps(3)])
  then show ?thesis by auto
qed

subsection \<open>Properties of runs\<close>

text \<open>
  C1 (safety). No order and no request is ever overfilled. Over any run of the contract, whoever calls
  whatever in whatever order and in whatever outside world: the fills of one RFQ order together take at
  most its \<open>taker_amount\<close>, the same for a fixed order, and the fills drawn on one taker's request
  together take at most the request's \<open>taker_amount\<close>, even when they settle orders of different makers.
\<close>

theorem rfq_never_overfilled:
  assumes "rfq_run C H me s0 evs s" "st_filled s0 = Map.empty" "st_request_filled s0 = Map.empty"
  shows "event_total (rfq_amount order) evs \<le> max 0 (ro_taker_amount order) \<and>
    event_total (fixed_amount forder) evs \<le> max 0 (fx_taker_amount forder) \<and>
    (rq_taker r \<noteq> None \<longrightarrow> event_total (request_amount r) evs \<le> max 0 (rq_taker_amount r))"
proof -
  have "0 \<le> filled s0 h" "0 \<le> request_filled s0 h" for h
    using assms(2,3) by (simp_all add: filled_def request_filled_def)
  then show ?thesis
    using run_rfq_order_bound [OF assms(1)] run_fixed_order_bound [OF assms(1)]
      run_request_bound [OF assms(1)] by blast
qed

theorem rfq_never_overfilled_witness:
  "\<exists>s'. rfq_run plain_crypto ledger_host this_contract
       (demo_rfq\<lparr>st_salt_cancelled := [(carol, 9) \<mapsto> True]\<rparr>) [demo_event] s' \<and>
     event_total (rfq_amount demo_order) [demo_event] = 400 \<and>
     event_total (rfq_amount demo_order) [demo_event] \<le> max 0 (ro_taker_amount demo_order) \<and>
     event_total (request_amount (rfq_request demo_order)) [demo_event] \<le> max 0 (rq_taker_amount (rfq_request demo_order))"
proof -
  from demo_run obtain s' where run: "rfq_run plain_crypto ledger_host this_contract
    (demo_rfq\<lparr>st_salt_cancelled := [(carol, 9) \<mapsto> True]\<rparr>) [demo_event] s'" by blast
  have "event_total (rfq_amount demo_order) [demo_event] = 400"
    by (simp add: event_total_def rfq_amount_def demo_event_def)
  moreover have "rq_taker (rfq_request demo_order) \<noteq> None"
    by (simp add: rfq_request_def demo_order_def)
  ultimately show ?thesis
    using rfq_never_overfilled [OF run, of demo_order _ "rfq_request demo_order"] run
    by (auto simp: demo_rfq_def rfq_empty_def)
qed

text \<open>
  C4 (safety). Slicing never costs the maker more. Over any run, all the fills of one RFQ order together
  pay out at most \<open>max_maker_amount\<close>, and after any part of the order at most the same part of
  \<open>max_maker_amount\<close> (the cap of each slice rounds down, so many small fills cannot add up past it).
\<close>

theorem rfq_maker_cap_over_slices:
  assumes "rfq_run C H me s0 evs s" "0 < ro_taker_amount order" "0 \<le> ro_max_maker_amount order"
    and "st_filled s0 = Map.empty"
  shows "event_total (rfq_paid order) evs * ro_taker_amount order \<le> ro_max_maker_amount order * event_total (rfq_amount order) evs \<and>
    event_total (rfq_paid order) evs \<le> ro_max_maker_amount order"
proof -
  have "0 \<le> filled s0 h" for h using assms(4) by (simp add: filled_def)
  with assms have amount: "event_total (rfq_amount order) evs \<le> ro_taker_amount order"
    using run_rfq_order_bound [OF assms(1), of order] by simp
  note paid = run_rfq_paid [OF assms(1,2)]
  also have "ro_max_maker_amount order * event_total (rfq_amount order) evs \<le> ro_max_maker_amount order * ro_taker_amount order"
    using amount assms(3) by (intro mult_left_mono)
  finally show ?thesis using paid assms(2) by simp
qed

theorem rfq_maker_cap_over_slices_witness:
  "\<exists>s'. rfq_run plain_crypto ledger_host this_contract
       (demo_rfq\<lparr>st_salt_cancelled := [(carol, 9) \<mapsto> True]\<rparr>) [demo_event] s' \<and>
     event_total (rfq_paid demo_order) [demo_event] = 399 \<and>
     event_total (rfq_paid demo_order) [demo_event] \<le> ro_max_maker_amount demo_order"
proof -
  from demo_run obtain s' where run: "rfq_run plain_crypto ledger_host this_contract
    (demo_rfq\<lparr>st_salt_cancelled := [(carol, 9) \<mapsto> True]\<rparr>) [demo_event] s'" by blast
  have "event_total (rfq_paid demo_order) [demo_event] = 399"
    by (simp add: event_total_def rfq_paid_def demo_event_def demo_fill_def)
  with run show ?thesis
    using rfq_maker_cap_over_slices [OF run, of demo_order]
    by (auto simp: demo_rfq_def rfq_empty_def demo_order_def)
qed

text \<open>
  C9 (safety). A cancelled salt is dead for good: once \<open>cancel_salt\<close> has marked it, no later call of any
  run fills an order of that maker, or a request of that taker, that carries the salt.
\<close>

theorem cancelled_salt_never_fills:
  assumes "rfq_run C H me s0 evs s" "is_salt_cancelled s0 who salt" "ev \<in> set evs"
    and "signed_fill C (ev_env ev) (ev_call ev) = Some (r, maker, h, x)" "rq_salt r = salt"
  shows "maker \<noteq> who \<and> rq_taker r \<noteq> Some who"
proof -
  have "is_salt_cancelled s who salt \<and> (\<forall>ev \<in> set evs. \<forall>r maker h x.
      signed_fill C (ev_env ev) (ev_call ev) = Some (r, maker, h, x) \<and> rq_salt r = salt \<longrightarrow>
      maker \<noteq> who \<and> rq_taker r \<noteq> Some who)"
    using assms(1)
  proof induction
    case start
    with assms(2) show ?case by simp
  next
    case (call evs s e c w fr s' w')
    show ?case
    proof (cases "signed_fill C e c")
      case None
      with call exec_other_counters(3) [OF call.hyps(3)] show ?thesis by auto
    next
      case (Some q)
      obtain r maker h x where q: "q = (r, maker, h, x)" by (cases q)
      with Some call.hyps(3) obtain sig tsig sender taker f where
        "settled C H e r maker h sig tsig sender x s w taker f s' w'"
        by (auto elim: exec_signed_fill)
      from settled_counters(6-8) [OF this] call.IH Some q show ?thesis by auto
    qed
  qed
  with assms(3-5) show ?thesis by blast
qed

theorem cancelled_salt_never_fills_witness:
  "\<exists>s'. rfq_run plain_crypto ledger_host this_contract
       (demo_rfq\<lparr>st_salt_cancelled := [(carol, 9) \<mapsto> True]\<rparr>) [demo_event] s' \<and>
     ro_salt demo_order = 9 \<and> ro_maker demo_order \<noteq> carol \<and> ro_taker demo_order \<noteq> Some carol"
proof -
  from demo_run obtain s' where run: "rfq_run plain_crypto ledger_host this_contract
    (demo_rfq\<lparr>st_salt_cancelled := [(carol, 9) \<mapsto> True]\<rparr>) [demo_event] s'" by blast
  have "is_salt_cancelled (demo_rfq\<lparr>st_salt_cancelled := [(carol, 9) \<mapsto> True]\<rparr>) carol 9"
    by (simp add: is_salt_cancelled_def)
  from cancelled_salt_never_fills [OF run this, of demo_event "rfq_request demo_order"
      "ro_maker demo_order" "hash_rfq_order plain_crypto (demo_env 2000) demo_order" 400] run
  show ?thesis by (auto simp: demo_event_def signed_fill_def rfq_request_def demo_order_def)
qed

end
