(* ===== verification/Rfq_Transfers.thy ===== *)
theory Rfq_Transfers
  imports Rfq_Settlement
begin

text \<open>
  What the settlement contract's fills do on standard tokens (\<open>sep41_host\<close>): every fill moves exactly the
  amounts it reports, between exactly the parties it names, and nothing else.
\<close>

lemma fee_le_amount:
  assumes "mul_div m (int bps) BPS = Inr fee" "bps \<le> 10000"
  shows "0 \<le> fee" "fee \<le> m"
  using assms mul_div_nonneg [OF assms(1)] mul_div_le [OF assms(1)] by (auto simp: BPS_def)

text \<open>The balances of one token after a payment with a fee.\<close>

definition paid_out :: "address \<Rightarrow> address \<Rightarrow> address \<Rightarrow> int \<Rightarrow> int \<Rightarrow> (address \<Rightarrow> int) \<Rightarrow> address \<Rightarrow> int" where
  "paid_out payer to fee_to net fee f = moved payer fee_to fee (moved payer to net f)"

lemma moved_zero: "moved a b 0 f = f"
  by (simp add: moved_def fun_eq_iff)

context sep41_host
begin

lemma deliver_exact:
  assumes "deliver H e tok a b x w = Inr (d, w')"
  shows "a \<noteq> b" "0 < x" "d = x" "x \<le> tk_balance H tok a w"
    "tk_balance H t c w' = (if t = tok then moved a b x (\<lambda>c. tk_balance H tok c w) c else tk_balance H t c w)"
proof -
  from assms obtain got where tr: "token_transfer_from H e tok (current_contract e) a b x w = (Inr w' :: (RfqError, 'w) res)"
    and got: "got = tk_balance H tok b w' - tk_balance H tok b w" "0 < got" "d = (if x < got then x else got)"
    by (auto simp: deliver_def Let_def rs)
  note m = token_transfer_from_moves [OF tr]
  show "tk_balance H t c w' = (if t = tok then moved a b x (\<lambda>c. tk_balance H tok c w) c else tk_balance H t c w)"
    by (rule m(4))
  show "x \<le> tk_balance H tok a w" by (rule m(2))
  show "a \<noteq> b" using got(1,2) m(4) [of tok b] by auto
  then show "0 < x" "d = x" using got m(4) [of tok b] by (auto split: if_splits)
qed

lemma pay_exact:
  assumes "pay H e tok payer to fee_to net fee w = Inr (received, w')" "0 \<le> net" "0 \<le> fee"
  shows "tk_balance H t c w' =
      (if t = tok then paid_out payer to fee_to net fee (\<lambda>c. tk_balance H tok c w) c else tk_balance H t c w)"
    "received = tk_balance H tok to w' - tk_balance H tok to w"
proof -
  from assms(1) obtain w1 where
    1: "(if 0 < net then token_transfer_from H e tok (current_contract e) payer to net w else Inr w) = (Inr w1 :: (RfqError, 'w) res)"
    and 2: "(if 0 < fee then token_transfer_from H e tok (current_contract e) payer fee_to fee w1 else Inr w1) = (Inr w' :: (RfqError, 'w) res)"
    and r: "received = tk_balance H tok to w' - tk_balance H tok to w"
    by (auto simp: pay_def Let_def rs)
  have w1: "tk_balance H t c w1 = (if t = tok then moved payer to net (\<lambda>c. tk_balance H tok c w) c else tk_balance H t c w)" for t c
  proof (cases "0 < net")
    case True
    with 1 have "token_transfer_from H e tok (current_contract e) payer to net w = (Inr w1 :: (RfqError, 'w) res)"
      by simp
    from token_transfer_from_moves(4) [OF this] show ?thesis .
  next
    case False
    with 1 assms(2) show ?thesis by (auto simp: moved_zero)
  qed
  show "tk_balance H t c w' =
      (if t = tok then paid_out payer to fee_to net fee (\<lambda>c. tk_balance H tok c w) c else tk_balance H t c w)"
  proof (cases "0 < fee")
    case True
    with 2 have "token_transfer_from H e tok (current_contract e) payer fee_to fee w1 = (Inr w' :: (RfqError, 'w) res)"
      by simp
    from token_transfer_from_moves(4) [OF this] show ?thesis by (simp add: paid_out_def w1)
  next
    case False
    with 2 assms(3) have "w' = w1" "fee = 0" by auto
    then show ?thesis by (simp add: paid_out_def moved_zero w1)
  qed
  show "received = tk_balance H tok to w' - tk_balance H tok to w" by (rule r)
qed

lemma settled_moves:
  assumes st: "settled C H e r maker h sig tsig sender x s w taker fr s' w'" and "rq_fee_bps r \<le> 10000"
  defines "m \<equiv> fr_maker_filled fr" and "fee \<equiv> fr_fee fr"
  shows "taker \<noteq> maker" "0 < x" "x \<le> tk_balance H (rq_taker_token r) taker w" "0 \<le> fee" "fee \<le> m"
    "tk_balance H t c w' =
      (if t = rq_taker_token r then moved taker maker x (\<lambda>c. tk_balance H t c w) c
       else if t = rq_maker_token r
         then paid_out maker taker (rq_fee_recipient r) (m - fee) fee (\<lambda>c. tk_balance H t c w) c
       else tk_balance H t c w)"
    "ceil_div (rq_min_received_amount r * x) (rq_taker_amount r) \<le>
       (m - fee) + (if rq_fee_recipient r = taker then fee else 0)"
proof -
  from st obtain s1 d w1 received where
    v: "validate_common C e r maker tsig sender x s = Inr (taker, s1)"
    and md: "mul_div m (int (rq_fee_bps r)) BPS = Inr fee"
    and dl: "deliver H e (rq_taker_token r) taker maker x w = Inr (d, w1)"
    and py: "pay H e (rq_maker_token r) maker taker (rq_fee_recipient r) (m - fee) fee w1 = Inr (received, w')"
    and fl: "ceil_div (rq_min_received_amount r * x) (rq_taker_amount r) \<le> received"
    by (auto simp: settled_def m_def fee_def)
  show fee: "0 \<le> fee" "fee \<le> m" by (rule fee_le_amount [OF md assms(2)])+
  note D = deliver_exact [OF dl] and P = pay_exact [OF py _ fee(1)]
  show "taker \<noteq> maker" "0 < x" "x \<le> tk_balance H (rq_taker_token r) taker w"
    using D by auto
  note toks = validate_common_Inr(2) [OF v]
  show "tk_balance H t c w' =
      (if t = rq_taker_token r then moved taker maker x (\<lambda>c. tk_balance H t c w) c
       else if t = rq_maker_token r
         then paid_out maker taker (rq_fee_recipient r) (m - fee) fee (\<lambda>c. tk_balance H t c w) c
       else tk_balance H t c w)"
    using fee(2) toks P(1) [of t c] D(5) by (auto simp: paid_out_def moved_def)
  have "received = (m - fee) + (if rq_fee_recipient r = taker then fee else 0)"
    using P D(1,5) fee toks by (auto simp: paid_out_def moved_def)
  with fl show "ceil_div (rq_min_received_amount r * x) (rq_taker_amount r) \<le>
       (m - fee) + (if rq_fee_recipient r = taker then fee else 0)" by simp
qed

end

subsection \<open>The configured fee bound\<close>

definition config_ok :: "rfq \<Rightarrow> bool" where
  "config_ok s \<longleftrightarrow> (\<forall>cfg. st_cfg s = Some cfg \<longrightarrow> cf_max_fee_bps cfg \<le> MAX_FEE_BPS_LIMIT \<and>
     int (cf_max_deviation_bps cfg) \<le> BPS)"

lemma settled_frame:
  assumes "settled C H e r maker h sig tsig sender x s w taker fr s' w'"
  shows "st_cfg s' = st_cfg s" "st_listing s' = st_listing s" "st_next_id s' = st_next_id s"
    "st_signer s' = st_signer s" "st_paused s' = st_paused s"
  using assms
  by (auto elim!: settled_validated dest!: validate_common_Inr(10)
      simp: set_filled_def set_request_filled_def split: option.splits)

lemma exec_config_ok:
  assumes "rfq_exec C H e c s w = Inr (fr, s', w')" "config_ok s"
  shows "config_ok s'"
proof (cases "signed_fill C e c")
  case (Some q)
  obtain r maker h x where "q = (r, maker, h, x)" by (cases q)
  with Some assms(1) obtain sig tsig sender taker f where
    "settled C H e r maker h sig tsig sender x s w taker f s' w'"
    by (auto elim: exec_signed_fill)
  with assms(2) settled_frame(1) show ?thesis by (fastforce simp: config_ok_def)
next
  case None
  with assms show ?thesis
    by (cases c; auto simp: rfq_exec_def rs Let_def admin_op_defs dutch_op_defs signed_fill_def
        config_ok_def MAX_FEE_BPS_LIMIT_def BPS_def not_less split: prod.splits option.splits if_splits)
qed

lemma settled_fee_bound:
  assumes "settled C H e r maker h sig tsig sender x s w taker fr s' w'" "config_ok s"
  shows "rq_fee_bps r \<le> 2000"
  using assms by (auto elim!: settled_validated dest!: validate_common_Inr(9)
      simp: config_ok_def MAX_FEE_BPS_LIMIT_def)

lemma fee_share_bound:
  assumes "mul_div m (int bps) BPS = Inr fee" "bps \<le> 2000"
  shows "fee * 5 \<le> m"
proof -
  have m: "0 \<le> m" "fee = m * int bps div BPS" using assms(1) by (auto simp: rs)
  then have "fee * BPS \<le> m * int bps" by (simp add: floor_div_mult_le BPS_def)
  also have "\<dots> \<le> m * 2000" using m(1) assms(2) by (intro mult_left_mono) auto
  finally show ?thesis by (simp add: BPS_def)
qed

subsection \<open>The quoted amount\<close>

text \<open>The amount a quote pays, as one formula of the rate, the horizon and the bid.\<close>

definition rfq_amount_for :: "int \<Rightarrow> nat \<Rightarrow> nat \<Rightarrow> int \<Rightarrow> int" where
  "rfq_amount_for rate bps secs x = (x * rate div ONE) * (DENOM - int bps * int secs) div DENOM"

lemma quote_Inr:
  assumes "quote_rfq_order H e order x s w = Inr q"
  obtains rate cap where
    "price_of H e (ro_taker_token order) (ro_maker_token order) s w = Inr rate" "0 \<le> rate" "0 \<le> x"
    "horizon e (ro_taker_token order) (ro_maker_token order) s = Inr (qt_horizon_seconds q, cap)"
    "ro_maker_bps_per_day order \<le> cap" "ro_maker_bps_per_day order \<le> ro_taker_max_bps_per_day order"
    "int (ro_maker_bps_per_day order) * int (qt_horizon_seconds q) < DENOM"
    "qt_maker_amount q = rfq_amount_for rate (ro_maker_bps_per_day order) (qt_horizon_seconds q) x"
    "qt_fee q = qt_maker_amount q * int (ro_fee_bps order) div BPS"
  using assms
  by (auto simp: quote_rfq_order_def rs rfq_amount_for_def not_less not_le intro: that)

lemma DENOM_pos: "0 < DENOM"
  by (simp add: DENOM_def BPS_def RATE_SCALE_def)

lemma rfq_amount_for_mono:
  assumes "0 \<le> rate" "x \<le> y" "int bps * int secs \<le> DENOM" "0 \<le> x"
  shows "rfq_amount_for rate bps secs x \<le> rfq_amount_for rate bps secs y"
    "rfq_amount_for rate bps secs x \<le> x * rate div ONE" "0 \<le> rfq_amount_for rate bps secs x"
proof -
  have "x * rate div ONE \<le> y * rate div ONE"
    using assms by (intro zdiv_mono1 mult_right_mono) (auto simp: ONE_def)
  then show "rfq_amount_for rate bps secs x \<le> rfq_amount_for rate bps secs y"
    unfolding rfq_amount_for_def using assms DENOM_pos by (intro zdiv_mono1 [OF mult_right_mono]) (auto simp: ONE_def)
  have g: "0 \<le> x * rate div ONE" using assms by (simp add: pos_imp_zdiv_nonneg_iff ONE_def)
  then show "rfq_amount_for rate bps secs x \<le> x * rate div ONE"
    unfolding rfq_amount_for_def using DENOM_pos by (intro floor_fraction_le) auto
  show "0 \<le> rfq_amount_for rate bps secs x"
    unfolding rfq_amount_for_def using g assms(3) DENOM_pos by (simp add: pos_imp_zdiv_nonneg_iff)
qed

text \<open>A higher bid never pays more.\<close>

lemma rfq_amount_for_antimono:
  assumes "0 \<le> rate" "0 \<le> x" "bps \<le> bps'"
  shows "rfq_amount_for rate bps' secs x \<le> rfq_amount_for rate bps secs x"
proof -
  have g: "0 \<le> x * rate div ONE" using assms by (simp add: pos_imp_zdiv_nonneg_iff ONE_def)
  have "int bps * int secs \<le> int bps' * int secs"
    using assms(3) by (intro mult_right_mono) auto
  with g show ?thesis
    unfolding rfq_amount_for_def using DENOM_pos by (intro zdiv_mono1 mult_left_mono) auto
qed

definition demo_fixed :: FixedOrder where
  "demo_fixed = \<lparr>fx_maker_token = token_b, fx_taker_token = token_a, fx_taker_amount = 1000,
     fx_min_received_amount = 900, fx_fee_bps = 100, fx_taker = None, fx_sender = None,
     fx_fee_recipient = carol, fx_expiry = 5000, fx_salt = 9, fx_maker_amount = 950, fx_maker = bob\<rparr>"

lemma demo_fixed_runs:
  "\<exists>fr s' w'. fill_fixed_order plain_crypto ledger_host (demo_env 2000) demo_fixed (demo_sig 2) None alice 300
     demo_rfq demo_ledger = Inr (fr, s', w') \<and> fr_fee fr = 2"
  by (simp add: fill_fixed_order_def fixed_request_def demo_fixed_def fill_eval)

subsection \<open>Properties\<close>



text \<open>
  A fill of a fixed order on standard tokens moves exactly what it reports, and what it reports
  is the order's own rate: the maker pays \<open>maker_amount * x / taker_amount\<close> rounded down, the fee is at most
  a fifth of it, the taker is credited at least the pro-rata minimum rounded up, and no other balance of
  any token changes.
\<close>

theorem fill_fixed_exact:
  assumes "sep41_host H" "config_ok s" "fill_fixed_order C H e order ms ts sender x s w = Inr (fr, s', w')"
  shows "\<exists>taker. taker \<noteq> fx_maker order \<and> authorised e sender \<and>
    (case fx_taker order of None \<Rightarrow> taker = sender
     | Some t \<Rightarrow> taker = t \<and> (t = sender \<or>
         (\<exists>sig. ts = Some sig \<and> verify C t (hash_request C e (fixed_request order)) sig s = Inr ()))) \<and>
    verify C (fx_maker order) (hash_fixed_order C e order) ms s' = Inr () \<and>
    fr_taker_filled fr = x \<and> 0 < x \<and> 0 \<le> fr_fee fr \<and> fr_fee fr * 5 \<le> fr_maker_filled fr \<and>
    fr_maker_filled fr = fx_maker_amount order * x div fx_taker_amount order \<and>
    ceil_div (fx_min_received_amount order * x) (fx_taker_amount order) \<le>
      (fr_maker_filled fr - fr_fee fr) + (if fx_fee_recipient order = taker then fr_fee fr else 0) \<and>
    (\<forall>t c. tk_balance H t c w' =
      (if t = fx_taker_token order then moved taker (fx_maker order) x (\<lambda>c. tk_balance H t c w) c
       else if t = fx_maker_token order
         then paid_out (fx_maker order) taker (fx_fee_recipient order) (fr_maker_filled fr - fr_fee fr)
                (fr_fee fr) (\<lambda>c. tk_balance H t c w) c
       else tk_balance H t c w))"
proof -
  from assms(3) obtain taker d w1 where
    st: "settled C H e (fixed_request order) (fx_maker order) (hash_fixed_order C e order) ms ts sender x s w taker fr s' w'"
    and dl: "deliver H e (fx_taker_token order) taker (fx_maker order) x w = Inr (d, w1)"
    and m: "mul_div (fx_maker_amount order) d (fx_taker_amount order) = Inr (fr_maker_filled fr)"
    by (rule fill_fixed_settled)
  have amount: "fr_maker_filled fr = fx_maker_amount order * x div fx_taker_amount order"
    using m sep41_host.deliver_exact(3) [OF assms(1) dl] by (simp add: rs)
  note bps = settled_fee_bound [OF st assms(2)]
  note mv = sep41_host.settled_moves [OF assms(1) st le_trans [OF bps]]
  from st obtain s1 where "validate_common C e (fixed_request order) (fx_maker order) ts sender x s = Inr (taker, s1)"
    by (rule settled_validated)
  note taker = validate_common_Inr(10) [OF this]
  have fee: "fr_fee fr * 5 \<le> fr_maker_filled fr"
    using st bps by (intro fee_share_bound) (auto simp: settled_def)
  show ?thesis
    using mv amount fee taker st
    by (intro exI [of _ taker]) (auto simp: settled_def request_fields split: option.splits)
qed

theorem fill_fixed_exact_witness:
  "\<exists>fr s' w'. fill_fixed_order plain_crypto ledger_host (demo_env 2000) demo_fixed (demo_sig 2) None alice 300
       demo_rfq demo_ledger = Inr (fr, s', w') \<and> fr_maker_filled fr = 285 \<and>
     tk_balance ledger_host token_a alice w' = 9700 \<and> tk_balance ledger_host token_b alice w' = 10283"
proof -
  obtain fr s' w' where fill: "fill_fixed_order plain_crypto ledger_host (demo_env 2000) demo_fixed
      (demo_sig 2) None alice 300 demo_rfq demo_ledger = Inr (fr, s', w')" and fr: "fr_fee fr = 2"
    using demo_fixed_runs by blast
  have ok: "config_ok demo_rfq"
    by (simp add: config_ok_def demo_rfq_def rfq_empty_def MAX_FEE_BPS_LIMIT_def BPS_def)
  have bal: "tk_balance ledger_host t a demo_ledger = (if a = alice \<or> a = bob then 10000 else 0)" for t a
    by (simp add: ledger_eval)
  from fill_fixed_exact [OF ledger.sep41_host_axioms ok fill] fill bal fr show ?thesis
    by (auto simp: demo_fixed_def paid_out_def moved_def)
qed



end
