(* ===== verification/Rfq_Listings.thy ===== *)
theory Rfq_Listings
  imports Rfq_Transfers
begin

text \<open>
  Dutch listings: the ask falls from the start to the floor and never leaves that range, and on standard
  tokens the contract always holds the escrow of every open listing, whatever calls are made.
\<close>

subsection \<open>The ask\<close>

definition terms_ok :: "DutchOrder \<Rightarrow> bool" where
  "terms_ok order \<longleftrightarrow> 0 < du_taker_amount order \<and> 0 < du_min_maker_amount order \<and>
     du_min_maker_amount order \<le> du_start_maker_amount order"

definition listing_ok :: "Listing \<Rightarrow> bool" where
  "listing_ok l \<longleftrightarrow> terms_ok (ls_order l) \<and>
     is_i128 (du_start_maker_amount (ls_order l)) \<and> is_u32 (ls_decay_seconds l)"

text \<open>The curve, as arithmetic.\<close>

definition ask_at :: "nat \<Rightarrow> Listing \<Rightarrow> int" where
  "ask_at now l =
    (let start = du_start_maker_amount (ls_order l); least = du_min_maker_amount (ls_order l);
         elapsed = now - ls_created_at l in
     if ls_decay_seconds l = 0 \<or> ls_decay_seconds l \<le> elapsed then least
     else start - (start - least) * int elapsed div int (ls_decay_seconds l))"

lemma ask_is_ask_at:
  assumes "listing_ok l" "ls_created_at l \<le> ledger_timestamp e"
  shows "ask e l = Inr (ask_at (ledger_timestamp e) l)"
proof (cases "ls_decay_seconds l = 0 \<or> ls_decay_seconds l \<le> ledger_timestamp e - ls_created_at l")
  case True
  with assms show ?thesis by (auto simp: ask_def ask_at_def Let_def u64_sub_def)
next
  case False
  let ?start = "du_start_maker_amount (ls_order l)" and ?least = "du_min_maker_amount (ls_order l)"
  let ?el = "ledger_timestamp e - ls_created_at l" and ?d = "ls_decay_seconds l"
  have ok: "0 < ?least" "?least \<le> ?start" "?start \<le> i128_max" "?d \<le> u32_max"
    using assms(1) by (auto simp: listing_ok_def terms_ok_def is_i128_def is_u32_def)
  then have span: "0 \<le> ?start - ?least" "?start - ?least \<le> i128_max" by auto
  have "(?start - ?least) * int ?el \<le> i128_max * int u32_max"
    using span ok(4) False by (intro mult_mono) auto
  then have fits: "(?start - ?least) * int ?el \<le> int u256_max"
    by (simp add: width_defs)
  let ?q = "(?start - ?least) * int ?el div int ?d"
  have q: "0 \<le> ?q" "?q \<le> ?start - ?least"
    using span(1) False by (auto intro!: floor_fraction_le simp: pos_imp_zdiv_nonneg_iff)
  have "rfq_mul_div (?start - ?least) (int ?el) (int ?d) = Inr ?q"
    using span q ok False fits by (auto simp: rfq_mul_div_Inr_iff mul_div_Inr_iff)
  moreover have "is_i128 (?start - ?least)" "is_i128 (?start - ?q)"
    using ok q span by (auto simp: is_i128_nonneg)
  ultimately show ?thesis
    using False assms(2)
    by (simp add: ask_def ask_at_def Let_def u64_sub_def i128_sub_def i128_checked_def)
qed

lemma ask_at_bounds:
  assumes "listing_ok l"
  shows "du_min_maker_amount (ls_order l) \<le> ask_at now l" "ask_at now l \<le> du_start_maker_amount (ls_order l)"
proof -
  let ?span = "du_start_maker_amount (ls_order l) - du_min_maker_amount (ls_order l)"
  have span: "0 \<le> ?span" using assms by (simp add: listing_ok_def terms_ok_def)
  show "du_min_maker_amount (ls_order l) \<le> ask_at now l"
    using span floor_fraction_le [OF span, of "int (ls_decay_seconds l)" "int (now - ls_created_at l)"]
    by (auto simp: ask_at_def Let_def)
  show "ask_at now l \<le> du_start_maker_amount (ls_order l)"
    using span by (simp add: ask_at_def Let_def pos_imp_zdiv_nonneg_iff)
qed

lemma ask_at_antimono:
  assumes "listing_ok l" "t \<le> t'"
  shows "ask_at t' l \<le> ask_at t l"
proof (cases "ls_decay_seconds l = 0 \<or> ls_decay_seconds l \<le> t' - ls_created_at l")
  case True
  then have "ask_at t' l = du_min_maker_amount (ls_order l)" by (simp add: ask_at_def Let_def)
  with ask_at_bounds(1) [OF assms(1)] show ?thesis by simp
next
  case False
  let ?span = "du_start_maker_amount (ls_order l) - du_min_maker_amount (ls_order l)"
  have "?span * int (t - ls_created_at l) div int (ls_decay_seconds l) \<le>
      ?span * int (t' - ls_created_at l) div int (ls_decay_seconds l)"
    using assms False by (intro zdiv_mono1 mult_left_mono) (auto simp: listing_ok_def terms_ok_def)
  moreover have "t - ls_created_at l \<le> t' - ls_created_at l" using assms(2) by simp
  ultimately show ?thesis using False by (simp add: ask_at_def Let_def)
qed

subsection \<open>Escrow\<close>

definition escrow_of :: "address \<Rightarrow> rfq \<Rightarrow> nat \<Rightarrow> int" where
  "escrow_of t s i = (case st_listing s i of
      Some l \<Rightarrow> if ls_active l \<and> du_taker_token (ls_order l) = t then du_taker_amount (ls_order l) else 0
    | None \<Rightarrow> 0)"

definition escrow :: "address \<Rightarrow> rfq \<Rightarrow> int" where
  "escrow t s = total_over (dom (st_listing s)) (escrow_of t s)"

definition next_number :: "rfq \<Rightarrow> nat" where
  "next_number s = (case st_next_id s of None \<Rightarrow> 1 | Some i \<Rightarrow> i)"

definition listings_ok :: "rfq \<Rightarrow> bool" where
  "listings_ok s \<longleftrightarrow> finite (dom (st_listing s)) \<and> (\<forall>i \<in> dom (st_listing s). i < next_number s) \<and>
     (\<forall>i l. st_listing s i = Some l \<longrightarrow> terms_ok (ls_order l))"

definition solvent :: "'w host \<Rightarrow> address \<Rightarrow> rfq \<Rightarrow> 'w \<Rightarrow> bool" where
  "solvent H me s w \<longleftrightarrow> (\<forall>t. escrow t s \<le> tk_balance H t me w)"

text \<open>The contract itself never signs, so no key ever speaks for it.\<close>

definition no_signer :: "address \<Rightarrow> rfq \<Rightarrow> bool" where
  "no_signer me s \<longleftrightarrow> (\<forall>k. \<not> is_signer s me k)"

definition rfq_safe :: "'w host \<Rightarrow> address \<Rightarrow> rfq \<Rightarrow> 'w \<Rightarrow> bool" where
  "rfq_safe H me s w \<longleftrightarrow> config_ok s \<and> listings_ok s \<and> no_signer me s \<and> solvent H me s w"

lemma escrow_set_listing:
  assumes "finite (dom (st_listing s))"
  shows "escrow t (set_listing i l s) = escrow t s - escrow_of t s i +
     (if ls_active l \<and> du_taker_token (ls_order l) = t then du_taker_amount (ls_order l) else 0)"
proof -
  let ?D = "dom (st_listing s)"
  let ?v = "if ls_active l \<and> du_taker_token (ls_order l) = t then du_taker_amount (ls_order l) else 0"
  have of: "escrow_of t (set_listing i l s) = (escrow_of t s)(i := ?v)"
    by (auto simp: escrow_of_def set_listing_def fun_eq_iff)
  have "total_over (insert i ?D) ((escrow_of t s)(i := ?v)) = total_over (insert i ?D) (escrow_of t s) - escrow_of t s i + ?v"
    using assms by (intro total_over_upd) auto
  moreover have "total_over (insert i ?D) (escrow_of t s) = total_over ?D (escrow_of t s)"
    using assms by (intro total_over_extend) (auto simp: escrow_of_def domIff)
  moreover have "dom (st_listing (set_listing i l s)) = insert i ?D"
    by (simp add: set_listing_def)
  ultimately show ?thesis by (simp add: escrow_def of)
qed

lemma escrow_cong: "st_listing s' = st_listing s \<Longrightarrow> escrow t s' = escrow t s"
  by (simp add: escrow_def escrow_of_def [abs_def])

lemma listings_ok_cong:
  "st_listing s' = st_listing s \<Longrightarrow> st_next_id s' = st_next_id s \<Longrightarrow> listings_ok s' = listings_ok s"
  by (simp add: listings_ok_def next_number_def)

text \<open>Calls that touch no listing and no token.\<close>

definition touches_listings :: "rfq_call \<Rightarrow> bool" where
  "touches_listings c = (case c of C_create_dutch _ _ \<Rightarrow> True | C_fill_dutch _ _ _ \<Rightarrow> True
     | C_cancel_dutch _ \<Rightarrow> True | _ \<Rightarrow> False)"

lemma exec_admin_frame:
  assumes "rfq_exec C H e c s w = Inr (fr, s', w')" "signed_fill C e c = None" "\<not> touches_listings c"
  shows "st_listing s' = st_listing s" "st_next_id s' = st_next_id s" "w' = w"
  using assms
  by (cases c; auto simp: rfq_exec_def rs Let_def admin_op_defs signed_fill_def touches_listings_def
      split: option.splits if_splits)+

lemma exec_no_signer:
  assumes "rfq_exec C H e c s w = Inr (fr, s', w')" "no_signer me s" "\<not> authorised e me"
  shows "no_signer me s'"
proof (cases "signed_fill C e c")
  case (Some q)
  obtain r maker h x where "q = (r, maker, h, x)" by (cases q)
  with Some assms(1) obtain sig tsig sender taker f where
    "settled C H e r maker h sig tsig sender x s w taker f s' w'"
    by (auto elim: exec_signed_fill)
  with settled_frame(4) assms(2) show ?thesis by (fastforce simp: no_signer_def is_signer_def)
next
  case None
  with assms show ?thesis
    by (cases c; auto simp: rfq_exec_def rs Let_def admin_op_defs dutch_op_defs signed_fill_def
        no_signer_def is_signer_def split: prod.splits option.splits if_splits)
qed

lemma verify_not_me:
  assumes "verify C a h sig s = Inr u" "no_signer me s" "account_pubkey C me = None"
  shows "a \<noteq> me"
  using assms by (auto simp: verify_def rs Let_def no_signer_def split: if_splits)


subsection \<open>Every call keeps the escrow covered\<close>

lemma rescale_same: "rescale order (du_taker_amount order) = Inr order"
  by (simp add: rescale_def)

lemma active_listing_Inr_iff [rs]: "active_listing i s = Inr l \<longleftrightarrow> st_listing s i = Some l \<and> ls_active l"
  by (auto simp: active_listing_def listing_def split: option.splits)

lemma listings_ok_set:
  assumes "listings_ok s" "st_listing s i = Some l0" "terms_ok (ls_order l)"
  shows "listings_ok (set_listing i l s)"
proof -
  have "i < next_number s" using assms by (auto simp: listings_ok_def)
  with assms show ?thesis by (auto simp: listings_ok_def set_listing_def next_number_def)
qed

text \<open>The flags of \<open>rfq_safe\<close> that no outside movement touches.\<close>

lemma escrow_close:
  assumes "listings_ok s" "st_listing s i = Some l" "ls_active l"
  shows "escrow t (set_listing i (l\<lparr>ls_active := False\<rparr>) s) =
    escrow t s - (if du_taker_token (ls_order l) = t then du_taker_amount (ls_order l) else 0)"
proof -
  have "finite (dom (st_listing s))" using assms(1) by (simp add: listings_ok_def)
  from escrow_set_listing [OF this, of t i "l\<lparr>ls_active := False\<rparr>"] show ?thesis
    using assms(2,3) by (simp add: escrow_of_def)
qed

context sep41_host
begin

lemma settled_keeps_me:
  assumes "settled C H e r maker h sig tsig sender x s w taker fr s' w'" "config_ok s"
    and "no_signer me s" "account_pubkey C me = None" "\<not> authorised e me"
  shows "tk_balance H t me w \<le> tk_balance H t me w'"
proof -
  have maker: "maker \<noteq> me"
  proof (rule verify_not_me)
    show "verify C maker h sig s' = Inr ()" using assms(1) by (simp add: settled_def)
    show "no_signer me s'"
      using settled_frame(4) [OF assms(1)] assms(3) by (simp add: no_signer_def is_signer_def)
  qed (rule assms(4))
  from assms(1) obtain s1 where v: "validate_common C e r maker tsig sender x s = Inr (taker, s1)"
    by (rule settled_validated)
  have "authorised e sender" using assms(1) by (simp add: settled_def)
  then have taker: "taker \<noteq> me"
    using validate_common_Inr(10) [OF v] assms(5)
    by (auto split: option.splits dest: verify_not_me [OF _ assms(3,4)])
  have "rq_fee_bps r \<le> 10000" using settled_fee_bound [OF assms(1,2)] by simp
  note mv = settled_moves [OF assms(1) this]
  from mv(4-6) maker taker show ?thesis by (auto simp: paid_out_def moved_def)
qed

lemma pay_keeps_me:
  assumes "pay H e tok payer to fee_to net fee w = Inr (received, w')" "0 \<le> net" "0 \<le> fee" "payer \<noteq> me"
  shows "tk_balance H t me w \<le> tk_balance H t me w'"
  using pay_exact(1) [OF assms(1-3), of t me] assms(2-4) by (auto simp: paid_out_def moved_def)

lemma create_keeps_solvent:
  assumes "create_dutch_order H e seller order s w = Inr (i, s', w')" "current_contract e = me"
    and "\<not> authorised e me" "listings_ok s" "solvent H me s w"
  shows "listings_ok s' \<and> solvent H me s' w'"
proof -
  from assms(1,2) obtain cfg :: Config and escrowed terms s1 where
    auth: "authorised e seller"
    and dl: "deliver H e (du_taker_token order) seller me (du_taker_amount order) w = Inr (escrowed, w')"
    and ca: "check_listing e order (cf_decay_seconds cfg) s = Inr ()"
    and re: "rescale order escrowed = Inr terms" and nx: "next_id s = (Inr (i, s1) :: (RfqError, nat \<times> rfq) res)"
    and s': "s' = set_listing i \<lparr>ls_order = terms, ls_seller = seller, ls_created_at = ledger_timestamp e,
               ls_decay_seconds = cf_decay_seconds cfg, ls_active = True\<rparr> s1"
    by (auto simp: create_dutch_order_def Let_def and_then_Inr_iff require_auth_Inr_iff)
  note D = deliver_exact [OF dl]
  have terms: "terms = order" using re D(3) by (simp add: rescale_same)
  have i: "i = next_number s" and s1: "s1 = s\<lparr>st_next_id := Some (Suc (next_number s))\<rparr>"
    using nx by (auto simp: next_id_def next_number_def Let_def rs)
  have fresh: "st_listing s i = None" using assms(4) i by (auto simp: listings_ok_def)
  have fin: "finite (dom (st_listing s1))" using assms(4) by (simp add: listings_ok_def s1)
  have "terms_ok order"
    using ca by (auto simp: check_listing_def check_listing_amounts_def rs terms_ok_def not_le not_less)
  then have ok: "listings_ok s'"
    using assms(4) i
    by (auto simp: listings_ok_def s' s1 set_listing_def next_number_def less_Suc_eq terms)
  have "escrow t s' = escrow t s + (if du_taker_token order = t then du_taker_amount order else 0)" for t
    using escrow_set_listing [OF fin] fresh escrow_cong [of s1 s t]
    by (simp add: s' terms escrow_of_def s1)
  moreover have "seller \<noteq> me" using auth assms(3) by auto
  ultimately have "solvent H me s' w'"
    using assms(5) D(5) by (auto simp: solvent_def moved_def)
  with ok show ?thesis by simp
qed

lemma fill_dutch_keeps_solvent:
  assumes "fill_dutch_order H e i buyer mx s w = Inr (fr, s', w')" "current_contract e = me"
    and "\<not> authorised e me" "listings_ok s" "solvent H me s w" "config_ok s"
  shows "listings_ok s' \<and> solvent H me s' w'"
proof -
  from assms(1,2) obtain l m fee w1 received where
    l: "st_listing s i = Some l" "ls_active l" and auth: "authorised e buyer"
    and cf: "check_fee (du_fee_bps (ls_order l)) s = Inr ()"
    and fee: "mul_div m (int (du_fee_bps (ls_order l))) BPS = Inr fee"
    and tr: "token_transfer H e (du_taker_token (ls_order l)) me buyer (du_taker_amount (ls_order l)) w = (Inr w1 :: (RfqError, 'w) res)"
    and py: "pay H e (du_maker_token (ls_order l)) buyer (ls_seller l) (du_fee_recipient (ls_order l)) (m - fee) fee w1 = Inr (received, w')"
    and s': "s' = set_listing i (l\<lparr>ls_active := False\<rparr>) s"
    by (auto simp: fill_dutch_order_def Let_def rs)
  have "du_fee_bps (ls_order l) \<le> 10000"
    using cf assms(6) by (auto simp: check_fee_def rs config_ok_def MAX_FEE_BPS_LIMIT_def)
  note F = fee_le_amount [OF fee this]
  have buyer: "buyer \<noteq> me" using auth assms(3) by auto
  have "tk_balance H t me w1 \<le> tk_balance H t me w'" for t
    using F buyer by (intro pay_keeps_me [OF py]) auto
  moreover have "tk_balance H t me w1 = tk_balance H t me w -
      (if du_taker_token (ls_order l) = t then du_taker_amount (ls_order l) else 0)" for t
    using token_transfer_moves(4) [OF tr] buyer by (auto simp: moved_def)
  moreover have "escrow t s' = escrow t s -
      (if du_taker_token (ls_order l) = t then du_taker_amount (ls_order l) else 0)" for t
    unfolding s' by (rule escrow_close [OF assms(4) l])
  moreover have "escrow t s \<le> tk_balance H t me w" for t
    using assms(5) by (simp add: solvent_def)
  ultimately have "solvent H me s' w'"
    unfolding solvent_def by (metis diff_right_mono order_trans)
  moreover have "terms_ok (ls_order l)" using assms(4) l(1) by (auto simp: listings_ok_def)
  ultimately show ?thesis using listings_ok_set [OF assms(4) l(1)] by (simp add: s')
qed

lemma cancel_dutch_keeps_solvent:
  assumes "cancel_dutch_order H e i s w = Inr (s', w')" "current_contract e = me"
    and "\<not> authorised e me" "listings_ok s" "solvent H me s w"
  shows "listings_ok s' \<and> solvent H me s' w'"
proof -
  from assms(1,2) obtain l where
    l: "st_listing s i = Some l" "ls_active l" and auth: "authorised e (ls_seller l)"
    and tr: "token_transfer H e (du_taker_token (ls_order l)) me (ls_seller l) (du_taker_amount (ls_order l)) w = (Inr w' :: (RfqError, 'w) res)"
    and s': "s' = set_listing i (l\<lparr>ls_active := False\<rparr>) s"
    by (auto simp: cancel_dutch_order_def Let_def rs)
  have "ls_seller l \<noteq> me" using auth assms(3) by auto
  then have "tk_balance H t me w' = tk_balance H t me w -
      (if du_taker_token (ls_order l) = t then du_taker_amount (ls_order l) else 0)" for t
    using token_transfer_moves(4) [OF tr] by (auto simp: moved_def)
  then have "solvent H me s' w'"
    using assms(5) escrow_close [OF assms(4) l] unfolding solvent_def s' by simp
  moreover have "terms_ok (ls_order l)" using assms(4) l(1) by (auto simp: listings_ok_def)
  ultimately show ?thesis using listings_ok_set [OF assms(4) l(1)] by (simp add: s')
qed

lemma exec_safe:
  assumes x: "rfq_exec C H e c s w = Inr (fr, s', w')" and me: "current_contract e = me"
    and na: "\<not> authorised e me" and pk: "account_pubkey C me = None" and safe: "rfq_safe H me s w"
  shows "rfq_safe H me s' w'"
proof -
  have base: "config_ok s" "listings_ok s" "no_signer me s" "solvent H me s w"
    using safe by (simp_all add: rfq_safe_def)
  have "listings_ok s' \<and> solvent H me s' w'"
  proof (cases "signed_fill C e c")
    case (Some q)
    obtain r maker h y where "q = (r, maker, h, y)" by (cases q)
    with Some x obtain sig tsig sender taker f where
      st: "settled C H e r maker h sig tsig sender y s w taker f s' w'"
      by (auto elim: exec_signed_fill)
    have "escrow t s' = escrow t s" "tk_balance H t me w \<le> tk_balance H t me w'" for t
      using settled_keeps_me [OF st base(1,3) pk na] settled_frame(2) [OF st] escrow_cong by blast+
    with base(2,4) show ?thesis
      using listings_ok_cong [OF settled_frame(2,3) [OF st]] unfolding solvent_def by (metis order_trans)
  next
    case None
    show ?thesis
    proof (cases "touches_listings c")
      case True
      then consider seller order where "c = C_create_dutch seller order"
        | i buyer m where "c = C_fill_dutch i buyer m" | i where "c = C_cancel_dutch i"
        by (cases c) (simp_all add: touches_listings_def)
      then show ?thesis
      proof cases
        case 1
        with x obtain i where "create_dutch_order H e seller order s w = Inr (i, s', w')"
          by (auto simp: rfq_exec_def and_then_Inr_iff)
        from create_keeps_solvent [OF this me na base(2,4)] show ?thesis .
      next
        case 2
        with x obtain f where "fill_dutch_order H e i buyer m s w = Inr (f, s', w')"
          by (auto simp: rfq_exec_def and_then_Inr_iff)
        from fill_dutch_keeps_solvent [OF this me na base(2,4,1)] show ?thesis .
      next
        case 3
        with x have "cancel_dutch_order H e i s w = Inr (s', w')"
          by (auto simp: rfq_exec_def and_then_Inr_iff)
        from cancel_dutch_keeps_solvent [OF this me na base(2,4)] show ?thesis .
      qed
    next
      case False
      from exec_admin_frame [OF x None False] base show ?thesis
        using escrow_cong [of s' s] listings_ok_cong [of s' s] by (simp add: solvent_def)
    qed
  qed
  with exec_config_ok [OF x base(1)] exec_no_signer [OF x base(3) na] show ?thesis
    by (simp add: rfq_safe_def)
qed

end

subsection \<open>Runs in a world\<close>

text \<open>
  The contract at \<open>me\<close> and the world around it: calls of the contract, none of them authorised by the
  contract itself, and moves of the outside that do not take from the contract (it grants no allowance
  and signs nothing, so only its own calls can spend its balance).
\<close>

inductive rfq_world :: "crypto \<Rightarrow> 'w host \<Rightarrow> address \<Rightarrow> rfq \<Rightarrow> 'w \<Rightarrow> bool"
  for C :: crypto and H :: "'w host" and me :: address where
  deployed: "(\<And>t. 0 \<le> tk_balance H t me w) \<Longrightarrow> rfq_world C H me rfq_empty w"
| called: "rfq_world C H me s w \<Longrightarrow> current_contract e = me \<Longrightarrow> \<not> authorised e me \<Longrightarrow>
    rfq_exec C H e c s w = Inr (fr, s', w') \<Longrightarrow> rfq_world C H me s' w'"
| outside: "rfq_world C H me s w \<Longrightarrow> (\<And>t. tk_balance H t me w \<le> tk_balance H t me w') \<Longrightarrow>
    rfq_world C H me s w'"

inductive_simps rfq_world_empty: "rfq_world C H me rfq_empty w"

lemma rfq_world_safe:
  assumes "rfq_world C H me s w" "sep41_host H" "account_pubkey C me = None"
  shows "rfq_safe H me s w"
  using assms(1)
proof induction
  case (deployed w)
  then show ?case
    by (simp add: rfq_safe_def config_ok_def listings_ok_def no_signer_def is_signer_def solvent_def
        escrow_def total_over_def rfq_empty_def)
next
  case (called s w e c fr s' w')
  then show ?case using sep41_host.exec_safe [OF assms(2) called.hyps(4,2,3) assms(3)] by simp
next
  case (outside s w w')
  then show ?case unfolding rfq_safe_def solvent_def by (meson order_trans)
qed

lemma escrow_ge:
  assumes "listings_ok s" "st_listing s i = Some l" "ls_active l"
  shows "du_taker_amount (ls_order l) \<le> escrow (du_taker_token (ls_order l)) s"
proof -
  let ?t = "du_taker_token (ls_order l)"
  have "0 \<le> escrow_of ?t s k" for k
    using assms(1) by (auto simp: escrow_of_def listings_ok_def terms_ok_def less_imp_le split: option.splits)
  moreover have "finite (dom (st_listing s))" "i \<in> dom (st_listing s)"
    using assms by (auto simp: listings_ok_def)
  ultimately have "escrow_of ?t s i \<le> escrow ?t s"
    unfolding escrow_def by (intro total_over_ge)
  with assms(2,3) show ?thesis by (simp add: escrow_of_def)
qed

subsection \<open>Properties\<close>

text \<open>
  C3 (invariant). Open listings are always covered. Whatever calls are made to the contract, by whoever,
  since it was deployed (creations, fills and cancellations of listings mixed with fills of signed orders
  and administration), on standard tokens it holds of every token at least the sum of the amounts
  escrowed by the open listings in that token, and every listing's terms stay sound.
\<close>

theorem escrow_always_covered:
  assumes "rfq_world C H me s w" "sep41_host H" "xdr_laws C" "me = Contract k"
  shows "(\<forall>t. escrow t s \<le> tk_balance H t me w) \<and> listings_ok s \<and> config_ok s"
proof -
  have "account_pubkey C me = None"
    using xdr_laws.account_pubkey_eq [OF assms(3)] assms(4) by simp
  from rfq_world_safe [OF assms(1,2) this] show ?thesis
    by (simp add: rfq_safe_def solvent_def)
qed

text \<open>The world of the witnesses: the contract is initialised and \<open>alice\<close> lists 500 of \<open>token_a\<close>.\<close>

definition demo_dutch :: DutchOrder where
  "demo_dutch = \<lparr>du_maker_token = token_b, du_taker_token = token_a, du_taker_amount = 500,
     du_start_maker_amount = 480, du_min_maker_amount = 480, du_fee_bps = 50, du_fee_recipient = carol,
     du_expiry = 0\<rparr>"

definition demo_initial :: rfq where
  "demo_initial = rfq_empty\<lparr>st_admin := Some admin_addr,
     st_ref := Some \<lparr>rf_asset = token_b, rf_epoch = 1\<rparr>,
     st_cfg := Some \<lparr>cf_min_fee_bps = 0, cf_max_fee_bps = 1000, cf_fallback_max_age = 0,
       cf_max_deviation_bps = 2000, cf_min_push_interval = 300, cf_max_shift_seconds = 172800,
       cf_decay_seconds = 0\<rparr>\<rparr>"

definition demo_listed :: rfq where
  "demo_listed = set_listing 1 \<lparr>ls_order = demo_dutch, ls_seller = alice, ls_created_at = 50,
     ls_decay_seconds = 0, ls_active = True\<rparr> (demo_initial\<lparr>st_next_id := Some 2\<rparr>)"

lemma demo_initialize: "initialize (user_env 10) admin_addr token_b rfq_empty = Inr demo_initial"
  by (simp add: initialize_def demo_initial_def) (simp add: rfq_empty_def)

lemma demo_create:
  "\<exists>w'. create_dutch_order ledger_host (user_env 50) alice demo_dutch demo_initial demo_ledger = Inr (1, demo_listed, w') \<and>
     tk_balance ledger_host token_a this_contract w' = 500 \<and> tk_balance ledger_host token_a alice w' = 9500"
  by (simp add: create_dutch_order_def check_listing_def check_listing_amounts_def check_curve_def not_paused_def
      paused_def check_fee_def rescale_def next_id_def deliver_def demo_dutch_def demo_listed_def demo_initial_def
      rfq_empty_def config_def ledger_eval arith_defs width_defs Let_def set_listing_def)

lemma demo_world: "\<exists>w. rfq_world plain_crypto ledger_host this_contract demo_listed w \<and>
    tk_balance ledger_host token_a this_contract w = 500 \<and> tk_balance ledger_host token_a alice w = 9500"
proof -
  have 0: "rfq_world plain_crypto ledger_host this_contract rfq_empty demo_ledger"
    by (rule rfq_world.deployed) (simp add: ledger_eval)
  have x0: "rfq_exec plain_crypto ledger_host (user_env 10) (C_initialize admin_addr token_b) rfq_empty demo_ledger =
      Inr (None, demo_initial, demo_ledger)"
    by (simp add: rfq_exec_def demo_initialize)
  have 1: "rfq_world plain_crypto ledger_host this_contract demo_initial demo_ledger"
    by (rule rfq_world.called [OF 0 _ _ x0]) simp_all
  from demo_create obtain w' where
    x1: "rfq_exec plain_crypto ledger_host (user_env 50) (C_create_dutch alice demo_dutch) demo_initial demo_ledger =
      Inr (None, demo_listed, w')"
    and w': "tk_balance ledger_host token_a this_contract w' = 500" "tk_balance ledger_host token_a alice w' = 9500"
    by (auto simp: rfq_exec_def)
  have "rfq_world plain_crypto ledger_host this_contract demo_listed w'"
    by (rule rfq_world.called [OF 1 _ _ x1]) simp_all
  with w' show ?thesis by blast
qed

theorem escrow_always_covered_witness:
  "\<exists>w. rfq_world plain_crypto ledger_host this_contract demo_listed w \<and>
     escrow token_a demo_listed = 500 \<and> escrow token_a demo_listed \<le> tk_balance ledger_host token_a this_contract w"
proof -
  from demo_world obtain w where w: "rfq_world plain_crypto ledger_host this_contract demo_listed w" by blast
  have "escrow token_a demo_listed = 500"
    by (simp add: escrow_def total_over_def escrow_of_def demo_listed_def set_listing_def demo_initial_def
        rfq_empty_def demo_dutch_def)
  with escrow_always_covered [OF w ledger.sep41_host_axioms plain.xdr_laws_axioms this_contract_def] w
  show ?thesis by blast
qed

text \<open>
  From its creation on, a listing always has an ask: it never traps, stays between the
  floor and the start, never rises as time passes, is the start at the moment of creation (when there is a
  decay) and rests on the floor once the decay is over.
\<close>

theorem dutch_ask_falls_to_floor:
  assumes "listing_ok l" "ls_created_at l \<le> ledger_timestamp e"
  shows "\<exists>a. ask e l = Inr a \<and> du_min_maker_amount (ls_order l) \<le> a \<and> a \<le> du_start_maker_amount (ls_order l) \<and>
    (ls_created_at l + ls_decay_seconds l \<le> ledger_timestamp e \<longrightarrow> a = du_min_maker_amount (ls_order l)) \<and>
    (ls_created_at l = ledger_timestamp e \<and> 0 < ls_decay_seconds l \<longrightarrow> a = du_start_maker_amount (ls_order l)) \<and>
    (\<forall>e' a'. ledger_timestamp e \<le> ledger_timestamp e' \<and> ask e' l = Inr a' \<longrightarrow> a' \<le> a)"
proof -
  let ?a = "ask_at (ledger_timestamp e) l"
  have "a' \<le> ?a" if "ledger_timestamp e \<le> ledger_timestamp e'" "ask e' l = Inr a'" for e' a'
    using that ask_is_ask_at [OF assms(1), of e'] ask_at_antimono [OF assms(1) that(1)] assms(2) by simp
  moreover have "ls_created_at l + ls_decay_seconds l \<le> ledger_timestamp e \<Longrightarrow> ?a = du_min_maker_amount (ls_order l)"
    "ls_created_at l = ledger_timestamp e \<and> 0 < ls_decay_seconds l \<Longrightarrow> ?a = du_start_maker_amount (ls_order l)"
    by (auto simp: ask_at_def Let_def)
  ultimately show ?thesis
    using ask_is_ask_at [OF assms] ask_at_bounds [OF assms(1)] by blast
qed

theorem dutch_ask_falls_to_floor_witness:
  "(let l = \<lparr>ls_order = demo_dutch\<lparr>du_start_maker_amount := 580\<rparr>, ls_seller = alice, ls_created_at = 100,
         ls_decay_seconds = 50, ls_active = True\<rparr> in
     ask (demo_env 100) l = Inr 580 \<and> ask (demo_env 125) l = Inr 530 \<and> ask (demo_env 150) l = Inr 480)"
proof -
  let ?l = "\<lparr>ls_order = demo_dutch\<lparr>du_start_maker_amount := 580\<rparr>, ls_seller = alice, ls_created_at = 100,
         ls_decay_seconds = 50, ls_active = True\<rparr>"
  have ok: "listing_ok ?l"
    by (simp add: listing_ok_def terms_ok_def demo_dutch_def width_defs)
  have "ask (demo_env 125) ?l = Inr 530"
    using ask_is_ask_at [OF ok, of "demo_env 125"] by (simp add: ask_at_def demo_dutch_def Let_def)
  with dutch_ask_falls_to_floor [OF ok, of "demo_env 100"] dutch_ask_falls_to_floor [OF ok, of "demo_env 150"]
  show ?thesis by (auto simp: Let_def demo_dutch_def)
qed

text \<open>
  C10 (liveness). A seller can always take an open listing back, also while the contract is paused: in every
  state the contract can reach on a ledger of the repository's own tokens, a cancellation the seller
  authorises succeeds, returns exactly the escrow to the seller and closes the listing (the token's
  amounts being \<open>i128\<close> values and the sum of the two balances fitting one).
\<close>

theorem seller_can_always_cancel:
  assumes "rfq_world C ledger_host me s w" "xdr_laws C" "me = Contract k"
    and "listing s i = Some l" "ls_active l" "current_contract e = me" "authorised e (ls_seller l)" "ls_seller l \<noteq> me"
    and "tk_balance ledger_host (du_taker_token (ls_order l)) me w +
         \<bar>tk_balance ledger_host (du_taker_token (ls_order l)) (ls_seller l) w\<bar> \<le> i128_max"
  shows "\<exists>s' w'. cancel_dutch_order ledger_host e i s w = Inr (s', w') \<and>
    active_listing i s' = Inl (Err ListingNotActive) \<and>
    tk_balance ledger_host (du_taker_token (ls_order l)) (ls_seller l) w' =
      tk_balance ledger_host (du_taker_token (ls_order l)) (ls_seller l) w + du_taker_amount (ls_order l)"
proof -
  let ?t = "du_taker_token (ls_order l)" and ?x = "du_taker_amount (ls_order l)" and ?b = "ls_seller l"
  have "account_pubkey C me = None"
    using xdr_laws.account_pubkey_eq [OF assms(2)] assms(3) by simp
  then have safe: "rfq_safe ledger_host me s w"
    by (rule rfq_world_safe [OF assms(1) ledger.sep41_host_axioms])
  then have lok: "listings_ok s" and cover: "escrow ?t s \<le> tk_balance ledger_host ?t me w"
    by (simp_all add: rfq_safe_def solvent_def)
  have l: "st_listing s i = Some l" using assms(4) by (simp add: listing_def)
  have "?x \<le> tk_balance ledger_host ?t me w"
    using escrow_ge [OF lok l assms(5)] cover by simp
  moreover have "0 < ?x" using lok l by (auto simp: listings_ok_def terms_ok_def)
  ultimately have x: "0 < ?x" "?x \<le> read_balance (fst w ?t) me"
      "read_balance (fst w ?t) me + \<bar>read_balance (fst w ?t) ?b\<bar> \<le> i128_max"
    using assms(9) by (simp_all add: ledger_host_def lift_host_def)
  then have fits: "is_i128 (read_balance (fst w ?t) me - ?x)" "is_i128 (read_balance (fst w ?t) ?b + ?x)"
    by (auto simp: width_defs abs_if split: if_splits)
  have "authorised (calling e ?t) me" using assms(6) by simp
  then have "\<exists>w'. tk_transfer ledger_host (calling e ?t) ?t me ?b ?x w = Some w'"
    using x fits assms(8)
    by (simp add: ledger_host_def lift_host_def tt_transfer_def check_nonneg_def do_transfer_def require_auth_def
        Let_def i128_sub_def i128_add_def i128_checked_def)
  then obtain w' where tr: "token_transfer ledger_host e ?t me ?b ?x w = (Inr w' :: (RfqError, ledger) res)"
    by (auto simp: token_transfer_def)
  have "cancel_dutch_order ledger_host e i s w = Inr (set_listing i (l\<lparr>ls_active := False\<rparr>) s, w')"
    using l assms(4-7) tr by (simp add: cancel_dutch_order_def active_listing_def require_auth_def Let_def)
  moreover have "active_listing i (set_listing i (l\<lparr>ls_active := False\<rparr>) s) = Inl (Err ListingNotActive)"
    by (simp add: active_listing_def listing_def set_listing_def)
  moreover have "tk_balance ledger_host ?t ?b w' = tk_balance ledger_host ?t ?b w + ?x"
    using ledger.token_transfer_moves(4) [OF tr, of ?t ?b] assms(8) by simp
  ultimately show ?thesis by blast
qed

theorem seller_can_always_cancel_witness:
  "\<exists>w s' w'. rfq_world plain_crypto ledger_host this_contract demo_listed w \<and>
     cancel_dutch_order ledger_host (user_env 60) 1 demo_listed w = Inr (s', w') \<and>
     tk_balance ledger_host token_a alice w' = 10000"
proof -
  let ?l = "\<lparr>ls_order = demo_dutch, ls_seller = alice, ls_created_at = 50, ls_decay_seconds = 0, ls_active = True\<rparr>"
  from demo_world obtain w where w: "rfq_world plain_crypto ledger_host this_contract demo_listed w"
    "tk_balance ledger_host token_a this_contract w = 500" "tk_balance ledger_host token_a alice w = 9500" by blast
  have "listing demo_listed 1 = Some ?l" by (simp add: listing_def demo_listed_def set_listing_def)
  from seller_can_always_cancel [OF w(1) plain.xdr_laws_axioms this_contract_def this, of "user_env 60"] w
  show ?thesis by (fastforce simp: demo_dutch_def width_defs)
qed

end
