(* ===== verification/Rfq_Keepers.thy ===== *)
theory Rfq_Keepers
  imports Rfq_Settlement
begin

text \<open>
  What keepers can and cannot do, and the gates every fill passes: bounded schedule shifts, bounded and
  spaced price pushes, pushed prices retired by a change of the reference asset, and no fill while paused,
  after expiry or by the wrong sender.
\<close>

lemma keeper_auth_Inr_iff [rs]:
  "keeper_auth e c s = Inr b \<longleftrightarrow> authorised e c \<and>
     (\<exists>a. st_admin s = Some a \<and> (if c = a then b else \<not> b \<and> is_keeper s c))"
  by (auto simp: keeper_auth_def rs)

lemma rfq_seconds_for_Inr_iff [rs]:
  "rfq_seconds_for e sc = Inr r \<longleftrightarrow> seconds_for (ledger_timestamp e) sc = (Inr (Some r) :: (RfqError, nat option) res)"
  by (auto simp: rfq_seconds_for_def rs)

lemma validate_schedule_Inr_iff [rs]:
  "validate_schedule e sc = Inr u \<longleftrightarrow> is_valid (ledger_timestamp e) sc = (Inr True :: (RfqError, bool) res)"
  by (auto simp: validate_schedule_def rs)

lemma check_price_move_Inr:
  assumes "check_price_move prev p now is_admin s = Inr u" "st_cfg s = Some cfg"
  shows "is_admin \<or> u64_saturating_add (pp_updated_at prev) (max (cf_min_push_interval cfg) 1) \<le> now"
    "cf_max_deviation_bps cfg = 0 \<or>
       0 < pp_price prev \<and> \<bar>p - pp_price prev\<bar> * BPS < pp_price prev * (int (cf_max_deviation_bps cfg) + 1)"
proof -
  show "is_admin \<or> u64_saturating_add (pp_updated_at prev) (max (cf_min_push_interval cfg) 1) \<le> now"
    using assms by (auto simp: check_price_move_def rs)
  show "cf_max_deviation_bps cfg = 0 \<or>
       0 < pp_price prev \<and> \<bar>p - pp_price prev\<bar> * BPS < pp_price prev * (int (cf_max_deviation_bps cfg) + 1)"
  proof (cases "cf_max_deviation_bps cfg = 0")
    case False
    with assms have pos: "0 < pp_price prev" and
      le: "\<bar>p - pp_price prev\<bar> * BPS div pp_price prev \<le> int (cf_max_deviation_bps cfg)"
      by (auto simp: check_price_move_def rs not_less)
    then have "\<not> int (cf_max_deviation_bps cfg) + 1 \<le> \<bar>p - pp_price prev\<bar> * BPS div pp_price prev" by simp
    with pos show ?thesis by (simp add: floor_div_le_iff mult.commute)
  qed simp
qed

lemma push_price_Inr:
  assumes "push_price e c asset p s = Inr s'"
  obtains a r cfg where "st_admin s = Some a" "st_ref s = Some r" "authorised e c" "c = a \<or> is_keeper s c" "0 < p"
    "\<And>prev. st_fallback s asset = Some prev \<Longrightarrow> pp_epoch prev = rf_epoch r \<Longrightarrow>
       st_cfg s = Some cfg \<and>
       (c = a \<or> u64_saturating_add (pp_updated_at prev) (max (cf_min_push_interval cfg) 1) \<le> ledger_timestamp e) \<and>
       (cf_max_deviation_bps cfg = 0 \<or>
         0 < pp_price prev \<and> \<bar>p - pp_price prev\<bar> * BPS < pp_price prev * (int (cf_max_deviation_bps cfg) + 1))"
    "s' = s\<lparr>st_fallback := (st_fallback s)(asset \<mapsto>
       \<lparr>pp_price = p, pp_updated_at = ledger_timestamp e, pp_epoch = rf_epoch r\<rparr>)\<rparr>"
proof -
  from assms obtain a r is_admin where
    base: "st_admin s = Some a" "st_ref s = Some r" "authorised e c" "0 < p"
      "if c = a then is_admin else \<not> is_admin \<and> is_keeper s c"
    and mv: "(case fallback s asset of
        Some prev \<Rightarrow> if pp_epoch prev = rf_epoch r then check_price_move prev p (ledger_timestamp e) is_admin s else Inr ()
      | None \<Rightarrow> Inr ()) = Inr ()"
    and s': "s' = s\<lparr>st_fallback := (st_fallback s)(asset \<mapsto>
       \<lparr>pp_price = p, pp_updated_at = ledger_timestamp e, pp_epoch = rf_epoch r\<rparr>)\<rparr>"
    by (auto simp: push_price_def Let_def and_then_Inr_iff keeper_auth_Inr_iff panic_if_Inr_iff stored_Inr_iff not_le)
  show thesis
  proof (rule that [of a r "the (st_cfg s)"])
    fix prev assume prev: "st_fallback s asset = Some prev" "pp_epoch prev = rf_epoch r"
    with mv have chk: "check_price_move prev p (ledger_timestamp e) is_admin s = Inr ()"
      by (simp add: fallback_def)
    then obtain cfg where cfg: "st_cfg s = Some cfg"
      by (auto simp: check_price_move_def and_then_Inr_iff stored_Inr_iff)
    from check_price_move_Inr [OF chk cfg] base(5) cfg
    show "st_cfg s = Some (the (st_cfg s)) \<and>
       (c = a \<or> u64_saturating_add (pp_updated_at prev) (max (cf_min_push_interval (the (st_cfg s))) 1) \<le> ledger_timestamp e) \<and>
       (cf_max_deviation_bps (the (st_cfg s)) = 0 \<or>
         0 < pp_price prev \<and> \<bar>p - pp_price prev\<bar> * BPS < pp_price prev * (int (cf_max_deviation_bps (the (st_cfg s))) + 1))"
      by (auto split: if_splits)
  qed (use base s' in \<open>auto split: if_splits\<close>)
qed

subsection \<open>Epochs\<close>

definition epochs_ok :: "rfq \<Rightarrow> bool" where
  "epochs_ok s \<longleftrightarrow> (st_admin s = None \<longrightarrow> st_fallback s = Map.empty) \<and>
     (\<forall>a fp r. st_fallback s a = Some fp \<and> st_ref s = Some r \<longrightarrow> pp_epoch fp \<le> rf_epoch r)"

lemma settled_price_frame:
  assumes "settled C H e r maker h sig tsig sender x s w taker fr s' w'"
  shows "st_admin s' = st_admin s" "st_fallback s' = st_fallback s" "st_ref s' = st_ref s"
  using assms
  by (auto elim!: settled_validated dest!: validate_common_Inr(10)
      simp: set_filled_def set_request_filled_def split: option.splits)

lemma exec_epochs_ok:
  assumes "rfq_exec C H e c s w = Inr (fr, s', w')" "epochs_ok s"
  shows "epochs_ok s'"
proof (cases "signed_fill C e c")
  case (Some q)
  obtain r maker h x where "q = (r, maker, h, x)" by (cases q)
  with Some assms(1) obtain sig tsig sender taker f where
    "settled C H e r maker h sig tsig sender x s w taker f s' w'"
    by (auto elim: exec_signed_fill)
  with assms(2) settled_price_frame show ?thesis by (fastforce simp: epochs_ok_def)
next
  case None
  show ?thesis
  proof (cases "\<exists>a t p. c = C_push_price a t p")
    case True
    then obtain a t p where "push_price e a t p s = Inr s'"
      using assms(1) by (auto simp: rfq_exec_def rs)
    then show ?thesis
    proof (rule push_price_Inr)
      fix adm r cfg
      assume "st_admin s = Some adm" "st_ref s = Some r"
        "s' = s\<lparr>st_fallback := (st_fallback s)(t \<mapsto>
           \<lparr>pp_price = p, pp_updated_at = ledger_timestamp e, pp_epoch = rf_epoch r\<rparr>)\<rparr>"
      with assms(2) show ?thesis by (auto simp: epochs_ok_def)
    qed
  next
    case False
    with assms None show ?thesis
      by (cases c; auto simp: rfq_exec_def rs Let_def initialize_def set_config_def set_reference_def set_keeper_def
          set_paused_def set_oracle_def store_oracle_def set_schedule_def register_order_signer_def set_signer_def
          cancel_salt_def set_salt_cancelled_def dutch_op_defs signed_fill_def epochs_ok_def admin_only_def
          split: prod.splits option.splits if_splits intro!: le_SucI)
  qed
qed

lemma run_epochs_ok:
  assumes "rfq_run C H me rfq_empty evs s"
  shows "epochs_ok s"
  using assms
proof induction
  case start
  then show ?case by (simp add: epochs_ok_def rfq_empty_def)
next
  case (call evs s e c w fr s' w')
  from exec_epochs_ok [OF call.hyps(3) call.IH] show ?case .
qed

subsection \<open>Properties\<close>

text \<open>
  A keeper can only nudge an asset's schedule: a schedule set by anyone but the admin is for an
  asset the admin already onboarded, is valid, never raises the asset's rate ceiling, and moves the time to
  redemption and the cycle length by at most \<open>max_shift_seconds\<close> each (when that bound is on). No other
  asset's schedule changes.
\<close>

theorem keeper_schedule_bounded:
  assumes "set_schedule e caller asset sc s = Inr s'" "st_admin s \<noteq> Some caller" "st_cfg s = Some cfg"
  shows "\<exists>prev. st_sched s asset = Some prev \<and> is_keeper s caller \<and> authorised e caller \<and>
    is_valid (ledger_timestamp e) sc = (Inr True :: (RfqError, bool) res) \<and>
    sc_max_bps_per_day sc \<le> sc_max_bps_per_day prev \<and>
    (0 < cf_max_shift_seconds cfg \<longrightarrow>
      abs_diff (amplitude prev) (amplitude sc) \<le> cf_max_shift_seconds cfg \<and>
      (\<exists>t0 t1. rfq_seconds_for e prev = Inr t0 \<and> rfq_seconds_for e sc = Inr t1 \<and>
         abs_diff t0 t1 \<le> cf_max_shift_seconds cfg)) \<and>
    s' = s\<lparr>st_sched := (st_sched s)(asset \<mapsto> sc)\<rparr>"
proof -
  from assms(1,2) have keeper: "is_keeper s caller" "authorised e caller"
    and valid: "is_valid (ledger_timestamp e) sc = (Inr True :: (RfqError, bool) res)"
    and shift: "check_keeper_shift e asset sc s = Inr ()"
    and s': "s' = s\<lparr>st_sched := (st_sched s)(asset \<mapsto> sc)\<rparr>"
    by (auto simp: set_schedule_def and_then_Inr_iff keeper_auth_Inr_iff validate_schedule_Inr_iff split: if_splits)
  obtain prev where sched: "st_sched s asset = Some prev"
    using shift by (cases "st_sched s asset") (simp_all add: check_keeper_shift_def schedule_def)
  have ceiling: "sc_max_bps_per_day sc \<le> sc_max_bps_per_day prev"
    using shift sched by (simp add: check_keeper_shift_def schedule_def panic_if_def split: if_splits)
  have bound: "(if cf_max_shift_seconds cfg = 0 then Inr ()
      else and_then (rfq_seconds_for e prev) (\<lambda>t0.
           and_then (rfq_seconds_for e sc) (\<lambda>t1.
             panic_if (cf_max_shift_seconds cfg < abs_diff t0 t1 \<or>
                       cf_max_shift_seconds cfg < abs_diff (amplitude prev) (amplitude sc))
               ScheduleShiftTooLarge))) = Inr ()"
    using shift sched ceiling assms(3) by (simp add: check_keeper_shift_def schedule_def config_def)
  from bound have "0 < cf_max_shift_seconds cfg \<longrightarrow>
      abs_diff (amplitude prev) (amplitude sc) \<le> cf_max_shift_seconds cfg \<and>
      (\<exists>t0 t1. rfq_seconds_for e prev = Inr t0 \<and> rfq_seconds_for e sc = Inr t1 \<and>
         abs_diff t0 t1 \<le> cf_max_shift_seconds cfg)"
    by (auto simp: and_then_Inr_iff panic_if_Inr_iff not_less)
  with sched ceiling keeper valid s' show ?thesis by (intro exI [of _ prev] conjI)
qed

theorem keeper_schedule_bounded_witness:
  "\<exists>s' prev. set_schedule (demo_env 2000) carol token_a (demo_schedule\<lparr>sc_rolling_seconds := 90000\<rparr>) demo_rfq = Inr s' \<and>
     st_sched demo_rfq token_a = Some prev \<and> abs_diff (amplitude prev) 90000 \<le> 172800"
proof -
  have "\<exists>s'. set_schedule (demo_env 2000) carol token_a (demo_schedule\<lparr>sc_rolling_seconds := 90000\<rparr>) demo_rfq = Inr s'"
    by (simp add: set_schedule_def keeper_auth_def is_keeper_def validate_schedule_def is_valid_def in_horizon_def
        MAX_SECONDS_def check_keeper_shift_def amplitude_def rfq_eval arith_defs demo_defs)
  then obtain s' where set: "set_schedule (demo_env 2000) carol token_a (demo_schedule\<lparr>sc_rolling_seconds := 90000\<rparr>) demo_rfq = Inr s'" ..
  have "st_admin demo_rfq \<noteq> Some carol" by (simp add: demo_rfq_def rfq_empty_def demo_defs)
  from keeper_schedule_bounded [OF set this, of "the (st_cfg demo_rfq)"] set show ?thesis
    by (auto simp: demo_rfq_def rfq_empty_def amplitude_def demo_schedule_def)
qed

text \<open>
  Pushed prices move by bounded, spaced steps. A price anyone but the admin pushes over one of
  the same reference epoch comes at least \<open>max(min_push_interval, 1)\<close> seconds after it (so never twice in
  one ledger), and a price anyone pushes, the admin too, differs from it by less than
  \<open>max_deviation_bps + 1\<close> basis points of it while the bound is on. What is stored is the pushed price, now, under
  the current epoch, and no other asset's price changes.
\<close>

theorem pushed_price_bounded:
  assumes "push_price e caller asset p s = Inr s'" "st_cfg s = Some cfg" "st_ref s = Some r"
    and "st_fallback s asset = Some prev" "pp_epoch prev = rf_epoch r"
    and "pp_updated_at prev + max (cf_min_push_interval cfg) 1 \<le> u64_max"
  shows "0 < p \<and> authorised e caller \<and> (st_admin s = Some caller \<or> is_keeper s caller) \<and>
    (st_admin s \<noteq> Some caller \<longrightarrow>
       pp_updated_at prev + max (cf_min_push_interval cfg) 1 \<le> ledger_timestamp e) \<and>
    (0 < cf_max_deviation_bps cfg \<longrightarrow>
       \<bar>p - pp_price prev\<bar> * BPS < pp_price prev * (int (cf_max_deviation_bps cfg) + 1)) \<and>
    s' = s\<lparr>st_fallback := (st_fallback s)(asset \<mapsto>
       \<lparr>pp_price = p, pp_updated_at = ledger_timestamp e, pp_epoch = rf_epoch r\<rparr>)\<rparr>"
  using assms(1)
proof (rule push_price_Inr)
  fix a r' cfg'
  assume "st_admin s = Some a" "st_ref s = Some r'" "authorised e caller" "caller = a \<or> is_keeper s caller" "0 < p"
    and b: "\<And>prev. st_fallback s asset = Some prev \<Longrightarrow> pp_epoch prev = rf_epoch r' \<Longrightarrow>
       st_cfg s = Some cfg' \<and>
       (caller = a \<or> u64_saturating_add (pp_updated_at prev) (max (cf_min_push_interval cfg') 1) \<le> ledger_timestamp e) \<and>
       (cf_max_deviation_bps cfg' = 0 \<or>
         0 < pp_price prev \<and> \<bar>p - pp_price prev\<bar> * BPS < pp_price prev * (int (cf_max_deviation_bps cfg') + 1))"
    and "s' = s\<lparr>st_fallback := (st_fallback s)(asset \<mapsto>
       \<lparr>pp_price = p, pp_updated_at = ledger_timestamp e, pp_epoch = rf_epoch r'\<rparr>)\<rparr>"
  with assms b [OF assms(4)] show ?thesis
    by (auto simp: u64_saturating_add_def min_def split: if_splits)
qed

theorem pushed_price_bounded_witness:
  "\<exists>s'. push_price (demo_env 2000) carol token_a (11 * 10 ^ 17) demo_rfq = Inr s' \<and>
     (1300::nat) \<le> 2000 \<and> \<bar>11 * 10 ^ 17 - ONE\<bar> * BPS < ONE * 2001"
proof -
  have "\<exists>s'. push_price (demo_env 2000) carol token_a (11 * 10 ^ 17) demo_rfq = Inr s'"
    by (simp add: push_price_def keeper_auth_def is_keeper_def check_price_move_def rfq_eval arith_defs width_defs
        demo_defs)
  then obtain s' where push: "push_price (demo_env 2000) carol token_a (11 * 10 ^ 17) demo_rfq = Inr s'" ..
  have st: "st_admin demo_rfq \<noteq> Some carol"
    "st_fallback demo_rfq token_a = Some \<lparr>pp_price = ONE, pp_updated_at = 1000, pp_epoch = 1\<rparr>"
    "st_ref demo_rfq = Some \<lparr>rf_asset = token_b, rf_epoch = 1\<rparr>"
    "st_cfg demo_rfq = Some (the (st_cfg demo_rfq))"
    "cf_min_push_interval (the (st_cfg demo_rfq)) = 300" "cf_max_deviation_bps (the (st_cfg demo_rfq)) = 2000"
    by (simp_all add: demo_rfq_def rfq_empty_def demo_defs)
  from pushed_price_bounded [OF push st(4) st(3) st(2)] st(1,5,6) push show ?thesis
    by (simp add: width_defs)
qed

text \<open>
  Changing the reference asset retires every pushed price: in any state the contract can reach
  and after any \<open>set_reference\<close>, no pushed price of any asset counts as live, at whatever time, until it is
  pushed again.
\<close>

theorem set_reference_retires_prices:
  assumes "rfq_run C H me rfq_empty evs s" "set_reference e asset s = Inr s'"
  shows "\<not> live_push e' a s' x"
proof -
  from assms(2) obtain r where "st_ref s = Some r" "st_fallback s' = st_fallback s"
    "st_ref s' = Some \<lparr>rf_asset = asset, rf_epoch = rf_epoch r + 1\<rparr>"
    by (auto simp: set_reference_def rs admin_only_def)
  with run_epochs_ok [OF assms(1)] show ?thesis
    by (fastforce simp: live_push_def epochs_ok_def)
qed

lemma demo_reference_run:
  defines "cfg \<equiv> \<lparr>cf_min_fee_bps = 0, cf_max_fee_bps = 1000, cf_fallback_max_age = 3600,
     cf_max_deviation_bps = 2000, cf_min_push_interval = 300, cf_max_shift_seconds = 172800, cf_decay_seconds = 0\<rparr>"
  defines "s \<equiv> rfq_empty\<lparr>st_admin := Some admin_addr, st_ref := Some \<lparr>rf_asset = token_b, rf_epoch = 1\<rparr>,
     st_cfg := Some cfg, st_fallback := [token_a \<mapsto> \<lparr>pp_price = ONE, pp_updated_at = 30, pp_epoch = 1\<rparr>]\<rparr>"
  shows "(\<exists>evs. rfq_run plain_crypto ledger_host this_contract rfq_empty evs s) \<and> live_push (demo_env 40) token_a s ONE"
proof -
  let ?ev = "\<lambda>t c. \<lparr>ev_env = demo_env t, ev_call = c, ev_fill = None\<rparr>"
  obtain s1 where 1: "rfq_exec plain_crypto ledger_host (demo_env 10) (C_initialize admin_addr token_b) rfq_empty demo_ledger =
      Inr (None, s1, demo_ledger)" and s1: "initialize (demo_env 10) admin_addr token_b rfq_empty = Inr s1"
    by (auto simp: rfq_exec_def initialize_def rfq_empty_def)
  have s2: "set_config (demo_env 20) cfg s1 = Inr (s1\<lparr>st_cfg := Some cfg\<rparr>)"
    using s1 by (auto simp: initialize_def rfq_empty_def set_config_def admin_only_def stored_admin_def cfg_def
        MAX_FEE_BPS_LIMIT_def BPS_def)
  then have 2: "rfq_exec plain_crypto ledger_host (demo_env 20) (C_set_config cfg) s1 demo_ledger =
      Inr (None, s1\<lparr>st_cfg := Some cfg\<rparr>, demo_ledger)"
    by (simp add: rfq_exec_def)
  have "push_price (demo_env 30) admin_addr token_a ONE (s1\<lparr>st_cfg := Some cfg\<rparr>) = Inr s"
    using s1 by (auto simp: initialize_def rfq_empty_def push_price_def keeper_auth_def stored_admin_def reference_def
        fallback_def ONE_def s_def)
  then have 3: "rfq_exec plain_crypto ledger_host (demo_env 30) (C_push_price admin_addr token_a ONE)
      (s1\<lparr>st_cfg := Some cfg\<rparr>) demo_ledger = Inr (None, s, demo_ledger)"
    by (simp add: rfq_exec_def)
  note r1 = rfq_run.call [OF rfq_run.start demo_env_simps(3) 1]
  note r2 = rfq_run.call [OF r1 demo_env_simps(3) 2]
  note r3 = rfq_run.call [OF r2 demo_env_simps(3) 3]
  moreover have "live_push (demo_env 40) token_a s ONE"
    by (simp add: live_push_def s_def cfg_def ONE_def)
  ultimately show ?thesis by blast
qed

theorem set_reference_retires_prices_witness:
  "\<exists>evs s s'. rfq_run plain_crypto ledger_host this_contract rfq_empty evs s \<and> live_push (demo_env 40) token_a s ONE \<and>
     set_reference (demo_env 35) bob s = Inr s' \<and> \<not> live_push (demo_env 40) token_a s' ONE"
proof -
  let ?cfg = "\<lparr>cf_min_fee_bps = 0, cf_max_fee_bps = 1000, cf_fallback_max_age = 3600,
     cf_max_deviation_bps = 2000, cf_min_push_interval = 300, cf_max_shift_seconds = 172800, cf_decay_seconds = 0\<rparr>"
  let ?s = "rfq_empty\<lparr>st_admin := Some admin_addr, st_ref := Some \<lparr>rf_asset = token_b, rf_epoch = 1\<rparr>,
     st_cfg := Some ?cfg, st_fallback := [token_a \<mapsto> \<lparr>pp_price = ONE, pp_updated_at = 30, pp_epoch = 1\<rparr>]\<rparr>"
  from demo_reference_run obtain evs where run: "rfq_run plain_crypto ledger_host this_contract rfq_empty evs ?s"
    and live: "live_push (demo_env 40) token_a ?s ONE" by blast
  have "\<exists>s'. set_reference (demo_env 35) bob ?s = Inr s'"
    by (simp add: set_reference_def admin_only_def stored_admin_def reference_def arith_defs u32_max_def)
  then obtain s' where set: "set_reference (demo_env 35) bob ?s = Inr s'" ..
  from set_reference_retires_prices [OF run set] run live set show ?thesis by blast
qed

text \<open>
  The gates of a fill. A signed order is filled only while the contract is not paused, before the
  order expires, for two different tokens, positive amounts, a fee within the configured range, by the
  sender the order names if it names one, under salts neither side has cancelled, and against signatures
  that verify under the maker's own key or one the maker registered.
\<close>

theorem fill_gates:
  assumes "rfq_exec C H e c s w = Inr (fr, s', w')" "signed_fill C e c = Some (r, maker, h, x)"
  shows "\<not> paused s \<and> ledger_timestamp e < rq_expiry r \<and> rq_maker_token r \<noteq> rq_taker_token r \<and>
    0 < x \<and> 0 < rq_taker_amount r \<and> 0 < rq_min_received_amount r \<and>
    (\<exists>cfg. st_cfg s = Some cfg \<and> cf_min_fee_bps cfg \<le> rq_fee_bps r \<and> rq_fee_bps r \<le> cf_max_fee_bps cfg) \<and>
    (\<exists>sender. authorised e sender \<and> (rq_sender r = None \<or> rq_sender r = Some sender)) \<and>
    \<not> is_salt_cancelled s maker (rq_salt r) \<and> (\<forall>t. rq_taker r = Some t \<longrightarrow> \<not> is_salt_cancelled s t (rq_salt r)) \<and>
    (\<exists>sig :: Signature. ed25519_ok C (sg_signer sig) (bytes_of (sep53 C h)) (sg_signature sig) \<and>
       (account_pubkey C maker = Some (sg_signer sig) \<or> is_signer s maker (sg_signer sig)))"
proof -
  from assms obtain sig tsig sender taker f where
    st: "settled C H e r maker h sig tsig sender x s w taker f s' w'"
    by (rule exec_signed_fill)
  then obtain s1 where v: "validate_common C e r maker tsig sender x s = Inr (taker, s1)"
    by (rule settled_validated)
  note V = validate_common_Inr [OF v]
  have "st_signer s' = st_signer s"
    using V(10) st by (auto simp: settled_def rs set_filled_def set_request_filled_def v split: option.splits)
  then have sig: "ed25519_ok C (sg_signer sig) (bytes_of (sep53 C h)) (sg_signature sig) \<and>
       (account_pubkey C maker = Some (sg_signer sig) \<or> is_signer s maker (sg_signer sig))"
    using st by (auto simp: settled_def verify_def rs Let_def is_signer_def split: if_splits option.splits)
  have "authorised e sender" using st by (simp add: settled_def)
  with V(1-9) sig settled_counters(8) [OF st] show ?thesis by blast
qed

theorem fill_gates_witness:
  "\<exists>s' w'. rfq_exec plain_crypto ledger_host (demo_env 2000) (C_fill_rfq demo_order (demo_sig 2) None alice 400)
       (demo_rfq\<lparr>st_salt_cancelled := [(carol, 9) \<mapsto> True]\<rparr>) demo_ledger = Inr (Some demo_fill, s', w') \<and>
     (2000::nat) < ro_expiry demo_order"
proof -
  from demo_fill_runs obtain s' w' where x: "rfq_exec plain_crypto ledger_host (demo_env 2000)
      (C_fill_rfq demo_order (demo_sig 2) None alice 400)
      (demo_rfq\<lparr>st_salt_cancelled := [(carol, 9) \<mapsto> True]\<rparr>) demo_ledger = Inr (Some demo_fill, s', w')"
    by (auto simp: rfq_exec_def)
  from fill_gates [OF x, of "rfq_request demo_order" "ro_maker demo_order"
      "hash_rfq_order plain_crypto (demo_env 2000) demo_order" 400] x
  show ?thesis by (auto simp: signed_fill_def rfq_request_def)
qed

end
