(* ===== verification/Shares.thy ===== *)
theory Shares
  imports Token_Interface
begin

text \<open>
  \<open>crates/shares/src/lib.rs\<close>: the share ledger of the vault (vault shares) and the facility (oLP), and
  the balance ledger of the claim token. Storage entries that default are options read through their
  default. Shown here: the supply is the sum of the balances after every operation; conversions round
  in the issuer's favour, so an entry followed by an exit never profits; the high-water mark never
  falls, and the fee shares minted are worth no more than the fee.
\<close>

definition VIRTUAL :: int where "VIRTUAL = 1000000"
definition DECIMALS_OFFSET :: nat where "DECIMALS_OFFSET = 6"

datatype ShareError = SE_InvalidAmount | SE_InsufficientBalance | SE_InsufficientAllowance
  | SE_NotAllowlisted | SE_Frozen | SE_Overflow

record Meta =
  mt_decimals :: nat
  mt_name :: string
  mt_symbol :: string

record Allowance =
  aw_amount :: int
  aw_expiration_ledger :: nat

record shares =
  sh_meta :: "Meta option"
  sh_supply :: "int option"
  sh_hwm :: "int option"
  sh_allowlist :: "bool option"
  sh_balances :: "address \<rightharpoonup> int"
  sh_allowances :: "address \<times> address \<rightharpoonup> Allowance"
  sh_members :: "address \<rightharpoonup> bool"
  sh_frozen :: "address \<rightharpoonup> bool"

definition sh_empty :: shares where
  "sh_empty = \<lparr>sh_meta = None, sh_supply = None, sh_hwm = None, sh_allowlist = None,
     sh_balances = Map.empty, sh_allowances = Map.empty, sh_members = Map.empty, sh_frozen = Map.empty\<rparr>"

record Snapshot =
  sn_nav :: int
  sn_supply :: int
  sn_fee_shares :: int
  sn_hwm :: int

definition md :: "int \<Rightarrow> int \<Rightarrow> int \<Rightarrow> (ShareError, int) res" where
  "md a b d = checked_math SE_InvalidAmount SE_Overflow (mul_div a b d)"

definition md_up :: "int \<Rightarrow> int \<Rightarrow> int \<Rightarrow> (ShareError, int) res" where
  "md_up a b d = checked_math SE_InvalidAmount SE_Overflow (mul_div_ceil a b d)"

definition share_supply :: "shares \<Rightarrow> int" where
  "share_supply s = (case sh_supply s of None \<Rightarrow> 0 | Some v \<Rightarrow> v)"

definition hwm :: "shares \<Rightarrow> int" where
  "hwm s = (case sh_hwm s of None \<Rightarrow> 0 | Some v \<Rightarrow> v)"

definition set_hwm :: "int \<Rightarrow> shares \<Rightarrow> shares" where
  "set_hwm v s = s\<lparr>sh_hwm := Some v\<rparr>"

definition balance :: "shares \<Rightarrow> address \<Rightarrow> int" where
  "balance s a = (case sh_balances s a of None \<Rightarrow> 0 | Some v \<Rightarrow> v)"

definition set_balance :: "address \<Rightarrow> int \<Rightarrow> shares \<Rightarrow> shares" where
  "set_balance a v s = s\<lparr>sh_balances := (sh_balances s)(a \<mapsto> v)\<rparr>"

definition set_supply :: "int \<Rightarrow> shares \<Rightarrow> shares" where
  "set_supply v s = s\<lparr>sh_supply := Some v\<rparr>"

definition allowance :: "env \<Rightarrow> address \<Rightarrow> address \<Rightarrow> shares \<Rightarrow> int" where
  "allowance e from spender s =
    (case sh_allowances s (from, spender) of
       Some a \<Rightarrow> if ledger_sequence e \<le> aw_expiration_ledger a then aw_amount a else 0
     | None \<Rightarrow> 0)"

definition approve :: "env \<Rightarrow> address \<Rightarrow> address \<Rightarrow> int \<Rightarrow> nat \<Rightarrow> shares \<Rightarrow> (ShareError, shares) res" where
  "approve e from spender amount expiration_ledger s =
    and_then (panic_if (amount < 0 \<or> (0 < amount \<and> expiration_ledger < ledger_sequence e))
                SE_InvalidAmount) (\<lambda>_.
      Inr (s\<lparr>sh_allowances := (sh_allowances s)((from, spender) \<mapsto>
        \<lparr>aw_amount = amount, aw_expiration_ledger = expiration_ledger\<rparr>)\<rparr>))"

definition spend_allowance :: "env \<Rightarrow> address \<Rightarrow> address \<Rightarrow> int \<Rightarrow> shares \<Rightarrow> (ShareError, shares) res" where
  "spend_allowance e from spender amount s =
    (let left = allowance e from spender s in
     and_then (panic_if (left < amount) SE_InsufficientAllowance) (\<lambda>_.
     and_then (unwrap (sh_allowances s (from, spender))) (\<lambda>v.
     and_then (i128_sub left amount) (\<lambda>rest.
       Inr (s\<lparr>sh_allowances := (sh_allowances s)((from, spender) \<mapsto> v\<lparr>aw_amount := rest\<rparr>)\<rparr>)))))"

definition allowlist_enabled :: "shares \<Rightarrow> bool" where
  "allowlist_enabled s = (sh_allowlist s = Some True)"

definition set_allowlist :: "bool \<Rightarrow> shares \<Rightarrow> shares" where
  "set_allowlist enabled s = s\<lparr>sh_allowlist := Some enabled\<rparr>"

definition is_member :: "shares \<Rightarrow> address \<Rightarrow> bool" where
  "is_member s who = (sh_members s who = Some True)"

definition set_member :: "address \<Rightarrow> bool \<Rightarrow> shares \<Rightarrow> shares" where
  "set_member who allowed s = s\<lparr>sh_members := (sh_members s)(who \<mapsto> allowed)\<rparr>"

definition admitted :: "env \<Rightarrow> shares \<Rightarrow> address \<Rightarrow> bool" where
  "admitted e s who \<longleftrightarrow> \<not> allowlist_enabled s \<or> who = current_contract e \<or> is_member s who"

definition is_frozen :: "shares \<Rightarrow> address \<Rightarrow> bool" where
  "is_frozen s who = (sh_frozen s who = Some True)"

definition set_frozen :: "address \<Rightarrow> bool \<Rightarrow> shares \<Rightarrow> shares" where
  "set_frozen who frozen s = s\<lparr>sh_frozen := (sh_frozen s)(who \<mapsto> frozen)\<rparr>"

definition mint :: "address \<Rightarrow> int \<Rightarrow> shares \<Rightarrow> (ShareError, shares) res" where
  "mint to amount s =
    and_then (i128_add (balance s to) amount) (\<lambda>b.
    and_then (i128_add (share_supply s) amount) (\<lambda>total.
      Inr (set_supply total (set_balance to b s))))"

definition debit :: "address \<Rightarrow> int \<Rightarrow> shares \<Rightarrow> (ShareError, shares) res" where
  "debit from amount s =
    and_then (panic_if (amount < 0) SE_InvalidAmount) (\<lambda>_.
    and_then (panic_if (is_frozen s from) SE_Frozen) (\<lambda>_.
      let held = balance s from in
      and_then (panic_if (held < amount) SE_InsufficientBalance) (\<lambda>_.
      and_then (i128_sub held amount) (\<lambda>left.
        Inr (set_balance from left s)))))"

definition burn :: "address \<Rightarrow> int \<Rightarrow> shares \<Rightarrow> (ShareError, shares) res" where
  "burn from amount s =
    and_then (debit from amount s) (\<lambda>s.
    and_then (i128_sub (share_supply s) amount) (\<lambda>total.
      Inr (set_supply total s)))"

definition transfer :: "env \<Rightarrow> address \<Rightarrow> address \<Rightarrow> int \<Rightarrow> shares \<Rightarrow> (ShareError, shares) res" where
  "transfer e from to amount s =
    and_then (panic_if (\<not> admitted e s to) SE_NotAllowlisted) (\<lambda>_.
    and_then (panic_if (is_frozen s to) SE_Frozen) (\<lambda>_.
    and_then (debit from amount s) (\<lambda>s.
    and_then (i128_add (balance s to) amount) (\<lambda>b.
      Inr (set_balance to b s)))))"

definition seize :: "address \<Rightarrow> address \<Rightarrow> int \<Rightarrow> shares \<Rightarrow> (ShareError, shares) res" where
  "seize from to amount s =
    (let held = balance s from in
     and_then (panic_if (amount \<le> 0 \<or> held < amount) SE_InsufficientBalance) (\<lambda>_.
     and_then (i128_sub held amount) (\<lambda>left.
       let s = set_balance from left s in
       and_then (i128_add (balance s to) amount) (\<lambda>b.
         Inr (set_balance to b s)))))"

definition share_price :: "int \<Rightarrow> int \<Rightarrow> (ShareError, int) res" where
  "share_price nav spl =
    and_then (i128_add nav 1) (\<lambda>n.
    and_then (i128_add spl VIRTUAL) (\<lambda>d.
      md n ONE d))"

definition init_meta :: "nat \<Rightarrow> string \<Rightarrow> string \<Rightarrow> shares \<Rightarrow> shares" where
  "init_meta decimals name symbol s =
    s\<lparr>sh_meta := Some \<lparr>mt_decimals = decimals, mt_name = name, mt_symbol = symbol\<rparr>\<rparr>"

definition shares_init :: "nat \<Rightarrow> string \<Rightarrow> string \<Rightarrow> shares \<Rightarrow> (ShareError, shares) res" where
  "shares_init asset_decimals name symbol s =
    and_then (u32_add asset_decimals DECIMALS_OFFSET) (\<lambda>d.
    and_then (share_price 0 0) (\<lambda>p.
      Inr (set_hwm p (init_meta d name symbol s))))"

definition snapshot :: "int \<Rightarrow> nat \<Rightarrow> shares \<Rightarrow> (ShareError, Snapshot) res" where
  "snapshot nav fee_bps s =
    (let minted = share_supply s; mark = hwm s in
     and_then (share_price nav minted) (\<lambda>now.
     and_then
       (if mark < now \<and> 0 < fee_bps \<and> 0 < minted
        then and_then (i128_sub now mark) (\<lambda>rise.
             and_then (i128_add minted VIRTUAL) (\<lambda>spl.
             and_then (md rise spl ONE) (\<lambda>gain.
             and_then (md gain (int fee_bps) BPS) (\<lambda>fee.
               if 0 < fee \<and> fee \<le> nav
               then and_then (i128_add nav 1) (\<lambda>n1.
                    and_then (i128_sub n1 fee) (\<lambda>rest. md fee spl rest))
               else Inr 0))))
        else Inr 0) (\<lambda>fee_shares.
     and_then (i128_add minted fee_shares) (\<lambda>total.
     and_then (if mark < now then share_price nav total else Inr mark) (\<lambda>new_hwm.
       Inr \<lparr>sn_nav = nav, sn_supply = total, sn_fee_shares = fee_shares, sn_hwm = new_hwm\<rparr>)))))"

definition accrue :: "int \<Rightarrow> nat \<Rightarrow> address \<Rightarrow> shares \<Rightarrow> (ShareError, Snapshot \<times> shares) res" where
  "accrue nav fee_bps curator s =
    and_then (snapshot nav fee_bps s) (\<lambda>snap.
    and_then (mint curator (sn_fee_shares snap) s) (\<lambda>s.
      Inr (snap, set_hwm (sn_hwm snap) s)))"

definition to_shares :: "Snapshot \<Rightarrow> int \<Rightarrow> bool \<Rightarrow> (ShareError, int) res" where
  "to_shares snap assets up =
    and_then (i128_add (sn_supply snap) VIRTUAL) (\<lambda>spl.
    and_then (i128_add (sn_nav snap) 1) (\<lambda>nav.
      (if up then md_up else md) assets spl nav))"

definition to_assets :: "Snapshot \<Rightarrow> int \<Rightarrow> bool \<Rightarrow> (ShareError, int) res" where
  "to_assets snap shrs up =
    and_then (i128_add (sn_nav snap) 1) (\<lambda>nav.
    and_then (i128_add (sn_supply snap) VIRTUAL) (\<lambda>spl.
      (if up then md_up else md) shrs nav spl))"

text \<open>The SEP-41 entry points that \<open>share_token!\<close> expands to.\<close>

definition token_approve_entry :: "env \<Rightarrow> address \<Rightarrow> address \<Rightarrow> int \<Rightarrow> nat \<Rightarrow> shares \<Rightarrow> (ShareError, shares) res" where
  "token_approve_entry e from spender amount expiration_ledger s =
    and_then (require_auth e from) (\<lambda>_. approve e from spender amount expiration_ledger s)"

definition token_transfer_entry :: "env \<Rightarrow> address \<Rightarrow> address \<Rightarrow> int \<Rightarrow> shares \<Rightarrow> (ShareError, shares) res" where
  "token_transfer_entry e from to amount s =
    and_then (require_auth e from) (\<lambda>_. transfer e from to amount s)"

definition token_transfer_from_entry :: "env \<Rightarrow> address \<Rightarrow> address \<Rightarrow> address \<Rightarrow> int \<Rightarrow> shares \<Rightarrow>
    (ShareError, shares) res" where
  "token_transfer_from_entry e spender from to amount s =
    and_then (require_auth e spender) (\<lambda>_.
    and_then (spend_allowance e from spender amount s) (\<lambda>s. transfer e from to amount s))"

definition token_burn_entry :: "env \<Rightarrow> address \<Rightarrow> int \<Rightarrow> shares \<Rightarrow> (ShareError, shares) res" where
  "token_burn_entry e from amount s =
    and_then (require_auth e from) (\<lambda>_. burn from amount s)"

definition token_burn_from_entry :: "env \<Rightarrow> address \<Rightarrow> address \<Rightarrow> int \<Rightarrow> shares \<Rightarrow> (ShareError, shares) res" where
  "token_burn_from_entry e spender from amount s =
    and_then (require_auth e spender) (\<lambda>_.
    and_then (spend_allowance e from spender amount s) (\<lambda>s. burn from amount s))"

subsection \<open>The ledger invariant\<close>

definition shares_inv :: "shares \<Rightarrow> bool" where
  "shares_inv s \<longleftrightarrow> finite (dom (sh_balances s)) \<and> (\<forall>a. 0 \<le> balance s a) \<and>
     total_over (dom (sh_balances s)) (balance s) = share_supply s"

lemma md_Inr_iff [rs]:
  "md a b d = Inr q \<longleftrightarrow> mul_div a b d = Inr q"
  "md_up a b d = Inr q \<longleftrightarrow> mul_div_ceil a b d = Inr q"
  by (simp_all add: md_def md_up_def checked_math_Inr_iff)

lemma balance_simps [simp]:
  "balance (set_balance a v s) = (balance s)(a := v)"
  "balance (set_supply v s) = balance s"
  "balance (set_hwm v s) = balance s"
  "balance (s\<lparr>sh_allowances := al\<rparr>) = balance s"
  by (auto simp: balance_def set_balance_def set_supply_def set_hwm_def fun_eq_iff)

lemma supply_simps [simp]:
  "share_supply (set_balance a v s) = share_supply s"
  "share_supply (set_supply v s) = v"
  "share_supply (set_hwm v s) = share_supply s"
  "share_supply (s\<lparr>sh_allowances := al\<rparr>) = share_supply s"
  by (auto simp: share_supply_def set_balance_def set_supply_def set_hwm_def)

lemma sh_balances_simps [simp]:
  "sh_balances (set_balance a v s) = (sh_balances s)(a \<mapsto> v)"
  "sh_balances (set_supply v s) = sh_balances s"
  "sh_balances (set_hwm v s) = sh_balances s"
  by (simp_all add: set_balance_def set_supply_def set_hwm_def)

lemma total_set_balance:
  assumes "finite (dom (sh_balances s))"
  shows "total_over (dom (sh_balances (set_balance a v s))) (balance (set_balance a v s)) =
     total_over (dom (sh_balances s)) (balance s) - balance s a + v"
proof -
  let ?D = "dom (sh_balances s)"
  have "total_over (insert a ?D) ((balance s)(a := v)) = total_over (insert a ?D) (balance s) - balance s a + v"
    using assms by (intro total_over_upd) auto
  moreover have "total_over (insert a ?D) (balance s) = total_over ?D (balance s)"
    using assms by (intro total_over_extend) (auto simp: balance_def domIff)
  ultimately show ?thesis by simp
qed

lemma shares_inv_set_balance:
  assumes "shares_inv s" "0 \<le> v"
  shows "finite (dom (sh_balances (set_balance a v s)))"
    "\<forall>c. 0 \<le> balance (set_balance a v s) c"
    "total_over (dom (sh_balances (set_balance a v s))) (balance (set_balance a v s)) =
       share_supply s - balance s a + v"
  using assms total_set_balance [of s a v] by (auto simp: shares_inv_def)

lemma shares_inv_supply_le: "shares_inv s \<Longrightarrow> balance s a \<le> share_supply s"
proof -
  assume inv: "shares_inv s"
  show ?thesis
  proof (cases "a \<in> dom (sh_balances s)")
    case True
    with inv show ?thesis
      using total_over_ge [of "dom (sh_balances s)" a "balance s"] by (simp add: shares_inv_def)
  next
    case False
    then have "balance s a = 0" by (simp add: balance_def domIff)
    moreover have "0 \<le> share_supply s"
      using inv sum_nonneg [of "dom (sh_balances s)" "balance s"]
      by (simp add: shares_inv_def total_over_def)
    ultimately show ?thesis by simp
  qed
qed

text \<open>Two writes, as every moving operation makes.\<close>

lemma shares_inv_two_writes:
  assumes "shares_inv s" "0 \<le> x" "x \<le> balance s a"
  shows "shares_inv (set_balance b ((balance (set_balance a (balance s a - x) s)) b + x)
           (set_balance a (balance s a - x) s))"
proof -
  let ?s = "set_balance a (balance s a - x) s"
  have s: "finite (dom (sh_balances ?s))" "\<forall>c. 0 \<le> balance ?s c"
    "total_over (dom (sh_balances ?s)) (balance ?s) = share_supply s - x"
    using shares_inv_set_balance [OF assms(1), of "balance s a - x" a] assms(3) by simp_all
  have "0 \<le> balance (set_balance b (balance ?s b + x) ?s) c" for c
    using s(2) assms(2) by (auto simp: fun_upd_def add_nonneg_nonneg)
  with s(1,3) show ?thesis
    using total_set_balance [OF s(1), of b "balance ?s b + x"]
    unfolding shares_inv_def by simp
qed

lemma shares_inv_mint:
  assumes "shares_inv s" "mint to x s = Inr s'" "0 \<le> x"
  shows "shares_inv s'"
proof -
  have s': "s' = set_supply (share_supply s + x) (set_balance to (balance s to + x) s)"
    using assms(2) by (auto simp: mint_def rs)
  have "0 \<le> balance s to + x"
    using assms by (auto simp: shares_inv_def)
  from shares_inv_set_balance [OF assms(1) this, of to] show ?thesis
    by (simp add: s' shares_inv_def)
qed

lemma debit_Inr_iff [rs]:
  "debit a x s = Inr s' \<longleftrightarrow> 0 \<le> x \<and> \<not> is_frozen s a \<and> x \<le> balance s a \<and> is_i128 (balance s a - x) \<and>
     s' = set_balance a (balance s a - x) s"
  by (auto simp: debit_def Let_def rs)

lemma shares_inv_burn:
  assumes "shares_inv s" "burn a x s = Inr s'"
  shows "shares_inv s'"
proof -
  have s': "s' = set_supply (share_supply s - x) (set_balance a (balance s a - x) s)" and "x \<le> balance s a"
    using assms(2) by (auto simp: burn_def rs)
  then have "0 \<le> balance s a - x" by simp
  from shares_inv_set_balance [OF assms(1) this, of a] show ?thesis
    by (simp add: s' shares_inv_def)
qed

lemma transfer_Inr:
  assumes "transfer e a b x s = Inr s'"
  shows "0 \<le> x" "x \<le> balance s a" "admitted e s b" "\<not> is_frozen s a" "\<not> is_frozen s b"
    "s' = set_balance b ((balance (set_balance a (balance s a - x) s)) b + x)
            (set_balance a (balance s a - x) s)"
  using assms by (auto simp: transfer_def rs)

lemma shares_inv_transfer: "shares_inv s \<Longrightarrow> transfer e a b x s = Inr s' \<Longrightarrow> shares_inv s'"
  using transfer_Inr [of e a b x s s'] shares_inv_two_writes [of s x a b] by simp

lemma shares_inv_seize: "shares_inv s \<Longrightarrow> seize a b x s = Inr s' \<Longrightarrow> shares_inv s'"
  using shares_inv_two_writes [of s x a b] by (auto simp: seize_def Let_def rs split: if_splits)

lemma shares_inv_spend: "shares_inv s \<Longrightarrow> spend_allowance e a p x s = Inr s' \<Longrightarrow> shares_inv s'"
  by (auto simp: spend_allowance_def Let_def rs shares_inv_def share_supply_def)

lemma shares_inv_approve: "shares_inv s \<Longrightarrow> approve e a p x u s = Inr s' \<Longrightarrow> shares_inv s'"
  by (auto simp: approve_def rs shares_inv_def share_supply_def)

subsection \<open>The share ledger is a SEP-41 token\<close>

lemma transfer_moves_balance:
  "transfer e a b x s = Inr s' \<Longrightarrow> 0 \<le> x \<and> x \<le> balance s a \<and> balance s' = moved a b x (balance s)"
  using transfer_Inr [of e a b x s s'] by (auto simp: moved_def fun_eq_iff)

lemma spend_allowance_keeps: "spend_allowance e a p x s = Inr s' \<Longrightarrow> balance s' = balance s"
  by (auto simp: spend_allowance_def Let_def rs)

interpretation share: sep41_token balance token_transfer_entry token_transfer_from_entry token_approve_entry
proof
  fix e a b x s s'
  assume "token_transfer_entry e a b x s = Inr s'"
  then show "authorised e a \<and> 0 \<le> x \<and> x \<le> balance s a \<and> balance s' = moved a b x (balance s)"
    using transfer_moves_balance by (auto simp: token_transfer_entry_def rs)
next
  fix e p a b x s s'
  assume "token_transfer_from_entry e p a b x s = Inr s'"
  then show "authorised e p \<and> 0 \<le> x \<and> x \<le> balance s a \<and> balance s' = moved a b x (balance s)"
    using transfer_moves_balance spend_allowance_keeps
    by (fastforce simp: token_transfer_from_entry_def rs)
next
  fix e a p x u s s'
  assume "token_approve_entry e a p x u s = Inr s'"
  then show "authorised e a \<and> balance s' = balance s"
    by (auto simp: token_approve_entry_def approve_def rs)
qed

subsection \<open>Operations as steps\<close>

text \<open>What an issuer and its holders can do to the ledger.\<close>

datatype share_op = Op_mint address int | Op_accrue int nat address | Op_burn address int
  | Op_transfer address address int | Op_transfer_from address address address int
  | Op_burn_from address address int | Op_approve address address int nat
  | Op_seize address address int | Op_member address bool | Op_freeze address bool | Op_allowlist bool

definition share_step :: "env \<Rightarrow> share_op \<Rightarrow> shares \<Rightarrow> (ShareError, shares) res" where
  "share_step e op s = (case op of
      Op_mint a x \<Rightarrow> mint a x s
    | Op_accrue nav fee_bps curator \<Rightarrow> and_then (accrue nav fee_bps curator s) (\<lambda>(_, s). Inr s)
    | Op_burn a x \<Rightarrow> token_burn_entry e a x s
    | Op_transfer a b x \<Rightarrow> token_transfer_entry e a b x s
    | Op_transfer_from p a b x \<Rightarrow> token_transfer_from_entry e p a b x s
    | Op_burn_from p a x \<Rightarrow> token_burn_from_entry e p a x s
    | Op_approve a p x u \<Rightarrow> token_approve_entry e a p x u s
    | Op_seize a b x \<Rightarrow> seize a b x s
    | Op_member a b \<Rightarrow> Inr (set_member a b s)
    | Op_freeze a b \<Rightarrow> Inr (set_frozen a b s)
    | Op_allowlist b \<Rightarrow> Inr (set_allowlist b s))"

inductive share_reachable :: "shares \<Rightarrow> bool" where
  fresh: "shares_init d n y sh_empty = Inr s \<Longrightarrow> share_reachable s"
| step: "share_reachable s \<Longrightarrow> share_step e op s = Inr s' \<Longrightarrow>
    (\<And>a x. op = Op_mint a x \<Longrightarrow> 0 \<le> x) \<Longrightarrow> share_reachable s'"

text \<open>The fee of a snapshot as a function of its own, and the snapshot with its conditions flattened.\<close>

lemma share_price_Inr:
  "share_price nav spl = Inr q \<Longrightarrow> 0 \<le> nav + 1 \<and> 0 < spl + VIRTUAL \<and> q = (nav + 1) * ONE div (spl + VIRTUAL)"
  by (auto simp: share_price_def rs)

definition fee_due :: "int \<Rightarrow> nat \<Rightarrow> int \<Rightarrow> int" where
  "fee_due rise fee_bps S = (rise * S div ONE) * int fee_bps div BPS"

lemma snapshot_Inr:
  assumes "snapshot nav fee_bps s = Inr p"
  obtains now where "share_price nav (share_supply s) = Inr now"
    "sn_nav p = nav" "sn_supply p = share_supply s + sn_fee_shares p"
    "if hwm s < now then share_price nav (sn_supply p) = Inr (sn_hwm p) else sn_hwm p = hwm s"
    "sn_fee_shares p = 0 \<or>
      (let S = share_supply s + VIRTUAL; fee = fee_due (now - hwm s) fee_bps S in
       hwm s < now \<and> 0 < fee \<and> fee \<le> nav \<and> sn_fee_shares p = fee * S div (nav + 1 - fee))"
proof -
  from assms obtain now where now: "share_price nav (share_supply s) = Inr now"
    by (auto simp: snapshot_def Let_def rs)
  show thesis
  proof (rule that [OF now])
    show "sn_nav p = nav" "sn_supply p = share_supply s + sn_fee_shares p"
      "if hwm s < now then share_price nav (sn_supply p) = Inr (sn_hwm p) else sn_hwm p = hwm s"
      using assms now by (auto simp: snapshot_def Let_def and_then_Inr_iff i128_ops_Inr_iff split: if_splits)
    show "sn_fee_shares p = 0 \<or>
      (let S = share_supply s + VIRTUAL; fee = fee_due (now - hwm s) fee_bps S in
       hwm s < now \<and> 0 < fee \<and> fee \<le> nav \<and> sn_fee_shares p = fee * S div (nav + 1 - fee))"
      using assms now
      by (auto simp: snapshot_def Let_def rs fee_due_def split: if_splits)
  qed
qed

lemma snapshot_fee_nonneg:
  assumes "snapshot nav fee_bps s = Inr p"
  shows "0 \<le> sn_fee_shares p"
proof -
  from assms obtain now where now: "share_price nav (share_supply s) = Inr now"
    and fee: "sn_fee_shares p = 0 \<or>
      (let S = share_supply s + VIRTUAL; fee = fee_due (now - hwm s) fee_bps S in
       hwm s < now \<and> 0 < fee \<and> fee \<le> nav \<and> sn_fee_shares p = fee * S div (nav + 1 - fee))"
    by (rule snapshot_Inr)
  from share_price_Inr [OF now] fee show ?thesis
    by (auto simp: Let_def pos_imp_zdiv_nonneg_iff)
qed

text \<open>Shares minted for a fee dilute the others by no more than the fee.\<close>

lemma fee_dilution:
  fixes fee S N :: int
  assumes "0 < S" "0 < fee" "fee < N"
  shows "(S + fee * S div (N - fee)) * (N - fee) \<le> S * N"
    and "(fee * S div (N - fee)) * N \<le> fee * (S + fee * S div (N - fee))"
proof -
  have "(fee * S div (N - fee)) * (N - fee) \<le> fee * S"
    using assms by (intro floor_div_mult_le) simp
  then show "(S + fee * S div (N - fee)) * (N - fee) \<le> S * N"
    and "(fee * S div (N - fee)) * N \<le> fee * (S + fee * S div (N - fee))"
    by (simp_all add: algebra_simps)
qed

lemma fee_due_le:
  assumes "0 \<le> rise" "0 < S" "fee_bps \<le> 10000"
  shows "fee_due rise fee_bps S * ONE \<le> rise * S"
proof -
  have gain: "rise * S div ONE * ONE \<le> rise * S"
    by (rule floor_div_mult_le) (simp add: ONE_def)
  have "fee_due rise fee_bps S \<le> rise * S div ONE"
    unfolding fee_due_def using assms
    by (intro floor_fraction_le) (auto simp: BPS_def ONE_def pos_imp_zdiv_nonneg_iff)
  then have "fee_due rise fee_bps S * ONE \<le> rise * S div ONE * ONE"
    by (simp add: ONE_def)
  with gain show ?thesis by linarith
qed

lemma hwm_kept_by_fee:
  fixes mark now N S fee :: int
  assumes S: "0 < S" and "mark < now" and now: "now * S \<le> N * ONE"
    and fee: "0 < fee" "fee < N" "fee * ONE \<le> (now - mark) * S"
  shows "mark \<le> N * ONE div (S + fee * S div (N - fee))"
proof -
  let ?T = "S + fee * S div (N - fee)"
  have T: "0 < ?T" using S fee by (simp add: add_pos_nonneg pos_imp_zdiv_nonneg_iff)
  have "mark * S \<le> (N - fee) * ONE"
    using now fee(3) by (simp add: algebra_simps)
  then have "mark * S * ?T \<le> (N - fee) * ONE * ?T"
    using T by (intro mult_right_mono) auto
  also have "\<dots> = ONE * (?T * (N - fee))" by (simp add: algebra_simps)
  also have "\<dots> \<le> ONE * (S * N)"
    using fee_dilution(1) [OF S fee(1,2)] by (intro mult_left_mono) (auto simp: ONE_def)
  finally have "S * (mark * ?T) \<le> S * (N * ONE)" by (simp add: algebra_simps)
  with S have "mark * ?T \<le> N * ONE" by simp
  with T show ?thesis by (simp add: floor_div_le_iff)
qed

lemma snapshot_hwm_mono:
  assumes "snapshot nav fee_bps s = Inr p" "fee_bps \<le> 10000"
  shows "hwm s \<le> sn_hwm p"
proof -
  let ?S = "share_supply s + VIRTUAL"
  from assms(1) obtain now where now: "share_price nav (share_supply s) = Inr now"
    and total: "sn_supply p = share_supply s + sn_fee_shares p"
    and mark: "if hwm s < now then share_price nav (sn_supply p) = Inr (sn_hwm p) else sn_hwm p = hwm s"
    and fee: "sn_fee_shares p = 0 \<or>
      (let S = ?S; fee = fee_due (now - hwm s) fee_bps S in
       hwm s < now \<and> 0 < fee \<and> fee \<le> nav \<and> sn_fee_shares p = fee * S div (nav + 1 - fee))"
    by (rule snapshot_Inr)
  have S: "0 < ?S" and now': "now = (nav + 1) * ONE div ?S"
    using share_price_Inr [OF now] by auto
  show ?thesis
  proof (cases "hwm s < now \<and> sn_fee_shares p \<noteq> 0")
    case True
    let ?fee = "fee_due (now - hwm s) fee_bps ?S"
    have f: "0 < ?fee" "?fee < nav + 1" "sn_fee_shares p = ?fee * ?S div (nav + 1 - ?fee)"
      using True fee by (auto simp: Let_def)
    have "now * ?S \<le> (nav + 1) * ONE"
      unfolding now' by (rule floor_div_mult_le [OF S])
    moreover have "?fee * ONE \<le> (now - hwm s) * ?S"
      using True assms(2) S by (intro fee_due_le) auto
    ultimately have "hwm s \<le> (nav + 1) * ONE div (?S + ?fee * ?S div (nav + 1 - ?fee))"
      using True S f by (intro hwm_kept_by_fee) auto
    moreover have "sn_hwm p = (nav + 1) * ONE div (?S + ?fee * ?S div (nav + 1 - ?fee))"
      using True mark total f(3) share_price_Inr [of nav "sn_supply p" "sn_hwm p"] by (simp add: algebra_simps)
    ultimately show ?thesis by simp
  next
    case False
    with mark total now show ?thesis by (auto split: if_splits)
  qed
qed

lemma snapshot_fee_value:
  assumes "snapshot nav fee_bps s = Inr p" "0 < sn_fee_shares p"
    "share_price nav (share_supply s) = Inr now" "to_assets p (sn_fee_shares p) False = Inr v"
  shows "v \<le> fee_due (now - hwm s) fee_bps (share_supply s + VIRTUAL)" "v \<le> nav"
proof -
  let ?S = "share_supply s + VIRTUAL" and ?fee = "fee_due (now - hwm s) fee_bps (share_supply s + VIRTUAL)"
  from assms(1) obtain now2 where "share_price nav (share_supply s) = Inr now2" "sn_nav p = nav"
      "sn_supply p = share_supply s + sn_fee_shares p"
    and "sn_fee_shares p = 0 \<or>
      (let S = ?S; fee = fee_due (now2 - hwm s) fee_bps S in
       hwm s < now2 \<and> 0 < fee \<and> fee \<le> nav \<and> sn_fee_shares p = fee * S div (nav + 1 - fee))"
    by (rule snapshot_Inr)
  with assms(2,3) have f: "0 < ?fee" "?fee \<le> nav" "sn_fee_shares p = ?fee * ?S div (nav + 1 - ?fee)"
    and nav: "sn_nav p = nav" "sn_supply p = share_supply s + sn_fee_shares p"
    by (auto simp: Let_def)
  have S: "0 < ?S" using share_price_Inr [OF assms(3)] by simp
  have v: "v = sn_fee_shares p * (nav + 1) div (?S + sn_fee_shares p)" "0 < ?S + sn_fee_shares p"
    using assms(4) nav by (auto simp: to_assets_def rs algebra_simps)
  have "v * (?S + sn_fee_shares p) \<le> sn_fee_shares p * (nav + 1)"
    using v by (simp add: floor_div_mult_le)
  also have "\<dots> \<le> ?fee * (?S + sn_fee_shares p)"
    using fee_dilution(2) [of ?S ?fee "nav + 1"] S f by simp
  finally show "v \<le> ?fee" using v(2) by simp
  with f(2) show "v \<le> nav" by simp
qed

subsection \<open>The invariant over every operation\<close>

lemma accrue_Inr:
  assumes "accrue nav fee_bps c s = Inr (p, s')"
  obtains s1 where "snapshot nav fee_bps s = Inr p" "mint c (sn_fee_shares p) s = Inr s1"
    "s' = set_hwm (sn_hwm p) s1"
  using assms by (auto simp: accrue_def rs)

lemma shares_inv_hwm [simp]: "shares_inv (set_hwm v s) = shares_inv s"
  by (simp add: shares_inv_def)

lemma shares_inv_accrue:
  assumes "shares_inv s" "accrue nav fee_bps c s = Inr (p, s')"
  shows "shares_inv s'"
  using assms(2)
proof (rule accrue_Inr)
  fix s1 assume "snapshot nav fee_bps s = Inr p" "mint c (sn_fee_shares p) s = Inr s1"
    "s' = set_hwm (sn_hwm p) s1"
  with assms(1) show ?thesis
    using shares_inv_mint snapshot_fee_nonneg by auto
qed

lemma shares_inv_cong:
  assumes "sh_balances s' = sh_balances s" "sh_supply s' = sh_supply s"
  shows "shares_inv s' = shares_inv s"
proof -
  have "balance s' = balance s" using assms by (simp add: balance_def fun_eq_iff)
  with assms show ?thesis by (simp add: shares_inv_def share_supply_def)
qed

lemma shares_inv_flags [simp]:
  "shares_inv (set_member a b s) = shares_inv s"
  "shares_inv (set_frozen a b s) = shares_inv s"
  "shares_inv (set_allowlist b s) = shares_inv s"
  by (rule shares_inv_cong; simp add: set_member_def set_frozen_def set_allowlist_def)+

lemmas shares_inv_ops = shares_inv_mint shares_inv_burn shares_inv_transfer shares_inv_seize
  shares_inv_spend shares_inv_approve shares_inv_accrue

lemma shares_inv_step:
  assumes "shares_inv s" "share_step e op s = Inr s'" "\<And>a x. op = Op_mint a x \<Longrightarrow> 0 \<le> x"
  shows "shares_inv s'"
  using assms(2,3)
  by (cases op) (auto simp: share_step_def rs token_burn_entry_def token_burn_from_entry_def
      token_transfer_entry_def token_transfer_from_entry_def token_approve_entry_def
      split: prod.splits intro: shares_inv_ops [OF assms(1)] shares_inv_burn shares_inv_transfer
      simp: assms(1) dest: shares_inv_spend [OF assms(1)])

lemma shares_inv_init: "shares_init d n y sh_empty = Inr s \<Longrightarrow> shares_inv s"
  by (auto simp: shares_init_def rs shares_inv_def init_meta_def set_hwm_def sh_empty_def balance_def
      share_supply_def total_over_def)

lemma entry_keeps_inv:
  assumes "shares_inv s"
  shows "token_transfer_entry e a b x s = Inr s' \<Longrightarrow> shares_inv s'"
    "token_transfer_from_entry e p a b x s = Inr s' \<Longrightarrow> shares_inv s'"
    "token_approve_entry e a p x u s = Inr s' \<Longrightarrow> shares_inv s'"
    "token_burn_entry e a x s = Inr s' \<Longrightarrow> shares_inv s'"
    "token_burn_from_entry e p a x s = Inr s' \<Longrightarrow> shares_inv s'"
  using shares_inv_step [OF assms, of e "Op_transfer a b x" s'] shares_inv_step [OF assms, of e "Op_transfer_from p a b x" s']
    shares_inv_step [OF assms, of e "Op_approve a p x u" s'] shares_inv_step [OF assms, of e "Op_burn a x" s']
    shares_inv_step [OF assms, of e "Op_burn_from p a x" s']
  by (simp_all add: share_step_def)

subsection \<open>Fair prices\<close>

text \<open>
  At a snapshot \<open>p\<close> a share is worth \<open>(nav + 1) / (supply + VIRTUAL)\<close>. An entry is fair to the holders when
  the shares minted are worth no more than the assets paid in, an exit when the assets paid out are worth
  no more than the shares burned.
\<close>

definition fair_entry :: "Snapshot \<Rightarrow> int \<Rightarrow> int \<Rightarrow> bool" where
  "fair_entry p assets shrs \<longleftrightarrow> shrs * (sn_nav p + 1) \<le> assets * (sn_supply p + VIRTUAL)"

definition fair_exit :: "Snapshot \<Rightarrow> int \<Rightarrow> int \<Rightarrow> bool" where
  "fair_exit p assets shrs \<longleftrightarrow> assets * (sn_supply p + VIRTUAL) \<le> shrs * (sn_nav p + 1)"

lemma conversions_fair:
  "to_shares p a False = Inr x \<Longrightarrow> fair_entry p a x"
  "to_assets p x True = Inr a \<Longrightarrow> fair_entry p a x"
  "to_shares p a True = Inr x \<Longrightarrow> fair_exit p a x"
  "to_assets p x False = Inr a \<Longrightarrow> fair_exit p a x"
  by (auto simp: to_shares_def to_assets_def rs fair_entry_def fair_exit_def floor_div_mult_le ceil_div_mult_ge)

text \<open>Leaving: an operator's allowance is spent, if it is not the holder, and the holder's shares are burned.\<close>

lemma leave_shares:
  assumes "if operator = holder then sh0 = sh else spend_allowance e holder operator burned sh = Inr sh0"
    and "burn holder burned sh0 = Inr sh'"
  shows "share_supply sh' = share_supply sh - burned"
    "balance sh' = (balance sh)(holder := balance sh holder - burned)"
    "operator = holder \<or> burned \<le> allowance e holder operator sh"
proof -
  have "share_supply sh0 = share_supply sh" "balance sh0 = balance sh"
    using assms(1) by (auto simp: spend_allowance_def Let_def rs split: if_splits)
  with assms(2) show "share_supply sh' = share_supply sh - burned"
    "balance sh' = (balance sh)(holder := balance sh holder - burned)"
    by (auto simp: burn_def rs)
  show "operator = holder \<or> burned \<le> allowance e holder operator sh"
    using assms(1) by (auto simp: spend_allowance_def Let_def rs split: if_splits)
qed

lemma accrue_supply:
  assumes "accrue nav fee_bps c s = Inr (p, s')"
  shows "snapshot nav fee_bps s = Inr p" "share_supply s' = sn_supply p"
proof -
  from assms obtain s1 where sn: "snapshot nav fee_bps s = Inr p"
    and m: "mint c (sn_fee_shares p) s = Inr s1" "s' = set_hwm (sn_hwm p) s1"
    by (rule accrue_Inr)
  have "sn_supply p = share_supply s + sn_fee_shares p" using sn by (rule snapshot_Inr)
  with m show "share_supply s' = sn_supply p" by (auto simp: mint_def rs)
  show "snapshot nav fee_bps s = Inr p" by (rule sn)
qed

text \<open>
  What nobody else can do to a holder that signs nothing and has approved nobody: lower its balance, or give
  an allowance on it.
\<close>

definition spares :: "address \<Rightarrow> shares \<Rightarrow> shares \<Rightarrow> bool" where
  "spares me s s' \<longleftrightarrow> ((\<forall>p. sh_allowances s (me, p) = None) \<longrightarrow>
     (\<forall>p. sh_allowances s' (me, p) = None) \<and> balance s me \<le> balance s' me)"

lemma sh_allowances_simps [simp]:
  "sh_allowances (set_balance a v s) = sh_allowances s"
  "sh_allowances (set_supply v s) = sh_allowances s"
  "sh_allowances (set_hwm v s) = sh_allowances s"
  "sh_allowances (set_member a b s) = sh_allowances s"
  "sh_allowances (set_allowlist b s) = sh_allowances s"
  by (simp_all add: set_balance_def set_supply_def set_hwm_def set_member_def set_allowlist_def)

lemma balance_flags [simp]:
  "balance (set_member a b s) = balance s"
  "balance (set_allowlist b s) = balance s"
  by (simp_all add: balance_def set_member_def set_allowlist_def fun_eq_iff)

lemma spares_refl [simp]: "spares me s s"
  by (simp add: spares_def)

lemma spares_trans: "spares me s s' \<Longrightarrow> spares me s' s'' \<Longrightarrow> spares me s s''"
  by (auto simp: spares_def)

lemma spares_flags [simp]: "spares me s (set_member a b s)" "spares me s (set_allowlist b s)"
  by (simp_all add: spares_def)

lemma spares_mint: "mint a x s = Inr s' \<Longrightarrow> 0 \<le> x \<Longrightarrow> spares me s s'"
  by (auto simp: mint_def rs spares_def)

lemma spares_accrue: "accrue nav bps c s = Inr (p, s') \<Longrightarrow> spares me s s'"
  by (erule accrue_Inr) (auto simp: mint_def rs spares_def snapshot_fee_nonneg)

lemma spares_burn: "burn a x s = Inr s' \<Longrightarrow> a \<noteq> me \<Longrightarrow> spares me s s'"
  by (auto simp: burn_def rs spares_def)

lemma spares_transfer: "transfer e a b x s = Inr s' \<Longrightarrow> a \<noteq> me \<Longrightarrow> spares me s s'"
  by (auto simp: transfer_def rs spares_def)

lemma spend_no_allowance: "sh_allowances s (a, p) = None \<Longrightarrow> spend_allowance e a p x s \<noteq> Inr s'"
  by (auto simp: spend_allowance_def Let_def rs)

lemma spares_spend: "spend_allowance e a p x s = Inr s' \<Longrightarrow> spares me s s'"
  by (auto simp: spend_allowance_def Let_def rs spares_def balance_def)

lemma spares_leave:
  assumes "if operator = holder then sh0 = sh else spend_allowance e holder operator x sh = Inr sh0"
    and "burn holder x sh0 = Inr sh'" "authorised e operator" "\<not> authorised e me"
  shows "spares me sh sh'"
proof (cases "holder = me")
  case True
  with assms(1,3,4) have "spend_allowance e me operator x sh = Inr sh0" by (auto split: if_splits)
  then have "sh_allowances sh (me, operator) \<noteq> None" using spend_no_allowance by blast
  then show ?thesis by (auto simp: spares_def)
next
  case False
  have "spares me sh sh0" using assms(1) spares_spend by (auto split: if_splits)
  with spares_burn [OF assms(2) False] show ?thesis by (rule spares_trans [rotated])
qed

lemma spares_from:
  assumes "spend_allowance e a p x s = Inr s1" "a \<noteq> me \<Longrightarrow> spares me s1 s'"
  shows "spares me s s'"
proof (cases "a = me")
  case True
  then have "sh_allowances s (me, p) \<noteq> None" using spend_no_allowance assms(1) by blast
  then show ?thesis by (auto simp: spares_def)
next
  case False
  from spares_trans [OF spares_spend [OF assms(1)] assms(2) [OF False]] show ?thesis .
qed

lemma spares_entries:
  assumes "\<not> authorised e me"
  shows "token_transfer_entry e a b x s = Inr s' \<Longrightarrow> spares me s s'"
    "token_transfer_from_entry e p a b x s = Inr s' \<Longrightarrow> spares me s s'"
    "token_approve_entry e a p x u s = Inr s' \<Longrightarrow> spares me s s'"
    "token_burn_entry e a x s = Inr s' \<Longrightarrow> spares me s s'"
    "token_burn_from_entry e p a x s = Inr s' \<Longrightarrow> spares me s s'"
  using assms
  by (auto simp: token_transfer_entry_def token_transfer_from_entry_def token_burn_entry_def token_burn_from_entry_def rs
      intro: spares_transfer spares_burn spares_from)
    (auto simp: token_approve_entry_def approve_def rs spares_def balance_def)

text \<open>A transfer the balance covers, between two holders that may move shares, never fails.\<close>

lemma transfer_succeeds:
  assumes "shares_inv s" "is_i128 (share_supply s)" "0 \<le> x" "x \<le> balance s a" "a \<noteq> b"
    and "admitted e s b" "\<not> is_frozen s b" "\<not> is_frozen s a"
  shows "\<exists>s'. transfer e a b x s = Inr s'"
proof -
  have le: "balance s c \<le> i128_max" "0 \<le> balance s c" for c
    using shares_inv_supply_le [OF assms(1), of c] assms(1,2) by (auto simp: is_i128_def shares_inv_def)
  have "balance s b + x \<le> share_supply s"
    using shares_inv_supply_le [OF shares_inv_two_writes [OF assms(1,3,4), of b], of b] assms(5) by simp
  then have "is_i128 (balance s a - x)" "is_i128 (balance s b + x)"
    using le [of a] le [of b] assms(2-4) by (auto simp: width_defs)
  with assms show ?thesis
    by (auto simp: transfer_def debit_def Let_def i128_sub_def i128_add_def i128_checked_def)
qed

lemma round_trip_le: "x \<le> a * d \<Longrightarrow> 0 < d \<Longrightarrow> x div d \<le> (a::int)"
  using zdiv_mono1 [of x "a * d" d] by simp

subsection \<open>Properties\<close>

text \<open>
  In every state the issuer and the holders can reach from a fresh ledger, in any order
  of mints, fee accruals, burns, transfers, approvals, seizures, freezes and allowlist changes, no
  balance is negative, no balance exceeds the supply and the supply is the sum of all balances.
\<close>

theorem share_ledger_invariant:
  assumes "share_reachable s"
  shows "shares_inv s \<and> (\<forall>a. balance s a \<le> share_supply s)"
proof -
  from assms have "shares_inv s"
    by induction (auto intro: shares_inv_init shares_inv_step)
  then show ?thesis using shares_inv_supply_le by blast
qed

theorem share_ledger_invariant_witness:
  "\<exists>s. share_reachable s \<and> share_supply s = 70 \<and> balance s alice = 70 \<and> shares_inv s"
proof -
  let ?s0 = "set_hwm 1000000000000 (init_meta 13 ''vault'' ''v'' sh_empty)"
  let ?s1 = "set_supply 100 (set_balance alice 100 ?s0)"
  let ?s2 = "set_supply 70 (set_balance alice 70 ?s1)"
  have "shares_init 7 ''vault'' ''v'' sh_empty = Inr ?s0"
    by (simp add: shares_init_def share_price_def md_def checked_math_def mul_div_def mul_div_round_floor
        ONE_def VIRTUAL_def DECIMALS_OFFSET_def arith_defs width_defs)
  then have "share_reachable ?s0" by (rule share_reachable.fresh)
  moreover have "share_step (demo_env 1) (Op_mint alice 100) ?s0 = Inr ?s1"
    by (simp add: share_step_def mint_def arith_defs width_defs balance_def share_supply_def
        init_meta_def sh_empty_def set_balance_def set_supply_def set_hwm_def)
  ultimately have "share_reachable ?s1" by (rule share_reachable.step) simp
  moreover have "share_step (demo_env 2) (Op_burn alice 30) ?s1 = Inr ?s2"
    by (simp add: share_step_def token_burn_entry_def burn_def debit_def Let_def arith_defs width_defs
        is_frozen_def set_balance_def set_supply_def set_hwm_def init_meta_def sh_empty_def balance_def
        share_supply_def)
  ultimately have "share_reachable ?s2" by (rule share_reachable.step) simp
  with share_ledger_invariant [OF this] show ?thesis
    by (intro exI [of _ ?s2]) simp
qed

text \<open>
  Entering and leaving never profits: whoever deposits \<open>assets\<close>, is minted the shares the
  conversion gives (rounded down) and redeems them at once against the grown pool gets back at most
  what they put in; and minting exactly \<open>shrs\<close> for the assets asked (rounded up) and redeeming them
  gets back no more than was asked.
\<close>

theorem share_round_trip_no_profit:
  assumes "to_shares p assets False = Inr shrs" "0 \<le> assets"
    and "to_assets (p\<lparr>sn_nav := sn_nav p + assets, sn_supply := sn_supply p + shrs\<rparr>) shrs False = Inr got"
    and "to_assets p wanted True = Inr asked"
    and "to_assets (p\<lparr>sn_nav := sn_nav p + asked, sn_supply := sn_supply p + wanted\<rparr>) wanted False = Inr got2"
  shows "got \<le> assets \<and> got2 \<le> asked"
proof
  let ?N = "sn_nav p + 1" and ?S = "sn_supply p + VIRTUAL"
  have N: "0 < ?N" "0 \<le> ?S" and sh: "shrs = assets * ?S div ?N" and bk: "got = shrs * (?N + assets) div (?S + shrs)"
      "0 < ?S + shrs"
    using assms(1,3) by (auto simp: to_shares_def to_assets_def rs algebra_simps)
  have "shrs * ?N \<le> assets * ?S"
    unfolding sh by (rule floor_div_mult_le [OF N(1)])
  then have "shrs * (?N + assets) \<le> assets * (?S + shrs)"
    by (simp add: algebra_simps)
  then show "got \<le> assets"
    using bk by (simp add: round_trip_le)
next
  let ?N = "sn_nav p + 1" and ?S = "sn_supply p + VIRTUAL"
  have S: "0 < ?S" and asked: "asked = ceil_div (wanted * ?N) ?S"
      and bk: "got2 = wanted * (?N + asked) div (?S + wanted)" "0 < ?S + wanted"
    using assms(4,5) by (auto simp: to_shares_def to_assets_def rs algebra_simps)
  have "wanted * ?N \<le> asked * ?S"
    unfolding asked by (rule ceil_div_mult_ge [OF S])
  then have "wanted * (?N + asked) \<le> asked * (?S + wanted)"
    by (simp add: algebra_simps)
  then show "got2 \<le> asked"
    using bk by (simp add: round_trip_le)
qed

theorem share_round_trip_no_profit_witness:
  "(let p = \<lparr>sn_nav = 1000, sn_supply = 500, sn_fee_shares = 0, sn_hwm = 0\<rparr> in
     to_shares p 300 False = Inr 299850 \<and>
     to_assets (p\<lparr>sn_nav := 1300, sn_supply := 300350\<rparr>) 299850 False = Inr 299 \<and>
     to_assets p 7 True = Inr 1 \<and>
     to_assets (p\<lparr>sn_nav := 1001, sn_supply := 507\<rparr>) 7 False = Inr 0 \<and>
     (299::int) \<le> 300 \<and> (0::int) \<le> 1)"
proof -
  let ?p = "\<lparr>sn_nav = 1000, sn_supply = 500, sn_fee_shares = 0, sn_hwm = 0\<rparr>"
  have 1: "to_shares ?p 300 False = Inr 299850"
    "to_assets (?p\<lparr>sn_nav := sn_nav ?p + 300, sn_supply := sn_supply ?p + 299850\<rparr>) 299850 False = Inr 299"
    "to_assets ?p 7 True = Inr 1"
    "to_assets (?p\<lparr>sn_nav := sn_nav ?p + 1, sn_supply := sn_supply ?p + 7\<rparr>) 7 False = Inr 0"
    by (simp_all add: to_shares_def to_assets_def md_def md_up_def checked_math_def mul_div_def mul_div_ceil_def
        mul_div_round_floor mul_div_round_ceil ceil_div_def VIRTUAL_def arith_defs width_defs)
  from share_round_trip_no_profit [OF 1(1) _ 1(2) 1(3) 1(4)] 1 show ?thesis
    by (simp add: Let_def)
qed

text \<open>
  Accruing the performance fee never lowers the high-water mark (for a fee of at most
  100%), keeps the ledger invariant, and the shares it mints are worth, at the price after the mint, at
  most the fee due and at most the whole net asset value.
\<close>

theorem accrue_keeps_hwm:
  assumes "accrue nav fee_bps curator s = Inr (p, s')" "fee_bps \<le> 10000" "shares_inv s"
    and "share_price nav (share_supply s) = Inr now"
  shows "hwm s \<le> hwm s' \<and> shares_inv s' \<and> share_supply s' = sn_supply p \<and>
    (\<forall>v. 0 < sn_fee_shares p \<and> to_assets p (sn_fee_shares p) False = Inr v \<longrightarrow>
       v \<le> fee_due (now - hwm s) fee_bps (share_supply s + VIRTUAL) \<and> v \<le> nav)"
proof (intro conjI allI impI)
  from assms(1) obtain s1 where s1: "snapshot nav fee_bps s = Inr p"
      "mint curator (sn_fee_shares p) s = Inr s1" "s' = set_hwm (sn_hwm p) s1"
    by (rule accrue_Inr)
  then show "hwm s \<le> hwm s'"
    using snapshot_hwm_mono [OF s1(1) assms(2)] by (simp add: hwm_def set_hwm_def)
  show "shares_inv s'" using shares_inv_accrue assms(1,3) by blast
  show "share_supply s' = sn_supply p"
    using s1 by (auto simp: mint_def rs elim: snapshot_Inr)
  fix v assume "0 < sn_fee_shares p \<and> to_assets p (sn_fee_shares p) False = Inr v"
  then show "v \<le> fee_due (now - hwm s) fee_bps (share_supply s + VIRTUAL)" "v \<le> nav"
    using snapshot_fee_value [OF s1(1) _ assms(4)] by auto
qed

theorem accrue_keeps_hwm_witness:
  "(let s = set_hwm (10 ^ 18) (set_supply (10 ^ 6) (set_balance alice (10 ^ 6) sh_empty));
        p = \<lparr>sn_nav = 9999999, sn_supply = 1173913, sn_fee_shares = 173913, sn_hwm = 4600000092000001840\<rparr>;
        s' = set_hwm 4600000092000001840 (set_supply 1173913 (set_balance carol 173913 s)) in
      accrue 9999999 1000 carol s = Inr (p, s') \<and> to_assets p 173913 False = Inr 799999 \<and>
      fee_due (5 * 10 ^ 18 - hwm s) 1000 (share_supply s + VIRTUAL) = 800000 \<and>
      hwm s \<le> hwm s' \<and> shares_inv s' \<and> (799999::int) \<le> 800000)"
proof -
  let ?s = "set_hwm (10 ^ 18) (set_supply (10 ^ 6) (set_balance alice (10 ^ 6) sh_empty))"
  let ?p = "\<lparr>sn_nav = 9999999, sn_supply = 1173913, sn_fee_shares = 173913, sn_hwm = 4600000092000001840\<rparr>"
  let ?s' = "set_hwm 4600000092000001840 (set_supply 1173913 (set_balance carol 173913 ?s))"
  have price: "share_price 9999999 (share_supply ?s) = Inr (5 * 10 ^ 18)"
    and val: "to_assets ?p (sn_fee_shares ?p) False = Inr 799999"
    and acc: "accrue 9999999 1000 carol ?s = Inr (?p, ?s')"
    and fee: "fee_due (5 * 10 ^ 18 - hwm ?s) 1000 (share_supply ?s + VIRTUAL) = 800000"
    by (simp_all add: accrue_def snapshot_def mint_def share_price_def to_assets_def fee_due_def Let_def
        md_def checked_math_def mul_div_def mul_div_round_floor ONE_def VIRTUAL_def BPS_def arith_defs
        width_defs hwm_def balance_def share_supply_def set_hwm_def set_supply_def set_balance_def sh_empty_def)
  have inv: "shares_inv ?s"
    by (auto simp: shares_inv_def balance_def set_hwm_def set_supply_def set_balance_def sh_empty_def
        share_supply_def total_over_def)
  from accrue_keeps_hwm [OF acc _ inv price] val show ?thesis
    unfolding Let_def using acc fee by simp
qed

end
