(* ===== verification/Timelock.thy ===== *)
theory Timelock
  imports Prelude
begin

unbundle bit_operations_syntax

text \<open>
  \<open>crates/common/src/timelock.rs\<close>: submit, wait, accept for governed changes, with a guardian who can
  revoke. The change type is a parameter: each contract instantiates it with its own \<open>Change\<close> enum, so
  the stored \<open>Val\<close> always decodes. A run is the sequence of calls a contract's entry points make; a
  failing call reverts and leaves the state as it was.
\<close>

datatype TimelockError = NoPending | NotReady | NotGuardian

type_synonym kind = "32 word"

record 'c timelock =
  tl_delay :: "nat option"
  tl_guardian :: "address option"
  tl_pending :: "kind \<rightharpoonup> 'c \<times> nat"

definition tl_empty :: "'c timelock" where
  "tl_empty = \<lparr>tl_delay = None, tl_guardian = None, tl_pending = Map.empty\<rparr>"

definition init :: "nat \<Rightarrow> address \<Rightarrow> 'c timelock \<Rightarrow> 'c timelock" where
  "init d g t = t\<lparr>tl_delay := Some d, tl_guardian := Some g\<rparr>"

definition delay :: "'c timelock \<Rightarrow> nat" where
  "delay t = (case tl_delay t of None \<Rightarrow> 0 | Some d \<Rightarrow> d)"

definition guardian :: "'c timelock \<Rightarrow> ('e, address) res" where
  "guardian t = unwrap (tl_guardian t)"

text \<open>
  The slot of a keyed change: the first four bytes of the key's SHA-256, high bit set. \<open>sha256\<close> is the
  host's; a 32-byte digest is a 256-bit word whose top 32 bits are those bytes.
\<close>

definition kind_of :: "(byte list \<Rightarrow> bytes32) \<Rightarrow> byte list \<Rightarrow> kind" where
  "kind_of sha256 key_xdr = ucast (drop_bit 224 (sha256 key_xdr)) OR 0x80000000"

definition submit :: "env \<Rightarrow> kind \<Rightarrow> 'c \<Rightarrow> 'c timelock \<Rightarrow> ('e, nat \<times> 'c timelock) res" where
  "submit e k c t =
    and_then (u64_add (ledger_timestamp e) (delay t)) (\<lambda>valid_at.
      Inr (valid_at, t\<lparr>tl_pending := (tl_pending t)(k \<mapsto> (c, valid_at))\<rparr>))"

definition pending :: "kind \<Rightarrow> 'c timelock \<Rightarrow> ('c \<times> nat) option" where
  "pending k t = tl_pending t k"

definition take_change :: "env \<Rightarrow> kind \<Rightarrow> 'c timelock \<Rightarrow> (TimelockError, 'c \<times> 'c timelock) res" where
  "take_change e k t =
    and_then (or_panic (tl_pending t k) NoPending) (\<lambda>(c, valid_at).
    and_then (panic_if (ledger_timestamp e < valid_at) NotReady) (\<lambda>_.
      Inr (c, t\<lparr>tl_pending := (tl_pending t)(k := None)\<rparr>)))"

definition revoke :: "env \<Rightarrow> kind \<Rightarrow> address \<Rightarrow> address \<Rightarrow> 'c timelock \<Rightarrow> (TimelockError, 'c timelock) res" where
  "revoke e k caller admin t =
    and_then (require_auth e caller) (\<lambda>_.
    and_then (if caller \<noteq> admin
              then and_then (guardian t) (\<lambda>g. panic_if (caller \<noteq> g) NotGuardian)
              else Inr ()) (\<lambda>_.
      Inr (t\<lparr>tl_pending := (tl_pending t)(k := None)\<rparr>)))"

subsection \<open>Single operations\<close>

text \<open>A keyed slot never falls on a contract's small fixed slots.\<close>

lemma kind_of_high_bit: "bit (kind_of sha256 key) 31"
  by (simp add: kind_of_def bit_or_iff)

lemma kind_of_ge: "0x80000000 \<le> unat (kind_of sha256 key)"
proof -
  have "bit (unat (kind_of sha256 key)) 31"
    using kind_of_high_bit [of sha256 key] by (simp add: bit_unsigned_iff)
  then have "odd (unat (kind_of sha256 key) div 2 ^ 31)"
    unfolding bit_iff_odd .
  then have "unat (kind_of sha256 key) div 2 ^ 31 \<noteq> 0"
    by (metis even_zero)
  then show ?thesis by (simp add: div_eq_0_iff)
qed

lemma take_change_Inr_iff [rs]:
  "take_change e k t = Inr (c, t') \<longleftrightarrow>
     (\<exists>v. tl_pending t k = Some (c, v) \<and> v \<le> ledger_timestamp e \<and>
          t' = t\<lparr>tl_pending := (tl_pending t)(k := None)\<rparr>)"
  by (auto simp: take_change_def rs)

lemma submit_Inr_iff [rs]:
  "submit e k c t = Inr (v, t') \<longleftrightarrow>
     v = ledger_timestamp e + delay t \<and> v \<le> u64_max \<and>
     t' = t\<lparr>tl_pending := (tl_pending t)(k \<mapsto> (c, v))\<rparr>"
  by (auto simp: submit_def rs)

lemma revoke_Inr_iff [rs]:
  "revoke e k caller admin t = Inr t' \<longleftrightarrow>
     authorised e caller \<and> (caller = admin \<or> tl_guardian t = Some caller) \<and>
     t' = t\<lparr>tl_pending := (tl_pending t)(k := None)\<rparr>"
  by (auto simp: revoke_def guardian_def rs)

subsection \<open>Runs\<close>

datatype 'c tl_op =
    Init nat address
  | Submit kind 'c
  | Take kind
  | Revoke kind address address

fun tl_exec :: "env \<Rightarrow> 'c tl_op \<Rightarrow> 'c timelock \<Rightarrow> (TimelockError, 'c timelock) res" where
  "tl_exec e (Init d g) t = Inr (init d g t)"
| "tl_exec e (Submit k c) t = and_then (submit e k c t) (\<lambda>(v, t'). Inr t')"
| "tl_exec e (Take k) t = and_then (take_change e k t) (\<lambda>(c, t'). Inr t')"
| "tl_exec e (Revoke k caller admin) t = revoke e k caller admin t"

definition tl_apply :: "env \<times> 'c tl_op \<Rightarrow> 'c timelock \<Rightarrow> 'c timelock" where
  "tl_apply call t = (case tl_exec (fst call) (snd call) t of Inl _ \<Rightarrow> t | Inr t' \<Rightarrow> t')"

definition tl_run :: "'c timelock \<Rightarrow> (env \<times> 'c tl_op) list \<Rightarrow> 'c timelock" where
  "tl_run t calls = fold tl_apply calls t"

lemma tl_run_simps [simp]:
  "tl_run t [] = t"
  "tl_run t (calls @ [x]) = tl_apply x (tl_run t calls)"
  by (simp_all add: tl_run_def)

text \<open>One call either leaves a pending entry as it was, drops it, or is the submit that made it.\<close>

lemma tl_apply_pending:
  assumes "tl_pending (tl_apply (e, op) t) k = Some (c, v)"
  shows "tl_pending t k = Some (c, v) \<or> op = Submit k c \<and> v = ledger_timestamp e + delay t"
  using assms
  by (cases op) (auto simp: tl_apply_def rs init_def split: sum.splits if_splits)

definition pending_since :: "'c timelock \<Rightarrow> kind \<Rightarrow> 'c \<Rightarrow> nat \<Rightarrow> (env \<times> 'c tl_op) list \<Rightarrow>
    (env \<times> 'c tl_op) list \<Rightarrow> bool" where
  "pending_since t k c v before after \<longleftrightarrow>
     (\<forall>n \<le> length after. n \<noteq> 0 \<longrightarrow> tl_pending (tl_run t (before @ take n after)) k = Some (c, v))"

lemma pending_since_snoc:
  "pending_since t k c v before (after @ [x]) \<longleftrightarrow>
     pending_since t k c v before after \<and> tl_pending (tl_run t (before @ after @ [x])) k = Some (c, v)"
  unfolding pending_since_def by (auto simp: le_Suc_eq)

lemma tl_run_pending_submitted:
  assumes "tl_pending t = Map.empty" "tl_pending (tl_run t calls) k = Some (c, v)"
  shows "\<exists>before e after. calls = before @ (e, Submit k c) # after \<and>
     v = ledger_timestamp e + delay (tl_run t before) \<and>
     pending_since t k c v before ((e, Submit k c) # after)"
  using assms(2)
proof (induction calls rule: rev_induct)
  case Nil
  with assms(1) show ?case by simp
next
  case (snoc x calls)
  obtain e op where x: "x = (e, op)" by (cases x)
  have now: "tl_pending (tl_run t (calls @ [(e, op)])) k = Some (c, v)"
    using snoc.prems x by simp
  show ?case
  proof (cases "tl_pending (tl_run t calls) k = Some (c, v)")
    case True
    then obtain before e' after where ih: "calls = before @ (e', Submit k c) # after"
      "v = ledger_timestamp e' + delay (tl_run t before)"
      "pending_since t k c v before ((e', Submit k c) # after)"
      using snoc.IH by blast
    have "pending_since t k c v before (((e', Submit k c) # after) @ [x])"
      unfolding pending_since_snoc using ih(1,3) now x by simp
    with ih(1,2) show ?thesis by (intro exI [of _ before]) auto
  next
    case False
    with snoc.prems x have "op = Submit k c" "v = ledger_timestamp e + delay (tl_run t calls)"
      using tl_apply_pending [of e op "tl_run t calls" k c v] by auto
    with now x show ?thesis
      by (intro exI [of _ calls] exI [of _ e] exI [of _ "[]"]) (auto simp: pending_since_def le_Suc_eq)
  qed
qed

subsection \<open>Properties\<close>

text \<open>
  C12 (safety). Whatever calls ran since the timelock was empty, failing ones included: a change that
  \<open>take_change\<close> hands out for a slot is one that was submitted to that very slot, the whole delay in
  force at the submission has passed, and in between it was never revoked, taken or replaced.
\<close>

theorem timelock_full_delay:
  assumes "tl_pending t = Map.empty" "take_change e k (tl_run t calls) = Inr (c, t')"
  shows "\<exists>before e' after v. calls = before @ (e', Submit k c) # after \<and>
     v = ledger_timestamp e' + delay (tl_run t before) \<and> v \<le> ledger_timestamp e \<and>
     pending_since t k c v before ((e', Submit k c) # after) \<and> tl_pending t' k = None"
proof -
  from assms(2) obtain v where v: "tl_pending (tl_run t calls) k = Some (c, v)" "v \<le> ledger_timestamp e"
    "tl_pending t' k = None" by (auto simp: rs)
  with tl_run_pending_submitted [OF assms(1) v(1)] show ?thesis by blast
qed

theorem timelock_full_delay_witness:
  "(let t = \<lparr>tl_delay = Some 100, tl_guardian = Some alice, tl_pending = Map.empty\<rparr>;
        calls = [(demo_env 10, Submit 1 ''a''), (demo_env 20, Submit 2 ''b''), (demo_env 30, Revoke 2 alice bob)] in
    (\<exists>t'. take_change (demo_env 110) 1 (tl_run t calls) = Inr (''a'', t')) \<and>
    take_change (demo_env 109) 1 (tl_run t calls) = Inl (Err NotReady) \<and>
    (\<exists>before e' after. calls = before @ (e', Submit 1 ''a'') # after \<and>
       ledger_timestamp e' + delay (tl_run t before) \<le> 110))"
proof -
  let ?t = "\<lparr>tl_delay = Some 100, tl_guardian = Some alice, tl_pending = Map.empty\<rparr>"
  let ?calls = "[(demo_env 10, Submit 1 ''a''), (demo_env 20, Submit 2 ''b''), (demo_env 30, Revoke 2 alice bob)]"
  have run: "tl_run ?t ?calls = ?t\<lparr>tl_pending := [1 \<mapsto> (''a'', 110)]\<rparr>"
    by (simp add: tl_run_def tl_apply_def submit_def delay_def revoke_def guardian_def arith_defs
        u64_max_def fun_eq_iff)
  then obtain t' where go: "take_change (demo_env 110) 1 (tl_run ?t ?calls) = Inr (''a'', t')"
    by (simp add: take_change_def)
  moreover have "take_change (demo_env 109) 1 (tl_run ?t ?calls) = Inl (Err NotReady)"
    unfolding run by (simp add: take_change_def)
  ultimately show ?thesis
    using timelock_full_delay [OF _ go] by (fastforce simp: Let_def)
qed

end
