(* ===== verification/Vault.thy ===== *)
theory Vault
  imports Shares Timelock
begin

text \<open>
  \<open>contracts/vault/src/lib.rs\<close>: the SEP-56 vault. Its own storage is the record \<open>vault\<close> (with the share
  ledger and the timelock as its parts); the asset token is reached through \<open>host\<close>, the venue adapters and
  the aggregator that deployed the vault through \<open>venue_host\<close>, both parameters. Errors of the two libraries
  keep their own codes inside \<open>VaultError\<close>.
\<close>

datatype VaultError = V_InvalidAmount | V_InvalidConfig | DepositCapExceeded | V_NotAllowlisted
  | InsufficientLiquidity | VenueNotFound | VenueNotEmpty | TooManyVenues
  | VShare ShareError | VTimelock TimelockError

definition MAX_CURATOR_FEE_BPS :: nat where "MAX_CURATOR_FEE_BPS = 5000"
definition MAX_VENUES :: nat where "MAX_VENUES = 8"

record VaultConfig =
  vc_asset :: address
  vc_curator :: address
  vc_manager :: address
  vc_guardian :: address
  vc_name :: string
  vc_symbol :: string
  vc_deposit_cap :: int
  vc_curator_fee_bps :: nat
  vc_timelock :: nat

datatype Change = CuratorFee nat | DepositCap int | Venue bytes32 address

record vault =
  vt_host :: "address option"
  vt_config :: "VaultConfig option"
  vt_venues :: "address list option"
  vt_shares :: shares
  vt_timelock :: "Change timelock"

definition vault_empty :: vault where
  "vault_empty = \<lparr>vt_host = None, vt_config = None, vt_venues = None, vt_shares = sh_empty, vt_timelock = tl_empty\<rparr>"

text \<open>
  The \<open>VenueAdapter\<close> and \<open>VaultHost\<close> interfaces of \<open>crates/common/src/interfaces.rs\<close>; \<open>None\<close> is a call
  that fails.
\<close>

record 'w venue_host =
  va_deposit :: "env \<Rightarrow> address \<Rightarrow> int \<Rightarrow> 'w \<Rightarrow> (int \<times> 'w) option"
  va_withdraw :: "env \<Rightarrow> address \<Rightarrow> int \<Rightarrow> address \<Rightarrow> 'w \<Rightarrow> (int \<times> 'w) option"
  va_total_assets :: "address \<Rightarrow> 'w \<Rightarrow> int option"
  va_max_withdraw :: "address \<Rightarrow> 'w \<Rightarrow> int option"
  vh_admin :: "address \<Rightarrow> 'w \<Rightarrow> address option"
  vh_vault_wasm :: "address \<Rightarrow> 'w \<Rightarrow> bytes32 option"
  vh_deploy_adapter :: "env \<Rightarrow> address \<Rightarrow> address \<Rightarrow> bytes32 \<Rightarrow> address \<Rightarrow> address \<Rightarrow> 'w \<Rightarrow> (address \<times> 'w) option"
  tk_decimals :: "address \<Rightarrow> 'w \<Rightarrow> nat option"

subsection \<open>Reading the vault\<close>

definition vault_config :: "vault \<Rightarrow> (VaultError, VaultConfig) res" where
  "vault_config s = unwrap (vt_config s)"

definition venues :: "vault \<Rightarrow> address list" where
  "venues s = (case vt_venues s of None \<Rightarrow> [] | Some vs \<Rightarrow> vs)"

definition vault_host :: "vault \<Rightarrow> (VaultError, address) res" where
  "vault_host s = unwrap (vt_host s)"

definition curator_auth :: "env \<Rightarrow> vault \<Rightarrow> (VaultError, VaultConfig) res" where
  "curator_auth e s =
    and_then (vault_config s) (\<lambda>c. and_then (require_auth e (vc_curator c)) (\<lambda>_. Inr c))"

definition manager_auth :: "env \<Rightarrow> vault \<Rightarrow> (VaultError, VaultConfig) res" where
  "manager_auth e s =
    and_then (vault_config s) (\<lambda>c. and_then (require_auth e (vc_manager c)) (\<lambda>_. Inr c))"

definition venue_index :: "address list \<Rightarrow> address \<Rightarrow> (VaultError, nat) res" where
  "venue_index vs adapter = or_panic (index_of adapter vs) VenueNotFound"

definition idle :: "'w host \<Rightarrow> env \<Rightarrow> vault \<Rightarrow> 'w \<Rightarrow> (VaultError, int) res" where
  "idle H e s w = and_then (vault_config s) (\<lambda>c. Inr (tk_balance H (vc_asset c) (current_contract e) w))"

text \<open>The loop \<open>for v in venues { total += f(v) }\<close>.\<close>

fun add_up :: "(address \<Rightarrow> int option) \<Rightarrow> address list \<Rightarrow> int \<Rightarrow> (VaultError, int) res" where
  "add_up f [] acc = Inr acc"
| "add_up f (v # vs) acc =
    and_then (call_result (f v)) (\<lambda>x.
    and_then (i128_add acc x) (\<lambda>acc. add_up f vs acc))"

definition gross :: "'w host \<Rightarrow> 'w venue_host \<Rightarrow> env \<Rightarrow> vault \<Rightarrow> 'w \<Rightarrow> (VaultError, int) res" where
  "gross H V e s w =
    and_then (idle H e s w) (\<lambda>total. add_up (\<lambda>v. va_total_assets V v w) (venues s) total)"

definition liquidity :: "'w host \<Rightarrow> 'w venue_host \<Rightarrow> env \<Rightarrow> vault \<Rightarrow> 'w \<Rightarrow> (VaultError, int) res" where
  "liquidity H V e s w =
    and_then (idle H e s w) (\<lambda>total. add_up (\<lambda>v. va_max_withdraw V v w) (venues s) total)"

definition vault_snapshot :: "'w host \<Rightarrow> 'w venue_host \<Rightarrow> env \<Rightarrow> vault \<Rightarrow> 'w \<Rightarrow> (VaultError, Snapshot) res" where
  "vault_snapshot H V e s w =
    and_then (gross H V e s w) (\<lambda>nav.
    and_then (vault_config s) (\<lambda>c.
      map_err VShare (snapshot nav (vc_curator_fee_bps c) (vt_shares s))))"

definition total_assets :: "'w host \<Rightarrow> 'w venue_host \<Rightarrow> env \<Rightarrow> vault \<Rightarrow> 'w \<Rightarrow> (VaultError, int) res" where
  "total_assets H V e s w = and_then (vault_snapshot H V e s w) (\<lambda>p. Inr (sn_nav p))"

definition total_supply :: "'w host \<Rightarrow> 'w venue_host \<Rightarrow> env \<Rightarrow> vault \<Rightarrow> 'w \<Rightarrow> (VaultError, int) res" where
  "total_supply H V e s w = and_then (vault_snapshot H V e s w) (\<lambda>p. Inr (sn_supply p))"

definition convert_to_shares :: "'w host \<Rightarrow> 'w venue_host \<Rightarrow> env \<Rightarrow> int \<Rightarrow> vault \<Rightarrow> 'w \<Rightarrow> (VaultError, int) res" where
  "convert_to_shares H V e assets s w =
    and_then (vault_snapshot H V e s w) (\<lambda>p. map_err VShare (to_shares p assets False))"

definition convert_to_assets :: "'w host \<Rightarrow> 'w venue_host \<Rightarrow> env \<Rightarrow> int \<Rightarrow> vault \<Rightarrow> 'w \<Rightarrow> (VaultError, int) res" where
  "convert_to_assets H V e shrs s w =
    and_then (vault_snapshot H V e s w) (\<lambda>p. map_err VShare (to_assets p shrs False))"

definition max_deposit :: "'w host \<Rightarrow> 'w venue_host \<Rightarrow> env \<Rightarrow> address \<Rightarrow> vault \<Rightarrow> 'w \<Rightarrow> (VaultError, int) res" where
  "max_deposit H V e receiver s w =
    and_then (vault_config s) (\<lambda>c.
      let cap = vc_deposit_cap c in
      if \<not> admitted e (vt_shares s) receiver then Inr 0
      else if cap = 0 then Inr i128_max
      else and_then (vault_snapshot H V e s w) (\<lambda>p.
           and_then (i128_sub cap (sn_nav p)) (\<lambda>room. Inr (max room 0))))"

definition max_mint :: "'w host \<Rightarrow> 'w venue_host \<Rightarrow> env \<Rightarrow> address \<Rightarrow> vault \<Rightarrow> 'w \<Rightarrow> (VaultError, int) res" where
  "max_mint H V e receiver s w =
    and_then (max_deposit H V e receiver s w) (\<lambda>a.
      if a = i128_max then Inr i128_max
      else and_then (vault_snapshot H V e s w) (\<lambda>p. map_err VShare (to_shares p a False)))"

definition max_withdraw :: "'w host \<Rightarrow> 'w venue_host \<Rightarrow> env \<Rightarrow> address \<Rightarrow> vault \<Rightarrow> 'w \<Rightarrow> (VaultError, int) res" where
  "max_withdraw H V e holder s w =
    and_then (vault_snapshot H V e s w) (\<lambda>p.
    and_then (map_err VShare (to_assets p (balance (vt_shares s) holder) False)) (\<lambda>worth.
    and_then (liquidity H V e s w) (\<lambda>liq. Inr (min worth liq))))"

definition max_redeem :: "'w host \<Rightarrow> 'w venue_host \<Rightarrow> env \<Rightarrow> address \<Rightarrow> vault \<Rightarrow> 'w \<Rightarrow> (VaultError, int) res" where
  "max_redeem H V e holder s w =
    and_then (vault_snapshot H V e s w) (\<lambda>p.
    and_then (liquidity H V e s w) (\<lambda>liq.
    and_then (map_err VShare (to_shares p liq False)) (\<lambda>payable.
      Inr (min (balance (vt_shares s) holder) payable))))"

definition preview_deposit :: "'w host \<Rightarrow> 'w venue_host \<Rightarrow> env \<Rightarrow> int \<Rightarrow> vault \<Rightarrow> 'w \<Rightarrow> (VaultError, int) res" where
  "preview_deposit H V e assets s w =
    and_then (vault_snapshot H V e s w) (\<lambda>p. map_err VShare (to_shares p assets False))"

definition preview_mint :: "'w host \<Rightarrow> 'w venue_host \<Rightarrow> env \<Rightarrow> int \<Rightarrow> vault \<Rightarrow> 'w \<Rightarrow> (VaultError, int) res" where
  "preview_mint H V e shrs s w =
    and_then (vault_snapshot H V e s w) (\<lambda>p. map_err VShare (to_assets p shrs True))"

definition preview_withdraw :: "'w host \<Rightarrow> 'w venue_host \<Rightarrow> env \<Rightarrow> int \<Rightarrow> vault \<Rightarrow> 'w \<Rightarrow> (VaultError, int) res" where
  "preview_withdraw H V e assets s w =
    and_then (vault_snapshot H V e s w) (\<lambda>p. map_err VShare (to_shares p assets True))"

definition preview_redeem :: "'w host \<Rightarrow> 'w venue_host \<Rightarrow> env \<Rightarrow> int \<Rightarrow> vault \<Rightarrow> 'w \<Rightarrow> (VaultError, int) res" where
  "preview_redeem H V e shrs s w =
    and_then (vault_snapshot H V e s w) (\<lambda>p. map_err VShare (to_assets p shrs False))"

subsection \<open>Moving assets\<close>

definition accrue_now :: "'w host \<Rightarrow> 'w venue_host \<Rightarrow> env \<Rightarrow> vault \<Rightarrow> 'w \<Rightarrow> (VaultError, Snapshot \<times> vault) res" where
  "accrue_now H V e s w =
    and_then (vault_config s) (\<lambda>c.
    and_then (gross H V e s w) (\<lambda>nav.
    and_then (map_err VShare (accrue nav (vc_curator_fee_bps c) (vc_curator c) (vt_shares s))) (\<lambda>(p, sh).
      Inr (p, s\<lparr>vt_shares := sh\<rparr>))))"

text \<open>The loop of \<open>send\<close>: venues in order, each asked for what idle is still short of.\<close>

fun draw :: "'w host \<Rightarrow> 'w venue_host \<Rightarrow> env \<Rightarrow> vault \<Rightarrow> int \<Rightarrow> address list \<Rightarrow> 'w \<Rightarrow> (VaultError, 'w) res" where
  "draw H V e s assets [] w = Inr w"
| "draw H V e s assets (v # vs) w =
    and_then (idle H e s w) (\<lambda>have_now.
    and_then (i128_sub assets have_now) (\<lambda>short.
      if short \<le> 0 then Inr w
      else
        and_then (call_result (va_max_withdraw V v w)) (\<lambda>mw.
          let amount = min short mw in
          and_then (if 0 < amount
                    then and_then (call_result (va_withdraw V (calling e v) v amount (current_contract e) w)) (\<lambda>(_, w). Inr w)
                    else Inr w) (\<lambda>w.
            draw H V e s assets vs w))))"

definition send :: "'w host \<Rightarrow> 'w venue_host \<Rightarrow> env \<Rightarrow> address \<Rightarrow> int \<Rightarrow> vault \<Rightarrow> 'w \<Rightarrow> (VaultError, 'w) res" where
  "send H V e to assets s w =
    and_then (draw H V e s assets (venues s) w) (\<lambda>w.
    and_then (idle H e s w) (\<lambda>have_now.
    and_then (panic_if (have_now < assets) InsufficientLiquidity) (\<lambda>_.
    and_then (vault_config s) (\<lambda>c.
      token_transfer H e (vc_asset c) (current_contract e) to assets w))))"

definition pull :: "'w host \<Rightarrow> env \<Rightarrow> address \<Rightarrow> int \<Rightarrow> vault \<Rightarrow> 'w \<Rightarrow> (VaultError, int \<times> 'w) res" where
  "pull H e from assets s w =
    and_then (idle H e s w) (\<lambda>before.
    and_then (vault_config s) (\<lambda>c.
    and_then (token_transfer H e (vc_asset c) from (current_contract e) assets w) (\<lambda>w.
    and_then (idle H e s w) (\<lambda>after.
    and_then (i128_sub after before) (\<lambda>received. Inr (received, w))))))"

definition enter :: "'w host \<Rightarrow> 'w venue_host \<Rightarrow> env \<Rightarrow> address \<Rightarrow> address \<Rightarrow> address \<Rightarrow> int \<Rightarrow> vault \<Rightarrow> 'w \<Rightarrow>
    (VaultError, Snapshot \<times> vault) res" where
  "enter H V e from receiver operator assets s w =
    and_then (require_auth e operator) (\<lambda>_.
    and_then (if operator \<noteq> from then require_auth e from else Inr ()) (\<lambda>_.
    and_then (panic_if (assets \<le> 0) V_InvalidAmount) (\<lambda>_.
    and_then (panic_if (\<not> admitted e (vt_shares s) from \<or> \<not> admitted e (vt_shares s) receiver) V_NotAllowlisted) (\<lambda>_.
    and_then (accrue_now H V e s w) (\<lambda>(p, s).
    and_then (vault_config s) (\<lambda>c.
      let cap = vc_deposit_cap c in
      and_then (if 0 < cap
                then and_then (i128_add (sn_nav p) assets) (\<lambda>total. panic_if (cap < total) DepositCapExceeded)
                else Inr ()) (\<lambda>_.
        Inr (p, s))))))))"

definition credit :: "address \<Rightarrow> int \<Rightarrow> vault \<Rightarrow> (VaultError, vault) res" where
  "credit receiver minted s =
    and_then (panic_if (minted \<le> 0) V_InvalidAmount) (\<lambda>_.
    and_then (map_err VShare (mint receiver minted (vt_shares s))) (\<lambda>sh.
      Inr (s\<lparr>vt_shares := sh\<rparr>)))"

definition exit_to :: "'w host \<Rightarrow> 'w venue_host \<Rightarrow> env \<Rightarrow> address \<Rightarrow> address \<Rightarrow> address \<Rightarrow> int \<Rightarrow> int \<Rightarrow> vault \<Rightarrow> 'w \<Rightarrow>
    (VaultError, vault \<times> 'w) res" where
  "exit_to H V e holder operator receiver burned assets s w =
    and_then (require_auth e operator) (\<lambda>_.
    and_then (panic_if (burned \<le> 0 \<or> assets \<le> 0) V_InvalidAmount) (\<lambda>_.
    and_then (if operator \<noteq> holder
              then map_err VShare (spend_allowance e holder operator burned (vt_shares s))
              else Inr (vt_shares s)) (\<lambda>sh.
    and_then (map_err VShare (burn holder burned sh)) (\<lambda>sh.
      let s = s\<lparr>vt_shares := sh\<rparr> in
      and_then (send H V e receiver assets s w) (\<lambda>w.
        Inr (s, w))))))"

subsection \<open>Entry points\<close>

definition vault_constructor :: "'w venue_host \<Rightarrow> address \<Rightarrow> VaultConfig \<Rightarrow> vault \<Rightarrow> 'w \<Rightarrow> (VaultError, vault) res" where
  "vault_constructor V hst cfg s w =
    and_then (panic_if (vc_deposit_cap cfg < 0 \<or> MAX_CURATOR_FEE_BPS < vc_curator_fee_bps cfg) V_InvalidConfig) (\<lambda>_.
    and_then (call_result (tk_decimals V (vc_asset cfg) w)) (\<lambda>decimals.
    and_then (map_err VShare (shares_init decimals (vc_name cfg) (vc_symbol cfg) (vt_shares s))) (\<lambda>sh.
      Inr (s\<lparr>vt_shares := sh, vt_timelock := init (vc_timelock cfg) (vc_guardian cfg) (vt_timelock s),
             vt_host := Some hst, vt_config := Some cfg\<rparr>))))"

definition deposit :: "'w host \<Rightarrow> 'w venue_host \<Rightarrow> env \<Rightarrow> int \<Rightarrow> address \<Rightarrow> address \<Rightarrow> address \<Rightarrow> vault \<Rightarrow> 'w \<Rightarrow>
    (VaultError, int \<times> vault \<times> 'w) res" where
  "deposit H V e assets receiver from operator s w =
    and_then (enter H V e from receiver operator assets s w) (\<lambda>(p, s).
    and_then (pull H e from assets s w) (\<lambda>(received, w).
    and_then (map_err VShare (to_shares p received False)) (\<lambda>minted.
    and_then (credit receiver minted s) (\<lambda>s.
      Inr (minted, s, w)))))"

definition vault_mint :: "'w host \<Rightarrow> 'w venue_host \<Rightarrow> env \<Rightarrow> int \<Rightarrow> address \<Rightarrow> address \<Rightarrow> address \<Rightarrow> vault \<Rightarrow> 'w \<Rightarrow>
    (VaultError, int \<times> vault \<times> 'w) res" where
  "vault_mint H V e shrs receiver from operator s w =
    and_then (vault_snapshot H V e s w) (\<lambda>p.
    and_then (map_err VShare (to_assets p shrs True)) (\<lambda>assets.
    and_then (enter H V e from receiver operator assets s w) (\<lambda>(_, s).
    and_then (pull H e from assets s w) (\<lambda>(received, w).
    and_then (panic_if (received < assets) V_InvalidAmount) (\<lambda>_.
    and_then (credit receiver shrs s) (\<lambda>s.
      Inr (assets, s, w)))))))"

definition withdraw :: "'w host \<Rightarrow> 'w venue_host \<Rightarrow> env \<Rightarrow> int \<Rightarrow> address \<Rightarrow> address \<Rightarrow> address \<Rightarrow> vault \<Rightarrow> 'w \<Rightarrow>
    (VaultError, int \<times> vault \<times> 'w) res" where
  "withdraw H V e assets receiver holder operator s w =
    and_then (accrue_now H V e s w) (\<lambda>(p, s).
    and_then (map_err VShare (to_shares p assets True)) (\<lambda>burned.
    and_then (exit_to H V e holder operator receiver burned assets s w) (\<lambda>(s, w).
      Inr (burned, s, w))))"

definition redeem :: "'w host \<Rightarrow> 'w venue_host \<Rightarrow> env \<Rightarrow> int \<Rightarrow> address \<Rightarrow> address \<Rightarrow> address \<Rightarrow> vault \<Rightarrow> 'w \<Rightarrow>
    (VaultError, int \<times> vault \<times> 'w) res" where
  "redeem H V e shrs receiver holder operator s w =
    and_then (accrue_now H V e s w) (\<lambda>(p, s).
    and_then (map_err VShare (to_assets p shrs False)) (\<lambda>assets.
    and_then (exit_to H V e holder operator receiver shrs assets s w) (\<lambda>(s, w).
      Inr (assets, s, w))))"

definition vault_accrue :: "'w host \<Rightarrow> 'w venue_host \<Rightarrow> env \<Rightarrow> vault \<Rightarrow> 'w \<Rightarrow> (VaultError, vault) res" where
  "vault_accrue H V e s w = and_then (accrue_now H V e s w) (\<lambda>(_, s). Inr s)"

subsection \<open>Governance\<close>

definition kind :: "Change \<Rightarrow> kind" where
  "kind c = (case c of CuratorFee _ \<Rightarrow> 0 | DepositCap _ \<Rightarrow> 1 | Venue _ _ \<Rightarrow> 2)"

definition vault_submit :: "env \<Rightarrow> Change \<Rightarrow> vault \<Rightarrow> (VaultError, nat \<times> vault) res" where
  "vault_submit e change s =
    and_then (curator_auth e s) (\<lambda>_.
    and_then (case change of CuratorFee bps \<Rightarrow> panic_if (MAX_CURATOR_FEE_BPS < bps) V_InvalidConfig | _ \<Rightarrow> Inr ()) (\<lambda>_.
    and_then (submit e (kind change) change (vt_timelock s)) (\<lambda>(valid_at, t).
      Inr (valid_at, s\<lparr>vt_timelock := t\<rparr>))))"

definition add_venue :: "'w venue_host \<Rightarrow> env \<Rightarrow> VaultConfig \<Rightarrow> bytes32 \<Rightarrow> address \<Rightarrow> vault \<Rightarrow> 'w \<Rightarrow>
    (VaultError, vault \<times> 'w) res" where
  "add_venue V e c wasm venue s w =
    and_then (panic_if (MAX_VENUES \<le> length (venues s)) TooManyVenues) (\<lambda>_.
    and_then (vault_host s) (\<lambda>hst.
    and_then (call_result (vh_deploy_adapter V (calling e hst) hst (current_contract e) wasm (vc_asset c) venue w))
      (\<lambda>(adapter, w).
      Inr (s\<lparr>vt_venues := Some (venues s @ [adapter])\<rparr>, w))))"

definition accept :: "'w host \<Rightarrow> 'w venue_host \<Rightarrow> env \<Rightarrow> kind \<Rightarrow> vault \<Rightarrow> 'w \<Rightarrow> (VaultError, vault \<times> 'w) res" where
  "accept H V e k s w =
    and_then (vault_config s) (\<lambda>c.
    and_then (map_err VTimelock (take_change e k (vt_timelock s))) (\<lambda>(change, t).
      let s = s\<lparr>vt_timelock := t\<rparr> in
      (case change of
         CuratorFee bps \<Rightarrow>
           and_then (accrue_now H V e s w) (\<lambda>(_, s).
             Inr (s\<lparr>vt_config := Some (c\<lparr>vc_curator_fee_bps := bps\<rparr>)\<rparr>, w))
       | DepositCap cap \<Rightarrow>
           if 0 \<le> cap then Inr (s\<lparr>vt_config := Some (c\<lparr>vc_deposit_cap := cap\<rparr>)\<rparr>, w)
           else Inl (Err V_InvalidConfig)
       | Venue wasm venue \<Rightarrow>
           and_then (add_venue V e c wasm venue s w) (\<lambda>(s, w).
             Inr (s\<lparr>vt_config := Some c\<rparr>, w)))))"

definition vault_pending :: "kind \<Rightarrow> vault \<Rightarrow> (Change \<times> nat) option" where
  "vault_pending k s = pending k (vt_timelock s)"

definition vault_revoke :: "env \<Rightarrow> kind \<Rightarrow> address \<Rightarrow> vault \<Rightarrow> (VaultError, vault) res" where
  "vault_revoke e k caller s =
    and_then (vault_config s) (\<lambda>c.
    and_then (map_err VTimelock (revoke e k caller (vc_curator c) (vt_timelock s))) (\<lambda>t.
      Inr (s\<lparr>vt_timelock := t\<rparr>)))"

definition set_manager :: "env \<Rightarrow> address \<Rightarrow> vault \<Rightarrow> (VaultError, vault) res" where
  "set_manager e manager s =
    and_then (curator_auth e s) (\<lambda>c. Inr (s\<lparr>vt_config := Some (c\<lparr>vc_manager := manager\<rparr>)\<rparr>))"

definition vault_set_allowlist :: "env \<Rightarrow> bool \<Rightarrow> vault \<Rightarrow> (VaultError, vault) res" where
  "vault_set_allowlist e enabled s =
    and_then (curator_auth e s) (\<lambda>_. Inr (s\<lparr>vt_shares := set_allowlist enabled (vt_shares s)\<rparr>))"

definition vault_set_member :: "env \<Rightarrow> address \<Rightarrow> bool \<Rightarrow> vault \<Rightarrow> (VaultError, vault) res" where
  "vault_set_member e who allowed s =
    and_then (curator_auth e s) (\<lambda>_. Inr (s\<lparr>vt_shares := set_member who allowed (vt_shares s)\<rparr>))"

definition freeze :: "env \<Rightarrow> address \<Rightarrow> bool \<Rightarrow> vault \<Rightarrow> (VaultError, vault) res" where
  "freeze e who frozen s =
    and_then (manager_auth e s) (\<lambda>_. Inr (s\<lparr>vt_shares := set_frozen who frozen (vt_shares s)\<rparr>))"

definition vault_seize :: "env \<Rightarrow> address \<Rightarrow> address \<Rightarrow> int \<Rightarrow> vault \<Rightarrow> (VaultError, vault) res" where
  "vault_seize e from to amount s =
    and_then (manager_auth e s) (\<lambda>_.
    and_then (map_err VShare (seize from to amount (vt_shares s))) (\<lambda>sh.
      Inr (s\<lparr>vt_shares := sh\<rparr>)))"

definition disable_venue :: "'w venue_host \<Rightarrow> env \<Rightarrow> address \<Rightarrow> vault \<Rightarrow> 'w \<Rightarrow> (VaultError, vault) res" where
  "disable_venue V e adapter s w =
    and_then (curator_auth e s) (\<lambda>_.
    and_then (venue_index (venues s) adapter) (\<lambda>i.
    and_then (call_result (va_total_assets V adapter w)) (\<lambda>held.
    and_then (panic_if (0 < held) VenueNotEmpty) (\<lambda>_.
      Inr (s\<lparr>vt_venues := Some (remove_at i (venues s))\<rparr>)))))"

text \<open>\<open>Vec::last_index_of\<close>, and the loop of \<open>set_venue_order\<close>.\<close>

definition last_index_of :: "'a \<Rightarrow> 'a list \<Rightarrow> nat option" where
  "last_index_of x xs = map_option (\<lambda>i. length xs - 1 - i) (index_of x (rev xs))"

fun check_order :: "address list \<Rightarrow> address list \<Rightarrow> address list \<Rightarrow> (VaultError, unit) res" where
  "check_order vs order [] = Inr ()"
| "check_order vs order (a # rest) =
    and_then (venue_index vs a) (\<lambda>_.
    and_then (panic_if (index_of a order \<noteq> last_index_of a order) V_InvalidConfig) (\<lambda>_.
      check_order vs order rest))"

definition set_venue_order :: "env \<Rightarrow> address list \<Rightarrow> vault \<Rightarrow> (VaultError, vault) res" where
  "set_venue_order e order s =
    and_then (manager_auth e s) (\<lambda>_.
    and_then (check_order (venues s) order order) (\<lambda>_.
    and_then (panic_if (length order \<noteq> length (venues s)) V_InvalidConfig) (\<lambda>_.
      Inr (s\<lparr>vt_venues := Some order\<rparr>))))"

definition allocate :: "'w host \<Rightarrow> 'w venue_host \<Rightarrow> env \<Rightarrow> address \<Rightarrow> int \<Rightarrow> vault \<Rightarrow> 'w \<Rightarrow> (VaultError, vault \<times> 'w) res" where
  "allocate H V e adapter amount s w =
    and_then (manager_auth e s) (\<lambda>_.
    and_then (venue_index (venues s) adapter) (\<lambda>_.
    and_then (if amount \<le> 0 then Inr True else and_then (idle H e s w) (\<lambda>have_now. Inr (have_now < amount))) (\<lambda>bad.
    and_then (panic_if bad V_InvalidAmount) (\<lambda>_.
    and_then (accrue_now H V e s w) (\<lambda>(_, s).
    and_then (send H V e adapter amount s w) (\<lambda>w.
    and_then (call_result (va_deposit V (calling e adapter) adapter amount w)) (\<lambda>(_, w).
      Inr (s, w))))))))"

definition deallocate :: "'w host \<Rightarrow> 'w venue_host \<Rightarrow> env \<Rightarrow> address \<Rightarrow> int \<Rightarrow> vault \<Rightarrow> 'w \<Rightarrow>
    (VaultError, int \<times> vault \<times> 'w) res" where
  "deallocate H V e adapter amount s w =
    and_then (manager_auth e s) (\<lambda>_.
    and_then (venue_index (venues s) adapter) (\<lambda>_.
    and_then (accrue_now H V e s w) (\<lambda>(_, s).
    and_then (idle H e s w) (\<lambda>before.
    and_then (call_result (va_withdraw V (calling e adapter) adapter amount (current_contract e) w)) (\<lambda>(_, w).
    and_then (idle H e s w) (\<lambda>after.
    and_then (i128_sub after before) (\<lambda>returned.
      Inr (returned, s, w))))))))"

definition vault_upgrade :: "'w venue_host \<Rightarrow> env \<Rightarrow> bytes32 \<Rightarrow> vault \<Rightarrow> 'w \<Rightarrow> (VaultError, bytes32) res" where
  "vault_upgrade V e new_wasm_hash s w =
    and_then (vault_host s) (\<lambda>hst.
    and_then (call_result (vh_admin V hst w)) (\<lambda>admin.
    and_then (require_auth e admin) (\<lambda>_.
    and_then (call_result (vh_vault_wasm V hst w)) (\<lambda>wasm.
    and_then (panic_if (new_wasm_hash \<noteq> wasm) V_InvalidConfig) (\<lambda>_.
      Inr new_wasm_hash)))))"

subsection \<open>The whole contract as one step function\<close>

datatype vault_op =
    V_deposit int address address address
  | V_mint int address address address
  | V_withdraw int address address address
  | V_redeem int address address address
  | V_accrue
  | V_submit Change
  | V_accept kind
  | V_revoke kind address
  | V_set_manager address
  | V_set_allowlist bool
  | V_set_member address bool
  | V_freeze address bool
  | V_seize address address int
  | V_disable_venue address
  | V_set_venue_order "address list"
  | V_allocate address int
  | V_deallocate address int
  | V_transfer address address int
  | V_transfer_from address address address int
  | V_approve address address int nat
  | V_burn address int
  | V_burn_from address address int

text \<open>A share-token entry point of \<open>share_token!\<close>, on the vault's own ledger.\<close>

definition on_shares :: "(ShareError, shares) res \<Rightarrow> vault \<Rightarrow> 'w \<Rightarrow> (VaultError, vault \<times> 'w) res" where
  "on_shares r s w = and_then (map_err VShare r) (\<lambda>sh. Inr (s\<lparr>vt_shares := sh\<rparr>, w))"

definition vault_exec :: "'w host \<Rightarrow> 'w venue_host \<Rightarrow> env \<Rightarrow> vault_op \<Rightarrow> vault \<Rightarrow> 'w \<Rightarrow> (VaultError, vault \<times> 'w) res" where
  "vault_exec H V e op s w = (case op of
      V_deposit x r f p \<Rightarrow> and_then (deposit H V e x r f p s w) (\<lambda>(_, s, w). Inr (s, w))
    | V_mint x r f p \<Rightarrow> and_then (vault_mint H V e x r f p s w) (\<lambda>(_, s, w). Inr (s, w))
    | V_withdraw x r h p \<Rightarrow> and_then (withdraw H V e x r h p s w) (\<lambda>(_, s, w). Inr (s, w))
    | V_redeem x r h p \<Rightarrow> and_then (redeem H V e x r h p s w) (\<lambda>(_, s, w). Inr (s, w))
    | V_accrue \<Rightarrow> and_then (vault_accrue H V e s w) (\<lambda>s. Inr (s, w))
    | V_submit c \<Rightarrow> and_then (vault_submit e c s) (\<lambda>(_, s). Inr (s, w))
    | V_accept k \<Rightarrow> accept H V e k s w
    | V_revoke k a \<Rightarrow> and_then (vault_revoke e k a s) (\<lambda>s. Inr (s, w))
    | V_set_manager a \<Rightarrow> and_then (set_manager e a s) (\<lambda>s. Inr (s, w))
    | V_set_allowlist b \<Rightarrow> and_then (vault_set_allowlist e b s) (\<lambda>s. Inr (s, w))
    | V_set_member a b \<Rightarrow> and_then (vault_set_member e a b s) (\<lambda>s. Inr (s, w))
    | V_freeze a b \<Rightarrow> and_then (freeze e a b s) (\<lambda>s. Inr (s, w))
    | V_seize a b x \<Rightarrow> and_then (vault_seize e a b x s) (\<lambda>s. Inr (s, w))
    | V_disable_venue a \<Rightarrow> and_then (disable_venue V e a s w) (\<lambda>s. Inr (s, w))
    | V_set_venue_order vs \<Rightarrow> and_then (set_venue_order e vs s) (\<lambda>s. Inr (s, w))
    | V_allocate a x \<Rightarrow> allocate H V e a x s w
    | V_deallocate a x \<Rightarrow> and_then (deallocate H V e a x s w) (\<lambda>(_, s, w). Inr (s, w))
    | V_transfer a b x \<Rightarrow> on_shares (token_transfer_entry e a b x (vt_shares s)) s w
    | V_transfer_from p a b x \<Rightarrow> on_shares (token_transfer_from_entry e p a b x (vt_shares s)) s w
    | V_approve a p x u \<Rightarrow> on_shares (token_approve_entry e a p x u (vt_shares s)) s w
    | V_burn a x \<Rightarrow> on_shares (token_burn_entry e a x (vt_shares s)) s w
    | V_burn_from p a x \<Rightarrow> on_shares (token_burn_from_entry e p a x (vt_shares s)) s w)"

text \<open>
  A run since deployment: the successful calls with their environments, in whatever world the outside
  leaves between them.
\<close>

inductive vault_run :: "'w host \<Rightarrow> 'w venue_host \<Rightarrow> address \<Rightarrow> (env \<times> vault_op) list \<Rightarrow> vault \<Rightarrow> bool"
  for H :: "'w host" and V :: "'w venue_host" and me :: address where
  constructed: "vault_constructor V hst cfg vault_empty w = Inr s \<Longrightarrow> vault_run H V me [] s"
| call: "vault_run H V me evs s \<Longrightarrow> current_contract e = me \<Longrightarrow> vault_exec H V e op s w = Inr (s', w') \<Longrightarrow>
    vault_run H V me (evs @ [(e, op)]) s'"

end
