(* ===== verification/Mock_Venue.thy ===== *)
theory Mock_Venue
  imports Vault Ledger
begin

text \<open>
  \<open>contracts/mocks/mock_venue/src/lib.rs\<close>, the repository's own yield venue, and a concrete world for a vault:
  every token is the repository's \<open>test_token\<close>, every venue its \<open>mock_venue\<close>.
\<close>

record mock_venue =
  mv_owner :: "address option"
  mv_asset :: "address option"
  mv_operator :: "address option"
  mv_liquidity :: "int option"

definition mv_constructor :: "address \<Rightarrow> address \<Rightarrow> address \<Rightarrow> mock_venue \<Rightarrow> mock_venue" where
  "mv_constructor owner asset venue s =
    s\<lparr>mv_owner := Some owner, mv_asset := Some asset, mv_operator := Some venue\<rparr>"

definition set_liquidity :: "env \<Rightarrow> int option \<Rightarrow> mock_venue \<Rightarrow> (unit, mock_venue) res" where
  "set_liquidity e amount s =
    and_then (unwrap (mv_operator s)) (\<lambda>operator.
    and_then (require_auth e operator) (\<lambda>_.
      Inr (s\<lparr>mv_liquidity := amount\<rparr>)))"

definition mv_total_assets :: "'w host \<Rightarrow> address \<Rightarrow> mock_venue \<Rightarrow> 'w \<Rightarrow> (unit, int) res" where
  "mv_total_assets H me s w = and_then (unwrap (mv_asset s)) (\<lambda>asset. Inr (tk_balance H asset me w))"

definition mv_max_withdraw :: "'w host \<Rightarrow> address \<Rightarrow> mock_venue \<Rightarrow> 'w \<Rightarrow> (unit, int) res" where
  "mv_max_withdraw H me s w =
    and_then (mv_total_assets H me s w) (\<lambda>held.
      Inr (case mv_liquidity s of Some cap \<Rightarrow> min held cap | None \<Rightarrow> held))"

definition mv_deposit :: "env \<Rightarrow> int \<Rightarrow> mock_venue \<Rightarrow> (unit, int) res" where
  "mv_deposit e amount s =
    and_then (unwrap (mv_owner s)) (\<lambda>owner. and_then (require_auth e owner) (\<lambda>_. Inr amount))"

definition mv_withdraw :: "'w host \<Rightarrow> env \<Rightarrow> int \<Rightarrow> address \<Rightarrow> mock_venue \<Rightarrow> 'w \<Rightarrow> (unit, int \<times> 'w) res" where
  "mv_withdraw H e amount to s w =
    and_then (unwrap (mv_owner s)) (\<lambda>owner.
    and_then (require_auth e owner) (\<lambda>_.
    and_then (mv_max_withdraw H (current_contract e) s w) (\<lambda>mw.
      let sent = max (min amount mw) 0 in
      and_then (if 0 < sent
                then and_then (unwrap (mv_asset s)) (\<lambda>asset. token_transfer H e asset (current_contract e) to sent w)
                else Inr w) (\<lambda>w.
        Inr (sent, w)))))"

subsection \<open>The mock venue on the repository's token\<close>

type_synonym venue_world = "ledger \<times> (address \<Rightarrow> mock_venue)"

definition vw_host :: "venue_world host" where
  "vw_host =
    \<lparr>tk_balance = (\<lambda>tok c w. tk_balance ledger_host tok c (fst w)),
     tk_transfer = (\<lambda>e tok a b x w. map_option (\<lambda>l. (l, snd w)) (tk_transfer ledger_host e tok a b x (fst w))),
     tk_transfer_from = (\<lambda>e tok p a b x w. map_option (\<lambda>l. (l, snd w)) (tk_transfer_from ledger_host e tok p a b x (fst w))),
     tk_approve = (\<lambda>e tok a p x u w. map_option (\<lambda>l. (l, snd w)) (tk_approve ledger_host e tok a p x u (fst w))),
     or_get_price = (\<lambda>e orc b q w. or_get_price ledger_host e orc b q (fst w))\<rparr>"

definition vw_venues :: "venue_world venue_host" where
  "vw_venues =
    \<lparr>va_deposit = (\<lambda>e v x w. map_option (\<lambda>r. (r, w)) (try_call (mv_deposit e x (snd w v)))),
     va_withdraw = (\<lambda>e v x to w. try_call (mv_withdraw vw_host e x to (snd w v) w)),
     va_total_assets = (\<lambda>v w. try_call (mv_total_assets vw_host v (snd w v) w)),
     va_max_withdraw = (\<lambda>v w. try_call (mv_max_withdraw vw_host v (snd w v) w)),
     vh_admin = (\<lambda>_ _. None), vh_vault_wasm = (\<lambda>_ _. None), vh_deploy_adapter = (\<lambda>_ _ _ _ _ _ _. None),
     tk_decimals = (\<lambda>_ _. Some 7)\<rparr>"

interpretation vw: sep41_host vw_host
proof
  fix e tok a b x w w'
  assume "tk_transfer vw_host e tok a b x w = Some w'"
  then show "authorised e a \<and> 0 \<le> x \<and> x \<le> tk_balance vw_host tok a w \<and>
      (\<forall>t c. tk_balance vw_host t c w' =
         (if t = tok then moved a b x (\<lambda>c. tk_balance vw_host tok c w) c else tk_balance vw_host t c w))"
    using ledger.host_transfer [of e tok a b x "fst w"] by (auto simp: vw_host_def)
next
  fix e tok p a b x w w'
  assume "tk_transfer_from vw_host e tok p a b x w = Some w'"
  then show "authorised e p \<and> 0 \<le> x \<and> x \<le> tk_balance vw_host tok a w \<and>
      (\<forall>t c. tk_balance vw_host t c w' =
         (if t = tok then moved a b x (\<lambda>c. tk_balance vw_host tok c w) c else tk_balance vw_host t c w))"
    using ledger.host_transfer_from [of e tok p a b x "fst w"] by (auto simp: vw_host_def)
next
  fix e tok a p x u w w'
  assume "tk_approve vw_host e tok a p x u w = Some w'"
  then show "authorised e a \<and> (\<forall>t c. tk_balance vw_host t c w' = tk_balance vw_host t c w)"
    using ledger.host_approve [of e tok a p x u "fst w"] by (auto simp: vw_host_def)
qed

end
