(* ===== verification/Vault_Props.thy ===== *)
theory Vault_Props
  imports Mock_Venue
begin

text \<open>
  What the vault guarantees: the share ledger and the configured bounds hold in every reachable state,
  entering and leaving never takes value from the other holders, a governed change waits out its delay,
  the venue order can only be permuted and a venue is dropped only when it is empty.
\<close>

lemma vault_config_Inr_iff [rs]: "vault_config s = Inr c \<longleftrightarrow> vt_config s = Some c"
  by (simp add: vault_config_def rs)

lemma vault_host_Inr_iff [rs]: "vault_host s = Inr c \<longleftrightarrow> vt_host s = Some c"
  by (simp add: vault_host_def rs)

lemma auth_Inr_iff [rs]:
  "curator_auth e s = Inr c \<longleftrightarrow> vt_config s = Some c \<and> authorised e (vc_curator c)"
  "manager_auth e s = Inr c \<longleftrightarrow> vt_config s = Some c \<and> authorised e (vc_manager c)"
  by (auto simp: curator_auth_def manager_auth_def rs)

lemma idle_Inr_iff [rs]:
  "idle H e s w = Inr x \<longleftrightarrow> (\<exists>c. vt_config s = Some c \<and> x = tk_balance H (vc_asset c) (current_contract e) w)"
  by (auto simp: idle_def rs)

lemma accrue_now_Inr:
  assumes "accrue_now H V e s w = Inr (p, s')"
  obtains c nav sh where "vt_config s = Some c" "gross H V e s w = Inr nav"
    "accrue nav (vc_curator_fee_bps c) (vc_curator c) (vt_shares s) = Inr (p, sh)" "s' = s\<lparr>vt_shares := sh\<rparr>"
    "sn_nav p = nav"
proof -
  from assms obtain c nav sh where 1: "vt_config s = Some c" "gross H V e s w = Inr nav"
    and acc: "accrue nav (vc_curator_fee_bps c) (vc_curator c) (vt_shares s) = Inr (p, sh)"
    and s': "s' = s\<lparr>vt_shares := sh\<rparr>"
    by (auto simp: accrue_now_def rs)
  have "sn_nav p = nav"
    using acc by (rule accrue_Inr) (auto elim: snapshot_Inr)
  with 1 acc s' show thesis by (rule that)
qed

lemma enter_Inr:
  assumes "enter H V e from receiver operator assets s w = Inr (p, s')"
  shows "authorised e operator" "authorised e from" "0 < assets" "admitted e (vt_shares s) from"
    "admitted e (vt_shares s) receiver" "accrue_now H V e s w = Inr (p, s')"
    "\<And>c. vt_config s' = Some c \<Longrightarrow> 0 < vc_deposit_cap c \<Longrightarrow> sn_nav p + assets \<le> vc_deposit_cap c"
  using assms by (auto simp: enter_def rs Let_def not_le split: if_splits)

lemma exit_Inr:
  assumes "exit_to H V e holder operator receiver burned assets s w = Inr (s', w')"
  obtains sh0 sh where "authorised e operator" "0 < burned" "0 < assets"
    "if operator = holder then sh0 = vt_shares s else spend_allowance e holder operator burned (vt_shares s) = Inr sh0"
    "burn holder burned sh0 = Inr sh" "s' = s\<lparr>vt_shares := sh\<rparr>" "send H V e receiver assets s' w = Inr w'"
  using assms by (auto simp: exit_to_def rs Let_def not_le split: if_splits intro: that)

lemmas vault_defs = deposit_def vault_mint_def withdraw_def redeem_def vault_accrue_def vault_submit_def accept_def
  vault_revoke_def set_manager_def vault_set_allowlist_def vault_set_member_def freeze_def vault_seize_def
  disable_venue_def set_venue_order_def allocate_def deallocate_def on_shares_def add_venue_def credit_def

subsection \<open>The configured bounds and the ledger\<close>

definition bounded_change :: "Change \<Rightarrow> bool" where
  "bounded_change c = (case c of CuratorFee bps \<Rightarrow> bps \<le> MAX_CURATOR_FEE_BPS | _ \<Rightarrow> True)"

definition pending_ok :: "Change timelock \<Rightarrow> bool" where
  "pending_ok t \<longleftrightarrow> (\<forall>k c v. tl_pending t k = Some (c, v) \<longrightarrow> bounded_change c)"

lemma pending_ok_simps:
  "pending_ok t \<Longrightarrow> bounded_change c \<Longrightarrow> pending_ok (t\<lparr>tl_pending := (tl_pending t)(k \<mapsto> (c, v))\<rparr>)"
  "pending_ok t \<Longrightarrow> pending_ok (t\<lparr>tl_pending := (tl_pending t)(k := None)\<rparr>)"
  "pending_ok t \<Longrightarrow> tl_pending t k = Some (c, v) \<Longrightarrow> bounded_change c"
  unfolding pending_ok_def by (auto split: if_splits)

definition vault_inv :: "vault \<Rightarrow> bool" where
  "vault_inv s \<longleftrightarrow> shares_inv (vt_shares s) \<and> length (venues s) \<le> MAX_VENUES \<and>
     (\<exists>c. vt_config s = Some c \<and> vc_curator_fee_bps c \<le> MAX_CURATOR_FEE_BPS \<and> 0 \<le> vc_deposit_cap c) \<and>
     pending_ok (vt_timelock s)"

lemma venues_shares [simp]: "venues (s\<lparr>vt_shares := sh\<rparr>) = venues s"
  by (simp add: venues_def)

lemma vault_inv_shares:
  "vault_inv s \<Longrightarrow> shares_inv sh \<Longrightarrow> vault_inv (s\<lparr>vt_shares := sh\<rparr>)"
  by (simp add: vault_inv_def venues_def)

lemma vault_inv_accrue_now:
  assumes "accrue_now H V e s w = Inr (p, s')" "vault_inv s"
  shows "vault_inv s'" "vt_config s' = vt_config s" "venues s' = venues s" "vt_timelock s' = vt_timelock s"
    "vt_host s' = vt_host s"
proof -
  from assms(1) obtain c :: VaultConfig and nav sh where "accrue nav (vc_curator_fee_bps c) (vc_curator c) (vt_shares s) = Inr (p, sh)"
    and s': "s' = s\<lparr>vt_shares := sh\<rparr>"
    by (rule accrue_now_Inr)
  with assms(2) have "shares_inv sh" using shares_inv_accrue by (auto simp: vault_inv_def)
  with assms(2) show "vault_inv s'" unfolding s' by (rule vault_inv_shares)
  show "vt_config s' = vt_config s" "venues s' = venues s" "vt_timelock s' = vt_timelock s" "vt_host s' = vt_host s"
    by (simp_all add: s' venues_def)
qed

lemma vault_inv_exit:
  assumes "exit_to H V e holder operator receiver burned assets s w = Inr (s', w')" "vault_inv s"
  shows "vault_inv s'"
  using assms(1)
proof (rule exit_Inr)
  fix sh0 sh
  assume "if operator = holder then sh0 = vt_shares s else spend_allowance e holder operator burned (vt_shares s) = Inr sh0"
    "burn holder burned sh0 = Inr sh" "s' = s\<lparr>vt_shares := sh\<rparr>"
  moreover from this assms(2) have "shares_inv sh0"
    using shares_inv_spend by (auto simp: vault_inv_def split: if_splits)
  ultimately show ?thesis
    using vault_inv_shares [OF assms(2)] shares_inv_burn by blast
qed

lemma vault_inv_credit:
  "credit receiver minted s = Inr s' \<Longrightarrow> vault_inv s \<Longrightarrow> vault_inv s'"
  using vault_inv_shares [of s] shares_inv_mint by (fastforce simp: credit_def rs vault_inv_def)

lemma remove_at_length: "length (remove_at i xs) \<le> length xs"
  by (simp add: remove_at_def)

lemma vault_inv_entry:
  assumes "deposit H V e x r f p s w = Inr (m, s', w') \<or> vault_mint H V e x r f p s w = Inr (m, s', w')" "vault_inv s"
  shows "vault_inv s'"
proof -
  from assms(1) obtain q s1 x' where en: "enter H V e f r p x' s w = Inr (q, s1)" and cr: "\<exists>y. credit r y s1 = Inr s'"
    by (auto simp: deposit_def vault_mint_def rs)
  have "vault_inv s1" by (rule vault_inv_accrue_now(1) [OF enter_Inr(6) [OF en] assms(2)])
  with cr show ?thesis using vault_inv_credit by blast
qed

lemma vault_inv_leave:
  assumes "withdraw H V e x r h p s w = Inr (m, s', w') \<or> redeem H V e x r h p s w = Inr (m, s', w')" "vault_inv s"
  shows "vault_inv s'"
proof -
  from assms(1) obtain q s1 where ac: "accrue_now H V e s w = Inr (q, s1)"
    and ex: "\<exists>b a. exit_to H V e h p r b a s1 w = Inr (s', w')"
    by (auto simp: withdraw_def redeem_def rs)
  from ex obtain b a where "exit_to H V e h p r b a s1 w = Inr (s', w')" by blast
  from vault_inv_exit [OF this vault_inv_accrue_now(1) [OF ac assms(2)]] show ?thesis .
qed

lemma vault_inv_submit:
  assumes "vault_submit e c s = Inr (v, s')" "vault_inv s"
  shows "vault_inv s'"
proof -
  from assms(1) have "bounded_change c"
    "s' = s\<lparr>vt_timelock := (vt_timelock s)\<lparr>tl_pending := (tl_pending (vt_timelock s))(kind c \<mapsto> (c, v))\<rparr>\<rparr>"
    by (auto simp: vault_submit_def rs bounded_change_def not_less split: Change.splits)
  with assms(2) show ?thesis by (simp add: vault_inv_def venues_def pending_ok_simps)
qed

lemma vault_inv_timelock_take:
  assumes "take_change e k (vt_timelock s) = Inr (c, t)" "vault_inv s"
  shows "vault_inv (s\<lparr>vt_timelock := t\<rparr>)" "bounded_change c"
proof -
  from assms(1) obtain v where v: "tl_pending (vt_timelock s) k = Some (c, v)"
    and t: "t = (vt_timelock s)\<lparr>tl_pending := (tl_pending (vt_timelock s))(k := None)\<rparr>"
    by (auto simp: rs)
  from assms(2) have "pending_ok (vt_timelock s)" by (simp add: vault_inv_def)
  with v assms(2) show "bounded_change c" "vault_inv (s\<lparr>vt_timelock := t\<rparr>)"
    using pending_ok_simps(3) by (auto simp: vault_inv_def venues_def t pending_ok_simps(2))
qed

lemma vault_inv_accept:
  assumes "accept H V e k s w = Inr (s', w')" "vault_inv s"
  shows "vault_inv s'"
proof -
  from assms(1) obtain c change t where c: "vt_config s = Some c"
    and tk: "take_change e k (vt_timelock s) = Inr (change, t)"
    by (auto simp: accept_def rs)
  let ?s = "s\<lparr>vt_timelock := t\<rparr>"
  note inv = vault_inv_timelock_take [OF tk assms(2)]
  show ?thesis
  proof (cases change)
    case (CuratorFee bps)
    with assms(1) c tk obtain q s1 where "accrue_now H V e ?s w = Inr (q, s1)"
      "s' = s1\<lparr>vt_config := Some (c\<lparr>vc_curator_fee_bps := bps\<rparr>)\<rparr>"
      by (auto simp: accept_def rs vault_config_def)
    moreover from this have "vault_inv s1" "vt_config s1 = Some c"
      using vault_inv_accrue_now [OF _ inv(1)] c by auto
    ultimately show ?thesis
      using inv(2) CuratorFee by (auto simp: vault_inv_def venues_def bounded_change_def)
  next
    case (DepositCap cap)
    with assms(1) c tk have "0 \<le> cap" "s' = ?s\<lparr>vt_config := Some (c\<lparr>vc_deposit_cap := cap\<rparr>)\<rparr>"
      by (auto simp: accept_def rs vault_config_def split: if_splits)
    with inv(1) c show ?thesis by (auto simp: vault_inv_def venues_def)
  next
    case (Venue wasm venue)
    with assms(1) c tk obtain s1 where "add_venue V e c wasm venue ?s w = Inr (s1, w')" "s' = s1\<lparr>vt_config := Some c\<rparr>"
      by (auto simp: accept_def vault_config_def and_then_Inr_iff)
    then obtain a where "length (venues ?s) < MAX_VENUES"
      "s' = ?s\<lparr>vt_venues := Some (venues ?s @ [a])\<rparr>\<lparr>vt_config := Some c\<rparr>"
      by (auto simp: add_venue_def rs not_le)
    with inv(1) c show ?thesis by (auto simp: vault_inv_def venues_def)
  qed
qed

lemma vault_inv_flags:
  assumes "vault_inv s"
  shows "vault_inv (s\<lparr>vt_shares := set_allowlist b (vt_shares s)\<rparr>)"
    "vault_inv (s\<lparr>vt_shares := set_member a b (vt_shares s)\<rparr>)"
    "vault_inv (s\<lparr>vt_shares := set_frozen a b (vt_shares s)\<rparr>)"
  using assms by (auto simp: vault_inv_def)

lemma vault_inv_on_shares:
  assumes "on_shares r s w = Inr (s', w')" "vault_inv s" "\<And>sh. r = Inr sh \<Longrightarrow> shares_inv sh"
  shows "vault_inv s'"
  using assms vault_inv_shares by (auto simp: on_shares_def rs)

lemma vault_inv_exec:
  assumes "vault_exec H V e op s w = Inr (s', w')" "vault_inv s"
  shows "vault_inv s'"
proof -
  have inv: "shares_inv (vt_shares s)" using assms(2) by (simp add: vault_inv_def)
  show ?thesis
proof (cases op)
  case (V_submit c)
  with assms show ?thesis using vault_inv_submit by (auto simp: vault_exec_def rs)
next
  case (V_accept k)
  with assms show ?thesis using vault_inv_accept by (auto simp: vault_exec_def)
next
  case (V_allocate a x)
  with assms obtain q where "accrue_now H V e s w = Inr (q, s')"
    by (auto simp: vault_exec_def allocate_def rs)
  from vault_inv_accrue_now(1) [OF this assms(2)] show ?thesis .
next
  case (V_deallocate a x)
  with assms obtain q where "accrue_now H V e s w = Inr (q, s')"
    by (auto simp: vault_exec_def deallocate_def rs)
  from vault_inv_accrue_now(1) [OF this assms(2)] show ?thesis .
next
  case V_accrue
  with assms obtain q where "accrue_now H V e s w = Inr (q, s')"
    by (auto simp: vault_exec_def vault_accrue_def rs)
  from vault_inv_accrue_now(1) [OF this assms(2)] show ?thesis .
next
  case (V_disable_venue a)
  with assms obtain i where "s' = s\<lparr>vt_venues := Some (remove_at i (venues s))\<rparr>"
    by (auto simp: vault_exec_def disable_venue_def rs)
  with assms(2) le_trans [OF remove_at_length [of i "venues s"]] show ?thesis
    by (auto simp: vault_inv_def venues_def)
next
  case (V_set_venue_order vs)
  with assms show ?thesis by (auto simp: vault_exec_def set_venue_order_def rs vault_inv_def venues_def)
next
  case (V_revoke k a)
  with assms show ?thesis by (auto simp: vault_exec_def vault_revoke_def rs vault_inv_def venues_def pending_ok_simps(2))
next
  case (V_set_manager a)
  with assms show ?thesis by (auto simp: vault_exec_def set_manager_def rs vault_inv_def venues_def)
next
  case (V_deposit x r f p)
  with assms(1) show ?thesis
    by (auto simp: vault_exec_def and_then_Inr_iff intro: vault_inv_entry [OF disjI1 assms(2)])
next
  case (V_mint x r f p)
  with assms(1) show ?thesis
    by (auto simp: vault_exec_def and_then_Inr_iff intro: vault_inv_entry [OF disjI2 assms(2)])
next
  case (V_withdraw x r h p)
  with assms(1) show ?thesis
    by (auto simp: vault_exec_def and_then_Inr_iff intro: vault_inv_leave [OF disjI1 assms(2)])
next
  case (V_redeem x r h p)
  with assms(1) show ?thesis
    by (auto simp: vault_exec_def and_then_Inr_iff intro: vault_inv_leave [OF disjI2 assms(2)])
next
  case (V_set_allowlist b)
  with assms vault_inv_flags(1) show ?thesis by (auto simp: vault_exec_def vault_set_allowlist_def rs)
next
  case (V_set_member a b)
  with assms vault_inv_flags(2) show ?thesis by (auto simp: vault_exec_def vault_set_member_def rs)
next
  case (V_freeze a b)
  with assms vault_inv_flags(3) show ?thesis by (auto simp: vault_exec_def freeze_def rs)
next
  case (V_seize a b x)
  with assms obtain sh where "seize a b x (vt_shares s) = Inr sh" "s' = s\<lparr>vt_shares := sh\<rparr>"
    by (auto simp: vault_exec_def vault_seize_def rs)
  with assms(2) show ?thesis using vault_inv_shares shares_inv_seize by (auto simp: vault_inv_def)
next
  case (V_transfer a b x)
  with assms(1) inv show ?thesis by (auto simp: vault_exec_def intro: vault_inv_on_shares [OF _ assms(2)] entry_keeps_inv)
next
  case (V_transfer_from p a b x)
  with assms(1) inv show ?thesis by (auto simp: vault_exec_def intro: vault_inv_on_shares [OF _ assms(2)] entry_keeps_inv)
next
  case (V_approve a p x u)
  with assms(1) inv show ?thesis by (auto simp: vault_exec_def intro: vault_inv_on_shares [OF _ assms(2)] entry_keeps_inv)
next
  case (V_burn a x)
  with assms(1) inv show ?thesis by (auto simp: vault_exec_def intro: vault_inv_on_shares [OF _ assms(2)] entry_keeps_inv)
next
  case (V_burn_from p a x)
  with assms(1) inv show ?thesis by (auto simp: vault_exec_def intro: vault_inv_on_shares [OF _ assms(2)] entry_keeps_inv)
qed
qed

subsection \<open>Entering and leaving\<close>

lemma accrue_now_snapshot:
  assumes "accrue_now H V e s w = Inr (p, s')"
  shows "vault_snapshot H V e s w = Inr p" "share_supply (vt_shares s') = sn_supply p"
    "vt_config s' = vt_config s"
proof -
  from assms obtain c nav sh where c: "vt_config s = Some c" "gross H V e s w = Inr nav"
    and acc: "accrue nav (vc_curator_fee_bps c) (vc_curator c) (vt_shares s) = Inr (p, sh)"
    and s': "s' = s\<lparr>vt_shares := sh\<rparr>"
    by (rule accrue_now_Inr)
  show "vault_snapshot H V e s w = Inr p"
    using c accrue_supply(1) [OF acc] by (simp add: vault_snapshot_def vault_config_def)
  show "share_supply (vt_shares s') = sn_supply p" using accrue_supply(2) [OF acc] by (simp add: s')
  show "vt_config s' = vt_config s" by (simp add: s')
qed

lemma credit_supply:
  "credit r x s = Inr s' \<Longrightarrow> 0 < x \<and> share_supply (vt_shares s') = share_supply (vt_shares s) + x \<and>
     balance (vt_shares s') r = balance (vt_shares s) r + x"
  by (auto simp: credit_def rs mint_def)

lemma exit_supply:
  assumes "exit_to H V e holder operator receiver burned assets s w = Inr (s', w')"
  shows "0 < burned" "0 < assets" "share_supply (vt_shares s') = share_supply (vt_shares s) - burned"
    "balance (vt_shares s') = (balance (vt_shares s))(holder := balance (vt_shares s) holder - burned)"
    "authorised e operator"
    "operator = holder \<or> burned \<le> allowance e holder operator (vt_shares s)"
proof -
  from assms obtain sh0 sh where a: "authorised e operator" "0 < burned" "0 < assets"
    and sp: "if operator = holder then sh0 = vt_shares s else spend_allowance e holder operator burned (vt_shares s) = Inr sh0"
    and b: "burn holder burned sh0 = Inr sh" "s' = s\<lparr>vt_shares := sh\<rparr>"
    by (rule exit_Inr)
  from leave_shares [OF sp b(1)] b(2)
  show "share_supply (vt_shares s') = share_supply (vt_shares s) - burned"
    "balance (vt_shares s') = (balance (vt_shares s))(holder := balance (vt_shares s) holder - burned)"
    "operator = holder \<or> burned \<le> allowance e holder operator (vt_shares s)" by simp_all
qed (use assms in \<open>auto elim: exit_Inr\<close>)

subsection \<open>Governed changes\<close>

text \<open>Which operation can touch the timelock's pending changes.\<close>

lemma accept_timelock:
  assumes "accept H V e k s w = Inr (s', w')"
  obtains change v where "tl_pending (vt_timelock s) k = Some (change, v)" "v \<le> ledger_timestamp e"
    "vt_timelock s' = (vt_timelock s)\<lparr>tl_pending := (tl_pending (vt_timelock s))(k := None)\<rparr>"
proof -
  from assms obtain c change t where c: "vt_config s = Some c"
    and tk: "take_change e k (vt_timelock s) = Inr (change, t)"
    by (auto simp: accept_def rs)
  have "vt_timelock s' = t"
    using assms c tk
    by (cases change) (auto simp: accept_def vault_config_def accrue_now_def add_venue_def Let_def and_then_Inr_iff split: if_splits)
  with tk show thesis by (auto simp: rs intro: that)
qed

lemma vault_exec_timelock:
  assumes "vault_exec H V e op s w = Inr (s', w')"
  shows "vt_timelock s' = vt_timelock s \<or>
    (\<exists>k. vt_timelock s' = (vt_timelock s)\<lparr>tl_pending := (tl_pending (vt_timelock s))(k := None)\<rparr>) \<or>
    (\<exists>c cfg. op = V_submit c \<and> vt_config s = Some cfg \<and> authorised e (vc_curator cfg) \<and>
       vt_timelock s' = (vt_timelock s)\<lparr>tl_pending := (tl_pending (vt_timelock s))
         (kind c \<mapsto> (c, ledger_timestamp e + delay (vt_timelock s)))\<rparr>)"
proof (cases "\<exists>k. op = V_accept k")
  case True
  with assms obtain k where "accept H V e k s w = Inr (s', w')" by (auto simp: vault_exec_def)
  then show ?thesis by (rule accept_timelock) auto
next
  case False
  with assms show ?thesis
    by (cases op) (auto simp: vault_exec_def vault_defs enter_def exit_to_def accrue_now_def Let_def and_then_Inr_iff
      map_err_Inr_iff submit_Inr_iff revoke_Inr_iff auth_Inr_iff)
qed

lemma vault_exec_pending:
  assumes "vault_exec H V e op s w = Inr (s', w')" "tl_pending (vt_timelock s') k = Some (c, v)"
  shows "tl_pending (vt_timelock s) k = Some (c, v) \<or>
    op = V_submit c \<and> kind c = k \<and> v = ledger_timestamp e + delay (vt_timelock s)"
    and "delay (vt_timelock s') = delay (vt_timelock s)"
  using vault_exec_timelock [OF assms(1)] assms(2) by (auto simp: delay_def split: if_splits)

lemma vault_run_pending:
  assumes "vault_run H V me evs s" "tl_pending (vt_timelock s) k = Some (c, v)"
  shows "\<exists>e. (e, V_submit c) \<in> set evs \<and> kind c = k \<and> v = ledger_timestamp e + delay (vt_timelock s)"
  using assms
proof (induction arbitrary: v rule: vault_run.induct)
  case (constructed hst cfg w s)
  then show ?case by (auto simp: vault_constructor_def rs vault_empty_def tl_empty_def init_def)
next
  case (call evs s e op w s' w')
  from vault_exec_pending [OF call.hyps(3) call.prems] show ?case
    using call.IH by auto
qed

subsection \<open>Venues\<close>

lemma index_of_le: "i < length xs \<Longrightarrow> xs ! i = a \<Longrightarrow> \<exists>k. index_of a xs = Some k \<and> k \<le> i"
proof (induction xs arbitrary: i)
  case (Cons x xs)
  show ?case
  proof (cases i)
    case 0
    with Cons.prems show ?thesis by simp
  next
    case (Suc j)
    with Cons obtain k where "index_of a xs = Some k" "k \<le> j" by auto
    with Suc show ?thesis by simp
  qed
qed simp

lemma last_index_of_ge: "i < length xs \<Longrightarrow> xs ! i = a \<Longrightarrow> \<exists>k. last_index_of a xs = Some k \<and> i \<le> k"
proof -
  assume i: "i < length xs" "xs ! i = a"
  then have "length xs - 1 - i < length (rev xs)" "rev xs ! (length xs - 1 - i) = a"
    by (simp_all add: rev_nth)
  from index_of_le [OF this] obtain k where "index_of a (rev xs) = Some k" "k \<le> length xs - 1 - i" by blast
  with i show ?thesis by (simp add: last_index_of_def)
qed

lemma check_order_Inr:
  "check_order vs order rest = Inr () \<Longrightarrow> set rest \<subseteq> set vs \<and> (\<forall>a \<in> set rest. index_of a order = last_index_of a order)"
  by (induction vs order rest rule: check_order.induct)
    (auto simp: rs venue_index_def dest: index_of_Some)

lemma check_order_distinct:
  assumes "check_order vs order order = Inr ()"
  shows "distinct order"
proof (rule ccontr)
  assume "\<not> distinct order"
  then obtain i j where ij: "i < j" "j < length order" "order ! i = order ! j"
    by (metis distinct_conv_nth linorder_neqE_nat)
  from index_of_le [of i order] last_index_of_ge [of j order] ij obtain k m where
    "index_of (order ! j) order = Some k" "k \<le> i" "last_index_of (order ! j) order = Some m" "j \<le> m"
    by fastforce
  moreover have "index_of (order ! j) order = last_index_of (order ! j) order"
    using check_order_Inr [OF assms] ij(2) by simp
  ultimately show False using ij(1) by simp
qed

text \<open>The loop that adds up the venues is a sum.\<close>

lemma add_up_Inr:
  "add_up f vs acc = Inr r \<Longrightarrow> (\<forall>v \<in> set vs. f v \<noteq> None) \<and> r = acc + (\<Sum>v\<leftarrow>vs. the (f v))"
proof (induction vs arbitrary: acc)
  case (Cons v vs)
  then obtain x where x: "f v = Some x" "add_up f vs (acc + x) = Inr r" by (auto simp: rs)
  from Cons.IH [OF x(2)] x(1) show ?case by simp
qed simp

lemma sum_list_remove1_int:
  "x \<in> set xs \<Longrightarrow> (\<Sum>y\<leftarrow>remove1 x xs. g y) = (\<Sum>y\<leftarrow>xs. g y) - (g x :: int)"
  by (induction xs) auto

subsection \<open>A concrete vault\<close>

definition venue_a :: address where "venue_a = Contract 21"
definition venue_b :: address where "venue_b = Contract 22"

definition demo_config :: VaultConfig where
  "demo_config = \<lparr>vc_asset = token_a, vc_curator = alice, vc_manager = bob, vc_guardian = carol, vc_name = ''vault'',
     vc_symbol = ''v'', vc_deposit_cap = 5000, vc_curator_fee_bps = 1000, vc_timelock = 100\<rparr>"

text \<open>A vault as its constructor leaves it, and the same vault with two venues.\<close>

definition fresh_vault :: vault where
  "fresh_vault = vault_empty\<lparr>vt_shares := set_hwm 1000000000000 (init_meta 13 ''vault'' ''v'' sh_empty),
     vt_timelock := init 100 carol tl_empty, vt_host := Some admin_addr, vt_config := Some demo_config\<rparr>"

definition demo_vault :: vault where
  "demo_vault = fresh_vault\<lparr>vt_venues := Some [venue_a, venue_b]\<rparr>"

definition demo_world :: venue_world where
  "demo_world = (demo_ledger, \<lambda>_. \<lparr>mv_owner = Some this_contract, mv_asset = Some token_a,
     mv_operator = Some admin_addr, mv_liquidity = None\<rparr>)"

text \<open>The same vault when \<open>bob\<close> has deposited 1000, of which 600 sit in the first venue.\<close>

definition held_vault :: vault where
  "held_vault = demo_vault\<lparr>vt_shares := set_supply 1000000000 (set_balance bob 1000000000 (vt_shares demo_vault))\<rparr>"

definition held_world :: venue_world where
  "held_world = (((\<lambda>_. funded_token\<lparr>tt_balances := [alice \<mapsto> 10000, bob \<mapsto> 9000, this_contract \<mapsto> 400, venue_a \<mapsto> 600]\<rparr>),
     snd demo_ledger), snd demo_world)"

lemmas vault_eval = held_vault_def held_world_def vw_host_def vw_venues_def mv_total_assets_def mv_max_withdraw_def mv_deposit_def mv_withdraw_def
  demo_world_def demo_vault_def fresh_vault_def vault_empty_def demo_config_def venue_a_def venue_b_def
  vault_config_def venues_def idle_def gross_def liquidity_def venue_index_def
  vault_snapshot_def accrue_now_def accrue_def snapshot_def mint_def share_price_def to_shares_def to_assets_def
  fee_due_def Let_def md_def md_up_def checked_math_def mul_div_def mul_div_ceil_def mul_div_round_floor
  mul_div_round_ceil ceil_div_def ONE_def VIRTUAL_def BPS_def MAX_CURATOR_FEE_BPS_def arith_defs width_defs
  hwm_def balance_def share_supply_def set_hwm_def set_supply_def set_balance_def sh_empty_def init_meta_def
  burn_def debit_def admitted_def allowlist_enabled_def is_frozen_def init_def tl_empty_def ledger_eval require_auth_calling


lemma fresh_vault_run: "vault_run vw_host vw_venues this_contract [] fresh_vault"
proof (rule vault_run.constructed)
  show "vault_constructor vw_venues admin_addr demo_config vault_empty demo_world = Inr fresh_vault"
    by (simp add: vault_constructor_def shares_init_def DECIMALS_OFFSET_def vault_eval)
qed

subsection \<open>Properties\<close>

text \<open>
  C7 (type). In every state a vault can reach, by any calls of anyone: no share balance is negative, the
  supply is the sum of the balances, at most eight venues are enabled, the curator fee is at most 50%, the
  deposit cap is not negative, and no pending change carries a higher fee.
\<close>

theorem vault_reachable_invariant:
  assumes "vault_run H V me evs s"
  shows "vault_inv s"
  using assms
proof induction
  case (constructed hst cfg w s)
  then obtain sh where "shares_init (the (tk_decimals V (vc_asset cfg) w)) (vc_name cfg) (vc_symbol cfg) sh_empty = Inr sh"
    "s = vault_empty\<lparr>vt_shares := sh, vt_timelock := init (vc_timelock cfg) (vc_guardian cfg) tl_empty,
       vt_host := Some hst, vt_config := Some cfg\<rparr>" "vc_curator_fee_bps cfg \<le> MAX_CURATOR_FEE_BPS" "0 \<le> vc_deposit_cap cfg"
    by (auto simp: vault_constructor_def rs vault_empty_def not_less)
  moreover from this(1) have "shares_inv sh" by (rule shares_inv_init)
  ultimately show ?case
    by (auto simp: vault_inv_def venues_def vault_empty_def pending_ok_def init_def tl_empty_def)
next
  case (call evs s e op w s' w')
  from vault_inv_exec [OF call.hyps(3) call.IH] show ?case .
qed

theorem vault_reachable_invariant_witness:
  "\<exists>s w. vault_run vw_host vw_venues this_contract [(demo_env 5, V_deposit 1000 bob bob bob)] s \<and>
     vault_exec vw_host vw_venues (demo_env 5) (V_deposit 1000 bob bob bob) fresh_vault demo_world = Inr (s, w) \<and>
     share_supply (vt_shares s) = 1000000000 \<and> vault_inv s"
proof -
  obtain s w where s: "vault_exec vw_host vw_venues (demo_env 5) (V_deposit 1000 bob bob bob) fresh_vault demo_world = Inr (s, w)"
    "share_supply (vt_shares s) = 1000000000"
    by (simp add: vault_exec_def deposit_def enter_def pull_def credit_def vault_eval demo_defs)
  from vault_run.call [OF fresh_vault_run _ s(1)]
  have run: "vault_run vw_host vw_venues this_contract [(demo_env 5, V_deposit 1000 bob bob bob)] s" by simp
  from vault_reachable_invariant [OF run] run s show ?thesis by blast
qed

text \<open>
  C6 (safety). Nobody enters the vault at the other holders' expense. At the share price of the snapshot the
  call itself takes (any fee due counted in), the shares a deposit or a mint creates are worth no more than
  the assets the vault was actually credited. Both parties consented and are admitted, the deposit cap
  holds, and the supply and the receiver's balance grow by exactly the shares minted.
\<close>

theorem vault_entry_fair:
  assumes "deposit H V e x receiver from operator s w = Inr (minted, s', w') \<or>
    vault_mint H V e minted receiver from operator s w = Inr (x, s', w')"
  shows "\<exists>p paid c. vault_snapshot H V e s w = Inr p \<and> vt_config s = Some c \<and>
     authorised e operator \<and> authorised e from \<and> admitted e (vt_shares s) from \<and> admitted e (vt_shares s) receiver \<and>
     0 < x \<and> 0 < minted \<and> fair_entry p paid minted \<and> share_supply (vt_shares s') = sn_supply p + minted \<and>
     (0 < vc_deposit_cap c \<longrightarrow> sn_nav p + x \<le> vc_deposit_cap c) \<and>
     paid \<le> tk_balance H (vc_asset c) (current_contract e) w' - tk_balance H (vc_asset c) (current_contract e) w"
  using assms
proof
  assume "deposit H V e x receiver from operator s w = Inr (minted, s', w')"
  then obtain p sb received where en: "enter H V e from receiver operator x s w = Inr (p, sb)"
    and pl: "pull H e from x sb w = Inr (received, w')" and sh: "to_shares p received False = Inr minted"
    and cr: "credit receiver minted sb = Inr s'"
    by (auto simp: deposit_def rs)
  note snap = accrue_now_snapshot [OF enter_Inr(6) [OF en]]
  from pl snap(3) obtain c where "vt_config s = Some c" "received =
      tk_balance H (vc_asset c) (current_contract e) w' - tk_balance H (vc_asset c) (current_contract e) w"
    by (auto simp: pull_def rs)
  with credit_supply [OF cr] conversions_fair(1) [OF sh] enter_Inr [OF en] snap show ?thesis
    by (intro exI [of _ p] exI [of _ received] exI [of _ c]) simp
next
  assume "vault_mint H V e minted receiver from operator s w = Inr (x, s', w')"
  then obtain p0 p sb received where en: "enter H V e from receiver operator x s w = Inr (p, sb)"
    and p0: "vault_snapshot H V e s w = Inr p0" "to_assets p0 minted True = Inr x"
    and pl: "pull H e from x sb w = Inr (received, w')" "x \<le> received"
    and cr: "credit receiver minted sb = Inr s'"
    by (auto simp: vault_mint_def rs not_less)
  note snap = accrue_now_snapshot [OF enter_Inr(6) [OF en]]
  have p: "p0 = p" using snap(1) p0(1) by simp
  from pl snap(3) obtain c where "vt_config s = Some c" "x \<le>
      tk_balance H (vc_asset c) (current_contract e) w' - tk_balance H (vc_asset c) (current_contract e) w"
    by (auto simp: pull_def rs)
  with credit_supply [OF cr] conversions_fair(2) [OF p0(2)] enter_Inr [OF en] snap p show ?thesis
    by (intro exI [of _ p] exI [of _ x] exI [of _ c]) simp
qed

theorem vault_entry_fair_witness:
  "\<exists>s' w' p paid. deposit vw_host vw_venues (demo_env 5) 1000 bob bob bob demo_vault demo_world = Inr (1000000000, s', w') \<and>
     vault_snapshot vw_host vw_venues (demo_env 5) demo_vault demo_world = Inr p \<and> sn_nav p = 0 \<and>
     fair_entry p paid 1000000000 \<and> paid \<le> 1000"
proof -
  obtain s' w' where d: "deposit vw_host vw_venues (demo_env 5) 1000 bob bob bob demo_vault demo_world = Inr (1000000000, s', w')"
    and gain: "tk_balance vw_host token_a this_contract w' = 1000" "tk_balance vw_host token_a this_contract demo_world = 0"
    by (simp add: deposit_def enter_def pull_def credit_def vault_eval demo_defs)
  have nav: "sn_nav p = 0" if "vault_snapshot vw_host vw_venues (demo_env 5) demo_vault demo_world = Inr p" for p
    using that by (auto simp: vault_eval demo_defs)
  have cfg: "vc_asset c = token_a" if "vt_config demo_vault = Some c" for c :: VaultConfig
    using that by (auto simp: demo_vault_def fresh_vault_def demo_config_def)
  from vault_entry_fair [OF disjI1 [OF d]] obtain p paid and c :: VaultConfig where
    "vault_snapshot vw_host vw_venues (demo_env 5) demo_vault demo_world = Inr p" "vt_config demo_vault = Some c"
    "fair_entry p paid 1000000000"
    "paid \<le> tk_balance vw_host (vc_asset c) this_contract w' - tk_balance vw_host (vc_asset c) this_contract demo_world"
    by auto
  with d gain nav cfg show ?thesis by auto
qed

text \<open>
  C5 (safety). Nobody leaves the vault at the other holders' expense. At the share price of the snapshot the
  call itself takes, the assets a withdrawal or a redemption pays are worth no more than the shares it
  burns; they are burned from the holder alone, only the holder or an operator within the holder's
  allowance can make the call, and the payment is one transfer of exactly that amount out of an idle balance that covers it.
\<close>

theorem vault_exit_fair:
  assumes "withdraw H V e assets receiver holder operator s w = Inr (burned, s', w') \<or>
    redeem H V e burned receiver holder operator s w = Inr (assets, s', w')"
  shows "\<exists>p sa w1 c. accrue_now H V e s w = Inr (p, sa) \<and> vault_snapshot H V e s w = Inr p \<and> vt_config s = Some c \<and>
     0 < burned \<and> 0 < assets \<and> fair_exit p assets burned \<and> share_supply (vt_shares s') = sn_supply p - burned \<and>
     balance (vt_shares s') = (balance (vt_shares sa))(holder := balance (vt_shares sa) holder - burned) \<and>
     authorised e operator \<and> (operator = holder \<or> burned \<le> allowance e holder operator (vt_shares sa)) \<and>
     draw H V e s' assets (venues s) w = Inr w1 \<and>
     assets \<le> tk_balance H (vc_asset c) (current_contract e) w1 \<and>
     token_transfer H e (vc_asset c) (current_contract e) receiver assets w1 = (Inr w' :: (VaultError, 'w) res)"
proof -
  from assms obtain p sa where acc: "accrue_now H V e s w = Inr (p, sa)"
    and ex: "exit_to H V e holder operator receiver burned assets sa w = Inr (s', w')"
    and fair: "fair_exit p assets burned"
    by (auto simp: withdraw_def redeem_def rs dest: conversions_fair(3,4))
  note snap = accrue_now_snapshot [OF acc]
  obtain sh where sa: "sa = s\<lparr>vt_shares := sh\<rparr>" using acc by (auto elim: accrue_now_Inr)
  from ex obtain sh' where s': "s' = sa\<lparr>vt_shares := sh'\<rparr>" and sd: "send H V e receiver assets s' w = Inr w'"
    by (auto elim: exit_Inr)
  from sd s' sa obtain w1 c where "draw H V e s' assets (venues s) w = Inr w1" "vt_config s = Some c"
    "assets \<le> tk_balance H (vc_asset c) (current_contract e) w1"
    "token_transfer H e (vc_asset c) (current_contract e) receiver assets w1 = (Inr w' :: (VaultError, 'w) res)"
    by (auto simp: send_def rs not_less)
  with acc snap exit_supply [OF ex] fair show ?thesis
    by (intro exI [of _ p] exI [of _ sa] exI [of _ w1] exI [of _ c]) simp
qed

theorem vault_exit_fair_witness:
  "\<exists>s' w' p. redeem vw_host vw_venues (demo_env 5) 500000000 carol bob bob held_vault held_world = Inr (500, s', w') \<and>
     fair_exit p 500 500000000 \<and> share_supply (vt_shares s') = sn_supply p - 500000000"
proof -
  obtain s' w' where r: "redeem vw_host vw_venues (demo_env 5) 500000000 carol bob bob held_vault held_world = Inr (500, s', w')"
    by (simp add: redeem_def exit_to_def send_def vault_eval demo_defs)
  from vault_exit_fair [OF disjI2 [OF r]] obtain p where "fair_exit p 500 500000000"
    "share_supply (vt_shares s') = sn_supply p - 500000000" by auto
  with r show ?thesis by blast
qed

text \<open>
  No governed parameter changes early. Whatever happened since deployment, a change that
  \<open>accept\<close> applies is one the curator submitted at least the timelock's delay before, under its own kind;
  it is consumed, and it is the only thing of the configuration or the venue set that the call changes.
\<close>

theorem vault_change_waits:
  assumes "vault_run H V me evs s" "accept H V e k s w = Inr (s', w')"
  shows "\<exists>change e0 c c' vs. (e0, V_submit change) \<in> set evs \<and> kind change = k \<and>
     ledger_timestamp e0 + delay (vt_timelock s) \<le> ledger_timestamp e \<and>
     tl_pending (vt_timelock s') k = None \<and> vt_config s = Some c \<and> vt_config s' = Some c' \<and> venues s' = vs \<and>
     (case change of
        CuratorFee bps \<Rightarrow> c' = c\<lparr>vc_curator_fee_bps := bps\<rparr> \<and> vs = venues s
      | DepositCap cap \<Rightarrow> c' = c\<lparr>vc_deposit_cap := cap\<rparr> \<and> vs = venues s
      | Venue wasm venue \<Rightarrow> c' = c \<and> (\<exists>adapter. vs = venues s @ [adapter]))"
proof -
  from assms(2) obtain c change t where c: "vt_config s = Some c"
    and tk: "take_change e k (vt_timelock s) = Inr (change, t)"
    by (auto simp: accept_def rs)
  from tk obtain v where v: "tl_pending (vt_timelock s) k = Some (change, v)" "v \<le> ledger_timestamp e"
    by (auto simp: rs)
  from vault_run_pending [OF assms(1) v(1)] obtain e0 where
    e0: "(e0, V_submit change) \<in> set evs" "kind change = k" "v = ledger_timestamp e0 + delay (vt_timelock s)" by blast
  have none: "tl_pending (vt_timelock s') k = None"
    using assms(2) by (rule accept_timelock) simp
  have "\<exists>c' vs. vt_config s' = Some c' \<and> venues s' = vs \<and>
     (case change of
        CuratorFee bps \<Rightarrow> c' = c\<lparr>vc_curator_fee_bps := bps\<rparr> \<and> vs = venues s
      | DepositCap cap \<Rightarrow> c' = c\<lparr>vc_deposit_cap := cap\<rparr> \<and> vs = venues s
      | Venue wasm venue \<Rightarrow> c' = c \<and> (\<exists>adapter. vs = venues s @ [adapter]))"
    using assms(2) c tk
    by (cases change) (auto simp: accept_def vault_config_def accrue_now_def add_venue_def Let_def and_then_Inr_iff
        venues_def split: if_splits)
  with e0 v(2) none c show ?thesis by blast
qed

theorem vault_change_waits_witness:
  "\<exists>s1 s2 w change e0. vault_submit (demo_env 1) (CuratorFee 2000) fresh_vault = Inr (101, s1) \<and>
     accept vw_host vw_venues (demo_env 101) 0 s1 demo_world = Inr (s2, w) \<and>
     (e0, V_submit change) \<in> {(demo_env 1, V_submit (CuratorFee 2000))} \<and>
     ledger_timestamp e0 + delay (vt_timelock s1) \<le> 101"
proof -
  obtain s1 s2 w where s: "vault_submit (demo_env 1) (CuratorFee 2000) fresh_vault = Inr (101, s1)"
    "accept vw_host vw_venues (demo_env 101) 0 s1 demo_world = Inr (s2, w)"
    by (simp add: vault_submit_def submit_def delay_def curator_auth_def accept_def take_change_def kind_def vault_eval demo_defs)
  have "vault_exec vw_host vw_venues (demo_env 1) (V_submit (CuratorFee 2000)) fresh_vault demo_world = Inr (s1, demo_world)"
    using s(1) by (simp add: vault_exec_def)
  from vault_run.call [OF fresh_vault_run _ this]
  have run: "vault_run vw_host vw_venues this_contract [(demo_env 1, V_submit (CuratorFee 2000))] s1" by simp
  from vault_change_waits [OF run s(2)] s show ?thesis by fastforce
qed

text \<open>
  The order in which exits draw on the venues can only be permuted: \<open>set_venue_order\<close> accepts
  exactly a rearrangement of the enabled venues, never one that drops, adds or repeats a venue.
\<close>

theorem venue_order_is_permutation:
  assumes "set_venue_order e order s = Inr s'"
  shows "venues s' = order \<and> distinct order \<and> set order = set (venues s) \<and> length order = length (venues s) \<and>
    (\<exists>c. vt_config s = Some c \<and> authorised e (vc_manager c))"
proof -
  from assms have chk: "check_order (venues s) order order = Inr ()" and len: "length order = length (venues s)"
    and s': "s' = s\<lparr>vt_venues := Some order\<rparr>" and auth: "\<exists>c. vt_config s = Some c \<and> authorised e (vc_manager c)"
    by (auto simp: set_venue_order_def rs)
  have dist: "distinct order" by (rule check_order_distinct [OF chk])
  have sub: "set order \<subseteq> set (venues s)" using check_order_Inr [OF chk] by simp
  have "card (set order) = length (venues s)" using dist len by (simp add: distinct_card)
  then have "card (set (venues s)) \<le> card (set order)" by (simp add: card_length)
  with sub have "set order = set (venues s)" by (intro card_seteq) auto
  with dist len s' auth show ?thesis by (simp add: venues_def)
qed

theorem venue_order_is_permutation_witness:
  "\<exists>s'. set_venue_order (demo_env 1) [venue_b, venue_a] demo_vault = Inr s' \<and> set [venue_b, venue_a] = set (venues demo_vault)"
proof -
  obtain s' where "set_venue_order (demo_env 1) [venue_b, venue_a] demo_vault = Inr s'"
    by (simp add: set_venue_order_def manager_auth_def last_index_of_def vault_eval demo_defs)
  with venue_order_is_permutation [OF this] show ?thesis by blast
qed

text \<open>
  No position is orphaned: dropping a venue never lowers the net asset value the vault reports,
  and removes exactly that venue, which held nothing.
\<close>

theorem disable_venue_keeps_nav:
  assumes "disable_venue V e adapter s w = Inr s'" "gross H V e s w = Inr nav" "gross H V e s' w = Inr nav'"
  shows "nav \<le> nav' \<and> venues s' = remove1 adapter (venues s) \<and> adapter \<in> set (venues s)"
proof -
  from assms(1) obtain i held where i: "index_of adapter (venues s) = Some i"
    and held: "va_total_assets V adapter w = Some held" "held \<le> 0"
    and s': "s' = s\<lparr>vt_venues := Some (remove_at i (venues s))\<rparr>"
    by (auto simp: disable_venue_def venue_index_def rs not_less)
  have vs: "venues s' = remove1 adapter (venues s)"
    using remove_at_index_of [OF i] by (simp add: s' venues_def)
  have mem: "adapter \<in> set (venues s)" using i index_of_not_None by fastforce
  from assms(2,3) obtain c :: VaultConfig where
    "nav = tk_balance H (vc_asset c) (current_contract e) w + (\<Sum>v\<leftarrow>venues s. the (va_total_assets V v w))"
    "nav' = tk_balance H (vc_asset c) (current_contract e) w + (\<Sum>v\<leftarrow>venues s'. the (va_total_assets V v w))"
    by (auto simp: gross_def rs s' dest!: add_up_Inr)
  with vs mem held show ?thesis by (simp add: sum_list_remove1_int)
qed

theorem disable_venue_keeps_nav_witness:
  "\<exists>s'. disable_venue vw_venues (demo_env 1) venue_b held_vault held_world = Inr s' \<and>
     gross vw_host vw_venues (demo_env 1) held_vault held_world = Inr 1000 \<and>
     gross vw_host vw_venues (demo_env 1) s' held_world = Inr 1000 \<and> venues s' = remove1 venue_b (venues held_vault)"
proof -
  let ?s = "held_vault\<lparr>vt_venues := Some [venue_a]\<rparr>"
  have s: "disable_venue vw_venues (demo_env 1) venue_b held_vault held_world = Inr ?s"
    "gross vw_host vw_venues (demo_env 1) held_vault held_world = Inr 1000"
    "gross vw_host vw_venues (demo_env 1) ?s held_world = Inr 1000"
    by (simp_all add: disable_venue_def curator_auth_def remove_at_def vault_eval demo_defs)
  from disable_venue_keeps_nav [OF s] s show ?thesis by blast
qed

end
