(* ===== verification/Vault_Liquidity.thy ===== *)
theory Vault_Liquidity
  imports Vault_Props
begin

text \<open>
  What a vault relies on in any venue, \<open>venue_laws\<close>: under these laws an exit finds the liquidity the vault
  reports. The mock venue on the repository's token meets them.
\<close>

subsection \<open>What a vault relies on\<close>

text \<open>
  \<open>sound\<close> is the state of the world the laws hold in, \<open>vs\<close> the venues of the vault at \<open>me\<close>: a venue can say
  what it can pay; asked by its vault for a positive amount up to that, it pays exactly that, and no other
  venue can pay less for it and nobody else's balance moves.
\<close>

text \<open>What the venues can pay together.\<close>

definition payable :: "'w venue_host \<Rightarrow> address list \<Rightarrow> 'w \<Rightarrow> int" where
  "payable V us w = (\<Sum>u\<leftarrow>us. max 0 (the (va_max_withdraw V u w)))"

lemma payable_cong:
  "(\<forall>u \<in> set us. va_max_withdraw V u w' = va_max_withdraw V u w) \<Longrightarrow> payable V us w' = payable V us w"
  by (simp add: payable_def cong: map_cong)

locale venue_laws =
  fixes H :: "'w host" and V :: "'w venue_host" and me :: address and asset :: address
    and vs :: "address set" and sound :: "'w \<Rightarrow> bool"
  assumes says: "sound w \<Longrightarrow> v \<in> vs \<Longrightarrow> \<exists>m. va_max_withdraw V v w = Some m"
    and pays: "sound w \<Longrightarrow> v \<in> vs \<Longrightarrow> va_max_withdraw V v w = Some m \<Longrightarrow> 0 < x \<Longrightarrow> x \<le> m \<Longrightarrow>
      current_contract (e :: env) = me \<Longrightarrow>
      \<exists>w'. va_withdraw V (calling e v) v x me w = Some (x, w') \<and> sound w' \<and>
        tk_balance H asset me w' = tk_balance H asset me w + x \<and>
        (\<forall>u \<in> vs - {v}. va_max_withdraw V u w' = va_max_withdraw V u w) \<and>
        (\<forall>a. a \<noteq> me \<longrightarrow> a \<notin> vs \<longrightarrow> tk_balance H asset a w' = tk_balance H asset a w)"
    and fits: "sound w \<Longrightarrow> 0 \<le> tk_balance H asset me w \<and> is_i128 (tk_balance H asset me w)"
begin

lemma draw_reaches:
  assumes "sound w" "set us \<subseteq> vs" "distinct us" "vt_config s = Some c" "vc_asset c = asset"
    and "current_contract e = me" "is_i128 assets" "0 < assets"
    and "assets \<le> tk_balance H asset me w + payable V us w"
  shows "\<exists>w'. draw H V e s assets us w = Inr w' \<and> sound w' \<and> assets \<le> tk_balance H asset me w' \<and>
    (\<forall>a. a \<noteq> me \<longrightarrow> a \<notin> vs \<longrightarrow> tk_balance H asset a w' = tk_balance H asset a w)"
  using assms(1-3,9)
proof (induction us arbitrary: w)
  case Nil
  then show ?case by (simp add: payable_def)
next
  case (Cons v us)
  let ?b = "tk_balance H asset me w"
  have idle: "idle H e s w = Inr ?b" using assms(4-6) by (simp add: idle_def vault_config_def)
  have "is_i128 (assets - ?b)"
    using fits [OF Cons.prems(1)] assms(7,8) by (auto simp: width_defs)
  then have short: "i128_sub assets ?b = (Inr (assets - ?b) :: (VaultError, int) res)"
    by (simp add: i128_sub_def i128_checked_def)
  show ?case
  proof (cases "assets \<le> ?b")
    case True
    with Cons.prems(1) show ?thesis by (simp add: idle short)
  next
    case False
    obtain m where m: "va_max_withdraw V v w = Some m" using says [OF Cons.prems(1), of v] Cons.prems(2) by auto
    let ?x = "min (assets - ?b) m"
    have rest: "set us \<subseteq> vs" "distinct us" "v \<notin> set us" and bound: "assets \<le> ?b + max 0 m + payable V us w"
      using Cons.prems(2-4) m by (auto simp: payable_def)
    show ?thesis
    proof (cases "0 < ?x")
      case True
      then obtain w1 where wd: "va_withdraw V (calling e v) v ?x me w = Some (?x, w1)" and "sound w1"
        and b1: "tk_balance H asset me w1 = ?b + ?x"
        and others: "\<forall>u \<in> vs - {v}. va_max_withdraw V u w1 = va_max_withdraw V u w"
        and frame: "\<forall>a. a \<noteq> me \<longrightarrow> a \<notin> vs \<longrightarrow> tk_balance H asset a w1 = tk_balance H asset a w"
        using pays [OF Cons.prems(1) _ m True _ assms(6)] Cons.prems(2) by auto
      have "payable V us w1 = payable V us w"
        using others rest by (intro payable_cong) auto
      moreover have "0 \<le> payable V us w" unfolding payable_def by (intro sum_list_nonneg) auto
      ultimately have "assets \<le> tk_balance H asset me w1 + payable V us w1"
        using bound b1 True by (auto simp: min_def split: if_splits)
      from Cons.IH [OF \<open>sound w1\<close> rest(1,2) this] obtain w' where
        "draw H V e s assets us w1 = Inr w'" "sound w'" "assets \<le> tk_balance H asset me w'"
        "\<forall>a. a \<noteq> me \<longrightarrow> a \<notin> vs \<longrightarrow> tk_balance H asset a w' = tk_balance H asset a w1" by blast
      moreover have "draw H V e s assets (v # us) w = draw H V e s assets us w1"
        using False True wd m assms(6) by (simp add: idle short Let_def)
      ultimately show ?thesis using frame by auto
    next
      case False
      with \<open>\<not> assets \<le> ?b\<close> have "m \<le> 0" by simp
      with bound have "assets \<le> ?b + payable V us w" by simp
      from Cons.IH [OF Cons.prems(1) rest(1,2) this] show ?thesis
        using False \<open>\<not> assets \<le> ?b\<close> m by (simp add: idle short Let_def)
    qed
  qed
qed

text \<open>Exactly what is needed: \<open>send\<close> gets as far as its final transfer if and only if the liquidity is there.\<close>

lemma send_reaches_transfer:
  assumes "sound w" "set (venues s) \<subseteq> vs" "distinct (venues s)" "vt_config s = Some c" "vc_asset c = asset"
    and "current_contract e = me" "is_i128 assets" "0 < assets"
    and "assets \<le> tk_balance H asset me w + payable V (venues s) w"
  shows "\<exists>w1. draw H V e s assets (venues s) w = Inr w1 \<and> sound w1 \<and> assets \<le> tk_balance H asset me w1 \<and>
     (\<forall>a. a \<noteq> me \<longrightarrow> a \<notin> vs \<longrightarrow> tk_balance H asset a w1 = tk_balance H asset a w) \<and>
     send H V e to assets s w = token_transfer H e asset me to assets w1"
proof -
  from draw_reaches [OF assms] obtain w1 where w1: "draw H V e s assets (venues s) w = Inr w1" "sound w1"
    "assets \<le> tk_balance H asset me w1" "\<forall>a. a \<noteq> me \<longrightarrow> a \<notin> vs \<longrightarrow> tk_balance H asset a w1 = tk_balance H asset a w" by blast
  then have "send H V e to assets s w = token_transfer H e asset me to assets w1"
    using assms(4-6) by (simp add: send_def idle_def vault_config_def)
  with w1 show ?thesis by blast
qed

end

subsection \<open>The mock venue meets the laws\<close>

text \<open>
  A world in which the venues \<open>vs\<close> belong to the vault \<open>me\<close> and the asset's balances are sound: none negative,
  and together, over any accounts, no more than an \<open>i128\<close> holds.
\<close>

definition sound_balances :: "(address \<Rightarrow> int) \<Rightarrow> bool" where
  "sound_balances f \<longleftrightarrow> (\<forall>a. 0 \<le> f a) \<and> (\<forall>K. finite K \<longrightarrow> total_over K f \<le> i128_max)"

definition venues_sound :: "address \<Rightarrow> address \<Rightarrow> address set \<Rightarrow> venue_world \<Rightarrow> bool" where
  "venues_sound me asset vs w \<longleftrightarrow> me \<notin> vs \<and> sound_balances (\<lambda>a. tk_balance vw_host asset a w) \<and>
     (\<forall>v \<in> vs. mv_owner (snd w v) = Some me \<and> mv_asset (snd w v) = Some asset)"

lemma sound_balances_pair:
  assumes "sound_balances f" "a \<noteq> b"
  shows "f a + f b \<le> i128_max" "0 \<le> f a"
proof -
  have "total_over {a, b} f \<le> i128_max" using assms(1) by (simp add: sound_balances_def)
  with assms(2) show "f a + f b \<le> i128_max" by (simp add: total_over_def)
  show "0 \<le> f a" using assms(1) by (simp add: sound_balances_def)
qed

lemma sound_balances_moved:
  assumes "sound_balances f" "0 \<le> x" "x \<le> f a"
  shows "sound_balances (moved a b x f)"
proof -
  have "0 \<le> moved a b x f c" for c
    using assms by (auto simp: moved_def sound_balances_def)
  moreover have "total_over K (moved a b x f) \<le> i128_max" if "finite K" for K
  proof -
    let ?L = "K \<union> {a, b}"
    have "total_over K (moved a b x f) \<le> total_over ?L (moved a b x f)"
      unfolding total_over_def using that calculation by (intro sum_mono2) auto
    also have "\<dots> = total_over ?L f" using that by (intro moved_total) auto
    also have "\<dots> \<le> i128_max" using that assms(1) by (simp add: sound_balances_def)
    finally show ?thesis .
  qed
  ultimately show ?thesis by (simp add: sound_balances_def)
qed

text \<open>The token never refuses a transfer its balances cover.\<close>

lemma vw_transfer_succeeds:
  assumes "sound_balances (\<lambda>a. tk_balance vw_host tok a w)" "0 \<le> x" "x \<le> tk_balance vw_host tok a w" "authorised e a"
  shows "\<exists>w'. tk_transfer vw_host e tok a b x w = Some w' \<and> snd w' = snd w"
proof -
  let ?f = "\<lambda>c. read_balance (fst (fst w) tok) c"
  have f: "tk_balance vw_host tok c w = ?f c" for c
    by (simp add: vw_host_def ledger_host_def lift_host_def)
  have *: "sound_balances ?f" using assms(1) by (simp add: f)
  have bal: "x \<le> ?f a" using assms(3) by (simp add: f)
  have "?f a \<le> i128_max" "0 \<le> ?f a" "a \<noteq> b \<Longrightarrow> ?f b + x \<le> i128_max" "0 \<le> ?f b"
    using sound_balances_pair [OF *, of b a] sound_balances_pair [OF *, of a] bal *
    by (auto simp: sound_balances_def total_over_def dest: spec [where x = "{a}"])
  then have "is_i128 (?f a - x)" "a \<noteq> b \<Longrightarrow> is_i128 (?f b + x)" "is_i128 (?f a)"
    using bal assms(2) by (auto simp: width_defs)
  then have "\<exists>s. tt_transfer e a b x (fst (fst w) tok) = Inr s"
    using assms(2,4) bal
    by (cases "a = b") (auto simp: tt_transfer_def check_nonneg_def do_transfer_def require_auth_def Let_def
        i128_sub_def i128_add_def i128_checked_def)
  then show ?thesis by (auto simp: vw_host_def ledger_host_def lift_host_def)
qed

interpretation mock: venue_laws vw_host vw_venues me asset vs "venues_sound me asset vs" for me asset vs
proof
  fix w v
  assume "venues_sound me asset vs w" "v \<in> vs"
  then show "\<exists>m. va_max_withdraw vw_venues v w = Some m"
    by (simp add: vw_venues_def mv_max_withdraw_def mv_total_assets_def venues_sound_def)
next
  fix w
  assume "venues_sound me asset vs w"
  then have *: "sound_balances (\<lambda>a. tk_balance vw_host asset a w)" by (simp add: venues_sound_def)
  then have "total_over {me} (\<lambda>a. tk_balance vw_host asset a w) \<le> i128_max" by (simp add: sound_balances_def)
  with * show "0 \<le> tk_balance vw_host asset me w \<and> is_i128 (tk_balance vw_host asset me w)"
    by (auto simp: sound_balances_def total_over_def is_i128_nonneg)
next
  fix w v m x and e :: env
  assume snd: "venues_sound me asset vs w" and v: "v \<in> vs" and m: "va_max_withdraw vw_venues v w = Some m"
    and x: "0 < x" "x \<le> m" and e: "current_contract e = me"
  have ok: "mv_owner (snd w v) = Some me" "mv_asset (snd w v) = Some asset" "v \<noteq> me"
    and bal: "sound_balances (\<lambda>a. tk_balance vw_host asset a w)"
    using snd v by (auto simp: venues_sound_def)
  have held: "x \<le> tk_balance vw_host asset v w"
    using m x ok by (auto simp: vw_venues_def mv_max_withdraw_def mv_total_assets_def split: option.splits)
  have mw: "mv_max_withdraw vw_host v (snd w v) w = Inr m"
    using m by (simp add: vw_venues_def try_call_Some_iff)
  have auth: "authorised (calling (calling e v) asset) v" by simp
  from vw_transfer_succeeds [OF bal _ held auth, of me] x obtain w' where
    tr: "tk_transfer vw_host (calling (calling e v) asset) asset v me x w = Some w'" and snd': "snd w' = snd w"
    by auto
  have "min x m = x" "max x 0 = x" using x by auto
  then have wd: "va_withdraw vw_venues (calling e v) v x me w = Some (x, w')"
    using ok mw e tr x by (simp add: vw_venues_def mv_withdraw_def require_auth_def token_transfer_def try_call_def)
  note mv = vw.host_transfer [OF tr]
  have b: "tk_balance vw_host asset c w' = moved v me x (\<lambda>c. tk_balance vw_host asset c w) c" for c
    using mv by simp
  have "sound_balances (\<lambda>a. tk_balance vw_host asset a w')"
    using sound_balances_moved [OF bal _ held, of me] x by (simp add: b)
  then have "venues_sound me asset vs w'" using snd snd' by (simp add: venues_sound_def)
  moreover have "\<forall>u \<in> vs - {v}. va_max_withdraw vw_venues u w' = va_max_withdraw vw_venues u w"
    using snd snd' by (auto simp: vw_venues_def mv_max_withdraw_def mv_total_assets_def venues_sound_def b moved_def
        split: option.splits)
  ultimately show "\<exists>w'. va_withdraw vw_venues (calling e v) v x me w = Some (x, w') \<and> venues_sound me asset vs w' \<and>
        tk_balance vw_host asset me w' = tk_balance vw_host asset me w + x \<and>
        (\<forall>u \<in> vs - {v}. va_max_withdraw vw_venues u w' = va_max_withdraw vw_venues u w) \<and>
        (\<forall>a. a \<noteq> me \<longrightarrow> a \<notin> vs \<longrightarrow> tk_balance vw_host asset a w' = tk_balance vw_host asset a w)"
    using wd b ok(3) v by (auto simp: moved_def)
qed

text \<open>
  C11 (liveness). An exit finds the liquidity the vault reports. In a world of the repository's token and mock
  venues, with the venues owned by the vault and the asset's balances sound, a payment of any amount up to
  the idle balance plus what the enabled venues can pay together goes through: the venues are drawn on in
  order until idle covers it, and the receiver is credited exactly the amount.
\<close>

theorem vault_exit_finds_liquidity:
  assumes "venues_sound me (vc_asset c) vs w" "set (venues s) \<subseteq> vs" "distinct (venues s)" "vt_config s = Some c"
    and "current_contract e = me" "is_i128 assets" "0 < assets" "to \<noteq> me" "to \<notin> vs"
    and "assets \<le> tk_balance vw_host (vc_asset c) me w + payable vw_venues (venues s) w"
  shows "\<exists>w'. send vw_host vw_venues e to assets s w = Inr w' \<and> venues_sound me (vc_asset c) vs w' \<and>
    tk_balance vw_host (vc_asset c) to w' = tk_balance vw_host (vc_asset c) to w + assets"
proof -
  from mock.send_reaches_transfer [OF assms(1-4) refl assms(5-7,10), of to] obtain w1 where
    w1: "venues_sound me (vc_asset c) vs w1" "assets \<le> tk_balance vw_host (vc_asset c) me w1"
    and frame: "tk_balance vw_host (vc_asset c) to w1 = tk_balance vw_host (vc_asset c) to w"
    and sd: "send vw_host vw_venues e to assets s w = token_transfer vw_host e (vc_asset c) me to assets w1"
    using assms(8,9) by blast
  have bal: "sound_balances (\<lambda>a. tk_balance vw_host (vc_asset c) a w1)" using w1(1) by (simp add: venues_sound_def)
  from vw_transfer_succeeds [OF bal _ w1(2), of "calling e (vc_asset c)" to] assms(5,7) obtain w2 where
    tr: "tk_transfer vw_host (calling e (vc_asset c)) (vc_asset c) me to assets w1 = Some w2" and s2: "snd w2 = snd w1"
    by auto
  have b: "tk_balance vw_host (vc_asset c) a w2 = moved me to assets (\<lambda>a. tk_balance vw_host (vc_asset c) a w1) a" for a
    using vw.host_transfer [OF tr] by simp
  have "venues_sound me (vc_asset c) vs w2"
    using w1 s2 sound_balances_moved [OF bal _ w1(2), of to] assms(7) by (simp add: venues_sound_def b)
  then show ?thesis using sd tr frame b [of to] assms(8) by (simp add: token_transfer_def moved_def)
qed

theorem vault_exit_finds_liquidity_witness:
  "\<exists>w'. send vw_host vw_venues (demo_env 5) carol 900 held_vault held_world = Inr w' \<and>
     tk_balance vw_host token_a carol w' = 900"
proof -
  have held: "tk_balance vw_host token_a a held_world =
      (if a = alice then 10000 else if a = bob then 9000 else if a = this_contract then 400
       else if a = venue_a then 600 else 0)" for a
    by (simp add: vault_eval demo_defs)
  have "total_over K (\<lambda>a. tk_balance vw_host token_a a held_world) \<le> i128_max" if "finite K" for K
  proof -
    let ?K = "{alice, bob, this_contract, venue_a}"
    have "total_over K (\<lambda>a. tk_balance vw_host token_a a held_world) \<le>
        total_over (K \<union> ?K) (\<lambda>a. tk_balance vw_host token_a a held_world)"
      unfolding total_over_def using that by (intro sum_mono2) (auto simp: held)
    also have "\<dots> = total_over ?K (\<lambda>a. tk_balance vw_host token_a a held_world)"
      using that by (intro total_over_extend) (auto simp: held)
    also have "\<dots> \<le> i128_max" by (simp add: total_over_def vault_eval demo_defs)
    finally show ?thesis .
  qed
  then have snd: "venues_sound this_contract (vc_asset demo_config) {venue_a, venue_b} held_world"
    by (auto simp: venues_sound_def sound_balances_def held demo_config_def)
      (simp_all add: vault_eval demo_defs)
  have bal: "900 \<le> tk_balance vw_host (vc_asset demo_config) this_contract held_world + payable vw_venues (venues held_vault) held_world"
    by (simp add: payable_def vault_eval demo_defs)
  have "\<exists>w'. send vw_host vw_venues (demo_env 5) carol 900 held_vault held_world = Inr w' \<and>
      venues_sound this_contract (vc_asset demo_config) {venue_a, venue_b} w' \<and>
      tk_balance vw_host (vc_asset demo_config) carol w' = tk_balance vw_host (vc_asset demo_config) carol held_world + 900"
    by (rule vault_exit_finds_liquidity [OF snd _ _ _ _ _ _ _ _ bal]) (simp_all add: vault_eval demo_defs)
  moreover have "tk_balance vw_host token_a carol held_world = 0" by (simp add: vault_eval demo_defs)
  ultimately show ?thesis by (auto simp: demo_config_def)
qed

end
