(* ===== verification/Facility.thy ===== *)
theory Facility
  imports Shares Timelock
begin

unbundle bit_operations_syntax

text \<open>
  \<open>contracts/facility/src/lib.rs\<close>: the orchestrator that holds shares of its vaults, issues oLP against all of
  them and trades RWA against base and against each other. Its storage is the record \<open>facility\<close>; its vaults,
  the oracles and the aggregator that deployed it are reached through the parameters \<open>host\<close> and \<open>vault_fns\<close>.
  A function that returns \<open>Result\<close> in the source returns a \<open>Result\<close> value inside the result of a call that
  may itself panic.
\<close>

datatype FacilityError = F_InvalidAmount | F_InvalidConfig | F_UnsupportedPair | F_NotAccepted | F_NoPrice
  | F_CapExceeded | F_InsufficientLiquidity | F_BelowMinOut | F_NotAllowlisted | F_TooManyRwas | F_StillHeld
  | F_RedemptionOpen | F_NoRedemption | F_NotFullyRepaid | F_Paused
  | FShare ShareError | FTimelock TimelockError

definition MAX_RWAS :: nat where "MAX_RWAS = 8"
definition MAX_FEE_BPS :: nat where "MAX_FEE_BPS = 5000"

record FacilityConfig =
  fg_base_vault :: address
  fg_curator :: address
  fg_manager :: address
  fg_guardian :: address
  fg_name :: string
  fg_symbol :: string
  fg_curator_fee_bps :: nat
  fg_vest_seconds :: nat
  fg_timelock :: nat

record Terms =
  tm_accepted :: bool
  tm_bid_rate :: nat
  tm_ask_rate :: nat
  tm_max_bps :: nat
  tm_oracle :: address
  tm_max_price_age :: nat
  tm_schedule :: Schedule
  tm_redemption :: address

record Rwa =
  rw_vault :: address
  rw_terms :: Terms

record Redemption =
  rd_amount :: int
  rd_carried :: int

datatype FacChange = F_CuratorFee nat | F_Vest nat | F_Queue address | F_Rwa address address Terms

record facility =
  fc_host :: "address option"
  fc_base :: "address option"
  fc_config :: "FacilityConfig option"
  fc_queue :: "address option"
  fc_rwas :: "address list option"
  fc_locked :: "(int \<times> nat \<times> nat) option"
  fc_paused :: "bool option"
  fc_rwa :: "address \<rightharpoonup> Rwa"
  fc_redemption :: "address \<rightharpoonup> Redemption"
  fc_shares :: shares
  fc_timelock :: "FacChange timelock"

definition facility_empty :: facility where
  "facility_empty = \<lparr>fc_host = None, fc_base = None, fc_config = None, fc_queue = None, fc_rwas = None,
     fc_locked = None, fc_paused = None, fc_rwa = Map.empty, fc_redemption = Map.empty, fc_shares = sh_empty,
     fc_timelock = tl_empty\<rparr>"

text \<open>A gain or loss against the oracle mark, in base units.\<close>

record Trade =
  td_out :: int
  td_gain :: int

text \<open>
  \<open>VaultFns\<close>, the vault functions the facility uses; beside them the decimals of a token and the admin of the
  aggregator that deployed the facility. \<open>None\<close> is a call that fails.
\<close>

record 'w vault_fns =
  vf_query_asset :: "address \<Rightarrow> 'w \<Rightarrow> address option"
  vf_deposit :: "env \<Rightarrow> address \<Rightarrow> int \<Rightarrow> address \<Rightarrow> address \<Rightarrow> address \<Rightarrow> 'w \<Rightarrow> (int \<times> 'w) option"
  vf_withdraw :: "env \<Rightarrow> address \<Rightarrow> int \<Rightarrow> address \<Rightarrow> address \<Rightarrow> address \<Rightarrow> 'w \<Rightarrow> (int \<times> 'w) option"
  vf_convert_to_assets :: "env \<Rightarrow> address \<Rightarrow> int \<Rightarrow> 'w \<Rightarrow> int option"
  vf_max_withdraw :: "env \<Rightarrow> address \<Rightarrow> address \<Rightarrow> 'w \<Rightarrow> int option"
  vf_balance :: "address \<Rightarrow> address \<Rightarrow> 'w \<Rightarrow> int option"
  vf_decimals :: "address \<Rightarrow> 'w \<Rightarrow> nat option"
  vf_host_admin :: "address \<Rightarrow> 'w \<Rightarrow> address option"

text \<open>\<open>Result\<close> values: \<open>ok_then\<close> is the \<open>?\<close> operator, \<open>ok_or_panic\<close> is \<open>unwrap_or_else(|e| panic_with_error!(env, e))\<close>.\<close>

type_synonym 'a fac_result = "(FacilityError, FacilityError + 'a) res"

definition ok_then :: "'a fac_result \<Rightarrow> ('a \<Rightarrow> 'b fac_result) \<Rightarrow> 'b fac_result" where
  "ok_then m f = and_then m (\<lambda>r. case r of Inl err \<Rightarrow> Inr (Inl err) | Inr v \<Rightarrow> f v)"

definition ok_or_panic :: "'a fac_result \<Rightarrow> (FacilityError, 'a) res" where
  "ok_or_panic m = and_then m (\<lambda>r. case r of Inl err \<Rightarrow> Inl (Err err) | Inr v \<Rightarrow> Inr v)"

text \<open>A panic of the shares library inside the facility, and a computation that cannot return \<open>Err\<close>.\<close>

definition fmd :: "int \<Rightarrow> int \<Rightarrow> int \<Rightarrow> (FacilityError, int) res" where
  "fmd a b d = map_err FShare (md a b d)"

definition pure_ok :: "(FacilityError, 'a) res \<Rightarrow> 'a fac_result" where
  "pure_ok m = and_then m (\<lambda>v. Inr (Inr v))"

subsection \<open>Reading the facility\<close>

definition fac_config :: "facility \<Rightarrow> (FacilityError, FacilityConfig) res" where
  "fac_config s = unwrap (fc_config s)"

definition fac_base :: "facility \<Rightarrow> (FacilityError, address) res" where
  "fac_base s = unwrap (fc_base s)"

definition fac_rwas :: "facility \<Rightarrow> address list" where
  "fac_rwas s = (case fc_rwas s of None \<Rightarrow> [] | Some xs \<Rightarrow> xs)"

definition fac_paused :: "facility \<Rightarrow> bool" where
  "fac_paused s = (fc_paused s = Some True)"

definition fac_curator_auth :: "env \<Rightarrow> facility \<Rightarrow> (FacilityError, FacilityConfig) res" where
  "fac_curator_auth e s =
    and_then (fac_config s) (\<lambda>c. and_then (require_auth e (fg_curator c)) (\<lambda>_. Inr c))"

definition fac_manager_auth :: "env \<Rightarrow> facility \<Rightarrow> (FacilityError, FacilityConfig) res" where
  "fac_manager_auth e s =
    and_then (fac_config s) (\<lambda>c. and_then (require_auth e (fg_manager c)) (\<lambda>_. Inr c))"

definition listed :: "facility \<Rightarrow> address \<Rightarrow> (FacilityError, Rwa) res" where
  "listed s rwa = or_panic (fc_rwa s rwa) F_UnsupportedPair"

definition open_redemption :: "facility \<Rightarrow> address \<Rightarrow> (FacilityError, Redemption) res" where
  "open_redemption s rwa = or_panic (fc_redemption s rwa) F_NoRedemption"

definition vault_of :: "facility \<Rightarrow> address \<Rightarrow> (FacilityError, address) res" where
  "vault_of s tok =
    and_then (fac_config s) (\<lambda>c.
    and_then (fac_base s) (\<lambda>base.
      if tok = base then Inr (fg_base_vault c)
      else and_then (listed s tok) (\<lambda>r. Inr (rw_vault r))))"

definition position :: "'w vault_fns \<Rightarrow> env \<Rightarrow> address \<Rightarrow> address \<Rightarrow> 'w \<Rightarrow> (FacilityError, int) res" where
  "position F e vault who w =
    and_then (call_result (vf_balance F vault who w)) (\<lambda>shrs.
      if shrs = 0 then Inr 0
      else call_result (vf_convert_to_assets F (calling e vault) vault shrs w))"

definition fac_price :: "'w host \<Rightarrow> env \<Rightarrow> facility \<Rightarrow> address \<Rightarrow> Terms \<Rightarrow> 'w \<Rightarrow> int fac_result" where
  "fac_price H e s rwa t w =
    and_then (fac_base s) (\<lambda>base.
      case or_get_price H (calling e (tm_oracle t)) (tm_oracle t) rwa base w of
        None \<Rightarrow> Inr (Inl F_NoPrice)
      | Some p \<Rightarrow>
          if 0 < pd_price p
          then and_then (u64_add (pd_timestamp p) (tm_max_price_age t)) (\<lambda>until.
            Inr (if ledger_timestamp e \<le> until then Inr (pd_price p) else Inl F_NoPrice))
          else Inr (Inl F_NoPrice))"

definition fac_horizon :: "env \<Rightarrow> Terms \<Rightarrow> int fac_result" where
  "fac_horizon e t =
    and_then (seconds_for (ledger_timestamp e) (tm_schedule t)) (\<lambda>h.
      Inr (case h of Some secs \<Rightarrow> Inr (max (int secs) 1) | None \<Rightarrow> Inl F_InvalidConfig))"

definition accepted :: "facility \<Rightarrow> address \<Rightarrow> Terms fac_result" where
  "accepted s rwa =
    Inr (case fc_rwa s rwa of
           Some r \<Rightarrow> if tm_accepted (rw_terms r) then Inr (rw_terms r) else Inl F_NotAccepted
         | None \<Rightarrow> Inl F_UnsupportedPair)"

subsection \<open>The gain that vests\<close>

definition locked_state :: "facility \<Rightarrow> int \<times> nat \<times> nat" where
  "locked_state s = (case fc_locked s of None \<Rightarrow> (0, 0, 0) | Some l \<Rightarrow> l)"

definition locked_now :: "env \<Rightarrow> facility \<Rightarrow> (FacilityError, int) res" where
  "locked_now e s =
    (case locked_state s of (locked, since, until) \<Rightarrow>
      let now = ledger_timestamp e in
      if until \<le> now \<or> locked = 0 then Inr 0
      else and_then (u64_sub until now) (\<lambda>left.
           and_then (u64_sub until since) (\<lambda>span.
             fmd locked (int left) (int span))))"

definition book_gain :: "env \<Rightarrow> int \<Rightarrow> facility \<Rightarrow> (FacilityError, facility) res" where
  "book_gain e gain s =
    (let now = ledger_timestamp e; until = snd (snd (locked_state s)) in
     and_then (locked_now e s) (\<lambda>current.
     and_then (fac_config s) (\<lambda>c.
       let vest = int (fg_vest_seconds c) in
       and_then
         (if 0 \<le> gain
          then and_then (i128_add current gain) (\<lambda>total.
               let left = int (until - now) in
               and_then
                 (if 0 < total
                  then and_then (i128_mul current left) (\<lambda>a.
                       and_then (i128_mul gain vest) (\<lambda>b.
                       and_then (i128_add a b) (\<lambda>weighted.
                         fmd weighted 1 total)))
                  else Inr 0) (\<lambda>span.
               and_then (u64_add now (as_u64 span)) (\<lambda>until.
                 Inr (total, until))))
          else and_then (i128_add current gain) (\<lambda>rest. Inr (max rest 0, until))) (\<lambda>(locked, until).
         Inr (s\<lparr>fc_locked := Some (locked, now, until)\<rparr>)))))"

subsection \<open>Net asset value\<close>

fun rwa_values :: "'w host \<Rightarrow> 'w vault_fns \<Rightarrow> env \<Rightarrow> facility \<Rightarrow> address list \<Rightarrow> 'w \<Rightarrow> int \<Rightarrow> (FacilityError, int) res" where
  "rwa_values H F e s [] w nav = Inr nav"
| "rwa_values H F e s (rwa # rest) w nav =
    and_then (listed s rwa) (\<lambda>r.
    and_then (position F e (rw_vault r) (current_contract e) w) (\<lambda>units.
    and_then
      (if 0 < units
       then and_then (ok_or_panic (fac_price H e s rwa (rw_terms r) w)) (\<lambda>price.
            and_then (fmd units price ONE) (\<lambda>v. i128_add nav v))
       else Inr nav) (\<lambda>nav.
    and_then (i128_add nav (case fc_redemption s rwa of None \<Rightarrow> 0 | Some r \<Rightarrow> rd_carried r)) (\<lambda>nav.
      rwa_values H F e s rest w nav))))"

definition fac_gross :: "'w host \<Rightarrow> 'w vault_fns \<Rightarrow> env \<Rightarrow> facility \<Rightarrow> 'w \<Rightarrow> (FacilityError, int) res" where
  "fac_gross H F e s w =
    and_then (fac_config s) (\<lambda>c.
    and_then (position F e (fg_base_vault c) (current_contract e) w) (\<lambda>nav.
    and_then (rwa_values H F e s (fac_rwas s) w nav) (\<lambda>nav.
    and_then (locked_now e s) (\<lambda>locked.
      i128_sub nav locked))))"

definition fac_snapshot :: "'w host \<Rightarrow> 'w vault_fns \<Rightarrow> env \<Rightarrow> facility \<Rightarrow> 'w \<Rightarrow> (FacilityError, Snapshot) res" where
  "fac_snapshot H F e s w =
    and_then (fac_gross H F e s w) (\<lambda>nav.
    and_then (fac_config s) (\<lambda>c.
      map_err FShare (snapshot nav (fg_curator_fee_bps c) (fc_shares s))))"

definition fac_accrue_now :: "'w host \<Rightarrow> 'w vault_fns \<Rightarrow> env \<Rightarrow> facility \<Rightarrow> 'w \<Rightarrow> (FacilityError, Snapshot \<times> facility) res" where
  "fac_accrue_now H F e s w =
    and_then (fac_config s) (\<lambda>c.
    and_then (fac_gross H F e s w) (\<lambda>nav.
    and_then (map_err FShare (accrue nav (fg_curator_fee_bps c) (fg_curator c) (fc_shares s))) (\<lambda>(p, sh).
      Inr (p, s\<lparr>fc_shares := sh\<rparr>))))"

definition fac_total_assets :: "'w host \<Rightarrow> 'w vault_fns \<Rightarrow> env \<Rightarrow> facility \<Rightarrow> 'w \<Rightarrow> (FacilityError, int) res" where
  "fac_total_assets H F e s w = and_then (fac_snapshot H F e s w) (\<lambda>p. Inr (sn_nav p))"

definition fac_total_supply :: "'w host \<Rightarrow> 'w vault_fns \<Rightarrow> env \<Rightarrow> facility \<Rightarrow> 'w \<Rightarrow> (FacilityError, int) res" where
  "fac_total_supply H F e s w = and_then (fac_snapshot H F e s w) (\<lambda>p. Inr (sn_supply p))"

definition fac_convert_to_assets :: "'w host \<Rightarrow> 'w vault_fns \<Rightarrow> env \<Rightarrow> int \<Rightarrow> facility \<Rightarrow> 'w \<Rightarrow> (FacilityError, int) res" where
  "fac_convert_to_assets H F e shrs s w =
    and_then (fac_snapshot H F e s w) (\<lambda>p. map_err FShare (to_assets p shrs False))"

definition fac_convert_to_shares :: "'w host \<Rightarrow> 'w vault_fns \<Rightarrow> env \<Rightarrow> int \<Rightarrow> facility \<Rightarrow> 'w \<Rightarrow> (FacilityError, int) res" where
  "fac_convert_to_shares H F e assets s w =
    and_then (fac_snapshot H F e s w) (\<lambda>p. map_err FShare (to_shares p assets False))"

text \<open>Base payable now, less what the queue is owed.\<close>

definition free :: "'w vault_fns \<Rightarrow> env \<Rightarrow> Snapshot \<Rightarrow> address \<Rightarrow> facility \<Rightarrow> 'w \<Rightarrow> (FacilityError, int) res" where
  "free F e p who s w =
    and_then (fac_config s) (\<lambda>c.
      let base_vault = fg_base_vault c in
      and_then (call_result (vf_max_withdraw F (calling e base_vault) base_vault (current_contract e) w)) (\<lambda>available.
        case fc_queue s of
          None \<Rightarrow> Inr available
        | Some q \<Rightarrow>
            if q \<noteq> who
            then and_then (map_err FShare (to_assets p (balance (fc_shares s) q) True)) (\<lambda>owed.
                 and_then (i128_sub available owed) (\<lambda>rest. Inr (max rest 0)))
            else Inr available))"

definition fac_max_withdraw :: "'w host \<Rightarrow> 'w vault_fns \<Rightarrow> env \<Rightarrow> address \<Rightarrow> facility \<Rightarrow> 'w \<Rightarrow> (FacilityError, int) res" where
  "fac_max_withdraw H F e holder s w =
    and_then (fac_snapshot H F e s w) (\<lambda>p.
    and_then (map_err FShare (to_assets p (balance (fc_shares s) holder) False)) (\<lambda>worth.
    and_then (free F e p holder s w) (\<lambda>liq. Inr (min worth liq))))"

subsection \<open>Pricing a trade\<close>

definition bid :: "'w host \<Rightarrow> env \<Rightarrow> facility \<Rightarrow> address \<Rightarrow> int \<Rightarrow> 'w \<Rightarrow> (int \<times> int) fac_result" where
  "bid H e s rwa q w =
    ok_then (accepted s rwa) (\<lambda>t.
    ok_then (fac_price H e s rwa t w) (\<lambda>price.
    ok_then (pure_ok (fmd q price ONE)) (\<lambda>mark.
    ok_then (fac_horizon e t) (\<lambda>h.
    ok_then (pure_ok (i128_mul (int (tm_bid_rate t)) h)) (\<lambda>discount.
    ok_then (pure_ok (i128_sub DENOM discount)) (\<lambda>rest.
    ok_then (pure_ok (fmd mark (max rest 0) DENOM)) (\<lambda>paid.
      Inr (Inr (paid, mark)))))))))"

definition ask :: "'w host \<Rightarrow> 'w vault_fns \<Rightarrow> env \<Rightarrow> facility \<Rightarrow> address \<Rightarrow> int \<Rightarrow> 'w \<Rightarrow> (int \<times> int) fac_result" where
  "ask H F e s rwa val w =
    ok_then (accepted s rwa) (\<lambda>t.
    ok_then (fac_price H e s rwa t w) (\<lambda>p.
    ok_then (fac_horizon e t) (\<lambda>h.
    ok_then (pure_ok (i128_mul (int (tm_ask_rate t)) h)) (\<lambda>discount.
    ok_then (pure_ok (i128_sub DENOM discount)) (\<lambda>factor.
      if factor \<le> 0 then Inr (Inl F_InvalidConfig)
      else
        ok_then (pure_ok (fmd val ONE p)) (\<lambda>at_mark.
        ok_then (pure_ok (fmd at_mark DENOM factor)) (\<lambda>units.
        ok_then (pure_ok (listed s rwa)) (\<lambda>r.
        ok_then (pure_ok (call_result
            (vf_max_withdraw F (calling e (rw_vault r)) (rw_vault r) (current_contract e) w))) (\<lambda>held.
          if held < units then Inr (Inl F_InsufficientLiquidity)
          else ok_then (pure_ok (fmd units p ONE)) (\<lambda>mark. Inr (Inr (units, mark)))))))))))) "

definition price_trade :: "'w host \<Rightarrow> 'w vault_fns \<Rightarrow> env \<Rightarrow> facility \<Rightarrow> address \<Rightarrow> address \<Rightarrow> int \<Rightarrow> 'w \<Rightarrow> Trade fac_result" where
  "price_trade H F e s token_in token_out q w =
    (if fac_paused s then Inr (Inl F_Paused)
     else if q \<le> 0 \<or> token_in = token_out then Inr (Inl F_InvalidAmount)
     else
       and_then (fac_base s) (\<lambda>base.
       ok_then (if token_in = base then Inr (Inr (q, q)) else bid H e s token_in q w) (\<lambda>(val, mark_in).
       ok_then
         (if token_out = base
          then ok_then (pure_ok (i128_sub mark_in val)) (\<lambda>gain. Inr (Inr \<lparr>td_out = val, td_gain = gain\<rparr>))
          else
            ok_then (ask H F e s token_out val w) (\<lambda>(units, mark_out).
            ok_then (pure_ok (i128_sub mark_in mark_out)) (\<lambda>gain. Inr (Inr \<lparr>td_out = units, td_gain = gain\<rparr>)))) (\<lambda>t.
         if td_out t \<le> 0 then Inr (Inl F_InvalidAmount) else Inr (Inr t)))))"

definition fac_quote :: "'w host \<Rightarrow> 'w vault_fns \<Rightarrow> env \<Rightarrow> address \<Rightarrow> address \<Rightarrow> int \<Rightarrow> facility \<Rightarrow> 'w \<Rightarrow> (FacilityError, int) res" where
  "fac_quote H F e token_in token_out amount_in s w =
    and_then (price_trade H F e s token_in token_out amount_in w) (\<lambda>r.
      Inr (case r of Inl _ \<Rightarrow> 0 | Inr t \<Rightarrow> td_out t))"

subsection \<open>Moving assets\<close>

text \<open>Pays \<open>assets\<close> of \<open>from\<close> into a vault; the value the facility now holds there in addition.\<close>

definition take_in :: "'w vault_fns \<Rightarrow> env \<Rightarrow> address \<Rightarrow> address \<Rightarrow> int \<Rightarrow> 'w \<Rightarrow> (FacilityError, int \<times> 'w) res" where
  "take_in F e vault from assets w =
    (let me = current_contract e in
     and_then (position F e vault me w) (\<lambda>before.
     and_then (call_result (vf_deposit F (calling e vault) vault assets me from me w)) (\<lambda>(_, w).
     and_then (position F e vault me w) (\<lambda>after.
     and_then (i128_sub after before) (\<lambda>got. Inr (got, w))))))"

definition vault_withdraw :: "'w vault_fns \<Rightarrow> env \<Rightarrow> address \<Rightarrow> int \<Rightarrow> address \<Rightarrow> 'w \<Rightarrow> (FacilityError, 'w) res" where
  "vault_withdraw F e vault amount receiver w =
    (let me = current_contract e in
     and_then (call_result (vf_withdraw F (calling e vault) vault amount receiver me me w)) (\<lambda>(_, w). Inr w))"

definition fac_exit :: "'w vault_fns \<Rightarrow> env \<Rightarrow> Snapshot \<Rightarrow> address \<Rightarrow> address \<Rightarrow> address \<Rightarrow> int \<Rightarrow> int \<Rightarrow> facility \<Rightarrow> 'w \<Rightarrow>
    (FacilityError, facility \<times> 'w) res" where
  "fac_exit F e p holder operator receiver burned assets s w =
    and_then (require_auth e operator) (\<lambda>_.
    and_then (panic_if (burned \<le> 0 \<or> assets \<le> 0) F_InvalidAmount) (\<lambda>_.
    and_then (if operator \<noteq> holder
              then and_then (map_err FShare (spend_allowance e holder operator burned (fc_shares s))) (\<lambda>sh.
                   Inr (s\<lparr>fc_shares := sh\<rparr>))
              else Inr s) (\<lambda>s.
    and_then (free F e p holder s w) (\<lambda>liq.
    and_then (panic_if (liq < assets) F_InsufficientLiquidity) (\<lambda>_.
    and_then (map_err FShare (burn holder burned (fc_shares s))) (\<lambda>sh.
    and_then (fac_config s) (\<lambda>c.
    and_then (vault_withdraw F e (fg_base_vault c) assets receiver w) (\<lambda>w.
      Inr (s\<lparr>fc_shares := sh\<rparr>, w)))))))))"

definition check_cap :: "'w host \<Rightarrow> 'w vault_fns \<Rightarrow> env \<Rightarrow> address \<Rightarrow> int \<Rightarrow> facility \<Rightarrow> 'w \<Rightarrow> (FacilityError, unit) res" where
  "check_cap H F e rwa nav s w =
    (case fc_rwa s rwa of
       None \<Rightarrow> Inr ()
     | Some r \<Rightarrow>
         and_then (position F e (rw_vault r) (current_contract e) w) (\<lambda>held.
         and_then (fac_price H e s rwa (rw_terms r) w) (\<lambda>price.
         and_then (fmd held (case price of Inl _ \<Rightarrow> 0 | Inr p \<Rightarrow> p) ONE) (\<lambda>val.
         and_then (fmd (max nav 0) (int (tm_max_bps (rw_terms r))) BPS) (\<lambda>cap.
           panic_if (cap < val) F_CapExceeded)))))"

subsection \<open>Entry points\<close>

definition fac_constructor :: "'w vault_fns \<Rightarrow> address \<Rightarrow> FacilityConfig \<Rightarrow> facility \<Rightarrow> 'w \<Rightarrow> (FacilityError, facility) res" where
  "fac_constructor F hst cfg s w =
    and_then (panic_if (MAX_FEE_BPS < fg_curator_fee_bps cfg) F_InvalidConfig) (\<lambda>_.
    and_then (call_result (vf_query_asset F (fg_base_vault cfg) w)) (\<lambda>base.
    and_then (call_result (vf_decimals F base w)) (\<lambda>decimals.
    and_then (map_err FShare (shares_init decimals (fg_name cfg) (fg_symbol cfg) (fc_shares s))) (\<lambda>sh.
      Inr (s\<lparr>fc_shares := sh, fc_timelock := init (fg_timelock cfg) (fg_guardian cfg) (fc_timelock s),
             fc_host := Some hst, fc_base := Some base, fc_config := Some cfg\<rparr>)))))"

definition fac_deposit :: "'w host \<Rightarrow> 'w vault_fns \<Rightarrow> env \<Rightarrow> int \<Rightarrow> address \<Rightarrow> address \<Rightarrow> address \<Rightarrow> facility \<Rightarrow> 'w \<Rightarrow>
    (FacilityError, int \<times> facility \<times> 'w) res" where
  "fac_deposit H F e assets receiver from operator s w =
    and_then (require_auth e operator) (\<lambda>_.
    and_then (if operator \<noteq> from then require_auth e from else Inr ()) (\<lambda>_.
    and_then (panic_if (\<not> admitted e (fc_shares s) receiver) F_NotAllowlisted) (\<lambda>_.
    and_then (fac_accrue_now H F e s w) (\<lambda>(p, s).
    and_then (fac_config s) (\<lambda>c.
    and_then (take_in F e (fg_base_vault c) from assets w) (\<lambda>(got, w).
    and_then (map_err FShare (to_shares p got False)) (\<lambda>minted.
    and_then (panic_if (minted \<le> 0) F_InvalidAmount) (\<lambda>_.
    and_then (map_err FShare (mint receiver minted (fc_shares s))) (\<lambda>sh.
      Inr (minted, s\<lparr>fc_shares := sh\<rparr>, w))))))))))"

definition fac_withdraw :: "'w host \<Rightarrow> 'w vault_fns \<Rightarrow> env \<Rightarrow> int \<Rightarrow> address \<Rightarrow> address \<Rightarrow> address \<Rightarrow> facility \<Rightarrow> 'w \<Rightarrow>
    (FacilityError, int \<times> facility \<times> 'w) res" where
  "fac_withdraw H F e assets receiver holder operator s w =
    and_then (fac_accrue_now H F e s w) (\<lambda>(p, s).
    and_then (map_err FShare (to_shares p assets True)) (\<lambda>burned.
    and_then (fac_exit F e p holder operator receiver burned assets s w) (\<lambda>(s, w).
      Inr (burned, s, w))))"

definition fac_redeem :: "'w host \<Rightarrow> 'w vault_fns \<Rightarrow> env \<Rightarrow> int \<Rightarrow> address \<Rightarrow> address \<Rightarrow> address \<Rightarrow> facility \<Rightarrow> 'w \<Rightarrow>
    (FacilityError, int \<times> facility \<times> 'w) res" where
  "fac_redeem H F e shrs receiver holder operator s w =
    and_then (fac_accrue_now H F e s w) (\<lambda>(p, s).
    and_then (map_err FShare (to_assets p shrs False)) (\<lambda>assets.
    and_then (fac_exit F e p holder operator receiver shrs assets s w) (\<lambda>(s, w).
      Inr (assets, s, w))))"

definition fac_accrue :: "'w host \<Rightarrow> 'w vault_fns \<Rightarrow> env \<Rightarrow> facility \<Rightarrow> 'w \<Rightarrow> (FacilityError, facility) res" where
  "fac_accrue H F e s w = and_then (fac_accrue_now H F e s w) (\<lambda>(_, s). Inr s)"

definition trade :: "'w host \<Rightarrow> 'w vault_fns \<Rightarrow> env \<Rightarrow> address \<Rightarrow> address \<Rightarrow> address \<Rightarrow> address \<Rightarrow> int \<Rightarrow> int \<Rightarrow> facility \<Rightarrow> 'w \<Rightarrow>
    (FacilityError, int \<times> facility \<times> 'w) res" where
  "trade H F e payer recipient token_in token_out amount_in min_out s w =
    and_then (require_auth e payer) (\<lambda>_.
    and_then (fac_accrue_now H F e s w) (\<lambda>(p, s).
    and_then (ok_or_panic (price_trade H F e s token_in token_out amount_in w)) (\<lambda>t.
    and_then (panic_if (td_out t < min_out) F_BelowMinOut) (\<lambda>_.
    and_then (vault_of s token_in) (\<lambda>vin.
    and_then (vault_of s token_out) (\<lambda>vout.
    and_then (take_in F e vin payer amount_in w) (\<lambda>(got, w).
    and_then (i128_add got 1) (\<lambda>got1.
    and_then (panic_if (got1 < amount_in) F_InvalidAmount) (\<lambda>_.
    and_then (fac_config s) (\<lambda>c.
    and_then (if vout = fg_base_vault c
              then and_then (free F e p recipient s w) (\<lambda>liq. panic_if (liq < td_out t) F_InsufficientLiquidity)
              else Inr ()) (\<lambda>_.
    and_then (vault_withdraw F e vout (td_out t) recipient w) (\<lambda>w.
    and_then (book_gain e (td_gain t) s) (\<lambda>s.
    and_then (check_cap H F e token_in (sn_nav p) s w) (\<lambda>_.
      Inr (td_out t, s, w)))))))))))))))"

definition book :: "'w host \<Rightarrow> 'w vault_fns \<Rightarrow> env \<Rightarrow> address \<Rightarrow> int \<Rightarrow> facility \<Rightarrow> 'w \<Rightarrow> (FacilityError, facility \<times> 'w) res" where
  "book H F e rwa amount s w =
    and_then (fac_manager_auth e s) (\<lambda>_.
    and_then (fac_accrue_now H F e s w) (\<lambda>(_, s).
    and_then (panic_if (fc_redemption s rwa \<noteq> None) F_RedemptionOpen) (\<lambda>_.
    and_then (listed s rwa) (\<lambda>r.
    and_then (ok_or_panic (fac_price H e s rwa (rw_terms r) w)) (\<lambda>price.
    and_then (fmd amount price ONE) (\<lambda>carried.
    and_then (vault_withdraw F e (rw_vault r) amount (tm_redemption (rw_terms r)) w) (\<lambda>w.
      Inr (s\<lparr>fc_redemption := (fc_redemption s)(rwa \<mapsto> \<lparr>rd_amount = amount, rd_carried = carried\<rparr>)\<rparr>, w))))))))"

definition settle :: "'w host \<Rightarrow> 'w vault_fns \<Rightarrow> env \<Rightarrow> address \<Rightarrow> int \<Rightarrow> facility \<Rightarrow> 'w \<Rightarrow> (FacilityError, facility \<times> 'w) res" where
  "settle H F e rwa proceeds s w =
    and_then (fac_manager_auth e s) (\<lambda>c.
    and_then (fac_accrue_now H F e s w) (\<lambda>(_, s).
    and_then (open_redemption s rwa) (\<lambda>rec.
    and_then (panic_if (proceeds < rd_carried rec) F_NotFullyRepaid) (\<lambda>_.
    and_then (take_in F e (fg_base_vault c) (fg_manager c) proceeds w) (\<lambda>(_, w).
      let s = s\<lparr>fc_redemption := (fc_redemption s)(rwa := None)\<rparr> in
      and_then (i128_sub proceeds (rd_carried rec)) (\<lambda>gain.
      and_then (book_gain e gain s) (\<lambda>s.
        Inr (s, w))))))))"

definition write_down :: "'w host \<Rightarrow> 'w vault_fns \<Rightarrow> env \<Rightarrow> address \<Rightarrow> int \<Rightarrow> facility \<Rightarrow> 'w \<Rightarrow> (FacilityError, facility \<times> 'w) res" where
  "write_down H F e rwa recovered s w =
    and_then (unwrap (fc_host s)) (\<lambda>hst.
    and_then (call_result (vf_host_admin F hst w)) (\<lambda>admin.
    and_then (require_auth e admin) (\<lambda>_.
    and_then (fac_accrue_now H F e s w) (\<lambda>(_, s).
    and_then (open_redemption s rwa) (\<lambda>rec.
    and_then (panic_if (recovered < 0 \<or> rd_carried rec \<le> recovered) F_InvalidAmount) (\<lambda>_.
    and_then (if 0 < recovered
              then and_then (fac_config s) (\<lambda>c.
                   and_then (take_in F e (fg_base_vault c) admin recovered w) (\<lambda>(_, w). Inr w))
              else Inr w) (\<lambda>w.
      let s = s\<lparr>fc_redemption := (fc_redemption s)(rwa := None)\<rparr> in
      and_then (i128_sub recovered (rd_carried rec)) (\<lambda>gain.
      and_then (book_gain e gain s) (\<lambda>s.
        Inr (s, w))))))))))"

subsection \<open>Governance\<close>

text \<open>The slot of a change; \<open>rwa_hash\<close> is the host's SHA-256 of an address's XDR.\<close>

definition fac_kind :: "(address \<Rightarrow> bytes32) \<Rightarrow> FacChange \<Rightarrow> kind" where
  "fac_kind rwa_hash c = (case c of F_CuratorFee _ \<Rightarrow> 0 | F_Vest _ \<Rightarrow> 1 | F_Queue _ \<Rightarrow> 2
     | F_Rwa rwa _ _ \<Rightarrow> 0x80000000 OR ucast (drop_bit 224 (rwa_hash rwa)))"

definition validate :: "'w vault_fns \<Rightarrow> env \<Rightarrow> FacilityConfig \<Rightarrow> address \<Rightarrow> address \<Rightarrow> Terms \<Rightarrow> 'w \<Rightarrow> (FacilityError, unit) res" where
  "validate F e c rwa vault t w =
    and_then (call_result (vf_query_asset F vault w)) (\<lambda>asset.
    and_then
      (if asset = rwa \<and> vault \<noteq> fg_base_vault c \<and> tm_ask_rate t \<le> tm_bid_rate t \<and>
          tm_bid_rate t \<le> sc_max_bps_per_day (tm_schedule t) \<and> int (tm_max_bps t) \<le> BPS
       then is_valid (ledger_timestamp e) (tm_schedule t)
       else Inr False) (\<lambda>ok.
      panic_if (\<not> ok) F_InvalidConfig))"

definition fac_submit :: "(address \<Rightarrow> bytes32) \<Rightarrow> 'w vault_fns \<Rightarrow> env \<Rightarrow> FacChange \<Rightarrow> facility \<Rightarrow> 'w \<Rightarrow>
    (FacilityError, (kind \<times> nat) \<times> facility) res" where
  "fac_submit rwa_hash F e change s w =
    and_then (fac_curator_auth e s) (\<lambda>c.
    and_then (case change of
                F_CuratorFee bps \<Rightarrow> panic_if (MAX_FEE_BPS < bps) F_InvalidConfig
              | F_Rwa rwa vault t \<Rightarrow> validate F e c rwa vault t w
              | _ \<Rightarrow> Inr ()) (\<lambda>_.
      let k = fac_kind rwa_hash change in
      and_then (submit e k change (fc_timelock s)) (\<lambda>(valid_at, t).
        Inr ((k, valid_at), s\<lparr>fc_timelock := t\<rparr>))))"

definition list_rwa :: "'w vault_fns \<Rightarrow> env \<Rightarrow> address \<Rightarrow> address \<Rightarrow> Terms \<Rightarrow> facility \<Rightarrow> 'w \<Rightarrow> (FacilityError, facility) res" where
  "list_rwa F e rwa vault terms s w =
    (let rwas = fac_rwas s in
     and_then
       (case fc_rwa s rwa of
          Some old \<Rightarrow>
            and_then (if rw_vault old \<noteq> vault
                      then and_then (call_result (vf_balance F (rw_vault old) (current_contract e) w)) (\<lambda>b.
                           panic_if (0 < b) F_StillHeld)
                      else Inr ()) (\<lambda>_. Inr rwas)
        | None \<Rightarrow> if MAX_RWAS \<le> length rwas then Inl (Err F_TooManyRwas) else Inr (rwas @ [rwa])) (\<lambda>rwas.
       Inr (s\<lparr>fc_rwas := Some rwas, fc_rwa := (fc_rwa s)(rwa \<mapsto> \<lparr>rw_vault = vault, rw_terms = terms\<rparr>)\<rparr>)))"

definition fac_accept :: "'w host \<Rightarrow> 'w vault_fns \<Rightarrow> env \<Rightarrow> kind \<Rightarrow> facility \<Rightarrow> 'w \<Rightarrow> (FacilityError, facility) res" where
  "fac_accept H F e k s w =
    and_then (fac_config s) (\<lambda>c.
    and_then (map_err FTimelock (take_change e k (fc_timelock s))) (\<lambda>(change, t).
      let s = s\<lparr>fc_timelock := t\<rparr> in
      (case change of
         F_CuratorFee bps \<Rightarrow>
           and_then (fac_accrue_now H F e s w) (\<lambda>(_, s).
             Inr (s\<lparr>fc_config := Some (c\<lparr>fg_curator_fee_bps := bps\<rparr>)\<rparr>))
       | F_Vest secs \<Rightarrow> Inr (s\<lparr>fc_config := Some (c\<lparr>fg_vest_seconds := secs\<rparr>)\<rparr>)
       | F_Queue q \<Rightarrow> Inr (s\<lparr>fc_queue := Some q, fc_config := Some c\<rparr>)
       | F_Rwa rwa vault terms \<Rightarrow>
           and_then (list_rwa F e rwa vault terms s w) (\<lambda>s.
             Inr (s\<lparr>fc_config := Some c\<rparr>)))))"

definition fac_pending :: "kind \<Rightarrow> facility \<Rightarrow> (FacChange \<times> nat) option" where
  "fac_pending k s = pending k (fc_timelock s)"

definition fac_revoke :: "env \<Rightarrow> kind \<Rightarrow> address \<Rightarrow> facility \<Rightarrow> (FacilityError, facility) res" where
  "fac_revoke e k caller s =
    and_then (fac_config s) (\<lambda>c.
    and_then (map_err FTimelock (revoke e k caller (fg_curator c) (fc_timelock s))) (\<lambda>t.
      Inr (s\<lparr>fc_timelock := t\<rparr>)))"

definition remove_rwa :: "'w vault_fns \<Rightarrow> env \<Rightarrow> address \<Rightarrow> facility \<Rightarrow> 'w \<Rightarrow> (FacilityError, facility) res" where
  "remove_rwa F e rwa s w =
    and_then (fac_curator_auth e s) (\<lambda>_.
    and_then (listed s rwa) (\<lambda>r.
    and_then (call_result (vf_balance F (rw_vault r) (current_contract e) w)) (\<lambda>b.
    and_then (panic_if (0 < b \<or> fc_redemption s rwa \<noteq> None) F_StillHeld) (\<lambda>_.
    and_then (unwrap (index_of rwa (fac_rwas s))) (\<lambda>i.
      Inr (s\<lparr>fc_rwas := Some (remove_at i (fac_rwas s)), fc_rwa := (fc_rwa s)(rwa := None)\<rparr>))))))"

definition fac_set_paused :: "env \<Rightarrow> address \<Rightarrow> bool \<Rightarrow> facility \<Rightarrow> (FacilityError, facility) res" where
  "fac_set_paused e caller paused s =
    and_then (fac_config s) (\<lambda>c.
    and_then (panic_if (caller \<noteq> fg_curator c \<and> caller \<noteq> fg_guardian c) F_InvalidConfig) (\<lambda>_.
    and_then (require_auth e caller) (\<lambda>_.
      Inr (s\<lparr>fc_paused := Some paused\<rparr>))))"

definition fac_set_allowlist :: "env \<Rightarrow> bool \<Rightarrow> facility \<Rightarrow> (FacilityError, facility) res" where
  "fac_set_allowlist e enabled s =
    and_then (fac_curator_auth e s) (\<lambda>_. Inr (s\<lparr>fc_shares := set_allowlist enabled (fc_shares s)\<rparr>))"

definition fac_set_member :: "env \<Rightarrow> address \<Rightarrow> bool \<Rightarrow> facility \<Rightarrow> (FacilityError, facility) res" where
  "fac_set_member e who allowed s =
    and_then (fac_curator_auth e s) (\<lambda>_. Inr (s\<lparr>fc_shares := set_member who allowed (fc_shares s)\<rparr>))"

subsection \<open>The whole contract as one step function\<close>

datatype facility_op =
    F_deposit int address address address
  | F_withdraw int address address address
  | F_redeem int address address address
  | F_accrue
  | F_trade address address address address int int
  | F_book address int
  | F_settle address int
  | F_write_down address int
  | F_submit FacChange
  | F_accept kind
  | F_revoke kind address
  | F_remove_rwa address
  | F_set_paused address bool
  | F_set_allowlist bool
  | F_set_member address bool
  | F_transfer address address int
  | F_transfer_from address address address int
  | F_approve address address int nat
  | F_burn address int
  | F_burn_from address address int

definition fac_on_shares :: "(ShareError, shares) res \<Rightarrow> facility \<Rightarrow> 'w \<Rightarrow> (FacilityError, facility \<times> 'w) res" where
  "fac_on_shares r s w = and_then (map_err FShare r) (\<lambda>sh. Inr (s\<lparr>fc_shares := sh\<rparr>, w))"

definition facility_exec :: "(address \<Rightarrow> bytes32) \<Rightarrow> 'w host \<Rightarrow> 'w vault_fns \<Rightarrow> env \<Rightarrow> facility_op \<Rightarrow> facility \<Rightarrow> 'w \<Rightarrow>
    (FacilityError, facility \<times> 'w) res" where
  "facility_exec rwa_hash H F e op s w = (case op of
      F_deposit x r f p \<Rightarrow> and_then (fac_deposit H F e x r f p s w) (\<lambda>(_, s, w). Inr (s, w))
    | F_withdraw x r h p \<Rightarrow> and_then (fac_withdraw H F e x r h p s w) (\<lambda>(_, s, w). Inr (s, w))
    | F_redeem x r h p \<Rightarrow> and_then (fac_redeem H F e x r h p s w) (\<lambda>(_, s, w). Inr (s, w))
    | F_accrue \<Rightarrow> and_then (fac_accrue H F e s w) (\<lambda>s. Inr (s, w))
    | F_trade a b i j x m \<Rightarrow> and_then (trade H F e a b i j x m s w) (\<lambda>(_, s, w). Inr (s, w))
    | F_book r x \<Rightarrow> book H F e r x s w
    | F_settle r x \<Rightarrow> settle H F e r x s w
    | F_write_down r x \<Rightarrow> write_down H F e r x s w
    | F_submit c \<Rightarrow> and_then (fac_submit rwa_hash F e c s w) (\<lambda>(_, s). Inr (s, w))
    | F_accept k \<Rightarrow> and_then (fac_accept H F e k s w) (\<lambda>s. Inr (s, w))
    | F_revoke k a \<Rightarrow> and_then (fac_revoke e k a s) (\<lambda>s. Inr (s, w))
    | F_remove_rwa r \<Rightarrow> and_then (remove_rwa F e r s w) (\<lambda>s. Inr (s, w))
    | F_set_paused a b \<Rightarrow> and_then (fac_set_paused e a b s) (\<lambda>s. Inr (s, w))
    | F_set_allowlist b \<Rightarrow> and_then (fac_set_allowlist e b s) (\<lambda>s. Inr (s, w))
    | F_set_member a b \<Rightarrow> and_then (fac_set_member e a b s) (\<lambda>s. Inr (s, w))
    | F_transfer a b x \<Rightarrow> fac_on_shares (token_transfer_entry e a b x (fc_shares s)) s w
    | F_transfer_from p a b x \<Rightarrow> fac_on_shares (token_transfer_from_entry e p a b x (fc_shares s)) s w
    | F_approve a p x u \<Rightarrow> fac_on_shares (token_approve_entry e a p x u (fc_shares s)) s w
    | F_burn a x \<Rightarrow> fac_on_shares (token_burn_entry e a x (fc_shares s)) s w
    | F_burn_from p a x \<Rightarrow> fac_on_shares (token_burn_from_entry e p a x (fc_shares s)) s w)"

text \<open>A run since deployment, in whatever world the outside leaves between the calls.\<close>

inductive facility_run :: "(address \<Rightarrow> bytes32) \<Rightarrow> 'w host \<Rightarrow> 'w vault_fns \<Rightarrow> address \<Rightarrow> (env \<times> facility_op) list \<Rightarrow> facility \<Rightarrow> bool"
  for rwa_hash :: "address \<Rightarrow> bytes32" and H :: "'w host" and F :: "'w vault_fns" and me :: address where
  constructed: "fac_constructor F hst cfg facility_empty w = Inr s \<Longrightarrow> facility_run rwa_hash H F me [] s"
| call: "facility_run rwa_hash H F me evs s \<Longrightarrow> current_contract e = me \<Longrightarrow>
    facility_exec rwa_hash H F e op s w = Inr (s', w') \<Longrightarrow> facility_run rwa_hash H F me (evs @ [(e, op)]) s'"

end
