(* ===== verification/Facility_Inv.thy ===== *)
theory Facility_Inv
  imports Facility
begin

text \<open>
  Lemmas on the facility: how successful calls decompose, the reachable-state invariant over every entry
  point, the prices of trades, and the frame of the pause flag.
\<close>

subsection \<open>How successful calls decompose\<close>

lemma ok_then_iff [rs]: "ok_then m f = Inr (Inr v) \<longleftrightarrow> (\<exists>x. m = Inr (Inr x) \<and> f x = Inr (Inr v))"
  unfolding ok_then_def and_then_def by (auto split: sum.splits)

lemma ok_or_panic_iff [rs]: "ok_or_panic m = Inr v \<longleftrightarrow> m = Inr (Inr v)"
  unfolding ok_or_panic_def and_then_def by (auto split: sum.splits)

lemma pure_ok_iff [rs]: "pure_ok m = Inr (Inr v) \<longleftrightarrow> m = Inr v"
  by (auto simp: pure_ok_def rs)

lemma fmd_iff [rs]: "fmd a b d = Inr q \<longleftrightarrow> mul_div a b d = Inr q"
  by (simp add: fmd_def rs)

lemma fac_reads_iff [rs]:
  "fac_config s = Inr c \<longleftrightarrow> fc_config s = Some c"
  "fac_base s = Inr a \<longleftrightarrow> fc_base s = Some a"
  "listed s rwa = Inr r \<longleftrightarrow> fc_rwa s rwa = Some r"
  "open_redemption s rwa = Inr d \<longleftrightarrow> fc_redemption s rwa = Some d"
  "fac_curator_auth e s = Inr c \<longleftrightarrow> fc_config s = Some c \<and> authorised e (fg_curator c)"
  "fac_manager_auth e s = Inr c \<longleftrightarrow> fc_config s = Some c \<and> authorised e (fg_manager c)"
  by (auto simp: fac_config_def fac_base_def listed_def open_redemption_def fac_curator_auth_def
      fac_manager_auth_def rs)

lemma accepted_iff [rs]:
  "accepted s rwa = Inr (Inr t) \<longleftrightarrow> (\<exists>r. fc_rwa s rwa = Some r \<and> tm_accepted (rw_terms r) \<and> t = rw_terms r)"
  by (auto simp: accepted_def split: option.splits)

lemma fac_price_iff [rs]:
  "fac_price H e s rwa t w = Inr (Inr p) \<longleftrightarrow> (\<exists>base d. fc_base s = Some base \<and>
     or_get_price H (calling e (tm_oracle t)) (tm_oracle t) rwa base w = Some d \<and> p = pd_price d \<and> 0 < p \<and>
     pd_timestamp d + tm_max_price_age t \<le> u64_max \<and> ledger_timestamp e \<le> pd_timestamp d + tm_max_price_age t)"
  by (auto simp: fac_price_def rs split: option.splits if_splits)

lemma fac_horizon_iff [rs]:
  "fac_horizon e t = Inr (Inr h) \<longleftrightarrow>
    (\<exists>secs. seconds_for (ledger_timestamp e) (tm_schedule t) = (Inr (Some secs) :: (FacilityError, nat option) res) \<and>
       h = max (int secs) 1)"
  by (auto simp: fac_horizon_def rs split: option.splits)

lemma fac_accrue_now_Inr:
  assumes "fac_accrue_now H F e s w = Inr (p, s')"
  obtains c nav sh where "fc_config s = Some c" "fac_gross H F e s w = Inr nav"
    "accrue nav (fg_curator_fee_bps c) (fg_curator c) (fc_shares s) = Inr (p, sh)" "s' = s\<lparr>fc_shares := sh\<rparr>"
  using assms by (auto simp: fac_accrue_now_def rs)

lemma bid_iff [rs]:
  "bid H e s rwa q w = Inr (Inr (paid, mark)) \<longleftrightarrow> (\<exists>t p h. accepted s rwa = Inr (Inr t) \<and>
     fac_price H e s rwa t w = Inr (Inr p) \<and> fac_horizon e t = Inr (Inr h) \<and> mul_div q p ONE = Inr mark \<and>
     is_i128 (int (tm_bid_rate t) * h) \<and> is_i128 (DENOM - int (tm_bid_rate t) * h) \<and>
     mul_div mark (max (DENOM - int (tm_bid_rate t) * h) 0) DENOM = Inr paid)"
  unfolding bid_def ok_then_iff pure_ok_iff fmd_iff i128_ops_Inr_iff by auto

lemma ask_Inr:
  assumes "ask H F e s rwa val w = Inr (Inr (units, mark))"
  obtains t p h r held at_mark where "accepted s rwa = Inr (Inr t)"
    "fac_price H e s rwa t w = Inr (Inr p)" "fac_horizon e t = Inr (Inr h)"
    "0 < DENOM - int (tm_ask_rate t) * h" "mul_div val ONE p = Inr at_mark"
    "mul_div at_mark DENOM (DENOM - int (tm_ask_rate t) * h) = Inr units" "fc_rwa s rwa = Some r"
    "vf_max_withdraw F (calling e (rw_vault r)) (rw_vault r) (current_contract e) w = Some held"
    "units \<le> held" "mul_div units p ONE = Inr mark"
  using assms unfolding ask_def ok_then_iff pure_ok_iff fmd_iff i128_ops_Inr_iff
  by (auto simp: ok_then_iff pure_ok_iff fmd_iff fac_reads_iff call_result_Inr_iff not_less not_le
      split: if_splits intro: that)

lemma price_trade_Inr:
  assumes "price_trade H F e s i j q w = Inr (Inr t)"
  obtains base val mark_in where "\<not> fac_paused s" "0 < q" "i \<noteq> j" "fc_base s = Some base" "0 < td_out t"
    "if i = base then val = q \<and> mark_in = q else bid H e s i q w = Inr (Inr (val, mark_in))"
    "if j = base then td_out t = val \<and> td_gain t = mark_in - val
     else \<exists>mark_out. ask H F e s j val w = Inr (Inr (td_out t, mark_out)) \<and> td_gain t = mark_in - mark_out"
proof -
  have 1: "\<not> fac_paused s" "0 < q" "i \<noteq> j"
    using assms by (auto simp: price_trade_def split: if_splits)
  with assms obtain base val mark_in t' where base: "fc_base s = Some base"
    and v: "(if i = base then Inr (Inr (q, q)) else bid H e s i q w) = Inr (Inr (val, mark_in))"
    and t': "(if j = base
          then ok_then (pure_ok (i128_sub mark_in val)) (\<lambda>gain. Inr (Inr \<lparr>td_out = val, td_gain = gain\<rparr>))
          else
            ok_then (ask H F e s j val w) (\<lambda>(units, mark_out).
            ok_then (pure_ok (i128_sub mark_in mark_out)) (\<lambda>gain. Inr (Inr \<lparr>td_out = units, td_gain = gain\<rparr>)))) = Inr (Inr t')"
    and out: "(if td_out t' \<le> 0 then Inr (Inl F_InvalidAmount) else Inr (Inr t')) = (Inr (Inr t) :: Trade fac_result)"
    unfolding price_trade_def
    by (auto simp: and_then_Inr_iff ok_then_iff fac_reads_iff not_le not_less split del: if_split)
  from out have "t = t'" "0 < td_out t" by (auto split: if_splits)
  with 1 base v t' show thesis
    by (intro that [of base val mark_in]) (auto simp: ok_then_iff pure_ok_iff i128_ops_Inr_iff split: if_splits)
qed

subsection \<open>The invariant\<close>

definition terms_ok :: "Terms \<Rightarrow> bool" where
  "terms_ok t \<longleftrightarrow> tm_ask_rate t \<le> tm_bid_rate t \<and> tm_bid_rate t \<le> sc_max_bps_per_day (tm_schedule t) \<and>
     int (tm_max_bps t) \<le> BPS"

definition fac_change_ok :: "FacChange \<Rightarrow> bool" where
  "fac_change_ok c = (case c of F_CuratorFee bps \<Rightarrow> bps \<le> MAX_FEE_BPS | F_Rwa _ _ t \<Rightarrow> terms_ok t | _ \<Rightarrow> True)"

definition fac_gov_ok :: "facility \<Rightarrow> bool" where
  "fac_gov_ok s \<longleftrightarrow> (\<exists>c. fc_config s = Some c \<and> fg_curator_fee_bps c \<le> MAX_FEE_BPS) \<and>
     (\<forall>k c v. tl_pending (fc_timelock s) k = Some (c, v) \<longrightarrow> fac_change_ok c)"

definition fac_list_ok :: "facility \<Rightarrow> bool" where
  "fac_list_ok s \<longleftrightarrow> distinct (fac_rwas s) \<and> length (fac_rwas s) \<le> MAX_RWAS \<and> set (fac_rwas s) = dom (fc_rwa s) \<and>
     (\<forall>a r. fc_rwa s a = Some r \<longrightarrow> terms_ok (rw_terms r)) \<and>
     (\<forall>a d. fc_redemption s a = Some d \<longrightarrow> a \<in> dom (fc_rwa s) \<and> 0 \<le> rd_carried d)"

definition locked_ok :: "facility \<Rightarrow> bool" where
  "locked_ok s = (case locked_state s of (l, since, until) \<Rightarrow>
     0 \<le> l \<and> l \<le> i128_max \<and> until \<le> u64_max \<and> (0 < l \<longrightarrow> since \<le> until))"

definition fac_inv :: "facility \<Rightarrow> bool" where
  "fac_inv s \<longleftrightarrow> shares_inv (fc_shares s) \<and> fac_gov_ok s \<and> fac_list_ok s \<and> locked_ok s"

lemma fac_parts_frame [simp]:
  "fac_gov_ok (s\<lparr>fc_shares := sh\<rparr>) = fac_gov_ok s"
  "fac_list_ok (s\<lparr>fc_shares := sh\<rparr>) = fac_list_ok s"
  "locked_ok (s\<lparr>fc_shares := sh\<rparr>) = locked_ok s"
  "fac_gov_ok (s\<lparr>fc_locked := l\<rparr>) = fac_gov_ok s"
  "fac_list_ok (s\<lparr>fc_locked := l\<rparr>) = fac_list_ok s"
  "fac_gov_ok (s\<lparr>fc_redemption := d\<rparr>) = fac_gov_ok s"
  "locked_ok (s\<lparr>fc_redemption := d\<rparr>) = locked_ok s"
  "fac_list_ok (s\<lparr>fc_timelock := t\<rparr>) = fac_list_ok s"
  "locked_ok (s\<lparr>fc_timelock := t\<rparr>) = locked_ok s"
  "fac_list_ok (s\<lparr>fc_config := c\<rparr>) = fac_list_ok s"
  "locked_ok (s\<lparr>fc_config := c\<rparr>) = locked_ok s"
  "fac_inv (s\<lparr>fc_paused := b\<rparr>) = fac_inv s"
  "fac_inv (s\<lparr>fc_queue := q\<rparr>) = fac_inv s"
  by (simp_all add: fac_inv_def fac_gov_ok_def fac_list_ok_def locked_ok_def locked_state_def fac_rwas_def)

lemma fac_inv_shares: "fac_inv s \<Longrightarrow> shares_inv sh \<Longrightarrow> fac_inv (s\<lparr>fc_shares := sh\<rparr>)"
  by (simp add: fac_inv_def)

lemma fac_inv_accrue_now:
  assumes "fac_accrue_now H F e s w = Inr (p, s')" "fac_inv s"
  shows "fac_inv s'"
  using assms(1)
proof (rule fac_accrue_now_Inr)
  fix c :: FacilityConfig and nav sh
  assume "accrue nav (fg_curator_fee_bps c) (fg_curator c) (fc_shares s) = Inr (p, sh)" "s' = s\<lparr>fc_shares := sh\<rparr>"
  with assms(2) show ?thesis
    using fac_inv_shares shares_inv_accrue by (auto simp: fac_inv_def)
qed

text \<open>What is still locked, with the arithmetic evaluated.\<close>

lemma locked_now_Inr:
  assumes "locked_now e s = Inr x" "locked_state s = (l, since, until)"
  shows "if until \<le> ledger_timestamp e \<or> l = 0 then x = 0
    else since \<le> until \<and> mul_div l (int (until - ledger_timestamp e)) (int (until - since)) = Inr x"
  using assms by (auto simp: locked_now_def rs Let_def)

lemma locked_now_bounds:
  assumes "locked_now e s = Inr x"
  shows "0 \<le> x" "x \<le> i128_max" "0 < x \<Longrightarrow> ledger_timestamp e < snd (snd (locked_state s))"
proof -
  obtain l since until where l: "locked_state s = (l, since, until)" by (cases "locked_state s")
  note x = locked_now_Inr [OF assms l]
  have "0 \<le> i128_max" by (simp add: i128_max_def)
  with x mul_div_nonneg show "0 \<le> x" "x \<le> i128_max" "0 < x \<Longrightarrow> ledger_timestamp e < snd (snd (locked_state s))"
    by (auto simp: l mul_div_Inr_iff split: if_splits)
qed

lemma book_gain_Inr:
  assumes "book_gain e gain s = Inr s'"
  obtains current l until where "locked_now e s = Inr current"
    "s' = s\<lparr>fc_locked := Some (l, ledger_timestamp e, until)\<rparr>"
    "if 0 \<le> gain then l = current + gain \<and> l \<le> i128_max \<and> ledger_timestamp e \<le> until \<and> until \<le> u64_max
     else l = max (current + gain) 0 \<and> until = snd (snd (locked_state s))"
proof (cases "0 \<le> gain")
  case True
  with assms show thesis unfolding book_gain_def Let_def
    by (auto simp: and_then_Inr_iff i128_ops_Inr_iff unsigned_ops_Inr_iff is_i128_def split del: if_split intro: that)
next
  case False
  with assms show thesis unfolding book_gain_def Let_def
    by (auto simp: and_then_Inr_iff i128_ops_Inr_iff intro: that)
qed

lemma locked_ok_book_gain:
  assumes "book_gain e gain s = Inr s'" "locked_ok s"
  shows "locked_ok s'"
  using assms(1)
proof (rule book_gain_Inr)
  fix current l until
  assume c: "locked_now e s = Inr current" and s': "s' = s\<lparr>fc_locked := Some (l, ledger_timestamp e, until)\<rparr>"
    and l: "if 0 \<le> gain then l = current + gain \<and> l \<le> i128_max \<and> ledger_timestamp e \<le> until \<and> until \<le> u64_max
     else l = max (current + gain) 0 \<and> until = snd (snd (locked_state s))"
  have "0 < l \<Longrightarrow> gain < 0 \<Longrightarrow> 0 < current" using l by (auto simp: max_def split: if_splits)
  with locked_now_bounds [OF c] l assms(2) show ?thesis
    by (cases "0 \<le> gain") (auto simp: s' locked_ok_def locked_state_def i128_max_def max_def less_imp_le
        split: if_splits prod.splits)
qed

lemma fac_inv_book_gain:
  assumes "book_gain e gain s = Inr s'" "fac_inv s"
  shows "fac_inv s'"
proof -
  from assms have "locked_ok s'" using locked_ok_book_gain by (auto simp: fac_inv_def)
  moreover from assms(1) obtain l where "s' = s\<lparr>fc_locked := l\<rparr>" by (rule book_gain_Inr)
  ultimately show ?thesis using assms(2) by (simp add: fac_inv_def)
qed

lemma fac_inv_redemption_closed:
  "fac_inv s \<Longrightarrow> fac_inv (s\<lparr>fc_redemption := (fc_redemption s)(rwa := None)\<rparr>)"
  by (auto simp: fac_inv_def fac_list_ok_def fac_rwas_def)

lemma fac_inv_redemption_opened:
  assumes "fac_inv s" "fc_rwa s rwa = Some r" "0 \<le> x"
  shows "fac_inv (s\<lparr>fc_redemption := (fc_redemption s)(rwa \<mapsto> \<lparr>rd_amount = a, rd_carried = x\<rparr>)\<rparr>)"
  using assms by (auto simp: fac_inv_def fac_list_ok_def fac_rwas_def)

subsection \<open>Every entry point keeps it\<close>

lemma fac_exit_Inr:
  assumes "fac_exit F e p holder operator receiver burned assets s w = Inr (s', w')"
  obtains sh0 sh liq c where "authorised e operator" "0 < burned" "0 < assets"
    "if operator = holder then sh0 = fc_shares s else spend_allowance e holder operator burned (fc_shares s) = Inr sh0"
    "free F e p holder (s\<lparr>fc_shares := sh0\<rparr>) w = Inr liq" "assets \<le> liq"
    "burn holder burned sh0 = Inr sh" "s' = s\<lparr>fc_shares := sh\<rparr>" "fc_config s = Some c"
    "vault_withdraw F e (fg_base_vault c) assets receiver w = Inr w'"
proof -
  from assms obtain s1 liq sh c where 1: "authorised e operator" "0 < burned" "0 < assets"
    and s1: "(if operator \<noteq> holder
              then and_then (map_err FShare (spend_allowance e holder operator burned (fc_shares s))) (\<lambda>sh.
                   Inr (s\<lparr>fc_shares := sh\<rparr>))
              else Inr s) = Inr s1"
    and 2: "free F e p holder s1 w = Inr liq" "assets \<le> liq" "burn holder burned (fc_shares s1) = Inr sh"
      "s' = s1\<lparr>fc_shares := sh\<rparr>" "fc_config s1 = Some c" "vault_withdraw F e (fg_base_vault c) assets receiver w = Inr w'"
    unfolding fac_exit_def
    by (auto simp: and_then_Inr_iff require_auth_Inr_iff panic_if_Inr_iff map_err_Inr_iff fac_reads_iff not_le not_less
        split del: if_split)
  obtain sh0 where "s1 = s\<lparr>fc_shares := sh0\<rparr>"
    "if operator = holder then sh0 = fc_shares s else spend_allowance e holder operator burned (fc_shares s) = Inr sh0"
  proof (cases "operator = holder")
    case True
    with s1 show thesis by (intro that [of "fc_shares s"]) simp_all
  next
    case False
    with s1 show thesis by (auto simp: rs intro: that)
  qed
  with 1 2 show thesis by (intro that [of sh0 liq sh c]) simp_all
qed

lemma fac_inv_exit:
  assumes "fac_exit F e p holder operator receiver burned assets s w = Inr (s', w')" "fac_inv s"
  shows "fac_inv s'"
  using assms(1)
proof (rule fac_exit_Inr)
  fix sh0 sh
  assume "if operator = holder then sh0 = fc_shares s else spend_allowance e holder operator burned (fc_shares s) = Inr sh0"
    "burn holder burned sh0 = Inr sh" "s' = s\<lparr>fc_shares := sh\<rparr>"
  moreover from this assms(2) have "shares_inv sh0"
    using shares_inv_spend by (auto simp: fac_inv_def split: if_splits)
  ultimately show ?thesis
    using fac_inv_shares [OF assms(2)] shares_inv_burn by blast
qed

lemma fac_inv_deposit:
  assumes "fac_deposit H F e x r f p s w = Inr (m, s', w')" "fac_inv s"
  shows "fac_inv s'"
proof -
  from assms(1) obtain q s1 sh where a: "fac_accrue_now H F e s w = Inr (q, s1)"
    and m: "mint r m (fc_shares s1) = Inr sh" "0 < m" "s' = s1\<lparr>fc_shares := sh\<rparr>"
    by (auto simp: fac_deposit_def and_then_Inr_iff map_err_Inr_iff panic_if_Inr_iff not_le)
  note inv = fac_inv_accrue_now [OF a assms(2)]
  then have "shares_inv sh" using m shares_inv_mint by (fastforce simp: fac_inv_def)
  with inv m show ?thesis by (simp add: fac_inv_shares)
qed

lemma fac_inv_leave:
  assumes "fac_withdraw H F e x r h p s w = Inr (m, s', w') \<or> fac_redeem H F e x r h p s w = Inr (m, s', w')" "fac_inv s"
  shows "fac_inv s'"
proof -
  from assms(1) obtain q s1 b a where ac: "fac_accrue_now H F e s w = Inr (q, s1)"
    and ex: "fac_exit F e q h p r b a s1 w = Inr (s', w')"
    by (auto simp: fac_withdraw_def fac_redeem_def and_then_Inr_iff)
  from fac_inv_exit [OF ex fac_inv_accrue_now [OF ac assms(2)]] show ?thesis .
qed

lemma trade_Inr:
  assumes "trade H F e payer recipient i j x m s w = Inr (out, s', w')"
  obtains p s1 t vin vout got w1 c where "authorised e payer" "fac_accrue_now H F e s w = Inr (p, s1)"
    "price_trade H F e s1 i j x w = Inr (Inr t)" "out = td_out t" "m \<le> out" "vault_of s1 i = Inr vin"
    "vault_of s1 j = Inr vout" "take_in F e vin payer x w = Inr (got, w1)" "x \<le> got + 1" "fc_config s1 = Some c"
    "vout = fg_base_vault c \<longrightarrow> (\<exists>liq. free F e p recipient s1 w1 = Inr liq \<and> out \<le> liq)"
    "vault_withdraw F e vout out recipient w1 = Inr w'" "book_gain e (td_gain t) s1 = Inr s'"
    "check_cap H F e i (sn_nav p) s' w' = Inr ()"
proof -
  from assms obtain p s1 t vin vout got w1 c where 1: "authorised e payer" "fac_accrue_now H F e s w = Inr (p, s1)"
    "price_trade H F e s1 i j x w = Inr (Inr t)" "out = td_out t" "m \<le> out" "vault_of s1 i = Inr vin"
    "vault_of s1 j = Inr vout" "take_in F e vin payer x w = Inr (got, w1)" "x \<le> got + 1" "fc_config s1 = Some c"
    and liq: "(if vout = fg_base_vault c
              then and_then (free F e p recipient s1 w1) (\<lambda>liq. panic_if (liq < td_out t) F_InsufficientLiquidity)
              else Inr ()) = Inr ()"
    and 2: "vault_withdraw F e vout out recipient w1 = Inr w'" "book_gain e (td_gain t) s1 = Inr s'"
    "check_cap H F e i (sn_nav p) s' w' = Inr ()"
    unfolding trade_def
    by (auto simp: and_then_Inr_iff require_auth_Inr_iff panic_if_Inr_iff ok_or_panic_iff i128_ops_Inr_iff fac_reads_iff
        not_less split del: if_split)
  from liq 1(4) have "vout = fg_base_vault c \<longrightarrow> (\<exists>liq. free F e p recipient s1 w1 = Inr liq \<and> out \<le> liq)"
    by (auto simp: rs not_less)
  from that [OF 1 this 2] show thesis .
qed

lemma fac_inv_trade:
  assumes "trade H F e payer recipient i j x m s w = Inr (out, s', w')" "fac_inv s"
  shows "fac_inv s'"
  using assms(1)
proof (rule trade_Inr)
  fix p s1 t
  assume a: "fac_accrue_now H F e s w = Inr (p, s1)" and b: "book_gain e (td_gain t) s1 = Inr s'"
  show ?thesis by (rule fac_inv_book_gain [OF b fac_inv_accrue_now [OF a assms(2)]])
qed

lemma fac_inv_redemptions:
  assumes "fac_inv s"
  shows "book H F e rwa x s w = Inr (s', w') \<Longrightarrow> fac_inv s'"
    "settle H F e rwa x s w = Inr (s', w') \<Longrightarrow> fac_inv s'"
    "write_down H F e rwa x s w = Inr (s', w') \<Longrightarrow> fac_inv s'"
proof -
  assume "book H F e rwa x s w = Inr (s', w')"
  then obtain q s1 r price carried where a: "fac_accrue_now H F e s w = Inr (q, s1)" and b: "fc_rwa s1 rwa = Some r"
    "mul_div x price ONE = Inr carried"
    and s': "s' = s1\<lparr>fc_redemption := (fc_redemption s1)(rwa \<mapsto> \<lparr>rd_amount = x, rd_carried = carried\<rparr>)\<rparr>"
    by (auto simp: book_def and_then_Inr_iff fac_reads_iff fmd_iff)
  show "fac_inv s'" unfolding s'
    by (rule fac_inv_redemption_opened [OF fac_inv_accrue_now [OF a assms] b(1) mul_div_nonneg [OF b(2)]])
next
  assume "settle H F e rwa x s w = Inr (s', w')"
  then obtain q s1 gain where a: "fac_accrue_now H F e s w = Inr (q, s1)"
    and b: "book_gain e gain (s1\<lparr>fc_redemption := (fc_redemption s1)(rwa := None)\<rparr>) = Inr s'"
    by (auto simp: settle_def and_then_Inr_iff Let_def)
  show "fac_inv s'"
    by (rule fac_inv_book_gain [OF b fac_inv_redemption_closed [OF fac_inv_accrue_now [OF a assms]]])
next
  assume "write_down H F e rwa x s w = Inr (s', w')"
  then obtain q s1 gain where a: "fac_accrue_now H F e s w = Inr (q, s1)"
    and b: "book_gain e gain (s1\<lparr>fc_redemption := (fc_redemption s1)(rwa := None)\<rparr>) = Inr s'"
    by (auto simp: write_down_def and_then_Inr_iff Let_def)
  show "fac_inv s'"
    by (rule fac_inv_book_gain [OF b fac_inv_redemption_closed [OF fac_inv_accrue_now [OF a assms]]])
qed

lemma validate_terms_ok: "validate F e c rwa vault t w = Inr () \<Longrightarrow> terms_ok t"
  by (auto simp: validate_def rs terms_ok_def split: if_splits)

lemma fac_inv_submit:
  assumes "fac_submit h F e c s w = Inr (r, s')" "fac_inv s"
  shows "fac_inv s'"
proof -
  from assms(1) have "fac_change_ok c"
    by (auto simp: fac_submit_def and_then_Inr_iff panic_if_Inr_iff fac_change_ok_def not_less validate_terms_ok
        split: FacChange.splits)
  moreover from assms(1) obtain k v where
    "s' = s\<lparr>fc_timelock := (fc_timelock s)\<lparr>tl_pending := (tl_pending (fc_timelock s))(k \<mapsto> (c, v))\<rparr>\<rparr>"
    by (auto simp: fac_submit_def and_then_Inr_iff Let_def submit_Inr_iff)
  ultimately show ?thesis
    using assms(2) by (auto simp: fac_inv_def) (auto simp: fac_gov_ok_def)
qed

lemma fac_inv_drop_pending:
  "fac_inv s \<Longrightarrow> fac_inv (s\<lparr>fc_timelock := (fc_timelock s)\<lparr>tl_pending := (tl_pending (fc_timelock s))(k := None)\<rparr>\<rparr>)"
  by (auto simp: fac_inv_def) (auto simp: fac_gov_ok_def)

lemma fac_inv_config:
  "fac_inv s \<Longrightarrow> fg_curator_fee_bps c \<le> MAX_FEE_BPS \<Longrightarrow> fac_inv (s\<lparr>fc_config := Some c\<rparr>)"
  by (auto simp: fac_inv_def) (auto simp: fac_gov_ok_def)

lemma fac_inv_list_rwa:
  assumes "list_rwa F e rwa vault terms s w = Inr s'" "fac_inv s" "terms_ok terms"
  shows "fac_inv s'"
proof -
  from assms(1) obtain rwas where
    s': "s' = s\<lparr>fc_rwas := Some rwas, fc_rwa := (fc_rwa s)(rwa \<mapsto> \<lparr>rw_vault = vault, rw_terms = terms\<rparr>)\<rparr>"
    and rw: "case fc_rwa s rwa of None \<Rightarrow> length (fac_rwas s) < MAX_RWAS \<and> rwas = fac_rwas s @ [rwa] | Some _ \<Rightarrow> rwas = fac_rwas s"
    by (auto simp: list_rwa_def Let_def and_then_Inr_iff not_le split: option.splits if_splits)
  have "fac_list_ok s" using assms(2) by (simp add: fac_inv_def)
  with rw assms(3) have "fac_list_ok s'"
    by (auto simp: s' fac_list_ok_def fac_rwas_def split: option.splits)
  with assms(2) show ?thesis
    by (simp add: s' fac_inv_def fac_gov_ok_def locked_ok_def locked_state_def)
qed

lemma fac_inv_accept:
  assumes "fac_accept H F e k s w = Inr s'" "fac_inv s"
  shows "fac_inv s'"
proof -
  from assms(1) obtain c change t where c: "fc_config s = Some c"
    and tk: "take_change e k (fc_timelock s) = Inr (change, t)"
    by (auto simp: fac_accept_def rs)
  let ?s = "s\<lparr>fc_timelock := t\<rparr>"
  from tk obtain v where v: "tl_pending (fc_timelock s) k = Some (change, v)"
    and t: "t = (fc_timelock s)\<lparr>tl_pending := (tl_pending (fc_timelock s))(k := None)\<rparr>"
    by (auto simp: rs)
  have inv: "fac_inv ?s" unfolding t by (rule fac_inv_drop_pending [OF assms(2)])
  have ok: "fac_change_ok change" "fg_curator_fee_bps c \<le> MAX_FEE_BPS"
    using v c assms(2) unfolding fac_inv_def fac_gov_ok_def by auto
  show ?thesis
  proof (cases change)
    case (F_CuratorFee bps)
    with assms(1) c tk obtain q s1 where a: "fac_accrue_now H F e ?s w = Inr (q, s1)"
      and s': "s' = s1\<lparr>fc_config := Some (c\<lparr>fg_curator_fee_bps := bps\<rparr>)\<rparr>"
      by (auto simp: fac_accept_def fac_config_def and_then_Inr_iff)
    show ?thesis unfolding s' using fac_inv_accrue_now [OF a inv] ok(1) F_CuratorFee
      by (auto intro: fac_inv_config simp: fac_change_ok_def)
  next
    case (F_Vest secs)
    with assms(1) c tk inv ok show ?thesis
      by (auto simp: fac_accept_def fac_config_def intro: fac_inv_config)
  next
    case (F_Queue q)
    with assms(1) c tk inv ok show ?thesis
      by (auto simp: fac_accept_def fac_config_def intro: fac_inv_config)
  next
    case (F_Rwa rwa vault terms)
    with assms(1) c tk obtain s1 where a: "list_rwa F e rwa vault terms ?s w = Inr s1"
      and s': "s' = s1\<lparr>fc_config := Some c\<rparr>"
      by (auto simp: fac_accept_def fac_config_def and_then_Inr_iff)
    show ?thesis unfolding s' using fac_inv_list_rwa [OF a inv] ok F_Rwa
      by (auto intro: fac_inv_config simp: fac_change_ok_def)
  qed
qed

lemma fac_inv_remove_rwa:
  assumes "remove_rwa F e rwa s w = Inr s'" "fac_inv s"
  shows "fac_inv s'"
proof -
  from assms(1) obtain i where i: "index_of rwa (fac_rwas s) = Some i" "fc_redemption s rwa = None"
    and s': "s' = s\<lparr>fc_rwas := Some (remove_at i (fac_rwas s)), fc_rwa := (fc_rwa s)(rwa := None)\<rparr>"
    by (auto simp: remove_rwa_def rs)
  have rm: "remove_at i (fac_rwas s) = remove1 rwa (fac_rwas s)" by (rule remove_at_index_of [OF i(1)])
  have fields: "fac_rwas s' = remove1 rwa (fac_rwas s)" "fc_rwa s' = (fc_rwa s)(rwa := None)"
    "fc_redemption s' = fc_redemption s"
    unfolding rm [symmetric] by (simp_all add: s' fac_rwas_def)
  have "fac_list_ok s" using assms(2) by (simp add: fac_inv_def)
  then have "fac_list_ok s'" unfolding fac_list_ok_def fields
    using i(2) by (auto simp: length_remove1)
  with assms(2) show ?thesis
    by (simp add: s' fac_inv_def fac_gov_ok_def locked_ok_def locked_state_def)
qed

lemma fac_inv_on_shares:
  assumes "fac_on_shares r s w = Inr (s', w')" "fac_inv s" "\<And>sh. r = Inr sh \<Longrightarrow> shares_inv sh"
  shows "fac_inv s'"
  using assms fac_inv_shares by (auto simp: fac_on_shares_def rs)

lemma fac_inv_exec:
  assumes "facility_exec h H F e op s w = Inr (s', w')" "fac_inv s"
  shows "fac_inv s'"
proof -
  have sh: "shares_inv (fc_shares s)" using assms(2) by (simp add: fac_inv_def)
  note rules = fac_inv_deposit [OF _ assms(2)] fac_inv_leave [OF disjI1 assms(2)] fac_inv_leave [OF disjI2 assms(2)]
    fac_inv_trade [OF _ assms(2)] fac_inv_redemptions [OF assms(2)] fac_inv_submit [OF _ assms(2)]
    fac_inv_accept [OF _ assms(2)] fac_inv_remove_rwa [OF _ assms(2)] fac_inv_accrue_now [OF _ assms(2)]
    fac_inv_on_shares [OF _ assms(2)] entry_keeps_inv [OF sh]
  show ?thesis
  proof (cases op)
    case (F_revoke k a)
    with assms show ?thesis
      by (auto simp: facility_exec_def fac_revoke_def and_then_Inr_iff map_err_Inr_iff revoke_Inr_iff intro: fac_inv_drop_pending)
  next
    case (F_set_paused a b)
    with assms show ?thesis by (auto simp: facility_exec_def fac_set_paused_def rs)
  next
    case (F_set_allowlist b)
    with assms sh show ?thesis by (auto simp: facility_exec_def fac_set_allowlist_def rs intro: fac_inv_shares)
  next
    case (F_set_member a b)
    with assms sh show ?thesis by (auto simp: facility_exec_def fac_set_member_def rs intro: fac_inv_shares)
  qed (use assms(1) in \<open>auto simp: facility_exec_def and_then_Inr_iff fac_accrue_def intro: rules\<close>)
qed

lemma fac_inv_run: "facility_run h H F me evs s \<Longrightarrow> fac_inv s"
proof (induction rule: facility_run.induct)
  case (constructed hst cfg w s)
  then obtain base d sh where "shares_init d (fg_name cfg) (fg_symbol cfg) sh_empty = Inr sh"
    "s = facility_empty\<lparr>fc_shares := sh, fc_timelock := init (fg_timelock cfg) (fg_guardian cfg) tl_empty,
       fc_host := Some hst, fc_base := Some base, fc_config := Some cfg\<rparr>" "fg_curator_fee_bps cfg \<le> MAX_FEE_BPS"
    by (auto simp: fac_constructor_def rs facility_empty_def not_less)
  moreover from this(1) have "shares_inv sh" by (rule shares_inv_init)
  ultimately show ?case
    by (auto simp: fac_inv_def fac_gov_ok_def fac_list_ok_def locked_ok_def locked_state_def fac_rwas_def
        facility_empty_def init_def tl_empty_def i128_max_def)
next
  case (call evs s e op w s' w')
  from fac_inv_exec [OF call.hyps(3) call.IH] show ?case .
qed

subsection \<open>What others can do to a holder\<close>

lemma spares_accrue_now: "fac_accrue_now H F e s w = Inr (p, s') \<Longrightarrow> spares me (fc_shares s) (fc_shares s')"
  by (erule fac_accrue_now_Inr) (simp add: spares_accrue)

lemma spares_fac_exit:
  assumes "fac_exit F e p holder operator receiver burned assets s w = Inr (s', w')" "\<not> authorised e me"
  shows "spares me (fc_shares s) (fc_shares s')"
  using assms(1) by (rule fac_exit_Inr) (use assms(2) in \<open>auto intro: spares_leave\<close>)

lemma fac_exec_spares:
  assumes "facility_exec h H F e op s w = Inr (s', w')" "\<not> authorised e me"
  shows "spares me (fc_shares s) (fc_shares s')"
proof (cases op)
  case (F_deposit x r f p)
  with assms(1) obtain q s1 m sh where a: "fac_accrue_now H F e s w = Inr (q, s1)"
    and m: "mint r m (fc_shares s1) = Inr sh" "0 < m" "s' = s1\<lparr>fc_shares := sh\<rparr>"
    by (auto simp: facility_exec_def fac_deposit_def and_then_Inr_iff map_err_Inr_iff panic_if_Inr_iff not_le)
  have "spares me (fc_shares s1) (fc_shares s')" using spares_mint [OF m(1)] m(2,3) by simp
  with spares_accrue_now [OF a] show ?thesis by (rule spares_trans)
next
  case (F_withdraw x r k p)
  with assms(1) obtain q s1 b a where ac: "fac_accrue_now H F e s w = Inr (q, s1)"
    and ex: "fac_exit F e q k p r b a s1 w = Inr (s', w')"
    by (auto simp: facility_exec_def fac_withdraw_def and_then_Inr_iff)
  from spares_trans [OF spares_accrue_now [OF ac] spares_fac_exit [OF ex assms(2)]] show ?thesis .
next
  case (F_redeem x r k p)
  with assms(1) obtain q s1 b a where ac: "fac_accrue_now H F e s w = Inr (q, s1)"
    and ex: "fac_exit F e q k p r b a s1 w = Inr (s', w')"
    by (auto simp: facility_exec_def fac_redeem_def and_then_Inr_iff)
  from spares_trans [OF spares_accrue_now [OF ac] spares_fac_exit [OF ex assms(2)]] show ?thesis .
next
  case F_accrue
  with assms(1) show ?thesis by (auto simp: facility_exec_def fac_accrue_def and_then_Inr_iff intro: spares_accrue_now)
next
  case (F_trade a b i j x m)
  with assms(1) obtain out where "trade H F e a b i j x m s w = Inr (out, s', w')"
    by (auto simp: facility_exec_def and_then_Inr_iff)
  then show ?thesis
  proof (rule trade_Inr)
    fix p s1 t
    assume ac: "fac_accrue_now H F e s w = Inr (p, s1)" and "book_gain e (td_gain t) s1 = Inr s'"
    from this(2) have "fc_shares s' = fc_shares s1" by (rule book_gain_Inr) simp
    with spares_accrue_now [OF ac] show ?thesis by simp
  qed
next
  case (F_book r x)
  with assms(1) show ?thesis
    by (auto simp: facility_exec_def book_def and_then_Inr_iff intro: spares_accrue_now)
next
  case (F_settle r x)
  with assms(1) show ?thesis
    by (auto simp: facility_exec_def settle_def and_then_Inr_iff Let_def elim!: book_gain_Inr intro: spares_accrue_now)
next
  case (F_write_down r x)
  with assms(1) show ?thesis
    by (auto simp: facility_exec_def write_down_def and_then_Inr_iff Let_def elim!: book_gain_Inr intro: spares_accrue_now)
next
  case (F_accept k)
  then have ac: "fac_accept H F e k s w = Inr s'" using assms(1) by (auto simp: facility_exec_def and_then_Inr_iff)
  then obtain c change t where c: "fc_config s = Some c" and tk: "take_change e k (fc_timelock s) = Inr (change, t)"
    by (auto simp: fac_accept_def rs)
  show ?thesis
    using ac c tk spares_accrue_now [of H F e "s\<lparr>fc_timelock := t\<rparr>" w]
    by (cases change) (auto simp: fac_accept_def list_rwa_def fac_config_def and_then_Inr_iff Let_def)
qed (use assms in \<open>auto simp: facility_exec_def fac_submit_def fac_revoke_def remove_rwa_def fac_set_paused_def
      fac_set_allowlist_def fac_set_member_def fac_on_shares_def and_then_Inr_iff map_err_Inr_iff Let_def
      intro: spares_entries\<close>)

subsection \<open>Prices\<close>

text \<open>Pricing does not read the share ledger, so accruing first changes no price.\<close>

lemma pricing_ignores_shares [simp]:
  "fac_paused (s\<lparr>fc_shares := sh\<rparr>) = fac_paused s"
  "fac_base (s\<lparr>fc_shares := sh\<rparr>) = fac_base s"
  "accepted (s\<lparr>fc_shares := sh\<rparr>) rwa = accepted s rwa"
  "listed (s\<lparr>fc_shares := sh\<rparr>) rwa = listed s rwa"
  "fac_price H e (s\<lparr>fc_shares := sh\<rparr>) rwa t w = fac_price H e s rwa t w"
  by (simp_all add: fac_paused_def fac_base_def accepted_def listed_def fac_price_def)

lemma price_trade_ignores_shares [simp]:
  "price_trade H F e (s\<lparr>fc_shares := sh\<rparr>) i j q w = price_trade H F e s i j q w"
  by (simp add: price_trade_def bid_def ask_def cong: if_cong)

lemma price_trade_accrued:
  "fac_accrue_now H F e s w = Inr (p, s') \<Longrightarrow> price_trade H F e s' i j q w = price_trade H F e s i j q w"
  by (erule fac_accrue_now_Inr) simp

lemma spread_never_profits:
  fixes v p fa fb D :: int
  assumes "0 \<le> v" "0 < p" "0 < fa" "0 \<le> fb" "fb \<le> fa" "0 < D" "0 < one"
  shows "((v * one div p) * D div fa) * p div one * fb div D \<le> v"
proof -
  let ?n = "v * one div p"
  let ?u = "?n * D div fa"
  let ?m = "?u * p div one"
  have n: "?n * p \<le> v * one" "0 \<le> ?n" using assms by (auto simp: floor_div_mult_le pos_imp_zdiv_nonneg_iff)
  have u: "?u * fa \<le> ?n * D" "0 \<le> ?u" using assms n(2) by (auto simp: floor_div_mult_le pos_imp_zdiv_nonneg_iff)
  have m: "?m * one \<le> ?u * p" "0 \<le> ?m" using assms u(2) by (auto simp: floor_div_mult_le pos_imp_zdiv_nonneg_iff)
  have "(?m * fb) * one \<le> (?u * p) * fb"
    using mult_right_mono [OF m(1) assms(4)] by (simp add: mult.assoc mult.commute [of one])
  also have "\<dots> \<le> (?u * p) * fa" using u(2) assms by (intro mult_left_mono) auto
  also have "\<dots> = (?u * fa) * p" by simp
  also have "\<dots> \<le> (?n * D) * p" using u(1) assms by (intro mult_right_mono) auto
  also have "\<dots> = (?n * p) * D" by simp
  also have "\<dots> \<le> (v * one) * D" using n(1) assms by (intro mult_right_mono) auto
  finally have "(?m * fb) * one \<le> (v * D) * one" by (simp add: mult.assoc mult.commute [of one])
  then have "?m * fb \<le> v * D" using assms(7) by (rule mult_right_le_imp_le)
  with assms(6) show ?thesis by (rule round_trip_le [rotated])
qed

lemma buy_price:
  assumes "price_trade H F e s base rwa v w = Inr (Inr t)" "fc_base s = Some base"
  obtains r p h where "fc_rwa s rwa = Some r" "fac_price H e s rwa (rw_terms r) w = Inr (Inr p)"
    "fac_horizon e (rw_terms r) = Inr (Inr h)" "0 < DENOM - int (tm_ask_rate (rw_terms r)) * h" "0 < p" "0 < v"
    "td_out t = (v * ONE div p) * DENOM div (DENOM - int (tm_ask_rate (rw_terms r)) * h)"
  using assms(1)
proof (rule price_trade_Inr)
  fix b val mark_in
  assume b: "fc_base s = Some b" "base \<noteq> rwa" "0 < v"
    "if base = b then val = v \<and> mark_in = v else bid H e s base v w = Inr (Inr (val, mark_in))"
    "if rwa = b then td_out t = val \<and> td_gain t = mark_in - val
     else \<exists>mark_out. ask H F e s rwa val w = Inr (Inr (td_out t, mark_out)) \<and> td_gain t = mark_in - mark_out"
  with assms(2) obtain mark_out where "ask H F e s rwa v w = Inr (Inr (td_out t, mark_out))" by auto
  then show thesis
  proof (rule ask_Inr)
    fix tm p h r held at_mark
    assume a: "accepted s rwa = Inr (Inr tm)" "fac_price H e s rwa tm w = Inr (Inr p)" "fac_horizon e tm = Inr (Inr h)"
      "0 < DENOM - int (tm_ask_rate tm) * h" "mul_div v ONE p = Inr at_mark"
      "mul_div at_mark DENOM (DENOM - int (tm_ask_rate tm) * h) = Inr (td_out t)"
    moreover from a(2) have "0 < p" by (auto simp: fac_price_iff)
    ultimately show thesis using b(3)
      by (intro that [of "the (fc_rwa s rwa)" p h]) (auto simp: accepted_iff mul_div_Inr_iff)
  qed
qed

lemma sell_price:
  assumes "price_trade H F e s rwa base x w = Inr (Inr t)" "fc_base s = Some base"
  obtains r p h where "fc_rwa s rwa = Some r" "fac_price H e s rwa (rw_terms r) w = Inr (Inr p)"
    "fac_horizon e (rw_terms r) = Inr (Inr h)"
    "td_out t = (x * p div ONE) * max (DENOM - int (tm_bid_rate (rw_terms r)) * h) 0 div DENOM"
    "td_gain t = x * p div ONE - td_out t"
  using assms(1)
proof (rule price_trade_Inr)
  fix b val mark_in
  assume "fc_base s = Some b" "rwa \<noteq> base"
    "if rwa = b then val = x \<and> mark_in = x else bid H e s rwa x w = Inr (Inr (val, mark_in))"
    "if base = b then td_out t = val \<and> td_gain t = mark_in - val
     else \<exists>mark_out. ask H F e s base val w = Inr (Inr (td_out t, mark_out)) \<and> td_gain t = mark_in - mark_out"
  with assms(2) have "bid H e s rwa x w = Inr (Inr (td_out t, mark_in))" "td_gain t = mark_in - td_out t" by auto
  then show thesis by (auto simp: bid_iff accepted_iff mul_div_Inr_iff intro: that)
qed

subsection \<open>Frame of the pause flag\<close>

lemma paused_frame [simp]:
  "fac_rwas (s\<lparr>fc_paused := b\<rparr>) = fac_rwas s"
  "fac_config (s\<lparr>fc_paused := b\<rparr>) = fac_config s"
  "fac_base (s\<lparr>fc_paused := b\<rparr>) = fac_base s"
  "listed (s\<lparr>fc_paused := b\<rparr>) rwa = listed s rwa"
  "fac_price H e (s\<lparr>fc_paused := b\<rparr>) rwa t w = fac_price H e s rwa t w"
  "locked_now e (s\<lparr>fc_paused := b\<rparr>) = locked_now e s"
  "free F e p who (s\<lparr>fc_paused := b\<rparr>) w = free F e p who s w"
  by (simp_all add: fac_rwas_def fac_config_def fac_base_def listed_def fac_price_def
      locked_now_def locked_state_def free_def Let_def cong: if_cong option.case_cong)

lemma paused_rwa_values [simp]:
  "rwa_values H F e (s\<lparr>fc_paused := b\<rparr>) rs w = rwa_values H F e s rs w"
proof (induction rs)
  case (Cons a rs)
  then show ?case by (intro ext) (simp cong: if_cong)
qed (simp add: fun_eq_iff)

lemma paused_shares_commute: "s\<lparr>fc_paused := b, fc_shares := sh\<rparr> = s\<lparr>fc_shares := sh, fc_paused := b\<rparr>"
  by (cases s) simp

lemma paused_accrue:
  "fac_accrue_now H F e (s\<lparr>fc_paused := b\<rparr>) w =
     and_then (fac_accrue_now H F e s w) (\<lambda>(p, s'). Inr (p, s'\<lparr>fc_paused := b\<rparr>))"
  by (simp add: fac_accrue_now_def fac_gross_def and_then_assoc case_prod_unfold paused_shares_commute)

lemma paused_exit:
  "fac_exit F e p h op r x a (s\<lparr>fc_paused := b\<rparr>) w =
     and_then (fac_exit F e p h op r x a s w) (\<lambda>(s', w'). Inr (s'\<lparr>fc_paused := b\<rparr>, w'))"
  by (cases "op = h") (simp_all add: fac_exit_def and_then_assoc paused_shares_commute)

subsection \<open>Vesting\<close>

text \<open>From the moment it was booked, what is locked only shrinks, and is gone at the end.\<close>

lemma locked_now_at:
  assumes "locked_state s = (l, since, until)" "locked_ok s" "since \<le> ledger_timestamp e"
  shows "locked_now e s = Inr (if until \<le> ledger_timestamp e \<or> l = 0 then 0
    else l * int (until - ledger_timestamp e) div int (until - since))"
proof (cases "until \<le> ledger_timestamp e \<or> l = 0")
  case True
  with assms(1) show ?thesis by (auto simp: locked_now_def)
next
  case False
  let ?left = "int (until - ledger_timestamp e)" and ?span = "int (until - since)"
  have l: "0 \<le> l" "l \<le> i128_max" "until \<le> u64_max" using assms(1,2) by (auto simp: locked_ok_def)
  have left: "0 < ?left" "?left \<le> ?span" "?left \<le> int u64_max" using False assms(3) l(3) by auto
  then have "l * ?left div ?span \<le> l" using l(1) by (intro floor_fraction_le) auto
  moreover have "l * ?left \<le> i128_max * int u64_max"
    using l(1,2) left by (intro mult_mono) auto
  moreover have "i128_max * int u64_max \<le> int u256_max" by (simp add: width_defs)
  ultimately have "mul_div l ?left ?span = Inr (l * ?left div ?span)"
    using l left by (auto simp: mul_div_Inr_iff)
  then have "fmd l ?left ?span = Inr (l * ?left div ?span)" by (simp add: fmd_iff)
  with False assms(1,3) show ?thesis by (simp add: locked_now_def u64_sub_def)
qed

lemma locked_now_shrinks:
  assumes "locked_state s = (l, since, until)" "locked_ok s" "since \<le> ledger_timestamp e1"
    and "ledger_timestamp e1 \<le> ledger_timestamp e2"
  shows "\<exists>x1 x2. locked_now e1 s = Inr x1 \<and> locked_now e2 s = Inr x2 \<and> 0 \<le> x2 \<and> x2 \<le> x1 \<and> x1 \<le> l \<and>
    (until \<le> ledger_timestamp e2 \<longrightarrow> x2 = 0) \<and> (ledger_timestamp e1 = since \<longrightarrow> since < until \<longrightarrow> x1 = l)"
proof -
  let ?f = "\<lambda>t. if until \<le> t \<or> l = 0 then 0 else l * int (until - t) div int (until - since)"
  have l: "0 \<le> l" using assms(1,2) by (auto simp: locked_ok_def)
  have "?f (ledger_timestamp e2) \<le> ?f (ledger_timestamp e1)"
    using assms(3,4) l by (auto intro!: zdiv_mono1 mult_left_mono simp: pos_imp_zdiv_nonneg_iff)
  moreover have "0 \<le> ?f (ledger_timestamp e2)"
    using assms(3,4) l by (auto simp: pos_imp_zdiv_nonneg_iff)
  moreover have "?f (ledger_timestamp e1) \<le> l"
    using assms(3) l by (auto intro!: floor_fraction_le)
  ultimately show ?thesis
    using locked_now_at [OF assms(1-3)] locked_now_at [OF assms(1,2), of e2] assms(3,4) l by auto
qed

text \<open>The new end is a weighted mean, so it is never later than the later of the two ends it mixes.\<close>

lemma weighted_span_le:
  fixes a b :: int
  assumes "0 \<le> a" "0 \<le> b" "0 < a + b" "x \<le> m" "y \<le> m"
  shows "(a * x + b * y) * 1 div (a + b) \<le> m"
proof -
  have "a * x + b * y \<le> m * (a + b)"
    using mult_left_mono [OF assms(4,1)] mult_left_mono [OF assms(5,2)] by (simp add: algebra_simps)
  with assms(3) show ?thesis by (simp add: round_trip_le)
qed

lemma book_gain_span:
  assumes "book_gain e gain s = Inr s'" "0 \<le> gain" "fc_config s = Some c" "is_u64 (fg_vest_seconds c)" "locked_ok s"
    and "locked_state s' = (l, since, until)"
  shows "until - since \<le> max (snd (snd (locked_state s)) - since) (fg_vest_seconds c)"
proof -
  let ?left = "snd (snd (locked_state s)) - ledger_timestamp e"
  let ?m = "max ?left (fg_vest_seconds c)"
  from assms(1-3) obtain current span where c: "locked_now e s = Inr current"
    and sp: "(if 0 < current + gain
        then and_then (i128_mul current (int ?left)) (\<lambda>a. and_then (i128_mul gain (int (fg_vest_seconds c))) (\<lambda>b.
             and_then (i128_add a b) (\<lambda>weighted. fmd weighted 1 (current + gain))))
        else Inr 0) = Inr span"
    and s': "s' = s\<lparr>fc_locked := Some (current + gain, ledger_timestamp e, ledger_timestamp e + as_u64 span)\<rparr>"
    unfolding book_gain_def Let_def
    by (auto simp: and_then_Inr_iff fac_config_def i128_ops_Inr_iff unsigned_ops_Inr_iff split del: if_split)
  have cur: "0 \<le> current" by (rule locked_now_bounds [OF c])
  have u: "?m \<le> u64_max" using assms(4,5) by (auto simp: is_u64_def locked_ok_def split: prod.splits)
  have span: "0 \<le> span \<and> span \<le> int ?m"
  proof (cases "0 < current + gain")
    case True
    with sp have md: "mul_div (current * int ?left + gain * int (fg_vest_seconds c)) 1 (current + gain) = Inr span"
      by (auto simp: and_then_Inr_iff i128_ops_Inr_iff fmd_iff)
    then have "span = (current * int ?left + gain * int (fg_vest_seconds c)) * 1 div (current + gain)"
      by (simp add: mul_div_Inr_iff)
    also have "\<dots> \<le> int ?m" using cur assms(2) True by (intro weighted_span_le) auto
    finally show ?thesis using mul_div_nonneg [OF md] by simp
  next
    case False
    with sp show ?thesis by simp
  qed
  with u have "as_u64 span = nat span" by (intro as_u64_id) auto
  with span assms(6) show ?thesis by (auto simp: s' locked_state_def)
qed

end
