(* ===== verification/Vault_Fns.thy ===== *)
theory Vault_Fns
  imports Vault_Liquidity Facility
begin

text \<open>
  The facility's vaults are the repository's vault: \<open>vault_fns\<close> filled with the definitions of \<open>Vault\<close>, each
  address with its own vault storage, over whatever tokens and venues the vaults themselves use.
\<close>

type_synonym 'w vaults_world = "(address \<Rightarrow> vault) \<times> 'w"

definition query_asset :: "vault \<Rightarrow> (VaultError, address) res" where
  "query_asset s = and_then (vault_config s) (\<lambda>c. Inr (vc_asset c))"

text \<open>A call that returns a value and changes one vault's storage.\<close>

definition at_vault :: "address \<Rightarrow> (vault \<Rightarrow> 'w \<Rightarrow> (VaultError, int \<times> vault \<times> 'w) res) \<Rightarrow> 'w vaults_world \<Rightarrow>
    (int \<times> 'w vaults_world) option" where
  "at_vault v f u = map_option (\<lambda>(x, s, w). (x, (fst u)(v := s), w)) (try_call (f (fst u v) (snd u)))"

definition vaults_fns :: "'w host \<Rightarrow> 'w venue_host \<Rightarrow> 'w vaults_world vault_fns" where
  "vaults_fns H V =
    \<lparr>vf_query_asset = (\<lambda>v u. try_call (query_asset (fst u v))),
     vf_deposit = (\<lambda>e v x r f p u. at_vault v (deposit H V e x r f p) u),
     vf_withdraw = (\<lambda>e v x r h p u. at_vault v (withdraw H V e x r h p) u),
     vf_convert_to_assets = (\<lambda>e v x u. try_call (convert_to_assets H V e x (fst u v) (snd u))),
     vf_max_withdraw = (\<lambda>e v h u. try_call (max_withdraw H V e h (fst u v) (snd u))),
     vf_balance = (\<lambda>v a u. Some (balance (vt_shares (fst u v)) a)),
     vf_decimals = (\<lambda>t u. tk_decimals V t (snd u)),
     vf_host_admin = (\<lambda>a u. vh_admin V a (snd u))\<rparr>"

text \<open>The tokens and oracles the facility calls directly, in the same world.\<close>

definition beside_vaults :: "'w host \<Rightarrow> 'w vaults_world host" where
  "beside_vaults H =
    \<lparr>tk_balance = (\<lambda>t c u. tk_balance H t c (snd u)),
     tk_transfer = (\<lambda>e t a b x u. map_option (Pair (fst u)) (tk_transfer H e t a b x (snd u))),
     tk_transfer_from = (\<lambda>e t p a b x u. map_option (Pair (fst u)) (tk_transfer_from H e t p a b x (snd u))),
     tk_approve = (\<lambda>e t a p x n u. map_option (Pair (fst u)) (tk_approve H e t a p x n (snd u))),
     or_get_price = (\<lambda>e r b q u. or_get_price H e r b q (snd u))\<rparr>"

lemma beside_vaults_sep41:
  assumes "sep41_host H"
  shows "sep41_host (beside_vaults H)"
proof
  fix e tok a b x w w'
  assume "tk_transfer (beside_vaults H) e tok a b x w = Some w'"
  then show "authorised e a \<and> 0 \<le> x \<and> x \<le> tk_balance (beside_vaults H) tok a w \<and> (\<forall>t c. tk_balance (beside_vaults H) t c w' =
      (if t = tok then moved a b x (\<lambda>c. tk_balance (beside_vaults H) tok c w) c else tk_balance (beside_vaults H) t c w))"
    using sep41_host.host_transfer [OF assms, of e tok a b x "snd w"] by (auto simp: beside_vaults_def)
next
  fix e tok p a b x w w'
  assume "tk_transfer_from (beside_vaults H) e tok p a b x w = Some w'"
  then show "authorised e p \<and> 0 \<le> x \<and> x \<le> tk_balance (beside_vaults H) tok a w \<and> (\<forall>t c. tk_balance (beside_vaults H) t c w' =
      (if t = tok then moved a b x (\<lambda>c. tk_balance (beside_vaults H) tok c w) c else tk_balance (beside_vaults H) t c w))"
    using sep41_host.host_transfer_from [OF assms, of e tok p a b x "snd w"] by (auto simp: beside_vaults_def)
next
  fix e tok a p x u w w'
  assume "tk_approve (beside_vaults H) e tok a p x u w = Some w'"
  then show "authorised e a \<and> (\<forall>t c. tk_balance (beside_vaults H) t c w' = tk_balance (beside_vaults H) t c w)"
    using sep41_host.host_approve [OF assms, of e tok a p x u "snd w"] by (auto simp: beside_vaults_def)
qed

end
