(* ===== verification/Facility_Props.thy ===== *)
theory Facility_Props
  imports Facility_Inv Vault_Fns
begin

text \<open>
  What the facility guarantees: a reachable-state invariant over every entry point, the vesting of gains,
  trades that pay what was quoted and never profit on a round trip, exits at a fair price that leave the
  queue's claim alone and that a pause cannot stop.
\<close>

subsection \<open>A concrete facility over two vaults\<close>

definition vault_a :: address where "vault_a = Contract 31"
definition vault_b :: address where "vault_b = Contract 32"
definition feed :: address where "feed = Contract 33"

text \<open>A vault without fees or venues in which the facility holds all \<open>shrs\<close>.\<close>

definition plain_vault :: "address \<Rightarrow> int \<Rightarrow> vault" where
  "plain_vault asset shrs = fresh_vault\<lparr>
     vt_config := Some (demo_config\<lparr>vc_asset := asset, vc_curator_fee_bps := 0, vc_deposit_cap := 0\<rparr>),
     vt_shares := set_supply shrs (set_balance this_contract shrs (vt_shares fresh_vault))\<rparr>"

text \<open>The base vault holds 1000 of \<open>token_a\<close>, the other vault 500 of \<open>token_b\<close>, which is worth two base units.\<close>

definition fac_world :: "venue_world vaults_world" where
  "fac_world = ((\<lambda>v. if v = vault_b then plain_vault token_b (500 * 10 ^ 6) else plain_vault token_a (1000 * 10 ^ 6)),
     ((\<lambda>t. funded_token\<lparr>tt_balances := [alice \<mapsto> 10000, bob \<mapsto> 10000, vault_a \<mapsto> 1000, vault_b \<mapsto> 500]\<rparr>),
      (\<lambda>_. po_empty\<lparr>po_prices := [(token_b, token_a) \<mapsto> \<lparr>pd_price = 2 * 10 ^ 18, pd_timestamp = 1\<rparr>]\<rparr>)),
     snd demo_world)"

definition demo_terms :: Terms where
  "demo_terms = \<lparr>tm_accepted = True, tm_bid_rate = 1000, tm_ask_rate = 500, tm_max_bps = 10000, tm_oracle = feed,
     tm_max_price_age = 1000, tm_schedule = \<lparr>sc_mode = Rolling, sc_rolling_seconds = 864000,
       sc_next_redemption_at = 0, sc_cycle_seconds = 0, sc_max_bps_per_day = 2000\<rparr>, tm_redemption = carol\<rparr>"

definition fac_demo_config :: FacilityConfig where
  "fac_demo_config = \<lparr>fg_base_vault = vault_a, fg_curator = alice, fg_manager = bob, fg_guardian = carol,
     fg_name = ''oLP'', fg_symbol = ''o'', fg_curator_fee_bps = 0, fg_vest_seconds = 100, fg_timelock = 100\<rparr>"

text \<open>The facility as its constructor leaves it, and with one RWA listed and all its oLP with \<open>alice\<close>.\<close>

definition fresh_facility :: facility where
  "fresh_facility = facility_empty\<lparr>fc_shares := set_hwm 1000000000000 (init_meta 13 ''oLP'' ''o'' sh_empty),
     fc_timelock := init 100 carol tl_empty, fc_host := Some admin_addr, fc_base := Some token_a,
     fc_config := Some fac_demo_config\<rparr>"

definition demo_facility :: facility where
  "demo_facility = fresh_facility\<lparr>
     fc_shares := set_supply 2000000000 (set_balance alice 2000000000 (fc_shares fresh_facility)),
     fc_rwas := Some [token_b], fc_rwa := [token_b \<mapsto> \<lparr>rw_vault = vault_b, rw_terms = demo_terms\<rparr>],
     fc_queue := Some carol\<rparr>"

abbreviation "fac_host \<equiv> beside_vaults vw_host"
abbreviation "fac_fns \<equiv> vaults_fns vw_host vw_venues"

lemmas fac_demo = vault_a_def vault_b_def feed_def plain_vault_def fac_world_def demo_terms_def fac_demo_config_def
  fresh_facility_def demo_facility_def facility_empty_def beside_vaults_def vaults_fns_def at_vault_def query_asset_def
  fac_config_def fac_base_def fac_rwas_def fac_paused_def fac_price_def fac_horizon_def accepted_def listed_def
  vault_of_def position_def locked_state_def locked_now_def seconds_for_def fmd_def ok_then_def pure_ok_def ok_or_panic_def
  convert_to_assets_def DENOM_def RATE_SCALE_def

lemmas fac_ops = fac_accrue_now_def fac_gross_def fac_exit_def free_def vault_withdraw_def take_in_def trade_def
  price_trade_def bid_def ask_def book_gain_def check_cap_def

lemma fresh_facility_run: "facility_run h fac_host fac_fns this_contract [] fresh_facility"
proof (rule facility_run.constructed)
  show "fac_constructor fac_fns admin_addr fac_demo_config facility_empty fac_world = Inr fresh_facility"
    by (simp add: fac_constructor_def shares_init_def DECIMALS_OFFSET_def MAX_FEE_BPS_def fac_demo vault_eval demo_defs)
qed

subsection \<open>Leaving the facility\<close>

lemma free_Inr:
  assumes "free F e p who s w = Inr liq" "fc_config s = Some c" "0 < x" "x \<le> liq"
  obtains available where
    "vf_max_withdraw F (calling e (fg_base_vault c)) (fg_base_vault c) (current_contract e) w = Some available"
    "x \<le> available \<or> (\<exists>q. fc_queue s = Some q \<and> q \<noteq> who)"
    "\<And>q. fc_queue s = Some q \<Longrightarrow> q \<noteq> who \<Longrightarrow>
      \<exists>owed. to_assets p (balance (fc_shares s) q) True = Inr owed \<and> x \<le> available - owed"
  using assms unfolding free_def fac_config_def Let_def
  by (cases "fc_queue s") (auto simp: rs max_def split: if_splits intro: that)

lemma fac_accrue_now_snapshot:
  assumes "fac_accrue_now H F e s w = Inr (p, s')"
  shows "fac_snapshot H F e s w = Inr p" "share_supply (fc_shares s') = sn_supply p" "fc_config s' = fc_config s"
    "fc_queue s' = fc_queue s"
  using assms
  by (rule fac_accrue_now_Inr; auto simp: fac_snapshot_def fac_config_def accrue_supply)+

subsection \<open>Properties\<close>

text \<open>
  C17 (invariant). In every state a facility can reach, by any calls of anyone: the oLP ledger is consistent, the
  curator fee is at most 50%, at most eight distinct RWAs are listed and exactly those have terms, every
  listed or pending set of terms sells no dearer a discount than it buys (\<open>ask_rate \<le> bid_rate \<le> ceiling\<close>), a
  redemption is open only for a listed RWA and carried at no negative value, and the locked gain is not
  negative and never past its end.
\<close>

theorem facility_reachable_invariant:
  assumes "facility_run h H F me evs s"
  shows "fac_inv s"
  by (rule fac_inv_run [OF assms])

theorem facility_reachable_invariant_witness:
  "\<exists>s. facility_run (\<lambda>_. 0) fac_host fac_fns this_contract [(demo_env 1, F_submit (F_Rwa token_b vault_b demo_terms))] s \<and>
     fac_inv s \<and> tl_pending (fc_timelock s) 0x80000000 = Some (F_Rwa token_b vault_b demo_terms, 101)"
proof -
  obtain s where s: "facility_exec (\<lambda>_. 0) fac_host fac_fns (demo_env 1) (F_submit (F_Rwa token_b vault_b demo_terms)) fresh_facility fac_world = Inr (s, fac_world)"
    and pend: "tl_pending (fc_timelock s) 0x80000000 = Some (F_Rwa token_b vault_b demo_terms, 101)"
    by (simp add: facility_exec_def fac_submit_def fac_curator_auth_def validate_def is_valid_def in_horizon_def MAX_SECONDS_def
        fac_kind_def submit_def delay_def fac_demo vault_eval demo_defs)
  from facility_run.call [OF fresh_facility_run _ s]
  have run: "facility_run (\<lambda>_. 0) fac_host fac_fns this_contract [(demo_env 1, F_submit (F_Rwa token_b vault_b demo_terms))] s" by simp
  from facility_reachable_invariant [OF run] run pend show ?thesis by blast
qed

text \<open>
  C14 (safety). Nobody leaves the facility at the other holders' expense, and nobody overtakes the queue. At the
  share price of the snapshot the call itself takes, the assets a withdrawal or redemption pays are worth no
  more than the oLP it burns, from the holder alone and only by the holder or within an allowance; they are paid
  by one withdrawal from the base vault, and unless the holder is the queue they leave the base the queue's own
  oLP is worth, rounded up, untouched.
\<close>

theorem facility_exit_fair:
  assumes "fac_withdraw H F e assets receiver holder operator s w = Inr (burned, s', w') \<or>
    fac_redeem H F e burned receiver holder operator s w = Inr (assets, s', w')"
  shows "\<exists>p sa c available. fac_accrue_now H F e s w = Inr (p, sa) \<and> fac_snapshot H F e s w = Inr p \<and> fc_config s = Some c \<and>
     0 < burned \<and> 0 < assets \<and> fair_exit p assets burned \<and> share_supply (fc_shares s') = sn_supply p - burned \<and>
     balance (fc_shares s') = (balance (fc_shares sa))(holder := balance (fc_shares sa) holder - burned) \<and>
     authorised e operator \<and> (operator = holder \<or> burned \<le> allowance e holder operator (fc_shares sa)) \<and>
     vault_withdraw F e (fg_base_vault c) assets receiver w = Inr w' \<and>
     vf_max_withdraw F (calling e (fg_base_vault c)) (fg_base_vault c) (current_contract e) w = Some available \<and>
     (case fc_queue s of None \<Rightarrow> assets \<le> available
      | Some q \<Rightarrow> if q = holder then assets \<le> available
          else \<exists>owed. to_assets p (balance (fc_shares sa) q) True = Inr owed \<and> assets \<le> available - owed)"
proof -
  from assms obtain p sa where acc: "fac_accrue_now H F e s w = Inr (p, sa)"
    and ex: "fac_exit F e p holder operator receiver burned assets sa w = Inr (s', w')"
    and fair: "fair_exit p assets burned"
    by (auto simp: fac_withdraw_def fac_redeem_def and_then_Inr_iff map_err_Inr_iff dest: conversions_fair(3,4))
  note snap = fac_accrue_now_snapshot [OF acc]
  from ex obtain sh0 sh liq c where a: "authorised e operator" "0 < burned" "0 < assets"
    and sp: "if operator = holder then sh0 = fc_shares sa else spend_allowance e holder operator burned (fc_shares sa) = Inr sh0"
    and fr: "free F e p holder (sa\<lparr>fc_shares := sh0\<rparr>) w = Inr liq" "assets \<le> liq"
    and b: "burn holder burned sh0 = Inr sh" "s' = sa\<lparr>fc_shares := sh\<rparr>" "fc_config sa = Some c"
      "vault_withdraw F e (fg_base_vault c) assets receiver w = Inr w'"
    by (rule fac_exit_Inr)
  have bal: "balance sh0 = balance (fc_shares sa)"
    using sp by (auto simp: spend_allowance_keeps split: if_splits)
  from free_Inr [OF fr(1) _ a(3) fr(2), of c] b(3) obtain available where
    av: "vf_max_withdraw F (calling e (fg_base_vault c)) (fg_base_vault c) (current_contract e) w = Some available"
    "assets \<le> available \<or> (\<exists>q. fc_queue sa = Some q \<and> q \<noteq> holder)"
    "\<And>q. fc_queue sa = Some q \<Longrightarrow> q \<noteq> holder \<Longrightarrow>
      \<exists>owed. to_assets p (balance (fc_shares sa) q) True = Inr owed \<and> assets \<le> available - owed"
    using bal by auto
  from leave_shares [OF sp b(1)] a b acc fair snap av show ?thesis
    by (intro exI [of _ p] exI [of _ sa] exI [of _ c] exI [of _ available]) (auto split: option.splits)
qed

theorem facility_exit_fair_witness:
  "\<exists>s' w' p. fac_redeem fac_host fac_fns (demo_env 5) 500000000 bob alice alice demo_facility fac_world = Inr (500, s', w') \<and>
     fair_exit p 500 500000000 \<and> share_supply (fc_shares s') = sn_supply p - 500000000"
proof -
  obtain s' w' where r: "fac_redeem fac_host fac_fns (demo_env 5) 500000000 bob alice alice demo_facility fac_world = Inr (500, s', w')"
    by (simp add: fac_redeem_def fac_ops fac_demo max_withdraw_def withdraw_def exit_to_def send_def vault_eval demo_defs)
  from facility_exit_fair [OF disjI2 [OF r]] obtain p where "fair_exit p 500 500000000"
    "share_supply (fc_shares s') = sn_supply p - 500000000" by auto
  with r show ?thesis by blast
qed

text \<open>
  C15 (equivalence). A trade pays what \<open>quote\<close> says. A trade that goes through is signed by its payer, pays the
  recipient exactly the quote for the same state, which is at least \<open>min_out\<close>, by one withdrawal from the output's
  vault, after at least \<open>amount_in - 1\<close> of value came in; a payment in base leaves the queue's claim untouched, and
  the input RWA ends within its share of the net asset value.
\<close>

theorem facility_trade_pays_quote:
  assumes "trade H F e payer recipient i j x min_out s w = Inr (out, s', w')"
  shows "fac_quote H F e i j x s w = Inr out \<and> min_out \<le> out \<and> 0 < out \<and> authorised e payer \<and> \<not> fac_paused s \<and>
    (\<exists>p s1 vin vout got w1 c. fac_accrue_now H F e s w = Inr (p, s1) \<and> fc_config s = Some c \<and>
       vault_of s i = Inr vin \<and> vault_of s j = Inr vout \<and> take_in F e vin payer x w = Inr (got, w1) \<and> x \<le> got + 1 \<and>
       (vout = fg_base_vault c \<longrightarrow> (\<exists>liq. free F e p recipient s1 w1 = Inr liq \<and> out \<le> liq)) \<and>
       vault_withdraw F e vout out recipient w1 = Inr w' \<and>
       (\<forall>r price held. fc_rwa s i = Some r \<longrightarrow> fac_price H e s i (rw_terms r) w' = Inr (Inr price) \<longrightarrow>
          position F e (rw_vault r) (current_contract e) w' = Inr held \<longrightarrow>
          held * price div ONE \<le> max (sn_nav p) 0 * int (tm_max_bps (rw_terms r)) div BPS))"
proof -
  from assms obtain p s1 t vin vout got w1 c where auth: "authorised e payer" and acc: "fac_accrue_now H F e s w = Inr (p, s1)"
    and pt: "price_trade H F e s1 i j x w = Inr (Inr t)" "out = td_out t" "min_out \<le> out"
    and vs: "vault_of s1 i = Inr vin" "vault_of s1 j = Inr vout" and tk: "take_in F e vin payer x w = Inr (got, w1)" "x \<le> got + 1"
    and c: "fc_config s1 = Some c" "vout = fg_base_vault c \<longrightarrow> (\<exists>liq. free F e p recipient s1 w1 = Inr liq \<and> out \<le> liq)"
    and wd: "vault_withdraw F e vout out recipient w1 = Inr w'" and bg: "book_gain e (td_gain t) s1 = Inr s'"
    and cap: "check_cap H F e i (sn_nav p) s' w' = Inr ()"
    by (rule trade_Inr)
  from acc obtain sh where s1: "s1 = s\<lparr>fc_shares := sh\<rparr>" by (rule fac_accrue_now_Inr)
  have pt': "price_trade H F e s i j x w = Inr (Inr t)" using pt(1) price_trade_accrued [OF acc] by simp
  then have pos: "0 < out" "\<not> fac_paused s" using pt(2) by (auto elim: price_trade_Inr)
  have quote: "fac_quote H F e i j x s w = Inr out" using pt' pt(2) by (simp add: fac_quote_def)
  from bg obtain lk where s': "s' = s1\<lparr>fc_locked := lk\<rparr>" by (rule book_gain_Inr)
  have price: "fac_price H e s' i tm w' = fac_price H e s i tm w'" for tm
    by (simp add: s' s1 fac_price_def fac_base_def)
  have rwa: "fc_rwa s' = fc_rwa s" by (simp add: s' s1)
  have "held * price div ONE \<le> max (sn_nav p) 0 * int (tm_max_bps (rw_terms r)) div BPS"
    if "fc_rwa s i = Some r" "fac_price H e s i (rw_terms r) w' = Inr (Inr price)"
      "position F e (rw_vault r) (current_contract e) w' = Inr held" for r price held
    using cap that by (auto simp: check_cap_def price rwa and_then_Inr_iff panic_if_Inr_iff fmd_iff mul_div_Inr_iff not_less)
  moreover have "vault_of s k = vault_of s1 k" for k
    by (simp add: s1 vault_of_def fac_config_def fac_base_def listed_def cong: if_cong)
  moreover have "fc_config s = Some c" using c(1) by (simp add: s1)
  ultimately have "\<exists>p s1 vin vout got w1 c. fac_accrue_now H F e s w = Inr (p, s1) \<and> fc_config s = Some c \<and>
       vault_of s i = Inr vin \<and> vault_of s j = Inr vout \<and> take_in F e vin payer x w = Inr (got, w1) \<and> x \<le> got + 1 \<and>
       (vout = fg_base_vault c \<longrightarrow> (\<exists>liq. free F e p recipient s1 w1 = Inr liq \<and> out \<le> liq)) \<and>
       vault_withdraw F e vout out recipient w1 = Inr w' \<and>
       (\<forall>r price held. fc_rwa s i = Some r \<longrightarrow> fac_price H e s i (rw_terms r) w' = Inr (Inr price) \<longrightarrow>
          position F e (rw_vault r) (current_contract e) w' = Inr held \<longrightarrow>
          held * price div ONE \<le> max (sn_nav p) 0 * int (tm_max_bps (rw_terms r)) div BPS)"
    using acc vs tk c wd by (intro exI [of _ p] exI [of _ s1] exI [of _ vin] exI [of _ vout] exI [of _ got] exI [of _ w1] exI [of _ c]) simp
  with quote pos auth pt(3) show ?thesis by blast
qed

theorem facility_trade_pays_quote_witness:
  "\<exists>s' w'. trade fac_host fac_fns (demo_env 5) bob carol token_b token_a 100 190 demo_facility fac_world = Inr (198, s', w') \<and>
     fac_quote fac_host fac_fns (demo_env 5) token_b token_a 100 demo_facility fac_world = Inr 198"
proof -
  obtain s' w' where t: "trade fac_host fac_fns (demo_env 5) bob carol token_b token_a 100 190 demo_facility fac_world = Inr (198, s', w')"
    by (simp add: fac_ops fac_demo max_withdraw_def deposit_def enter_def pull_def credit_def withdraw_def exit_to_def
        send_def vault_eval demo_defs)
  with facility_trade_pays_quote [OF t] show ?thesis by blast
qed



text \<open>
  A gain vests linearly. When a gain is booked on any reachable facility, what is locked right
  then is what was still locked plus the gain (so the net asset value does not jump), from then on it never
  grows and never traps, and it is all released at the end, which is no later than the later of the previous end
  and one vesting period from now.
\<close>

theorem facility_gain_vests:
  assumes "facility_run h H F me evs s" "book_gain e gain s = Inr s'" "0 \<le> gain" "fc_config s = Some c"
    and "is_u64 (fg_vest_seconds c)" "ledger_timestamp e \<le> ledger_timestamp e1" "ledger_timestamp e1 \<le> ledger_timestamp e2"
  shows "\<exists>current until x1 x2. locked_now e s = Inr current \<and> locked_state s' = (current + gain, ledger_timestamp e, until) \<and>
    until \<le> max (snd (snd (locked_state s))) (ledger_timestamp e + fg_vest_seconds c) \<and>
    locked_now e1 s' = Inr x1 \<and> locked_now e2 s' = Inr x2 \<and> 0 \<le> x2 \<and> x2 \<le> x1 \<and> x1 \<le> current + gain \<and>
    (until \<le> ledger_timestamp e2 \<longrightarrow> x2 = 0) \<and>
    (ledger_timestamp e1 = ledger_timestamp e \<longrightarrow> ledger_timestamp e < until \<longrightarrow> x1 = current + gain)"
proof -
  have ok: "locked_ok s" using fac_inv_run [OF assms(1)] by (simp add: fac_inv_def)
  from assms(2) obtain current l until where cur: "locked_now e s = Inr current"
    and s': "s' = s\<lparr>fc_locked := Some (l, ledger_timestamp e, until)\<rparr>"
    and l: "if 0 \<le> gain then l = current + gain \<and> l \<le> i128_max \<and> ledger_timestamp e \<le> until \<and> until \<le> u64_max
     else l = max (current + gain) 0 \<and> until = snd (snd (locked_state s))"
    by (rule book_gain_Inr)
  have st: "locked_state s' = (current + gain, ledger_timestamp e, until)"
    using l assms(3) by (simp add: s' locked_state_def)
  have "until - ledger_timestamp e \<le> max (snd (snd (locked_state s)) - ledger_timestamp e) (fg_vest_seconds c)"
    by (rule book_gain_span [OF assms(2-5) ok st])
  then have "until \<le> max (snd (snd (locked_state s))) (ledger_timestamp e + fg_vest_seconds c)"
    using l assms(3) by (auto simp: max_def split: if_splits)
  with cur st locked_now_shrinks [OF st locked_ok_book_gain [OF assms(2) ok] assms(6,7)] show ?thesis by auto
qed

theorem facility_gain_vests_witness:
  "\<exists>s' x. book_gain (demo_env 5) 80 fresh_facility = Inr s' \<and> locked_now (demo_env 55) s' = Inr x \<and> x \<le> 80 \<and>
     locked_now (demo_env 105) s' = Inr 0"
proof -
  obtain s' where s': "book_gain (demo_env 5) 80 fresh_facility = Inr s'" "locked_state s' = (80, 5, 105)"
    by (simp add: book_gain_def fac_demo vault_eval demo_defs)
  have c: "fc_config fresh_facility = Some fac_demo_config" "is_u64 (fg_vest_seconds fac_demo_config)"
    by (simp_all add: fac_demo width_defs)
  have z: "locked_now (demo_env 5) fresh_facility = Inr 0" by (simp add: fac_demo)
  from facility_gain_vests [OF fresh_facility_run s'(1) _ c, of "demo_env 55" "demo_env 105"] s' z show ?thesis by auto
qed

text \<open>
  A pause stops trading and never an exit: withdrawals and redemptions give the same result,
  state and payment whatever the pause flag is, while every trade of a paused facility reverts with \<open>Paused\<close>
  once its payer signed and the fees accrued, and is quoted at zero.
\<close>

theorem pause_never_stops_exits:
  "fac_redeem H F e x receiver holder operator (s\<lparr>fc_paused := b\<rparr>) w =
     and_then (fac_redeem H F e x receiver holder operator s w) (\<lambda>(a, s', w'). Inr (a, s'\<lparr>fc_paused := b\<rparr>, w')) \<and>
   fac_withdraw H F e x receiver holder operator (s\<lparr>fc_paused := b\<rparr>) w =
     and_then (fac_withdraw H F e x receiver holder operator s w) (\<lambda>(a, s', w'). Inr (a, s'\<lparr>fc_paused := b\<rparr>, w')) \<and>
   fac_quote H F e i j q (s\<lparr>fc_paused := Some True\<rparr>) w = Inr 0 \<and>
   trade H F e payer recipient i j q m (s\<lparr>fc_paused := Some True\<rparr>) w =
     and_then (require_auth e payer) (\<lambda>_. and_then (fac_accrue_now H F e s w) (\<lambda>_. Inl (Err F_Paused)))"
proof -
  have frozen: "price_trade H F e (s'\<lparr>fc_paused := Some True\<rparr>) i j q w = Inr (Inl F_Paused)" for s'
    by (simp add: price_trade_def fac_paused_def)
  show ?thesis
    by (simp add: fac_redeem_def fac_withdraw_def fac_quote_def trade_def paused_accrue paused_exit frozen and_then_assoc
        case_prod_beta ok_or_panic_def)
qed

text \<open>
  The comment on \<open>quote\<close> promises 0 for a trade that would not fill. It reads neither the base vault's liquidity
  nor the RWA's cap: here it quotes 1188 for a trade that reverts for want of liquidity.
\<close>

lemma quote_ignores_liquidity:
  "fac_quote fac_host fac_fns (demo_env 5) token_b token_a 600 demo_facility fac_world = Inr 1188 \<and>
   trade fac_host fac_fns (demo_env 5) bob alice token_b token_a 600 0 demo_facility fac_world = Inl (Err F_InsufficientLiquidity)"
  by (simp add: fac_quote_def fac_ops fac_demo max_withdraw_def deposit_def enter_def pull_def credit_def withdraw_def
      exit_to_def send_def vault_eval demo_defs)

end
