(* ===== verification/Queue.thy ===== *)
theory Queue
  imports Token_Interface
begin

text \<open>
  \<open>contracts/queue/src/lib.rs\<close>: the withdrawal queue of one facility. Its storage is the record \<open>queue_state\<close>;
  the facility is reached through \<open>facility_fns\<close>, its oLP token through \<open>host\<close>. The loop of \<open>process\<close> is a
  function on the head, which moves towards the tail at every turn that goes on.
\<close>

datatype QueueError = Q_InvalidAmount | Q_NotFound

record QueueConfig =
  qc_facility :: address
  qc_curator :: address

record Position =
  ps_owner :: address
  ps_receiver :: address
  ps_shares :: int

record queue_state =
  qu_config :: "QueueConfig option"
  qu_head :: "nat option"
  qu_tail :: "nat option"
  qu_pos :: "nat \<rightharpoonup> Position"

definition queue_empty :: queue_state where
  "queue_empty = \<lparr>qu_config = None, qu_head = None, qu_tail = None, qu_pos = Map.empty\<rparr>"

text \<open>\<open>FacilityFns\<close>; \<open>None\<close> is a call that fails.\<close>

record 'w facility_fns =
  ff_convert_to_assets :: "env \<Rightarrow> address \<Rightarrow> int \<Rightarrow> 'w \<Rightarrow> int option"
  ff_convert_to_shares :: "env \<Rightarrow> address \<Rightarrow> int \<Rightarrow> 'w \<Rightarrow> int option"
  ff_max_withdraw :: "env \<Rightarrow> address \<Rightarrow> address \<Rightarrow> 'w \<Rightarrow> int option"
  ff_redeem :: "env \<Rightarrow> address \<Rightarrow> int \<Rightarrow> address \<Rightarrow> address \<Rightarrow> address \<Rightarrow> 'w \<Rightarrow> (int \<times> 'w) option"

definition queue_constructor :: "QueueConfig \<Rightarrow> queue_state \<Rightarrow> queue_state" where
  "queue_constructor cfg s = s\<lparr>qu_config := Some cfg\<rparr>"

definition queue_config :: "queue_state \<Rightarrow> (QueueError, QueueConfig) res" where
  "queue_config s = unwrap (qu_config s)"

definition queue_position :: "nat \<Rightarrow> queue_state \<Rightarrow> Position option" where
  "queue_position i s = qu_pos s i"

definition bounds :: "queue_state \<Rightarrow> nat \<times> nat" where
  "bounds s = (case qu_head s of None \<Rightarrow> 0 | Some h \<Rightarrow> h, case qu_tail s of None \<Rightarrow> 0 | Some t \<Rightarrow> t)"

definition save :: "nat \<Rightarrow> Position \<Rightarrow> queue_state \<Rightarrow> queue_state" where
  "save i p s = s\<lparr>qu_pos := (qu_pos s)(i \<mapsto> p)\<rparr>"

definition set_bounds :: "nat \<Rightarrow> nat \<Rightarrow> queue_state \<Rightarrow> queue_state" where
  "set_bounds h t s = s\<lparr>qu_head := Some h, qu_tail := Some t\<rparr>"

definition remove_pos :: "nat \<Rightarrow> queue_state \<Rightarrow> queue_state" where
  "remove_pos i s = s\<lparr>qu_pos := (qu_pos s)(i := None)\<rparr>"

definition request :: "'w host \<Rightarrow> env \<Rightarrow> address \<Rightarrow> address \<Rightarrow> int \<Rightarrow> queue_state \<Rightarrow> 'w \<Rightarrow>
    (QueueError, nat \<times> queue_state \<times> 'w) res" where
  "request H e holder receiver shrs s w =
    and_then (require_auth e holder) (\<lambda>_.
    and_then (panic_if (shrs \<le> 0) Q_InvalidAmount) (\<lambda>_.
    and_then (queue_config s) (\<lambda>c.
    and_then (token_transfer H e (qc_facility c) holder (current_contract e) shrs w) (\<lambda>w.
      let (h, t) = bounds s;
          s = save t \<lparr>ps_owner = holder, ps_receiver = receiver, ps_shares = shrs\<rparr> s in
      and_then (u64_add t 1) (\<lambda>t1.
        Inr (t, set_bounds h t1 s, w))))))"

text \<open>
  The loop of \<open>process\<close>: the head it stops at, the positions served, and the storage and the world it leaves.
\<close>

function serve :: "'w facility_fns \<Rightarrow> env \<Rightarrow> address \<Rightarrow> nat \<Rightarrow> nat \<Rightarrow> nat \<Rightarrow> nat \<Rightarrow> int \<Rightarrow> queue_state \<Rightarrow> 'w \<Rightarrow>
    (QueueError, nat \<times> nat \<times> queue_state \<times> 'w) res" where
  "serve G e fac maxn h t served available s w =
    (if \<not> (h < t \<and> served < maxn) then Inr (h, served, s, w)
     else
       case queue_position h s of
         None \<Rightarrow> serve G e fac maxn (h + 1) t served available s w
       | Some p \<Rightarrow>
           if available \<le> 0 then Inr (h, served, s, w)
           else
             and_then (call_result (ff_convert_to_assets G (calling e fac) fac (ps_shares p) w)) (\<lambda>worth.
             and_then
               (if worth \<le> available then Inr (ps_shares p)
                else and_then (call_result (ff_convert_to_shares G (calling e fac) fac available w)) (\<lambda>x.
                  Inr (min x (ps_shares p)))) (\<lambda>shrs.
             if shrs = 0 then Inr (h, served, s, w)
             else
               and_then (call_result
                   (ff_redeem G (calling e fac) fac shrs (ps_receiver p) (current_contract e) (current_contract e) w)) (\<lambda>(paid, w).
               and_then (i128_sub available paid) (\<lambda>available.
               and_then (i128_sub (ps_shares p) shrs) (\<lambda>left.
               and_then (u32_add served 1) (\<lambda>served.
                 if 0 < left then Inr (h, served, save h (p\<lparr>ps_shares := left\<rparr>) s, w)
                 else serve G e fac maxn (h + 1) t served available (remove_pos h s) w)))))))"
  by pat_completeness auto
termination
  by (relation "measure (\<lambda>(G, e, fac, maxn, h, t, served, available, s, w). t - h)") auto

declare serve.simps [simp del]

definition process :: "'w facility_fns \<Rightarrow> env \<Rightarrow> nat \<Rightarrow> queue_state \<Rightarrow> 'w \<Rightarrow> (QueueError, nat \<times> queue_state \<times> 'w) res" where
  "process G e maxn s w =
    and_then (queue_config s) (\<lambda>c.
      let fac = qc_facility c; (h, t) = bounds s in
      and_then (call_result (ff_max_withdraw G (calling e fac) fac (current_contract e) w)) (\<lambda>available.
      and_then (serve G e fac maxn h t 0 available s w) (\<lambda>(h, served, s, w).
        Inr (served, set_bounds h t s, w))))"

definition cancel :: "'w host \<Rightarrow> env \<Rightarrow> nat \<Rightarrow> queue_state \<Rightarrow> 'w \<Rightarrow> (QueueError, queue_state \<times> 'w) res" where
  "cancel H e i s w =
    and_then (or_panic (queue_position i s) Q_NotFound) (\<lambda>p.
    and_then (require_auth e (ps_owner p)) (\<lambda>_.
    and_then (queue_config s) (\<lambda>c.
    and_then (token_transfer H e (qc_facility c) (current_contract e) (ps_owner p) (ps_shares p) w) (\<lambda>w.
      Inr (remove_pos i s, w)))))"

end
