(* ===== verification/Queue_Props.thy ===== *)
theory Queue_Props
  imports Queue Facility_Props
begin

text \<open>
  What the withdrawal queue guarantees. The storage of head, tail and positions refines a list of waiting
  positions; on any facility that burns what it redeems the queue always holds the oLP it owes, so every
  position can be cancelled; the facility of this repository is one. A position too small to be worth one unit
  stops the queue.
\<close>

subsection \<open>The abstract queue\<close>

definition waiting_from :: "nat \<Rightarrow> nat \<Rightarrow> (nat \<rightharpoonup> Position) \<Rightarrow> (nat \<times> Position) list" where
  "waiting_from h t pos = List.map_filter (\<lambda>i. map_option (Pair i) (pos i)) [h..<t]"

definition waiting :: "queue_state \<Rightarrow> (nat \<times> Position) list" where
  "waiting s = waiting_from (fst (bounds s)) (snd (bounds s)) (qu_pos s)"

text \<open>Every stored position lies between head and tail and waits for a positive number of shares.\<close>

definition queue_ok :: "queue_state \<Rightarrow> bool" where
  "queue_ok s \<longleftrightarrow> fst (bounds s) \<le> snd (bounds s) \<and>
     (\<forall>i p. qu_pos s i = Some p \<longrightarrow> fst (bounds s) \<le> i \<and> i < snd (bounds s) \<and> 0 < ps_shares p)"

text \<open>Serving a list from its front.\<close>

fun serve_list :: "'w facility_fns \<Rightarrow> env \<Rightarrow> address \<Rightarrow> nat \<Rightarrow> nat \<Rightarrow> int \<Rightarrow> (nat \<times> Position) list \<Rightarrow> 'w \<Rightarrow>
    (QueueError, nat \<times> (nat \<times> Position) list \<times> 'w) res" where
  "serve_list G e fac maxn served available [] w = Inr (served, [], w)"
| "serve_list G e fac maxn served available ((i, p) # rest) w =
    (if \<not> served < maxn \<or> available \<le> 0 then Inr (served, (i, p) # rest, w)
     else
       and_then (call_result (ff_convert_to_assets G (calling e fac) fac (ps_shares p) w)) (\<lambda>worth.
       and_then
         (if worth \<le> available then Inr (ps_shares p)
          else and_then (call_result (ff_convert_to_shares G (calling e fac) fac available w)) (\<lambda>x.
            Inr (min x (ps_shares p)))) (\<lambda>shrs.
       if shrs = 0 then Inr (served, (i, p) # rest, w)
       else
         and_then (call_result
             (ff_redeem G (calling e fac) fac shrs (ps_receiver p) (current_contract e) (current_contract e) w)) (\<lambda>(paid, w).
         and_then (i128_sub available paid) (\<lambda>available.
         and_then (i128_sub (ps_shares p) shrs) (\<lambda>left.
         and_then (u32_add served 1) (\<lambda>served.
           if 0 < left then Inr (served, (i, p\<lparr>ps_shares := left\<rparr>) # rest, w)
           else serve_list G e fac maxn served available rest w)))))))"

lemma waiting_from_simps:
  "t \<le> h \<Longrightarrow> waiting_from h t pos = []"
  "h < t \<Longrightarrow> pos h = None \<Longrightarrow> waiting_from h t pos = waiting_from (Suc h) t pos"
  "h < t \<Longrightarrow> pos h = Some p \<Longrightarrow> waiting_from h t pos = (h, p) # waiting_from (Suc h) t pos"
  by (simp_all add: waiting_from_def upt_conv_Cons List.map_filter_simps)

lemma waiting_from_cong:
  "(\<And>i. h \<le> i \<Longrightarrow> i < t \<Longrightarrow> pos i = pos' i) \<Longrightarrow> waiting_from h t pos = waiting_from h t pos'"
proof (induction "t - h" arbitrary: h)
  case 0
  then show ?case by (simp add: waiting_from_simps)
next
  case (Suc n)
  then have "h < t" "waiting_from (Suc h) t pos = waiting_from (Suc h) t pos'" "pos h = pos' h" by auto
  then show ?case by (cases "pos' h") (simp_all add: waiting_from_simps)
qed

lemma waiting_from_below [simp]:
  "i < h \<Longrightarrow> waiting_from h t (pos(i := x)) = waiting_from h t pos"
  by (rule waiting_from_cong) auto

lemma waiting_from_snoc:
  assumes "h \<le> t"
  shows "waiting_from h (Suc t) pos = waiting_from h t pos @ (case pos t of None \<Rightarrow> [] | Some p \<Rightarrow> [(t, p)])"
  using assms by (simp add: waiting_from_def List.map_filter_def split: option.splits)

lemma waiting_from_remove:
  "waiting_from h t (pos(i := None)) = filter (\<lambda>x. fst x \<noteq> i) (waiting_from h t pos)"
proof (induction "t - h" arbitrary: h)
  case 0
  then show ?case by (simp add: waiting_from_simps)
next
  case (Suc n)
  then have "h < t" and IH: "waiting_from (Suc h) t (pos(i := None)) = filter (\<lambda>x. fst x \<noteq> i) (waiting_from (Suc h) t pos)"
    by auto
  then show ?case by (cases "pos h"; cases "h = i") (simp_all add: waiting_from_simps)
qed

text \<open>The loop on head and tail is the loop on the list.\<close>

lemma serve_list_done: "\<not> served < maxn \<Longrightarrow> serve_list G e fac maxn served available xs w = Inr (served, xs, w)"
  by (cases xs) auto

lemma serve_refines:
  "and_then (serve G e fac maxn h t served available s w) (\<lambda>(h', n, s', w'). Inr (n, waiting_from h' t (qu_pos s'), w')) =
   serve_list G e fac maxn served available (waiting_from h t (qu_pos s)) w"
proof (induction "t - h" arbitrary: h served available s w)
  case 0
  then show ?case by (subst serve.simps) (simp add: waiting_from_simps)
next
  case (Suc n)
  then have h: "h < t" by simp
  have IH: "and_then (serve G e fac maxn (Suc h) t served' available' s' w')
      (\<lambda>(h', n, s', w'). Inr (n, waiting_from h' t (qu_pos s'), w')) =
    serve_list G e fac maxn served' available' (waiting_from (Suc h) t (qu_pos s')) w'" for served' available' s' w'
    using Suc.hyps(2) by (intro Suc.hyps(1)) simp
  show ?case
  proof (cases "served < maxn")
    case False
    then show ?thesis by (subst serve.simps) (simp add: serve_list_done)
  next
    case True
    show ?thesis
    proof (cases "qu_pos s h")
      case None
      with True h show ?thesis by (subst serve.simps) (simp add: queue_position_def waiting_from_simps IH)
    next
      case (Some p)
      with True h show ?thesis
        by (subst serve.simps)
          (simp add: queue_position_def waiting_from_simps and_then_assoc and_then_if case_prod_unfold IH [unfolded case_prod_unfold]
            save_def remove_pos_def cong: if_cong)
    qed
  qed
qed

text \<open>One turn: it stops, fills the first position in part and stops, or fills it and goes on.\<close>

lemma serve_list_turn:
  assumes "serve_list G e fac maxn served available ((i, p) # xs) w = Inr (n, ys, w')"
  obtains (stop) "ys = (i, p) # xs" "n = served" "w' = w"
  | (part) shrs paid where "served < maxn" "shrs < ps_shares p" "n = Suc served" "ys = (i, p\<lparr>ps_shares := ps_shares p - shrs\<rparr>) # xs"
      "ff_redeem G (calling e fac) fac shrs (ps_receiver p) (current_contract e) (current_contract e) w = Some (paid, w')"
  | (full) paid w1 where "served < maxn"
      "ff_redeem G (calling e fac) fac (ps_shares p) (ps_receiver p) (current_contract e) (current_contract e) w = Some (paid, w1)"
      "serve_list G e fac maxn (Suc served) (available - paid) xs w1 = Inr (n, ys, w')"
proof (cases "served < maxn \<and> 0 < available")
  case False
  with assms stop show thesis by (auto split: if_splits)
next
  case True
  with assms obtain worth shrs where sh: "(if worth \<le> available then Inr (ps_shares p)
          else and_then (call_result (ff_convert_to_shares G (calling e fac) fac available w)) (\<lambda>x.
            Inr (min x (ps_shares p)))) = (Inr shrs :: (QueueError, int) res)"
    and go: "(if shrs = 0 then Inr (served, (i, p) # xs, w)
       else
         and_then (call_result
             (ff_redeem G (calling e fac) fac shrs (ps_receiver p) (current_contract e) (current_contract e) w)) (\<lambda>(paid, w).
         and_then (i128_sub available paid) (\<lambda>available.
         and_then (i128_sub (ps_shares p) shrs) (\<lambda>left.
         and_then (u32_add served 1) (\<lambda>served.
           if 0 < left then Inr (served, (i, p\<lparr>ps_shares := left\<rparr>) # xs, w)
           else serve_list G e fac maxn served available xs w))))) = Inr (n, ys, w')"
    by (auto simp: and_then_Inr_iff not_le not_less split del: if_split)
  from sh have le: "shrs \<le> ps_shares p" by (auto simp: rs split: if_splits)
  show thesis
  proof (cases "shrs = 0")
    case True
    with go stop show thesis by simp
  next
    case False
    with go obtain paid w1 where
      rd: "ff_redeem G (calling e fac) fac shrs (ps_receiver p) (current_contract e) (current_contract e) w = Some (paid, w1)"
      and rest: "(if shrs < ps_shares p then Inr (Suc served, (i, p\<lparr>ps_shares := ps_shares p - shrs\<rparr>) # xs, w1)
           else serve_list G e fac maxn (Suc served) (available - paid) xs w1) = Inr (n, ys, w')"
      by (auto simp: and_then_Inr_iff i128_ops_Inr_iff unsigned_ops_Inr_iff call_result_Inr_iff split del: if_split)
    show thesis
    proof (cases "shrs < ps_shares p")
      case True
      with rest rd \<open>served < maxn \<and> 0 < available\<close> show thesis by (intro part) auto
    next
      case False
      with rest rd le \<open>served < maxn \<and> 0 < available\<close> show thesis by (intro full) auto
    qed
  qed
qed

text \<open>What serving a list leaves of it: a suffix, whose first position may be reduced.\<close>

lemma serve_list_fifo:
  assumes "serve_list G e fac maxn served available xs w = Inr (n, ys, w')" "served \<le> maxn"
  shows "n \<le> maxn \<and> (\<exists>k. ys = drop k xs \<and> n = served + k \<and> k \<le> length xs \<or>
    (\<exists>i p rest left. drop k xs = (i, p) # rest \<and> ys = (i, p\<lparr>ps_shares := left\<rparr>) # rest \<and> 0 < left \<and> n = served + k + 1))"
  using assms
proof (induction xs arbitrary: served available w)
  case Nil
  then show ?case by simp
next
  case (Cons x xs)
  obtain i p where x: "x = (i, p)" by (cases x)
  from Cons.prems(1)[unfolded x] show ?case
  proof (cases rule: serve_list_turn)
    case stop
    with Cons.prems(2) show ?thesis by (intro conjI exI [of _ 0]) (simp_all add: x)
  next
    case (part shrs paid)
    then show ?thesis by (intro conjI exI [of _ 0]) (auto simp: x)
  next
    case (full paid w1)
    have "Suc served \<le> maxn" using full(1) by simp
    from Cons.IH [OF full(3) this] obtain k where "n \<le> maxn" "ys = drop k xs \<and> n = Suc served + k \<and> k \<le> length xs \<or>
      (\<exists>i p rest left. drop k xs = (i, p) # rest \<and> ys = (i, p\<lparr>ps_shares := left\<rparr>) # rest \<and> 0 < left \<and> n = Suc served + k + 1)"
      by blast
    then show ?thesis by (intro conjI exI [of _ "Suc k"]) auto
  qed
qed

subsection \<open>The storage invariant\<close>

lemma bounds_simps [simp]:
  "bounds (set_bounds h t s) = (h, t)"
  "bounds (save i p s) = bounds s"
  "bounds (remove_pos i s) = bounds s"
  "qu_pos (set_bounds h t s) = qu_pos s"
  "qu_pos (save i p s) = (qu_pos s)(i \<mapsto> p)"
  "qu_pos (remove_pos i s) = (qu_pos s)(i := None)"
  "qu_config (set_bounds h t s) = qu_config s"
  "qu_config (save i p s) = qu_config s"
  "qu_config (remove_pos i s) = qu_config s"
  by (simp_all add: bounds_def set_bounds_def save_def remove_pos_def)

definition pos_ok :: "nat \<Rightarrow> nat \<Rightarrow> (nat \<rightharpoonup> Position) \<Rightarrow> bool" where
  "pos_ok h t pos \<longleftrightarrow> h \<le> t \<and> (\<forall>i p. pos i = Some p \<longrightarrow> h \<le> i \<and> i < t \<and> 0 < ps_shares p)"

lemma queue_ok_pos: "queue_ok s = pos_ok (fst (bounds s)) (snd (bounds s)) (qu_pos s)"
  by (simp add: queue_ok_def pos_ok_def)

lemma pos_ok_skip: "pos_ok h t pos \<Longrightarrow> h < t \<Longrightarrow> pos h = None \<Longrightarrow> pos_ok (Suc h) t pos"
  unfolding pos_ok_def by (metis Suc_leI le_neq_implies_less option.distinct(1))

lemma serve_keeps:
  "serve G e fac maxn h t served available s w = Inr (h', n, s', w') \<Longrightarrow> pos_ok h t (qu_pos s) \<Longrightarrow>
     pos_ok h' t (qu_pos s') \<and> qu_config s' = qu_config s"
proof (induction "t - h" arbitrary: h served available s w)
  case 0
  then show ?case by (subst (asm) serve.simps) auto
next
  case (Suc m)
  then have h: "h < t" by simp
  have IH: "serve G e fac maxn (Suc h) t served available s w = Inr (h', n, s', w') \<Longrightarrow> pos_ok (Suc h) t (qu_pos s) \<Longrightarrow>
     pos_ok h' t (qu_pos s') \<and> qu_config s' = qu_config s" for served available s w
    using Suc.hyps(2) by (intro Suc.hyps(1)) simp_all
  show ?case
  proof (cases "qu_pos s h")
    case None
    with Suc.prems h IH pos_ok_skip [OF Suc.prems(2) h] show ?thesis
      by (subst (asm) serve.simps) (auto simp: queue_position_def split: if_splits)
  next
    case (Some p)
    have rm: "pos_ok (Suc h) t ((qu_pos s)(h := None))"
      using Suc.prems(2) h by (intro pos_ok_skip) (auto simp: pos_ok_def)
    have sv: "0 < left \<Longrightarrow> pos_ok h t ((qu_pos s)(h \<mapsto> p\<lparr>ps_shares := left\<rparr>))" for left
      using Suc.prems(2) h by (auto simp: pos_ok_def)
    consider "h' = h" "s' = s" | left where "0 < left" "h' = h" "s' = save h (p\<lparr>ps_shares := left\<rparr>) s"
      | served' available' w1 where "serve G e fac maxn (Suc h) t served' available' (remove_pos h s) w1 = Inr (h', n, s', w')"
      using Suc.prems(1) Some
      by (subst (asm) serve.simps) (auto simp: queue_position_def and_then_Inr_iff split: if_splits)
    then show ?thesis
    proof cases
      case 3
      from IH [OF 3] rm show ?thesis by simp
    qed (use Suc.prems(2) sv in simp_all)
  qed
qed

lemma request_Inr:
  assumes "request H e a r x s w = Inr (i, s', w')"
  shows "i = snd (bounds s)" "bounds s' = (fst (bounds s), Suc i)" "0 < x" "qu_config s' = qu_config s" "authorised e a"
    "qu_pos s' = (qu_pos s)(i \<mapsto> \<lparr>ps_owner = a, ps_receiver = r, ps_shares = x\<rparr>)"
    "\<exists>c. qu_config s = Some c \<and> token_transfer H e (qc_facility c) a (current_contract e) x w = (Inr w' :: (QueueError, _) res)"
  using assms
  by (auto simp: request_def rs Let_def case_prod_unfold queue_config_def not_le)

lemma queue_ok_ops:
  assumes "queue_ok s"
  shows "request H e a r x s w = Inr (i, s', w') \<Longrightarrow> queue_ok s' \<and> qu_config s' = qu_config s"
    "process G e maxn s u = Inr (n, s', u') \<Longrightarrow> queue_ok s' \<and> qu_config s' = qu_config s"
    "cancel H e i s w = Inr (s', w') \<Longrightarrow> queue_ok s' \<and> qu_config s' = qu_config s"
proof -
  have ok: "pos_ok (fst (bounds s)) (snd (bounds s)) (qu_pos s)" using assms by (simp add: queue_ok_pos)
  show "request H e a r x s w = Inr (i, s', w') \<Longrightarrow> queue_ok s' \<and> qu_config s' = qu_config s"
    using ok request_Inr(1-4,6) [of H e a r x s w i s' w'] by (fastforce simp: queue_ok_pos pos_ok_def)
  show "process G e maxn s u = Inr (n, s', u') \<Longrightarrow> queue_ok s' \<and> qu_config s' = qu_config s"
    using ok by (auto simp: process_def and_then_Inr_iff Let_def case_prod_unfold queue_ok_pos dest!: serve_keeps)
  show "cancel H e i s w = Inr (s', w') \<Longrightarrow> queue_ok s' \<and> qu_config s' = qu_config s"
    using ok by (auto simp: cancel_def rs queue_ok_pos pos_ok_def split: if_splits)
qed

lemma waiting_request:
  assumes "request H e a r x s w = Inr (i, s', w')" "queue_ok s"
  shows "waiting s' = waiting s @ [(i, \<lparr>ps_owner = a, ps_receiver = r, ps_shares = x\<rparr>)]"
proof -
  note i = request_Inr(1,2,6) [OF assms(1)]
  have "fst (bounds s) \<le> i" using assms(2) i(1) by (simp add: queue_ok_def)
  moreover have "waiting_from (fst (bounds s)) i ((qu_pos s)(i \<mapsto> q)) = waiting_from (fst (bounds s)) i (qu_pos s)" for q
    by (rule waiting_from_cong) simp
  ultimately show ?thesis by (simp add: waiting_def i(2,3) waiting_from_snoc i(1))
qed

lemma waiting_cancel:
  "cancel H e i s w = Inr (s', w') \<Longrightarrow> waiting s' = filter (\<lambda>x. fst x \<noteq> i) (waiting s)"
  by (auto simp: cancel_def rs waiting_def waiting_from_remove)

lemma process_refines:
  "and_then (process G e maxn s w) (\<lambda>(n, s', w'). Inr (n, waiting s', w')) =
   and_then (queue_config s) (\<lambda>c.
   and_then (call_result (ff_max_withdraw G (calling e (qc_facility c)) (qc_facility c) (current_contract e) w)) (\<lambda>available.
     serve_list G e (qc_facility c) maxn 0 available (waiting s) w))"
  by (simp add: process_def Let_def and_then_assoc case_prod_unfold waiting_def
      serve_refines [unfolded case_prod_unfold])

text \<open>What the queue owes.\<close>

definition owed :: "(nat \<times> Position) list \<Rightarrow> int" where
  "owed xs = (\<Sum>x\<leftarrow>xs. ps_shares (snd x))"

lemma owed_simps [simp]: "owed [] = 0" "owed (x # xs) = ps_shares (snd x) + owed xs" "owed (xs @ ys) = owed xs + owed ys"
  by (simp_all add: owed_def)

lemma waiting_from_mem: "(i, p) \<in> set (waiting_from h t pos) \<longleftrightarrow> h \<le> i \<and> i < t \<and> pos i = Some p"
  by (force simp: waiting_from_def List.map_filter_def)

lemma waiting_from_ids: "distinct (map fst (waiting_from h t pos))"
proof (induction "t - h" arbitrary: h)
  case 0
  then show ?case by (simp add: waiting_from_simps)
next
  case (Suc n)
  then have "h < t" "distinct (map fst (waiting_from (Suc h) t pos))" by auto
  then show ?case by (cases "pos h") (auto simp: waiting_from_simps waiting_from_mem)
qed

lemma owed_filter:
  "distinct (map fst xs) \<Longrightarrow> (i, p) \<in> set xs \<Longrightarrow> owed (filter (\<lambda>x. fst x \<noteq> i) xs) = owed xs - ps_shares p"
proof (induction xs)
  case (Cons x xs)
  obtain j q where x: "x = (j, q)" by (cases x)
  show ?case
  proof (cases "j = i")
    case True
    with Cons.prems have "q = p" "filter (\<lambda>x. fst x \<noteq> i) xs = xs" by (force simp: x filter_id_conv)+
    with True show ?thesis by (simp add: x)
  next
    case False
    with Cons show ?thesis by (simp add: x)
  qed
qed simp

subsection \<open>What the queue relies on\<close>

text \<open>
  The facility's oLP is a SEP-41 token, and redeeming \<open>x\<close> oLP of the queue costs the queue at most \<open>x\<close> (a
  fee accrued on the way could credit it more).
\<close>

locale olp_laws = sep41_host H for H :: "'w host" +
  fixes G :: "'w facility_fns" and fac :: address and me :: address
  assumes redeem_burns: "ff_redeem G (calling e fac) fac x r me me w = Some (a, w') \<Longrightarrow>
      tk_balance H fac me w - x \<le> tk_balance H fac me w'"
begin

lemma serve_list_covered:
  assumes "serve_list G e fac maxn served available xs w = Inr (n, ys, w')" "current_contract e = me"
  shows "owed ys - tk_balance H fac me w' \<le> owed xs - tk_balance H fac me w"
  using assms(1)
proof (induction xs arbitrary: served available w)
  case Nil
  then show ?case by simp
next
  case (Cons x xs)
  obtain i p where x: "x = (i, p)" by (cases x)
  from Cons.prems [unfolded x] show ?case
  proof (cases rule: serve_list_turn)
    case stop
    then show ?thesis by (simp add: x)
  next
    case (part shrs paid)
    with redeem_burns assms(2) show ?thesis by (fastforce simp: x)
  next
    case (full paid w1)
    from Cons.IH [OF full(3)] full(2) redeem_burns assms(2) show ?thesis by (fastforce simp: x)
  qed
qed

text \<open>The queue holds what it owes, after every operation of its own.\<close>

lemma queue_ops_covered:
  assumes "queue_ok s" "owed (waiting s) \<le> tk_balance H fac me w" "qu_config s = Some c" "qc_facility c = fac"
    and "current_contract e = me"
  shows "request H e a r x s w = Inr (i, s', w') \<Longrightarrow> a \<noteq> me \<Longrightarrow> owed (waiting s') \<le> tk_balance H fac me w'"
    "process G e maxn s w = Inr (n, s', w') \<Longrightarrow> owed (waiting s') \<le> tk_balance H fac me w'"
    "cancel H e i s w = Inr (s', w') \<Longrightarrow> owed (waiting s') \<le> tk_balance H fac me w'"
proof -
  assume rq: "request H e a r x s w = Inr (i, s', w')" and "a \<noteq> me"
  have tr: "token_transfer H e fac a me x w = (Inr w' :: (QueueError, _) res)"
    using request_Inr(7) [OF rq] assms(3-5) by auto
  from token_transfer_moves(4) [OF tr, of fac me] \<open>a \<noteq> me\<close> waiting_request [OF rq assms(1)] assms(2)
  show "owed (waiting s') \<le> tk_balance H fac me w'" by simp
next
  assume "process G e maxn s w = Inr (n, s', w')"
  with process_refines [of G e maxn s w] obtain available where
    "serve_list G e fac maxn 0 available (waiting s) w = Inr (n, waiting s', w')"
    using assms(3,4) by (auto simp: queue_config_def and_then_Inr_iff dest!: sym [of "Inr _"])
  from serve_list_covered [OF this assms(5)] assms(2) show "owed (waiting s') \<le> tk_balance H fac me w'" by simp
next
  assume ca: "cancel H e i s w = Inr (s', w')"
  from ca assms(3-5) obtain p where p: "qu_pos s i = Some p"
    and tr: "token_transfer H e fac me (ps_owner p) (ps_shares p) w = (Inr w' :: (QueueError, _) res)"
    by (auto simp: cancel_def rs queue_position_def queue_config_def)
  have "(i, p) \<in> set (waiting s)"
    using p assms(1) by (auto simp: waiting_def waiting_from_mem queue_ok_def)
  then have "owed (waiting s') = owed (waiting s) - ps_shares p"
    unfolding waiting_cancel [OF ca] by (intro owed_filter) (simp_all add: waiting_def waiting_from_ids)
  moreover have "tk_balance H fac me w - ps_shares p \<le> tk_balance H fac me w'"
    using token_transfer_moves(1,4) [OF tr] by (simp add: moved_def)
  ultimately show "owed (waiting s') \<le> tk_balance H fac me w'" using assms(2) by simp
qed

end

subsection \<open>The facility meets the laws\<close>

text \<open>The world of a queue: one facility, at \<open>fac\<close>, and the facility's own world.\<close>

type_synonym 'w olp_world = "facility \<times> 'w"

definition with_shares :: "(ShareError, shares) res \<Rightarrow> 'w olp_world \<Rightarrow> 'w olp_world option" where
  "with_shares r u = map_option (\<lambda>sh. ((fst u)\<lparr>fc_shares := sh\<rparr>, snd u)) (try_call r)"

definition olp_host :: "'w host \<Rightarrow> address \<Rightarrow> 'w olp_world host" where
  "olp_host H fac =
    \<lparr>tk_balance = (\<lambda>t c u. if t = fac then balance (fc_shares (fst u)) c else tk_balance H t c (snd u)),
     tk_transfer = (\<lambda>e t a b x u. if t = fac then with_shares (token_transfer_entry e a b x (fc_shares (fst u))) u
       else map_option (Pair (fst u)) (tk_transfer H e t a b x (snd u))),
     tk_transfer_from = (\<lambda>e t p a b x u. if t = fac then with_shares (token_transfer_from_entry e p a b x (fc_shares (fst u))) u
       else map_option (Pair (fst u)) (tk_transfer_from H e t p a b x (snd u))),
     tk_approve = (\<lambda>e t a p x n u. if t = fac then with_shares (token_approve_entry e a p x n (fc_shares (fst u))) u
       else map_option (Pair (fst u)) (tk_approve H e t a p x n (snd u))),
     or_get_price = (\<lambda>e r b q u. or_get_price H e r b q (snd u))\<rparr>"

definition facility_as :: "'w host \<Rightarrow> 'w vault_fns \<Rightarrow> address \<Rightarrow> 'w olp_world facility_fns" where
  "facility_as H F fac =
    \<lparr>ff_convert_to_assets = (\<lambda>e v x u. if v = fac then try_call (fac_convert_to_assets H F e x (fst u) (snd u)) else None),
     ff_convert_to_shares = (\<lambda>e v x u. if v = fac then try_call (fac_convert_to_shares H F e x (fst u) (snd u)) else None),
     ff_max_withdraw = (\<lambda>e v a u. if v = fac then try_call (fac_max_withdraw H F e a (fst u) (snd u)) else None),
     ff_redeem = (\<lambda>e v x r a p u. if v = fac then try_call (fac_redeem H F e x r a p (fst u) (snd u)) else None)\<rparr>"

lemma with_shares_Some: "with_shares r u = Some u' \<longleftrightarrow> (\<exists>sh. r = Inr sh \<and> u' = ((fst u)\<lparr>fc_shares := sh\<rparr>, snd u))"
  by (auto simp: with_shares_def rs)

lemma olp_host_sep41:
  assumes "sep41_host H"
  shows "sep41_host (olp_host H fac)"
proof
  fix e tok a b x w w'
  assume "tk_transfer (olp_host H fac) e tok a b x w = Some w'"
  then show "authorised e a \<and> 0 \<le> x \<and> x \<le> tk_balance (olp_host H fac) tok a w \<and> (\<forall>t c. tk_balance (olp_host H fac) t c w' =
      (if t = tok then moved a b x (\<lambda>c. tk_balance (olp_host H fac) tok c w) c else tk_balance (olp_host H fac) t c w))"
    using sep41_host.host_transfer [OF assms, of e tok a b x "snd w"] share.transfer_moves [of e a b x "fc_shares (fst w)"]
    by (cases "tok = fac") (auto simp: olp_host_def with_shares_Some)
next
  fix e tok p a b x w w'
  assume "tk_transfer_from (olp_host H fac) e tok p a b x w = Some w'"
  then show "authorised e p \<and> 0 \<le> x \<and> x \<le> tk_balance (olp_host H fac) tok a w \<and> (\<forall>t c. tk_balance (olp_host H fac) t c w' =
      (if t = tok then moved a b x (\<lambda>c. tk_balance (olp_host H fac) tok c w) c else tk_balance (olp_host H fac) t c w))"
    using sep41_host.host_transfer_from [OF assms, of e tok p a b x "snd w"] share.transfer_from_moves [of e p a b x "fc_shares (fst w)"]
    by (cases "tok = fac") (auto simp: olp_host_def with_shares_Some)
next
  fix e tok a p x u w w'
  assume "tk_approve (olp_host H fac) e tok a p x u w = Some w'"
  then show "authorised e a \<and> (\<forall>t c. tk_balance (olp_host H fac) t c w' = tk_balance (olp_host H fac) t c w)"
    using sep41_host.host_approve [OF assms, of e tok a p x u "snd w"] share.approve_keeps [of e a p x u "fc_shares (fst w)"]
    by (cases "tok = fac") (auto simp: olp_host_def with_shares_Some)
qed

lemma fac_redeem_own:
  assumes "fac_redeem H F e x r me me s w = Inr (a, s', w')"
  shows "balance (fc_shares s) me - x \<le> balance (fc_shares s') me"
    "(\<forall>p. sh_allowances (fc_shares s) (me, p) = None) \<Longrightarrow> \<forall>p. sh_allowances (fc_shares s') (me, p) = None"
proof -
  from assms obtain q s1 where ac: "fac_accrue_now H F e s w = Inr (q, s1)"
    and ex: "fac_exit F e q me me r x a s1 w = Inr (s', w')"
    by (auto simp: fac_redeem_def and_then_Inr_iff)
  from ac obtain c :: FacilityConfig and nav sh1 where
    "accrue nav (fg_curator_fee_bps c) (fg_curator c) (fc_shares s) = Inr (q, sh1)" "s1 = s\<lparr>fc_shares := sh1\<rparr>"
    by (rule fac_accrue_now_Inr)
  then have 1: "balance (fc_shares s) me \<le> balance (fc_shares s1) me" "sh_allowances (fc_shares s1) = sh_allowances (fc_shares s)"
    by (auto elim!: accrue_Inr simp: mint_def rs dest: snapshot_fee_nonneg)
  from ex obtain sh where b: "burn me x (fc_shares s1) = Inr sh" "s' = s1\<lparr>fc_shares := sh\<rparr>"
    by (auto elim: fac_exit_Inr)
  then have "balance (fc_shares s') me = balance (fc_shares s1) me - x"
    "sh_allowances (fc_shares s') = sh_allowances (fc_shares s1)"
    by (auto simp: burn_def rs)
  with 1 show "balance (fc_shares s) me - x \<le> balance (fc_shares s') me"
    "(\<forall>p. sh_allowances (fc_shares s) (me, p) = None) \<Longrightarrow> \<forall>p. sh_allowances (fc_shares s') (me, p) = None"
    by simp_all
qed

interpretation olp: olp_laws "olp_host fac_host fac" "facility_as fac_host F fac" fac me for F fac me
proof (intro olp_laws.intro olp_laws_axioms.intro olp_host_sep41 beside_vaults_sep41 vw.sep41_host_axioms)
  fix e x r w a w'
  assume "ff_redeem (facility_as fac_host F fac) (calling e fac) fac x r me me w = Some (a, w')"
  then have "fac_redeem fac_host F (calling e fac) x r me me (fst w) (snd w) = Inr (a, fst w', snd w')"
    by (simp add: facility_as_def try_call_Some_iff)
  from fac_redeem_own(1) [OF this] show "tk_balance (olp_host fac_host fac) fac me w - x \<le> tk_balance (olp_host fac_host fac) fac me w'"
    by (simp add: olp_host_def)
qed

subsection \<open>Queue and facility together\<close>

text \<open>
  Since deployment: calls of anyone into the facility and into the queue, in any order, and whatever else happens
  in the world. The queue's address signs nothing: it acts only through the queue's own code.
\<close>

inductive system_run :: "(address \<Rightarrow> bytes32) \<Rightarrow> venue_world vaults_world vault_fns \<Rightarrow> address \<Rightarrow> address \<Rightarrow> queue_state \<Rightarrow>
    venue_world vaults_world olp_world \<Rightarrow> bool"
  for h :: "address \<Rightarrow> bytes32" and F :: "venue_world vaults_world vault_fns" and fac :: address and me :: address where
  deployed: "fac_constructor F hst cfg facility_empty w = Inr s \<Longrightarrow> qc_facility qcfg = fac \<Longrightarrow>
    system_run h F fac me (queue_constructor qcfg queue_empty) (s, w)"
| facility_call: "system_run h F fac me q (s, w) \<Longrightarrow> \<not> authorised e me \<Longrightarrow>
    facility_exec h fac_host F e op s w = Inr (s', w') \<Longrightarrow> system_run h F fac me q (s', w')"
| elsewhere: "system_run h F fac me q (s, w) \<Longrightarrow> system_run h F fac me q (s, w')"
| requested: "system_run h F fac me q u \<Longrightarrow> current_contract e = me \<Longrightarrow> \<not> authorised e me \<Longrightarrow>
    request (olp_host fac_host fac) e a r x q u = Inr (i, q', u') \<Longrightarrow> system_run h F fac me q' u'"
| processed: "system_run h F fac me q u \<Longrightarrow> current_contract e = me \<Longrightarrow>
    process (facility_as fac_host F fac) e maxn q u = Inr (n, q', u') \<Longrightarrow> system_run h F fac me q' u'"
| cancelled: "system_run h F fac me q u \<Longrightarrow> current_contract e = me \<Longrightarrow>
    cancel (olp_host fac_host fac) e i q u = Inr (q', u') \<Longrightarrow> system_run h F fac me q' u'"

definition system_inv :: "address \<Rightarrow> address \<Rightarrow> queue_state \<Rightarrow> 'w olp_world \<Rightarrow> bool" where
  "system_inv fac me q u \<longleftrightarrow> queue_ok q \<and> (\<exists>c. qu_config q = Some c \<and> qc_facility c = fac) \<and>
     owed (waiting q) \<le> balance (fc_shares (fst u)) me \<and> fac_inv (fst u) \<and>
     (\<forall>p. sh_allowances (fc_shares (fst u)) (me, p) = None)"

lemma serve_list_keeps:
  assumes "serve_list G e fac maxn served available xs w = Inr (n, ys, w')" "J w"
    and "\<And>x r a w w'. ff_redeem G (calling e fac) fac x r (current_contract e) (current_contract e) w = Some (a, w') \<Longrightarrow> J w \<Longrightarrow> J w'"
  shows "J w'"
  using assms(1,2)
proof (induction xs arbitrary: served available w)
  case Nil
  then show ?case by simp
next
  case (Cons x xs)
  obtain i p where x: "x = (i, p)" by (cases x)
  from Cons.prems(1) [unfolded x] show ?case
  proof (cases rule: serve_list_turn)
    case stop
    with Cons.prems(2) show ?thesis by simp
  next
    case (part shrs paid)
    from assms(3) [OF part(5) Cons.prems(2)] show ?thesis .
  next
    case (full paid w1)
    from Cons.IH [OF full(3) assms(3) [OF full(2) Cons.prems(2)]] show ?thesis .
  qed
qed

text \<open>The facility side of a queue operation.\<close>

definition olp_ok :: "address \<Rightarrow> facility \<Rightarrow> bool" where
  "olp_ok me s \<longleftrightarrow> fac_inv s \<and> (\<forall>p. sh_allowances (fc_shares s) (me, p) = None)"

lemma olp_transfer_keeps:
  assumes "token_transfer (olp_host H fac) e fac a b x u = Inr u'" "olp_ok me (fst u)"
  shows "olp_ok me (fst u')"
proof -
  from assms(1) obtain sh where t: "token_transfer_entry (calling e fac) a b x (fc_shares (fst u)) = Inr sh"
    and u': "u' = ((fst u)\<lparr>fc_shares := sh\<rparr>, snd u)"
    by (auto simp: token_transfer_def rs olp_host_def with_shares_Some)
  have "shares_inv sh" by (rule entry_keeps_inv(1) [OF _ t]) (use assms(2) in \<open>simp add: olp_ok_def fac_inv_def\<close>)
  moreover have "sh_allowances sh = sh_allowances (fc_shares (fst u))"
    using t by (auto simp: token_transfer_entry_def transfer_def rs)
  ultimately show ?thesis using assms(2) by (simp add: olp_ok_def u' fac_inv_shares)
qed

lemma olp_process_keeps:
  assumes "process (facility_as H F fac) e maxn q u = Inr (n, q', u')" "olp_ok me (fst u)" "current_contract e = me"
    and "qu_config q = Some c" "qc_facility c = fac"
  shows "olp_ok me (fst u')"
proof -
  from assms(1) process_refines [of "facility_as H F fac" e maxn q u] obtain available where
    "serve_list (facility_as H F fac) e fac maxn 0 available (waiting q) u = Inr (n, waiting q', u')"
    using assms(4,5) by (auto simp: queue_config_def and_then_Inr_iff dest!: sym [of "Inr _"])
  then show ?thesis
  proof (rule serve_list_keeps [where J = "\<lambda>u. olp_ok me (fst u)"])
    fix x r a w w'
    assume "ff_redeem (facility_as H F fac) (calling e fac) fac x r (current_contract e) (current_contract e) w = Some (a, w')"
      and ok: "olp_ok me (fst w)"
    then have r: "fac_redeem H F (calling e fac) x r me me (fst w) (snd w) = Inr (a, fst w', snd w')"
      using assms(3) by (simp add: facility_as_def try_call_Some_iff)
    from fac_inv_leave [OF disjI2 [OF r]] fac_redeem_own(2) [OF r] ok show "olp_ok me (fst w')" by (simp add: olp_ok_def)
  qed (rule assms(2))
qed

lemma system_inv_run:
  assumes "system_run h F fac me q u"
  shows "system_inv fac me q u"
  using assms
proof (induction rule: system_run.induct)
  case (deployed hst cfg w s qcfg)
  from facility_run.constructed [OF deployed(1)] have "fac_inv s" by (rule fac_inv_run)
  moreover from this have "0 \<le> balance (fc_shares s) me" by (simp add: fac_inv_def shares_inv_def)
  moreover have "sh_allowances (fc_shares s) (me, p) = None" for p
    using deployed(1) by (auto simp: fac_constructor_def rs shares_init_def facility_empty_def init_meta_def sh_empty_def set_hwm_def)
  ultimately show ?case
    using deployed(2) by (simp add: system_inv_def queue_constructor_def queue_empty_def queue_ok_def bounds_def waiting_def waiting_from_simps)
next
  case (facility_call q s w e op s' w')
  from fac_exec_spares [OF facility_call.hyps(3,2)] fac_inv_exec [OF facility_call.hyps(3)] facility_call.IH show ?case
    by (auto simp: system_inv_def spares_def)
next
  case (elsewhere q s w w')
  then show ?case by (simp add: system_inv_def)
next
  case (requested q u e a r x i q' u')
  from requested.IH obtain c where c: "qu_config q = Some c" "qc_facility c = fac" and ok: "queue_ok q" "olp_ok me (fst u)"
    "owed (waiting q) \<le> tk_balance (olp_host fac_host fac) fac me u"
    by (auto simp: system_inv_def olp_ok_def olp_host_def)
  have "a \<noteq> me" using request_Inr(5) [OF requested.hyps(4)] requested.hyps(3) by auto
  from olp.queue_ops_covered(1) [OF ok(1,3) c requested.hyps(2,4) this]
  have "owed (waiting q') \<le> balance (fc_shares (fst u')) me" by (simp add: olp_host_def)
  moreover have "token_transfer (olp_host fac_host fac) e fac a me x u = (Inr u' :: (QueueError, _) res)"
    using request_Inr(7) [OF requested.hyps(4)] c requested.hyps(2) by auto
  from olp_transfer_keeps [OF this ok(2)] have "olp_ok me (fst u')" .
  ultimately show ?case
    using queue_ok_ops(1) [OF ok(1) requested.hyps(4)] c by (simp add: system_inv_def olp_ok_def)
next
  case (processed q u e maxn n q' u')
  from processed.IH obtain c where c: "qu_config q = Some c" "qc_facility c = fac" and ok: "queue_ok q" "olp_ok me (fst u)"
    "owed (waiting q) \<le> tk_balance (olp_host fac_host fac) fac me u"
    by (auto simp: system_inv_def olp_ok_def olp_host_def)
  from olp.queue_ops_covered(2) [OF ok(1,3) c processed.hyps(2,3)]
  have "owed (waiting q') \<le> balance (fc_shares (fst u')) me" by (simp add: olp_host_def)
  with olp_process_keeps [OF processed.hyps(3) ok(2) processed.hyps(2) c] queue_ok_ops(2) [OF ok(1) processed.hyps(3)] c
  show ?case by (simp add: system_inv_def olp_ok_def)
next
  case (cancelled q u e i q' u')
  from cancelled.IH obtain c where c: "qu_config q = Some c" "qc_facility c = fac" and ok: "queue_ok q" "olp_ok me (fst u)"
    "owed (waiting q) \<le> tk_balance (olp_host fac_host fac) fac me u"
    by (auto simp: system_inv_def olp_ok_def olp_host_def)
  from olp.queue_ops_covered(3) [OF ok(1,3) c cancelled.hyps(2,3)]
  have "owed (waiting q') \<le> balance (fc_shares (fst u')) me" by (simp add: olp_host_def)
  moreover from cancelled.hyps(2,3) c obtain p :: Position where
    "token_transfer (olp_host fac_host fac) e fac me (ps_owner p) (ps_shares p) u = (Inr u' :: (QueueError, _) res)"
    by (auto simp: cancel_def rs queue_config_def)
  from olp_transfer_keeps [OF this ok(2)] have "olp_ok me (fst u')" .
  ultimately show ?case
    using queue_ok_ops(3) [OF ok(1) cancelled.hyps(3)] c by (simp add: system_inv_def olp_ok_def)
qed

subsection \<open>A concrete system\<close>

definition queue_addr :: address where "queue_addr = Contract 41"

text \<open>A call into \<open>c\<close> at time \<open>t\<close>, signed by everyone but the queue.\<close>

definition sys_env :: "nat \<Rightarrow> address \<Rightarrow> env" where
  "sys_env t c = (demo_env t)\<lparr>current_contract := c, signed := (\<lambda>a. a \<noteq> queue_addr)\<rparr>"

lemma sys_env_simps [simp]:
  "ledger_timestamp (sys_env t c) = t"
  "ledger_sequence (sys_env t c) = t"
  "current_contract (sys_env t c) = c"
  "signed (sys_env t c) a \<longleftrightarrow> a \<noteq> queue_addr"
  "authorised (sys_env t c) a \<longleftrightarrow> a \<noteq> queue_addr"
  by (auto simp: sys_env_def demo_env_def authorised_def)

definition demo_queue :: queue_state where
  "demo_queue = queue_constructor \<lparr>qc_facility = this_contract, qc_curator = alice\<rparr> queue_empty"

lemma demo_system: "system_run h fac_fns this_contract queue_addr demo_queue (fresh_facility, fac_world)"
  unfolding demo_queue_def
proof (rule system_run.deployed)
  show "fac_constructor fac_fns admin_addr fac_demo_config facility_empty fac_world = Inr fresh_facility"
    by (simp add: fac_constructor_def shares_init_def DECIMALS_OFFSET_def MAX_FEE_BPS_def fac_demo vault_eval demo_defs)
qed simp

text \<open>\<open>bob\<close> deposits and queues 500000 oLP.\<close>

lemma demo_queued:
  "\<exists>q u. system_run h fac_fns this_contract queue_addr q u \<and>
     qu_pos q = [0 \<mapsto> \<lparr>ps_owner = bob, ps_receiver = carol, ps_shares = 500000\<rparr>] \<and> bounds q = (0, 1) \<and>
     balance (fc_shares (fst u)) bob = 499000 \<and> share_supply (fc_shares (fst u)) = 999000 \<and>
     sh_allowlist (fc_shares (fst u)) = None \<and> sh_frozen (fc_shares (fst u)) = Map.empty"
proof -
  let ?sh = "set_supply 999000 (set_balance bob 999000 (set_hwm 1001000000000000 (set_supply 0 (set_balance alice 0 (fc_shares fresh_facility)))))"
  obtain s w where d: "facility_exec h fac_host fac_fns (sys_env 5 this_contract) (F_deposit 1000 bob bob bob) fresh_facility fac_world = Inr (s, w)"
    and sh: "fc_shares s = ?sh"
    by (simp add: facility_exec_def fac_deposit_def require_auth_def fac_ops fac_demo deposit_def enter_def pull_def
        credit_def queue_addr_def vault_eval demo_defs)
  have run: "system_run h fac_fns this_contract queue_addr demo_queue (s, w)"
    by (rule system_run.facility_call [OF demo_system _ d]) simp
  obtain q u where rq: "request (olp_host fac_host this_contract) (sys_env 6 queue_addr) bob carol 500000 demo_queue (s, w) = Inr (0, q, u)"
    and q: "qu_pos q = [0 \<mapsto> \<lparr>ps_owner = bob, ps_receiver = carol, ps_shares = 500000\<rparr>]" "bounds q = (0, 1)"
      "balance (fc_shares (fst u)) bob = 499000" "share_supply (fc_shares (fst u)) = 999000"
      "sh_allowlist (fc_shares (fst u)) = None" "sh_frozen (fc_shares (fst u)) = Map.empty"
    by (simp add: request_def require_auth_def demo_queue_def queue_constructor_def queue_empty_def queue_config_def bounds_def
        save_def set_bounds_def token_transfer_def olp_host_def with_shares_def token_transfer_entry_def transfer_def sh
        fresh_facility_def queue_addr_def vault_eval demo_defs)
  have "system_run h fac_fns this_contract queue_addr q u"
    by (rule system_run.requested [OF run _ _ rq]) simp_all
  with q show ?thesis by blast
qed

subsection \<open>Properties\<close>

text \<open>
  C18 (refinement). The queue is a first-come, first-served list. The storage of head, tail and numbered positions
  implements a list of waiting positions: a request appends, a cancellation deletes exactly its own position, and
  \<open>process\<close> is the loop that serves that list from its front. Whenever it succeeds it serves at most \<open>maxn\<close>
  positions and leaves a suffix of the list, whose first position may be reduced but keeps its place; the storage
  invariant is kept by all three.
\<close>

theorem queue_refines_list:
  assumes "queue_ok q"
  shows "(\<forall>H e a r x w i q' w'. request H e a r x q w = Inr (i, q', w') \<longrightarrow>
      queue_ok q' \<and> waiting q' = waiting q @ [(i, \<lparr>ps_owner = a, ps_receiver = r, ps_shares = x\<rparr>)]) \<and>
    (\<forall>H e i w q' w'. cancel H e i q w = Inr (q', w') \<longrightarrow>
      queue_ok q' \<and> waiting q' = filter (\<lambda>x. fst x \<noteq> i) (waiting q)) \<and>
    and_then (process G e maxn q u) (\<lambda>(n, q', u'). Inr (n, waiting q', u')) =
      and_then (queue_config q) (\<lambda>c.
      and_then (call_result (ff_max_withdraw G (calling e (qc_facility c)) (qc_facility c) (current_contract e) u)) (\<lambda>available.
        serve_list G e (qc_facility c) maxn 0 available (waiting q) u)) \<and>
    (\<forall>n q' u'. process G e maxn q u = Inr (n, q', u') \<longrightarrow> queue_ok q' \<and> n \<le> maxn \<and>
      (\<exists>k. waiting q' = drop k (waiting q) \<or> (\<exists>i p rest left. drop k (waiting q) = (i, p) # rest \<and>
         waiting q' = (i, p\<lparr>ps_shares := left\<rparr>) # rest \<and> 0 < left)))"
proof (intro conjI allI impI)
  fix n q' u'
  assume pr: "process G e maxn q u = Inr (n, q', u')"
  show "queue_ok q'" using queue_ok_ops(2) [OF assms pr] by simp
  from pr process_refines [of G e maxn q u] obtain c :: QueueConfig and available where
    "serve_list G e (qc_facility c) maxn 0 available (waiting q) u = Inr (n, waiting q', u')"
    by (auto simp: and_then_Inr_iff dest!: sym [of "Inr _"])
  from serve_list_fifo [OF this] show "n \<le> maxn"
    "\<exists>k. waiting q' = drop k (waiting q) \<or> (\<exists>i p rest left. drop k (waiting q) = (i, p) # rest \<and>
         waiting q' = (i, p\<lparr>ps_shares := left\<rparr>) # rest \<and> 0 < left)"
    by (simp, blast)
next
  fix H e a r x w i q' w'
  assume rq: "request H e a r x q w = Inr (i, q', w')"
  show "queue_ok q'" using queue_ok_ops(1) [OF assms rq] by simp
  show "waiting q' = waiting q @ [(i, \<lparr>ps_owner = a, ps_receiver = r, ps_shares = x\<rparr>)]"
    by (rule waiting_request [OF rq assms])
next
  fix H e i w q' w'
  assume ca: "cancel H e i q w = Inr (q', w')"
  show "queue_ok q'" using queue_ok_ops(3) [OF assms ca] by simp
  show "waiting q' = filter (\<lambda>x. fst x \<noteq> i) (waiting q)" by (rule waiting_cancel [OF ca])
qed (rule process_refines)

theorem queue_refines_list_witness:
  "\<exists>q u. queue_ok q \<and> waiting q = [(0, \<lparr>ps_owner = bob, ps_receiver = carol, ps_shares = 500000\<rparr>)] \<and>
     (\<forall>q' w'. cancel (olp_host fac_host this_contract) (sys_env 7 queue_addr) 0 q u = Inr (q', w') \<longrightarrow> waiting q' = [])"
proof -
  obtain q u where run: "system_run (\<lambda>_. 0) fac_fns this_contract queue_addr q u"
    and q: "qu_pos q = [0 \<mapsto> \<lparr>ps_owner = bob, ps_receiver = carol, ps_shares = 500000\<rparr>]" "bounds q = (0, 1)"
    using demo_queued by blast
  have ok: "queue_ok q" using q by (auto simp: queue_ok_def)
  have w: "waiting q = [(0, \<lparr>ps_owner = bob, ps_receiver = carol, ps_shares = 500000\<rparr>)]"
    using q by (simp add: waiting_def waiting_from_simps)
  have "waiting q' = filter (\<lambda>x. fst x \<noteq> 0) (waiting q)"
    if "cancel (olp_host fac_host this_contract) (sys_env 7 queue_addr) 0 q u = Inr (q', w')" for q' w'
    using queue_refines_list [OF ok, THEN conjunct2, THEN conjunct1, rule_format, OF that] by blast
  with ok w show ?thesis by (intro exI [of _ q] exI [of _ u]) auto
qed

text \<open>
  C19 (invariant). The queue always holds what it owes. Whatever calls are made to the facility and to the queue
  since their deployment, by anyone and in any order, and whatever happens in the world around them: every
  waiting position has a positive number of oLP, together they never exceed the oLP the queue holds, nobody has
  an allowance on it, and the facility's own invariant holds.
\<close>

theorem queue_always_covered:
  assumes "system_run h F fac me q u"
  shows "queue_ok q \<and> owed (waiting q) \<le> balance (fc_shares (fst u)) me \<and>
    (\<forall>p. sh_allowances (fc_shares (fst u)) (me, p) = None) \<and> fac_inv (fst u)"
  using system_inv_run [OF assms] by (simp add: system_inv_def)

theorem queue_always_covered_witness:
  "\<exists>q u. system_run (\<lambda>_. 0) fac_fns this_contract queue_addr q u \<and> owed (waiting q) = 500000 \<and>
     500000 \<le> balance (fc_shares (fst u)) queue_addr"
proof -
  obtain q u where run: "system_run (\<lambda>_. 0) fac_fns this_contract queue_addr q u"
    and q: "qu_pos q = [0 \<mapsto> \<lparr>ps_owner = bob, ps_receiver = carol, ps_shares = 500000\<rparr>]" "bounds q = (0, 1)"
    using demo_queued by blast
  have "owed (waiting q) = 500000" using q by (simp add: waiting_def waiting_from_simps)
  with queue_always_covered [OF run] run show ?thesis by (intro exI [of _ q] exI [of _ u]) simp
qed

text \<open>
  Whoever waits can leave. In every state queue and facility can reach together, the owner of a
  waiting position who may hold oLP gets it all back by \<open>cancel\<close>, whatever the facility's liquidity, prices or
  pause.
\<close>

theorem queue_cancel_succeeds:
  assumes "system_run h F fac me q u" "qu_pos q i = Some p" "current_contract e = me" "authorised e (ps_owner p)"
    and "ps_owner p \<noteq> me" "admitted (calling e fac) (fc_shares (fst u)) (ps_owner p)"
    and "\<not> is_frozen (fc_shares (fst u)) (ps_owner p)" "\<not> is_frozen (fc_shares (fst u)) me"
    and "is_i128 (share_supply (fc_shares (fst u)))"
  shows "\<exists>q' u'. cancel (olp_host fac_host fac) e i q u = Inr (q', u') \<and> waiting q' = filter (\<lambda>x. fst x \<noteq> i) (waiting q) \<and>
    balance (fc_shares (fst u')) (ps_owner p) = balance (fc_shares (fst u)) (ps_owner p) + ps_shares p"
proof -
  let ?sh = "fc_shares (fst u)"
  have inv: "system_inv fac me q u" by (rule system_inv_run [OF assms(1)])
  then obtain c where sh: "shares_inv ?sh" and ok: "queue_ok q" and cov: "owed (waiting q) \<le> balance ?sh me"
    and c: "qu_config q = Some c" "qc_facility c = fac"
    by (auto simp: system_inv_def fac_inv_def)
  have pos: "0 < ps_shares p" using ok assms(2) by (auto simp: queue_ok_def)
  have mem: "(i, p) \<in> set (waiting q)" using ok assms(2) by (auto simp: waiting_def waiting_from_mem queue_ok_def)
  have "0 \<le> owed (filter (\<lambda>x. fst x \<noteq> i) (waiting q))"
    unfolding owed_def using ok
    by (intro sum_list_nonneg) (auto simp: waiting_def waiting_from_mem queue_ok_def less_imp_le)
  then have "ps_shares p \<le> balance ?sh me"
    using cov owed_filter [OF _ mem] by (simp add: waiting_def waiting_from_ids)
  from transfer_succeeds [OF sh assms(9) _ this, of "ps_owner p" "calling e fac"] pos assms(5-8)
  obtain sh' where tr: "transfer (calling e fac) me (ps_owner p) (ps_shares p) ?sh = Inr sh'" by auto
  then have entry: "token_transfer_entry (calling e fac) me (ps_owner p) (ps_shares p) ?sh = Inr sh'"
    using assms(3) by (simp add: token_transfer_entry_def require_auth_def)
  let ?u = "((fst u)\<lparr>fc_shares := sh'\<rparr>, snd u)"
  have "token_transfer (olp_host fac_host fac) e fac me (ps_owner p) (ps_shares p) u = (Inr ?u :: (QueueError, _) res)"
    using entry by (simp add: token_transfer_def olp_host_def with_shares_def)
  then have ca: "cancel (olp_host fac_host fac) e i q u = Inr (remove_pos i q, ?u)"
    using assms(2-4) c by (simp add: cancel_def queue_position_def queue_config_def require_auth_def)
  have "balance sh' (ps_owner p) = balance ?sh (ps_owner p) + ps_shares p"
    using share.transfer_moves [OF entry] assms(5) by simp
  with ca waiting_cancel [OF ca] show ?thesis by auto
qed

theorem queue_cancel_succeeds_witness:
  "\<exists>q u q' u'. system_run (\<lambda>_. 0) fac_fns this_contract queue_addr q u \<and>
     cancel (olp_host fac_host this_contract) (sys_env 7 queue_addr) 0 q u = Inr (q', u') \<and>
     balance (fc_shares (fst u')) bob = 999000"
proof -
  let ?p = "\<lparr>ps_owner = bob, ps_receiver = carol, ps_shares = 500000\<rparr>"
  obtain q u where run: "system_run (\<lambda>_. 0) fac_fns this_contract queue_addr q u"
    and q: "qu_pos q = [0 \<mapsto> ?p]" "bounds q = (0, 1)" "balance (fc_shares (fst u)) bob = 499000"
      "share_supply (fc_shares (fst u)) = 999000" "sh_allowlist (fc_shares (fst u)) = None" "sh_frozen (fc_shares (fst u)) = Map.empty"
    using demo_queued by blast
  have pos: "qu_pos q 0 = Some ?p" using q by simp
  have "\<exists>q' u'. cancel (olp_host fac_host this_contract) (sys_env 7 queue_addr) 0 q u = Inr (q', u') \<and>
      waiting q' = filter (\<lambda>x. fst x \<noteq> 0) (waiting q) \<and>
      balance (fc_shares (fst u')) (ps_owner ?p) = balance (fc_shares (fst u)) (ps_owner ?p) + ps_shares ?p"
    by (rule queue_cancel_succeeds [OF run pos])
      (use q in \<open>simp_all add: queue_addr_def demo_defs admitted_def allowlist_enabled_def is_frozen_def width_defs\<close>)
  then obtain q' u' where "cancel (olp_host fac_host this_contract) (sys_env 7 queue_addr) 0 q u = Inr (q', u')"
    "balance (fc_shares (fst u')) bob = 999000" using q(3) by auto
  with run show ?thesis by blast
qed

text \<open>
  C21 (error). A dust position stops the queue. If the position at the head is worth less than one unit of base,
  every call of \<open>process\<close> reverts as long as the facility has anything to pay, however many positions wait behind
  it: the loop asks the facility to redeem it, and the facility refuses a redemption that pays nothing.
\<close>

theorem dust_position_stops_queue:
  assumes "bounds q = (h, t)" "h < t" "qu_pos q h = Some p" "0 < ps_shares p" "0 < maxn"
    and "qu_config q = Some c" "qc_facility c = fac"
    and "fac_max_withdraw H F (calling e fac) (current_contract e) s w = Inr a" "0 < a"
    and "fac_convert_to_assets H F (calling e fac) (ps_shares p) s w = Inr 0"
  shows "process (facility_as H F fac) e maxn q (s, w) = Inl (Trap CallFailed)"
proof -
  let ?G = "facility_as H F fac" and ?me = "current_contract e"
  have "fac_redeem H F (calling e fac) (ps_shares p) (ps_receiver p) ?me ?me s w \<noteq> Inr z" for z
  proof
    assume "fac_redeem H F (calling e fac) (ps_shares p) (ps_receiver p) ?me ?me s w = Inr z"
    then obtain pr s1 assets s' w' where ac: "fac_accrue_now H F (calling e fac) s w = Inr (pr, s1)"
      and as: "to_assets pr (ps_shares p) False = Inr assets"
      and ex: "fac_exit F (calling e fac) pr ?me ?me (ps_receiver p) (ps_shares p) assets s1 w = Inr (s', w')"
      by (auto simp: fac_redeem_def and_then_Inr_iff map_err_Inr_iff)
    have "to_assets pr (ps_shares p) False = Inr 0"
      using assms(10) fac_accrue_now_snapshot(1) [OF ac] by (simp add: fac_convert_to_assets_def map_err_Inr_iff)
    with as have "assets = 0" by simp
    with ex show False by (auto elim: fac_exit_Inr)
  qed
  then have "try_call (fac_redeem H F (calling e fac) (ps_shares p) (ps_receiver p) ?me ?me s w) = None"
    by (cases "fac_redeem H F (calling e fac) (ps_shares p) (ps_receiver p) ?me ?me s w") auto
  then have "serve ?G e fac maxn h t 0 a q (s, w) = Inl (Trap CallFailed)"
    using assms(2-5,9,10) by (subst serve.simps) (simp add: queue_position_def facility_as_def)
  then show ?thesis
    using assms(1,6-8) by (simp add: process_def queue_config_def facility_as_def)
qed

theorem dust_position_stops_queue_witness:
  "process (facility_as fac_host fac_fns this_contract) (sys_env 5 queue_addr) 10
     (set_bounds 0 2 (save 1 \<lparr>ps_owner = alice, ps_receiver = alice, ps_shares = 1000000000\<rparr>
       (save 0 \<lparr>ps_owner = bob, ps_receiver = bob, ps_shares = 1\<rparr> demo_queue)))
     (demo_facility\<lparr>fc_queue := Some queue_addr,
        fc_shares := set_balance alice 999999999 (set_balance queue_addr 1000000001 (fc_shares demo_facility))\<rparr>, fac_world)
   = Inl (Trap CallFailed)"
  by (rule dust_position_stops_queue [of _ 0 2 "\<lparr>ps_owner = bob, ps_receiver = bob, ps_shares = 1\<rparr>" _
        "\<lparr>qc_facility = this_contract, qc_curator = alice\<rparr>" this_contract _ _ _ _ _ 1000])
    (simp_all add: demo_queue_def queue_constructor_def fac_max_withdraw_def fac_convert_to_assets_def fac_snapshot_def
      fac_ops fac_demo max_withdraw_def queue_addr_def vault_eval demo_defs)

subsection \<open>Termination\<close>

text \<open>One turn of the loop of \<open>process\<close>, \<open>True\<close> when it ends there, and the loop cut off after a number of turns.\<close>

definition serve_turn :: "'w facility_fns \<Rightarrow> env \<Rightarrow> address \<Rightarrow> nat \<Rightarrow> nat \<Rightarrow> nat \<times> nat \<times> int \<times> queue_state \<times> 'w \<Rightarrow>
    (QueueError, bool \<times> nat \<times> nat \<times> int \<times> queue_state \<times> 'w) res" where
  "serve_turn G e fac maxn t = (\<lambda>(h, served, available, s, w).
    if \<not> (h < t \<and> served < maxn) then Inr (True, h, served, available, s, w)
    else
      case queue_position h s of
        None \<Rightarrow> Inr (False, h + 1, served, available, s, w)
      | Some p \<Rightarrow>
          if available \<le> 0 then Inr (True, h, served, available, s, w)
          else
            and_then (call_result (ff_convert_to_assets G (calling e fac) fac (ps_shares p) w)) (\<lambda>worth.
            and_then
              (if worth \<le> available then Inr (ps_shares p)
               else and_then (call_result (ff_convert_to_shares G (calling e fac) fac available w)) (\<lambda>x.
                 Inr (min x (ps_shares p)))) (\<lambda>shrs.
            if shrs = 0 then Inr (True, h, served, available, s, w)
            else
              and_then (call_result
                  (ff_redeem G (calling e fac) fac shrs (ps_receiver p) (current_contract e) (current_contract e) w)) (\<lambda>(paid, w).
              and_then (i128_sub available paid) (\<lambda>available.
              and_then (i128_sub (ps_shares p) shrs) (\<lambda>left.
              and_then (u32_add served 1) (\<lambda>served.
                if 0 < left then Inr (True, h, served, available, save h (p\<lparr>ps_shares := left\<rparr>) s, w)
                else Inr (False, h + 1, served, available, remove_pos h s, w))))))))"

primrec serve_within :: "nat \<Rightarrow> 'w facility_fns \<Rightarrow> env \<Rightarrow> address \<Rightarrow> nat \<Rightarrow> nat \<Rightarrow> nat \<times> nat \<times> int \<times> queue_state \<times> 'w \<Rightarrow>
    (QueueError, nat \<times> nat \<times> queue_state \<times> 'w) res option" where
  "serve_within 0 G e fac maxn t st = None"
| "serve_within (Suc n) G e fac maxn t st =
    (case serve_turn G e fac maxn t st of
       Inl x \<Rightarrow> Some (Inl x)
     | Inr (stop, h, served, available, s, w) \<Rightarrow>
         if stop then Some (Inr (h, served, s, w)) else serve_within n G e fac maxn t (h, served, available, s, w))"

lemma and_then_prod: "and_then (case p of (a, b) \<Rightarrow> h a b) g = (case p of (a, b) \<Rightarrow> and_then (h a b) g)"
  by (simp split: prod.split)

lemma serve_by_turns:
  "serve G e fac maxn h t served available s w =
    and_then (serve_turn G e fac maxn t (h, served, available, s, w)) (\<lambda>(stop, h, served, available, s, w).
      if stop then Inr (h, served, s, w) else serve G e fac maxn h t served available s w)"
  by (subst serve.simps) (auto simp: serve_turn_def and_then_assoc and_then_if and_then_prod split: option.split cong del: if_weak_cong)

lemma serve_turn_moves:
  assumes "serve_turn G e fac maxn t (h, served, available, s, w) = Inr (stop, h', served', available', s', w')"
  shows "stop \<and> h' = h \<and> (served' = served \<or> served < maxn \<and> h < t \<and> served' = Suc served) \<or>
    \<not> stop \<and> h < t \<and> h' = Suc h \<and> (served' = served \<or> served < maxn \<and> served' = Suc served)"
  using assms by (auto simp: serve_turn_def rs split: if_splits option.splits)

lemma serve_moves:
  "serve G e fac maxn h t served available s w = Inr (h', k, s', w') \<Longrightarrow>
    h \<le> h' \<and> h' \<le> max h t \<and> served \<le> k \<and> k \<le> max served maxn \<and> k - served \<le> Suc (h' - h)"
proof (induction "t - h" arbitrary: h served available s w rule: less_induct)
  case less
  from less.prems obtain stop h1 k1 a1 s1 w1 where tu: "serve_turn G e fac maxn t (h, served, available, s, w) = Inr (stop, h1, k1, a1, s1, w1)"
    and r: "if stop then h' = h1 \<and> k = k1 else serve G e fac maxn h1 t k1 a1 s1 w1 = Inr (h', k, s', w')"
    by (subst (asm) serve_by_turns) (auto simp: and_then_Inr_iff split: if_splits)
  show ?case
  proof (cases stop)
    case True
    with r serve_turn_moves [OF tu] show ?thesis by auto
  next
    case False
    with serve_turn_moves [OF tu] have m: "h < t" "h1 = Suc h" "k1 = served \<or> served < maxn \<and> k1 = Suc served" by auto
    have "t - h1 < t - h" using m by auto
    from less.hyps [OF this, of k1 a1 s1 w1] r False m show ?thesis by auto
  qed
qed

text \<open>
  C20 (termination). However long the queue and whatever the facility answers, \<open>process\<close> ends: the loop is over after at most
  one turn per position between head and tail, and one more. The head never moves back nor past the tail, and no more positions
  are served than asked for.
\<close>

theorem queue_process_terminates:
  assumes "t - h < n"
  shows "serve_within n G e fac maxn t (h, served, available, s, w) = Some (serve G e fac maxn h t served available s w) \<and>
    (case serve G e fac maxn h t served available s w of
       Inl _ \<Rightarrow> True
     | Inr (h', k, _) \<Rightarrow> h \<le> h' \<and> h' \<le> max h t \<and> served \<le> k \<and> k \<le> max served maxn \<and> k - served \<le> Suc (h' - h))"
proof
  show "serve_within n G e fac maxn t (h, served, available, s, w) = Some (serve G e fac maxn h t served available s w)" using assms
  proof (induction n arbitrary: h served available s w)
    case (Suc n)
    show ?case
    proof (cases "serve_turn G e fac maxn t (h, served, available, s, w)")
      case (Inl x)
      then show ?thesis by (subst serve_by_turns) (simp add: and_then_def)
    next
      case (Inr r)
      obtain stop h1 k1 a1 s1 w1 where r: "r = (stop, h1, k1, a1, s1, w1)" by (cases r) auto
      from serve_turn_moves [OF Inr [unfolded r]] Suc.prems have "\<not> stop \<Longrightarrow> t - h1 < n" by auto
      with Suc.IH [of h1 k1 a1 s1 w1] Inr r show ?thesis by (subst serve_by_turns) (simp add: and_then_def)
    qed
  qed simp
  show "case serve G e fac maxn h t served available s w of Inl _ \<Rightarrow> True
     | Inr (h', k, _) \<Rightarrow> h \<le> h' \<and> h' \<le> max h t \<and> served \<le> k \<and> k \<le> max served maxn \<and> k - served \<le> Suc (h' - h)"
    using serve_moves [of G e fac maxn h t served available s w] by (auto split: sum.splits)
qed

text \<open>A facility that redeems one for one out of its cash, and a queue whose first position is gone.\<close>

definition par_facility :: "int facility_fns" where
  "par_facility = \<lparr>ff_convert_to_assets = (\<lambda>e f x w. Some x), ff_convert_to_shares = (\<lambda>e f x w. Some x),
     ff_max_withdraw = (\<lambda>e f a w. Some w), ff_redeem = (\<lambda>e f x r a p w. Some (x, w - x))\<rparr>"

definition gap_queue :: queue_state where
  "gap_queue = queue_empty\<lparr>qu_pos := [1 \<mapsto> \<lparr>ps_owner = bob, ps_receiver = carol, ps_shares = 300\<rparr>]\<rparr>"

theorem queue_process_terminates_witness:
  "\<exists>s'. serve par_facility (demo_env 1) this_contract 10 0 2 0 500 gap_queue 500 = Inr (2, 1, s', 200) \<and>
     serve_within 3 par_facility (demo_env 1) this_contract 10 2 (0, 0, 500, gap_queue, 500) = Some (Inr (2, 1, s', 200))"
proof -
  let ?p = "\<lparr>ps_owner = bob, ps_receiver = carol, ps_shares = 300\<rparr>"
  have p: "queue_position 0 gap_queue = None" "queue_position (Suc 0) gap_queue = Some ?p"
    by (simp_all add: queue_position_def gap_queue_def queue_empty_def)
  have "serve par_facility (demo_env 1) this_contract 10 0 2 0 500 gap_queue 500 = Inr (2, 1, remove_pos (Suc 0) gap_queue, 200)"
    apply (subst serve.simps, simp add: p)
    apply (subst serve.simps, simp add: p par_facility_def arith_defs width_defs)
    apply (subst serve.simps, simp)
    done
  then show ?thesis
    using queue_process_terminates [of 2 0 3 par_facility "demo_env 1" this_contract 10 0 500 gap_queue 500] by simp
qed

end
