(* ===== verification/Router.thy ===== *)
theory Router
  imports Orders Token_Interface
begin

text \<open>
  \<open>contracts/router/src/lib.rs\<close>: the router that settles the route a taker chose across signed bids and
  registered aggregators. Its storage is the record \<open>router\<close>; the settlement contract and the aggregators are
  reached through \<open>route_host\<close>, the tokens through \<open>host\<close>.
\<close>

datatype RouterError = R_AlreadyInitialized | R_NotAuthorized | R_Paused | R_EmptyRoute | R_InvalidAmount | R_BelowMinOut
  | R_TokenMismatch | R_SourceNotRegistered | R_LegTakerMismatch | R_LegSignatureMismatch | R_SourceUnderDelivered
  | R_OverSpent | R_InputShortfall | R_Overflow

datatype SourceKind = S_Dex | S_Facility

record SourceEntry =
  se_address :: address
  se_kind :: SourceKind

datatype SignedOrder = O_Rfq RfqOrder | O_Fixed FixedOrder

record RfqLeg =
  rl_order :: SignedOrder
  rl_maker_signature :: Signature
  rl_taker_signature :: "Signature list"
  rl_taker_amount :: int

record AggregatorLeg =
  al_aggregator :: address
  al_taker_amount :: int
  al_min_maker_amount :: int
  al_data :: "byte list"

datatype Leg = L_Rfq RfqLeg | L_Dex AggregatorLeg | L_Facility AggregatorLeg

record SourceQuote =
  sq_source :: address
  sq_kind :: SourceKind
  sq_maker_amount :: int

record RouteResult =
  rr_taker_spent :: int
  rr_amount_out :: int

record router =
  ru_admin :: "address option"
  ru_settlement :: "address option"
  ru_paused :: "bool option"
  ru_sources :: "SourceEntry list option"

definition router_empty :: router where
  "router_empty = \<lparr>ru_admin = None, ru_settlement = None, ru_paused = None, ru_sources = None\<rparr>"

record Opening =
  op_held_in :: int
  op_held_out :: int
  op_taker_in :: int
  op_taker_out :: int

text \<open>The \<open>Settlement\<close> and \<open>Aggregator\<close> interfaces; \<open>None\<close> is a call that fails.\<close>

record 'w route_host =
  st_fill_rfq :: "env \<Rightarrow> address \<Rightarrow> RfqOrder \<Rightarrow> Signature \<Rightarrow> Signature option \<Rightarrow> address \<Rightarrow> int \<Rightarrow> 'w \<Rightarrow> (FillResult \<times> 'w) option"
  st_fill_fixed :: "env \<Rightarrow> address \<Rightarrow> FixedOrder \<Rightarrow> Signature \<Rightarrow> Signature option \<Rightarrow> address \<Rightarrow> int \<Rightarrow> 'w \<Rightarrow> (FillResult \<times> 'w) option"
  ag_quote :: "env \<Rightarrow> address \<Rightarrow> address \<Rightarrow> address \<Rightarrow> int \<Rightarrow> 'w \<Rightarrow> int option"
  ag_fill :: "env \<Rightarrow> address \<Rightarrow> address \<Rightarrow> address \<Rightarrow> address \<Rightarrow> int \<Rightarrow> int \<Rightarrow> byte list \<Rightarrow> 'w \<Rightarrow> (int \<times> 'w) option"

subsection \<open>Storage and administration\<close>

definition router_admin :: "router \<Rightarrow> (RouterError, address) res" where
  "router_admin s = unwrap (ru_admin s)"

definition settlement :: "router \<Rightarrow> (RouterError, address) res" where
  "settlement s = unwrap (ru_settlement s)"

definition is_paused :: "router \<Rightarrow> bool" where
  "is_paused s = (ru_paused s = Some True)"

definition sources :: "router \<Rightarrow> SourceEntry list" where
  "sources s = (case ru_sources s of None \<Rightarrow> [] | Some xs \<Rightarrow> xs)"

definition admin_auth :: "env \<Rightarrow> router \<Rightarrow> (RouterError, unit) res" where
  "admin_auth e s = and_then (router_admin s) (\<lambda>a. require_auth e a)"

definition router_initialize :: "env \<Rightarrow> address \<Rightarrow> address \<Rightarrow> router \<Rightarrow> (RouterError, router) res" where
  "router_initialize e admin settle s =
    and_then (panic_if (ru_admin s \<noteq> None) R_AlreadyInitialized) (\<lambda>_.
    and_then (require_auth e admin) (\<lambda>_.
      Inr (s\<lparr>ru_admin := Some admin, ru_settlement := Some settle, ru_sources := Some []\<rparr>)))"

definition router_upgrade :: "env \<Rightarrow> bytes32 \<Rightarrow> router \<Rightarrow> (RouterError, bytes32) res" where
  "router_upgrade e new_wasm_hash s = and_then (admin_auth e s) (\<lambda>_. Inr new_wasm_hash)"

fun source_index :: "SourceEntry list \<Rightarrow> address \<Rightarrow> nat option" where
  "source_index [] a = None"
| "source_index (x # xs) a = (if se_address x = a then Some 0 else map_option Suc (source_index xs a))"

definition register_source :: "env \<Rightarrow> address \<Rightarrow> SourceKind \<Rightarrow> bool \<Rightarrow> router \<Rightarrow> (RouterError, router) res" where
  "register_source e source k allowed s =
    and_then (admin_auth e s) (\<lambda>_.
      let xs = sources s; entry = \<lparr>se_address = source, se_kind = k\<rparr> in
      Inr (case (source_index xs source, allowed) of
             (None, True) \<Rightarrow> s\<lparr>ru_sources := Some (xs @ [entry])\<rparr>
           | (Some i, True) \<Rightarrow> s\<lparr>ru_sources := Some (xs[i := entry])\<rparr>
           | (Some i, False) \<Rightarrow> s\<lparr>ru_sources := Some (remove_at i xs)\<rparr>
           | (None, False) \<Rightarrow> s))"

definition set_settlement :: "env \<Rightarrow> address \<Rightarrow> router \<Rightarrow> (RouterError, router) res" where
  "set_settlement e settle s = and_then (admin_auth e s) (\<lambda>_. Inr (s\<lparr>ru_settlement := Some settle\<rparr>))"

definition router_set_paused :: "env \<Rightarrow> bool \<Rightarrow> router \<Rightarrow> (RouterError, router) res" where
  "router_set_paused e paused s = and_then (admin_auth e s) (\<lambda>_. Inr (s\<lparr>ru_paused := Some paused\<rparr>))"

definition source_kind_of :: "router \<Rightarrow> address \<Rightarrow> SourceKind option" where
  "source_kind_of s a = map_option se_kind (find (\<lambda>x. se_address x = a) (sources s))"

subsection \<open>Quotes\<close>

definition try_quote :: "'w route_host \<Rightarrow> env \<Rightarrow> address \<Rightarrow> address \<Rightarrow> address \<Rightarrow> int \<Rightarrow> 'w \<Rightarrow> int option" where
  "try_quote R e source taker_token maker_token taker_amount w =
    (if taker_amount \<le> 0 then None
     else case ag_quote R (calling e source) source taker_token maker_token taker_amount w of
            Some q \<Rightarrow> if 0 < q then Some q else None
          | None \<Rightarrow> None)"

fun quotes_of :: "'w route_host \<Rightarrow> env \<Rightarrow> address \<Rightarrow> address \<Rightarrow> int \<Rightarrow> SourceEntry list \<Rightarrow> 'w \<Rightarrow> SourceQuote list" where
  "quotes_of R e taker_token maker_token amount [] w = []"
| "quotes_of R e taker_token maker_token amount (x # xs) w =
    (case try_quote R e (se_address x) taker_token maker_token amount w of
       Some q \<Rightarrow> \<lparr>sq_source = se_address x, sq_kind = se_kind x, sq_maker_amount = q\<rparr> #
         quotes_of R e taker_token maker_token amount xs w
     | None \<Rightarrow> quotes_of R e taker_token maker_token amount xs w)"

definition router_quote :: "'w route_host \<Rightarrow> env \<Rightarrow> address \<Rightarrow> address \<Rightarrow> int \<Rightarrow> router \<Rightarrow> 'w \<Rightarrow> SourceQuote list" where
  "router_quote R e taker_token maker_token amount s w = quotes_of R e taker_token maker_token amount (sources s) w"

fun best_of :: "SourceQuote option \<Rightarrow> SourceQuote list \<Rightarrow> SourceQuote option" where
  "best_of best [] = best"
| "best_of best (q # qs) =
    best_of (if (case best of None \<Rightarrow> True | Some b \<Rightarrow> sq_maker_amount b < sq_maker_amount q) then Some q else best) qs"

definition best_quote :: "'w route_host \<Rightarrow> env \<Rightarrow> address \<Rightarrow> address \<Rightarrow> int \<Rightarrow> router \<Rightarrow> 'w \<Rightarrow> SourceQuote option" where
  "best_quote R e taker_token maker_token amount s w =
    best_of None (router_quote R e taker_token maker_token amount s w)"

subsection \<open>Checking a route\<close>

definition check_request :: "router \<Rightarrow> Leg list \<Rightarrow> address \<Rightarrow> address \<Rightarrow> int \<Rightarrow> (RouterError, unit) res" where
  "check_request s route taker_token maker_token min_out =
    and_then (panic_if (is_paused s) R_Paused) (\<lambda>_.
    and_then (panic_if (route = []) R_EmptyRoute) (\<lambda>_.
      panic_if (min_out \<le> 0 \<or> taker_token = maker_token) R_InvalidAmount))"

definition leg_terms :: "SignedOrder \<Rightarrow> address \<times> address \<times> address option" where
  "leg_terms order = (case order of
      O_Rfq x \<Rightarrow> (ro_taker_token x, ro_maker_token x, ro_taker x)
    | O_Fixed x \<Rightarrow> (fx_taker_token x, fx_maker_token x, fx_taker x))"

definition is_routed :: "address option \<Rightarrow> address \<Rightarrow> (RouterError, bool) res" where
  "is_routed leg_taker taker = (case leg_taker of
      None \<Rightarrow> Inr True
    | Some t \<Rightarrow> if t = taker then Inr False else Inl (Err R_LegTakerMismatch))"

definition validate_signed_leg :: "RfqLeg \<Rightarrow> address \<Rightarrow> address \<Rightarrow> address \<Rightarrow> (RouterError, int \<times> bool) res" where
  "validate_signed_leg leg taker taker_token maker_token =
    (case leg_terms (rl_order leg) of (leg_in, leg_out, leg_taker) \<Rightarrow>
      and_then (panic_if (leg_in \<noteq> taker_token \<or> leg_out \<noteq> maker_token) R_TokenMismatch) (\<lambda>_.
      and_then (is_routed leg_taker taker) (\<lambda>routed.
      and_then (panic_if (length (rl_taker_signature leg) \<noteq> (if routed then 0 else 1)) R_LegSignatureMismatch) (\<lambda>_.
        Inr (rl_taker_amount leg, routed)))))"

definition validate_source_leg :: "router \<Rightarrow> AggregatorLeg \<Rightarrow> SourceKind \<Rightarrow> (RouterError, int) res" where
  "validate_source_leg s leg k =
    and_then (panic_if (source_kind_of s (al_aggregator leg) \<noteq> Some k) R_SourceNotRegistered) (\<lambda>_.
    and_then (panic_if (al_min_maker_amount leg \<le> 0) R_InvalidAmount) (\<lambda>_.
      Inr (al_taker_amount leg)))"

definition validate_leg :: "router \<Rightarrow> Leg \<Rightarrow> address \<Rightarrow> address \<Rightarrow> address \<Rightarrow> (RouterError, int \<times> bool) res" where
  "validate_leg s leg taker taker_token maker_token =
    and_then (case leg of
        L_Rfq l \<Rightarrow> validate_signed_leg l taker taker_token maker_token
      | L_Dex l \<Rightarrow> and_then (validate_source_leg s l S_Dex) (\<lambda>x. Inr (x, True))
      | L_Facility l \<Rightarrow> and_then (validate_source_leg s l S_Facility) (\<lambda>x. Inr (x, False))) (\<lambda>(amount, routed).
    and_then (panic_if (amount \<le> 0) R_InvalidAmount) (\<lambda>_.
      Inr (amount, routed)))"

fun plan :: "router \<Rightarrow> Leg list \<Rightarrow> address \<Rightarrow> address \<Rightarrow> address \<Rightarrow> int \<Rightarrow> int \<Rightarrow> (RouterError, int \<times> int) res" where
  "plan s [] taker taker_token maker_token declared to_pull = Inr (declared, to_pull)"
| "plan s (leg # legs) taker taker_token maker_token declared to_pull =
    and_then (validate_leg s leg taker taker_token maker_token) (\<lambda>(amount, routed).
    and_then (i128_add declared amount) (\<lambda>declared.
    and_then (if routed then i128_add to_pull amount else Inr to_pull) (\<lambda>to_pull.
      plan s legs taker taker_token maker_token declared to_pull)))"

subsection \<open>Settling a route\<close>

definition router_pull :: "'w host \<Rightarrow> env \<Rightarrow> address \<Rightarrow> address \<Rightarrow> int \<Rightarrow> int \<Rightarrow> 'w \<Rightarrow> (RouterError, 'w) res" where
  "router_pull H e tok taker amount held w =
    (if amount \<le> 0 then Inr w
     else
       let me = current_contract e in
       and_then (token_transfer_from H e tok me taker me amount w) (\<lambda>w.
       and_then (i128_sub (tk_balance H tok me w) held) (\<lambda>got.
       and_then (panic_if (got < amount) R_InputShortfall) (\<lambda>_. Inr w))))"

definition forward :: "'w host \<Rightarrow> env \<Rightarrow> address \<Rightarrow> address \<Rightarrow> int \<Rightarrow> 'w \<Rightarrow> (RouterError, 'w) res" where
  "forward H e tok to held w =
    and_then (i128_sub (tk_balance H tok (current_contract e) w) held) (\<lambda>gained.
      if 0 < gained then token_transfer H e tok (current_contract e) to gained w else Inr w)"

definition check_result :: "RouteResult \<Rightarrow> int \<Rightarrow> int \<Rightarrow> (RouterError, unit) res" where
  "check_result result min_out declared =
    and_then (panic_if (rr_amount_out result < min_out) R_BelowMinOut) (\<lambda>_.
      panic_if (declared < rr_taker_spent result) R_OverSpent)"

definition router_submit :: "'w host \<Rightarrow> 'w route_host \<Rightarrow> env \<Rightarrow> RfqLeg \<Rightarrow> address \<Rightarrow> router \<Rightarrow> 'w \<Rightarrow> (RouterError, 'w) res" where
  "router_submit H R e leg taker_token s w =
    and_then (settlement s) (\<lambda>st.
      let me = current_contract e;
          taker_signature = (case rl_taker_signature leg of [] \<Rightarrow> None | sig # _ \<Rightarrow> Some sig) in
      and_then (if taker_signature = None
                then token_approve H e taker_token me st (rl_taker_amount leg) (ledger_sequence e) w
                else Inr w) (\<lambda>w.
      and_then (call_result (case rl_order leg of
          O_Rfq x \<Rightarrow> st_fill_rfq R (calling e st) st x (rl_maker_signature leg) taker_signature me (rl_taker_amount leg) w
        | O_Fixed x \<Rightarrow> st_fill_fixed R (calling e st) st x (rl_maker_signature leg) taker_signature me (rl_taker_amount leg) w))
        (\<lambda>(_, w). Inr w)))"

definition router_draw :: "'w host \<Rightarrow> 'w route_host \<Rightarrow> env \<Rightarrow> AggregatorLeg \<Rightarrow> address \<Rightarrow> address \<Rightarrow> 'w \<Rightarrow> (RouterError, 'w) res" where
  "router_draw H R e leg taker_token maker_token w =
    (let me = current_contract e; before = tk_balance H maker_token me w in
     and_then (call_result (ag_fill R (calling e (al_aggregator leg)) (al_aggregator leg) me taker_token maker_token
         (al_taker_amount leg) (al_min_maker_amount leg) (al_data leg) w)) (\<lambda>(_, w).
     and_then (i128_sub (tk_balance H maker_token me w) before) (\<lambda>got.
     and_then (panic_if (got < al_min_maker_amount leg) R_SourceUnderDelivered) (\<lambda>_. Inr w))))"

definition execute :: "'w host \<Rightarrow> 'w route_host \<Rightarrow> env \<Rightarrow> address \<Rightarrow> address \<Rightarrow> Leg \<Rightarrow> router \<Rightarrow> 'w \<Rightarrow> (RouterError, 'w) res" where
  "execute H R e taker_token maker_token leg s w = (case leg of
      L_Rfq l \<Rightarrow> router_submit H R e l taker_token s w
    | L_Dex l \<Rightarrow>
        and_then (token_transfer H e taker_token (current_contract e) (al_aggregator l) (al_taker_amount l) w) (\<lambda>w.
          router_draw H R e l taker_token maker_token w)
    | L_Facility l \<Rightarrow> router_draw H R e l taker_token maker_token w)"

fun execute_all :: "'w host \<Rightarrow> 'w route_host \<Rightarrow> env \<Rightarrow> address \<Rightarrow> address \<Rightarrow> Leg list \<Rightarrow> router \<Rightarrow> 'w \<Rightarrow> (RouterError, 'w) res" where
  "execute_all H R e taker_token maker_token [] s w = Inr w"
| "execute_all H R e taker_token maker_token (leg # legs) s w =
    and_then (execute H R e taker_token maker_token leg s w) (\<lambda>w.
      execute_all H R e taker_token maker_token legs s w)"

definition router_fill :: "'w host \<Rightarrow> 'w route_host \<Rightarrow> env \<Rightarrow> address \<Rightarrow> address \<Rightarrow> address \<Rightarrow> Leg list \<Rightarrow> int \<Rightarrow> router \<Rightarrow> 'w \<Rightarrow>
    (RouterError, RouteResult \<times> 'w) res" where
  "router_fill H R e taker taker_token maker_token route min_out s w =
    and_then (require_auth e taker) (\<lambda>_.
    and_then (check_request s route taker_token maker_token min_out) (\<lambda>_.
    and_then (plan s route taker taker_token maker_token 0 0) (\<lambda>(declared, to_pull).
      let me = current_contract e;
          opening = \<lparr>op_held_in = tk_balance H taker_token me w, op_held_out = tk_balance H maker_token me w,
                     op_taker_in = tk_balance H taker_token taker w, op_taker_out = tk_balance H maker_token taker w\<rparr> in
      and_then (router_pull H e taker_token taker to_pull (op_held_in opening) w) (\<lambda>w.
      and_then (execute_all H R e taker_token maker_token route s w) (\<lambda>w.
      and_then (forward H e maker_token taker (op_held_out opening) w) (\<lambda>w.
      and_then (forward H e taker_token taker (op_held_in opening) w) (\<lambda>w.
      and_then (i128_sub (op_taker_in opening) (tk_balance H taker_token taker w)) (\<lambda>spent.
      and_then (i128_sub (tk_balance H maker_token taker w) (op_taker_out opening)) (\<lambda>out.
        let result = \<lparr>rr_taker_spent = spent, rr_amount_out = out\<rparr> in
        and_then (check_result result min_out declared) (\<lambda>_.
          Inr (result, w)))))))))))"

end
