(* ===== verification/Router_Props.thy ===== *)
theory Router_Props
  imports Router Ledger
begin

text \<open>
  What the router guarantees: a settled route respects the taker's bounds, measured on the taker's own balances;
  every leg was checked before anything moved; the router keeps nothing; the best quote is the best; and the
  registry of sources is a map from addresses to kinds.
\<close>

definition leg_amount :: "Leg \<Rightarrow> int" where
  "leg_amount leg = (case leg of L_Rfq l \<Rightarrow> rl_taker_amount l | L_Dex l \<Rightarrow> al_taker_amount l | L_Facility l \<Rightarrow> al_taker_amount l)"

text \<open>
  A leg that may be settled for \<open>taker\<close>: a bid on the right pair that names nobody and carries no taker signature,
  or names the taker and carries one; or a source registered for that kind of leg.
\<close>

definition leg_ok :: "router \<Rightarrow> address \<Rightarrow> address \<Rightarrow> address \<Rightarrow> Leg \<Rightarrow> bool" where
  "leg_ok s taker taker_token maker_token leg \<longleftrightarrow> 0 < leg_amount leg \<and> (case leg of
      L_Rfq l \<Rightarrow> (\<exists>who. leg_terms (rl_order l) = (taker_token, maker_token, who) \<and>
        (who = None \<and> rl_taker_signature l = [] \<or> who = Some taker \<and> length (rl_taker_signature l) = 1))
    | L_Dex l \<Rightarrow> source_kind_of s (al_aggregator l) = Some S_Dex \<and> 0 < al_min_maker_amount l
    | L_Facility l \<Rightarrow> source_kind_of s (al_aggregator l) = Some S_Facility \<and> 0 < al_min_maker_amount l)"

lemma validate_leg_Inr:
  assumes "validate_leg s leg taker i j = Inr (x, routed)"
  shows "leg_ok s taker i j leg" "x = leg_amount leg"
  using assms
  by (auto simp: validate_leg_def validate_signed_leg_def validate_source_leg_def is_routed_def leg_ok_def leg_amount_def rs
      not_le split: Leg.splits prod.splits option.splits if_splits)

lemma plan_Inr:
  "plan s legs taker i j d p = Inr (declared, to_pull) \<Longrightarrow>
     (\<forall>leg \<in> set legs. leg_ok s taker i j leg) \<and> declared = d + (\<Sum>leg\<leftarrow>legs. leg_amount leg)"
proof (induction legs arbitrary: d p)
  case Nil
  then show ?case by simp
next
  case (Cons leg legs)
  then obtain x routed p' where v: "validate_leg s leg taker i j = Inr (x, routed)"
    and "plan s legs taker i j (d + x) p' = Inr (declared, to_pull)"
    by (auto simp: and_then_Inr_iff i128_ops_Inr_iff)
  from Cons.IH [OF this(2)] validate_leg_Inr [OF v] show ?case by simp
qed

lemma router_fill_Inr:
  assumes "router_fill H R e taker i j route min_out s w = Inr (res, w')"
  obtains declared to_pull w1 w2 w3 where "authorised e taker" "\<not> is_paused s" "route \<noteq> []" "0 < min_out" "i \<noteq> j"
    "plan s route taker i j 0 0 = Inr (declared, to_pull)"
    "router_pull H e i taker to_pull (tk_balance H i (current_contract e) w) w = Inr w1"
    "execute_all H R e i j route s w1 = Inr w2"
    "forward H e j taker (tk_balance H j (current_contract e) w) w2 = Inr w3"
    "forward H e i taker (tk_balance H i (current_contract e) w) w3 = Inr w'"
    "rr_taker_spent res = tk_balance H i taker w - tk_balance H i taker w'"
    "rr_amount_out res = tk_balance H j taker w' - tk_balance H j taker w"
    "min_out \<le> rr_amount_out res" "rr_taker_spent res \<le> declared"
  using assms unfolding router_fill_def Let_def
  by (auto simp: and_then_Inr_iff require_auth_Inr_iff check_request_def check_result_def panic_if_Inr_iff i128_ops_Inr_iff
      not_le not_less intro: that)

lemma forward_keeps_opening:
  assumes "sep41_host H" "forward H e tok to held w = Inr w'" "to \<noteq> current_contract e"
  shows "tk_balance H tok (current_contract e) w' \<le> held" "t \<noteq> tok \<Longrightarrow> tk_balance H t c w' = tk_balance H t c w"
proof -
  let ?me = "current_contract e"
  let ?gain = "tk_balance H tok ?me w - held"
  have "tk_balance H tok ?me w' \<le> held \<and> (t \<noteq> tok \<longrightarrow> tk_balance H t c w' = tk_balance H t c w)"
  proof (cases "0 < ?gain")
    case True
    with assms(2) have tr: "token_transfer H e tok ?me to ?gain w = (Inr w' :: (RouterError, _) res)"
      by (auto simp: forward_def rs)
    note mv = sep41_host.token_transfer_moves(4) [OF assms(1) tr]
    show ?thesis using mv [of tok ?me] mv [of t c] assms(3) by simp
  next
    case False
    with assms(2) show ?thesis by (auto simp: forward_def rs)
  qed
  then show "tk_balance H tok ?me w' \<le> held" "t \<noteq> tok \<Longrightarrow> tk_balance H t c w' = tk_balance H t c w" by auto
qed

lemma best_of_spec:
  "(case best_of b qs of
      None \<Rightarrow> b = None \<and> qs = []
    | Some q \<Rightarrow> (q \<in> set qs \<or> b = Some q) \<and> (\<forall>x \<in> set qs. sq_maker_amount x \<le> sq_maker_amount q) \<and>
        (\<forall>x. b = Some x \<longrightarrow> sq_maker_amount x \<le> sq_maker_amount q))"
proof (induction qs arbitrary: b)
  case Nil
  then show ?case by (cases b) auto
next
  case (Cons q qs)
  let ?b = "if (case b of None \<Rightarrow> True | Some b \<Rightarrow> sq_maker_amount b < sq_maker_amount q) then Some q else b"
  show ?case using Cons.IH [of ?b] by (cases b) (auto split: option.splits if_splits)
qed

lemma quotes_of_mem:
  "q \<in> set (quotes_of R e i j x xs w) \<longleftrightarrow> (\<exists>en \<in> set xs. sq_source q = se_address en \<and> sq_kind q = se_kind en \<and>
     try_quote R e (se_address en) i j x w = Some (sq_maker_amount q))"
  by (induction xs) (auto split: option.splits)

subsection \<open>The registry\<close>

definition kind_in :: "SourceEntry list \<Rightarrow> address \<Rightarrow> SourceKind option" where
  "kind_in xs a = map_option se_kind (find (\<lambda>x. se_address x = a) xs)"

lemma kind_in_simps [simp]:
  "kind_in [] a = None"
  "kind_in (x # xs) a = (if se_address x = a then Some (se_kind x) else kind_in xs a)"
  by (simp_all add: kind_in_def)

lemma kind_in_None: "kind_in xs a = None \<longleftrightarrow> a \<notin> se_address ` set xs"
  by (induction xs) auto

lemma source_index_None: "source_index xs a = None \<longleftrightarrow> a \<notin> se_address ` set xs"
  by (induction xs) auto

lemma kind_in_append:
  "source_index xs a = None \<Longrightarrow> kind_in (xs @ [\<lparr>se_address = a, se_kind = k\<rparr>]) = (kind_in xs)(a \<mapsto> k)"
  by (induction xs) (auto simp: fun_eq_iff)

lemma kind_in_update:
  "source_index xs a = Some i \<Longrightarrow> kind_in (xs[i := \<lparr>se_address = a, se_kind = k\<rparr>]) = (kind_in xs)(a \<mapsto> k) \<and>
     map se_address (xs[i := \<lparr>se_address = a, se_kind = k\<rparr>]) = map se_address xs"
  by (induction xs arbitrary: i) (auto simp: fun_eq_iff split: if_splits)

lemma kind_in_remove:
  "source_index xs a = Some i \<Longrightarrow> distinct (map se_address xs) \<Longrightarrow>
     kind_in (remove_at i xs) = (kind_in xs)(a := None) \<and> distinct (map se_address (remove_at i xs)) \<and>
     set (remove_at i xs) \<subseteq> set xs"
proof (induction xs arbitrary: i)
  case Nil
  then show ?case by simp
next
  case (Cons x xs)
  show ?case
  proof (cases "se_address x = a")
    case True
    with Cons.prems have "kind_in xs a = None" by (simp add: kind_in_None)
    with True Cons.prems show ?thesis by (auto simp: remove_at_def fun_eq_iff)
  next
    case False
    with Cons.prems obtain j where j: "source_index xs a = Some j" "i = Suc j" by auto
    have "remove_at i (x # xs) = x # remove_at j xs" by (simp add: j remove_at_def)
    with Cons.IH [OF j(1)] Cons.prems False show ?thesis by (auto simp: fun_eq_iff)
  qed
qed

lemma source_kind_of_kind_in: "source_kind_of s = kind_in (sources s)"
  by (simp add: source_kind_of_def kind_in_def fun_eq_iff)

subsection \<open>A concrete route\<close>

text \<open>A desk that pays the minimum out of its own balance, whatever it is asked.\<close>

definition desk_host :: "ledger route_host" where
  "desk_host = \<lparr>st_fill_rfq = (\<lambda>_ _ _ _ _ _ _ _. None), st_fill_fixed = (\<lambda>_ _ _ _ _ _ _ _. None),
     ag_quote = (\<lambda>_ a _ _ x _. Some (if a = bob then x - 1 else x)),
     ag_fill = (\<lambda>e a r i j x m d w. map_option (Pair m) (tk_transfer ledger_host (calling e j) j a r m w))\<rparr>"

definition demo_router :: router where
  "demo_router = router_empty\<lparr>ru_admin := Some admin_addr, ru_settlement := Some carol,
     ru_sources := Some [\<lparr>se_address = bob, se_kind = S_Dex\<rparr>, \<lparr>se_address = carol, se_kind = S_Facility\<rparr>]\<rparr>"

definition demo_route :: "Leg list" where
  "demo_route = [L_Dex \<lparr>al_aggregator = bob, al_taker_amount = 100, al_min_maker_amount = 90, al_data = []\<rparr>]"

lemma demo_route_settles:
  "\<exists>w. router_fill ledger_host desk_host (demo_env 5) alice token_a token_b demo_route 80 demo_router demo_ledger =
     Inr (\<lparr>rr_taker_spent = 100, rr_amount_out = 90\<rparr>, w)"
  by (simp add: router_fill_def check_request_def is_paused_def demo_router_def router_empty_def demo_route_def
      validate_leg_def validate_source_leg_def source_kind_of_def sources_def router_pull_def execute_def router_draw_def
      forward_def check_result_def desk_host_def require_auth_calling ledger_eval arith_defs width_defs Let_def demo_defs)

subsection \<open>Properties\<close>

text \<open>
  C22 (safety). A settled route respects what the taker signed. The taker authorised it, the two tokens differ, and
  every leg passed its checks before anything moved: a positive amount, the right pair, a bid that names nobody
  else, a source registered for its kind. What the taker's own balances lost of the input is at most the sum of
  the legs' amounts, and what they gained of the output is at least \<open>min_out\<close>, whatever the settlement contract,
  the aggregators and the tokens do.
\<close>

theorem router_fill_respects_taker:
  assumes "router_fill H R e taker taker_token maker_token route min_out s w = Inr (res, w')"
  shows "authorised e taker \<and> \<not> is_paused s \<and> route \<noteq> [] \<and> taker_token \<noteq> maker_token \<and>
    (\<forall>leg \<in> set route. leg_ok s taker taker_token maker_token leg) \<and>
    0 < min_out \<and> min_out \<le> tk_balance H maker_token taker w' - tk_balance H maker_token taker w \<and>
    tk_balance H taker_token taker w - tk_balance H taker_token taker w' \<le> (\<Sum>leg\<leftarrow>route. leg_amount leg) \<and>
    res = \<lparr>rr_taker_spent = tk_balance H taker_token taker w - tk_balance H taker_token taker w',
           rr_amount_out = tk_balance H maker_token taker w' - tk_balance H maker_token taker w\<rparr>"
  using assms
proof (rule router_fill_Inr)
  fix declared to_pull
  assume "plan s route taker taker_token maker_token 0 0 = Inr (declared, to_pull)"
    "rr_taker_spent res = tk_balance H taker_token taker w - tk_balance H taker_token taker w'"
    "rr_amount_out res = tk_balance H maker_token taker w' - tk_balance H maker_token taker w"
    "min_out \<le> rr_amount_out res" "rr_taker_spent res \<le> declared"
    and rest: "authorised e taker" "\<not> is_paused s" "route \<noteq> []" "0 < min_out" "taker_token \<noteq> maker_token"
  with plan_Inr [OF this(1)] show ?thesis by (cases res) simp
qed

theorem router_fill_respects_taker_witness:
  "\<exists>w. router_fill ledger_host desk_host (demo_env 5) alice token_a token_b demo_route 80 demo_router demo_ledger =
     Inr (\<lparr>rr_taker_spent = 100, rr_amount_out = 90\<rparr>, w) \<and>
     80 \<le> tk_balance ledger_host token_b alice w - tk_balance ledger_host token_b alice demo_ledger"
proof -
  from demo_route_settles obtain w where
    f: "router_fill ledger_host desk_host (demo_env 5) alice token_a token_b demo_route 80 demo_router demo_ledger =
     Inr (\<lparr>rr_taker_spent = 100, rr_amount_out = 90\<rparr>, w)" by blast
  with router_fill_respects_taker [OF f] show ?thesis by blast
qed

text \<open>
  The router keeps nothing. On standard tokens, after any settled route the router holds no more of
  either token than before it, whatever the settlement contract and the aggregators paid or left unspent: the
  rest is with the taker.
\<close>

theorem router_keeps_nothing:
  assumes "sep41_host H" "router_fill H R e taker taker_token maker_token route min_out s w = Inr (res, w')"
    and "taker \<noteq> current_contract e"
  shows "tk_balance H taker_token (current_contract e) w' \<le> tk_balance H taker_token (current_contract e) w \<and>
    tk_balance H maker_token (current_contract e) w' \<le> tk_balance H maker_token (current_contract e) w"
  using assms(2)
proof (rule router_fill_Inr)
  fix w2 w3
  assume f: "forward H e maker_token taker (tk_balance H maker_token (current_contract e) w) w2 = Inr w3"
    "forward H e taker_token taker (tk_balance H taker_token (current_contract e) w) w3 = Inr w'"
    and ne: "taker_token \<noteq> maker_token"
  have "tk_balance H maker_token (current_contract e) w' = tk_balance H maker_token (current_contract e) w3"
    using forward_keeps_opening(2) [OF assms(1) f(2) assms(3), of maker_token "current_contract e"] ne by simp
  with forward_keeps_opening(1) [OF assms(1) f(1) assms(3)] forward_keeps_opening(1) [OF assms(1) f(2) assms(3)]
  show ?thesis by simp
qed

theorem router_keeps_nothing_witness:
  "\<exists>w. router_fill ledger_host desk_host (demo_env 5) alice token_a token_b demo_route 80 demo_router demo_ledger =
     Inr (\<lparr>rr_taker_spent = 100, rr_amount_out = 90\<rparr>, w) \<and>
     tk_balance ledger_host token_b this_contract w \<le> tk_balance ledger_host token_b this_contract demo_ledger"
proof -
  from demo_route_settles obtain w where
    f: "router_fill ledger_host desk_host (demo_env 5) alice token_a token_b demo_route 80 demo_router demo_ledger =
     Inr (\<lparr>rr_taker_spent = 100, rr_amount_out = 90\<rparr>, w)" by blast
  with router_keeps_nothing [OF ledger.sep41_host_axioms f] show ?thesis by auto
qed

text \<open>
  The best quote is the best: \<open>best_quote\<close> returns a quote of a registered source, tagged with its
  kind, positive, and at least as high as that of every registered source that answers; it returns none exactly
  when none answers with a positive amount.
\<close>

theorem best_quote_is_best:
  "(case best_quote R e i j x s w of
      None \<Rightarrow> \<forall>en \<in> set (sources s). try_quote R e (se_address en) i j x w = None
    | Some q \<Rightarrow> 0 < sq_maker_amount q \<and>
        (\<exists>en \<in> set (sources s). sq_source q = se_address en \<and> sq_kind q = se_kind en \<and>
           ag_quote R (calling e (se_address en)) (se_address en) i j x w = Some (sq_maker_amount q)) \<and>
        (\<forall>en y. en \<in> set (sources s) \<longrightarrow> try_quote R e (se_address en) i j x w = Some y \<longrightarrow> y \<le> sq_maker_amount q))"
proof (cases "best_quote R e i j x s w")
  case None
  with best_of_spec [of None "router_quote R e i j x s w"] have none: "router_quote R e i j x s w = []"
    by (simp add: best_quote_def)
  have "try_quote R e (se_address en) i j x w = None" if "en \<in> set (sources s)" for en
  proof (rule ccontr)
    assume "try_quote R e (se_address en) i j x w \<noteq> None"
    with that have "\<exists>q. q \<in> set (router_quote R e i j x s w)"
      unfolding router_quote_def quotes_of_mem
      by (intro exI [of _ "\<lparr>sq_source = se_address en, sq_kind = se_kind en,
          sq_maker_amount = the (try_quote R e (se_address en) i j x w)\<rparr>"]) auto
    with none show False by simp
  qed
  with None show ?thesis by simp
next
  case (Some q)
  with best_of_spec [of None "router_quote R e i j x s w"]
  have mem: "q \<in> set (router_quote R e i j x s w)"
    and top: "\<forall>y \<in> set (router_quote R e i j x s w). sq_maker_amount y \<le> sq_maker_amount q"
    by (simp_all add: best_quote_def)
  have "y \<le> sq_maker_amount q" if "en \<in> set (sources s)" "try_quote R e (se_address en) i j x w = Some y" for en y
  proof -
    have "\<lparr>sq_source = se_address en, sq_kind = se_kind en, sq_maker_amount = y\<rparr> \<in> set (router_quote R e i j x s w)"
      using that by (auto simp: router_quote_def quotes_of_mem)
    with top show ?thesis by fastforce
  qed
  with Some mem show ?thesis
    by (fastforce simp: router_quote_def quotes_of_mem try_quote_def split: option.splits if_splits)
qed

theorem best_quote_is_best_witness:
  "\<exists>q y. best_quote desk_host (demo_env 5) token_a token_b 100 demo_router demo_ledger = Some q \<and> sq_source q = carol \<and>
     try_quote desk_host (demo_env 5) bob token_a token_b 100 demo_ledger = Some y \<and> y \<le> sq_maker_amount q"
proof -
  have best: "best_quote desk_host (demo_env 5) token_a token_b 100 demo_router demo_ledger =
     Some \<lparr>sq_source = carol, sq_kind = S_Facility, sq_maker_amount = 100\<rparr>"
    by (simp add: best_quote_def router_quote_def sources_def demo_router_def try_quote_def desk_host_def)
  have "try_quote desk_host (demo_env 5) bob token_a token_b 100 demo_ledger = Some 99"
    "\<lparr>se_address = bob, se_kind = S_Dex\<rparr> \<in> set (sources demo_router)"
    by (simp_all add: sources_def demo_router_def try_quote_def desk_host_def)
  with best best_quote_is_best [where R = desk_host and e = "demo_env 5" and i = token_a and j = token_b and x = 100
      and s = demo_router and w = demo_ledger] show ?thesis by fastforce
qed

text \<open>
  The registry is a map from addresses to kinds. After \<open>register_source\<close> the kind looked up for that
  source is the one registered, or none if it was withdrawn; the kind of every other source is as before; no
  source is listed twice; only the admin can do it.
\<close>

theorem registry_roundtrip:
  assumes "distinct (map se_address (sources s))" "register_source e a k allowed s = Inr s'"
  shows "source_kind_of s' = (source_kind_of s)(a := if allowed then Some k else None) \<and>
    distinct (map se_address (sources s')) \<and> (\<exists>admin. ru_admin s = Some admin \<and> authorised e admin)"
proof -
  let ?xs = "sources s" and ?en = "\<lparr>se_address = a, se_kind = k\<rparr>"
  from assms(2) have auth: "\<exists>admin. ru_admin s = Some admin \<and> authorised e admin"
    and s': "s' = (case (source_index ?xs a, allowed) of
             (None, True) \<Rightarrow> s\<lparr>ru_sources := Some (?xs @ [?en])\<rparr>
           | (Some i, True) \<Rightarrow> s\<lparr>ru_sources := Some (?xs[i := ?en])\<rparr>
           | (Some i, False) \<Rightarrow> s\<lparr>ru_sources := Some (remove_at i ?xs)\<rparr>
           | (None, False) \<Rightarrow> s)"
    by (auto simp: register_source_def admin_auth_def router_admin_def rs Let_def)
  have "kind_in (sources s') = (kind_in ?xs)(a := if allowed then Some k else None) \<and> distinct (map se_address (sources s'))"
  proof (cases "source_index ?xs a")
    case None
    then have "kind_in ?xs a = None" "a \<notin> se_address ` set ?xs"
      by (simp_all add: kind_in_None source_index_None)
    with None assms(1) kind_in_append [OF None, of k] show ?thesis
      by (cases allowed) (simp_all add: s' fun_upd_idem sources_def)
  next
    case (Some i)
    with assms(1) kind_in_update [OF Some, of k] kind_in_remove [OF Some assms(1)] show ?thesis
      by (cases allowed) (simp_all add: s' sources_def)
  qed
  with auth show ?thesis by (simp add: source_kind_of_kind_in)
qed

theorem registry_roundtrip_witness:
  "\<exists>s'. register_source (demo_env 1) bob S_Facility True demo_router = Inr s' \<and> source_kind_of s' bob = Some S_Facility"
proof -
  have "distinct (map se_address (sources demo_router))" by (simp add: demo_router_def sources_def)
  moreover have "\<exists>s'. register_source (demo_env 1) bob S_Facility True demo_router = Inr s'"
    by (simp add: register_source_def admin_auth_def router_admin_def demo_router_def Let_def)
  then obtain s' where "register_source (demo_env 1) bob S_Facility True demo_router = Inr s'" by blast
  ultimately show ?thesis using registry_roundtrip [of demo_router "demo_env 1" bob S_Facility True s'] by auto
qed

end
