(* ===== verification/Wire.thy ===== *)
theory Wire
  imports Orders
begin

text \<open>
  \<open>contracts/crosschain_settle/src/wire.rs\<close>: the messages the cross-chain settlement contracts exchange, as
  32-byte ABI words. A \<open>BytesN<32>\<close> is the 256-bit word of its big-endian bytes, so the word that carries a
  \<open>u128\<close> in its low 16 bytes is that number. \<open>Bytes::slice\<close> out of range traps. The XDR decoder behind
  \<open>Address::from_xdr\<close> belongs to the SDK: it is the argument \<open>from_xdr\<close>, and \<open>wire_laws\<close> says that it inverts
  the serialiser. Shown here: every field of a FILL comes back from its bytes, whatever signature follows, so
  the bytes determine the bid; and an address survives the trip as a key and a flag.
\<close>

definition FILL :: nat where "FILL = 0"
definition FAIL :: nat where "FAIL = 1"
definition PAID :: nat where "PAID = 2"
definition PAYOUT :: nat where "PAYOUT = 3"
definition BID_AT :: nat where "BID_AT = 96"
definition SIG_AT :: nat where "SIG_AT = 416"

lemmas wire_consts = FILL_def FAIL_def PAID_def PAYOUT_def BID_AT_def SIG_AT_def

record Bid =
  bd_maker :: bytes32
  bd_maker_is_contract :: bool
  bd_stable :: bytes32
  bd_max_amount :: int
  bd_maker_bps_per_day :: nat
  bd_delivery :: nat
  bd_recipient :: bytes32
  bd_recipient_is_contract :: bool
  bd_deadline :: nat
  bd_salt :: bytes32

text \<open>The \<open>as\<close> casts between \<open>i128\<close>, \<open>u128\<close> and \<open>bool\<close>, which wrap.\<close>

definition as_u128 :: "int \<Rightarrow> nat" where "as_u128 x = nat (x mod 2 ^ 128)"
definition as_i128 :: "nat \<Rightarrow> int" where
  "as_i128 n = (if n mod 2 ^ 128 < 2 ^ 127 then int (n mod 2 ^ 128) else int (n mod 2 ^ 128) - 2 ^ 128)"
definition bool_as :: "bool \<Rightarrow> nat" where "bool_as b = (if b then 1 else 0)"

definition uint_word :: "nat \<Rightarrow> bytes32" where "uint_word v = word_of_nat v"

definition tail :: "bytes32 \<Rightarrow> nat" where "tail w = unat w mod 2 ^ 128"

definition words_bytes :: "bytes32 list \<Rightarrow> byte list" where
  "words_bytes ws = concat (map bytes_of ws)"

definition word_at :: "byte list \<Rightarrow> nat \<Rightarrow> ('e, bytes32) res" where
  "word_at m at = (if at + 32 \<le> length m then Inr (of_bytes (take 32 (drop at m))) else Inl (Trap Unwrap))"

definition word_nth :: "byte list \<Rightarrow> nat \<Rightarrow> ('e, bytes32) res" where
  "word_nth m i = word_at m (32 * i)"

definition wire_kind :: "byte list \<Rightarrow> ('e, nat) res" where
  "wire_kind m = and_then (word_nth m 0) (\<lambda>w. Inr (as_u32 (tail w)))"

definition bid_words :: "Bid \<Rightarrow> byte list" where
  "bid_words b = words_bytes
     [bd_maker b, uint_word (bool_as (bd_maker_is_contract b)), bd_stable b, uint_word (as_u128 (bd_max_amount b)),
      uint_word (bd_maker_bps_per_day b), uint_word (bd_delivery b), bd_recipient b,
      uint_word (bool_as (bd_recipient_is_contract b)), uint_word (bd_deadline b), bd_salt b]"

definition wire_fill :: "bytes32 \<Rightarrow> int \<Rightarrow> Bid \<Rightarrow> byte list \<Rightarrow> byte list" where
  "wire_fill i amount b signature =
     words_bytes [uint_word FILL, i, uint_word (as_u128 amount)] @ bid_words b @ signature"

definition parse_bid :: "byte list \<Rightarrow> ('e, Bid option) res" where
  "parse_bid m =
    (if SIG_AT \<le> length m then
       and_then (word_at m BID_AT) (\<lambda>w0.
       and_then (word_at m (BID_AT + 32 * 1)) (\<lambda>w1.
       and_then (word_at m (BID_AT + 32 * 2)) (\<lambda>w2.
       and_then (word_at m (BID_AT + 32 * 3)) (\<lambda>w3.
       and_then (word_at m (BID_AT + 32 * 4)) (\<lambda>w4.
       and_then (word_at m (BID_AT + 32 * 5)) (\<lambda>w5.
       and_then (word_at m (BID_AT + 32 * 6)) (\<lambda>w6.
       and_then (word_at m (BID_AT + 32 * 7)) (\<lambda>w7.
       and_then (word_at m (BID_AT + 32 * 8)) (\<lambda>w8.
       and_then (word_at m (BID_AT + 32 * 9)) (\<lambda>w9.
         Inr (Some \<lparr>bd_maker = w0, bd_maker_is_contract = (tail w1 \<noteq> 0), bd_stable = w2,
           bd_max_amount = as_i128 (tail w3), bd_maker_bps_per_day = as_u32 (tail w4),
           bd_delivery = as_u32 (tail w5), bd_recipient = w6, bd_recipient_is_contract = (tail w7 \<noteq> 0),
           bd_deadline = as_u64 (int (tail w8)), bd_salt = w9\<rparr>)))))))))))
     else Inr None)"

definition about :: "nat \<Rightarrow> bytes32 \<Rightarrow> byte list" where
  "about knd i = words_bytes [uint_word knd, i]"

definition payout :: "bytes32 \<Rightarrow> bool \<Rightarrow> byte list" where
  "payout to to_is_contract = words_bytes [uint_word PAYOUT, to, uint_word (bool_as to_is_contract)]"

definition wire_key :: "crypto \<Rightarrow> address \<Rightarrow> ('e, bytes32) res" where
  "wire_key C a = (let xdr = xdr_address C a in
     if 32 \<le> length xdr then Inr (of_bytes (drop (length xdr - 32) xdr)) else Inl (Trap Overflow))"

definition is_contract :: "crypto \<Rightarrow> address \<Rightarrow> bool" where
  "is_contract C a \<longleftrightarrow> length (xdr_address C a) \<noteq> 44"

definition wire_address :: "(byte list \<Rightarrow> address option) \<Rightarrow> bytes32 \<Rightarrow> bool \<Rightarrow> ('e, address) res" where
  "wire_address from_xdr key contract =
    (let head = (if contract then [0, 0, 0, 18, 0, 0, 0, 1] else [0, 0, 0, 18, 0, 0, 0, 0, 0, 0, 0, 0]) in
     unwrap (from_xdr (head @ bytes_of key)))"

locale wire_laws = xdr_laws +
  fixes from_xdr :: "byte list \<Rightarrow> address option"
  assumes from_xdr_inverts: "from_xdr (xdr_address C a) = Some a"

subsection \<open>Words in messages\<close>

lemma length_words_bytes [simp]: "length (words_bytes ws) = 32 * length ws"
  by (induction ws) (simp_all add: words_bytes_def)

lemma words_bytes_simps [simp]:
  "words_bytes [] = []"
  "words_bytes (k # ws) = bytes_of k @ words_bytes ws"
  by (simp_all add: words_bytes_def)

lemma words_bytes_append: "words_bytes (xs @ ys) = words_bytes xs @ words_bytes ys"
  by (simp add: words_bytes_def)

lemma take_words: "i < length ws \<Longrightarrow> take 32 (drop (32 * i) (words_bytes ws @ rest)) = bytes_of (ws ! i)"
proof (induction ws arbitrary: i)
  case Nil
  then show ?case by simp
next
  case (Cons k ws)
  then show ?case by (cases i) simp_all
qed

lemma word_at_words: "i < length ws \<Longrightarrow> word_at (words_bytes ws @ rest) (32 * i) = Inr (ws ! i)"
  using take_words [of i ws rest] by (simp add: word_at_def)

lemma tail_uint_word: "v < 2 ^ 128 \<Longrightarrow> tail (uint_word v) = v"
  by (simp add: tail_def uint_word_def unat_of_nat)

lemma as_i128_as_u128: "is_i128 x \<Longrightarrow> as_i128 (as_u128 x) = x"
proof (cases "0 \<le> x")
  case True
  moreover assume "is_i128 x"
  ultimately show ?thesis by (simp add: as_i128_def as_u128_def width_defs nat_mod_distrib mod_pos_pos_trivial)
next
  case False
  moreover assume "is_i128 x"
  ultimately have bounds: "- (2 ^ 127) \<le> x" "x < 0" by (simp_all add: width_defs)
  then have "x mod 2 ^ 128 = x + 2 ^ 128"
    using mod_pos_pos_trivial [of "x + 2 ^ 128" "2 ^ 128"] by simp
  with bounds show ?thesis by (simp add: as_i128_def as_u128_def nat_less_iff)
qed

lemma as_u128_less: "as_u128 x < 2 ^ 128"
  by (simp add: as_u128_def nat_less_iff)

lemma i128_word: "is_i128 x \<Longrightarrow> as_i128 (tail (uint_word (as_u128 x))) = x"
  by (simp only: tail_uint_word [OF as_u128_less] as_i128_as_u128)

lemma bool_as_tail [simp]: "tail (uint_word (bool_as b)) \<noteq> 0 \<longleftrightarrow> b" "tail (uint_word (bool_as b)) = 0 \<longleftrightarrow> \<not> b"
  "0 < tail (uint_word (bool_as b)) \<longleftrightarrow> b"
  by (simp_all add: tail_uint_word bool_as_def)

text \<open>A bid whose numbers are of their types.\<close>

definition bid_typed :: "Bid \<Rightarrow> bool" where
  "bid_typed b \<longleftrightarrow> is_i128 (bd_max_amount b) \<and> is_u32 (bd_maker_bps_per_day b) \<and> is_u32 (bd_delivery b) \<and>
     is_u64 (bd_deadline b)"

definition fill_words :: "bytes32 \<Rightarrow> int \<Rightarrow> Bid \<Rightarrow> bytes32 list" where
  "fill_words i amount b =
     [uint_word FILL, i, uint_word (as_u128 amount), bd_maker b, uint_word (bool_as (bd_maker_is_contract b)), bd_stable b,
      uint_word (as_u128 (bd_max_amount b)), uint_word (bd_maker_bps_per_day b), uint_word (bd_delivery b),
      bd_recipient b, uint_word (bool_as (bd_recipient_is_contract b)), uint_word (bd_deadline b), bd_salt b]"

lemma wire_fill_words: "wire_fill i amount b sig = words_bytes (fill_words i amount b) @ sig"
  by (simp add: wire_fill_def bid_words_def fill_words_def)

lemma fill_word_at: "j < 13 \<Longrightarrow> word_at (wire_fill i amount b sig) (32 * j) = Inr (fill_words i amount b ! j)"
  using word_at_words [of j "fill_words i amount b" sig] by (simp add: wire_fill_words) (simp add: fill_words_def)

lemmas fill_words_at = fill_word_at [of 0] fill_word_at [of 1] fill_word_at [of 2] fill_word_at [of 3] fill_word_at [of 4]
  fill_word_at [of 5] fill_word_at [of 6] fill_word_at [of 7] fill_word_at [of 8] fill_word_at [of 9] fill_word_at [of 10]
  fill_word_at [of 11] fill_word_at [of 12]

lemma parse_bid_fill: "bid_typed b \<Longrightarrow> parse_bid (wire_fill i amount b sig) = Inr (Some b)"
proof -
  assume typed: "bid_typed b"
  then have "as_i128 (tail (uint_word (as_u128 (bd_max_amount b)))) = bd_max_amount b"
    by (simp add: bid_typed_def i128_word)
  moreover have "SIG_AT \<le> length (wire_fill i amount b sig)"
    by (simp add: wire_fill_words fill_words_def wire_consts)
  ultimately show ?thesis using typed
    by (simp add: parse_bid_def BID_AT_def fill_words_at [simplified] fill_words_def tail_uint_word
        bid_typed_def as_u32_id as_u64_id width_defs)
qed

subsection \<open>Addresses\<close>

context wire_laws
begin

lemma key_of_address: "wire_key C a = Inr (case a of Account k \<Rightarrow> k | Contract k \<Rightarrow> k)"
  by (cases a) (simp_all add: wire_key_def address_layout scval_address_def)

lemma is_contract_iff: "is_contract C a \<longleftrightarrow> (case a of Account _ \<Rightarrow> False | Contract _ \<Rightarrow> True)"
  by (cases a) (simp_all add: is_contract_def address_layout scval_address_def)

lemma address_of_key: "wire_address from_xdr k contract = Inr (if contract then Contract k else Account k)"
proof -
  have heads: "be32 18 = [0, 0, 0, 18]" "be32 (Suc 0) = [0, 0, 0, 1]" "be32 0 = [0, 0, 0, 0]"
    by (simp_all add: be32_def upt_rec)
  have "from_xdr (scval_address a) = Some a" for a
    using from_xdr_inverts [of a] by (simp add: address_layout)
  from this [of "Contract k"] this [of "Account k"] show ?thesis
    by (simp add: wire_address_def scval_address_def heads)
qed

lemma address_round_trip: "and_then (wire_key C a) (\<lambda>k. wire_address from_xdr k (is_contract C a)) = Inr a"
  by (cases a) (simp_all add: key_of_address is_contract_iff address_of_key)

end

text \<open>A decoder for the serialisation of addresses.\<close>

definition scval_parse :: "byte list \<Rightarrow> address option" where
  "scval_parse m =
    (if take 8 m = be32 18 @ be32 1 \<and> length m = 40 then Some (Contract (of_bytes (drop 8 m)))
     else if take 12 m = be32 18 @ be32 0 @ be32 0 \<and> length m = 44 then Some (Account (of_bytes (drop 12 m)))
     else None)"

interpretation plain_wire: wire_laws plain_crypto scval_parse
  by unfold_locales (auto simp: plain.address_layout scval_address_def scval_parse_def split: address.splits)

subsection \<open>Properties\<close>

text \<open>
  C40 (roundtrip). A FILL says what its sender put in it. From the bytes \<open>wire_fill\<close> builds, followed by a signature
  of any length, the receiver reads back the kind, the request's id, the amount, the bid field by field, the
  bytes the maker signed and the signature; so no two bids have the same words.
\<close>

theorem wire_fill_roundtrip:
  assumes "bid_typed b" "is_i128 amount"
  shows "(let m = wire_fill i amount b sig in
     wire_kind m = (Inr FILL :: ('e, _) res) \<and> word_nth m 1 = (Inr i :: ('e, _) res) \<and>
     and_then (word_nth m 2) (\<lambda>x. Inr (as_i128 (tail x))) = (Inr amount :: ('e, _) res) \<and>
     (parse_bid m :: ('e, _) res) = Inr (Some b) \<and> take (SIG_AT - BID_AT) (drop BID_AT m) = bid_words b \<and> drop SIG_AT m = sig) \<and>
     (\<forall>b'. bid_typed b' \<longrightarrow> bid_words b' = bid_words b \<longrightarrow> b' = b)"
proof -
  let ?m = "wire_fill i amount b sig"
  have words: "wire_kind ?m = (Inr FILL :: ('e, _) res) \<and> word_nth ?m 1 = (Inr i :: ('e, _) res) \<and>
      and_then (word_nth ?m 2) (\<lambda>x. Inr (as_i128 (tail x))) = (Inr amount :: ('e, _) res)"
    using assms(2)
    by (simp add: wire_kind_def word_nth_def fill_words_at [simplified] fill_words_def i128_word)
      (simp add: tail_uint_word FILL_def as_u32_def)
  have layout: "take (SIG_AT - BID_AT) (drop BID_AT ?m) = bid_words b \<and> drop SIG_AT ?m = sig"
    by (simp add: wire_fill_def bid_words_def wire_consts)
  have "b' = b" if "bid_typed b'" "bid_words b' = bid_words b" for b'
  proof -
    have "wire_fill 0 0 b' [] = wire_fill 0 0 b []" using that(2) by (simp add: wire_fill_def)
    then have "(Inr (Some b') :: (unit, _) res) = Inr (Some b)"
      by (simp only: parse_bid_fill [OF that(1), of 0 0 "[]", symmetric] parse_bid_fill [OF assms(1), of 0 0 "[]", symmetric])
    then show ?thesis by simp
  qed
  with words layout parse_bid_fill [OF assms(1)] show ?thesis by (simp add: Let_def)
qed

definition demo_bid :: Bid where
  "demo_bid = \<lparr>bd_maker = 2, bd_maker_is_contract = False, bd_stable = 7, bd_max_amount = 1000, bd_maker_bps_per_day = 250,
     bd_delivery = 3, bd_recipient = 2, bd_recipient_is_contract = True, bd_deadline = 5000, bd_salt = 9\<rparr>"

theorem wire_fill_roundtrip_witness:
  "(parse_bid (wire_fill 77 950 demo_bid [1, 2, 3]) :: (unit, _) res) = Inr (Some demo_bid)"
proof -
  have "bid_typed demo_bid" "is_i128 950" by (simp_all add: bid_typed_def demo_bid_def width_defs)
  from wire_fill_roundtrip [OF this, of 77 "[1, 2, 3]", where 'e = unit] show ?thesis by (simp add: Let_def)
qed

end
