(* ===== verification/Call_Verifier_Props.thy ===== *)
theory Call_Verifier_Props
  imports Call_Verifier
begin

unbundle bit_operations_syntax

text \<open>
  What the call verifier guarantees. \<open>pins\<close> says what a rule fixes of a call, \<open>cv_inv\<close> is the invariant that ties the
  index of rules to the entries; the grant behind a verified call is found in the run by \<open>run_origin\<close>.
\<close>

subsection \<open>What a rule pins\<close>

definition pins :: "Rule \<Rightarrow> address \<Rightarrow> val list \<Rightarrow> bool" where
  "pins r account args \<longleftrightarrow> length args = length (rl_template r) \<and>
     (\<forall>i < length args.
        if bit (rl_account r) i then args ! i = AddressVal account
        else bit (rl_free r) i \<or> args ! i = rl_template r ! i)"

text \<open>The template with every masked argument blanked.\<close>

definition blanked :: "32 word \<Rightarrow> nat \<Rightarrow> val list \<Rightarrow> val list" where
  "blanked m i vs = map (\<lambda>j. if bit m (i + j) then VoidVal else vs ! j) [0..<length vs]"

definition rule_ok :: "Rule \<Rightarrow> bool" where
  "rule_ok r \<longleftrightarrow> length (rl_template r) < 32 \<and> blanked (rl_free r OR rl_account r) 0 (rl_template r) = rl_template r"

lemmas mask_bit = and_exp_eq_0_iff_not_bit push_bit_of_1

lemma blanked_Cons: "blanked m i (v # vs) = (if bit m i then VoidVal else v) # blanked m (Suc i) vs"
  by (simp add: blanked_def upt_conv_Cons map_Suc_upt [symmetric] del: upt_Suc)

lemma blanked_simps [simp]: "blanked m i [] = []" "length (blanked m i vs) = length vs"
  by (simp_all add: blanked_def)

lemma blanked_blanked [simp]: "blanked m i (blanked m i vs) = blanked m i vs"
  by (induction vs arbitrary: i) (simp_all add: blanked_Cons)

lemma blank_eq: "i + length vs \<le> 32 \<Longrightarrow> blank m i vs = Inr (blanked m i vs)"
  by (induction vs arbitrary: i) (simp_all add: u32_shl_def mask_bit blanked_Cons)

lemma seen_args_eq:
  "i + length vs \<le> 32 \<Longrightarrow> seen_args r account i vs =
     Inr (if \<forall>j < length vs. bit (rl_account r) (i + j) \<longrightarrow> vs ! j = AddressVal account
          then Some (blanked (rl_free r OR rl_account r) i vs) else None)"
proof (induction vs arbitrary: i)
  case Nil
  then show ?case by simp
next
  case (Cons v vs)
  then have "seen_args r account (Suc i) vs =
     Inr (if \<forall>j < length vs. bit (rl_account r) (Suc i + j) \<longrightarrow> vs ! j = AddressVal account
          then Some (blanked (rl_free r OR rl_account r) (Suc i) vs) else None)" by simp
  with Cons.prems show ?case
    by (auto simp: u32_shl_def mask_bit blanked_Cons All_less_Suc2 Let_def)
qed

lemma matches_pins: "rule_ok r \<Longrightarrow> matches_rule r account args = Inr (pins r account args)"
proof (cases "length args = length (rl_template r)")
  case False
  then show ?thesis by (simp add: matches_rule_def pins_def)
next
  case True
  assume ok: "rule_ok r"
  let ?m = "rl_free r OR rl_account r"
  have "blanked ?m 0 args = rl_template r \<longleftrightarrow> (\<forall>i < length args. bit ?m i \<or> args ! i = rl_template r ! i)"
  proof -
    have "blanked ?m 0 (rl_template r) = rl_template r" using ok by (simp add: rule_ok_def)
    then have "blanked ?m 0 args = rl_template r \<longleftrightarrow> blanked ?m 0 args = blanked ?m 0 (rl_template r)" by simp
    also have "\<dots> \<longleftrightarrow> (\<forall>i < length args. bit ?m i \<or> args ! i = rl_template r ! i)"
      unfolding blanked_def True by auto
    finally show ?thesis .
  qed
  with True ok seen_args_eq [of 0 args r account]
  have "matches_rule r account args = Inr ((\<forall>j < length args. bit (rl_account r) j \<longrightarrow> args ! j = AddressVal account) \<and>
     (\<forall>j < length args. bit ?m j \<or> args ! j = rl_template r ! j))"
    by (simp add: matches_rule_def rule_ok_def)
  moreover have "pins r account args \<longleftrightarrow> (\<forall>j < length args. bit (rl_account r) j \<longrightarrow> args ! j = AddressVal account) \<and>
     (\<forall>j < length args. bit ?m j \<or> args ! j = rl_template r ! j)"
    using True by (auto simp: pins_def bit_or_iff)
  ultimately show ?thesis by simp
qed

subsection \<open>The index of rules\<close>

definition rule_key :: "Rule \<Rightarrow> address \<times> address \<times> symbol" where
  "rule_key r = (rl_caller r, rl_target r, rl_func r)"

definition next_of :: "call_verifier \<Rightarrow> nat" where
  "next_of s = (case cv_next s of None \<Rightarrow> 0 | Some i \<Rightarrow> i)"

definition cv_inv :: "call_verifier \<Rightarrow> bool" where
  "cv_inv s \<longleftrightarrow>
     (\<forall>c t f. \<forall>i \<in> set (rule_ids s c t f). i < next_of s \<and> (\<forall>en. cv_entries s i = Some en \<longrightarrow> rule_key (en_rule en) = (c, t, f))) \<and>
     (\<forall>i en. cv_entries s i = Some en \<longrightarrow> i < next_of s \<and> rule_ok (en_rule en))"

lemma add_rule_Inr:
  assumes "add_rule e r s = Inr (i, s')"
  shows "i = next_of s" "\<exists>a. cv_admin s = Some a \<and> authorised e a"
    "\<exists>d. cv_delay s = Some d \<and> s' = s\<lparr>cv_next := Some (Suc i),
       cv_ids := (cv_ids s)(rule_key r \<mapsto> rule_ids s (rl_caller r) (rl_target r) (rl_func r) @ [i]),
       cv_entries := (cv_entries s)(i \<mapsto> \<lparr>en_rule = r\<lparr>rl_template := blanked (rl_free r OR rl_account r) 0 (rl_template r)\<rparr>,
          en_enabled = True, en_valid_after = ledger_timestamp e + d\<rparr>)\<rparr>"
    "length (rl_template r) < 32"
proof -
  from assms have n: "length (rl_template r) < 32"
    by (auto simp: add_rule_def Let_def and_then_Inr_iff u32_shr_def split: if_splits)
  show "length (rl_template r) < 32" by (rule n)
  from assms blank_eq [of 0 "rl_template r"] n
  show "i = next_of s" "\<exists>a. cv_admin s = Some a \<and> authorised e a"
    "\<exists>d. cv_delay s = Some d \<and> s' = s\<lparr>cv_next := Some (Suc i),
       cv_ids := (cv_ids s)(rule_key r \<mapsto> rule_ids s (rl_caller r) (rl_target r) (rl_func r) @ [i]),
       cv_entries := (cv_entries s)(i \<mapsto> \<lparr>en_rule = r\<lparr>rl_template := blanked (rl_free r OR rl_account r) 0 (rl_template r)\<rparr>,
          en_enabled = True, en_valid_after = ledger_timestamp e + d\<rparr>)\<rparr>"
    by (auto simp: add_rule_def Let_def rs cv_delay_of_def put_ids_def put_entry_def rule_key_def next_of_def rule_ids_def)
qed

lemma check_role_Inr_iff [rs]:
  "check_role e caller revoking s = Inr u \<longleftrightarrow> authorised e caller \<and>
     (if revoking \<and> cv_guardian s = Some caller then True else cv_admin s = Some caller \<and> (revoking \<longrightarrow> cv_guardian s \<noteq> None))"
  by (auto simp: check_role_def rs)

lemma set_enabled_Inr:
  assumes "set_enabled e c i b s = Inr s'"
  obtains en en' where "cv_entries s i = Some en" "en_enabled en' = b" "en_rule en' = en_rule en"
    "s' = s\<lparr>cv_entries := (cv_entries s)(i \<mapsto> en')\<rparr>" "authorised e c" "b \<longrightarrow> cv_admin s = Some c"
    "b \<and> en_enabled en \<longrightarrow> en' = en"
    "b \<and> \<not> en_enabled en \<longrightarrow> (\<exists>d. cv_delay s = Some d \<and> en_valid_after en' = ledger_timestamp e + d)"
proof -
  from assms obtain en where en: "cv_entries s i = Some en" "authorised e c" "b \<longrightarrow> cv_admin s = Some c"
    by (auto simp: set_enabled_def rs entry_of_def entry_def)
  show thesis
  proof (cases "b \<and> \<not> en_enabled en")
    case True
    with assms en obtain d where "cv_delay s = Some d"
      "s' = s\<lparr>cv_entries := (cv_entries s)(i \<mapsto> en\<lparr>en_valid_after := ledger_timestamp e + d, en_enabled := b\<rparr>)\<rparr>"
      by (auto simp: set_enabled_def rs entry_of_def entry_def put_entry_def cv_delay_of_def)
    with True en show ?thesis
      by (intro that [OF en(1), of "en\<lparr>en_valid_after := ledger_timestamp e + d, en_enabled := b\<rparr>"]) simp_all
  next
    case False
    with assms en show ?thesis
      by (auto simp: set_enabled_def rs entry_of_def entry_def put_entry_def intro!: that [OF en(1), of "en\<lparr>en_enabled := b\<rparr>"])
  qed
qed

lemma remove_rule_Inr:
  assumes "remove_rule e c i s = Inr s'"
  obtains en ids where "cv_entries s i = Some en" "set ids \<subseteq> set (rule_ids s (rl_caller (en_rule en)) (rl_target (en_rule en)) (rl_func (en_rule en)))"
    "s' = s\<lparr>cv_ids := (cv_ids s)(rule_key (en_rule en) \<mapsto> ids), cv_entries := (cv_entries s)(i := None)\<rparr>"
proof -
  have sub: "set (case index_of i xs of Some j \<Rightarrow> remove_at j xs | None \<Rightarrow> xs) \<subseteq> set xs" for xs
    by (auto simp: remove_at_def split: option.splits dest: in_set_takeD in_set_dropD)
  from assms show thesis
    by (auto simp: remove_rule_def rs entry_of_def entry_def put_ids_def rule_key_def Let_def intro!: that [OF _ sub])
qed

lemma cv_inv_step: "cv_inv s \<Longrightarrow> cv_inv (cv_step (e, op) s)"
proof (cases "cv_exec e op s")
  case (Inr s')
  assume inv: "cv_inv s"
  have "cv_inv s'"
  proof (cases op)
    case (V_Add r)
    with Inr obtain i where "add_rule e r s = Inr (i, s')" by (auto simp: rs)
    note a = add_rule_Inr [OF this]
    let ?t = "blanked (rl_free r OR rl_account r) 0 (rl_template r)"
    from a(3) obtain d where s': "s' = s\<lparr>cv_next := Some (Suc i),
       cv_ids := (cv_ids s)(rule_key r \<mapsto> rule_ids s (rl_caller r) (rl_target r) (rl_func r) @ [i]),
       cv_entries := (cv_entries s)(i \<mapsto> \<lparr>en_rule = r\<lparr>rl_template := ?t\<rparr>, en_enabled = True,
         en_valid_after = ledger_timestamp e + d\<rparr>)\<rparr>" by blast
    have ids: "j \<in> set (rule_ids s' c t f) \<longleftrightarrow> j \<in> set (rule_ids s c t f) \<or> j = i \<and> (c, t, f) = rule_key r" for j c t f
      by (auto simp: s' rule_ids_def rule_key_def)
    have ok: "rule_ok (r\<lparr>rl_template := ?t\<rparr>)" "rule_key (r\<lparr>rl_template := ?t\<rparr>) = rule_key r"
      using a(4) by (simp_all add: rule_ok_def rule_key_def)
    have nxt: "next_of s' = Suc i" "next_of s = i" using a(1) by (simp_all add: s' next_of_def)
    have fresh: "j \<noteq> i" if "j \<in> set (rule_ids s c t f)" for j c t f
      using inv that by (auto simp: cv_inv_def nxt)
    have ent: "cv_entries s' = (cv_entries s)(i \<mapsto> \<lparr>en_rule = r\<lparr>rl_template := ?t\<rparr>, en_enabled = True,
         en_valid_after = ledger_timestamp e + d\<rparr>)" by (simp add: s')
    show ?thesis
      unfolding cv_inv_def Ball_def ids nxt ent
      using inv fresh ok by (auto simp: cv_inv_def nxt less_Suc_eq)
  next
    case (V_Enable c i b)
    with Inr have "set_enabled e c i b s = Inr s'" by simp
    then show ?thesis
      by (rule set_enabled_Inr) (use inv in \<open>auto simp: cv_inv_def next_of_def rule_ids_def\<close>)
  next
    case (V_Remove c i)
    with Inr have "remove_rule e c i s = Inr s'" by simp
    then show ?thesis
    proof (rule remove_rule_Inr)
      fix en ids
      assume "set ids \<subseteq> set (rule_ids s (rl_caller (en_rule en)) (rl_target (en_rule en)) (rl_func (en_rule en)))"
        and s': "s' = s\<lparr>cv_ids := (cv_ids s)(rule_key (en_rule en) \<mapsto> ids), cv_entries := (cv_entries s)(i := None)\<rparr>"
      then have ids: "set (rule_ids s' c t f) \<subseteq> set (rule_ids s c t f)" for c t f
        by (auto simp: rule_ids_def rule_key_def)
      have "cv_entries s' = (cv_entries s)(i := None)" "next_of s' = next_of s" by (simp_all add: s' next_of_def)
      with inv ids show ?thesis unfolding cv_inv_def by (fastforce split: if_splits)
    qed
  qed
  with Inr show ?thesis by (simp add: cv_step_def)
qed (simp add: cv_step_def)

lemma cv_inv_run: "cv_inv (fold cv_step calls (cv_constructor a g d cv_empty))"
proof (induction calls rule: rev_induct)
  case Nil
  show ?case by (simp add: cv_inv_def cv_constructor_def cv_empty_def rule_ids_def)
next
  case (snoc x calls)
  then show ?case by (cases x) (simp add: cv_inv_step)
qed

lemma cv_roles_step: "cv_admin (cv_step (e, op) s) = cv_admin s \<and> cv_delay (cv_step (e, op) s) = cv_delay s"
proof (cases "cv_exec e op s")
  case (Inr s')
  have "cv_admin s' = cv_admin s \<and> cv_delay s' = cv_delay s"
  proof (cases op)
    case (V_Add r)
    with Inr obtain i where "add_rule e r s = Inr (i, s')" by (auto simp: rs)
    from add_rule_Inr(3) [OF this] show ?thesis by auto
  next
    case (V_Enable c i b)
    with Inr have "set_enabled e c i b s = Inr s'" by simp
    then show ?thesis by (rule set_enabled_Inr) simp
  next
    case (V_Remove c i)
    with Inr have "remove_rule e c i s = Inr s'" by simp
    then show ?thesis by (rule remove_rule_Inr) simp
  qed
  with Inr show ?thesis by (simp add: cv_step_def)
qed (simp add: cv_step_def)

lemma cv_roles_run:
  "cv_admin (fold cv_step calls (cv_constructor a g d cv_empty)) = Some a \<and>
   cv_delay (fold cv_step calls (cv_constructor a g d cv_empty)) = Some d"
proof (induction calls rule: rev_induct)
  case Nil
  show ?case by (simp add: cv_constructor_def)
next
  case (snoc x calls)
  then show ?case by (cases x) (simp add: cv_roles_step)
qed

text \<open>The calls that can make a live entry: the admin's \<open>add_rule\<close> of that rule, or the admin's re-enabling.\<close>

definition grants :: "verifier_op \<Rightarrow> nat \<Rightarrow> Entry \<Rightarrow> bool" where
  "grants op i en \<longleftrightarrow>
     (\<exists>r. op = V_Add r \<and> en_rule en = r\<lparr>rl_template := blanked (rl_free r OR rl_account r) 0 (rl_template r)\<rparr>) \<or>
     (\<exists>c. op = V_Enable c i True)"

lemma entry_granted:
  assumes "cv_entries s i \<noteq> Some en" "cv_entries (cv_step (e, op) s) i = Some en" "en_enabled en"
    and "cv_admin s = Some a" "cv_delay s = Some d"
  shows "grants op i en \<and> authorised e a \<and> en_valid_after en = ledger_timestamp e + d"
proof (cases "cv_exec e op s")
  case (Inl x)
  with assms show ?thesis by (simp add: cv_step_def)
next
  case (Inr s')
  with assms(2) have now: "cv_entries s' i = Some en" by (simp add: cv_step_def)
  show ?thesis
  proof (cases op)
    case (V_Add r)
    with Inr obtain j where "add_rule e r s = Inr (j, s')" by (auto simp: rs)
    note a = add_rule_Inr [OF this]
    from a(2,3) assms now V_Add show ?thesis by (auto simp: grants_def split: if_splits)
  next
    case (V_Enable c j b)
    with Inr have "set_enabled e c j b s = Inr s'" by simp
    then show ?thesis
      by (rule set_enabled_Inr) (use assms now V_Enable in \<open>auto simp: grants_def split: if_splits\<close>)
  next
    case (V_Remove c j)
    with Inr have "remove_rule e c j s = Inr s'" by simp
    then show ?thesis by (rule remove_rule_Inr) (use assms now in \<open>auto split: if_splits\<close>)
  qed
qed

lemma any_live_True:
  "any_live e s account args js = Inr True \<Longrightarrow>
     \<exists>i \<in> set js. \<exists>en. cv_entries s i = Some en \<and> en_enabled en \<and> en_valid_after en \<le> ledger_timestamp e \<and>
       matches_rule (en_rule en) account args = Inr True"
  by (induction js) (auto simp: rs entry_def split: option.splits if_splits)

subsection \<open>Properties\<close>

text \<open>
  C33 (safety). A call that verifies was granted. Whatever calls ran since deployment, failing ones included: if
  \<open>verify\<close> answers true, there is a rule for exactly that caller, target and function, every argument it pins has
  the pinned value and every account argument is the account itself; the admin added or re-enabled that rule at
  least the whole delay ago; and at every moment since it has stood enabled and unchanged, so neither the guardian
  nor the admin has touched it.
\<close>

theorem verified_call_was_granted:
  fixes admin guardian :: address and delay :: nat
  defines "s0 \<equiv> cv_constructor admin guardian delay cv_empty"
  assumes "verify_call e caller account target func args (fold cv_step calls s0) = Inr True"
  shows "\<exists>i en before e' op after.
     rule_key (en_rule en) = (caller, target, func) \<and> pins (en_rule en) account args \<and> en_enabled en \<and>
     calls = before @ (e', op) # after \<and> grants op i en \<and> authorised e' admin \<and>
     ledger_timestamp e' + delay \<le> ledger_timestamp e \<and>
     (\<forall>n \<le> length after. cv_entries (fold cv_step (before @ (e', op) # take n after) s0) i = Some en)"
proof -
  let ?s = "fold cv_step calls s0"
  from assms(2) any_live_True obtain i en where
    en: "i \<in> set (rule_ids ?s caller target func)" "cv_entries ?s i = Some en" "en_enabled en"
      "en_valid_after en \<le> ledger_timestamp e" "matches_rule (en_rule en) account args = Inr True"
    unfolding verify_call_def by blast
  have inv: "cv_inv ?s" unfolding s0_def by (rule cv_inv_run)
  with en have "rule_key (en_rule en) = (caller, target, func)" "pins (en_rule en) account args"
    by (auto simp: cv_inv_def matches_pins)
  moreover have "cv_entries s0 i \<noteq> Some en" by (simp add: s0_def cv_constructor_def cv_empty_def)
  from run_origin [of "\<lambda>s. cv_entries s i = Some en", OF this en(2)] obtain before x after where
    h: "calls = before @ x # after" "cv_entries (fold cv_step before s0) i \<noteq> Some en"
      "\<forall>n \<le> length after. cv_entries (fold cv_step (before @ x # take n after) s0) i = Some en" by blast
  obtain e' op where x: "x = (e', op)" by (cases x)
  have "cv_entries (cv_step (e', op) (fold cv_step before s0)) i = Some en" using h(3) x by fastforce
  from entry_granted [OF h(2) this en(3)] cv_roles_run [of before admin guardian delay]
  have "grants op i en" "authorised e' admin" "ledger_timestamp e' + delay \<le> ledger_timestamp e"
    using en(4) by (auto simp: s0_def)
  ultimately show ?thesis using h x en(3) by blast
qed

definition demo_rule :: Rule where
  "demo_rule = \<lparr>rl_caller = alice, rl_target = token_a, rl_func = ''redeem'',
     rl_template = [AddressVal bob, I128Val 7, I128Val 0], rl_free = 4, rl_account = 1\<rparr>"

definition demo_grant :: "(env \<times> verifier_op) list" where
  "demo_grant = [(demo_env 10, V_Add demo_rule), (demo_env 20, V_Enable bob 0 False), (demo_env 30, V_Enable admin_addr 0 True)]"

lemmas verifier_eval = demo_grant_def demo_rule_def cv_step_def add_rule_def set_enabled_def check_role_def u32_shr_def u32_shl_def
  cv_constructor_def cv_empty_def cv_delay_of_def put_ids_def put_entry_def entry_of_def entry_def rule_ids_def
  verify_call_def matches_rule_def MAX_ARGS_def arith_defs width_defs Let_def

lemma demo_verified:
  "verify_call (demo_env 130) alice carol token_a ''redeem'' [AddressVal carol, I128Val 7, I128Val 99]
     (fold cv_step demo_grant (cv_constructor admin_addr bob 100 cv_empty)) = Inr True"
  "verify_call (demo_env 129) alice carol token_a ''redeem'' [AddressVal carol, I128Val 7, I128Val 99]
     (fold cv_step demo_grant (cv_constructor admin_addr bob 100 cv_empty)) = Inr False"
  by (simp_all add: verifier_eval)

theorem verified_call_was_granted_witness:
  "\<exists>i en before e' op after. demo_grant = before @ (e', op) # after \<and> grants op i en \<and> authorised e' admin_addr \<and>
     pins (en_rule en) carol [AddressVal carol, I128Val 7, I128Val 99] \<and> ledger_timestamp e' + 100 \<le> 130"
  using verified_call_was_granted [OF demo_verified(1)] by fastforce

text \<open>
  C34 (error). Which rules the admin can add. More than 32 arguments, a mask bit that is both free and the account, or a
  mask bit beyond the arguments is refused as invalid; any other rule with fewer than 32 arguments is added under the
  next id. A rule with exactly 32 arguments passes the bound check and then overflows the shift by 32, so it always
  traps: the 32 arguments \<open>MAX_ARGS\<close> allows can never be used.
\<close>

theorem add_rule_argument_bound:
  assumes "cv_admin s = Some admin" "authorised e admin"
  shows "(let n = length (rl_template r); both = rl_free r AND rl_account r; high = drop_bit n (rl_free r OR rl_account r) in
    (32 < n \<or> both \<noteq> 0 \<or> n < 32 \<and> high \<noteq> 0 \<longrightarrow> add_rule e r s = Inl (Err CV_InvalidRule)) \<and>
    (n = 32 \<and> both = 0 \<longrightarrow> add_rule e r s = Inl (Trap Overflow)) \<and>
    (\<forall>d. n < 32 \<and> both = 0 \<and> high = 0 \<and> next_of s < u64_max \<and> cv_delay s = Some d \<and> ledger_timestamp e + d \<le> u64_max \<longrightarrow>
       (\<exists>s'. add_rule e r s = Inr (next_of s, s'))))"
proof -
  let ?m = "rl_free r OR rl_account r"
  have auth: "require_auth e admin = (Inr () :: (VerifierError, _) res)" using assms(2) by (simp add: require_auth_def)
  have "\<exists>s'. add_rule e r s = Inr (next_of s, s')"
    if "length (rl_template r) < 32" "rl_free r AND rl_account r = 0" "drop_bit (length (rl_template r)) ?m = 0"
      "next_of s < u64_max" "cv_delay s = Some d" "ledger_timestamp e + d \<le> u64_max" for d
    using that assms(1) auth blank_eq [of 0 "rl_template r" ?m]
    by (simp add: add_rule_def Let_def MAX_ARGS_def u32_shr_def cv_delay_of_def put_ids_def put_entry_def u64_add_def
        next_of_def [symmetric] Suc_le_eq)
  with assms(1) auth show ?thesis
    by (auto simp: add_rule_def Let_def MAX_ARGS_def u32_shr_def panic_if_def)
qed

theorem add_rule_argument_bound_witness:
  "add_rule (demo_env 10) \<lparr>rl_caller = alice, rl_target = token_a, rl_func = ''redeem'', rl_template = replicate 32 VoidVal,
     rl_free = 0, rl_account = 0\<rparr> (cv_constructor admin_addr bob 100 cv_empty) = Inl (Trap Overflow)"
proof -
  have "cv_admin (cv_constructor admin_addr bob 100 cv_empty) = Some admin_addr" by (simp add: cv_constructor_def)
  from add_rule_argument_bound [OF this, of "demo_env 10" "\<lparr>rl_caller = alice, rl_target = token_a, rl_func = ''redeem'',
      rl_template = replicate 32 VoidVal, rl_free = 0, rl_account = 0\<rparr>"]
  show ?thesis by (simp add: Let_def)
qed

end
