(* ===== verification/Redemption_Vault.thy ===== *)
theory Redemption_Vault
  imports Token_Interface Timelock Common_Math Orders
begin

text \<open>
  \<open>contracts/redemption_vault/src/lib.rs\<close>: batched redemption of one RWA with its issuer, paid in one stable. The
  storage is the record \<open>redemption_vault\<close>, with the timelock as a part. Tokens and the oracle are reached through \<open>host\<close>;
  the claim tokens, the redemption accounts, the call verifier and the deployer through \<open>rv_host\<close>, whose calls return
  \<open>None\<close> when they fail. Each entry point and each helper of the source is one definition, with the order of its
  checks, writes and calls kept. Events and TTL extension are left out.
\<close>

datatype RedemptionError = RV_InvalidAmount | RV_WrongStatus | RV_WrongMode | RV_NoPrice | RV_NotAllowed
  | RV_IssuerTookWrongAmount | RV_RwaMoved | RV_ProceedsTooLow | RV_CallNotVerified | RV_NoFreeAccount
  | RV_BatchesInFlight | RV_InvalidSettings | RV_Paused | RV_NotAuthorized | RV_Timelock TimelockError

datatype Mode = M_Auto | M_Manual

datatype Status = B_Open | B_Sent | B_Settled

record Init =
  in_rwa :: address
  in_stable :: address
  in_ct_wasm :: bytes32
  in_account_wasm :: bytes32

record Roles =
  rl_admin :: address
  rl_guardian :: address
  rl_settler :: address
  rl_operator :: address

record Settings =
  se_mode :: Mode
  se_strike_at_send :: bool
  se_verifier :: "address option"
  se_gate :: "address option"
  se_oracle :: "address option"
  se_max_age :: nat
  se_fee_bps :: nat
  se_fee_recipient :: "address option"
  se_floor_bps :: nat
  se_destinations :: "address list"

datatype RvChange = C_Settings Settings | C_Roles Roles | C_Skim address address | C_Delay nat

record Batch =
  ba_status :: Status
  ba_ct :: address
  ba_account :: "address option"
  ba_units :: int
  ba_unsent :: int
  ba_proceeds :: int
  ba_fee :: int
  ba_remaining :: int
  ba_strike :: int
  ba_nav_start :: int
  ba_nav_end :: int
  ba_sent_at :: nat
  ba_settled_at :: nat

record Totals =
  to_pooled :: int
  to_proceeds :: int
  to_rwa :: int
  to_sent :: nat

record Call =
  ca_target :: address
  ca_func :: symbol
  ca_args :: "val list"

record redemption_vault =
  rv_init :: "Init option"
  rv_roles :: "Roles option"
  rv_settings :: "Settings option"
  rv_totals :: "Totals option"
  rv_paused :: "bool option"
  rv_open :: "nat option"
  rv_next :: "nat option"
  rv_accounts :: "address list option"
  rv_batches :: "nat \<rightharpoonup> Batch"
  rv_busy :: "address \<rightharpoonup> nat"
  rv_cts :: "address \<rightharpoonup> nat"
  rv_timelock :: "RvChange timelock"

definition rv_empty :: redemption_vault where
  "rv_empty = \<lparr>rv_init = None, rv_roles = None, rv_settings = None, rv_totals = None, rv_paused = None, rv_open = None,
     rv_next = None, rv_accounts = None, rv_batches = Map.empty, rv_busy = Map.empty, rv_cts = Map.empty,
     rv_timelock = tl_empty\<rparr>"

definition RV_MAX_FEE_BPS :: nat where "RV_MAX_FEE_BPS = 2000"
definition CT_SALT :: byte where "CT_SALT = 1"
definition ACCOUNT_SALT :: byte where "ACCOUNT_SALT = 2"

text \<open>The arguments of a claim token's constructor.\<close>

record CtArgs =
  cta_minter :: address
  cta_rwa :: address
  cta_batch :: nat
  cta_gate :: "address option"
  cta_name :: "byte list"
  cta_symbol :: "byte list"

text \<open>
  What the vault calls: \<open>ClaimToken\<close>, \<open>RedemptionAccount\<close> and \<open>CallVerifier\<close> of \<open>crates/common/src/interfaces.rs\<close>, the
  RWA's \<open>symbol\<close>, and the host's deployer, by salt and code hash.
\<close>

record 'w rv_host =
  rh_mint :: "env \<Rightarrow> address \<Rightarrow> address \<Rightarrow> int \<Rightarrow> 'w \<Rightarrow> 'w option"
  rh_burn_claim :: "env \<Rightarrow> address \<Rightarrow> address \<Rightarrow> int \<Rightarrow> 'w \<Rightarrow> 'w option"
  rh_set_gate :: "env \<Rightarrow> address \<Rightarrow> address option \<Rightarrow> 'w \<Rightarrow> 'w option"
  rh_total_supply :: "env \<Rightarrow> address \<Rightarrow> 'w \<Rightarrow> int option"
  rh_execute :: "env \<Rightarrow> address \<Rightarrow> address \<Rightarrow> symbol \<Rightarrow> val list \<Rightarrow> 'w \<Rightarrow> (val \<times> 'w) option"
  rh_approve :: "env \<Rightarrow> address \<Rightarrow> address \<Rightarrow> address \<Rightarrow> int \<Rightarrow> 'w \<Rightarrow> 'w option"
  rh_sweep :: "env \<Rightarrow> address \<Rightarrow> address \<Rightarrow> address \<Rightarrow> 'w \<Rightarrow> (int \<times> 'w) option"
  rh_verify :: "env \<Rightarrow> address \<Rightarrow> address \<Rightarrow> address \<Rightarrow> address \<Rightarrow> symbol \<Rightarrow> val list \<Rightarrow> 'w \<Rightarrow> bool option"
  rh_symbol :: "env \<Rightarrow> address \<Rightarrow> 'w \<Rightarrow> byte list option"
  rh_deploy_ct :: "env \<Rightarrow> bytes32 \<Rightarrow> bytes32 \<Rightarrow> CtArgs \<Rightarrow> 'w \<Rightarrow> (address \<times> 'w) option"
  rh_deploy_account :: "env \<Rightarrow> bytes32 \<Rightarrow> bytes32 \<Rightarrow> address \<Rightarrow> 'w \<Rightarrow> (address \<times> 'w) option"
  rh_deployed_address :: "env \<Rightarrow> bytes32 \<Rightarrow> address"

subsection \<open>Views and storage\<close>

definition rv_init_of :: "redemption_vault \<Rightarrow> (RedemptionError, Init) res" where
  "rv_init_of s = unwrap (rv_init s)"

definition roles :: "redemption_vault \<Rightarrow> (RedemptionError, Roles) res" where
  "roles s = unwrap (rv_roles s)"

definition settings :: "redemption_vault \<Rightarrow> (RedemptionError, Settings) res" where
  "settings s = unwrap (rv_settings s)"

definition totals :: "redemption_vault \<Rightarrow> Totals" where
  "totals s = (case rv_totals s of None \<Rightarrow> \<lparr>to_pooled = 0, to_proceeds = 0, to_rwa = 0, to_sent = 0\<rparr> | Some t \<Rightarrow> t)"

definition rv_is_paused :: "redemption_vault \<Rightarrow> bool" where
  "rv_is_paused s = (rv_paused s = Some True)"

definition batch :: "nat \<Rightarrow> redemption_vault \<Rightarrow> Batch option" where
  "batch i s = rv_batches s i"

definition batch_of :: "nat \<Rightarrow> redemption_vault \<Rightarrow> (RedemptionError, Batch) res" where
  "batch_of i s = or_panic (batch i s) RV_WrongStatus"

definition with_status :: "nat \<Rightarrow> Status \<Rightarrow> redemption_vault \<Rightarrow> (RedemptionError, Batch) res" where
  "with_status i st s =
    and_then (batch_of i s) (\<lambda>b.
    and_then (panic_if (ba_status b \<noteq> st) RV_WrongStatus) (\<lambda>_. Inr b))"

definition ct_of :: "nat \<Rightarrow> redemption_vault \<Rightarrow> (RedemptionError, address) res" where
  "ct_of i s = and_then (batch_of i s) (\<lambda>b. Inr (ba_ct b))"

definition open_batch :: "redemption_vault \<Rightarrow> nat option" where
  "open_batch s = rv_open s"

definition accounts :: "redemption_vault \<Rightarrow> address list" where
  "accounts s = (case rv_accounts s of None \<Rightarrow> [] | Some xs \<Rightarrow> xs)"

definition put_batch :: "nat \<Rightarrow> Batch \<Rightarrow> redemption_vault \<Rightarrow> redemption_vault" where
  "put_batch i b s = s\<lparr>rv_batches := (rv_batches s)(i \<mapsto> b)\<rparr>"

definition tally :: "(Totals \<Rightarrow> (RedemptionError, Totals) res) \<Rightarrow> redemption_vault \<Rightarrow> (RedemptionError, redemption_vault) res" where
  "tally f s = and_then (f (totals s)) (\<lambda>t. Inr (s\<lparr>rv_totals := Some t\<rparr>))"

definition add_pooled :: "int \<Rightarrow> Totals \<Rightarrow> (RedemptionError, Totals) res" where
  "add_pooled x t = and_then (i128_add (to_pooled t) x) (\<lambda>v. Inr (t\<lparr>to_pooled := v\<rparr>))"

definition sub_pooled :: "int \<Rightarrow> Totals \<Rightarrow> (RedemptionError, Totals) res" where
  "sub_pooled x t = and_then (i128_sub (to_pooled t) x) (\<lambda>v. Inr (t\<lparr>to_pooled := v\<rparr>))"

definition rv_md :: "int \<Rightarrow> int \<Rightarrow> int \<Rightarrow> (RedemptionError, int) res" where
  "rv_md a b d = (case mul_div a b d of Inl _ \<Rightarrow> Inl (Err RV_InvalidAmount) | Inr q \<Rightarrow> Inr q)"

definition rv_send :: "'w host \<Rightarrow> env \<Rightarrow> address \<Rightarrow> address \<Rightarrow> int \<Rightarrow> 'w \<Rightarrow> (RedemptionError, 'w) res" where
  "rv_send H e tok to amount w =
    (if 0 < amount then token_transfer H e tok (current_contract e) to amount w else Inr w)"

definition mode_is :: "Mode \<Rightarrow> redemption_vault \<Rightarrow> (RedemptionError, Settings) res" where
  "mode_is m s =
    and_then (settings s) (\<lambda>st.
    and_then (panic_if (se_mode st \<noteq> m) RV_WrongMode) (\<lambda>_. Inr st))"

text \<open>The RWA's NAV in the stable; 0 without a fresh reading.\<close>

definition nav :: "'w host \<Rightarrow> env \<Rightarrow> Settings \<Rightarrow> redemption_vault \<Rightarrow> 'w \<Rightarrow> (RedemptionError, int) res" where
  "nav H e st s w =
    (case se_oracle st of
       None \<Rightarrow> Inr 0
     | Some oracle \<Rightarrow>
         and_then (rv_init_of s) (\<lambda>i.
           case or_get_price H (calling e oracle) oracle (in_rwa i) (in_stable i) w of
             None \<Rightarrow> Inr 0
           | Some p \<Rightarrow>
               if 0 < pd_price p then
                 and_then (u64_add (pd_timestamp p) (se_max_age st)) (\<lambda>until.
                   Inr (if ledger_timestamp e \<le> until then pd_price p else 0))
               else Inr 0))"

definition check_settings :: "Settings \<Rightarrow> (RedemptionError, unit) res" where
  "check_settings st =
    panic_if (RV_MAX_FEE_BPS < se_fee_bps st \<or> (0 < se_fee_bps st \<and> se_fee_recipient st = None) \<or>
              BPS < int (se_floor_bps st)) RV_InvalidSettings"

subsection \<open>Deployments\<close>

text \<open>\<open>digits\<close>: the decimal digits of a \<open>u64\<close>, written backwards into a buffer of 20 bytes.\<close>

fun digits_at :: "nat \<Rightarrow> nat \<Rightarrow> byte list \<Rightarrow> (RedemptionError, byte list) res" where
  "digits_at 0 v buf = Inl (Trap Overflow)"
| "digits_at (Suc i) v buf =
    (let buf = (48 + word_of_nat (v mod 10)) # buf; v = v div 10 in
     if v = 0 then Inr buf else digits_at i v buf)"

definition digits :: "nat \<Rightarrow> (RedemptionError, byte list) res" where
  "digits v = digits_at 20 v []"

text \<open>\<open>concat\<close>: the parts one after the other in a buffer of 64 bytes.\<close>

definition concat_parts :: "byte list list \<Rightarrow> (RedemptionError, byte list) res" where
  "concat_parts parts = (if length (concat parts) \<le> 64 then Inr (concat parts) else Inl (Trap Overflow))"

definition be64 :: "nat \<Rightarrow> byte list" where
  "be64 n = map (\<lambda>i. word_of_nat (n div 2 ^ (8 * (7 - i)))) [0..<8]"

definition salt :: "byte \<Rightarrow> nat \<Rightarrow> bytes32" where
  "salt tag n = of_bytes (tag # replicate 23 0 @ be64 n)"

definition deploy_ct :: "'w rv_host \<Rightarrow> env \<Rightarrow> nat \<Rightarrow> redemption_vault \<Rightarrow> 'w \<Rightarrow> (RedemptionError, address \<times> 'w) res" where
  "deploy_ct R e i s w =
    and_then (rv_init_of s) (\<lambda>ini.
    and_then (call_result (rh_symbol R (calling e (in_rwa ini)) (in_rwa ini) w)) (\<lambda>rwa_sym.
      let sym = (if length rwa_sym \<le> 24 then rwa_sym else ascii ''RWA'') in
      and_then (digits i) (\<lambda>d.
      and_then (concat_parts [ascii ''Octarine Claim '', sym, ascii '' #'', d]) (\<lambda>name.
      and_then (concat_parts [ascii ''ct'', sym, ascii ''-'', d]) (\<lambda>symb.
      and_then (settings s) (\<lambda>st.
        call_result (rh_deploy_ct R e (salt CT_SALT i) (in_ct_wasm ini)
          \<lparr>cta_minter = current_contract e, cta_rwa = in_rwa ini, cta_batch = i, cta_gate = se_gate st,
           cta_name = name, cta_symbol = symb\<rparr> w)))))))"

definition new_batch :: "address \<Rightarrow> Batch" where
  "new_batch ct = \<lparr>ba_status = B_Open, ba_ct = ct, ba_account = None, ba_units = 0, ba_unsent = 0, ba_proceeds = 0,
     ba_fee = 0, ba_remaining = 0, ba_strike = 0, ba_nav_start = 0, ba_nav_end = 0, ba_sent_at = 0, ba_settled_at = 0\<rparr>"

text \<open>\<open>open\<close>: the open batch, opening one and deploying its claim token if there is none.\<close>

definition open_or_new :: "'w rv_host \<Rightarrow> env \<Rightarrow> redemption_vault \<Rightarrow> 'w \<Rightarrow>
    (RedemptionError, nat \<times> Batch \<times> redemption_vault \<times> 'w) res" where
  "open_or_new R e s w =
    (case open_batch s of
       Some i \<Rightarrow> and_then (batch_of i s) (\<lambda>b. Inr (i, b, s, w))
     | None \<Rightarrow>
         and_then (unwrap (rv_next s)) (\<lambda>i.
         and_then (u64_add i 1) (\<lambda>i1.
           let s = s\<lparr>rv_next := Some i1, rv_open := Some i\<rparr> in
           and_then (deploy_ct R e i s w) (\<lambda>(ct, w).
             Inr (i, new_batch ct, s\<lparr>rv_cts := (rv_cts s)(ct \<mapsto> i)\<rparr>, w)))))"

definition add_account :: "'w rv_host \<Rightarrow> env \<Rightarrow> redemption_vault \<Rightarrow> 'w \<Rightarrow> (RedemptionError, redemption_vault \<times> 'w) res" where
  "add_account R e s w =
    (let accs = accounts s in
     and_then (rv_init_of s) (\<lambda>ini.
     and_then (call_result (rh_deploy_account R e (salt ACCOUNT_SALT (length accs)) (in_account_wasm ini)
         (current_contract e) w)) (\<lambda>(account, w).
       Inr (s\<lparr>rv_accounts := Some (accs @ [account])\<rparr>, w))))"

definition rv_constructor :: "'w rv_host \<Rightarrow> env \<Rightarrow> Init \<Rightarrow> Roles \<Rightarrow> Settings \<Rightarrow> nat \<Rightarrow> redemption_vault \<Rightarrow> 'w \<Rightarrow>
    (RedemptionError, redemption_vault \<times> 'w) res" where
  "rv_constructor R e ini ro st dl s w =
    and_then (check_settings st) (\<lambda>_.
      add_account R e (s\<lparr>rv_timelock := init dl (rl_guardian ro) (rv_timelock s), rv_init := Some ini,
        rv_roles := Some ro, rv_settings := Some st, rv_next := Some 1\<rparr>) w)"

fun add_accounts_loop :: "'w rv_host \<Rightarrow> env \<Rightarrow> nat \<Rightarrow> redemption_vault \<Rightarrow> 'w \<Rightarrow>
    (RedemptionError, redemption_vault \<times> 'w) res" where
  "add_accounts_loop R e 0 s w = Inr (s, w)"
| "add_accounts_loop R e (Suc n) s w =
    and_then (add_account R e s w) (\<lambda>(s, w). add_accounts_loop R e n s w)"

definition add_accounts :: "'w rv_host \<Rightarrow> env \<Rightarrow> nat \<Rightarrow> redemption_vault \<Rightarrow> 'w \<Rightarrow>
    (RedemptionError, redemption_vault \<times> 'w) res" where
  "add_accounts R e n s w =
    and_then (roles s) (\<lambda>ro.
    and_then (require_auth e (rl_admin ro)) (\<lambda>_.
      add_accounts_loop R e n s w))"

definition account_address :: "'w rv_host \<Rightarrow> env \<Rightarrow> nat \<Rightarrow> address" where
  "account_address R e index = rh_deployed_address R e (salt ACCOUNT_SALT index)"

definition free_account :: "redemption_vault \<Rightarrow> (RedemptionError, address) res" where
  "free_account s = or_panic (find (\<lambda>a. rv_busy s a = None) (accounts s)) RV_NoFreeAccount"

subsection \<open>Holders\<close>

definition request_redeem :: "'w host \<Rightarrow> 'w rv_host \<Rightarrow> env \<Rightarrow> address \<Rightarrow> int \<Rightarrow> address \<Rightarrow> redemption_vault \<Rightarrow> 'w \<Rightarrow>
    (RedemptionError, nat \<times> redemption_vault \<times> 'w) res" where
  "request_redeem H R e holder units controller s w =
    and_then (require_auth e holder) (\<lambda>_.
    and_then (panic_if (rv_is_paused s) RV_Paused) (\<lambda>_.
      let me = current_contract e in
      and_then (panic_if (units \<le> 0 \<or> controller = me) RV_InvalidAmount) (\<lambda>_.
      and_then (rv_init_of s) (\<lambda>ini.
      and_then (token_transfer H e (in_rwa ini) holder me units w) (\<lambda>w.
      and_then (open_or_new R e s w) (\<lambda>(i, b, s, w).
      and_then (i128_add (ba_units b) units) (\<lambda>u.
        let b = b\<lparr>ba_units := u\<rparr>; s = put_batch i b s in
        and_then (tally (add_pooled units) s) (\<lambda>s.
        and_then (call_result (rh_mint R (calling e (ba_ct b)) (ba_ct b) controller units w)) (\<lambda>w.
          Inr (i, s, w))))))))))"

definition rv_cancel :: "'w host \<Rightarrow> 'w rv_host \<Rightarrow> env \<Rightarrow> address \<Rightarrow> nat \<Rightarrow> int \<Rightarrow> address \<Rightarrow> redemption_vault \<Rightarrow> 'w \<Rightarrow>
    (RedemptionError, redemption_vault \<times> 'w) res" where
  "rv_cancel H R e holder i amount receiver s w =
    and_then (require_auth e holder) (\<lambda>_.
    and_then (with_status i B_Open s) (\<lambda>b.
    and_then (panic_if (amount \<le> 0 \<or> ba_units b < amount) RV_InvalidAmount) (\<lambda>_.
    and_then (call_result (rh_burn_claim R (calling e (ba_ct b)) (ba_ct b) holder amount w)) (\<lambda>w.
    and_then (i128_sub (ba_units b) amount) (\<lambda>u.
      let s = put_batch i (b\<lparr>ba_units := u\<rparr>) s in
      and_then (tally (sub_pooled amount) s) (\<lambda>s.
      and_then (rv_init_of s) (\<lambda>ini.
      and_then (rv_send H e (in_rwa ini) receiver amount w) (\<lambda>w.
        Inr (s, w)))))))))"

definition claim :: "'w host \<Rightarrow> 'w rv_host \<Rightarrow> env \<Rightarrow> address \<Rightarrow> nat \<Rightarrow> int \<Rightarrow> address \<Rightarrow> redemption_vault \<Rightarrow> 'w \<Rightarrow>
    (RedemptionError, int \<times> redemption_vault \<times> 'w) res" where
  "claim H R e holder i shrs receiver s w =
    and_then (require_auth e holder) (\<lambda>_.
    and_then (with_status i B_Settled s) (\<lambda>b.
    and_then (panic_if (shrs \<le> 0) RV_InvalidAmount) (\<lambda>_.
    and_then (call_result (rh_total_supply R (calling e (ba_ct b)) (ba_ct b) w)) (\<lambda>spl.
    and_then (rv_md shrs (ba_remaining b) spl) (\<lambda>assets.
    and_then (rv_md shrs (ba_unsent b) spl) (\<lambda>units.
    and_then (call_result (rh_burn_claim R (calling e (ba_ct b)) (ba_ct b) holder shrs w)) (\<lambda>w.
    and_then (i128_sub (ba_remaining b) assets) (\<lambda>rem.
    and_then (i128_sub (ba_unsent b) units) (\<lambda>unsent.
      let s = put_batch i (b\<lparr>ba_remaining := rem, ba_unsent := unsent\<rparr>) s in
      and_then (tally (\<lambda>t.
          and_then (i128_sub (to_proceeds t) assets) (\<lambda>p.
          and_then (i128_sub (to_rwa t) units) (\<lambda>r.
            Inr (t\<lparr>to_proceeds := p, to_rwa := r\<rparr>)))) s) (\<lambda>s.
      and_then (rv_init_of s) (\<lambda>ini.
      and_then (rv_send H e (in_stable ini) receiver assets w) (\<lambda>w.
      and_then (rv_send H e (in_rwa ini) receiver units w) (\<lambda>w.
        Inr (assets, s, w))))))))))))))"

subsection \<open>The issuer\<close>

text \<open>Each call runs from \<open>account\<close>, only as the verifier allows, never against the stable, the account, the vault or a CT.\<close>

definition forbidden :: "env \<Rightarrow> address \<Rightarrow> address \<Rightarrow> redemption_vault \<Rightarrow> address \<Rightarrow> bool" where
  "forbidden e stbl account s target \<longleftrightarrow>
     target = stbl \<or> target = account \<or> target = current_contract e \<or> rv_cts s target \<noteq> None"

fun run_call_list :: "'w rv_host \<Rightarrow> env \<Rightarrow> address \<Rightarrow> address \<Rightarrow> address \<Rightarrow> Call list \<Rightarrow> redemption_vault \<Rightarrow> 'w \<Rightarrow>
    (RedemptionError, 'w) res" where
  "run_call_list R e stbl verifier account [] s w = Inr w"
| "run_call_list R e stbl verifier account (c # cs) s w =
    and_then
      (if forbidden e stbl account s (ca_target c) then Inr True
       else and_then (call_result (rh_verify R (calling e verifier) verifier (current_contract e) account (ca_target c)
              (ca_func c) (ca_args c) w)) (\<lambda>ok. Inr (\<not> ok))) (\<lambda>bad.
    and_then (panic_if bad RV_CallNotVerified) (\<lambda>_.
    and_then (call_result (rh_execute R (calling e account) account (ca_target c) (ca_func c) (ca_args c) w)) (\<lambda>(v, w).
      run_call_list R e stbl verifier account cs s w)))"

definition run_calls :: "'w rv_host \<Rightarrow> env \<Rightarrow> address \<Rightarrow> Call list \<Rightarrow> redemption_vault \<Rightarrow> 'w \<Rightarrow> (RedemptionError, 'w) res" where
  "run_calls R e account calls s w =
    and_then (rv_init_of s) (\<lambda>ini.
    and_then (settings s) (\<lambda>st.
    and_then (or_panic (se_verifier st) RV_CallNotVerified) (\<lambda>verifier.
      run_call_list R e (in_stable ini) verifier account calls s w)))"

definition send_from :: "'w host \<Rightarrow> 'w rv_host \<Rightarrow> env \<Rightarrow> address \<Rightarrow> int \<Rightarrow> address option \<Rightarrow> Call list \<Rightarrow> redemption_vault \<Rightarrow> 'w \<Rightarrow>
    (RedemptionError, 'w) res" where
  "send_from H R e account amount spender calls s w =
    and_then (rv_init_of s) (\<lambda>ini.
      let rwa = in_rwa ini; before = tk_balance H rwa account w in
      and_then (case spender of
          Some sp \<Rightarrow> call_result (rh_approve R (calling e account) account rwa sp amount w)
        | None \<Rightarrow> Inr w) (\<lambda>w.
      and_then (run_calls R e account calls s w) (\<lambda>w.
      and_then (case spender of
          Some sp \<Rightarrow> call_result (rh_approve R (calling e account) account rwa sp 0 w)
        | None \<Rightarrow> Inr w) (\<lambda>w.
      and_then (i128_sub before (tk_balance H rwa account w)) (\<lambda>spent.
      and_then (panic_if (spent \<noteq> amount) RV_IssuerTookWrongAmount) (\<lambda>_.
        Inr w))))))"

definition mark_sent :: "'w host \<Rightarrow> env \<Rightarrow> nat \<Rightarrow> Batch \<Rightarrow> Settings \<Rightarrow> redemption_vault \<Rightarrow> 'w \<Rightarrow>
    (RedemptionError, redemption_vault) res" where
  "mark_sent H e i b st s w =
    and_then (panic_if (ba_units b \<le> 0) RV_InvalidAmount) (\<lambda>_.
    and_then (nav H e st s w) (\<lambda>n.
      let b = b\<lparr>ba_nav_start := n\<rparr> in
      and_then
        (if se_strike_at_send st
         then and_then (panic_if (n = 0) RV_NoPrice) (\<lambda>_. Inr (b\<lparr>ba_strike := n\<rparr>))
         else Inr b) (\<lambda>b.
        let s = (if open_batch s = Some i then s\<lparr>rv_open := None\<rparr> else s);
            b = b\<lparr>ba_status := B_Sent, ba_sent_at := ledger_timestamp e\<rparr> in
        and_then (tally (\<lambda>t. and_then (u32_add (to_sent t) 1) (\<lambda>n. Inr (t\<lparr>to_sent := n\<rparr>))) s) (\<lambda>s.
          Inr (put_batch i b s)))))"

definition resend :: "'w host \<Rightarrow> 'w rv_host \<Rightarrow> env \<Rightarrow> nat \<Rightarrow> Batch \<Rightarrow> address option \<Rightarrow> Call list \<Rightarrow> redemption_vault \<Rightarrow> 'w \<Rightarrow>
    (RedemptionError, redemption_vault \<times> 'w) res" where
  "resend H R e i b spender calls s w =
    and_then (panic_if (ba_unsent b = 0) RV_InvalidAmount) (\<lambda>_.
    and_then (or_panic (ba_account b) RV_WrongMode) (\<lambda>account.
    and_then (send_from H R e account (ba_unsent b) spender calls s w) (\<lambda>w.
      Inr (put_batch i (b\<lparr>ba_unsent := 0\<rparr>) s, w))))"

definition redeem_batch :: "'w host \<Rightarrow> 'w rv_host \<Rightarrow> env \<Rightarrow> nat \<Rightarrow> address option \<Rightarrow> Call list \<Rightarrow> redemption_vault \<Rightarrow> 'w \<Rightarrow>
    (RedemptionError, redemption_vault \<times> 'w) res" where
  "redeem_batch H R e i spender calls s w =
    and_then (roles s) (\<lambda>ro.
    and_then (require_auth e (rl_settler ro)) (\<lambda>_.
    and_then (batch_of i s) (\<lambda>b.
      if ba_status b = B_Sent then resend H R e i b spender calls s w
      else
        and_then (panic_if (ba_status b \<noteq> B_Open) RV_WrongStatus) (\<lambda>_.
        and_then (mode_is M_Auto s) (\<lambda>st.
        and_then (free_account s) (\<lambda>account.
        and_then (rv_init_of s) (\<lambda>ini.
          let me = current_contract e; rwa = in_rwa ini in
          and_then (token_transfer H e rwa me account (ba_units b) w) (\<lambda>w.
          and_then (send_from H R e account (ba_units b) spender calls s w) (\<lambda>w.
            let s = s\<lparr>rv_busy := (rv_busy s)(account \<mapsto> i)\<rparr> in
            and_then (tally (sub_pooled (ba_units b)) s) (\<lambda>s.
            and_then (i128_add (to_pooled (totals s)) (to_rwa (totals s))) (\<lambda>owed.
            and_then (panic_if (tk_balance H rwa me w < owed) RV_RwaMoved) (\<lambda>_.
            and_then (mark_sent H e i (b\<lparr>ba_account := Some account\<rparr>) st s w) (\<lambda>s.
              Inr (s, w))))))))))))))"

definition finish :: "'w host \<Rightarrow> env \<Rightarrow> nat \<Rightarrow> Batch \<Rightarrow> int \<Rightarrow> redemption_vault \<Rightarrow> 'w \<Rightarrow>
    (RedemptionError, redemption_vault \<times> 'w) res" where
  "finish H e i b proceeds s w =
    and_then (settings s) (\<lambda>st.
    and_then (rv_md proceeds (int (se_fee_bps st)) BPS) (\<lambda>fee.
    and_then (tally (\<lambda>t.
        and_then (i128_sub proceeds fee) (\<lambda>net.
        and_then (i128_add (to_proceeds t) net) (\<lambda>p.
        and_then (i128_add (to_rwa t) (ba_unsent b)) (\<lambda>r.
        and_then (u32_sub (to_sent t) 1) (\<lambda>n.
          Inr (t\<lparr>to_proceeds := p, to_rwa := r, to_sent := n\<rparr>)))))) s) (\<lambda>s.
    and_then (i128_sub proceeds fee) (\<lambda>net.
    and_then (nav H e st s w) (\<lambda>n.
      let s = put_batch i (b\<lparr>ba_status := B_Settled, ba_proceeds := proceeds, ba_fee := fee, ba_remaining := net,
                             ba_nav_end := n, ba_settled_at := ledger_timestamp e\<rparr>) s in
      case (if 0 < fee then se_fee_recipient st else None) of
        None \<Rightarrow> Inr (s, w)
      | Some to \<Rightarrow>
          and_then (rv_init_of s) (\<lambda>ini.
          and_then (rv_send H e (in_stable ini) to fee w) (\<lambda>w.
            Inr (s, w))))))))"

definition rv_settle :: "'w host \<Rightarrow> 'w rv_host \<Rightarrow> env \<Rightarrow> nat \<Rightarrow> Call list \<Rightarrow> int \<Rightarrow> redemption_vault \<Rightarrow> 'w \<Rightarrow>
    (RedemptionError, redemption_vault \<times> 'w) res" where
  "rv_settle H R e i calls min_proceeds s w =
    and_then (roles s) (\<lambda>ro.
    and_then (require_auth e (rl_settler ro)) (\<lambda>_.
    and_then (with_status i B_Sent s) (\<lambda>b.
    and_then (or_panic (ba_account b) RV_WrongMode) (\<lambda>account.
    and_then (rv_init_of s) (\<lambda>ini.
      let me = current_contract e; rwa = in_rwa ini; stbl = in_stable ini in
      and_then (i128_add (tk_balance H rwa me w) (ba_unsent b)) (\<lambda>rwa_before.
        let stable_before = tk_balance H stbl me w in
        and_then (run_calls R e account calls s w) (\<lambda>w.
        and_then (call_result (rh_sweep R (calling e account) account stbl me w)) (\<lambda>(x, w).
        and_then
          (if ba_unsent b \<noteq> 0
           then and_then (call_result (rh_execute R (calling e account) account rwa ''transfer''
                  [AddressVal account, AddressVal me, I128Val (ba_unsent b)] w)) (\<lambda>(v, w). Inr w)
           else Inr w) (\<lambda>w.
          let s = s\<lparr>rv_busy := (rv_busy s)(account := None)\<rparr> in
          and_then (panic_if (tk_balance H rwa me w \<noteq> rwa_before) RV_RwaMoved) (\<lambda>_.
          and_then (i128_sub (tk_balance H stbl me w) stable_before) (\<lambda>proceeds.
          and_then (panic_if (proceeds < min_proceeds) RV_ProceedsTooLow) (\<lambda>_.
            finish H e i b proceeds s w))))))))))))"

definition reopen :: "'w host \<Rightarrow> 'w rv_host \<Rightarrow> env \<Rightarrow> nat \<Rightarrow> Call list \<Rightarrow> int \<Rightarrow> redemption_vault \<Rightarrow> 'w \<Rightarrow>
    (RedemptionError, redemption_vault \<times> 'w) res" where
  "reopen H R e i calls returned s w =
    and_then (roles s) (\<lambda>ro.
    and_then (require_auth e (rl_settler ro)) (\<lambda>_.
    and_then (with_status i B_Sent s) (\<lambda>b.
    and_then (or_panic (ba_account b) RV_WrongMode) (\<lambda>account.
    and_then (i128_add (ba_unsent b) returned) (\<lambda>unsent.
    and_then (panic_if (returned \<le> 0 \<or> ba_units b < unsent) RV_InvalidAmount) (\<lambda>_.
    and_then (run_calls R e account calls s w) (\<lambda>w.
    and_then (rv_init_of s) (\<lambda>ini.
      let rwa = in_rwa ini in
      and_then (panic_if (tk_balance H rwa account w < unsent) RV_InvalidAmount) (\<lambda>_.
        if unsent = ba_units b then
          and_then (call_result (rh_sweep R (calling e account) account rwa (current_contract e) w)) (\<lambda>(x, w).
            let s = s\<lparr>rv_busy := (rv_busy s)(account := None)\<rparr> in
            and_then (tally (\<lambda>t.
                and_then (i128_add (to_pooled t) (ba_units b)) (\<lambda>p.
                and_then (u32_sub (to_sent t) 1) (\<lambda>n.
                  Inr (t\<lparr>to_pooled := p, to_sent := n\<rparr>)))) s) (\<lambda>s.
              Inr (put_batch i (b\<lparr>ba_status := B_Open, ba_account := None, ba_unsent := 0, ba_strike := 0\<rparr>) s, w)))
        else Inr (put_batch i (b\<lparr>ba_unsent := unsent\<rparr>) s, w))))))))))"

subsection \<open>The operator\<close>

definition withdraw_batch :: "'w host \<Rightarrow> env \<Rightarrow> nat \<Rightarrow> address \<Rightarrow> redemption_vault \<Rightarrow> 'w \<Rightarrow>
    (RedemptionError, redemption_vault \<times> 'w) res" where
  "withdraw_batch H e i to s w =
    and_then (roles s) (\<lambda>ro.
    and_then (require_auth e (rl_operator ro)) (\<lambda>_.
    and_then (mode_is M_Manual s) (\<lambda>st.
    and_then (panic_if (to \<notin> set (se_destinations st)) RV_NotAllowed) (\<lambda>_.
    and_then (with_status i B_Open s) (\<lambda>b.
    and_then (rv_init_of s) (\<lambda>ini.
    and_then (rv_send H e (in_rwa ini) to (ba_units b) w) (\<lambda>w.
    and_then (tally (sub_pooled (ba_units b)) s) (\<lambda>s.
    and_then (mark_sent H e i b st s w) (\<lambda>s.
      Inr (s, w))))))))))"

text \<open>The NAV floor of a settlement: the units redeemed at \<open>price\<close>, less the floor's margin, both rounded up.\<close>

definition nav_floor :: "int \<Rightarrow> int \<Rightarrow> nat \<Rightarrow> (RedemptionError, int) res" where
  "nav_floor redeemed price floor_bps =
    (case mul_div_ceil redeemed price ONE of
       Inl _ \<Rightarrow> Inl (Err RV_InvalidAmount)
     | Inr worth \<Rightarrow>
         (case mul_div_ceil worth (BPS - int floor_bps) BPS of
            Inl _ \<Rightarrow> Inl (Err RV_InvalidAmount)
          | Inr floor \<Rightarrow> Inr floor))"

definition settle_manual :: "'w host \<Rightarrow> env \<Rightarrow> nat \<Rightarrow> int \<Rightarrow> int \<Rightarrow> redemption_vault \<Rightarrow> 'w \<Rightarrow>
    (RedemptionError, redemption_vault \<times> 'w) res" where
  "settle_manual H e i proceeds returned s w =
    and_then (roles s) (\<lambda>ro.
      let operator = rl_operator ro in
      and_then (require_auth e operator) (\<lambda>_.
      and_then (with_status i B_Sent s) (\<lambda>b.
      and_then (panic_if (ba_account b \<noteq> None) RV_WrongMode) (\<lambda>_.
      and_then (panic_if (proceeds < 0 \<or> returned < 0 \<or> ba_units b < returned) RV_InvalidAmount) (\<lambda>_.
      and_then (settings s) (\<lambda>st.
      and_then (if ba_strike b \<noteq> 0 then Inr (ba_strike b) else nav H e st s w) (\<lambda>price.
      and_then (panic_if (price = 0) RV_NoPrice) (\<lambda>_.
      and_then (i128_sub (ba_units b) returned) (\<lambda>redeemed.
      and_then (nav_floor redeemed price (se_floor_bps st)) (\<lambda>floor.
      and_then (panic_if (proceeds < floor) RV_ProceedsTooLow) (\<lambda>_.
      and_then (rv_init_of s) (\<lambda>ini.
        let me = current_contract e in
        and_then (token_transfer H e (in_stable ini) operator me proceeds w) (\<lambda>w.
        and_then (if returned \<noteq> 0 then token_transfer H e (in_rwa ini) operator me returned w else Inr w) (\<lambda>w.
          finish H e i (b\<lparr>ba_unsent := returned\<rparr>) proceeds s w))))))))))))))"

subsection \<open>Governance\<close>

definition rv_kind :: "RvChange \<Rightarrow> kind" where
  "rv_kind c = (case c of C_Settings _ \<Rightarrow> 0 | C_Roles _ \<Rightarrow> 1 | C_Skim _ _ \<Rightarrow> 2 | C_Delay _ \<Rightarrow> 3)"

definition rv_submit :: "env \<Rightarrow> RvChange \<Rightarrow> redemption_vault \<Rightarrow> (RedemptionError, nat \<times> redemption_vault) res" where
  "rv_submit e change s =
    and_then (roles s) (\<lambda>ro.
    and_then (require_auth e (rl_admin ro)) (\<lambda>_.
    and_then (case change of C_Settings st \<Rightarrow> check_settings st | _ \<Rightarrow> Inr ()) (\<lambda>_.
    and_then (submit e (rv_kind change) change (rv_timelock s)) (\<lambda>(valid_at, t).
      Inr (valid_at, s\<lparr>rv_timelock := t\<rparr>)))))"

definition apply_settings :: "'w rv_host \<Rightarrow> env \<Rightarrow> Settings \<Rightarrow> redemption_vault \<Rightarrow> 'w \<Rightarrow>
    (RedemptionError, redemption_vault \<times> 'w) res" where
  "apply_settings R e st s w =
    and_then (settings s) (\<lambda>old.
      let switched = (se_mode st \<noteq> se_mode old \<or> se_strike_at_send st \<noteq> se_strike_at_send old) in
      and_then (panic_if (switched \<and> to_sent (totals s) \<noteq> 0) RV_BatchesInFlight) (\<lambda>_.
      and_then
        (if se_gate st \<noteq> se_gate old then
           (case open_batch s of
              Some i \<Rightarrow>
                and_then (batch_of i s) (\<lambda>b.
                  call_result (rh_set_gate R (calling e (ba_ct b)) (ba_ct b) (se_gate st) w))
            | None \<Rightarrow> Inr w)
         else Inr w) (\<lambda>w.
        Inr (s\<lparr>rv_settings := Some st\<rparr>, w))))"

definition skim :: "'w host \<Rightarrow> env \<Rightarrow> address \<Rightarrow> address \<Rightarrow> redemption_vault \<Rightarrow> 'w \<Rightarrow> (RedemptionError, 'w) res" where
  "skim H e tok to s w =
    and_then (rv_init_of s) (\<lambda>ini.
      let t = totals s; amount = tk_balance H tok (current_contract e) w in
      and_then (if tok = in_stable ini then i128_sub amount (to_proceeds t) else Inr amount) (\<lambda>amount.
      and_then
        (if tok = in_rwa ini
         then and_then (i128_add (to_pooled t) (to_rwa t)) (\<lambda>owed. i128_sub amount owed)
         else Inr amount) (\<lambda>amount.
        rv_send H e tok to amount w)))"

definition rv_accept :: "'w host \<Rightarrow> 'w rv_host \<Rightarrow> env \<Rightarrow> kind \<Rightarrow> redemption_vault \<Rightarrow> 'w \<Rightarrow>
    (RedemptionError, redemption_vault \<times> 'w) res" where
  "rv_accept H R e k s w =
    and_then (map_err RV_Timelock (take_change e k (rv_timelock s))) (\<lambda>(change, t).
      let s = s\<lparr>rv_timelock := t\<rparr> in
      case change of
        C_Settings st \<Rightarrow> apply_settings R e st s w
      | C_Roles ro \<Rightarrow>
          Inr (s\<lparr>rv_timelock := init (delay t) (rl_guardian ro) t, rv_roles := Some ro\<rparr>, w)
      | C_Skim tok to \<Rightarrow> and_then (skim H e tok to s w) (\<lambda>w. Inr (s, w))
      | C_Delay d \<Rightarrow> and_then (guardian t) (\<lambda>g. Inr (s\<lparr>rv_timelock := init d g t\<rparr>, w)))"

definition rv_pending :: "kind \<Rightarrow> redemption_vault \<Rightarrow> (RvChange \<times> nat) option" where
  "rv_pending k s = pending k (rv_timelock s)"

definition rv_revoke :: "env \<Rightarrow> kind \<Rightarrow> address \<Rightarrow> redemption_vault \<Rightarrow> (RedemptionError, redemption_vault) res" where
  "rv_revoke e k caller s =
    and_then (roles s) (\<lambda>ro.
    and_then (map_err RV_Timelock (revoke e k caller (rl_admin ro) (rv_timelock s))) (\<lambda>t.
      Inr (s\<lparr>rv_timelock := t\<rparr>)))"

definition rv_set_paused :: "env \<Rightarrow> address \<Rightarrow> bool \<Rightarrow> redemption_vault \<Rightarrow> (RedemptionError, redemption_vault) res" where
  "rv_set_paused e caller p s =
    and_then (require_auth e caller) (\<lambda>_.
    and_then (roles s) (\<lambda>ro.
    and_then (panic_if (caller \<noteq> rl_admin ro \<and> caller \<noteq> rl_guardian ro) RV_NotAuthorized) (\<lambda>_.
      Inr (s\<lparr>rv_paused := Some p\<rparr>))))"

subsection \<open>Prices of claims\<close>

definition claim_value :: "'w rv_host \<Rightarrow> env \<Rightarrow> nat \<Rightarrow> int \<Rightarrow> redemption_vault \<Rightarrow> 'w \<Rightarrow> (RedemptionError, int) res" where
  "claim_value R e i price s w =
    and_then (batch_of i s) (\<lambda>b.
      if ba_status b = B_Settled then
        and_then (call_result (rh_total_supply R (calling e (ba_ct b)) (ba_ct b) w)) (\<lambda>spl.
          if spl = 0 then Inr 0
          else
            and_then (rv_md (ba_remaining b) ONE spl) (\<lambda>cash.
            and_then (rv_md (ba_unsent b) price spl) (\<lambda>in_kind.
              i128_add cash in_kind)))
      else
        and_then (settings s) (\<lambda>st.
          rv_md (if ba_strike b \<noteq> 0 then ba_strike b else price) (BPS - int (se_fee_bps st)) BPS))"

definition rv_get_price :: "'w host \<Rightarrow> 'w rv_host \<Rightarrow> env \<Rightarrow> address \<Rightarrow> address \<Rightarrow> redemption_vault \<Rightarrow> 'w \<Rightarrow>
    (RedemptionError, PriceData) res" where
  "rv_get_price H R e base quote s w =
    and_then
      (case rv_cts s base of
         Some i \<Rightarrow>
           and_then (rv_init_of s) (\<lambda>ini.
             if quote = in_stable ini then
               and_then (settings s) (\<lambda>st.
               and_then (nav H e st s w) (\<lambda>n.
                 claim_value R e i n s w))
             else Inr 0)
       | None \<Rightarrow> Inr 0) (\<lambda>p.
      Inr \<lparr>pd_price = p, pd_timestamp = ledger_timestamp e\<rparr>)"

end
