(* ===== verification/Redemption_Inv.thy ===== *)
theory Redemption_Inv
  imports Redemption_Vault
begin

text \<open>
  The redemption vault's books: the totals are the sums over the batches, the open batch is open, ids are fresh. The
  interface to tokens, claim tokens and accounts is the locale \<open>redemption_laws\<close>; inside it every operation keeps the
  vault able to pay what its books say it owes.
\<close>

subsection \<open>Operations\<close>

datatype rv_op =
    RO_Request address int address
  | RO_Cancel address nat int address
  | RO_Claim address nat int address
  | RO_Redeem_Batch nat "address option" "Call list"
  | RO_Settle nat "Call list" int
  | RO_Reopen nat "Call list" int
  | RO_Withdraw_Batch nat address
  | RO_Settle_Manual nat int int
  | RO_Add_Accounts nat
  | RO_Submit RvChange
  | RO_Accept kind
  | RO_Revoke kind address
  | RO_Set_Paused address bool

fun rv_exec :: "'w host \<Rightarrow> 'w rv_host \<Rightarrow> env \<Rightarrow> rv_op \<Rightarrow> redemption_vault \<Rightarrow> 'w \<Rightarrow> (RedemptionError, redemption_vault \<times> 'w) res" where
  "rv_exec H R e (RO_Request a x c) s w = and_then (request_redeem H R e a x c s w) (\<lambda>(i, s, w). Inr (s, w))"
| "rv_exec H R e (RO_Cancel a i x r) s w = rv_cancel H R e a i x r s w"
| "rv_exec H R e (RO_Claim a i x r) s w = and_then (claim H R e a i x r s w) (\<lambda>(v, s, w). Inr (s, w))"
| "rv_exec H R e (RO_Redeem_Batch i sp cs) s w = redeem_batch H R e i sp cs s w"
| "rv_exec H R e (RO_Settle i cs m) s w = rv_settle H R e i cs m s w"
| "rv_exec H R e (RO_Reopen i cs x) s w = reopen H R e i cs x s w"
| "rv_exec H R e (RO_Withdraw_Batch i a) s w = withdraw_batch H e i a s w"
| "rv_exec H R e (RO_Settle_Manual i p r) s w = settle_manual H e i p r s w"
| "rv_exec H R e (RO_Add_Accounts n) s w = add_accounts R e n s w"
| "rv_exec H R e (RO_Submit c) s w = and_then (rv_submit e c s) (\<lambda>(v, s). Inr (s, w))"
| "rv_exec H R e (RO_Accept k) s w = rv_accept H R e k s w"
| "rv_exec H R e (RO_Revoke k a) s w = and_then (rv_revoke e k a s) (\<lambda>s. Inr (s, w))"
| "rv_exec H R e (RO_Set_Paused a b) s w = and_then (rv_set_paused e a b s) (\<lambda>s. Inr (s, w))"

subsection \<open>The books\<close>

definition part :: "(Batch \<Rightarrow> int) \<Rightarrow> redemption_vault \<Rightarrow> nat \<Rightarrow> int" where
  "part f s i = (case rv_batches s i of None \<Rightarrow> 0 | Some b \<Rightarrow> f b)"

definition booked :: "(Batch \<Rightarrow> int) \<Rightarrow> redemption_vault \<Rightarrow> int" where
  "booked f s = total_over (dom (rv_batches s)) (part f s)"

definition pooled_of :: "Batch \<Rightarrow> int" where "pooled_of b = (if ba_status b = B_Open then ba_units b else 0)"
definition cash_of :: "Batch \<Rightarrow> int" where "cash_of b = (if ba_status b = B_Settled then ba_remaining b else 0)"
definition in_kind_of :: "Batch \<Rightarrow> int" where "in_kind_of b = (if ba_status b = B_Settled then ba_unsent b else 0)"
definition sent_of :: "Batch \<Rightarrow> int" where "sent_of b = (if ba_status b = B_Sent then 1 else 0)"

lemmas part_defs = pooled_of_def cash_of_def in_kind_of_def sent_of_def

definition books :: "redemption_vault \<Rightarrow> bool" where
  "books s \<longleftrightarrow> finite (dom (rv_batches s)) \<and> to_pooled (totals s) = booked pooled_of s \<and>
     to_proceeds (totals s) = booked cash_of s \<and> to_rwa (totals s) = booked in_kind_of s \<and>
     int (to_sent (totals s)) = booked sent_of s"

lemma totals_frame [simp]:
  "totals (s\<lparr>rv_totals := Some t\<rparr>) = t"
  "totals (s\<lparr>rv_batches := m\<rparr>) = totals s"
  "totals (s\<lparr>rv_busy := bu\<rparr>) = totals s"
  "totals (s\<lparr>rv_open := op\<rparr>) = totals s"
  "totals (s\<lparr>rv_next := nx\<rparr>) = totals s"
  "totals (s\<lparr>rv_cts := ct\<rparr>) = totals s"
  "totals (s\<lparr>rv_accounts := ac\<rparr>) = totals s"
  "totals (s\<lparr>rv_timelock := tlk\<rparr>) = totals s"
  "totals (s\<lparr>rv_settings := se\<rparr>) = totals s"
  "totals (s\<lparr>rv_roles := ro\<rparr>) = totals s"
  "totals (s\<lparr>rv_init := ini\<rparr>) = totals s"
  "totals (s\<lparr>rv_paused := pa\<rparr>) = totals s"
  by (simp_all add: totals_def)

lemma booked_cong: "rv_batches s' = rv_batches s \<Longrightarrow> booked f s' = booked f s"
proof -
  assume "rv_batches s' = rv_batches s"
  then have "part f s' = part f s" by (simp add: part_def fun_eq_iff)
  with \<open>rv_batches s' = rv_batches s\<close> show ?thesis by (simp add: booked_def)
qed

lemma booked_put:
  assumes "finite (dom (rv_batches s))" "rv_batches s' = (rv_batches s)(i \<mapsto> b)"
  shows "booked f s' = booked f s - part f s i + f b"
proof -
  let ?D = "insert i (dom (rv_batches s))"
  have "part f s' = (part f s)(i := f b)" by (auto simp: part_def assms(2))
  then have "booked f s' = total_over ?D ((part f s)(i := f b))" by (simp add: booked_def assms(2))
  also have "\<dots> = total_over ?D (part f s) - part f s i + f b"
    using assms(1) by (intro total_over_upd) auto
  also have "total_over ?D (part f s) = booked f s"
    unfolding booked_def using assms(1) by (intro total_over_extend) (auto simp: part_def domIff)
  finally show ?thesis .
qed

lemma part_le_booked:
  assumes "finite (dom (rv_batches s))" "\<And>b. b \<in> ran (rv_batches s) \<Longrightarrow> 0 \<le> f b"
  shows "part f s i \<le> booked f s" "0 \<le> booked f s"
proof -
  have nonneg: "0 \<le> part f s x" for x
    using assms(2) by (auto simp: part_def ran_def split: option.splits)
  then show zero: "0 \<le> booked f s" by (simp add: booked_def total_over_def sum_nonneg)
  show "part f s i \<le> booked f s"
  proof (cases "i \<in> dom (rv_batches s)")
    case True
    with assms(1) nonneg show ?thesis unfolding booked_def by (intro total_over_ge)
  next
    case False
    then have "part f s i = 0" by (simp add: part_def domIff)
    with zero show ?thesis by simp
  qed
qed

lemma books_put:
  assumes "books s" "rv_batches s' = (rv_batches s)(i \<mapsto> b)"
    and "to_pooled (totals s') = to_pooled (totals s) - part pooled_of s i + pooled_of b"
    and "to_proceeds (totals s') = to_proceeds (totals s) - part cash_of s i + cash_of b"
    and "to_rwa (totals s') = to_rwa (totals s) - part in_kind_of s i + in_kind_of b"
    and "int (to_sent (totals s')) = int (to_sent (totals s)) - part sent_of s i + sent_of b"
  shows "books s'"
proof -
  have fin: "finite (dom (rv_batches s))" using assms(1) by (simp add: books_def)
  have "finite (dom (rv_batches s'))" unfolding assms(2) using fin by simp
  moreover note booked_put [OF fin assms(2), of pooled_of] booked_put [OF fin assms(2), of cash_of]
    booked_put [OF fin assms(2), of in_kind_of] booked_put [OF fin assms(2), of sent_of]
  ultimately show ?thesis unfolding books_def using assms(1,3-6) unfolding books_def by simp
qed

lemma books_cong: "books s \<Longrightarrow> rv_batches s' = rv_batches s \<Longrightarrow> totals s' = totals s \<Longrightarrow> books s'"
  unfolding books_def using booked_cong [of s' s] by simp

subsection \<open>The invariant\<close>

definition batch_ok :: "address \<Rightarrow> Batch \<Rightarrow> bool" where
  "batch_ok me b \<longleftrightarrow> 0 \<le> ba_units b \<and> 0 \<le> ba_unsent b \<and> 0 \<le> ba_remaining b \<and> ba_account b \<noteq> Some me"

definition settings_ok :: "Settings \<Rightarrow> bool" where
  "settings_ok st \<longleftrightarrow> se_fee_bps st \<le> RV_MAX_FEE_BPS \<and> int (se_floor_bps st) \<le> BPS \<and>
     (0 < se_fee_bps st \<longrightarrow> se_fee_recipient st \<noteq> None)"

definition rv_inv :: "address \<Rightarrow> address \<Rightarrow> address \<Rightarrow> redemption_vault \<Rightarrow> bool" where
  "rv_inv me rwa stbl s \<longleftrightarrow> books s \<and>
     (\<forall>i b. rv_batches s i = Some b \<longrightarrow> batch_ok me b \<and> i < (case rv_next s of None \<Rightarrow> 0 | Some n \<Rightarrow> n)) \<and>
     (\<forall>i. rv_open s = Some i \<longrightarrow> (\<exists>b. rv_batches s i = Some b \<and> ba_status b = B_Open)) \<and>
     (\<forall>ini. rv_init s = Some ini \<longrightarrow> in_rwa ini = rwa \<and> in_stable ini = stbl) \<and>
     (\<forall>st. rv_settings s = Some st \<longrightarrow> settings_ok st) \<and>
     (\<forall>k st v. tl_pending (rv_timelock s) k = Some (C_Settings st, v) \<longrightarrow> settings_ok st) \<and>
     me \<notin> set (accounts s)"

definition solvent :: "'w host \<Rightarrow> ('w \<Rightarrow> bool) \<Rightarrow> address \<Rightarrow> address \<Rightarrow> address \<Rightarrow> redemption_vault \<Rightarrow> 'w \<Rightarrow> bool" where
  "solvent H ok me rwa stbl s w \<longleftrightarrow> ok w \<and>
     to_pooled (totals s) + to_rwa (totals s) \<le> tk_balance H rwa me w \<and> to_proceeds (totals s) \<le> tk_balance H stbl me w"

lemma check_settings_Inr_iff [rs]: "check_settings st = Inr u \<longleftrightarrow> settings_ok st"
  by (auto simp: check_settings_def settings_ok_def rs)

lemma rv_inv_put:
  assumes "rv_inv me rwa stbl s" "rv_batches s' = (rv_batches s)(i \<mapsto> b)" "books s'" "batch_ok me b"
    and "rv_batches s i \<noteq> None" "rv_next s' = rv_next s"
    and "\<And>j. rv_open s' = Some j \<Longrightarrow> rv_open s = Some j \<and> (j = i \<longrightarrow> ba_status b = B_Open)"
    and "rv_init s' = rv_init s" "rv_settings s' = rv_settings s" "rv_timelock s' = rv_timelock s" "accounts s' = accounts s"
  shows "rv_inv me rwa stbl s'"
  using assms unfolding rv_inv_def by (auto split: if_splits)

lemma rv_inv_frame:
  assumes "rv_inv me rwa stbl s" "rv_batches s' = rv_batches s" "totals s' = totals s" "rv_next s' = rv_next s" "rv_open s' = rv_open s"
    and "rv_init s' = rv_init s" "\<And>st. rv_settings s' = Some st \<Longrightarrow> settings_ok st"
    and "\<And>k st v. tl_pending (rv_timelock s') k = Some (C_Settings st, v) \<Longrightarrow> settings_ok st" "me \<notin> set (accounts s')"
  shows "rv_inv me rwa stbl s'"
  using assms books_cong [of s s'] unfolding rv_inv_def by auto

lemma rv_inv_batch:
  "rv_inv me rwa stbl s \<Longrightarrow> rv_batches s i = Some b \<Longrightarrow> batch_ok me b"
  "rv_inv me rwa stbl s \<Longrightarrow> books s"
  "rv_inv me rwa stbl s \<Longrightarrow> rv_init s = Some ini \<Longrightarrow> in_rwa ini = rwa \<and> in_stable ini = stbl"
  "rv_inv me rwa stbl s \<Longrightarrow> rv_settings s = Some st \<Longrightarrow> settings_ok st"
  "rv_inv me rwa stbl s \<Longrightarrow> tl_pending (rv_timelock s) k = Some (C_Settings st, v) \<Longrightarrow> settings_ok st"
  "rv_inv me rwa stbl s \<Longrightarrow> me \<notin> set (accounts s)"
  unfolding rv_inv_def by blast+

lemma accounts_frame [simp]:
  "accounts (s\<lparr>rv_totals := t\<rparr>) = accounts s"
  "accounts (s\<lparr>rv_batches := m\<rparr>) = accounts s"
  "accounts (s\<lparr>rv_busy := bu\<rparr>) = accounts s"
  "accounts (s\<lparr>rv_open := op\<rparr>) = accounts s"
  "accounts (s\<lparr>rv_next := nx\<rparr>) = accounts s"
  "accounts (s\<lparr>rv_cts := ct\<rparr>) = accounts s"
  "accounts (s\<lparr>rv_timelock := tlk\<rparr>) = accounts s"
  "accounts (s\<lparr>rv_settings := se\<rparr>) = accounts s"
  "accounts (s\<lparr>rv_roles := ro\<rparr>) = accounts s"
  "accounts (s\<lparr>rv_paused := pa\<rparr>) = accounts s"
  by (simp_all add: accounts_def)

lemma part_Some: "rv_batches s i = Some b \<Longrightarrow> part f s i = f b"
  by (simp add: part_def)

lemma part_None: "rv_batches s i = None \<Longrightarrow> part f s i = 0"
  by (simp add: part_def)

subsection \<open>How operations decompose\<close>

lemma rv_reads_Inr_iff [rs]:
  "rv_init_of s = Inr ini \<longleftrightarrow> rv_init s = Some ini"
  "roles s = Inr ro \<longleftrightarrow> rv_roles s = Some ro"
  "settings s = Inr st \<longleftrightarrow> rv_settings s = Some st"
  "batch_of i s = Inr b \<longleftrightarrow> rv_batches s i = Some b"
  "with_status i stt s = Inr b \<longleftrightarrow> rv_batches s i = Some b \<and> ba_status b = stt"
  "mode_is m s = Inr st \<longleftrightarrow> rv_settings s = Some st \<and> se_mode st = m"
  "tally f s = Inr s' \<longleftrightarrow> (\<exists>t. f (totals s) = Inr t \<and> s' = s\<lparr>rv_totals := Some t\<rparr>)"
  "add_pooled x t = Inr t' \<longleftrightarrow> is_i128 (to_pooled t + x) \<and> t' = t\<lparr>to_pooled := to_pooled t + x\<rparr>"
  "sub_pooled x t = Inr t' \<longleftrightarrow> is_i128 (to_pooled t - x) \<and> t' = t\<lparr>to_pooled := to_pooled t - x\<rparr>"
  by (auto simp: rv_init_of_def roles_def settings_def batch_of_def batch_def with_status_def mode_is_def tally_def
      add_pooled_def sub_pooled_def rs)

lemma rv_md_Inr_iff [rs]: "rv_md a b d = Inr q \<longleftrightarrow> mul_div a b d = Inr q"
  by (auto simp: rv_md_def split: sum.splits)

lemma open_or_new_Inr:
  assumes "open_or_new R e s w = Inr (i, b, s', w')"
  obtains (old) "rv_open s = Some i" "rv_batches s i = Some b" "s' = s" "w' = w"
  | (new) ct ini st where "rv_open s = None" "rv_next s = Some i" "b = new_batch ct"
      "s' = s\<lparr>rv_next := Some (i + 1), rv_open := Some i, rv_cts := (rv_cts s)(ct \<mapsto> i)\<rparr>"
      "rv_init s = Some ini" "rv_settings s = Some st"
      "\<exists>args. rh_deploy_ct R e (salt CT_SALT i) (in_ct_wasm ini) args w = Some (ct, w')"
proof (cases "rv_open s")
  case None
  with assms show thesis
    by (auto simp: open_or_new_def open_batch_def deploy_ct_def Let_def rs intro!: new)
next
  case (Some j)
  with assms show thesis by (auto simp: open_or_new_def open_batch_def rs intro!: old)
qed

lemma request_redeem_Inr:
  assumes "request_redeem H R e a x c s w = Inr (i, s', w')"
  obtains ini w1 w2 b s1 where "authorised e a" "\<not> rv_is_paused s" "0 < x" "c \<noteq> current_contract e" "rv_init s = Some ini"
    "token_transfer H e (in_rwa ini) a (current_contract e) x w = (Inr w1 :: (RedemptionError, _) res)"
    "open_or_new R e s w1 = Inr (i, b, s1, w2)"
    "rh_mint R (calling e (ba_ct b)) (ba_ct b) c x w2 = Some w'"
    "s' = s1\<lparr>rv_batches := (rv_batches s1)(i \<mapsto> b\<lparr>ba_units := ba_units b + x\<rparr>),
            rv_totals := Some ((totals s1)\<lparr>to_pooled := to_pooled (totals s1) + x\<rparr>)\<rparr>"
  using assms by (auto simp: request_redeem_def Let_def rs put_batch_def intro!: that)

lemma rv_cancel_Inr:
  assumes "rv_cancel H R e a i x r s w = Inr (s', w')"
  obtains ini w1 b where "authorised e a" "0 < x" "rv_batches s i = Some b" "ba_status b = B_Open" "x \<le> ba_units b"
    "rv_init s = Some ini" "rh_burn_claim R (calling e (ba_ct b)) (ba_ct b) a x w = Some w1"
    "rv_send H e (in_rwa ini) r x w1 = Inr w'"
    "s' = s\<lparr>rv_batches := (rv_batches s)(i \<mapsto> b\<lparr>ba_units := ba_units b - x\<rparr>),
            rv_totals := Some ((totals s)\<lparr>to_pooled := to_pooled (totals s) - x\<rparr>)\<rparr>"
  using assms by (auto simp: rv_cancel_def Let_def rs put_batch_def not_le not_less intro!: that)

lemma claim_Inr:
  assumes "claim H R e a i x r s w = Inr (assets, s', w')"
  obtains ini w1 w2 b spl units where "authorised e a" "0 < x" "rv_batches s i = Some b" "ba_status b = B_Settled"
    "rv_init s = Some ini" "rh_total_supply R (calling e (ba_ct b)) (ba_ct b) w = Some spl"
    "mul_div x (ba_remaining b) spl = Inr assets" "mul_div x (ba_unsent b) spl = Inr units"
    "rh_burn_claim R (calling e (ba_ct b)) (ba_ct b) a x w = Some w1"
    "rv_send H e (in_stable ini) r assets w1 = Inr w2" "rv_send H e (in_rwa ini) r units w2 = Inr w'"
    "s' = s\<lparr>rv_batches := (rv_batches s)(i \<mapsto> b\<lparr>ba_remaining := ba_remaining b - assets, ba_unsent := ba_unsent b - units\<rparr>),
            rv_totals := Some ((totals s)\<lparr>to_proceeds := to_proceeds (totals s) - assets, to_rwa := to_rwa (totals s) - units\<rparr>)\<rparr>"
proof -
  note st = rv_reads_Inr_iff rv_md_Inr_iff and_then_Inr_iff require_auth_Inr_iff panic_if_Inr_iff call_result_Inr_iff
    i128_ops_Inr_iff
  from assms obtain b spl where b: "authorised e a" "0 < x" "rv_batches s i = Some b" "ba_status b = B_Settled"
    "rh_total_supply R (calling e (ba_ct b)) (ba_ct b) w = Some spl"
    by (auto simp: claim_def Let_def st not_le)
  from assms b show thesis
    by (auto simp: claim_def Let_def st put_batch_def intro!: that [OF b(1,2,3,4) _ b(5)])
qed

lemma mark_sent_Inr:
  assumes "mark_sent H e i b st s w = Inr s'"
  obtains b' where "0 < ba_units b" "ba_status b' = B_Sent" "ba_units b' = ba_units b" "ba_unsent b' = ba_unsent b"
    "ba_remaining b' = ba_remaining b" "ba_account b' = ba_account b" "ba_ct b' = ba_ct b"
    "se_strike_at_send st \<longrightarrow> nav H e st s w = Inr (ba_strike b') \<and> ba_strike b' \<noteq> 0"
    "s' = s\<lparr>rv_open := (if rv_open s = Some i then None else rv_open s), rv_batches := (rv_batches s)(i \<mapsto> b'),
            rv_totals := Some ((totals s)\<lparr>to_sent := to_sent (totals s) + 1\<rparr>)\<rparr>"
proof -
  let ?s = "if rv_open s = Some i then s\<lparr>rv_open := None\<rparr> else s"
  have open_upd: "?s = s\<lparr>rv_open := (if rv_open s = Some i then None else rv_open s)\<rparr>" by simp
  from assms obtain n where n: "nav H e st s w = Inr n" "0 < ba_units b" "se_strike_at_send st \<longrightarrow> n \<noteq> 0"
    by (auto simp: mark_sent_def Let_def rs split: if_splits)
  let ?b = "(if se_strike_at_send st then b\<lparr>ba_nav_start := n, ba_strike := n\<rparr> else b\<lparr>ba_nav_start := n\<rparr>)
      \<lparr>ba_status := B_Sent, ba_sent_at := ledger_timestamp e\<rparr>"
  from assms n have "s' = s\<lparr>rv_open := (if rv_open s = Some i then None else rv_open s), rv_batches := (rv_batches s)(i \<mapsto> ?b),
            rv_totals := Some ((totals s)\<lparr>to_sent := to_sent (totals s) + 1\<rparr>)\<rparr>"
    by (auto simp: mark_sent_def Let_def rs put_batch_def open_batch_def split: if_splits)
  with n show thesis by (intro that [of ?b]) auto
qed

lemma finish_Inr:
  assumes "finish H e i b proceeds s w = Inr (s', w')"
  obtains st fee b' where "rv_settings s = Some st" "mul_div proceeds (int (se_fee_bps st)) BPS = Inr fee"
    "1 \<le> to_sent (totals s)" "ba_status b' = B_Settled" "ba_units b' = ba_units b" "ba_unsent b' = ba_unsent b"
    "ba_remaining b' = proceeds - fee" "ba_account b' = ba_account b" "ba_proceeds b' = proceeds" "ba_fee b' = fee" "ba_ct b' = ba_ct b"
    "s' = s\<lparr>rv_batches := (rv_batches s)(i \<mapsto> b'),
       rv_totals := Some ((totals s)\<lparr>to_proceeds := to_proceeds (totals s) + (proceeds - fee),
         to_rwa := to_rwa (totals s) + ba_unsent b, to_sent := to_sent (totals s) - 1\<rparr>)\<rparr>"
    "w' = w \<or> (\<exists>ini to. rv_init s = Some ini \<and> se_fee_recipient st = Some to \<and> 0 < fee \<and>
       rv_send H e (in_stable ini) to fee w = Inr w')"
proof -
  note st = and_then_Inr_iff rv_reads_Inr_iff rv_md_Inr_iff i128_ops_Inr_iff unsigned_ops_Inr_iff
  from assms obtain st fee where f: "rv_settings s = Some st" "mul_div proceeds (int (se_fee_bps st)) BPS = Inr fee"
    "1 \<le> to_sent (totals s)"
    by (auto simp: finish_def st Let_def)
  let ?s = "\<lambda>b'. s\<lparr>rv_batches := (rv_batches s)(i \<mapsto> b'),
       rv_totals := Some ((totals s)\<lparr>to_proceeds := to_proceeds (totals s) + (proceeds - fee),
         to_rwa := to_rwa (totals s) + ba_unsent b, to_sent := to_sent (totals s) - 1\<rparr>)\<rparr>"
  let ?b = "\<lambda>n. b\<lparr>ba_status := B_Settled, ba_proceeds := proceeds, ba_fee := fee, ba_remaining := proceeds - fee,
       ba_nav_end := n, ba_settled_at := ledger_timestamp e\<rparr>"
  from assms f obtain n where n: "nav H e st (s\<lparr>rv_totals := rv_totals (?s b)\<rparr>) w = Inr n"
    by (auto simp: finish_def st Let_def)
  with assms f have "s' = ?s (?b n)"
    "w' = w \<or> (\<exists>ini to. rv_init s = Some ini \<and> se_fee_recipient st = Some to \<and> 0 < fee \<and>
       rv_send H e (in_stable ini) to fee w = Inr w')"
    by (auto simp: finish_def st Let_def put_batch_def split: option.splits if_splits)
  with f show thesis by (intro that [OF f, of "?b n"]) simp_all
qed

lemma withdraw_batch_Inr:
  assumes "withdraw_batch H e i to s w = Inr (s', w')"
  obtains ro st b ini where "rv_roles s = Some ro" "authorised e (rl_operator ro)" "rv_settings s = Some st" "se_mode st = M_Manual"
    "to \<in> set (se_destinations st)" "rv_batches s i = Some b" "ba_status b = B_Open" "rv_init s = Some ini"
    "rv_send H e (in_rwa ini) to (ba_units b) w = Inr w'"
    "mark_sent H e i b st (s\<lparr>rv_totals := Some ((totals s)\<lparr>to_pooled := to_pooled (totals s) - ba_units b\<rparr>)\<rparr>) w' = Inr s'"
  using assms by (auto simp: withdraw_batch_def rs intro!: that)

lemma settle_manual_Inr:
  assumes "settle_manual H e i proceeds returned s w = Inr (s', w')"
  obtains ro b st price floor ini w1 w2 where "rv_roles s = Some ro" "authorised e (rl_operator ro)" "rv_batches s i = Some b"
    "ba_status b = B_Sent" "ba_account b = None" "0 \<le> proceeds" "0 \<le> returned" "returned \<le> ba_units b"
    "rv_settings s = Some st" "(if ba_strike b \<noteq> 0 then Inr (ba_strike b) else nav H e st s w) = Inr price" "price \<noteq> 0"
    "nav_floor (ba_units b - returned) price (se_floor_bps st) = Inr floor" "floor \<le> proceeds" "rv_init s = Some ini"
    "token_transfer H e (in_stable ini) (rl_operator ro) (current_contract e) proceeds w = (Inr w1 :: (RedemptionError, _) res)"
    "(if returned \<noteq> 0 then token_transfer H e (in_rwa ini) (rl_operator ro) (current_contract e) returned w1 else Inr w1) =
       (Inr w2 :: (RedemptionError, _) res)"
    "finish H e i (b\<lparr>ba_unsent := returned\<rparr>) proceeds s w2 = Inr (s', w')"
  using assms unfolding settle_manual_def Let_def
  by (auto simp: and_then_Inr_iff require_auth_Inr_iff rv_reads_Inr_iff panic_if_Inr_iff i128_ops_Inr_iff not_less
      simp del: if_split intro!: that)

lemma redeem_batch_Inr:
  assumes "redeem_batch H R e i sp cs s w = Inr (s', w')"
  obtains (resent) ro b account where "rv_roles s = Some ro" "authorised e (rl_settler ro)" "rv_batches s i = Some b"
      "ba_status b = B_Sent" "ba_unsent b \<noteq> 0" "ba_account b = Some account"
      "send_from H R e account (ba_unsent b) sp cs s w = Inr w'"
      "s' = s\<lparr>rv_batches := (rv_batches s)(i \<mapsto> b\<lparr>ba_unsent := 0\<rparr>)\<rparr>"
  | (sent) ro b st account ini w1 s1 where "rv_roles s = Some ro" "authorised e (rl_settler ro)" "rv_batches s i = Some b"
      "ba_status b = B_Open" "rv_settings s = Some st" "se_mode st = M_Auto" "free_account s = Inr account" "rv_init s = Some ini"
      "token_transfer H e (in_rwa ini) (current_contract e) account (ba_units b) w = (Inr w1 :: (RedemptionError, _) res)"
      "send_from H R e account (ba_units b) sp cs s w1 = Inr w'"
      "s1 = s\<lparr>rv_busy := (rv_busy s)(account \<mapsto> i), rv_totals := Some ((totals s)\<lparr>to_pooled := to_pooled (totals s) - ba_units b\<rparr>)\<rparr>"
      "to_pooled (totals s) - ba_units b + to_rwa (totals s) \<le> tk_balance H (in_rwa ini) (current_contract e) w'"
      "mark_sent H e i (b\<lparr>ba_account := Some account\<rparr>) st s1 w' = Inr s'"
proof -
  from assms obtain ro b where b: "rv_roles s = Some ro" "authorised e (rl_settler ro)" "rv_batches s i = Some b"
    by (auto simp: redeem_batch_def rs)
  show thesis
  proof (cases "ba_status b = B_Sent")
    case True
    with assms b show thesis
      by (auto simp: redeem_batch_def resend_def put_batch_def rs intro!: resent [OF b])
  next
    case False
    with assms b show thesis
      by (auto simp: redeem_batch_def Let_def and_then_Inr_iff require_auth_Inr_iff rv_reads_Inr_iff panic_if_Inr_iff i128_ops_Inr_iff
          not_less intro!: sent [OF b])
  qed
qed

lemma rv_settle_Inr:
  assumes "rv_settle H R e i cs m s w = Inr (s', w')"
  obtains ro b account ini w1 w2 w3 proceeds where "rv_roles s = Some ro" "authorised e (rl_settler ro)" "rv_batches s i = Some b"
    "ba_status b = B_Sent" "ba_account b = Some account" "rv_init s = Some ini" "run_calls R e account cs s w = Inr w1"
    "\<exists>x. rh_sweep R (calling e account) account (in_stable ini) (current_contract e) w1 = Some (x, w2)"
    "w3 = w2 \<or> (\<exists>v. rh_execute R (calling e account) account (in_rwa ini) ''transfer''
       [AddressVal account, AddressVal (current_contract e), I128Val (ba_unsent b)] w2 = Some (v, w3))"
    "tk_balance H (in_rwa ini) (current_contract e) w3 = tk_balance H (in_rwa ini) (current_contract e) w + ba_unsent b"
    "proceeds = tk_balance H (in_stable ini) (current_contract e) w3 - tk_balance H (in_stable ini) (current_contract e) w"
    "m \<le> proceeds" "finish H e i b proceeds (s\<lparr>rv_busy := (rv_busy s)(account := None)\<rparr>) w3 = Inr (s', w')"
proof -
  note st = and_then_Inr_iff rv_reads_Inr_iff require_auth_Inr_iff or_panic_Inr_iff i128_ops_Inr_iff call_result_Inr_iff
    panic_if_Inr_iff
  from assms obtain ro b account ini where b: "rv_roles s = Some ro" "authorised e (rl_settler ro)" "rv_batches s i = Some b"
    "ba_status b = B_Sent" "ba_account b = Some account" "rv_init s = Some ini"
    by (auto simp: rv_settle_def st Let_def)
  show thesis
  proof (cases "ba_unsent b = 0")
    case True
    with assms b show thesis
      by (auto simp: rv_settle_def st Let_def not_less intro!: that [OF b])
  next
    case False
    with assms b obtain w1 x w2 v w3 where "run_calls R e account cs s w = Inr w1"
      "rh_sweep R (calling e account) account (in_stable ini) (current_contract e) w1 = Some (x, w2)"
      "rh_execute R (calling e account) account (in_rwa ini) ''transfer''
         [AddressVal account, AddressVal (current_contract e), I128Val (ba_unsent b)] w2 = Some (v, w3)"
      "tk_balance H (in_rwa ini) (current_contract e) w3 = tk_balance H (in_rwa ini) (current_contract e) w + ba_unsent b"
      "m \<le> tk_balance H (in_stable ini) (current_contract e) w3 - tk_balance H (in_stable ini) (current_contract e) w"
      "finish H e i b (tk_balance H (in_stable ini) (current_contract e) w3 - tk_balance H (in_stable ini) (current_contract e) w)
         (s\<lparr>rv_busy := (rv_busy s)(account := None)\<rparr>) w3 = Inr (s', w')"
      by (auto simp: rv_settle_def st Let_def not_less)
    with b show thesis by (intro that [OF b]) auto
  qed
qed

lemma reopen_Inr:
  assumes "reopen H R e i cs x s w = Inr (s', w')"
  obtains ro b account ini w1 where "rv_roles s = Some ro" "authorised e (rl_settler ro)" "rv_batches s i = Some b"
    "ba_status b = B_Sent" "ba_account b = Some account" "0 < x" "ba_unsent b + x \<le> ba_units b" "rv_init s = Some ini"
    "run_calls R e account cs s w = Inr w1" "ba_unsent b + x \<le> tk_balance H (in_rwa ini) account w1"
    "(if ba_unsent b + x = ba_units b then
        (\<exists>y. rh_sweep R (calling e account) account (in_rwa ini) (current_contract e) w1 = Some (y, w')) \<and> 1 \<le> to_sent (totals s) \<and>
        s' = s\<lparr>rv_busy := (rv_busy s)(account := None),
               rv_batches := (rv_batches s)(i \<mapsto> b\<lparr>ba_status := B_Open, ba_account := None, ba_unsent := 0, ba_strike := 0\<rparr>),
               rv_totals := Some ((totals s)\<lparr>to_pooled := to_pooled (totals s) + ba_units b, to_sent := to_sent (totals s) - 1\<rparr>)\<rparr>
      else w' = w1 \<and> s' = s\<lparr>rv_batches := (rv_batches s)(i \<mapsto> b\<lparr>ba_unsent := ba_unsent b + x\<rparr>)\<rparr>)"
proof -
  note st = and_then_Inr_iff rv_reads_Inr_iff require_auth_Inr_iff or_panic_Inr_iff i128_ops_Inr_iff unsigned_ops_Inr_iff
    call_result_Inr_iff panic_if_Inr_iff
  from assms obtain ro b account ini where b: "rv_roles s = Some ro" "authorised e (rl_settler ro)" "rv_batches s i = Some b"
    "ba_status b = B_Sent" "ba_account b = Some account" and i: "rv_init s = Some ini" "0 < x" "ba_unsent b + x \<le> ba_units b"
    by (auto simp: reopen_def st Let_def not_le not_less)
  show thesis
  proof (cases "ba_unsent b + x = ba_units b")
    case True
    with assms b i show thesis
      by (auto simp: reopen_def st Let_def not_less put_batch_def intro!: that [OF b i(2,3,1)])
  next
    case False
    with assms b i show thesis
      by (auto simp: reopen_def st Let_def not_less put_batch_def intro!: that [OF b i(2,3,1)])
  qed
qed

subsection \<open>The interface\<close>

text \<open>
  What the vault relies on. Tokens are SEP-41. \<open>ok\<close> is whatever holds of the world around the vault and is kept by every
  call (claim tokens with consistent ledgers). Claim tokens, their deployment and a gate change move neither the RWA nor
  the stable, and a burn is of claims in existence. A call made from a redemption account without the vault's signature
  cannot take the vault's own RWA or stable: the vault is not its invoker and grants no allowance. An account's sweep
  hands over what the account holds. A deployed account is not the vault itself.
\<close>

locale redemption_laws = sep41_host H for H :: "'w host" +
  fixes R :: "'w rv_host" and ok :: "'w \<Rightarrow> bool" and me rwa stbl :: address
  assumes transfer_ok: "ok w \<Longrightarrow> tk_transfer H e tok a b x w = Some w' \<Longrightarrow> ok w'"
    and mint_law: "ok w \<Longrightarrow> rh_mint R e ct a x w = Some w' \<Longrightarrow> 0 < x \<Longrightarrow>
      ok w' \<and> (t \<in> {rwa, stbl} \<longrightarrow> tk_balance H t c w' = tk_balance H t c w)"
    and burn_law: "ok w \<Longrightarrow> rh_burn_claim R e ct a x w = Some w' \<Longrightarrow>
      ok w' \<and> (t \<in> {rwa, stbl} \<longrightarrow> tk_balance H t c w' = tk_balance H t c w) \<and> (rh_total_supply R e ct w = Some n \<longrightarrow> x \<le> n)"
    and gate_law: "ok w \<Longrightarrow> rh_set_gate R e ct g w = Some w' \<Longrightarrow>
      ok w' \<and> (t \<in> {rwa, stbl} \<longrightarrow> tk_balance H t c w' = tk_balance H t c w)"
    and deploy_ct_law: "ok w \<Longrightarrow> rh_deploy_ct R e k h cargs w = Some (ct, w') \<Longrightarrow>
      ok w' \<and> (t \<in> {rwa, stbl} \<longrightarrow> tk_balance H t c w' = tk_balance H t c w)"
    and deploy_account_law: "ok w \<Longrightarrow> rh_deploy_account R e k h vlt w = Some (a, w') \<Longrightarrow> current_contract e = me \<Longrightarrow>
      ok w' \<and> a \<noteq> me \<and> (t \<in> {rwa, stbl} \<longrightarrow> tk_balance H t c w' = tk_balance H t c w)"
    and approve_law: "ok w \<Longrightarrow> rh_approve R e a tok p x w = Some w' \<Longrightarrow>
      ok w' \<and> (t \<in> {rwa, stbl} \<longrightarrow> tk_balance H t c w' = tk_balance H t c w)"
    and execute_law: "ok w \<Longrightarrow> rh_execute R e a tgt f args w = Some (v, w') \<Longrightarrow> a \<noteq> me \<Longrightarrow> \<not> signed e me \<Longrightarrow>
      ok w' \<and> (t \<in> {rwa, stbl} \<longrightarrow> tk_balance H t me w \<le> tk_balance H t me w')"
    and sweep_law: "ok w \<Longrightarrow> rh_sweep R e a tok me w = Some (x, w') \<Longrightarrow> a \<noteq> me \<Longrightarrow>
      ok w' \<and> 0 \<le> tk_balance H tok a w \<and>
      (t \<in> {rwa, stbl} \<longrightarrow> tk_balance H t me w' = tk_balance H t me w + (if t = tok then tk_balance H tok a w else 0))"
    and two_tokens: "rwa \<noteq> stbl"
begin

lemma ok_token: "token_transfer H e tok a b x w = (Inr w' :: (RedemptionError, _) res) \<Longrightarrow> ok w \<Longrightarrow> ok w'"
  using transfer_ok by (auto simp: token_transfer_def rs)

lemma ok_send: "rv_send H e tok to x w = Inr w' \<Longrightarrow> ok w \<Longrightarrow> ok w'"
  using ok_token by (auto simp: rv_send_def split: if_splits)

lemma send_spares:
  assumes "rv_send H e tok to x w = Inr w'" "current_contract e = me" "0 \<le> x"
  shows "tk_balance H t me w - (if t = tok then x else 0) \<le> tk_balance H t me w'"
proof (cases "0 < x")
  case True
  with assms have "token_transfer H e tok me to x w = (Inr w' :: (RedemptionError, _) res)" by (simp add: rv_send_def)
  from token_transfer_moves(4) [OF this, of t me] show ?thesis using assms(3) by (auto simp: moved_def)
next
  case False
  with assms show ?thesis by (simp add: rv_send_def)
qed

lemma run_calls_spares:
  assumes "run_calls R e account cs s w = Inr w'" "account \<noteq> me" "\<not> signed e me" "ok w"
  shows "ok w'" "t \<in> {rwa, stbl} \<Longrightarrow> tk_balance H t me w \<le> tk_balance H t me w'"
proof -
  have "run_call_list R e x v account cs s w = Inr w' \<Longrightarrow> ok w \<Longrightarrow>
      ok w' \<and> (t \<in> {rwa, stbl} \<longrightarrow> tk_balance H t me w \<le> tk_balance H t me w')" for x v
  proof (induction cs arbitrary: w)
    case Nil
    then show ?case by simp
  next
    case (Cons c cs)
    then obtain y w1 where ex: "rh_execute R (calling e account) account (ca_target c) (ca_func c) (ca_args c) w = Some (y, w1)"
      and rest: "run_call_list R e x v account cs s w1 = Inr w'"
      by (auto simp: and_then_Inr_iff call_result_Inr_iff)
    have "ok w1 \<and> (t \<in> {rwa, stbl} \<longrightarrow> tk_balance H t me w \<le> tk_balance H t me w1)"
      using execute_law [OF Cons.prems(2) ex assms(2)] assms(3) by simp
    with Cons.IH [OF rest] show ?case by fastforce
  qed
  with assms(1,4) show "ok w'" "t \<in> {rwa, stbl} \<Longrightarrow> tk_balance H t me w \<le> tk_balance H t me w'"
    by (auto simp: run_calls_def rs)
qed

lemma send_from_spares:
  assumes "send_from H R e account x sp cs s w = Inr w'" "account \<noteq> me" "\<not> signed e me" "ok w"
  shows "ok w'" "t \<in> {rwa, stbl} \<Longrightarrow> tk_balance H t me w \<le> tk_balance H t me w'"
proof -
  from assms(1) obtain rw w1 w2 where
    ap1: "(case sp of Some p \<Rightarrow> call_result (rh_approve R (calling e account) account rw p x w) | None \<Rightarrow> Inr w) =
      (Inr w1 :: (RedemptionError, _) res)"
    and run: "run_calls R e account cs s w1 = Inr w2"
    and ap2: "(case sp of Some p \<Rightarrow> call_result (rh_approve R (calling e account) account rw p 0 w2) | None \<Rightarrow> Inr w2) =
      (Inr w' :: (RedemptionError, _) res)"
    by (auto simp: send_from_def Let_def rs)
  have w1: "ok w1 \<and> (t \<in> {rwa, stbl} \<longrightarrow> tk_balance H t me w1 = tk_balance H t me w)"
    using ap1 approve_law [OF assms(4)] assms(4) by (auto simp: rs split: option.splits)
  note w2 = run_calls_spares [OF run assms(2,3)]
  have w': "ok w' \<and> (t \<in> {rwa, stbl} \<longrightarrow> tk_balance H t me w' = tk_balance H t me w2)"
    using ap2 approve_law w2(1) w1 by (fastforce simp: rs split: option.splits)
  from w1 w2(1) w2(2) [of t] w' show "ok w'" "t \<in> {rwa, stbl} \<Longrightarrow> tk_balance H t me w \<le> tk_balance H t me w'" by auto
qed

text \<open>A call by anyone but the vault itself keeps the books and the cover.\<close>

lemma request_safe:
  assumes "rv_inv me rwa stbl s" "solvent H ok me rwa stbl s w" "request_redeem H R e a x c s w = Inr (i, s', w')"
    and "current_contract e = me" "\<not> authorised e me"
  shows "rv_inv me rwa stbl s' \<and> solvent H ok me rwa stbl s' w'"
  using assms(3)
proof (rule request_redeem_Inr)
  fix ini w1 w2 b s1
  assume a: "authorised e a" "0 < x" "rv_init s = Some ini"
    and tr: "token_transfer H e (in_rwa ini) a (current_contract e) x w = (Inr w1 :: (RedemptionError, _) res)"
    and op: "open_or_new R e s w1 = Inr (i, b, s1, w2)"
    and mi: "rh_mint R (calling e (ba_ct b)) (ba_ct b) c x w2 = Some w'"
    and s': "s' = s1\<lparr>rv_batches := (rv_batches s1)(i \<mapsto> b\<lparr>ba_units := ba_units b + x\<rparr>),
            rv_totals := Some ((totals s1)\<lparr>to_pooled := to_pooled (totals s1) + x\<rparr>)\<rparr>"
  have ini: "in_rwa ini = rwa" using rv_inv_batch(3) [OF assms(1) a(3)] by simp
  have okw: "ok w" using assms(2) by (simp add: solvent_def)
  have "a \<noteq> me" using a(1) assms(5) by auto
  then have w1: "ok w1" "tk_balance H rwa me w1 = tk_balance H rwa me w + x" "tk_balance H stbl me w1 = tk_balance H stbl me w"
    using ok_token [OF tr okw] token_transfer_moves(4) [OF tr, of rwa me] token_transfer_moves(4) [OF tr, of stbl me] two_tokens assms(4)
    by (auto simp: ini)
  from op show ?thesis
  proof (cases rule: open_or_new_Inr)
    case old
    note b = old(2)
    have st: "ba_status b = B_Open" using assms(1) old(1,2) by (auto simp: rv_inv_def)
    have "books s'"
      using rv_inv_batch(2) [OF assms(1)] s' old(3)
      by (intro books_put [of s s' i "b\<lparr>ba_units := ba_units b + x\<rparr>"]) (simp_all add: part_Some [OF b] part_defs st)
    moreover have "batch_ok me (b\<lparr>ba_units := ba_units b + x\<rparr>)"
      using rv_inv_batch(1) [OF assms(1) b] a(2) by (simp add: batch_ok_def)
    ultimately have "rv_inv me rwa stbl s'"
      using assms(1) s' old(3) b st by (intro rv_inv_put [of me rwa stbl s s' i "b\<lparr>ba_units := ba_units b + x\<rparr>"]) auto
    moreover have "solvent H ok me rwa stbl s' w'"
      using assms(2) w1 old(3,4) mint_law [OF _ mi a(2), of rwa me] mint_law [OF _ mi a(2), of stbl me] s' by (simp add: solvent_def)
    ultimately show ?thesis ..
  next
    case (new ct ini' st)
    have fresh: "rv_batches s i = None" using assms(1) new(2) by (fastforce simp: rv_inv_def)
    from new(7) obtain args where dep: "rh_deploy_ct R e (salt CT_SALT i) (in_ct_wasm ini') args w1 = Some (ct, w2)" ..
    have "books s'"
      using rv_inv_batch(2) [OF assms(1)] s' new(3,4)
      by (intro books_put [of s s' i "b\<lparr>ba_units := ba_units b + x\<rparr>"])
        (simp_all add: part_None [OF fresh] part_defs new_batch_def)
    then have "rv_inv me rwa stbl s'"
      using assms(1) a(2) new(2,3) unfolding rv_inv_def
      by (auto simp: s' new(4) batch_ok_def new_batch_def less_Suc_eq)
    moreover have "solvent H ok me rwa stbl s' w'"
      using assms(2) w1 mint_law [OF _ mi a(2), of rwa me] mint_law [OF _ mi a(2), of stbl me] deploy_ct_law [OF w1(1) dep, of rwa me]
        deploy_ct_law [OF w1(1) dep, of stbl me] by (simp add: solvent_def s' new(4))
    ultimately show ?thesis ..
  qed
qed

lemma cancel_safe:
  assumes "rv_inv me rwa stbl s" "solvent H ok me rwa stbl s w" "rv_cancel H R e a i x r s w = Inr (s', w')" "current_contract e = me"
  shows "rv_inv me rwa stbl s' \<and> solvent H ok me rwa stbl s' w'"
  using assms(3)
proof (rule rv_cancel_Inr)
  fix ini w1 b
  assume b: "rv_batches s i = Some b" "ba_status b = B_Open" "x \<le> ba_units b" "0 < x" and ini: "rv_init s = Some ini"
    and bu: "rh_burn_claim R (calling e (ba_ct b)) (ba_ct b) a x w = Some w1" and se: "rv_send H e (in_rwa ini) r x w1 = Inr w'"
    and s': "s' = s\<lparr>rv_batches := (rv_batches s)(i \<mapsto> b\<lparr>ba_units := ba_units b - x\<rparr>),
            rv_totals := Some ((totals s)\<lparr>to_pooled := to_pooled (totals s) - x\<rparr>)\<rparr>"
  let ?b = "b\<lparr>ba_units := ba_units b - x\<rparr>"
  have okw: "ok w" using assms(2) by (simp add: solvent_def)
  have "books s'"
    using rv_inv_batch(2) [OF assms(1)] by (intro books_put [of s s' i ?b]) (simp_all add: s' part_Some [OF b(1)] part_defs b(2))
  moreover have "batch_ok me ?b" using rv_inv_batch(1) [OF assms(1) b(1)] b(3) by (simp add: batch_ok_def)
  ultimately have "rv_inv me rwa stbl s'"
    using assms(1) b(1,2) by (intro rv_inv_put [of me rwa stbl s s' i ?b]) (auto simp: s')
  moreover have "solvent H ok me rwa stbl s' w'"
    using assms(2) rv_inv_batch(3) [OF assms(1) ini] burn_law [OF okw bu, of rwa me] burn_law [OF okw bu, of stbl me] b(4) two_tokens
      ok_send [OF se] send_spares [OF se assms(4), of rwa] send_spares [OF se assms(4), of stbl] by (auto simp: s' solvent_def)
  ultimately show ?thesis ..
qed

lemma claim_safe:
  assumes "rv_inv me rwa stbl s" "solvent H ok me rwa stbl s w" "claim H R e a i x r s w = Inr (v, s', w')" "current_contract e = me"
  shows "rv_inv me rwa stbl s' \<and> solvent H ok me rwa stbl s' w'"
  using assms(3)
proof (rule claim_Inr)
  fix ini w1 w2 b spl units
  assume b: "rv_batches s i = Some b" "ba_status b = B_Settled" "0 < x" and ini: "rv_init s = Some ini"
    and spl: "rh_total_supply R (calling e (ba_ct b)) (ba_ct b) w = Some spl"
    and md: "mul_div x (ba_remaining b) spl = Inr v" "mul_div x (ba_unsent b) spl = Inr units"
    and bu: "rh_burn_claim R (calling e (ba_ct b)) (ba_ct b) a x w = Some w1"
    and se: "rv_send H e (in_stable ini) r v w1 = Inr w2" "rv_send H e (in_rwa ini) r units w2 = Inr w'"
    and s': "s' = s\<lparr>rv_batches := (rv_batches s)(i \<mapsto> b\<lparr>ba_remaining := ba_remaining b - v, ba_unsent := ba_unsent b - units\<rparr>),
            rv_totals := Some ((totals s)\<lparr>to_proceeds := to_proceeds (totals s) - v, to_rwa := to_rwa (totals s) - units\<rparr>)\<rparr>"
  let ?b = "b\<lparr>ba_remaining := ba_remaining b - v, ba_unsent := ba_unsent b - units\<rparr>"
  have okw: "ok w" using assms(2) by (simp add: solvent_def)
  have le: "x \<le> spl" using burn_law [OF okw bu, of rwa me spl] spl by simp
  have share: "q \<le> y" if "mul_div x y spl = Inr q" for y q
    using that le floor_fraction_le [of y spl x] by (auto simp: mul_div_Inr_iff mult.commute)
  note v = share [OF md(1)] share [OF md(2)] mul_div_nonneg [OF md(1)] mul_div_nonneg [OF md(2)]
  have "books s'"
    using rv_inv_batch(2) [OF assms(1)] by (intro books_put [of s s' i ?b]) (simp_all add: s' part_Some [OF b(1)] part_defs b(2))
  moreover have "batch_ok me ?b" using rv_inv_batch(1) [OF assms(1) b(1)] v by (simp add: batch_ok_def)
  ultimately have "rv_inv me rwa stbl s'"
    using assms(1) b(1,2) by (intro rv_inv_put [of me rwa stbl s s' i ?b]) (auto simp: s' rv_inv_def)
  moreover have "solvent H ok me rwa stbl s' w'"
    using assms(2) rv_inv_batch(3) [OF assms(1) ini] burn_law [OF okw bu, of rwa me] burn_law [OF okw bu, of stbl me] v two_tokens
      ok_send [OF se(1)] ok_send [OF se(2)] send_spares [OF se(1) assms(4), of rwa] send_spares [OF se(1) assms(4), of stbl]
      send_spares [OF se(2) assms(4), of rwa] send_spares [OF se(2) assms(4), of stbl]
    by (auto simp: s' solvent_def)
  ultimately show ?thesis ..
qed

lemma mark_sent_safe:
  assumes "rv_inv me rwa stbl s" "mark_sent H e i b st s1 w = Inr s'" "rv_batches s i = Some b0" "ba_status b0 = B_Open"
    and "ba_units b = ba_units b0" "ba_unsent b = ba_unsent b0" "ba_remaining b = ba_remaining b0" "ba_account b \<noteq> Some me"
    and "s1 = s\<lparr>rv_busy := bu, rv_totals := Some ((totals s)\<lparr>to_pooled := to_pooled (totals s) - ba_units b0\<rparr>)\<rparr>"
  shows "rv_inv me rwa stbl s' \<and> totals s' = (totals s)\<lparr>to_pooled := to_pooled (totals s) - ba_units b0, to_sent := to_sent (totals s) + 1\<rparr>"
  using assms(2)
proof (rule mark_sent_Inr)
  fix b'
  assume b': "ba_status b' = B_Sent" "ba_units b' = ba_units b" "ba_unsent b' = ba_unsent b" "ba_remaining b' = ba_remaining b"
      "ba_account b' = ba_account b"
    and s': "s' = s1\<lparr>rv_open := (if rv_open s1 = Some i then None else rv_open s1), rv_batches := (rv_batches s1)(i \<mapsto> b'),
            rv_totals := Some ((totals s1)\<lparr>to_sent := to_sent (totals s1) + 1\<rparr>)\<rparr>"
  have t: "totals s' = (totals s)\<lparr>to_pooled := to_pooled (totals s) - ba_units b0, to_sent := to_sent (totals s) + 1\<rparr>"
    by (simp add: s' assms(9))
  have "books s'"
    using rv_inv_batch(2) [OF assms(1)]
    by (intro books_put [of s s' i b']) (simp_all add: t s' assms(9) part_Some [OF assms(3)] part_defs assms(4) b'(1))
  moreover have "batch_ok me b'" using rv_inv_batch(1) [OF assms(1,3)] b' assms(5-8) by (simp add: batch_ok_def)
  ultimately have "rv_inv me rwa stbl s'"
    using assms(1,3) by (intro rv_inv_put [of me rwa stbl s s' i b']) (auto simp: s' assms(9) split: if_splits)
  with t show ?thesis by simp
qed

lemma not_signed: "\<not> authorised e me \<Longrightarrow> \<not> signed e me"
  by (simp add: authorised_def)

lemma redeem_batch_safe:
  assumes "rv_inv me rwa stbl s" "solvent H ok me rwa stbl s w" "redeem_batch H R e i sp cs s w = Inr (s', w')" "current_contract e = me"
    and "\<not> authorised e me"
  shows "rv_inv me rwa stbl s' \<and> solvent H ok me rwa stbl s' w'"
  using assms(3)
proof (cases rule: redeem_batch_Inr)
  case (resent ro b account)
  let ?b = "b\<lparr>ba_unsent := 0\<rparr>"
  have ok: "batch_ok me b" using rv_inv_batch(1) [OF assms(1) resent(3)] .
  then have acc: "account \<noteq> me" using resent(6) by (auto simp: batch_ok_def)
  have "books s'"
    using rv_inv_batch(2) [OF assms(1)]
    by (intro books_put [of s s' i ?b]) (simp_all add: resent(8) part_Some [OF resent(3)] part_defs resent(4))
  then have "rv_inv me rwa stbl s'"
    using assms(1) resent ok by (intro rv_inv_put [of me rwa stbl s s' i ?b]) (auto simp: batch_ok_def rv_inv_def)
  moreover have "solvent H ok me rwa stbl s' w'"
    using assms(2) send_from_spares(1) [OF resent(7) acc not_signed [OF assms(5)]]
      send_from_spares(2) [OF resent(7) acc not_signed [OF assms(5)], of rwa]
      send_from_spares(2) [OF resent(7) acc not_signed [OF assms(5)], of stbl] by (simp add: solvent_def resent(8))
  ultimately show ?thesis ..
next
  case (sent ro b st account ini w1 s1)
  have "account \<in> set (accounts s)"
    using sent(7) by (auto simp: free_account_def rs find_Some_iff)
  then have acc: "account \<noteq> me" using assms(1) by (auto simp: rv_inv_def)
  have ini: "in_rwa ini = rwa" using rv_inv_batch(3) [OF assms(1) sent(8)] by simp
  have ms: "rv_inv me rwa stbl s' \<and> totals s' = (totals s)\<lparr>to_pooled := to_pooled (totals s) - ba_units b, to_sent := to_sent (totals s) + 1\<rparr>"
    by (rule mark_sent_safe [OF assms(1) sent(13,3,4) _ _ _ _ sent(11)]) (use acc in simp_all)
  have "tk_balance H stbl me w1 = tk_balance H stbl me w" "ok w1"
    using token_transfer_moves(4) [OF sent(9), of stbl me] two_tokens ok_token [OF sent(9)] assms(2)
    by (simp_all add: ini solvent_def)
  with ms assms(2) sent(12) send_from_spares(1) [OF sent(10) acc not_signed [OF assms(5)]]
    send_from_spares(2) [OF sent(10) acc not_signed [OF assms(5)], of stbl] have "solvent H ok me rwa stbl s' w'"
    by (simp add: solvent_def ini assms(4))
  with ms show ?thesis by simp
qed

lemma withdraw_batch_safe:
  assumes "rv_inv me rwa stbl s" "solvent H ok me rwa stbl s w" "withdraw_batch H e i to s w = Inr (s', w')" "current_contract e = me"
  shows "rv_inv me rwa stbl s' \<and> solvent H ok me rwa stbl s' w'"
  using assms(3)
proof (rule withdraw_batch_Inr)
  fix ro st b ini
  assume b: "rv_batches s i = Some b" "ba_status b = B_Open" and ini: "rv_init s = Some ini"
    and se: "rv_send H e (in_rwa ini) to (ba_units b) w = Inr w'"
    and ms: "mark_sent H e i b st (s\<lparr>rv_totals := Some ((totals s)\<lparr>to_pooled := to_pooled (totals s) - ba_units b\<rparr>)\<rparr>) w' = Inr s'"
  have ok: "batch_ok me b" using rv_inv_batch(1) [OF assms(1) b(1)] .
  have "rv_inv me rwa stbl s' \<and> totals s' = (totals s)\<lparr>to_pooled := to_pooled (totals s) - ba_units b, to_sent := to_sent (totals s) + 1\<rparr>"
    by (rule mark_sent_safe [OF assms(1) ms b, of "rv_busy s"]) (use ok in \<open>simp_all add: batch_ok_def\<close>)
  with assms(2) rv_inv_batch(3) [OF assms(1) ini] ok two_tokens ok_send [OF se] send_spares [OF se assms(4), of rwa] send_spares [OF se assms(4), of stbl]
  show ?thesis by (auto simp: solvent_def batch_ok_def)
qed

lemma finish_safe:
  assumes "rv_inv me rwa stbl s" "finish H e i b proceeds s1 w = Inr (s', w')" "current_contract e = me"
    and "rv_batches s i = Some b0" "ba_status b0 = B_Sent" "batch_ok me b" "0 \<le> proceeds" "s1 = s\<lparr>rv_busy := bu\<rparr>"
    and "to_pooled (totals s) + to_rwa (totals s) + ba_unsent b \<le> tk_balance H rwa me w"
    and "to_proceeds (totals s) + proceeds \<le> tk_balance H stbl me w" "ok w"
  shows "rv_inv me rwa stbl s' \<and> solvent H ok me rwa stbl s' w'"
  using assms(2)
proof (rule finish_Inr)
  fix st fee b'
  assume st: "rv_settings s1 = Some st" "mul_div proceeds (int (se_fee_bps st)) BPS = Inr fee" "1 \<le> to_sent (totals s1)"
    and b': "ba_status b' = B_Settled" "ba_units b' = ba_units b" "ba_unsent b' = ba_unsent b"
      "ba_remaining b' = proceeds - fee" "ba_account b' = ba_account b"
    and s': "s' = s1\<lparr>rv_batches := (rv_batches s1)(i \<mapsto> b'),
       rv_totals := Some ((totals s1)\<lparr>to_proceeds := to_proceeds (totals s1) + (proceeds - fee),
         to_rwa := to_rwa (totals s1) + ba_unsent b, to_sent := to_sent (totals s1) - 1\<rparr>)\<rparr>"
    and w': "w' = w \<or> (\<exists>ini to. rv_init s1 = Some ini \<and> se_fee_recipient st = Some to \<and> 0 < fee \<and>
       rv_send H e (in_stable ini) to fee w = Inr w')"
  have "settings_ok st" using rv_inv_batch(4) [OF assms(1)] st(1) by (simp add: assms(8))
  then have fee: "0 \<le> fee" "fee \<le> proceeds"
    using mul_div_nonneg [OF st(2)] mul_div_le [OF st(2)] by (simp_all add: settings_ok_def RV_MAX_FEE_BPS_def BPS_def)
  have "books s'"
    using rv_inv_batch(2) [OF assms(1)] st(3)
    by (intro books_put [of s s' i b']) (simp_all add: s' assms(8) part_Some [OF assms(4)] part_defs assms(5) b')
  moreover have "batch_ok me b'" using assms(6) b' fee by (simp add: batch_ok_def)
  ultimately have "rv_inv me rwa stbl s'"
    using assms(1,4,5) by (intro rv_inv_put [of me rwa stbl s s' i b']) (auto simp: s' assms(8) rv_inv_def)
  have "tk_balance H rwa me w \<le> tk_balance H rwa me w'" "tk_balance H stbl me w - fee \<le> tk_balance H stbl me w'"
  proof -
    have "tk_balance H t me w - (if t = stbl then fee else 0) \<le> tk_balance H t me w'" for t
      using w'
    proof
      assume "w' = w"
      with fee(1) show ?thesis by simp
    next
      assume "\<exists>ini to. rv_init s1 = Some ini \<and> se_fee_recipient st = Some to \<and> 0 < fee \<and>
        rv_send H e (in_stable ini) to fee w = Inr w'"
      then obtain ini to where "rv_init s = Some ini" "rv_send H e (in_stable ini) to fee w = Inr w'" by (auto simp: assms(8))
      with send_spares [OF this(2) assms(3) fee(1), of t] rv_inv_batch(3) [OF assms(1) this(1)] show ?thesis by simp
    qed
    from this [of rwa] this [of stbl] two_tokens
    show "tk_balance H rwa me w \<le> tk_balance H rwa me w'" "tk_balance H stbl me w - fee \<le> tk_balance H stbl me w'" by auto
  qed
  moreover have "ok w'" using w' ok_send assms(11) by blast
  ultimately have "solvent H ok me rwa stbl s' w'" using assms(9,10) by (simp add: solvent_def s' assms(8))
  with \<open>rv_inv me rwa stbl s'\<close> show ?thesis ..
qed

lemma settle_safe:
  assumes "rv_inv me rwa stbl s" "solvent H ok me rwa stbl s w" "rv_settle H R e i cs m s w = Inr (s', w')" "current_contract e = me"
    and "\<not> authorised e me"
  shows "rv_inv me rwa stbl s' \<and> solvent H ok me rwa stbl s' w'"
  using assms(3)
proof (rule rv_settle_Inr)
  fix ro b account ini w1 w2 w3 proceeds
  assume b: "rv_batches s i = Some b" "ba_status b = B_Sent" "ba_account b = Some account" and ini: "rv_init s = Some ini"
    and run: "run_calls R e account cs s w = Inr w1"
    and sw: "\<exists>x. rh_sweep R (calling e account) account (in_stable ini) (current_contract e) w1 = Some (x, w2)"
    and ex: "w3 = w2 \<or> (\<exists>v. rh_execute R (calling e account) account (in_rwa ini) ''transfer''
       [AddressVal account, AddressVal (current_contract e), I128Val (ba_unsent b)] w2 = Some (v, w3))"
    and rw: "tk_balance H (in_rwa ini) (current_contract e) w3 = tk_balance H (in_rwa ini) (current_contract e) w + ba_unsent b"
    and pr: "proceeds = tk_balance H (in_stable ini) (current_contract e) w3 - tk_balance H (in_stable ini) (current_contract e) w"
    and fi: "finish H e i b proceeds (s\<lparr>rv_busy := (rv_busy s)(account := None)\<rparr>) w3 = Inr (s', w')"
  have ok: "batch_ok me b" using rv_inv_batch(1) [OF assms(1) b(1)] .
  then have acc: "account \<noteq> me" using b(3) by (auto simp: batch_ok_def)
  have i: "in_rwa ini = rwa" "in_stable ini = stbl" using rv_inv_batch(3) [OF assms(1) ini] by simp_all
  have okw: "ok w" using assms(2) by (simp add: solvent_def)
  note w1 = run_calls_spares [OF run acc not_signed [OF assms(5)] okw]
  from sw obtain x where sw: "rh_sweep R (calling e account) account stbl me w1 = Some (x, w2)" by (auto simp: assms(4) i)
  note w2 = sweep_law [OF w1(1) sw acc, of stbl]
  have w3: "ok w3 \<and> tk_balance H stbl me w2 \<le> tk_balance H stbl me w3"
    using ex w2 execute_law [OF _ _ acc, of w2 "calling e account" _ _ _ _ w3 stbl] not_signed [OF assms(5)] by fastforce
  from w1(2) [of stbl] w2 w3 have "0 \<le> proceeds" by (simp add: pr assms(4) i)
  with assms(2) rw pr w3 show ?thesis
    by (intro finish_safe [OF assms(1) fi assms(4) b(1,2) ok]) (auto simp: solvent_def i assms(4))
qed

lemma settle_manual_safe:
  assumes "rv_inv me rwa stbl s" "solvent H ok me rwa stbl s w" "settle_manual H e i p r s w = Inr (s', w')" "current_contract e = me"
    and "\<not> authorised e me"
  shows "rv_inv me rwa stbl s' \<and> solvent H ok me rwa stbl s' w'"
  using assms(3)
proof (rule settle_manual_Inr)
  fix ro b st price floor ini w1 w2
  assume ro: "authorised e (rl_operator ro)" and b: "rv_batches s i = Some b" "ba_status b = B_Sent" "ba_account b = None"
    and pr: "0 \<le> p" "0 \<le> r" "r \<le> ba_units b" and ini: "rv_init s = Some ini"
    and t1: "token_transfer H e (in_stable ini) (rl_operator ro) (current_contract e) p w = (Inr w1 :: (RedemptionError, _) res)"
    and t2: "(if r \<noteq> 0 then token_transfer H e (in_rwa ini) (rl_operator ro) (current_contract e) r w1 else Inr w1) =
       (Inr w2 :: (RedemptionError, _) res)"
    and fi: "finish H e i (b\<lparr>ba_unsent := r\<rparr>) p s w2 = Inr (s', w')"
  have i: "in_rwa ini = rwa" "in_stable ini = stbl" using rv_inv_batch(3) [OF assms(1) ini] by simp_all
  have op: "rl_operator ro \<noteq> me" using ro assms(5) by auto
  have ok1: "ok w1" using ok_token [OF t1] assms(2) by (simp add: solvent_def)
  have m1: "tk_balance H stbl me w1 = tk_balance H stbl me w + p" "tk_balance H rwa me w1 = tk_balance H rwa me w"
    using token_transfer_moves(4) [OF t1, of stbl me] token_transfer_moves(4) [OF t1, of rwa me] op two_tokens
    by (auto simp: i assms(4))
  have m2: "ok w2 \<and> tk_balance H stbl me w2 = tk_balance H stbl me w1 \<and> tk_balance H rwa me w2 = tk_balance H rwa me w1 + r"
  proof (cases "r = 0")
    case True
    with t2 ok1 show ?thesis by simp
  next
    case False
    with t2 have "token_transfer H e (in_rwa ini) (rl_operator ro) (current_contract e) r w1 = (Inr w2 :: (RedemptionError, _) res)" by simp
    from ok_token [OF this ok1] token_transfer_moves(4) [OF this, of stbl me] token_transfer_moves(4) [OF this, of rwa me] op two_tokens
    show ?thesis by (auto simp: i assms(4))
  qed
  have "batch_ok me (b\<lparr>ba_unsent := r\<rparr>)" using rv_inv_batch(1) [OF assms(1) b(1)] pr(2) by (simp add: batch_ok_def)
  with m1 m2 assms(2) pr(1) show ?thesis
    by (intro finish_safe [OF assms(1) fi assms(4) b(1,2), of "rv_busy s"]) (auto simp: solvent_def)
qed

lemma reopen_safe:
  assumes "rv_inv me rwa stbl s" "solvent H ok me rwa stbl s w" "reopen H R e i cs x s w = Inr (s', w')" "current_contract e = me"
    and "\<not> authorised e me"
  shows "rv_inv me rwa stbl s' \<and> solvent H ok me rwa stbl s' w'"
  using assms(3)
proof (rule reopen_Inr)
  fix ro b account ini w1
  assume b: "rv_batches s i = Some b" "ba_status b = B_Sent" "ba_account b = Some account" "0 < x" "ba_unsent b + x \<le> ba_units b"
    and ini: "rv_init s = Some ini" and run: "run_calls R e account cs s w = Inr w1"
    and got: "ba_unsent b + x \<le> tk_balance H (in_rwa ini) account w1"
    and res: "(if ba_unsent b + x = ba_units b then
        (\<exists>y. rh_sweep R (calling e account) account (in_rwa ini) (current_contract e) w1 = Some (y, w')) \<and> 1 \<le> to_sent (totals s) \<and>
        s' = s\<lparr>rv_busy := (rv_busy s)(account := None),
               rv_batches := (rv_batches s)(i \<mapsto> b\<lparr>ba_status := B_Open, ba_account := None, ba_unsent := 0, ba_strike := 0\<rparr>),
               rv_totals := Some ((totals s)\<lparr>to_pooled := to_pooled (totals s) + ba_units b, to_sent := to_sent (totals s) - 1\<rparr>)\<rparr>
      else w' = w1 \<and> s' = s\<lparr>rv_batches := (rv_batches s)(i \<mapsto> b\<lparr>ba_unsent := ba_unsent b + x\<rparr>)\<rparr>)"
  have ok: "batch_ok me b" using rv_inv_batch(1) [OF assms(1) b(1)] .
  then have acc: "account \<noteq> me" using b(3) by (auto simp: batch_ok_def)
  have i: "in_rwa ini = rwa" "in_stable ini = stbl" using rv_inv_batch(3) [OF assms(1) ini] by simp_all
  have okw: "ok w" using assms(2) by (simp add: solvent_def)
  note w1 = run_calls_spares [OF run acc not_signed [OF assms(5)] okw]
  have not_open: "rv_open s \<noteq> Some i" using assms(1) b(1,2) by (auto simp: rv_inv_def)
  show ?thesis
  proof (cases "ba_unsent b + x = ba_units b")
    case True
    let ?b = "b\<lparr>ba_status := B_Open, ba_account := None, ba_unsent := 0, ba_strike := 0\<rparr>"
    from True res obtain y where sw: "rh_sweep R (calling e account) account rwa me w1 = Some (y, w')"
      and s': "1 \<le> to_sent (totals s)" "s' = s\<lparr>rv_busy := (rv_busy s)(account := None), rv_batches := (rv_batches s)(i \<mapsto> ?b),
        rv_totals := Some ((totals s)\<lparr>to_pooled := to_pooled (totals s) + ba_units b, to_sent := to_sent (totals s) - 1\<rparr>)\<rparr>"
      by (auto simp: i assms(4))
    have "books s'"
      using rv_inv_batch(2) [OF assms(1)] s'(1)
      by (intro books_put [of s s' i ?b]) (simp_all add: s'(2) part_Some [OF b(1)] part_defs b(2))
    then have "rv_inv me rwa stbl s'"
      using assms(1) b(1) ok by (intro rv_inv_put [of me rwa stbl s s' i ?b]) (auto simp: s'(2) batch_ok_def)
    moreover have "solvent H ok me rwa stbl s' w'"
      using assms(2) w1(2) [of rwa] w1(2) [of stbl] got True sweep_law [OF w1(1) sw acc, of rwa] sweep_law [OF w1(1) sw acc, of stbl]
        two_tokens by (auto simp: solvent_def s'(2) i)
    ultimately show ?thesis ..
  next
    case False
    let ?b = "b\<lparr>ba_unsent := ba_unsent b + x\<rparr>"
    from False res have s': "w' = w1" "s' = s\<lparr>rv_batches := (rv_batches s)(i \<mapsto> ?b)\<rparr>" by simp_all
    have "books s'"
      using rv_inv_batch(2) [OF assms(1)]
      by (intro books_put [of s s' i ?b]) (simp_all add: s'(2) part_Some [OF b(1)] part_defs b(2))
    then have "rv_inv me rwa stbl s'"
      using assms(1) b(1,2,4) ok not_open by (intro rv_inv_put [of me rwa stbl s s' i ?b]) (auto simp: s'(2) batch_ok_def)
    moreover have "solvent H ok me rwa stbl s' w'" using assms(2) w1(1) w1(2) [of rwa] w1(2) [of stbl] by (simp add: solvent_def s')
    ultimately show ?thesis ..
  qed
qed

lemma add_accounts_safe:
  assumes "rv_inv me rwa stbl s" "solvent H ok me rwa stbl s w" "add_accounts R e n s w = Inr (s', w')" "current_contract e = me"
  shows "rv_inv me rwa stbl s' \<and> solvent H ok me rwa stbl s' w'"
proof -
  have "add_accounts_loop R e n s w = Inr (s', w') \<Longrightarrow> rv_inv me rwa stbl s \<Longrightarrow> solvent H ok me rwa stbl s w \<Longrightarrow>
    rv_inv me rwa stbl s' \<and> solvent H ok me rwa stbl s' w'" for s w
  proof (induction n arbitrary: s w)
    case 0
    then show ?case by simp
  next
    case (Suc n)
    then obtain ini :: Init and account w1 where dep: "rh_deploy_account R e (salt ACCOUNT_SALT (length (accounts s))) (in_account_wasm ini) me w = Some (account, w1)"
      and rest: "add_accounts_loop R e n (s\<lparr>rv_accounts := Some (accounts s @ [account])\<rparr>) w1 = Inr (s', w')"
      by (auto simp: add_account_def Let_def rs assms(4))
    let ?s = "s\<lparr>rv_accounts := Some (accounts s @ [account])\<rparr>"
    have "accounts ?s = accounts s @ [account]" by (simp add: accounts_def)
    moreover have okw: "ok w" using Suc.prems(3) by (simp add: solvent_def)
    note law = deploy_account_law [OF okw dep assms(4), of rwa me] deploy_account_law [OF okw dep assms(4), of stbl me]
    then have "account \<noteq> me" by simp
    ultimately have "rv_inv me rwa stbl ?s"
      using rv_inv_batch(4,5,6) [OF Suc.prems(2)] by (intro rv_inv_frame [OF Suc.prems(2)]) simp_all
    moreover have "solvent H ok me rwa stbl ?s w1"
      using Suc.prems(3) law by (simp add: solvent_def)
    ultimately show ?case by (rule Suc.IH [OF rest])
  qed
  with assms show ?thesis by (auto simp: add_accounts_def rs)
qed

lemma skim_safe:
  assumes "rv_inv me rwa stbl s" "solvent H ok me rwa stbl s w" "skim H e tok to s w = Inr w'" "current_contract e = me"
  shows "solvent H ok me rwa stbl s w'"
proof -
  from assms(3) obtain ini where ini: "rv_init s = Some ini" by (auto simp: skim_def rs)
  have i: "in_rwa ini = rwa" "in_stable ini = stbl" using rv_inv_batch(3) [OF assms(1) ini] by simp_all
  let ?owed = "if tok = stbl then to_proceeds (totals s) else if tok = rwa then to_pooled (totals s) + to_rwa (totals s) else 0"
  have se: "rv_send H e tok to (tk_balance H tok me w - ?owed) w = Inr w'"
    using assms(3) ini two_tokens by (auto simp: skim_def rs Let_def i assms(4) split: if_splits)
  show ?thesis
  proof (cases "0 \<le> tk_balance H tok me w - ?owed")
    case True
    from ok_send [OF se] send_spares [OF se assms(4) True, of rwa] send_spares [OF se assms(4) True, of stbl] assms(2) two_tokens
    show ?thesis by (auto simp: solvent_def split: if_splits)
  next
    case False
    with se assms(2) show ?thesis by (simp add: rv_send_def)
  qed
qed

lemma apply_settings_safe:
  assumes "rv_inv me rwa stbl s" "solvent H ok me rwa stbl s w" "apply_settings R e st s w = Inr (s', w')" "settings_ok st"
  shows "rv_inv me rwa stbl s' \<and> solvent H ok me rwa stbl s' w'"
proof -
  from assms(3) have s': "s' = s\<lparr>rv_settings := Some st\<rparr>" by (auto simp: apply_settings_def rs Let_def)
  have okw: "ok w" using assms(2) by (simp add: solvent_def)
  have "ok w' \<and> (t \<in> {rwa, stbl} \<longrightarrow> tk_balance H t c w' = tk_balance H t c w)" for t c
    using assms(3) okw gate_law [OF okw] by (auto simp: apply_settings_def rs Let_def split: if_splits option.splits)
  from this [of rwa me] this [of stbl me] have "solvent H ok me rwa stbl s' w'" using assms(2) by (simp add: solvent_def s')
  moreover have "rv_inv me rwa stbl s'"
    using assms(4) rv_inv_batch(5,6) [OF assms(1)] by (intro rv_inv_frame [OF assms(1)]) (simp_all add: s')
  ultimately show ?thesis by simp
qed

lemma accept_safe:
  assumes "rv_inv me rwa stbl s" "solvent H ok me rwa stbl s w" "rv_accept H R e k s w = Inr (s', w')" "current_contract e = me"
  shows "rv_inv me rwa stbl s' \<and> solvent H ok me rwa stbl s' w'"
proof -
  let ?t = "(rv_timelock s)\<lparr>tl_pending := (tl_pending (rv_timelock s))(k := None)\<rparr>"
  let ?s = "s\<lparr>rv_timelock := ?t\<rparr>"
  from assms(3) obtain c v where c: "tl_pending (rv_timelock s) k = Some (c, v)"
    by (auto simp: rv_accept_def rs Let_def)
  have pend: "settings_ok st" if "tl_pending ?t j = Some (C_Settings st, u)" for j st u
    using rv_inv_batch(5) [OF assms(1)] that by (simp split: if_splits)
  have inv: "rv_inv me rwa stbl (?s\<lparr>rv_timelock := t', rv_roles := ro'\<rparr>)" if "tl_pending t' = tl_pending ?t" for t' ro'
    using assms(1) pend that rv_inv_batch(4) [OF assms(1)] by (intro rv_inv_frame [OF assms(1)]) (simp_all add: rv_inv_def)
  have s0: "rv_inv me rwa stbl ?s" "solvent H ok me rwa stbl ?s w"
    using inv [of ?t "rv_roles s"] assms(2) by (simp_all add: solvent_def)
  show ?thesis
  proof (cases c)
    case (C_Settings st)
    then have "settings_ok st" using rv_inv_batch(5) [OF assms(1)] c by simp
    moreover from assms(3) c C_Settings have "apply_settings R e st ?s w = Inr (s', w')" by (auto simp: rv_accept_def rs Let_def)
    ultimately show ?thesis using apply_settings_safe [OF s0] by blast
  next
    case (C_Roles ro)
    with assms(3) c have "w' = w" "s' = ?s\<lparr>rv_timelock := init (delay ?t) (rl_guardian ro) ?t, rv_roles := Some ro\<rparr>"
      by (auto simp: rv_accept_def rs Let_def)
    with inv [of "init (delay ?t) (rl_guardian ro) ?t" "Some ro"] assms(2) show ?thesis by (simp add: init_def solvent_def)
  next
    case (C_Skim tok to)
    with assms(3) c have "s' = ?s" "skim H e tok to ?s w = Inr w'" by (auto simp: rv_accept_def rs Let_def)
    with skim_safe [OF s0 _ assms(4)] s0(1) show ?thesis by blast
  next
    case (C_Delay d)
    with assms(3) c obtain g where "w' = w" "s' = ?s\<lparr>rv_timelock := init d g ?t\<rparr>" by (auto simp: rv_accept_def rs Let_def)
    with inv [of "init d g ?t" "rv_roles s"] assms(2) show ?thesis by (simp add: init_def solvent_def)
  qed
qed

lemma governance_safe:
  assumes "rv_inv me rwa stbl s"
  shows "rv_submit e c s = Inr (v, s') \<Longrightarrow> rv_inv me rwa stbl s' \<and> totals s' = totals s"
    "rv_revoke e k a s = Inr s' \<Longrightarrow> rv_inv me rwa stbl s' \<and> totals s' = totals s"
    "rv_set_paused e a p s = Inr s' \<Longrightarrow> rv_inv me rwa stbl s' \<and> totals s' = totals s"
proof -
  assume sub: "rv_submit e c s = Inr (v, s')"
  then have "\<And>st. c = C_Settings st \<Longrightarrow> settings_ok st" by (auto simp: rv_submit_def rs)
  with sub assms rv_inv_batch(4,5) [OF assms] show "rv_inv me rwa stbl s' \<and> totals s' = totals s"
    by (auto simp: rv_submit_def rs split: if_splits intro!: rv_inv_frame [OF assms]) (auto simp: rv_inv_def)
next
  assume "rv_revoke e k a s = Inr s'"
  with rv_inv_batch(4,5) [OF assms] show "rv_inv me rwa stbl s' \<and> totals s' = totals s"
    using assms by (auto simp: rv_revoke_def rs split: if_splits intro!: rv_inv_frame [OF assms]) (auto simp: rv_inv_def)
next
  assume "rv_set_paused e a p s = Inr s'"
  with rv_inv_batch(4,5) [OF assms] show "rv_inv me rwa stbl s' \<and> totals s' = totals s"
    using assms by (auto simp: rv_set_paused_def rs intro!: rv_inv_frame [OF assms]) (auto simp: rv_inv_def)
qed

lemma rv_exec_safe:
  assumes "rv_inv me rwa stbl s" "solvent H ok me rwa stbl s w" "rv_exec H R e op s w = Inr (s', w')" "current_contract e = me"
    and "\<not> authorised e me"
  shows "rv_inv me rwa stbl s' \<and> solvent H ok me rwa stbl s' w'"
proof (cases op)
  case (RO_Submit c)
  with assms(3) obtain v where "rv_submit e c s = Inr (v, s')" "w' = w" by (auto simp: rs)
  with governance_safe(1) [OF assms(1) this(1)] assms(2) show ?thesis by (simp add: solvent_def)
next
  case (RO_Revoke k a)
  with assms(3) have "rv_revoke e k a s = Inr s'" "w' = w" by (auto simp: rs)
  with governance_safe(2) [OF assms(1) this(1)] assms(2) show ?thesis by (simp add: solvent_def)
next
  case (RO_Set_Paused a p)
  with assms(3) have "rv_set_paused e a p s = Inr s'" "w' = w" by (auto simp: rs)
  with governance_safe(3) [OF assms(1) this(1)] assms(2) show ?thesis by (simp add: solvent_def)
qed (use assms in \<open>auto simp: rs dest: request_safe [OF assms(1,2) _ assms(4,5)] cancel_safe [OF assms(1,2) _ assms(4)]
    claim_safe [OF assms(1,2) _ assms(4)] redeem_batch_safe [OF assms(1,2) _ assms(4,5)] settle_safe [OF assms(1,2) _ assms(4,5)]
    reopen_safe [OF assms(1,2) _ assms(4,5)] withdraw_batch_safe [OF assms(1,2) _ assms(4)] settle_manual_safe [OF assms(1,2) _ assms(4,5)]
    add_accounts_safe [OF assms(1,2) _ assms(4)] accept_safe [OF assms(1,2) _ assms(4)]\<close>)

end

end
