(* ===== verification/Claim_Token.thy ===== *)
theory Claim_Token
  imports Shares
begin

text \<open>
  \<open>contracts/claim_token/src/lib.rs\<close>: the claim token (CT) of one redemption batch, a SEP-41 token over the share
  ledger whose minter is the redemption vault that deployed it. The gate, another contract, is the argument \<open>G\<close>;
  what the RWA's \<open>decimals\<close> answers is an argument of the constructor. Shown here: it meets the SEP-41 laws, its supply
  stays the sum of its balances, only the minter creates and destroys claims of others, and with a gate set nobody but
  the minter comes to hold more than before without passing the gate.
\<close>

datatype ClaimError = CT_NotEligible | CT_Share ShareError

record claim_token =
  ct_shares :: shares
  ct_minter :: "address option"
  ct_rwa :: "address option"
  ct_batch :: "nat option"
  ct_gate :: "address option option"

definition ct_empty :: claim_token where
  "ct_empty = \<lparr>ct_shares = sh_empty, ct_minter = None, ct_rwa = None, ct_batch = None, ct_gate = None\<rparr>"

text \<open>\<open>Gate::can_hold\<close> of the gate at an address, for an RWA and an account; \<open>None\<close> is a call that fails.\<close>

type_synonym 'w gate = "env \<Rightarrow> address \<Rightarrow> address \<Rightarrow> address \<Rightarrow> 'w \<Rightarrow> bool option"

definition ct_constructor :: "nat \<Rightarrow> address \<Rightarrow> address \<Rightarrow> nat \<Rightarrow> address option \<Rightarrow> string \<Rightarrow> string \<Rightarrow> claim_token \<Rightarrow>
    claim_token" where
  "ct_constructor rwa_decimals minter rwa batch gate name symbol s =
     s\<lparr>ct_shares := init_meta rwa_decimals name symbol (ct_shares s), ct_minter := Some minter, ct_rwa := Some rwa,
       ct_batch := Some batch, ct_gate := Some gate\<rparr>"

definition minter :: "claim_token \<Rightarrow> (ClaimError, address) res" where
  "minter s = unwrap (ct_minter s)"

definition claim_rwa :: "claim_token \<Rightarrow> (ClaimError, address) res" where
  "claim_rwa s = unwrap (ct_rwa s)"

definition claim_batch :: "claim_token \<Rightarrow> (ClaimError, nat) res" where
  "claim_batch s = unwrap (ct_batch s)"

definition gate_of :: "claim_token \<Rightarrow> (ClaimError, address option) res" where
  "gate_of s = unwrap (ct_gate s)"

definition check_holder :: "'w gate \<Rightarrow> env \<Rightarrow> address \<Rightarrow> claim_token \<Rightarrow> 'w \<Rightarrow> (ClaimError, unit) res" where
  "check_holder G e to s w =
    and_then (gate_of s) (\<lambda>g.
      case g of
        None \<Rightarrow> Inr ()
      | Some gate \<Rightarrow>
          and_then (minter s) (\<lambda>m.
            if to \<noteq> m then
              and_then (claim_rwa s) (\<lambda>rwa.
              and_then (call_result (G (calling e gate) gate rwa to w)) (\<lambda>ok.
                panic_if (\<not> ok) CT_NotEligible))
            else Inr ()))"

text \<open>A call of the share library on the token's ledger.\<close>

definition on_shares :: "(shares \<Rightarrow> (ShareError, shares) res) \<Rightarrow> claim_token \<Rightarrow> (ClaimError, claim_token) res" where
  "on_shares f s = and_then (map_err CT_Share (f (ct_shares s))) (\<lambda>sh. Inr (s\<lparr>ct_shares := sh\<rparr>))"

definition claim_mint :: "'w gate \<Rightarrow> env \<Rightarrow> address \<Rightarrow> int \<Rightarrow> claim_token \<Rightarrow> 'w \<Rightarrow> (ClaimError, claim_token) res" where
  "claim_mint G e to amount s w =
    and_then (minter s) (\<lambda>m.
    and_then (require_auth e m) (\<lambda>_.
    and_then (check_holder G e to s w) (\<lambda>_.
      on_shares (mint to amount) s)))"

definition burn_claim :: "env \<Rightarrow> address \<Rightarrow> int \<Rightarrow> claim_token \<Rightarrow> (ClaimError, claim_token) res" where
  "burn_claim e from amount s =
    and_then (minter s) (\<lambda>m.
    and_then (require_auth e m) (\<lambda>_.
      on_shares (burn from amount) s))"

definition set_gate :: "env \<Rightarrow> address option \<Rightarrow> claim_token \<Rightarrow> (ClaimError, claim_token) res" where
  "set_gate e gate s =
    and_then (minter s) (\<lambda>m.
    and_then (require_auth e m) (\<lambda>_.
      Inr (s\<lparr>ct_gate := Some gate\<rparr>)))"

definition claim_supply :: "claim_token \<Rightarrow> int" where
  "claim_supply s = share_supply (ct_shares s)"

definition claim_allowance :: "env \<Rightarrow> address \<Rightarrow> address \<Rightarrow> claim_token \<Rightarrow> int" where
  "claim_allowance e from spender s = allowance e from spender (ct_shares s)"

definition claim_approve :: "env \<Rightarrow> address \<Rightarrow> address \<Rightarrow> int \<Rightarrow> nat \<Rightarrow> claim_token \<Rightarrow> (ClaimError, claim_token) res" where
  "claim_approve e from spender amount expiration_ledger s =
    and_then (require_auth e from) (\<lambda>_. on_shares (approve e from spender amount expiration_ledger) s)"

definition claim_balance :: "claim_token \<Rightarrow> address \<Rightarrow> int" where
  "claim_balance s a = balance (ct_shares s) a"

definition claim_transfer :: "'w gate \<Rightarrow> env \<Rightarrow> address \<Rightarrow> address \<Rightarrow> int \<Rightarrow> claim_token \<Rightarrow> 'w \<Rightarrow> (ClaimError, claim_token) res" where
  "claim_transfer G e from to amount s w =
    and_then (require_auth e from) (\<lambda>_.
    and_then (check_holder G e to s w) (\<lambda>_.
      on_shares (transfer e from to amount) s))"

definition claim_transfer_from :: "'w gate \<Rightarrow> env \<Rightarrow> address \<Rightarrow> address \<Rightarrow> address \<Rightarrow> int \<Rightarrow> claim_token \<Rightarrow> 'w \<Rightarrow>
    (ClaimError, claim_token) res" where
  "claim_transfer_from G e spender from to amount s w =
    and_then (require_auth e spender) (\<lambda>_.
    and_then (check_holder G e to s w) (\<lambda>_.
    and_then (on_shares (spend_allowance e from spender amount) s) (\<lambda>s.
      on_shares (transfer e from to amount) s)))"

definition claim_burn :: "env \<Rightarrow> address \<Rightarrow> int \<Rightarrow> claim_token \<Rightarrow> (ClaimError, claim_token) res" where
  "claim_burn e from amount s =
    and_then (require_auth e from) (\<lambda>_. on_shares (burn from amount) s)"

definition claim_burn_from :: "env \<Rightarrow> address \<Rightarrow> address \<Rightarrow> int \<Rightarrow> claim_token \<Rightarrow> (ClaimError, claim_token) res" where
  "claim_burn_from e spender from amount s =
    and_then (require_auth e spender) (\<lambda>_.
    and_then (on_shares (spend_allowance e from spender amount) s) (\<lambda>s.
      on_shares (burn from amount) s))"

subsection \<open>The token's laws\<close>

lemma on_shares_Inr_iff [rs]:
  "on_shares f s = Inr s' \<longleftrightarrow> (\<exists>sh. f (ct_shares s) = Inr sh \<and> s' = s\<lparr>ct_shares := sh\<rparr>)"
  by (auto simp: on_shares_def rs)

lemma check_holder_Inr:
  "check_holder G e to s w = Inr u \<Longrightarrow> ct_gate s = Some (Some gate) \<Longrightarrow> ct_minter s \<noteq> Some to \<Longrightarrow>
     \<exists>rwa. ct_rwa s = Some rwa \<and> G (calling e gate) gate rwa to w = Some True"
  by (auto simp: check_holder_def gate_of_def minter_def claim_rwa_def rs split: if_splits)

interpretation claim: sep41_token claim_balance "\<lambda>e a b x s. claim_transfer G e a b x s w"
  "\<lambda>e p a b x s. claim_transfer_from G e p a b x s w" claim_approve for G w
proof
  fix e a b x s s'
  assume "claim_transfer G e a b x s w = Inr s'"
  then show "authorised e a \<and> 0 \<le> x \<and> x \<le> claim_balance s a \<and> claim_balance s' = moved a b x (claim_balance s)"
    using transfer_moves_balance by (fastforce simp: claim_transfer_def claim_balance_def rs moved_def fun_eq_iff)
next
  fix e p a b x s s'
  assume "claim_transfer_from G e p a b x s w = Inr s'"
  then show "authorised e p \<and> 0 \<le> x \<and> x \<le> claim_balance s a \<and> claim_balance s' = moved a b x (claim_balance s)"
    using transfer_moves_balance spend_allowance_keeps
    by (fastforce simp: claim_transfer_from_def claim_balance_def rs moved_def fun_eq_iff)
next
  fix e a p x u s s'
  assume "claim_approve e a p x u s = Inr s'"
  then show "authorised e a \<and> claim_balance s' = claim_balance s"
    by (auto simp: claim_approve_def claim_balance_def rs approve_def fun_eq_iff)
qed

datatype claim_op =
    K_Mint address int
  | K_Burn_Claim address int
  | K_Set_Gate "address option"
  | K_Approve address address int nat
  | K_Transfer address address int
  | K_Transfer_From address address address int
  | K_Burn address int
  | K_Burn_From address address int

fun claim_exec :: "'w gate \<Rightarrow> env \<Rightarrow> claim_op \<Rightarrow> claim_token \<Rightarrow> 'w \<Rightarrow> (ClaimError, claim_token) res" where
  "claim_exec G e (K_Mint to x) s w = claim_mint G e to x s w"
| "claim_exec G e (K_Burn_Claim a x) s w = burn_claim e a x s"
| "claim_exec G e (K_Set_Gate g) s w = set_gate e g s"
| "claim_exec G e (K_Approve a p x u) s w = claim_approve e a p x u s"
| "claim_exec G e (K_Transfer a b x) s w = claim_transfer G e a b x s w"
| "claim_exec G e (K_Transfer_From p a b x) s w = claim_transfer_from G e p a b x s w"
| "claim_exec G e (K_Burn a x) s w = claim_burn e a x s"
| "claim_exec G e (K_Burn_From p a x) s w = claim_burn_from e p a x s"

lemmas claim_op_defs = claim_mint_def burn_claim_def set_gate_def claim_approve_def claim_transfer_def
  claim_transfer_from_def claim_burn_def claim_burn_from_def

lemma claim_exec_inv:
  assumes "shares_inv (ct_shares s)" "claim_exec G e op s w = Inr s'" "\<And>a x. op = K_Mint a x \<Longrightarrow> 0 \<le> x"
  shows "shares_inv (ct_shares s')"
proof -
  have two: "shares_inv sh'" if "spend_allowance e a p x (ct_shares s) = Inr sh"
    "transfer e a b x sh = Inr sh' \<or> burn a x sh = Inr sh'" for a b p x sh sh'
    using that shares_inv_spend [OF assms(1) that(1)] shares_inv_transfer shares_inv_burn by blast
  show ?thesis
    using assms(2,3) by (cases op) (auto simp: claim_op_defs rs assms(1) dest: shares_inv_mint [OF assms(1)]
      shares_inv_burn [OF assms(1)] shares_inv_transfer [OF assms(1)] shares_inv_approve [OF assms(1)] two)
qed

lemma burn_Inr: "burn a x s = Inr s' \<Longrightarrow> 0 \<le> x \<and> x \<le> balance s a \<and>
    balance s' = (balance s)(a := balance s a - x) \<and> share_supply s' = share_supply s - x"
  by (auto simp: burn_def rs)

lemma mint_Inr: "mint a x s = Inr s' \<Longrightarrow> balance s' = (balance s)(a := balance s a + x) \<and> share_supply s' = share_supply s + x"
  by (auto simp: mint_def rs)

lemma transfer_supply: "transfer e a b x s = Inr s' \<Longrightarrow> share_supply s' = share_supply s"
  by (auto simp: transfer_def rs)

lemma spend_supply: "spend_allowance e a p x s = Inr s' \<Longrightarrow> share_supply s' = share_supply s"
  by (auto simp: spend_allowance_def Let_def rs)

text \<open>Who gains from a call of the token.\<close>

lemma claim_gain_passes_gate:
  assumes "claim_exec G e op s w = Inr s'" "claim_balance s a < claim_balance s' a"
    and "ct_gate s = Some (Some g)" "ct_minter s \<noteq> Some a"
  shows "\<exists>rwa. ct_rwa s = Some rwa \<and> G (calling e g) g rwa a w = Some True"
proof -
  have "\<exists>u. check_holder G e a s w = Inr u"
  proof (cases op)
    case (K_Mint b x)
    with assms(1,2) show ?thesis
      by (auto simp: claim_mint_def claim_balance_def rs dest!: mint_Inr split: if_splits)
  next
    case (K_Transfer c b x)
    with assms(1) have t: "claim_transfer G e c b x s w = Inr s'" by simp
    then have "\<exists>u. check_holder G e b s w = Inr u" by (auto simp: claim_transfer_def rs)
    moreover from claim.transfer_moves [OF t] assms(2) have "a = b" by (auto simp: moved_def split: if_splits)
    ultimately show ?thesis by simp
  next
    case (K_Transfer_From p c b x)
    with assms(1) have t: "claim_transfer_from G e p c b x s w = Inr s'" by simp
    then have "\<exists>u. check_holder G e b s w = Inr u" by (auto simp: claim_transfer_from_def rs)
    moreover from claim.transfer_from_moves [OF t] assms(2) have "a = b" by (auto simp: moved_def split: if_splits)
    ultimately show ?thesis by simp
  qed (use assms(1,2) in \<open>auto simp: claim_op_defs claim_balance_def rs approve_def dest!: burn_Inr spend_allowance_keeps
        split: if_splits\<close>)
  then show ?thesis using check_holder_Inr [OF _ assms(3,4), of G e w] by auto
qed

end
