(* ===== verification/Redemption_Account.thy ===== *)
theory Redemption_Account
  imports Token_Interface
begin

text \<open>
  \<open>contracts/redemption_account/src/lib.rs\<close>: an address that faces the issuer for one redemption batch at a time. Only its
  vault calls it. \<open>invoke\<close> is the host's \<open>invoke_contract\<close>, the call of any function of any contract.
\<close>

record redemption_account =
  ra_vault :: "address option"

definition ra_constructor :: "address \<Rightarrow> redemption_account \<Rightarrow> redemption_account" where
  "ra_constructor vault s = s\<lparr>ra_vault := Some vault\<rparr>"

definition account_vault :: "redemption_account \<Rightarrow> ('e, address) res" where
  "account_vault s = unwrap (ra_vault s)"

definition account_execute :: "(env \<Rightarrow> address \<Rightarrow> symbol \<Rightarrow> val list \<Rightarrow> 'w \<Rightarrow> (val \<times> 'w) option) \<Rightarrow> env \<Rightarrow> address \<Rightarrow> symbol \<Rightarrow>
    val list \<Rightarrow> redemption_account \<Rightarrow> 'w \<Rightarrow> ('e, val \<times> 'w) res" where
  "account_execute invoke e target func args s w =
    and_then (account_vault s) (\<lambda>vault.
    and_then (require_auth e vault) (\<lambda>_.
      call_result (invoke (calling e target) target func args w)))"

text \<open>An allowance good for this ledger only.\<close>

definition account_approve :: "'w host \<Rightarrow> env \<Rightarrow> address \<Rightarrow> address \<Rightarrow> int \<Rightarrow> redemption_account \<Rightarrow> 'w \<Rightarrow> ('e, 'w) res" where
  "account_approve H e tok spender amount s w =
    and_then (account_vault s) (\<lambda>vault.
    and_then (require_auth e vault) (\<lambda>_.
      token_approve H e tok (current_contract e) spender amount (ledger_sequence e) w))"

definition account_sweep :: "'w host \<Rightarrow> env \<Rightarrow> address \<Rightarrow> address \<Rightarrow> redemption_account \<Rightarrow> 'w \<Rightarrow> ('e, int \<times> 'w) res" where
  "account_sweep H e tok to s w =
    and_then (account_vault s) (\<lambda>vault.
    and_then (require_auth e vault) (\<lambda>_.
      let me = current_contract e; amount = tk_balance H tok me w in
      and_then (if amount \<noteq> 0 then token_transfer H e tok me to amount w else Inr w) (\<lambda>w.
        Inr (amount, w))))"

lemma account_sweep_Inr:
  assumes "sep41_host H" "account_sweep H e tok to s w = (Inr (amount, w') :: ('e, _) res)" "to \<noteq> current_contract e"
  shows "amount = tk_balance H tok (current_contract e) w"
    "tk_balance H t c w' = (if t = tok then moved (current_contract e) to amount (\<lambda>c. tk_balance H tok c w) c else tk_balance H t c w)"
    "\<exists>v. ra_vault s = Some v \<and> authorised e v"
proof -
  show "amount = tk_balance H tok (current_contract e) w" "\<exists>v. ra_vault s = Some v \<and> authorised e v"
    using assms(2) by (auto simp: account_sweep_def account_vault_def Let_def rs)
  show "tk_balance H t c w' = (if t = tok then moved (current_contract e) to amount (\<lambda>c. tk_balance H tok c w) c else tk_balance H t c w)"
  proof (cases "amount = 0")
    case True
    with assms(2) have "w' = w" by (auto simp: account_sweep_def account_vault_def Let_def rs split: if_splits)
    with True show ?thesis by (simp add: moved_def)
  next
    case False
    with assms(2) have "token_transfer H e tok (current_contract e) to amount w = (Inr w' :: ('e, _) res)"
      by (auto simp: account_sweep_def account_vault_def Let_def rs split: if_splits)
    from sep41_host.token_transfer_moves(4) [OF assms(1) this] show ?thesis .
  qed
qed

end
