(* ===== verification/Redemption_World.thy ===== *)
theory Redemption_World
  imports Redemption_Inv Claim_Token Redemption_Account Call_Verifier Ledger
begin

text \<open>
  The world around a redemption vault, built of the repository's own contracts: claim tokens, redemption accounts and call
  verifiers by address beside the ledger of test tokens. A claim token is a token like any other there. The issuer is
  a contract outside the repository: it takes the RWA of the account that calls \<open>redeem\<close> and pays the stable to the
  account that calls \<open>payout\<close>. The world meets \<open>redemption_laws\<close>.
\<close>

record rv_world =
  rw_ledger :: ledger
  rw_claims :: "address \<rightharpoonup> claim_token"
  rw_accounts :: "address \<rightharpoonup> redemption_account"
  rw_verifiers :: "address \<rightharpoonup> call_verifier"

definition put_claim :: "rv_world \<Rightarrow> address \<Rightarrow> claim_token \<Rightarrow> rv_world" where
  "put_claim w ct s = w\<lparr>rw_claims := (rw_claims w)(ct \<mapsto> s)\<rparr>"

definition at_claim :: "(claim_token \<Rightarrow> (ClaimError, claim_token) res) \<Rightarrow> address \<Rightarrow> rv_world \<Rightarrow> rv_world option" where
  "at_claim f ct w = (case rw_claims w ct of None \<Rightarrow> None | Some s \<Rightarrow> map_option (put_claim w ct) (try_call (f s)))"

definition in_ledger :: "rv_world \<Rightarrow> ledger option \<Rightarrow> rv_world option" where
  "in_ledger w l = map_option (\<lambda>l. w\<lparr>rw_ledger := l\<rparr>) l"

definition rv_tokens :: "unit gate \<Rightarrow> rv_world host" where
  "rv_tokens G =
    \<lparr>tk_balance = (\<lambda>tok c w. case rw_claims w tok of Some s \<Rightarrow> claim_balance s c | None \<Rightarrow> tk_balance ledger_host tok c (rw_ledger w)),
     tk_transfer = (\<lambda>e tok a b x w. if rw_claims w tok \<noteq> None then at_claim (\<lambda>s. claim_transfer G e a b x s ()) tok w
       else in_ledger w (tk_transfer ledger_host e tok a b x (rw_ledger w))),
     tk_transfer_from = (\<lambda>e tok p a b x w. if rw_claims w tok \<noteq> None then at_claim (\<lambda>s. claim_transfer_from G e p a b x s ()) tok w
       else in_ledger w (tk_transfer_from ledger_host e tok p a b x (rw_ledger w))),
     tk_approve = (\<lambda>e tok a p x u w. if rw_claims w tok \<noteq> None then at_claim (claim_approve e a p x u) tok w
       else in_ledger w (tk_approve ledger_host e tok a p x u (rw_ledger w))),
     or_get_price = (\<lambda>e orc base quote w. or_get_price ledger_host e orc base quote (rw_ledger w))\<rparr>"

lemma at_claim_Some:
  "at_claim f ct w = Some w' \<longleftrightarrow> (\<exists>s s'. rw_claims w ct = Some s \<and> f s = Inr s' \<and> w' = put_claim w ct s')"
  by (auto simp: at_claim_def rs split: option.splits)

lemma in_ledger_Some: "in_ledger w l = Some w' \<longleftrightarrow> (\<exists>l'. l = Some l' \<and> w' = w\<lparr>rw_ledger := l'\<rparr>)"
  by (auto simp: in_ledger_def)

lemma claims_put [simp]: "rw_claims (put_claim w ct s) = (rw_claims w)(ct \<mapsto> s)" "rw_ledger (put_claim w ct s) = rw_ledger w"
  by (simp_all add: put_claim_def)

lemma rv_tokens_sep41: "sep41_host (rv_tokens G)"
proof
  fix e tok a b x w w'
  assume tr: "tk_transfer (rv_tokens G) e tok a b x w = Some w'"
  show "authorised e a \<and> 0 \<le> x \<and> x \<le> tk_balance (rv_tokens G) tok a w \<and>
    (\<forall>t c. tk_balance (rv_tokens G) t c w' =
      (if t = tok then moved a b x (\<lambda>c. tk_balance (rv_tokens G) tok c w) c else tk_balance (rv_tokens G) t c w))"
  proof (cases "rw_claims w tok")
    case None
    with tr obtain l where "tk_transfer ledger_host e tok a b x (rw_ledger w) = Some l" "w' = w\<lparr>rw_ledger := l\<rparr>"
      by (auto simp: rv_tokens_def in_ledger_Some)
    with ledger.host_transfer [OF this(1)] None show ?thesis by (auto simp: rv_tokens_def moved_def split: option.splits)
  next
    case (Some s)
    with tr obtain s' where "claim_transfer G e a b x s () = Inr s'" "w' = put_claim w tok s'"
      by (auto simp: rv_tokens_def at_claim_Some)
    with claim.transfer_moves [OF this(1)] Some show ?thesis by (auto simp: rv_tokens_def moved_def split: option.splits)
  qed
next
  fix e tok p a b x w w'
  assume tr: "tk_transfer_from (rv_tokens G) e tok p a b x w = Some w'"
  show "authorised e p \<and> 0 \<le> x \<and> x \<le> tk_balance (rv_tokens G) tok a w \<and>
    (\<forall>t c. tk_balance (rv_tokens G) t c w' =
      (if t = tok then moved a b x (\<lambda>c. tk_balance (rv_tokens G) tok c w) c else tk_balance (rv_tokens G) t c w))"
  proof (cases "rw_claims w tok")
    case None
    with tr obtain l where "tk_transfer_from ledger_host e tok p a b x (rw_ledger w) = Some l" "w' = w\<lparr>rw_ledger := l\<rparr>"
      by (auto simp: rv_tokens_def in_ledger_Some)
    with ledger.host_transfer_from [OF this(1)] None show ?thesis by (auto simp: rv_tokens_def moved_def split: option.splits)
  next
    case (Some s)
    with tr obtain s' where "claim_transfer_from G e p a b x s () = Inr s'" "w' = put_claim w tok s'"
      by (auto simp: rv_tokens_def at_claim_Some)
    with claim.transfer_from_moves [OF this(1)] Some show ?thesis by (auto simp: rv_tokens_def moved_def split: option.splits)
  qed
next
  fix e tok a p x u w w'
  assume ap: "tk_approve (rv_tokens G) e tok a p x u w = Some w'"
  show "authorised e a \<and> (\<forall>t c. tk_balance (rv_tokens G) t c w' = tk_balance (rv_tokens G) t c w)"
  proof (cases "rw_claims w tok")
    case None
    with ap obtain l where "tk_approve ledger_host e tok a p x u (rw_ledger w) = Some l" "w' = w\<lparr>rw_ledger := l\<rparr>"
      by (auto simp: rv_tokens_def in_ledger_Some)
    with ledger.host_approve [OF this(1)] show ?thesis by (auto simp: rv_tokens_def split: option.splits)
  next
    case (Some s)
    with ap obtain s' where "claim_approve e a p x u s = Inr s'" "w' = put_claim w tok s'"
      by (auto simp: rv_tokens_def at_claim_Some)
    with claim.approve_keeps [OF this(1)] Some show ?thesis by (auto simp: rv_tokens_def split: option.splits)
  qed
qed

interpretation rvt: sep41_host "rv_tokens G" for G
  by (rule rv_tokens_sep41)

subsection \<open>Accounts, issuer and deployments\<close>

definition issuer_invoke :: "unit gate \<Rightarrow> env \<Rightarrow> address \<Rightarrow> symbol \<Rightarrow> val list \<Rightarrow> rv_world \<Rightarrow> (val \<times> rv_world) option" where
  "issuer_invoke G e target func args w =
    (if target = this_contract then None
     else map_option (Pair VoidVal)
       (case args of
          [AddressVal a, AddressVal b, I128Val x] \<Rightarrow>
            if func = ''transfer'' then tk_transfer (rv_tokens G) e target a b x w else None
        | [I128Val x] \<Rightarrow>
            (case invoker e of
               Some a \<Rightarrow>
                 if func = ''redeem'' then tk_transfer_from (rv_tokens G) (calling e token_a) token_a target a target x w
                 else if func = ''payout'' then tk_transfer (rv_tokens G) (calling e token_b) token_b target a x w
                 else None
             | None \<Rightarrow> None)
        | _ \<Rightarrow> None))"

definition at_account :: "address \<Rightarrow> (redemption_account \<Rightarrow> (unit, 'a) res) \<Rightarrow> rv_world \<Rightarrow> 'a option" where
  "at_account a f w = (case rw_accounts w a of None \<Rightarrow> None | Some acc \<Rightarrow> try_call (f acc))"

definition text_of :: "byte list \<Rightarrow> string" where "text_of bs = map (\<lambda>b. char_of (unat b)) bs"

definition rv_fns :: "unit gate \<Rightarrow> rv_world rv_host" where
  "rv_fns G =
    \<lparr>rh_mint = (\<lambda>e ct a x. at_claim (\<lambda>s. claim_mint G e a x s ()) ct),
     rh_burn_claim = (\<lambda>e ct a x. at_claim (burn_claim e a x) ct),
     rh_set_gate = (\<lambda>e ct g. at_claim (set_gate e g) ct),
     rh_total_supply = (\<lambda>e ct w. map_option claim_supply (rw_claims w ct)),
     rh_execute = (\<lambda>e a target f args w.
       at_account a (\<lambda>acc. account_execute (issuer_invoke G) (e\<lparr>current_contract := a\<rparr>) target f args acc w) w),
     rh_approve = (\<lambda>e a tok p x w. at_account a (\<lambda>acc. account_approve (rv_tokens G) (e\<lparr>current_contract := a\<rparr>) tok p x acc w) w),
     rh_sweep = (\<lambda>e a tok to w. at_account a (\<lambda>acc. account_sweep (rv_tokens G) (e\<lparr>current_contract := a\<rparr>) tok to acc w) w),
     rh_verify = (\<lambda>e v caller account target f args w.
       case rw_verifiers w v of None \<Rightarrow> None | Some cv \<Rightarrow> try_call (verify_call e caller account target f args cv)),
     rh_symbol = (\<lambda>e tok w. Some (ascii ''USTB'')),
     rh_deploy_ct = (\<lambda>e k h args w.
       let ct = Contract k in
       if rw_claims w ct \<noteq> None \<or> ct \<in> {token_a, token_b} then None
       else Some (ct, put_claim w ct (ct_constructor 7 (cta_minter args) (cta_rwa args) (cta_batch args) (cta_gate args)
         (text_of (cta_name args)) (text_of (cta_symbol args)) ct_empty))),
     rh_deploy_account = (\<lambda>e k h v w.
       let a = Contract k in
       if a = current_contract e then None else Some (a, w\<lparr>rw_accounts := (rw_accounts w)(a \<mapsto> ra_constructor v \<lparr>ra_vault = None\<rparr>)\<rparr>)),
     rh_deployed_address = (\<lambda>e k. Contract k)\<rparr>"

text \<open>Every claim token's ledger is consistent, and neither the RWA nor the stable is one.\<close>

definition world_ok :: "rv_world \<Rightarrow> bool" where
  "world_ok w \<longleftrightarrow> (\<forall>ct s. rw_claims w ct = Some s \<longrightarrow> shares_inv (ct_shares s)) \<and> rw_claims w token_a = None \<and> rw_claims w token_b = None"

lemma world_ok_put:
  "world_ok w \<Longrightarrow> rw_claims w ct \<noteq> None \<Longrightarrow> shares_inv (ct_shares s) \<Longrightarrow> world_ok (put_claim w ct s)"
  by (auto simp: world_ok_def)

lemma world_ok_claim:
  assumes "world_ok w" "rw_claims w ct = Some s" "claim_exec G e op s () = Inr s'" "\<And>a x. op = K_Mint a x \<Longrightarrow> 0 \<le> x"
  shows "world_ok (put_claim w ct s')"
  using assms claim_exec_inv [OF _ assms(3,4)] by (intro world_ok_put) (auto simp: world_ok_def)

lemma world_ok_ledger: "world_ok (w\<lparr>rw_ledger := l\<rparr>) = world_ok w" "world_ok (w\<lparr>rw_accounts := ac\<rparr>) = world_ok w"
  by (simp_all add: world_ok_def)

lemma world_ok_transfer:
  "world_ok w \<Longrightarrow> tk_transfer (rv_tokens G) e tok a b x w = Some w' \<Longrightarrow> world_ok w'"
  "world_ok w \<Longrightarrow> tk_transfer_from (rv_tokens G) e tok p a b x w = Some w' \<Longrightarrow> world_ok w'"
  "world_ok w \<Longrightarrow> tk_approve (rv_tokens G) e tok a p x u w = Some w' \<Longrightarrow> world_ok w'"
  using world_ok_claim [where op = "K_Transfer a b x"] world_ok_claim [where op = "K_Transfer_From p a b x"]
    world_ok_claim [where op = "K_Approve a p x u"]
  by (auto simp: rv_tokens_def at_claim_Some in_ledger_Some world_ok_ledger split: if_splits)

lemma base_balance: "world_ok w \<Longrightarrow> t \<in> {token_a, token_b} \<Longrightarrow> tk_balance (rv_tokens G) t c w = tk_balance ledger_host t c (rw_ledger w)"
  by (auto simp: rv_tokens_def world_ok_def)

lemma invoke_law:
  assumes "world_ok w" "issuer_invoke G e target f args w = Some (v, w')" "invoker e = Some a" "a \<noteq> this_contract"
    and "\<not> signed e this_contract" "current_contract e = target"
  shows "world_ok w' \<and> tk_balance (rv_tokens G) t this_contract w \<le> tk_balance (rv_tokens G) t this_contract w'"
proof -
  from assms(2) have tgt: "target \<noteq> this_contract" by (auto simp: issuer_invoke_def split: if_splits)
  from assms(2,3) consider (transfer) p q x where "tk_transfer (rv_tokens G) e target p q x w = Some w'"
    | (redeem) x where "tk_transfer_from (rv_tokens G) (calling e token_a) token_a target a target x w = Some w'"
    | (payout) x where "tk_transfer (rv_tokens G) (calling e token_b) token_b target a x w = Some w'"
    by (auto simp: issuer_invoke_def split: if_splits list.splits val.splits)
  then show ?thesis
  proof cases
    case (transfer p q x)
    from rvt.host_transfer [OF transfer] assms(3-5) have "p \<noteq> this_contract" by (auto simp: authorised_def)
    with rvt.host_transfer [OF transfer] world_ok_transfer(1) [OF assms(1) transfer] show ?thesis by (auto simp: moved_def)
  next
    case (redeem x)
    from rvt.host_transfer_from [OF redeem] world_ok_transfer(2) [OF assms(1) redeem] assms(4) show ?thesis by (auto simp: moved_def)
  next
    case (payout x)
    from rvt.host_transfer [OF payout] world_ok_transfer(1) [OF assms(1) payout] tgt show ?thesis by (auto simp: moved_def)
  qed
qed

lemma at_account_Some: "at_account a f w = Some r \<longleftrightarrow> (\<exists>acc. rw_accounts w a = Some acc \<and> f acc = Inr r)"
  by (auto simp: at_account_def rs split: option.splits)

interpretation rvw: redemption_laws "rv_tokens G" "rv_fns G" world_ok this_contract token_a token_b for G
proof
  fix w w' :: rv_world and e a b tok x
  assume "world_ok w" "tk_transfer (rv_tokens G) e tok a b x w = Some w'"
  then show "world_ok w'" by (rule world_ok_transfer(1))
next
  fix w w' :: rv_world and e ct a x t c
  assume ok: "world_ok w" and mi: "rh_mint (rv_fns G) e ct a x w = Some w'" and "0 < x"
  then obtain s s' where s: "rw_claims w ct = Some s" "claim_exec G e (K_Mint a x) s () = Inr s'" "w' = put_claim w ct s'"
    by (auto simp: rv_fns_def at_claim_Some)
  have "world_ok w'" using world_ok_claim [OF ok s(1,2)] s(3) \<open>0 < x\<close> by simp
  with ok s(3) show "world_ok w' \<and> (t \<in> {token_a, token_b} \<longrightarrow> tk_balance (rv_tokens G) t c w' = tk_balance (rv_tokens G) t c w)"
    by (auto simp: base_balance)
next
  fix w w' :: rv_world and e ct a x t c n
  assume ok: "world_ok w" and bu: "rh_burn_claim (rv_fns G) e ct a x w = Some w'"
  then obtain s s' where s: "rw_claims w ct = Some s" "claim_exec G e (K_Burn_Claim a x) s () = Inr s'" "w' = put_claim w ct s'"
    by (auto simp: rv_fns_def at_claim_Some)
  have ok': "world_ok w'" using world_ok_claim [OF ok s(1,2)] s(3) by simp
  have "x \<le> claim_supply s"
  proof -
    from s(2) have "x \<le> balance (ct_shares s) a" by (auto simp: burn_claim_def rs dest!: burn_Inr)
    also have "\<dots> \<le> share_supply (ct_shares s)" using ok s(1) by (intro shares_inv_supply_le) (auto simp: world_ok_def)
    finally show ?thesis by (simp add: claim_supply_def)
  qed
  with ok ok' s show "world_ok w' \<and> (t \<in> {token_a, token_b} \<longrightarrow> tk_balance (rv_tokens G) t c w' = tk_balance (rv_tokens G) t c w) \<and>
      (rh_total_supply (rv_fns G) e ct w = Some n \<longrightarrow> x \<le> n)"
    by (auto simp: base_balance rv_fns_def)
next
  fix w w' :: rv_world and e ct g t c
  assume ok: "world_ok w" and "rh_set_gate (rv_fns G) e ct g w = Some w'"
  then obtain s s' where s: "rw_claims w ct = Some s" "claim_exec G e (K_Set_Gate g) s () = Inr s'" "w' = put_claim w ct s'"
    by (auto simp: rv_fns_def at_claim_Some)
  have "world_ok w'" using world_ok_claim [OF ok s(1,2)] s(3) by simp
  with ok s(3) show "world_ok w' \<and> (t \<in> {token_a, token_b} \<longrightarrow> tk_balance (rv_tokens G) t c w' = tk_balance (rv_tokens G) t c w)"
    by (auto simp: base_balance)
next
  fix w w' :: rv_world and e k h args ct t c
  assume ok: "world_ok w" and "rh_deploy_ct (rv_fns G) e k h args w = Some (ct, w')"
  then have "world_ok w' \<and> rw_ledger w' = rw_ledger w"
    by (auto simp: rv_fns_def Let_def world_ok_def ct_constructor_def ct_empty_def init_meta_def shares_inv_def sh_empty_def
        balance_def share_supply_def total_over_def split: if_splits)
  with ok show "world_ok w' \<and> (t \<in> {token_a, token_b} \<longrightarrow> tk_balance (rv_tokens G) t c w' = tk_balance (rv_tokens G) t c w)"
    by (auto simp: base_balance)
next
  fix w w' :: rv_world and e k h vlt a t c
  assume ok: "world_ok w" and "rh_deploy_account (rv_fns G) e k h vlt w = Some (a, w')" "current_contract e = this_contract"
  then have "world_ok w' \<and> rw_ledger w' = rw_ledger w \<and> a \<noteq> this_contract"
    by (auto simp: rv_fns_def Let_def world_ok_ledger split: if_splits)
  with ok show "world_ok w' \<and> a \<noteq> this_contract \<and>
      (t \<in> {token_a, token_b} \<longrightarrow> tk_balance (rv_tokens G) t c w' = tk_balance (rv_tokens G) t c w)"
    by (auto simp: base_balance)
next
  fix w w' :: rv_world and e a tok p x t c
  assume ok: "world_ok w" and "rh_approve (rv_fns G) e a tok p x w = Some w'"
  then obtain e' u where ap: "tk_approve (rv_tokens G) e' tok a p x u w = Some w'"
    by (auto simp: rv_fns_def at_account_Some account_approve_def token_approve_def rs)
  with rvt.host_approve [OF ap] world_ok_transfer(3) [OF ok ap]
  show "world_ok w' \<and> (t \<in> {token_a, token_b} \<longrightarrow> tk_balance (rv_tokens G) t c w' = tk_balance (rv_tokens G) t c w)" by simp
next
  fix w w' :: rv_world and e :: env and a tgt f args v t
  assume ok: "world_ok w" and ex: "rh_execute (rv_fns G) e a tgt f args w = Some (v, w')" and a: "a \<noteq> this_contract" "\<not> signed e this_contract"
  let ?e = "calling (e\<lparr>current_contract := a\<rparr>) tgt"
  from ex have "issuer_invoke G ?e tgt f args w = Some (v, w')"
    by (auto simp: rv_fns_def at_account_Some account_execute_def rs)
  from invoke_law [OF ok this, of a] a
  show "world_ok w' \<and> (t \<in> {token_a, token_b} \<longrightarrow> tk_balance (rv_tokens G) t this_contract w \<le> tk_balance (rv_tokens G) t this_contract w')"
    by (simp add: calling_def)
next
  fix w w' :: rv_world and e :: env and a tok x t
  assume ok: "world_ok w" and sw: "rh_sweep (rv_fns G) e a tok this_contract w = Some (x, w')" and a: "a \<noteq> this_contract"
  let ?e = "e\<lparr>current_contract := a\<rparr>"
  from sw obtain acc where acc: "account_sweep (rv_tokens G) ?e tok this_contract acc w = (Inr (x, w') :: (unit, _) res)"
    by (auto simp: rv_fns_def at_account_Some)
  note sweep = account_sweep_Inr [OF rv_tokens_sep41 acc]
  have "world_ok w' \<and> 0 \<le> tk_balance (rv_tokens G) tok a w"
  proof (cases "x = 0")
    case True
    with acc sweep(1) a ok show ?thesis by (auto simp: account_sweep_def Let_def rs split: if_splits)
  next
    case False
    with acc sweep(1) a have tr: "token_transfer (rv_tokens G) ?e tok a this_contract x w = (Inr w' :: (unit, _) res)"
      by (auto simp: account_sweep_def Let_def rs)
    from rvt.token_transfer_moves(1) [OF tr] world_ok_transfer(1) [OF ok] tr sweep(1) a show ?thesis
      by (auto simp: token_transfer_def rs)
  qed
  with sweep(1) sweep(2) [of t this_contract] a
  show "world_ok w' \<and> 0 \<le> tk_balance (rv_tokens G) tok a w \<and> (t \<in> {token_a, token_b} \<longrightarrow>
      tk_balance (rv_tokens G) t this_contract w' = tk_balance (rv_tokens G) t this_contract w +
        (if t = tok then tk_balance (rv_tokens G) tok a w else 0))"
    by (auto simp: moved_def)
next
  show "token_a \<noteq> token_b" by simp
qed

end
