(* ===== verification/Redemption_Runs.thy ===== *)
theory Redemption_Runs
  imports Redemption_World Call_Verifier_Props
begin

text \<open>
  The redemption vault over time: runs of a deployed vault and what they keep; the names and salts of the contracts it
  deploys; and one concrete run, manual and automatic, in the world of \<open>Redemption_World\<close>.
\<close>

subsection \<open>Runs\<close>

text \<open>
  A vault deployed for \<open>rwa\<close> and \<open>stbl\<close> and the world around it: calls of the vault, none authorised by the vault itself,
  and moves of the outside, which do not take the vault's tokens.
\<close>

inductive redemption_run :: "'w host \<Rightarrow> 'w rv_host \<Rightarrow> ('w \<Rightarrow> bool) \<Rightarrow> address \<Rightarrow> address \<Rightarrow> address \<Rightarrow> redemption_vault \<Rightarrow> 'w \<Rightarrow> bool"
  for H :: "'w host" and R :: "'w rv_host" and ok :: "'w \<Rightarrow> bool" and me rwa stbl :: address where
  deployed: "rv_constructor R e ini ro st dl rv_empty w = Inr (s, w') \<Longrightarrow> current_contract e = me \<Longrightarrow> in_rwa ini = rwa \<Longrightarrow>
    in_stable ini = stbl \<Longrightarrow> ok w \<Longrightarrow> 0 \<le> tk_balance H rwa me w \<Longrightarrow> 0 \<le> tk_balance H stbl me w \<Longrightarrow>
    redemption_run H R ok me rwa stbl s w'"
| called: "redemption_run H R ok me rwa stbl s w \<Longrightarrow> rv_exec H R e op s w = Inr (s', w') \<Longrightarrow> current_contract e = me \<Longrightarrow>
    \<not> authorised e me \<Longrightarrow> redemption_run H R ok me rwa stbl s' w'"
| outside: "redemption_run H R ok me rwa stbl s w \<Longrightarrow> ok w' \<Longrightarrow> tk_balance H rwa me w \<le> tk_balance H rwa me w' \<Longrightarrow>
    tk_balance H stbl me w \<le> tk_balance H stbl me w' \<Longrightarrow> redemption_run H R ok me rwa stbl s w'"

context redemption_laws
begin

lemma deployed_safe:
  assumes "rv_constructor R e ini ro st dl rv_empty w = Inr (s, w')" "current_contract e = me" "in_rwa ini = rwa" "in_stable ini = stbl"
    "ok w" "0 \<le> tk_balance H rwa me w" "0 \<le> tk_balance H stbl me w"
  shows "rv_inv me rwa stbl s \<and> solvent H ok me rwa stbl s w'"
proof -
  from assms(1,2) obtain a where st: "settings_ok st"
    and dep: "rh_deploy_account R e (salt ACCOUNT_SALT 0) (in_account_wasm ini) me w = Some (a, w')"
    and s: "s = rv_empty\<lparr>rv_timelock := init dl (rl_guardian ro) tl_empty, rv_init := Some ini, rv_roles := Some ro,
      rv_settings := Some st, rv_next := Some 1, rv_accounts := Some [a]\<rparr>"
    by (auto simp: rv_constructor_def add_account_def Let_def rs accounts_def rv_empty_def)
  note law = deploy_account_law [OF assms(5) dep assms(2), of rwa me] deploy_account_law [OF assms(5) dep assms(2), of stbl me]
  have t: "totals s = \<lparr>to_pooled = 0, to_proceeds = 0, to_rwa = 0, to_sent = 0\<rparr>" by (simp add: s totals_def rv_empty_def)
  have "books s" by (simp add: books_def t) (simp add: s rv_empty_def booked_def total_over_def)
  then have "rv_inv me rwa stbl s"
    using st law assms(3,4) unfolding rv_inv_def by (auto simp: s rv_empty_def tl_empty_def init_def accounts_def)
  moreover have "solvent H ok me rwa stbl s w'" using law assms(6,7) by (simp add: solvent_def t)
  ultimately show ?thesis ..
qed

lemma redemption_run_safe:
  "redemption_run H R ok me rwa stbl s w \<Longrightarrow> rv_inv me rwa stbl s \<and> solvent H ok me rwa stbl s w"
proof (induction rule: redemption_run.induct)
  case (deployed e ini ro st dl w s w')
  then show ?case by (rule deployed_safe)
next
  case (called s w e op s' w')
  then show ?case using rv_exec_safe [of s w e op s' w'] by blast
next
  case (outside s w w')
  then show ?case by (simp add: solvent_def)
qed

end

subsection \<open>Names and salts\<close>

text \<open>The number a string of ASCII digits spells.\<close>

definition decimal :: "byte list \<Rightarrow> nat" where
  "decimal ds = foldl (\<lambda>n d. 10 * n + (unat d - 48)) 0 ds"

lemma decimal_snoc: "decimal (ds @ [d]) = 10 * decimal ds + (unat d - 48)"
  by (simp add: decimal_def)

lemma digit_byte: "d < 10 \<Longrightarrow> unat (48 + word_of_nat d :: byte) = 48 + d"
  by (simp add: unat_word_ariths unat_of_nat)

lemma digits_at_fits:
  "v < 10 ^ Suc i \<Longrightarrow> \<exists>ds. digits_at (Suc i) v buf = Inr (ds @ buf) \<and> ds \<noteq> [] \<and> length ds \<le> Suc i \<and> decimal ds = v \<and>
     (\<forall>d\<in>set ds. 48 \<le> unat d \<and> unat d < 58)"
proof (induction i arbitrary: v buf)
  case 0
  then show ?case using digit_byte [of v] by (auto simp: Let_def decimal_def intro!: exI [of _ "[48 + word_of_nat v]"])
next
  case (Suc i)
  let ?d = "48 + word_of_nat (v mod 10) :: byte"
  have d: "unat ?d = 48 + v mod 10" by (rule digit_byte) simp
  show ?case
  proof (cases "v div 10 = 0")
    case True
    with d show ?thesis by (auto simp: Let_def decimal_def intro!: exI [of _ "[?d]"])
  next
    case False
    from Suc.prems have "v div 10 < 10 ^ Suc i" by (simp add: less_mult_imp_div_less mult.commute)
    from Suc.IH [OF this, of "?d # buf"] obtain ds where ds: "digits_at (Suc i) (v div 10) (?d # buf) = Inr (ds @ ?d # buf)"
      "ds \<noteq> []" "length ds \<le> Suc i" "decimal ds = v div 10" "\<forall>d\<in>set ds. 48 \<le> unat d \<and> unat d < 58" by auto
    have "digits_at (Suc (Suc i)) v buf = Inr ((ds @ [?d]) @ buf)"
      using False ds(1) by (simp add: Let_def del: digits_at.simps(2)) (simp add: digits_at.simps(2) [of "Suc i"] Let_def)
    with ds d show ?thesis by (intro exI [of _ "ds @ [?d]"]) (auto simp: decimal_snoc)
  qed
qed

lemma be64_bytes: "n < 2 ^ 64 \<Longrightarrow> horner_sum uint 256 (rev (be64 n)) = int n"
proof -
  assume n: "n < 2 ^ 64"
  have "rev (be64 n) ! i = map (\<lambda>i. word_of_nat (n div 256 ^ i)) [0..<8] ! i" if "i < 8" for i
    using that nth_upt [of 0 "7 - i" 8] by (simp add: be64_def rev_nth power_mult)
  then have rev: "rev (be64 n) = map (\<lambda>i. word_of_nat (n div 256 ^ i)) [0..<8]"
    by (intro nth_equalityI) (simp_all add: be64_def)
  have b: "uint (word_of_nat (n div 256 ^ i) :: byte) = int n div 256 ^ i mod 256" for i
    by (simp add: unsigned_of_nat take_bit_eq_mod zdiv_int zmod_int)
  have "horner_sum uint 256 (rev (be64 n)) = horner_sum (\<lambda>i. int n div 256 ^ i mod 256) 256 [0..<8]"
    by (simp add: rev horner_sum_map o_def b del: upt_conv_Cons)
  also have "\<dots> = int n mod 256 ^ 8" by (simp only: horner_bytes)
  finally show ?thesis using n by simp
qed

lemma salt_value: "n < 2 ^ 64 \<Longrightarrow> uint (salt tag n) = int n + 2 ^ 248 * uint tag"
proof -
  assume n: "n < 2 ^ 64"
  let ?bs = "rev (be64 n) @ replicate 23 0 @ [tag]"
  have "horner_sum uint 256 (replicate 23 (0::byte) @ [tag]) = 256 ^ 23 * uint tag"
    by (simp add: horner_sum_append numeral_eq_Suc)
  moreover have "length (rev (be64 n)) = 8" by (simp add: be64_def)
  ultimately have v: "horner_sum uint 256 ?bs = int n + 2 ^ 248 * uint tag"
    unfolding horner_sum_append be64_bytes [OF n] by simp
  have "rev (tag # replicate 23 0 @ be64 n) = ?bs" by simp
  then have "salt tag n = word_of_int (int n + 2 ^ 248 * uint tag)"
    unfolding salt_def of_bytes_def word_rcat_def using v by simp
  moreover have "uint tag < 2 ^ 8" using uint_lt2p [of tag] by simp
  with n have "(int n + 2 ^ 248 * uint tag) mod 2 ^ LENGTH(256) = int n + 2 ^ 248 * uint tag" by (intro mod_pos_pos_trivial) simp_all
  ultimately show ?thesis by (simp only: uint_word_of_int)
qed

lemma salt_inj: "salt tag n = salt tag' n' \<Longrightarrow> n < 2 ^ 64 \<Longrightarrow> n' < 2 ^ 64 \<Longrightarrow> tag = tag' \<and> n = n'"
proof -
  assume eq: "salt tag n = salt tag' n'" and n: "n < 2 ^ 64" "n' < 2 ^ 64"
  then have v: "int n + 2 ^ 248 * uint tag = int n' + 2 ^ 248 * uint tag'" using salt_value by metis
  with n have "int n = int n'" using mod_mult_self2 [of "int n" "2 ^ 248" "uint tag"] mod_mult_self2 [of "int n'" "2 ^ 248" "uint tag'"] by simp
  with v show ?thesis by (simp add: word_uint_eq_iff)
qed

subsection \<open>A concrete run\<close>

text \<open>
  The vault is deployed for \<open>token_a\<close> and \<open>token_b\<close>; \<open>alice\<close> requests the redemption of 1000. In manual mode \<open>bob\<close>, the operator,
  takes the batch out and settles it with 950 of the stable and 100 units returned. In automatic mode \<open>carol\<close>, the settler,
  sends the batch to the issuer by one verified call.
\<close>

definition issuer :: address where "issuer = Contract 9"
definition nav_oracle :: address where "nav_oracle = Contract 10"
definition verifier_addr :: address where "verifier_addr = Contract 11"
definition demo_ct :: address where "demo_ct = Contract (2 ^ 248 + 1)"
definition demo_account :: address where "demo_account = Contract (2 * 2 ^ 248)"

lemma demo_salts: "Contract (salt CT_SALT 1) = demo_ct" "Contract (salt CT_SALT (Suc 0)) = demo_ct" "Contract (salt ACCOUNT_SALT 0) = demo_account"
proof -
  have "salt CT_SALT 1 = word_of_int (uint (salt CT_SALT 1))" "salt ACCOUNT_SALT 0 = word_of_int (uint (salt ACCOUNT_SALT 0))" by simp_all
  then have "salt CT_SALT 1 = 2 ^ 248 + 1" "salt ACCOUNT_SALT 0 = 2 * 2 ^ 248"
    by (simp_all only: salt_value zero_less_power one_less_power) (simp_all add: CT_SALT_def ACCOUNT_SALT_def)
  then show "Contract (salt CT_SALT 1) = demo_ct" "Contract (salt CT_SALT (Suc 0)) = demo_ct" "Contract (salt ACCOUNT_SALT 0) = demo_account"
    by (simp_all add: demo_ct_def demo_account_def)
qed

definition redeem_rule :: Rule where
  "redeem_rule = \<lparr>rl_caller = this_contract, rl_target = issuer, rl_func = ''redeem'', rl_template = [I128Val 0], rl_free = 1, rl_account = 0\<rparr>"

definition redeem_verifier :: call_verifier where
  "redeem_verifier = fold cv_step [(demo_env 1, V_Add redeem_rule)] (cv_constructor admin_addr bob 5 cv_empty)"

definition demo_rv_world :: rv_world where
  "demo_rv_world = \<lparr>rw_ledger = (\<lambda>_. funded_token, \<lambda>_. po_empty\<lparr>po_prices := [(token_a, token_b) \<mapsto> \<lparr>pd_price = ONE, pd_timestamp = 10\<rparr>]\<rparr>),
     rw_claims = Map.empty, rw_accounts = Map.empty, rw_verifiers = [verifier_addr \<mapsto> redeem_verifier]\<rparr>"

definition demo_init :: Init where
  "demo_init = \<lparr>in_rwa = token_a, in_stable = token_b, in_ct_wasm = 1, in_account_wasm = 2\<rparr>"
definition demo_roles :: Roles where
  "demo_roles = \<lparr>rl_admin = admin_addr, rl_guardian = carol, rl_settler = carol, rl_operator = bob\<rparr>"
definition demo_settings :: "Mode \<Rightarrow> Settings" where
  "demo_settings m = \<lparr>se_mode = m, se_strike_at_send = False, se_verifier = Some verifier_addr, se_gate = None, se_oracle = Some nav_oracle,
     se_max_age = 1000, se_fee_bps = 100, se_fee_recipient = Some carol, se_floor_bps = 50, se_destinations = [carol]\<rparr>"

definition open_gate :: "unit gate" where "open_gate = (\<lambda>_ _ _ _ _. Some True)"

definition demo_rv :: "Mode \<Rightarrow> redemption_vault" where
  "demo_rv m = rv_empty\<lparr>rv_timelock := init 50 carol tl_empty, rv_init := Some demo_init, rv_roles := Some demo_roles,
     rv_settings := Some (demo_settings m), rv_next := Some 1, rv_accounts := Some [demo_account]\<rparr>"

definition demo_rv_world1 :: rv_world where
  "demo_rv_world1 = demo_rv_world\<lparr>rw_accounts := [demo_account \<mapsto> \<lparr>ra_vault = Some this_contract\<rparr>]\<rparr>"

lemmas rv_demo = demo_init_def demo_roles_def demo_settings_def demo_rv_def rv_empty_def demo_rv_world_def demo_rv_world1_def

lemma demo_rv_deployed:
  "rv_constructor (rv_fns open_gate) (user_env 10) demo_init demo_roles (demo_settings m) 50 rv_empty demo_rv_world =
     Inr (demo_rv m, demo_rv_world1)"
  using demo_salts(3)
  by (simp add: rv_constructor_def check_settings_def rv_demo RV_MAX_FEE_BPS_def BPS_def add_account_def Let_def accounts_def
    rv_init_of_def rv_fns_def ra_constructor_def demo_account_def this_contract_def)

lemma demo_run0: "redemption_run (rv_tokens open_gate) (rv_fns open_gate) world_ok this_contract token_a token_b (demo_rv m) demo_rv_world1"
  by (rule redemption_run.deployed [OF demo_rv_deployed])
    (simp_all add: rv_demo rv_tokens_def ledger_eval world_ok_def)

lemma demo_digits: "digits (Suc 0) = Inr [49]"
  using digits_at.simps(2) [of 19 "Suc 0" "[]"] by (simp add: digits_def Let_def)

definition demo_claims :: "int \<Rightarrow> claim_token" where
  "demo_claims n = \<lparr>ct_shares = sh_empty\<lparr>sh_meta := Some \<lparr>mt_decimals = 7, mt_name = ''Octarine Claim USTB #1'', mt_symbol = ''ctUSTB-1''\<rparr>,
       sh_balances := [alice \<mapsto> n], sh_supply := Some n\<rparr>,
     ct_minter = Some this_contract, ct_rwa = Some token_a, ct_batch = Some 1, ct_gate = Some None\<rparr>"

text \<open>The world with given balances of the RWA and the stable, and the claims alice holds.\<close>

definition demo_rv_at :: "(address \<rightharpoonup> int) \<Rightarrow> (address \<rightharpoonup> int) \<Rightarrow> int \<Rightarrow> rv_world" where
  "demo_rv_at rwa stbl n = demo_rv_world1\<lparr>rw_ledger := ((\<lambda>_. funded_token)(token_a := funded_token\<lparr>tt_balances := rwa\<rparr>,
      token_b := funded_token\<lparr>tt_balances := stbl\<rparr>), snd (rw_ledger demo_rv_world)), rw_claims := [demo_ct \<mapsto> demo_claims n]\<rparr>"

definition demo_batch :: Batch where
  "demo_batch = (new_batch demo_ct)\<lparr>ba_units := 1000\<rparr>"

definition demo_rv_open :: "Mode \<Rightarrow> redemption_vault" where
  "demo_rv_open m = (demo_rv m)\<lparr>rv_next := Some 2, rv_open := Some 1, rv_cts := [demo_ct \<mapsto> 1], rv_batches := [1 \<mapsto> demo_batch],
     rv_totals := Some \<lparr>to_pooled = 1000, to_proceeds = 0, to_rwa = 0, to_sent = 0\<rparr>\<rparr>"

lemma demo_request:
  "request_redeem (rv_tokens open_gate) (rv_fns open_gate) (user_env 20) alice 1000 alice (demo_rv m) demo_rv_world1 =
    Inr (1, demo_rv_open m, demo_rv_at [alice \<mapsto> 9000, bob \<mapsto> 10000, this_contract \<mapsto> 1000] [alice \<mapsto> 10000, bob \<mapsto> 10000] 1000)"
proof -
  let ?l = "((\<lambda>_. funded_token)(token_a := funded_token\<lparr>tt_balances := [alice \<mapsto> 9000, bob \<mapsto> 10000, this_contract \<mapsto> 1000]\<rparr>), snd (rw_ledger demo_rv_world))"
  let ?w = "demo_rv_world1\<lparr>rw_ledger := ?l\<rparr>"
  have tr: "token_transfer (rv_tokens open_gate) (user_env 20) token_a alice this_contract 1000 demo_rv_world1 = (Inr ?w :: (RedemptionError, _) res)"
    by (simp add: token_transfer_def rv_tokens_def in_ledger_def ledger_eval Let_def demo_defs arith_defs width_defs rv_demo fun_upd_twist)
  let ?c = "(demo_claims 0)\<lparr>ct_shares := (ct_shares (demo_claims 0))\<lparr>sh_balances := Map.empty, sh_supply := None\<rparr>\<rparr>"
  have ct: "deploy_ct (rv_fns open_gate) (user_env 20) (Suc 0) ((demo_rv m)\<lparr>rv_next := Some 2, rv_open := Some (Suc 0)\<rparr>) ?w =
      Inr (demo_ct, put_claim ?w demo_ct ?c)"
    using demo_salts demo_digits
    by (simp add: deploy_ct_def rv_init_of_def settings_def rv_fns_def rv_demo Let_def ascii_def concat_parts_def ct_constructor_def init_meta_def
        demo_claims_def ct_empty_def sh_empty_def text_of_def char_of_def bit_0 demo_defs demo_ct_def)
  let ?w2 = "demo_rv_at [alice \<mapsto> 9000, bob \<mapsto> 10000, this_contract \<mapsto> 1000] [alice \<mapsto> 10000, bob \<mapsto> 10000] 1000"
  have mi: "rh_mint (rv_fns open_gate) (calling (user_env 20) demo_ct) demo_ct alice 1000 (put_claim ?w demo_ct ?c) = Some ?w2"
    by (simp add: rv_fns_def at_claim_def claim_mint_def minter_def check_holder_def gate_of_def on_shares_def mint_def demo_claims_def
        map_err_def balance_def share_supply_def set_balance_def set_supply_def sh_empty_def arith_defs width_defs put_claim_def demo_rv_at_def
        demo_rv_world1_def demo_rv_world_def funded_token_def fun_eq_iff)
  have op: "open_or_new (rv_fns open_gate) (user_env 20) (demo_rv m) ?w =
      Inr (1, new_batch demo_ct, (demo_rv m)\<lparr>rv_next := Some 2, rv_open := Some 1, rv_cts := [demo_ct \<mapsto> 1]\<rparr>, put_claim ?w demo_ct ?c)"
  proof -
    have "u64_add 1 1 = (Inr 2 :: (RedemptionError, _) res)" by (simp add: u64_add_def width_defs)
    with ct show ?thesis by (simp add: open_or_new_def open_batch_def demo_rv_def rv_empty_def)
  qed
  show ?thesis
    using tr op mi
    by (simp add: request_redeem_def rv_is_paused_def rv_init_of_def demo_rv_def demo_init_def rv_empty_def new_batch_def demo_rv_open_def
        demo_batch_def put_batch_def tally_def add_pooled_def totals_def arith_defs width_defs Let_def)
qed

text \<open>The manual path: the operator takes the batch, then settles it with 950 of proceeds and 100 units returned.\<close>

definition demo_sent :: Batch where
  "demo_sent = demo_batch\<lparr>ba_status := B_Sent, ba_nav_start := ONE, ba_sent_at := 30\<rparr>"

definition demo_rv_sent :: redemption_vault where
  "demo_rv_sent = (demo_rv_open M_Manual)\<lparr>rv_open := None, rv_batches := [1 \<mapsto> demo_sent],
     rv_totals := Some \<lparr>to_pooled = 0, to_proceeds = 0, to_rwa = 0, to_sent = 1\<rparr>\<rparr>"

definition demo_settled :: Batch where
  "demo_settled = demo_sent\<lparr>ba_status := B_Settled, ba_unsent := 100, ba_proceeds := 950, ba_fee := 9, ba_remaining := 941, ba_nav_end := ONE,
     ba_settled_at := 40\<rparr>"

definition demo_rv_settled :: redemption_vault where
  "demo_rv_settled = demo_rv_sent\<lparr>rv_batches := [1 \<mapsto> demo_settled],
     rv_totals := Some \<lparr>to_pooled = 0, to_proceeds = 941, to_rwa = 100, to_sent = 0\<rparr>\<rparr>"

lemma demo_at_balance: "tk_balance (rv_tokens open_gate) token_a a (demo_rv_at f g n) = (case f a of None \<Rightarrow> 0 | Some x \<Rightarrow> x)"
  "tk_balance (rv_tokens open_gate) token_b a (demo_rv_at f g n) = (case g a of None \<Rightarrow> 0 | Some x \<Rightarrow> x)"
  by (simp_all add: demo_rv_at_def rv_tokens_def ledger_eval demo_ct_def demo_defs)

lemma demo_at_transfer:
  assumes "\<not> (case f a of None \<Rightarrow> 0 | Some x \<Rightarrow> x) < x" "0 \<le> x" "a \<noteq> b" "authorised (calling e t) a"
    "is_i128 ((case f a of None \<Rightarrow> 0 | Some x \<Rightarrow> x) - x)" "is_i128 ((case f b of None \<Rightarrow> 0 | Some x \<Rightarrow> x) + x)"
  shows "t = token_a \<Longrightarrow> token_transfer (rv_tokens open_gate) e t a b x (demo_rv_at f g n) =
      (Inr (demo_rv_at (f(a \<mapsto> (case f a of None \<Rightarrow> 0 | Some x \<Rightarrow> x) - x, b \<mapsto> (case f b of None \<Rightarrow> 0 | Some x \<Rightarrow> x) + x)) g n) :: (RedemptionError, _) res)"
    "t = token_b \<Longrightarrow> token_transfer (rv_tokens open_gate) e t a b x (demo_rv_at g f n) =
      (Inr (demo_rv_at g (f(a \<mapsto> (case f a of None \<Rightarrow> 0 | Some x \<Rightarrow> x) - x, b \<mapsto> (case f b of None \<Rightarrow> 0 | Some x \<Rightarrow> x) + x)) n) :: (RedemptionError, _) res)"
  using assms
  by (simp_all add: demo_rv_at_def token_transfer_def rv_tokens_def in_ledger_def ledger_eval Let_def demo_defs arith_defs rv_demo require_auth_def fun_upd_twist demo_ct_def)

lemma demo_nav: "30 \<le> t \<Longrightarrow> t \<le> 1010 \<Longrightarrow> rv_init s = Some demo_init \<Longrightarrow>
   nav (rv_tokens open_gate) (user_env t) (demo_settings m) s (demo_rv_at f g n) = Inr ONE"
  by (simp add: nav_def demo_settings_def rv_init_of_def demo_init_def rv_tokens_def demo_rv_at_def ledger_host_def lift_host_def
      ledger_price_def get_price_def demo_rv_world_def ONE_def arith_defs width_defs)

lemmas rv_steps = roles_def settings_def rv_init_of_def mode_is_def with_status_def batch_of_def batch_def tally_def totals_def sub_pooled_def
  put_batch_def open_batch_def Let_def arith_defs


definition rwa0 :: "address \<rightharpoonup> int" where "rwa0 = [alice \<mapsto> 9000, bob \<mapsto> 10000, this_contract \<mapsto> 1000]"
definition stbl0 :: "address \<rightharpoonup> int" where "stbl0 = [alice \<mapsto> 10000, bob \<mapsto> 10000]"
definition rwa1 :: "address \<rightharpoonup> int" where "rwa1 = rwa0(this_contract \<mapsto> 0, carol \<mapsto> 1000)"
definition rwa2 :: "address \<rightharpoonup> int" where "rwa2 = rwa1(bob \<mapsto> 9900, this_contract \<mapsto> 100)"
definition stbl2 :: "address \<rightharpoonup> int" where "stbl2 = stbl0(bob \<mapsto> 9050, this_contract \<mapsto> 941, carol \<mapsto> 9)"

lemmas demo_bals = rwa0_def stbl0_def rwa1_def rwa2_def stbl2_def

lemma demo_withdraw:
  "withdraw_batch (rv_tokens open_gate) (user_env 30) 1 carol (demo_rv_open M_Manual) (demo_rv_at rwa0 stbl0 1000) =
     Inr (demo_rv_sent, demo_rv_at rwa1 stbl0 1000)"
proof -
  let ?s = "(demo_rv_open M_Manual)\<lparr>rv_totals := Some \<lparr>to_pooled = 0, to_proceeds = 0, to_rwa = 0, to_sent = 0\<rparr>\<rparr>"
  have tr: "token_transfer (rv_tokens open_gate) (user_env 30) token_a this_contract carol 1000 (demo_rv_at rwa0 stbl0 1000) =
    (Inr (demo_rv_at rwa1 stbl0 1000) :: (RedemptionError, _) res)"
    using demo_at_transfer(1) [of rwa0 this_contract 1000 carol "user_env 30" token_a stbl0 1000]
    by (simp add: demo_bals demo_defs width_defs)
  have "nav (rv_tokens open_gate) (user_env 30) (demo_settings M_Manual) ?s (demo_rv_at rwa1 stbl0 1000) = Inr ONE"
    by (rule demo_nav) (simp_all add: demo_rv_open_def demo_rv_def)
  then have ms: "mark_sent (rv_tokens open_gate) (user_env 30) 1 demo_batch (demo_settings M_Manual) ?s (demo_rv_at rwa1 stbl0 1000) = Inr demo_rv_sent"
    by (simp add: mark_sent_def rv_steps demo_batch_def new_batch_def demo_settings_def demo_rv_open_def demo_rv_def demo_rv_sent_def demo_sent_def width_defs)
  show ?thesis using tr ms
    by (simp add: withdraw_batch_def rv_send_def rv_steps demo_rv_open_def demo_rv_def demo_roles_def demo_settings_def demo_init_def demo_batch_def new_batch_def width_defs)
qed

lemma demo_settle:
  "settle_manual (rv_tokens open_gate) (user_env 40) 1 950 100 demo_rv_sent (demo_rv_at rwa1 stbl0 1000) =
     Inr (demo_rv_settled, demo_rv_at rwa2 stbl2 1000)"
proof -
  let ?s = "(demo_rv_sent)\<lparr>rv_totals := Some \<lparr>to_pooled = 0, to_proceeds = 941, to_rwa = 100, to_sent = 0\<rparr>\<rparr>"
  let ?st = "stbl0(bob \<mapsto> 9050, this_contract \<mapsto> 950)"
  have t1: "token_transfer (rv_tokens open_gate) (user_env 40) token_b bob this_contract 950 (demo_rv_at rwa1 stbl0 1000) =
      (Inr (demo_rv_at rwa1 ?st 1000) :: (RedemptionError, _) res)"
    using demo_at_transfer(2) [of stbl0 bob 950 this_contract "user_env 40" token_b rwa1 1000] by (simp add: demo_bals demo_defs width_defs user_env_def)
  have t2: "token_transfer (rv_tokens open_gate) (user_env 40) token_a bob this_contract 100 (demo_rv_at rwa1 ?st 1000) =
      (Inr (demo_rv_at rwa2 ?st 1000) :: (RedemptionError, _) res)"
    using demo_at_transfer(1) [of rwa1 bob 100 this_contract "user_env 40" token_a ?st 1000] by (simp add: demo_bals demo_defs width_defs user_env_def)
  have t3: "token_transfer (rv_tokens open_gate) (user_env 40) token_b this_contract carol 9 (demo_rv_at rwa2 ?st 1000) =
      (Inr (demo_rv_at rwa2 stbl2 1000) :: (RedemptionError, _) res)"
    using demo_at_transfer(2) [of ?st this_contract 9 carol "user_env 40" token_b rwa2 1000] by (simp add: demo_bals demo_defs width_defs)
  have n1: "nav (rv_tokens open_gate) (user_env 40) (demo_settings M_Manual) demo_rv_sent (demo_rv_at rwa1 stbl0 1000) = Inr ONE"
    and n2: "nav (rv_tokens open_gate) (user_env 40) (demo_settings M_Manual) ?s (demo_rv_at rwa2 ?st 1000) = Inr ONE"
    by (rule demo_nav; simp add: demo_rv_sent_def demo_rv_open_def demo_rv_def)+
  have fl: "nav_floor 900 ONE 50 = Inr 896"
  proof -
    have "mul_div_ceil 900 ONE ONE = Inr 900" "mul_div_ceil 900 (BPS - int 50) BPS = Inr 896"
      by (simp_all add: mul_div_ceil_Inr_iff ceil_div_def ONE_def BPS_def width_defs)
    then show ?thesis by (simp add: nav_floor_def)
  qed
  have fee: "rv_md 950 100 BPS = Inr 9" by (simp add: rv_md_Inr_iff mul_div_Inr_iff BPS_def width_defs)
  have fin: "finish (rv_tokens open_gate) (user_env 40) 1 (demo_sent\<lparr>ba_unsent := 100\<rparr>) 950 demo_rv_sent (demo_rv_at rwa2 ?st 1000) =
      Inr (demo_rv_settled, demo_rv_at rwa2 stbl2 1000)"
    using n2 t3 fee
    by (simp add: finish_def rv_steps rv_send_def demo_rv_sent_def demo_rv_open_def demo_rv_def demo_settings_def demo_rv_settled_def
      demo_settled_def demo_init_def width_defs rv_empty_def demo_sent_def demo_batch_def new_batch_def)
  have "ONE \<noteq> 0" by (simp add: ONE_def)
  then show ?thesis using t1 t2 n1 fl fin
    by (simp add: settle_manual_def rv_steps demo_rv_sent_def demo_sent_def demo_batch_def new_batch_def demo_rv_open_def demo_rv_def demo_settings_def
      demo_roles_def demo_init_def width_defs)
qed

abbreviation "demo_runs \<equiv> redemption_run (rv_tokens open_gate) (rv_fns open_gate) world_ok this_contract token_a token_b"

lemma demo_run_open: "demo_runs (demo_rv_open m) (demo_rv_at rwa0 stbl0 1000)"
  by (rule redemption_run.called [OF demo_run0, of "user_env 20" "RO_Request alice 1000 alice"])
    (simp_all add: demo_request rwa0_def stbl0_def)

lemma demo_run_sent: "demo_runs demo_rv_sent (demo_rv_at rwa1 stbl0 1000)"
  by (rule redemption_run.called [OF demo_run_open [of M_Manual], of "user_env 30" "RO_Withdraw_Batch 1 carol"]) (simp_all add: demo_withdraw [simplified])

lemma demo_run_settled: "demo_runs demo_rv_settled (demo_rv_at rwa2 stbl2 1000)"
  by (rule redemption_run.called [OF demo_run_sent, of "user_env 40" "RO_Settle_Manual 1 950 100"]) (simp_all add: demo_settle [simplified])


definition redeem_call :: Call where
  "redeem_call = \<lparr>ca_target = issuer, ca_func = ''redeem'', ca_args = [I128Val 1000]\<rparr>"

definition at_token :: "token_state \<Rightarrow> rv_world" where
  "at_token T = demo_rv_world1\<lparr>rw_ledger := ((\<lambda>_. funded_token)(token_a := T, token_b := funded_token\<lparr>tt_balances := stbl0\<rparr>),
     snd (rw_ledger demo_rv_world)), rw_claims := [demo_ct \<mapsto> demo_claims 1000]\<rparr>"

lemma demo_rv_at_token: "demo_rv_at f stbl0 1000 = at_token (funded_token\<lparr>tt_balances := f\<rparr>)"
  by (simp add: demo_rv_at_def at_token_def)

lemma at_token_approve:
  "0 \<le> x \<Longrightarrow> rh_approve (rv_fns open_gate) (calling (user_env 30) demo_account) demo_account token_a issuer x (at_token T) =
    Some (at_token (T\<lparr>tt_allowances := (tt_allowances T)((demo_account, issuer) \<mapsto> \<lparr>al_amount = x, al_expiration_ledger = 30\<rparr>)\<rparr>))"
proof -
  assume "0 \<le> x"
  moreover have "demo_ct \<noteq> token_a" "token_a \<noteq> demo_ct" by (simp_all add: demo_ct_def demo_defs)
  ultimately show ?thesis
    by (simp add: rv_fns_def at_account_def at_token_def demo_rv_world1_def demo_rv_world_def account_approve_def account_vault_def token_approve_def
      rv_tokens_def in_ledger_def ledger_host_def lift_host_def tt_approve_def check_nonneg_def require_auth_def authorised_def calling_def
      user_env_def demo_env_def fun_upd_twist)
qed

lemma at_token_redeem:
  assumes "tt_balances T demo_account = Some 1000" "tt_balances T issuer = None"
    and "tt_allowances T (demo_account, issuer) = Some \<lparr>al_amount = 1000, al_expiration_ledger = 30\<rparr>"
  shows "rh_execute (rv_fns open_gate) (calling (user_env 30) demo_account) demo_account issuer ''redeem'' [I128Val 1000] (at_token T) =
    Some (VoidVal, at_token (T\<lparr>tt_balances := (tt_balances T)(demo_account \<mapsto> 0, issuer \<mapsto> 1000),
      tt_allowances := (tt_allowances T)((demo_account, issuer) \<mapsto> \<lparr>al_amount = 0, al_expiration_ledger = 30\<rparr>)\<rparr>))"
proof -
  have ne: "demo_account \<noteq> issuer" "issuer \<noteq> demo_account" "issuer \<noteq> this_contract" "demo_ct \<noteq> token_a" "token_a \<noteq> demo_ct"
    by (simp_all add: demo_account_def issuer_def demo_ct_def demo_defs)
  with assms show ?thesis
    by (cases T) (simp add: rv_fns_def at_account_def at_token_def demo_rv_world1_def demo_rv_world_def account_execute_def account_vault_def rv_tokens_def issuer_invoke_def
      in_ledger_def ledger_host_def lift_host_def tt_transfer_from_def check_nonneg_def tt_spend_allowance_def do_transfer_def read_balance_def
      write_balance_def read_allowance_def Let_def arith_defs width_defs require_auth_def authorised_def calling_def user_env_def demo_env_def fun_upd_twist)
qed

lemma demo_redeem:
  "\<exists>s' w'. redeem_batch (rv_tokens open_gate) (rv_fns open_gate) (user_env 30) 1 (Some issuer) [redeem_call] (demo_rv_open M_Auto)
     (demo_rv_at rwa0 stbl0 1000) = Inr (s', w')"
proof -
  let ?s = "demo_rv_open M_Auto" and ?G = open_gate and ?e = "user_env 30" and ?w = "demo_rv_at rwa0 stbl0 1000"
  let ?r = "rwa0(this_contract \<mapsto> 0, demo_account \<mapsto> 1000)"
  have t1: "token_transfer (rv_tokens ?G) ?e token_a this_contract demo_account 1000 ?w = (Inr (demo_rv_at ?r stbl0 1000) :: (RedemptionError, _) res)"
    using demo_at_transfer(1) [of rwa0 this_contract 1000 demo_account ?e token_a stbl0 1000]
    by (simp add: rwa0_def demo_defs demo_account_def width_defs)
  let ?T = "funded_token\<lparr>tt_balances := ?r\<rparr>"
  let ?al = "\<lambda>x. (tt_allowances funded_token)((demo_account, issuer) \<mapsto> \<lparr>al_amount = x, al_expiration_ledger = 30\<rparr>)"
  let ?T1 = "?T\<lparr>tt_allowances := ?al 1000\<rparr>" and ?T2 = "?T\<lparr>tt_balances := ?r(demo_account \<mapsto> 0, issuer \<mapsto> 1000), tt_allowances := ?al 0\<rparr>"
  have a1: "rh_approve (rv_fns ?G) (calling ?e demo_account) demo_account token_a issuer 1000 (at_token ?T) = Some (at_token ?T1)"
    using at_token_approve [of 1000 ?T] by (simp add: funded_token_def)
  have a2: "rh_approve (rv_fns ?G) (calling ?e demo_account) demo_account token_a issuer 0 (at_token ?T2) = Some (at_token ?T2)"
    using at_token_approve [of 0 ?T2] by (simp add: funded_token_def)
  have ne: "demo_account \<noteq> issuer" "issuer \<notin> {alice, bob, this_contract, token_b, demo_ct}" "demo_account \<notin> {alice, bob, this_contract}"
    by (simp_all add: demo_account_def issuer_def demo_ct_def demo_defs)
  have ex: "rh_execute (rv_fns ?G) (calling ?e demo_account) demo_account issuer ''redeem'' [I128Val 1000] (at_token ?T1) =
      Some (VoidVal, at_token ?T2)"
    using at_token_redeem [of ?T1] ne by (simp add: rwa0_def)
  have v: "rh_verify (rv_fns ?G) (calling ?e verifier_addr) verifier_addr this_contract demo_account issuer ''redeem'' [I128Val 1000] (at_token ?T1) = Some True"
    by (simp add: at_token_def demo_rv_world1_def demo_rv_world_def rv_fns_def redeem_verifier_def redeem_rule_def verifier_eval)
  have st: "rv_init ?s = Some demo_init" "rv_settings ?s = Some (demo_settings M_Auto)" "se_verifier (demo_settings M_Auto) = Some verifier_addr"
     "in_rwa demo_init = token_a" "in_stable demo_init = token_b" "rv_cts ?s = [demo_ct \<mapsto> 1]"
    by (simp_all add: demo_rv_open_def demo_rv_def demo_init_def demo_settings_def)
  have run: "run_calls (rv_fns ?G) ?e demo_account [redeem_call] ?s (at_token ?T1) = Inr (at_token ?T2)"
    using v ex ne by (simp add: run_calls_def rv_init_of_def settings_def st redeem_call_def forbidden_def)
  have bal: "tk_balance (rv_tokens ?G) token_a a (at_token U) = (case tt_balances U a of None \<Rightarrow> 0 | Some x \<Rightarrow> x)" for a U
    by (simp add: rv_tokens_def at_token_def ledger_host_def lift_host_def read_balance_def demo_ct_def demo_defs)
  have send: "send_from (rv_tokens ?G) (rv_fns ?G) ?e demo_account 1000 (Some issuer) [redeem_call] ?s (demo_rv_at ?r stbl0 1000) = Inr (at_token ?T2)"
    using a1 a2 run ne by (simp add: send_from_def rv_init_of_def st Let_def demo_rv_at_token bal arith_defs width_defs)
  have nav: "nav (rv_tokens ?G) ?e (demo_settings M_Auto) s (at_token ?T2) = Inr ONE" if "rv_init s = Some demo_init" for s
    using that by (simp add: nav_def demo_settings_def rv_init_of_def demo_init_def rv_tokens_def at_token_def ledger_host_def lift_host_def
      ledger_price_def get_price_def demo_rv_world_def ONE_def arith_defs width_defs)
  have f: "free_account ?s = Inr demo_account" by (simp add: free_account_def accounts_def demo_rv_open_def demo_rv_def rv_empty_def)
  have b: "rv_batches ?s 1 = Some demo_batch" "ba_units demo_batch = 1000" "ba_status demo_batch = B_Open" "rv_roles ?s = Some demo_roles"
    "totals ?s = \<lparr>to_pooled = 1000, to_proceeds = 0, to_rwa = 0, to_sent = 0\<rparr>" "se_mode (demo_settings M_Auto) = M_Auto" "\<not> se_strike_at_send (demo_settings M_Auto)"
    "rl_settler demo_roles = carol" "carol \<noteq> this_contract"
    by (simp_all add: demo_rv_open_def demo_rv_def demo_batch_def new_batch_def totals_def demo_settings_def demo_roles_def demo_defs)
  let ?s1 = "?s\<lparr>rv_busy := [demo_account \<mapsto> 1], rv_totals := Some \<lparr>to_pooled = 0, to_proceeds = 0, to_rwa = 0, to_sent = 0\<rparr>\<rparr>"
  have "\<exists>s'. mark_sent (rv_tokens ?G) ?e 1 (demo_batch\<lparr>ba_account := Some demo_account\<rparr>) (demo_settings M_Auto) ?s1 (at_token ?T2) = Inr s'"
    using nav [of ?s1] by (simp add: mark_sent_def st b Let_def tally_def put_batch_def arith_defs width_defs)
  then obtain s' where "mark_sent (rv_tokens ?G) ?e 1 (demo_batch\<lparr>ba_account := Some demo_account\<rparr>) (demo_settings M_Auto) ?s1 (at_token ?T2) = Inr s'" ..
  moreover have "rv_busy ?s = Map.empty" by (simp add: demo_rv_open_def demo_rv_def rv_empty_def)
  ultimately show ?thesis
    using t1 send f ne
    by (auto simp: redeem_batch_def roles_def batch_of_def batch_def mode_is_def settings_def rv_init_of_def st b [simplified] Let_def tally_def
      sub_pooled_def arith_defs width_defs bal)
qed


end
