(* ===== verification/Crosschain.thy ===== *)
theory Crosschain
  imports Token_Interface Timelock Wire
begin

text \<open>
  \<open>contracts/crosschain_settle/src/lib.rs\<close>: fills of RFQ requests across chains, Stellar side, for both roles. The
  storage is the record \<open>cross_chain\<close>. The bridge is chosen at compile time: it is the argument \<open>T\<close>, a record of the
  functions of the module \<open>transport\<close>, and \<open>'b\<close> its part of the configuration. The contracts called (RFQ, redemption
  vault, verifier, tokens' \<open>decimals\<close>) and the serialiser are the fields of \<open>cc_host\<close>, \<open>None\<close> a call that fails;
  \<open>Auth\<close> is what the contract signs for calls one level deeper (\<open>authorize_as_current_contract\<close>). Events and TTL
  extension are left out.
\<close>

datatype CcError = CE_UnknownSender | CE_NoPeer | CE_NoRoute | CE_NoVault | CE_Expired | CE_AlreadyFilled | CE_InvalidBid
  | CE_QuoteRejected | CE_NotFound | CE_NotAuthorized | CE_Underpaid | CE_Timelock TimelockError

record 'b CcConfig =
  cf_rfq :: address
  cf_verifier :: address
  cf_xlm :: address
  cf_tip :: int
  cf_bridge :: 'b

record Peer =
  pe_addr :: bytes32
  pe_return_fee :: int
  pe_options :: "byte list"

datatype 'b CcChange = CC_Config "'b CcConfig" | CC_Peer nat Peer | CC_Route nat address "bytes32 option"
  | CC_Vault address "address option" | CC_Delay nat

record Order =
  od_taker :: address
  od_chain :: nat
  od_rwa :: address
  od_units :: int
  od_stable :: address
  od_amount :: int
  od_fee :: int
  od_tip :: int
  od_fee_recipient :: address
  od_delivery :: nat
  od_recipient :: address
  od_maker :: bytes32
  od_maker_is_contract :: bool

record Push =
  pu_vault :: address
  pu_rwa :: address
  pu_recipient :: address
  pu_batch :: nat
  pu_units :: int
  pu_chain :: nat
  pu_stable :: address
  pu_maker :: bytes32
  pu_maker_is_contract :: bool

record CcQuote =
  cq_maker_amount :: int
  cq_fee :: int
  cq_horizon_seconds :: nat

record VaultInit =
  vi_rwa :: address
  vi_stable :: address
  vi_ct_wasm :: bytes32
  vi_account_wasm :: bytes32

record 'b cross_chain =
  cs_admin :: "address option"
  cs_config :: "'b CcConfig option"
  cs_peers :: "nat \<rightharpoonup> Peer"
  cs_routes :: "nat \<times> address \<rightharpoonup> bytes32"
  cs_vaults :: "address \<rightharpoonup> address"
  cs_orders :: "bytes32 \<rightharpoonup> Order"
  cs_filled :: "bytes32 \<rightharpoonup> bool"
  cs_used :: "bytes32 \<rightharpoonup> bool"
  cs_pushes :: "bytes32 \<rightharpoonup> Push"
  cs_owed :: "address \<times> address \<rightharpoonup> int"
  cs_inbox :: "bytes32 \<rightharpoonup> nat"
  cs_timelock :: "'b CcChange timelock"

definition cs_empty :: "'b cross_chain" where
  "cs_empty = \<lparr>cs_admin = None, cs_config = None, cs_peers = Map.empty, cs_routes = Map.empty, cs_vaults = Map.empty,
     cs_orders = Map.empty, cs_filled = Map.empty, cs_used = Map.empty, cs_pushes = Map.empty, cs_owed = Map.empty,
     cs_inbox = Map.empty, cs_timelock = tl_empty\<rparr>"

definition DELIVER :: nat where "DELIVER = 0"
definition REDEEM_CT :: nat where "REDEEM_CT = 1"
definition REDEEM_PUSH :: nat where "REDEEM_PUSH = 2"
definition CROSS_DELIVER :: nat where "CROSS_DELIVER = 3"

lemmas delivery_consts = DELIVER_def REDEEM_CT_def REDEEM_PUSH_def CROSS_DELIVER_def

text \<open>The keys under which governed changes queue, and an entry signed for a deeper call.\<close>

datatype slot = Slot_Peer nat | Slot_Route nat address | Slot_Vault address

record Auth =
  au_contract :: address
  au_fn_name :: symbol
  au_args :: "val list"

record 'w cc_host =
  ch_crypto :: crypto
  ch_from_xdr :: "byte list \<Rightarrow> address option"
  ch_slot_xdr :: "slot \<Rightarrow> byte list"
  ch_hash_request :: "env \<Rightarrow> address \<Rightarrow> Request \<Rightarrow> 'w \<Rightarrow> bytes32 option"
  ch_quote_rfq_order :: "env \<Rightarrow> address \<Rightarrow> RfqOrder \<Rightarrow> int \<Rightarrow> 'w \<Rightarrow> CcQuote option"
  ch_is_order_signer :: "env \<Rightarrow> address \<Rightarrow> address \<Rightarrow> bytes32 \<Rightarrow> 'w \<Rightarrow> bool option"
  ch_is_salt_cancelled :: "env \<Rightarrow> address \<Rightarrow> address \<Rightarrow> nat \<Rightarrow> 'w \<Rightarrow> bool option"
  ch_vault_init :: "env \<Rightarrow> address \<Rightarrow> 'w \<Rightarrow> VaultInit option"
  ch_request_redeem :: "env \<Rightarrow> Auth list \<Rightarrow> address \<Rightarrow> address \<Rightarrow> int \<Rightarrow> address \<Rightarrow> 'w \<Rightarrow> (nat \<times> 'w) option"
  ch_claim :: "env \<Rightarrow> address \<Rightarrow> address \<Rightarrow> nat \<Rightarrow> int \<Rightarrow> address \<Rightarrow> 'w \<Rightarrow> (int \<times> 'w) option"
  ch_ct_of :: "env \<Rightarrow> address \<Rightarrow> nat \<Rightarrow> 'w \<Rightarrow> address option"
  ch_verify :: "env \<Rightarrow> address \<Rightarrow> bytes32 \<Rightarrow> byte list \<Rightarrow> byte list \<Rightarrow> 'w \<Rightarrow> unit option"
  ch_decimals :: "env \<Rightarrow> address \<Rightarrow> 'w \<Rightarrow> nat option"

record ('b, 'w) transport =
  tp_init :: "env \<Rightarrow> 'b CcConfig \<Rightarrow> address \<Rightarrow> 'w \<Rightarrow> (CcError, 'w) res"
  tp_fee :: "env \<Rightarrow> 'b CcConfig \<Rightarrow> nat \<Rightarrow> byte list \<Rightarrow> 'b cross_chain \<Rightarrow> 'w \<Rightarrow> (CcError, int) res"
  tp_bridge_fee :: "env \<Rightarrow> 'b CcConfig \<Rightarrow> nat \<Rightarrow> address \<Rightarrow> int \<Rightarrow> byte list \<Rightarrow> 'b cross_chain \<Rightarrow> 'w \<Rightarrow> (CcError, int) res"
  tp_send :: "env \<Rightarrow> 'b CcConfig \<Rightarrow> nat \<Rightarrow> byte list \<Rightarrow> address \<Rightarrow> 'b cross_chain \<Rightarrow> 'w \<Rightarrow> (CcError, 'w) res"
  tp_bridge :: "env \<Rightarrow> 'b CcConfig \<Rightarrow> nat \<Rightarrow> address \<Rightarrow> int \<Rightarrow> byte list \<Rightarrow> address \<Rightarrow> 'b cross_chain \<Rightarrow> 'w \<Rightarrow> (CcError, 'w) res"
  tp_check_route :: "env \<Rightarrow> 'b CcConfig \<Rightarrow> nat \<Rightarrow> address \<Rightarrow> bytes32 \<Rightarrow> 'w \<Rightarrow> (CcError, unit) res"

subsection \<open>Views and small helpers\<close>

definition cc_admin :: "'b cross_chain \<Rightarrow> (CcError, address) res" where
  "cc_admin s = unwrap (cs_admin s)"

definition cc_config :: "'b cross_chain \<Rightarrow> (CcError, 'b CcConfig) res" where
  "cc_config s = unwrap (cs_config s)"

definition cc_peer :: "nat \<Rightarrow> 'b cross_chain \<Rightarrow> Peer option" where
  "cc_peer chain s = cs_peers s chain"

definition cc_route :: "nat \<Rightarrow> address \<Rightarrow> 'b cross_chain \<Rightarrow> bytes32 option" where
  "cc_route chain stbl s = cs_routes s (chain, stbl)"

definition cc_vault :: "address \<Rightarrow> 'b cross_chain \<Rightarrow> address option" where
  "cc_vault rwa s = cs_vaults s rwa"

definition cc_order :: "bytes32 \<Rightarrow> 'b cross_chain \<Rightarrow> Order option" where
  "cc_order i s = cs_orders s i"

definition cc_filled :: "bytes32 \<Rightarrow> 'b cross_chain \<Rightarrow> bool" where
  "cc_filled i s = (cs_filled s i \<noteq> None)"

definition push_of :: "bytes32 \<Rightarrow> 'b cross_chain \<Rightarrow> Push option" where
  "push_of i s = cs_pushes s i"

definition cc_owed :: "address \<Rightarrow> address \<Rightarrow> 'b cross_chain \<Rightarrow> int" where
  "cc_owed recipient tok s = (case cs_owed s (recipient, tok) of None \<Rightarrow> 0 | Some x \<Rightarrow> x)"

definition peer_of :: "nat \<Rightarrow> 'b cross_chain \<Rightarrow> (CcError, Peer) res" where
  "peer_of chain s = or_panic (cc_peer chain s) CE_NoPeer"

definition check_peer :: "nat \<Rightarrow> bytes32 \<Rightarrow> 'b cross_chain \<Rightarrow> (CcError, unit) res" where
  "check_peer chain sender s =
    and_then (peer_of chain s) (\<lambda>p. panic_if (pe_addr p \<noteq> sender) CE_UnknownSender)"

text \<open>Units of a token per unit on the wire, which has 6 decimals. \<open>10i128.pow\<close> overflows beyond 38.\<close>

definition pow10_i128 :: "nat \<Rightarrow> ('e, int) res" where
  "pow10_i128 n = i128_checked (10 ^ n)"

definition unit_of :: "'w cc_host \<Rightarrow> env \<Rightarrow> address \<Rightarrow> 'w \<Rightarrow> (CcError, int) res" where
  "unit_of N e tok w =
    and_then (call_result (ch_decimals N (calling e tok) tok w)) (\<lambda>d.
    and_then (u32_sub d 6) (\<lambda>n. pow10_i128 n))"

text \<open>\<open>from_be_bytes\<close>.\<close>

definition be_value :: "byte list \<Rightarrow> nat" where
  "be_value bs = foldl (\<lambda>n b. 256 * n + unat b) 0 bs"

text \<open>\<open>auth\<close>: what this contract signs of a call the callee makes.\<close>

definition auth_entry :: "address \<Rightarrow> symbol \<Rightarrow> val list \<Rightarrow> Auth" where
  "auth_entry contract fn_name args = \<lparr>au_contract = contract, au_fn_name = fn_name, au_args = args\<rparr>"

definition bid_hash :: "'w cc_host \<Rightarrow> bytes32 \<Rightarrow> nat \<Rightarrow> byte list \<Rightarrow> bytes32" where
  "bid_hash N request_hash chain ws =
     sha256 (ch_crypto N) (bytes_of request_hash @ bytes_of (uint_word chain) @ ws)"

definition hash_bid :: "'w cc_host \<Rightarrow> bytes32 \<Rightarrow> nat \<Rightarrow> Bid \<Rightarrow> bytes32" where
  "hash_bid N request_hash taker_chain bid = bid_hash N request_hash taker_chain (bid_words bid)"

text \<open>\<open>send_or_hold\<close>: pays \<open>to\<close>, or owes it.\<close>

definition send_or_hold :: "'w host \<Rightarrow> env \<Rightarrow> address \<Rightarrow> address \<Rightarrow> int \<Rightarrow> 'b cross_chain \<Rightarrow> 'w \<Rightarrow>
    (CcError, 'b cross_chain \<times> 'w) res" where
  "send_or_hold H e tok to amount s w =
    (if amount \<le> 0 then Inr (s, w)
     else case tk_transfer H (calling e tok) tok (current_contract e) to amount w of
       Some w' \<Rightarrow> Inr (s, w')
     | None \<Rightarrow>
         and_then (i128_add (cc_owed to tok s) amount) (\<lambda>owed.
           Inr (s\<lparr>cs_owed := (cs_owed s)((to, tok) \<mapsto> owed)\<rparr>, w)))"

definition set_or_remove :: "'k \<Rightarrow> 'v option \<Rightarrow> ('k \<rightharpoonup> 'v) \<Rightarrow> ('k \<rightharpoonup> 'v)" where
  "set_or_remove k v m = (case v of Some x \<Rightarrow> m(k \<mapsto> x) | None \<Rightarrow> m(k := None))"

subsection \<open>Deployment and governance\<close>

definition cc_constructor :: "('b, 'w) transport \<Rightarrow> env \<Rightarrow> address \<Rightarrow> address \<Rightarrow> nat \<Rightarrow> 'b CcConfig \<Rightarrow> 'b cross_chain \<Rightarrow> 'w \<Rightarrow>
    (CcError, 'b cross_chain \<times> 'w) res" where
  "cc_constructor T e admin gd dl cfg s w =
    (let s = s\<lparr>cs_timelock := init dl gd (cs_timelock s), cs_admin := Some admin, cs_config := Some cfg\<rparr> in
     and_then (tp_init T e cfg admin w) (\<lambda>w. Inr (s, w)))"

definition cc_kind_of :: "'w cc_host \<Rightarrow> 'b CcChange \<Rightarrow> kind" where
  "cc_kind_of N change = (case change of
      CC_Config _ \<Rightarrow> 0
    | CC_Delay _ \<Rightarrow> 1
    | CC_Peer eid _ \<Rightarrow> kind_of (sha256 (ch_crypto N)) (ch_slot_xdr N (Slot_Peer eid))
    | CC_Route eid stbl _ \<Rightarrow> kind_of (sha256 (ch_crypto N)) (ch_slot_xdr N (Slot_Route eid stbl))
    | CC_Vault rwa _ \<Rightarrow> kind_of (sha256 (ch_crypto N)) (ch_slot_xdr N (Slot_Vault rwa)))"

definition check_change :: "('b, 'w) transport \<Rightarrow> env \<Rightarrow> 'b CcChange \<Rightarrow> 'b cross_chain \<Rightarrow> 'w \<Rightarrow> (CcError, unit) res" where
  "check_change T e change s w = (case change of
      CC_Route chain stbl (Some remote) \<Rightarrow> and_then (cc_config s) (\<lambda>cfg. tp_check_route T e cfg chain stbl remote w)
    | _ \<Rightarrow> Inr ())"

definition cc_submit :: "'w cc_host \<Rightarrow> ('b, 'w) transport \<Rightarrow> env \<Rightarrow> 'b CcChange \<Rightarrow> 'b cross_chain \<Rightarrow> 'w \<Rightarrow>
    (CcError, nat \<times> 'b cross_chain) res" where
  "cc_submit N T e change s w =
    and_then (cc_admin s) (\<lambda>admin.
    and_then (require_auth e admin) (\<lambda>_.
    and_then (check_change T e change s w) (\<lambda>_.
    and_then (submit e (cc_kind_of N change) change (cs_timelock s)) (\<lambda>(valid_at, t).
      Inr (valid_at, s\<lparr>cs_timelock := t\<rparr>)))))"

definition cc_accept :: "('b, 'w) transport \<Rightarrow> env \<Rightarrow> kind \<Rightarrow> 'b cross_chain \<Rightarrow> 'w \<Rightarrow> (CcError, 'b cross_chain) res" where
  "cc_accept T e k s w =
    and_then (map_err CE_Timelock (take_change e k (cs_timelock s))) (\<lambda>(change, t).
      let s = s\<lparr>cs_timelock := t\<rparr> in
      and_then (check_change T e change s w) (\<lambda>_.
        case change of
          CC_Config c \<Rightarrow> Inr (s\<lparr>cs_config := Some c\<rparr>)
        | CC_Peer chain p \<Rightarrow> Inr (s\<lparr>cs_peers := (cs_peers s)(chain \<mapsto> p)\<rparr>)
        | CC_Route eid stbl remote \<Rightarrow> Inr (s\<lparr>cs_routes := set_or_remove (eid, stbl) remote (cs_routes s)\<rparr>)
        | CC_Vault rwa v \<Rightarrow> Inr (s\<lparr>cs_vaults := set_or_remove rwa v (cs_vaults s)\<rparr>)
        | CC_Delay d \<Rightarrow> and_then (guardian t) (\<lambda>g. Inr (s\<lparr>cs_timelock := init d g t\<rparr>))))"

definition cc_pending :: "kind \<Rightarrow> 'b cross_chain \<Rightarrow> ('b CcChange \<times> nat) option" where
  "cc_pending k s = pending k (cs_timelock s)"

definition cc_revoke :: "env \<Rightarrow> kind \<Rightarrow> address \<Rightarrow> 'b cross_chain \<Rightarrow> (CcError, 'b cross_chain) res" where
  "cc_revoke e k caller s =
    and_then (cc_admin s) (\<lambda>admin.
    and_then (map_err CE_Timelock (revoke e k caller admin (cs_timelock s))) (\<lambda>t.
      Inr (s\<lparr>cs_timelock := t\<rparr>)))"

definition cc_sweep :: "'w host \<Rightarrow> env \<Rightarrow> address \<Rightarrow> int \<Rightarrow> 'b cross_chain \<Rightarrow> 'w \<Rightarrow> (CcError, 'w) res" where
  "cc_sweep H e to amount s w =
    and_then (cc_admin s) (\<lambda>admin.
    and_then (require_auth e admin) (\<lambda>_.
    and_then (cc_config s) (\<lambda>cfg.
      token_transfer H e (cf_xlm cfg) (current_contract e) to amount w)))"

subsection \<open>Taker here\<close>

text \<open>\<open>i128\<close> division and remainder, which truncate.\<close>

definition i128_quot :: "int \<Rightarrow> int \<Rightarrow> ('e, int) res" where
  "i128_quot a b = (if b = 0 then Inl (Trap DivByZero) else i128_checked (sgn a * sgn b * (\<bar>a\<bar> div \<bar>b\<bar>)))"

definition i128_rem :: "int \<Rightarrow> int \<Rightarrow> ('e, int) res" where
  "i128_rem a b = and_then (i128_quot a b) (\<lambda>q. Inr (a - b * q))"

definition check_request :: "env \<Rightarrow> Request \<Rightarrow> bytes32 \<Rightarrow> 'b cross_chain \<Rightarrow> (CcError, unit) res" where
  "check_request e r i s =
    and_then (panic_if (rq_sender r \<noteq> Some (current_contract e) \<or> rq_order_type r \<noteq> Rfq) CE_NotAuthorized) (\<lambda>_.
    and_then (panic_if (rq_expiry r \<le> ledger_timestamp e) CE_Expired) (\<lambda>_.
      panic_if (cc_filled i s) CE_AlreadyFilled))"

definition check_bid :: "'w cc_host \<Rightarrow> env \<Rightarrow> Request \<Rightarrow> nat \<Rightarrow> Bid \<Rightarrow> 'b cross_chain \<Rightarrow> 'w \<Rightarrow> (CcError, unit) res" where
  "check_bid N e r chain bid s w =
    and_then (panic_if (bd_deadline bid < ledger_timestamp e) CE_Expired) (\<lambda>_.
    and_then (panic_if (cc_route chain (rq_maker_token r) s \<noteq> Some (bd_stable bid)) CE_NoRoute) (\<lambda>_.
      if bd_delivery bid = CROSS_DELIVER then
        and_then (or_panic (cc_route chain (rq_taker_token r) s) CE_NoRoute) (\<lambda>_. Inr ())
      else
        and_then (panic_if (CROSS_DELIVER < bd_delivery bid \<or> bd_recipient bid = 0) CE_InvalidBid) (\<lambda>_.
          if bd_delivery bid = DELIVER then Inr ()
          else
            and_then (or_panic (cc_vault (rq_taker_token r) s) CE_NoVault) (\<lambda>vlt.
            and_then (call_result (ch_vault_init N (calling e vlt) vlt w)) (\<lambda>ini.
              panic_if (bd_delivery bid = REDEEM_PUSH \<and> vi_stable ini \<noteq> rq_maker_token r) CE_NoVault)))))"

definition cc_quote :: "'w cc_host \<Rightarrow> env \<Rightarrow> 'b CcConfig \<Rightarrow> Request \<Rightarrow> Bid \<Rightarrow> int \<Rightarrow> 'w \<Rightarrow> (CcError, CcQuote) res" where
  "cc_quote N e cfg r bid tip w =
    and_then (unit_of N e (rq_maker_token r) w) (\<lambda>u.
    and_then (i128_mul (bd_max_amount bid) u) (\<lambda>cap.
      let order = \<lparr>ro_maker_token = rq_maker_token r, ro_taker_token = rq_taker_token r, ro_taker_amount = rq_taker_amount r,
        ro_min_received_amount = rq_min_received_amount r, ro_fee_bps = rq_fee_bps r, ro_taker = rq_taker r,
        ro_sender = rq_sender r, ro_fee_recipient = rq_fee_recipient r, ro_expiry = rq_expiry r, ro_salt = rq_salt r,
        ro_taker_max_bps_per_day = rq_taker_max_bps_per_day r, ro_maker_bps_per_day = bd_maker_bps_per_day bid,
        ro_max_maker_amount = cap, ro_maker = current_contract e\<rparr> in
      and_then (call_result (ch_quote_rfq_order N (calling e (cf_rfq cfg)) (cf_rfq cfg) order (rq_taker_amount r) w)) (\<lambda>q.
      and_then
        (if cap < cq_maker_amount q then Inr True
         else
           and_then (i128_sub (cq_maker_amount q) (cq_fee q)) (\<lambda>net.
           and_then (i128_sub net tip) (\<lambda>net. Inr (net < rq_min_received_amount r)))) (\<lambda>bad.
      and_then (panic_if bad CE_QuoteRejected) (\<lambda>_. Inr q)))))"

definition cc_fill :: "'w host \<Rightarrow> 'w cc_host \<Rightarrow> ('b, 'w) transport \<Rightarrow> env \<Rightarrow> Request \<Rightarrow> nat \<Rightarrow> Bid \<Rightarrow> byte list \<Rightarrow>
    'b cross_chain \<Rightarrow> 'w \<Rightarrow> (CcError, bytes32 \<times> 'b cross_chain \<times> 'w) res" where
  "cc_fill H N T e r chain bid signature s w =
    and_then (cc_config s) (\<lambda>cfg.
    and_then (or_panic (rq_taker r) CE_NotAuthorized) (\<lambda>taker.
    and_then (require_auth e taker) (\<lambda>_.
    and_then (call_result (ch_hash_request N (calling e (cf_rfq cfg)) (cf_rfq cfg) r w)) (\<lambda>i.
    and_then (check_request e r i s) (\<lambda>_.
    and_then (check_bid N e r chain bid s w) (\<lambda>_.
    and_then (unit_of N e (rq_maker_token r) w) (\<lambda>u.
    and_then (i128_mul (cf_tip cfg) u) (\<lambda>tip.
    and_then (cc_quote N e cfg r bid tip w) (\<lambda>q.
    and_then (wire_address (ch_from_xdr N) (bd_recipient bid) (bd_recipient_is_contract bid)) (\<lambda>recipient.
      let order = \<lparr>od_taker = taker, od_chain = chain, od_rwa = rq_taker_token r, od_units = rq_taker_amount r,
            od_stable = rq_maker_token r, od_amount = cq_maker_amount q, od_fee = cq_fee q, od_tip = tip,
            od_fee_recipient = rq_fee_recipient r, od_delivery = bd_delivery bid, od_recipient = recipient,
            od_maker = bd_maker bid, od_maker_is_contract = bd_maker_is_contract bid\<rparr>;
          s = s\<lparr>cs_filled := (cs_filled s)(i \<mapsto> True), cs_orders := (cs_orders s)(i \<mapsto> order)\<rparr>;
          me = current_contract e in
      and_then (token_transfer H e (rq_taker_token r) taker me (rq_taker_amount r) w) (\<lambda>w.
      and_then (i128_add (cq_maker_amount q) u) (\<lambda>x.
      and_then (i128_sub x 1) (\<lambda>x.
      and_then (i128_quot x u) (\<lambda>amount.
      and_then (peer_of chain s) (\<lambda>p.
      and_then
        (if bd_delivery bid = CROSS_DELIVER then
           and_then (tp_bridge_fee T e cfg chain (od_rwa order) (od_units order)
             (payout (bd_maker bid) (bd_maker_is_contract bid)) s w) (\<lambda>f. i128_add (pe_return_fee p) f)
         else Inr (pe_return_fee p)) (\<lambda>xlm.
      and_then (token_transfer H e (cf_xlm cfg) taker me xlm w) (\<lambda>w.
      and_then (tp_send T e cfg chain (wire_fill i amount bid signature) taker s w) (\<lambda>w.
        Inr (i, s, w)))))))))))))))))))"

definition fill_fee :: "('b, 'w) transport \<Rightarrow> env \<Rightarrow> nat \<Rightarrow> 'b cross_chain \<Rightarrow> 'w \<Rightarrow> (CcError, int) res" where
  "fill_fee T e chain s w =
    and_then (cc_config s) (\<lambda>cfg.
    and_then (tp_fee T e cfg chain (replicate (SIG_AT + 96) 0) s w) (\<lambda>f.
    and_then (peer_of chain s) (\<lambda>p.
      i128_add f (pe_return_fee p))))"

definition push_claim :: "'w host \<Rightarrow> 'w cc_host \<Rightarrow> ('b, 'w) transport \<Rightarrow> env \<Rightarrow> address \<Rightarrow> bytes32 \<Rightarrow> 'b cross_chain \<Rightarrow> 'w \<Rightarrow>
    (CcError, int \<times> 'b cross_chain \<times> 'w) res" where
  "push_claim H N T e caller i s w =
    and_then (require_auth e caller) (\<lambda>_.
    and_then (cc_config s) (\<lambda>cfg.
    and_then (or_panic (push_of i s) CE_NotFound) (\<lambda>p.
      let s = s\<lparr>cs_pushes := (cs_pushes s)(i := None)\<rparr>; me = current_contract e;
          stbl = pu_stable p; rwa = pu_rwa p;
          before = tk_balance H stbl me w; rwa_before = tk_balance H rwa me w in
      and_then (call_result (ch_claim N (calling e (pu_vault p)) (pu_vault p) me (pu_batch p) (pu_units p) me w)) (\<lambda>(v, w).
      and_then (i128_sub (tk_balance H rwa me w) rwa_before) (\<lambda>in_kind.
      and_then (send_or_hold H e rwa (pu_recipient p) in_kind s w) (\<lambda>(s, w).
      and_then (i128_sub (tk_balance H stbl me w) before) (\<lambda>paid.
      and_then (unit_of N e stbl w) (\<lambda>u.
      and_then (i128_rem paid u) (\<lambda>dust.
      and_then (i128_sub paid dust) (\<lambda>amount.
      and_then (tp_bridge T e cfg (pu_chain p) stbl amount (payout (pu_maker p) (pu_maker_is_contract p)) caller s w) (\<lambda>w.
        Inr (amount, s, w))))))))))))"

subsection \<open>Maker here\<close>

definition check_signed :: "'w cc_host \<Rightarrow> env \<Rightarrow> 'b CcConfig \<Rightarrow> address \<Rightarrow> Bid \<Rightarrow> bytes32 \<Rightarrow> byte list \<Rightarrow> 'w \<Rightarrow>
    (CcError, CcError option) res" where
  "check_signed N e cfg maker bid hash sig w =
    (if length sig \<noteq> 96 then Inr (Some CE_NotAuthorized)
     else
       let signer = of_bytes (take 32 sig); signature = take 64 (drop 32 sig);
           dg = bytes_of (sha256 (ch_crypto N) (SEP53_PREFIX @ bytes_of hash));
           valid = (ch_verify N (calling e (cf_verifier cfg)) (cf_verifier cfg) signer dg signature w \<noteq> None);
           own = (\<not> bd_maker_is_contract bid \<and> bd_maker bid = signer) in
       and_then
         (if \<not> valid then Inr True
          else if own then Inr False
          else and_then (call_result (ch_is_order_signer N (calling e (cf_rfq cfg)) (cf_rfq cfg) maker signer w)) (\<lambda>ok. Inr (\<not> ok)))
         (\<lambda>bad. Inr (if bad then Some CE_NotAuthorized else None)))"

text \<open>\<open>pay\<close>: \<open>Inr (Inl err)\<close> is the \<open>Err\<close> that turns into a FAIL.\<close>

definition cc_pay :: "'w host \<Rightarrow> 'w cc_host \<Rightarrow> ('b, 'w) transport \<Rightarrow> env \<Rightarrow> 'b CcConfig \<Rightarrow> nat \<Rightarrow> byte list \<Rightarrow> 'b cross_chain \<Rightarrow> 'w \<Rightarrow>
    (CcError, CcError + 'b cross_chain \<times> 'w) res" where
  "cc_pay H N T e cfg chain message s w =
    and_then (parse_bid message) (\<lambda>parsed.
      case parsed of
        None \<Rightarrow> Inr (Inl CE_InvalidBid)
      | Some bid \<Rightarrow>
          and_then (word_nth message 1) (\<lambda>i.
          and_then (word_nth message 2) (\<lambda>x.
            let amount = as_i128 (tail x);
                ws = take (SIG_AT - BID_AT) (drop BID_AT message);
                hash = bid_hash N i chain ws in
            and_then (wire_address (ch_from_xdr N) (bd_maker bid) (bd_maker_is_contract bid)) (\<lambda>maker.
            and_then (wire_address (ch_from_xdr N) (bd_stable bid) True) (\<lambda>stbl.
              let salt = as_u64 (int (tail (bd_salt bid))) in
              and_then
                (if bd_max_amount bid < amount \<or> bd_deadline bid < ledger_timestamp e \<or> cs_used s hash \<noteq> None \<or>
                    cc_route chain stbl s = None then Inr True
                 else call_result (ch_is_salt_cancelled N (calling e (cf_rfq cfg)) (cf_rfq cfg) maker salt w)) (\<lambda>bad.
                if bad then Inr (Inl CE_InvalidBid)
                else
                  and_then (check_signed N e cfg maker bid hash (drop SIG_AT message) w) (\<lambda>err.
                    case err of
                      Some x \<Rightarrow> Inr (Inl x)
                    | None \<Rightarrow>
                        let me = current_contract e in
                        and_then (unit_of N e stbl w) (\<lambda>u.
                        and_then (i128_mul amount u) (\<lambda>loc.
                          case tk_transfer_from H (calling e stbl) stbl me maker me loc w of
                            None \<Rightarrow> Inr (Inl CE_NotAuthorized)
                          | Some w \<Rightarrow>
                              let s = s\<lparr>cs_used := (cs_used s)(hash \<mapsto> True)\<rparr> in
                              and_then (tp_bridge T e cfg chain stbl loc (about PAID i) me s w) (\<lambda>w.
                                Inr (Inr (s, w))))))))))))"

definition on_fill :: "'w host \<Rightarrow> 'w cc_host \<Rightarrow> ('b, 'w) transport \<Rightarrow> env \<Rightarrow> 'b CcConfig \<Rightarrow> nat \<Rightarrow> byte list \<Rightarrow> 'b cross_chain \<Rightarrow> 'w \<Rightarrow>
    (CcError, 'b cross_chain \<times> 'w) res" where
  "on_fill H N T e cfg chain message s w =
    and_then (cc_pay H N T e cfg chain message s w) (\<lambda>r.
      case r of
        Inr sw \<Rightarrow> Inr sw
      | Inl _ \<Rightarrow>
          and_then (word_nth message 1) (\<lambda>i.
          and_then (tp_send T e cfg chain (about FAIL i) (current_contract e) s w) (\<lambda>w.
            Inr (s, w))))"

subsection \<open>Settlement\<close>

definition route_rwa :: "'w host \<Rightarrow> 'w cc_host \<Rightarrow> ('b, 'w) transport \<Rightarrow> env \<Rightarrow> 'b CcConfig \<Rightarrow> bytes32 \<Rightarrow> Order \<Rightarrow> 'b cross_chain \<Rightarrow> 'w \<Rightarrow>
    (CcError, 'b cross_chain \<times> 'w) res" where
  "route_rwa H N T e cfg i ord s w =
    (if od_delivery ord = DELIVER then send_or_hold H e (od_rwa ord) (od_recipient ord) (od_units ord) s w
     else
       let me = current_contract e in
       if od_delivery ord = CROSS_DELIVER then
         and_then (tp_bridge T e cfg (od_chain ord) (od_rwa ord) (od_units ord)
           (payout (od_maker ord) (od_maker_is_contract ord)) me s w) (\<lambda>w. Inr (s, w))
       else
         and_then (or_panic (cc_vault (od_rwa ord) s) CE_NoVault) (\<lambda>vlt.
           let pull = [AddressVal me, AddressVal vlt, I128Val (od_units ord)];
               auths = [auth_entry (od_rwa ord) ''transfer'' pull] in
           and_then (call_result (ch_request_redeem N (calling e vlt) auths vlt me (od_units ord) me w)) (\<lambda>(b, w).
             if od_delivery ord = REDEEM_CT then
               and_then (call_result (ch_ct_of N (calling e vlt) vlt b w)) (\<lambda>ct.
                 send_or_hold H e ct (od_recipient ord) (od_units ord) s w)
             else
               let p = \<lparr>pu_vault = vlt, pu_rwa = od_rwa ord, pu_recipient = od_recipient ord, pu_batch = b,
                 pu_units = od_units ord, pu_chain = od_chain ord, pu_stable = od_stable ord, pu_maker = od_maker ord,
                 pu_maker_is_contract = od_maker_is_contract ord\<rparr> in
               Inr (s\<lparr>cs_pushes := (cs_pushes s)(i \<mapsto> p)\<rparr>, w))))"

definition on_funds :: "'w host \<Rightarrow> 'w cc_host \<Rightarrow> ('b, 'w) transport \<Rightarrow> env \<Rightarrow> 'b CcConfig \<Rightarrow> nat \<Rightarrow> address \<Rightarrow> int \<Rightarrow> byte list \<Rightarrow>
    address option \<Rightarrow> 'b cross_chain \<Rightarrow> 'w \<Rightarrow> (CcError, 'b cross_chain \<times> 'w) res" where
  "on_funds H N T e cfg chain tok amount payload relayer s w =
    and_then (wire_kind payload) (\<lambda>knd.
      if knd = PAYOUT then
        and_then (word_nth payload 2) (\<lambda>x.
        and_then (word_nth payload 1) (\<lambda>k.
        and_then (wire_address (ch_from_xdr N) k (tail x \<noteq> 0)) (\<lambda>to.
        and_then (case relayer of
            None \<Rightarrow> Inr 0
          | Some _ \<Rightarrow> and_then (unit_of N e tok w) (\<lambda>u. and_then (i128_mul (cf_tip cfg) u) (\<lambda>t. Inr (min t amount)))) (\<lambda>tip.
        and_then (send_or_hold H e tok (case relayer of None \<Rightarrow> to | Some rl \<Rightarrow> rl) tip s w) (\<lambda>(s, w).
        and_then (i128_sub amount tip) (\<lambda>rest.
          send_or_hold H e tok to rest s w))))))
      else
        and_then (word_nth payload 1) (\<lambda>i.
        and_then (or_panic
            (case cc_order i s of
               None \<Rightarrow> None
             | Some ord \<Rightarrow> if knd = PAID \<and> od_chain ord = chain \<and> od_stable ord = tok then Some ord else None) CE_NotFound) (\<lambda>ord.
        and_then (panic_if (amount < od_amount ord) CE_Underpaid) (\<lambda>_.
          let s = s\<lparr>cs_orders := (cs_orders s)(i := None)\<rparr> in
          and_then (i128_sub amount (od_fee ord)) (\<lambda>x.
          and_then (i128_sub x (od_tip ord)) (\<lambda>net.
          and_then (send_or_hold H e tok (od_taker ord) net s w) (\<lambda>(s, w).
          and_then (send_or_hold H e tok (od_fee_recipient ord) (od_fee ord) s w) (\<lambda>(s, w).
          and_then (send_or_hold H e tok (case relayer of None \<Rightarrow> od_taker ord | Some rl \<Rightarrow> rl) (od_tip ord) s w) (\<lambda>(s, w).
            route_rwa H N T e cfg i ord s w)))))))))"

definition on_fail :: "'w host \<Rightarrow> env \<Rightarrow> nat \<Rightarrow> bytes32 \<Rightarrow> 'b cross_chain \<Rightarrow> 'w \<Rightarrow> (CcError, 'b cross_chain \<times> 'w) res" where
  "on_fail H e chain i s w =
    and_then (or_panic
        (case cc_order i s of None \<Rightarrow> None | Some ord \<Rightarrow> if od_chain ord = chain then Some ord else None) CE_NotFound) (\<lambda>ord.
      let s = s\<lparr>cs_orders := (cs_orders s)(i := None), cs_filled := (cs_filled s)(i := None)\<rparr> in
      send_or_hold H e (od_rwa ord) (od_taker ord) (od_units ord) s w)"

subsection \<open>Either\<close>

definition cc_withdraw :: "'w host \<Rightarrow> env \<Rightarrow> address \<Rightarrow> address \<Rightarrow> 'b cross_chain \<Rightarrow> 'w \<Rightarrow> (CcError, 'b cross_chain \<times> 'w) res" where
  "cc_withdraw H e recipient tok s w =
    and_then (require_auth e recipient) (\<lambda>_.
      let amount = cc_owed recipient tok s; s = s\<lparr>cs_owed := (cs_owed s)((recipient, tok) := None)\<rparr> in
      and_then (token_transfer H e tok (current_contract e) recipient amount w) (\<lambda>w.
        Inr (s, w)))"

end
