(* ===== verification/Crosschain_Inv.thy ===== *)
theory Crosschain_Inv
  imports Crosschain
begin

text \<open>
  Custody of the cross-chain settlement contract: what it holds for takers (the escrow of orders in flight) and for those
  it could not pay (what it owes). The bridge and the contracts called meet \<open>bridge_laws\<close>; inside it, every operation
  leaves the contract holding at least what it held before beyond these liabilities, less what it was told had arrived.
\<close>

subsection \<open>Liabilities\<close>

definition escrow :: "address \<Rightarrow> 'b cross_chain \<Rightarrow> int" where
  "escrow t s = map_total (\<lambda>i ord. if od_rwa ord = t then od_units ord else 0) (cs_orders s)"

definition held :: "address \<Rightarrow> 'b cross_chain \<Rightarrow> int" where
  "held t s = map_total (\<lambda>k x. if snd k = t then x else 0) (cs_owed s)"

definition slack :: "'w host \<Rightarrow> address \<Rightarrow> address \<Rightarrow> 'b cross_chain \<Rightarrow> 'w \<Rightarrow> int" where
  "slack H me t s w = tk_balance H t me w - escrow t s - held t s"

definition order_ok :: "Order \<Rightarrow> bool" where
  "order_ok ord \<longleftrightarrow> 0 \<le> od_units ord \<and> 0 \<le> od_fee ord \<and> 0 \<le> od_tip ord \<and> od_fee ord + od_tip ord \<le> od_amount ord \<and>
     od_rwa ord \<noteq> od_stable ord"

definition cc_inv :: "('b CcConfig \<Rightarrow> bool) \<Rightarrow> 'b cross_chain \<Rightarrow> bool" where
  "cc_inv cfg_ok s \<longleftrightarrow> finite (dom (cs_orders s)) \<and> finite (dom (cs_owed s)) \<and>
     (\<forall>i ord. cs_orders s i = Some ord \<longrightarrow> order_ok ord \<and> cs_filled s i \<noteq> None) \<and>
     (\<forall>k x. cs_owed s k = Some x \<longrightarrow> 0 \<le> x) \<and>
     (\<forall>i p. cs_pushes s i = Some p \<longrightarrow> pu_rwa p \<noteq> pu_stable p) \<and>
     (\<forall>c. cs_config s = Some c \<longrightarrow> cfg_ok c) \<and>
     (\<forall>k c v. tl_pending (cs_timelock s) k = Some (CC_Config c, v) \<longrightarrow> cfg_ok c)"

lemma cc_inv_D:
  assumes "cc_inv cfg_ok s"
  shows "finite (dom (cs_orders s))" "finite (dom (cs_owed s))" "cs_orders s i = Some ord \<Longrightarrow> order_ok ord"
    "cs_orders s i = Some ord \<Longrightarrow> cs_filled s i \<noteq> None" "cs_owed s k = Some x \<Longrightarrow> 0 \<le> x"
    "cs_pushes s i = Some p \<Longrightarrow> pu_rwa p \<noteq> pu_stable p" "cs_config s = Some c \<Longrightarrow> cfg_ok c"
    "tl_pending (cs_timelock s) k' = Some (CC_Config c, v) \<Longrightarrow> cfg_ok c"
  using assms unfolding cc_inv_def by blast+

lemma cc_owed_nonneg: "cc_inv cfg_ok s \<Longrightarrow> 0 \<le> cc_owed a t s"
  using cc_inv_D(5) [of cfg_ok s "(a, t)"] by (auto simp: cc_owed_def split: option.splits)

lemma cc_inv_frame:
  assumes "cc_inv cfg_ok s" "cs_orders s' = cs_orders s" "cs_owed s' = cs_owed s" "cs_filled s' = cs_filled s" "cs_pushes s' = cs_pushes s"
    and "\<And>c. cs_config s' = Some c \<Longrightarrow> cfg_ok c" "\<And>k c v. tl_pending (cs_timelock s') k = Some (CC_Config c, v) \<Longrightarrow> cfg_ok c"
  shows "cc_inv cfg_ok s'"
  using assms(1) unfolding cc_inv_def assms(2-5) using assms(6,7) by blast

lemma cc_inv_owed:
  "cc_inv cfg_ok s \<Longrightarrow> 0 \<le> x \<Longrightarrow> cc_inv cfg_ok (s\<lparr>cs_owed := (cs_owed s)(k \<mapsto> x)\<rparr>)"
  "cc_inv cfg_ok s \<Longrightarrow> cc_inv cfg_ok (s\<lparr>cs_owed := (cs_owed s)(k := None)\<rparr>)"
  unfolding cc_inv_def by (auto split: if_splits)

lemma cc_inv_order_gone:
  "cc_inv cfg_ok s \<Longrightarrow> cc_inv cfg_ok (s\<lparr>cs_orders := (cs_orders s)(i := None)\<rparr>)"
  "cc_inv cfg_ok s \<Longrightarrow> cc_inv cfg_ok (s\<lparr>cs_orders := (cs_orders s)(i := None), cs_filled := (cs_filled s)(i := None)\<rparr>)"
  unfolding cc_inv_def by (auto split: if_splits)

lemma cc_inv_order_put:
  "cc_inv cfg_ok s \<Longrightarrow> order_ok ord \<Longrightarrow> cc_inv cfg_ok (s\<lparr>cs_filled := (cs_filled s)(i \<mapsto> b), cs_orders := (cs_orders s)(i \<mapsto> ord)\<rparr>)"
  unfolding cc_inv_def by (auto split: if_splits)

lemma cc_inv_misc:
  "cc_inv cfg_ok s \<Longrightarrow> cc_inv cfg_ok (s\<lparr>cs_used := u\<rparr>)"
  "cc_inv cfg_ok s \<Longrightarrow> cc_inv cfg_ok (s\<lparr>cs_inbox := ib\<rparr>)"
  "cc_inv cfg_ok s \<Longrightarrow> cc_inv cfg_ok (s\<lparr>cs_pushes := (cs_pushes s)(i := None)\<rparr>)"
  "cc_inv cfg_ok s \<Longrightarrow> pu_rwa p \<noteq> pu_stable p \<Longrightarrow> cc_inv cfg_ok (s\<lparr>cs_pushes := (cs_pushes s)(i \<mapsto> p)\<rparr>)"
  unfolding cc_inv_def by (auto split: if_splits)

lemma liabilities_frame [simp]:
  "escrow t (s\<lparr>cs_owed := ow\<rparr>) = escrow t s" "held t (s\<lparr>cs_orders := m\<rparr>) = held t s"
  "escrow t (s\<lparr>cs_filled := fi\<rparr>) = escrow t s" "held t (s\<lparr>cs_filled := fi\<rparr>) = held t s"
  "escrow t (s\<lparr>cs_used := us\<rparr>) = escrow t s" "held t (s\<lparr>cs_used := us\<rparr>) = held t s"
  "escrow t (s\<lparr>cs_pushes := pus\<rparr>) = escrow t s" "held t (s\<lparr>cs_pushes := pus\<rparr>) = held t s"
  "escrow t (s\<lparr>cs_inbox := ib\<rparr>) = escrow t s" "held t (s\<lparr>cs_inbox := ib\<rparr>) = held t s"
  "escrow t (s\<lparr>cs_timelock := tlk\<rparr>) = escrow t s" "held t (s\<lparr>cs_timelock := tlk\<rparr>) = held t s"
  "escrow t (s\<lparr>cs_config := cfg\<rparr>) = escrow t s" "held t (s\<lparr>cs_config := cfg\<rparr>) = held t s"
  "escrow t (s\<lparr>cs_peers := pe\<rparr>) = escrow t s" "held t (s\<lparr>cs_peers := pe\<rparr>) = held t s"
  "escrow t (s\<lparr>cs_routes := ro\<rparr>) = escrow t s" "held t (s\<lparr>cs_routes := ro\<rparr>) = held t s"
  "escrow t (s\<lparr>cs_vaults := va\<rparr>) = escrow t s" "held t (s\<lparr>cs_vaults := va\<rparr>) = held t s"
  by (simp_all add: escrow_def held_def)

lemma escrow_upd:
  assumes "finite (dom (cs_orders s))"
  shows "escrow t (s\<lparr>cs_orders := (cs_orders s)(i := None)\<rparr>) =
      escrow t s - (case cs_orders s i of None \<Rightarrow> 0 | Some ord \<Rightarrow> if od_rwa ord = t then od_units ord else 0)"
    "cs_orders s i = None \<Longrightarrow> escrow t (s\<lparr>cs_orders := (cs_orders s)(i \<mapsto> ord)\<rparr>) =
      escrow t s + (if od_rwa ord = t then od_units ord else 0)"
  using assms by (simp_all add: escrow_def map_total_put map_total_remove)

lemma held_upd:
  assumes "finite (dom (cs_owed s))"
  shows "held t (s\<lparr>cs_owed := (cs_owed s)((a, tok) := None)\<rparr>) = held t s - (if tok = t then cc_owed a tok s else 0)"
    "held t (s\<lparr>cs_owed := (cs_owed s)((a, tok) \<mapsto> x)\<rparr>) = held t s + (if tok = t then x - cc_owed a tok s else 0)"
  using assms by (auto simp: held_def map_total_put map_total_remove cc_owed_def split: option.splits)

subsection \<open>How operations decompose\<close>

lemma cc_reads_Inr_iff [rs]:
  "cc_admin s = Inr a \<longleftrightarrow> cs_admin s = Some a"
  "cc_config s = Inr cfg \<longleftrightarrow> cs_config s = Some cfg"
  "peer_of chain s = Inr p \<longleftrightarrow> cs_peers s chain = Some p"
  "check_peer chain sender s = Inr u \<longleftrightarrow> (\<exists>p. cs_peers s chain = Some p \<and> pe_addr p = sender)"
  by (auto simp: cc_admin_def cc_config_def peer_of_def cc_peer_def check_peer_def rs)

lemma cc_quote_Inr:
  assumes "cc_quote N e cfg r bid tip w = Inr q"
  obtains u ro where "unit_of N e (rq_maker_token r) w = Inr u"
    "ch_quote_rfq_order N (calling e (cf_rfq cfg)) (cf_rfq cfg) ro (rq_taker_amount r) w = Some q"
    "cq_maker_amount q \<le> bd_max_amount bid * u" "rq_min_received_amount r \<le> cq_maker_amount q - cq_fee q - tip"
  using assms by (auto simp: cc_quote_def Let_def rs not_less split: if_splits intro!: that)

lemma cc_fill_Inr:
  assumes "cc_fill H N T e r chain bid signature s w = Inr (i, s', w')"
  obtains cfg taker tip q recipient ord u w1 w2 xlm amount where "cs_config s = Some cfg" "rq_taker r = Some taker" "authorised e taker"
    "cs_filled s i = None" "cc_quote N e cfg r bid tip w = Inr q" "unit_of N e (rq_maker_token r) w = Inr u" "tip = cf_tip cfg * u"
    "ord = \<lparr>od_taker = taker, od_chain = chain, od_rwa = rq_taker_token r, od_units = rq_taker_amount r,
      od_stable = rq_maker_token r, od_amount = cq_maker_amount q, od_fee = cq_fee q, od_tip = tip,
      od_fee_recipient = rq_fee_recipient r, od_delivery = bd_delivery bid, od_recipient = recipient,
      od_maker = bd_maker bid, od_maker_is_contract = bd_maker_is_contract bid\<rparr>"
    "s' = s\<lparr>cs_filled := (cs_filled s)(i \<mapsto> True), cs_orders := (cs_orders s)(i \<mapsto> ord)\<rparr>"
    "token_transfer H e (rq_taker_token r) taker (current_contract e) (rq_taker_amount r) w = (Inr w1 :: (CcError, _) res)"
    "token_transfer H e (cf_xlm cfg) taker (current_contract e) xlm w1 = (Inr w2 :: (CcError, _) res)"
    "tp_send T e cfg chain (wire_fill i amount bid signature) taker s' w2 = Inr w'"
    "wire_address (ch_from_xdr N) (bd_recipient bid) (bd_recipient_is_contract bid) = (Inr recipient :: (CcError, _) res)"
proof -
  note st = and_then_Inr_iff cc_reads_Inr_iff or_panic_Inr_iff require_auth_Inr_iff call_result_Inr_iff i128_ops_Inr_iff
  from assms obtain cfg taker u tip q recipient where b: "cs_config s = Some cfg" "rq_taker r = Some taker" "authorised e taker"
    "check_request e r i s = Inr ()" "unit_of N e (rq_maker_token r) w = Inr u" "tip = cf_tip cfg * u" "cc_quote N e cfg r bid tip w = Inr q"
    "wire_address (ch_from_xdr N) (bd_recipient bid) (bd_recipient_is_contract bid) = (Inr recipient :: (CcError, _) res)"
    by (auto simp: cc_fill_def Let_def st)
  have "cs_filled s i = None" using b(4) by (auto simp: check_request_def cc_filled_def rs)
  let ?ord = "\<lparr>od_taker = taker, od_chain = chain, od_rwa = rq_taker_token r, od_units = rq_taker_amount r,
      od_stable = rq_maker_token r, od_amount = cq_maker_amount q, od_fee = cq_fee q, od_tip = tip,
      od_fee_recipient = rq_fee_recipient r, od_delivery = bd_delivery bid, od_recipient = recipient,
      od_maker = bd_maker bid, od_maker_is_contract = bd_maker_is_contract bid\<rparr>"
  from assms b obtain w1 w2 xlm amount where
    "s' = s\<lparr>cs_filled := (cs_filled s)(i \<mapsto> True), cs_orders := (cs_orders s)(i \<mapsto> ?ord)\<rparr>"
    "token_transfer H e (rq_taker_token r) taker (current_contract e) (rq_taker_amount r) w = (Inr w1 :: (CcError, _) res)"
    "token_transfer H e (cf_xlm cfg) taker (current_contract e) xlm w1 = (Inr w2 :: (CcError, _) res)"
    "tp_send T e cfg chain (wire_fill i amount bid signature) taker s' w2 = Inr w'"
    by (auto simp: cc_fill_def Let_def st)
  with \<open>cs_filled s i = None\<close> show thesis by (intro that [OF b(1,2,3) _ b(7,5,6) refl _ _ _ _ b(8)])
qed

lemma cc_pay_Inr:
  assumes "cc_pay H N T e cfg chain message s w = Inr (Inr (s', w'))"
  obtains bid i x maker stbl u loc w1 hash where "parse_bid message = (Inr (Some bid) :: (CcError, _) res)" "word_nth message 1 = (Inr i :: (CcError, _) res)"
    "word_nth message 2 = (Inr x :: (CcError, _) res)" "hash = bid_hash N i chain (take (SIG_AT - BID_AT) (drop BID_AT message))"
    "wire_address (ch_from_xdr N) (bd_maker bid) (bd_maker_is_contract bid) = (Inr maker :: (CcError, _) res)"
    "wire_address (ch_from_xdr N) (bd_stable bid) True = (Inr stbl :: (CcError, _) res)"
    "as_i128 (tail x) \<le> bd_max_amount bid" "ledger_timestamp e \<le> bd_deadline bid" "cs_used s hash = None" "cc_route chain stbl s \<noteq> None"
    "ch_is_salt_cancelled N (calling e (cf_rfq cfg)) (cf_rfq cfg) maker (as_u64 (int (tail (bd_salt bid)))) w = Some False"
    "check_signed N e cfg maker bid hash (drop SIG_AT message) w = Inr None"
    "unit_of N e stbl w = Inr u" "loc = as_i128 (tail x) * u"
    "tk_transfer_from H (calling e stbl) stbl (current_contract e) maker (current_contract e) loc w = Some w1"
    "s' = s\<lparr>cs_used := (cs_used s)(hash \<mapsto> True)\<rparr>" "tp_bridge T e cfg chain stbl loc (about PAID i) (current_contract e) s' w1 = Inr w'"
proof -
  note st = and_then_Inr_iff call_result_Inr_iff i128_ops_Inr_iff
  from assms obtain bid i x maker stbl where b: "parse_bid message = (Inr (Some bid) :: (CcError, _) res)" "word_nth message 1 = (Inr i :: (CcError, _) res)"
    "word_nth message 2 = (Inr x :: (CcError, _) res)"
    "wire_address (ch_from_xdr N) (bd_maker bid) (bd_maker_is_contract bid) = (Inr maker :: (CcError, _) res)"
    "wire_address (ch_from_xdr N) (bd_stable bid) True = (Inr stbl :: (CcError, _) res)"
    by (auto simp: cc_pay_def st Let_def split: option.splits)
  let ?hash = "bid_hash N i chain (take (SIG_AT - BID_AT) (drop BID_AT message))"
  from assms b have c: "as_i128 (tail x) \<le> bd_max_amount bid" "ledger_timestamp e \<le> bd_deadline bid" "cs_used s ?hash = None" "cc_route chain stbl s \<noteq> None"
    "ch_is_salt_cancelled N (calling e (cf_rfq cfg)) (cf_rfq cfg) maker (as_u64 (int (tail (bd_salt bid)))) w = Some False"
    "check_signed N e cfg maker bid ?hash (drop SIG_AT message) w = Inr None"
    by (auto simp: cc_pay_def st Let_def not_less split: if_splits option.splits)
  from assms b c obtain u where u: "unit_of N e stbl w = Inr u"
    by (auto simp: cc_pay_def st Let_def split: option.splits)
  from assms b c u obtain w1 where "tk_transfer_from H (calling e stbl) stbl (current_contract e) maker (current_contract e) (as_i128 (tail x) * u) w = Some w1"
    "s' = s\<lparr>cs_used := (cs_used s)(?hash \<mapsto> True)\<rparr>" "tp_bridge T e cfg chain stbl (as_i128 (tail x) * u) (about PAID i) (current_contract e) s' w1 = Inr w'"
    by (auto simp: cc_pay_def st Let_def split: option.splits)
  then show thesis by (rule that [OF b(1,2,3) refl b(4,5) c u refl])
qed

subsection \<open>The interface\<close>

text \<open>
  \<open>plain\<close> are the tokens whose custody is shown: neither the native asset that pays for messages nor claim tokens. A
  configuration is in order if its tip is not negative and its native asset is not among them. A message costs the
  payer only the native asset; bridging takes exactly the amount; a redemption vault takes exactly the RWA signed for, and
  a claim only adds. Nobody registers a signer for the contract itself, and an account's key is not its address.
  \<open>credit\<close> is what has arrived for deliveries still to come; none of these calls changes it.
\<close>

locale cc_outside = sep41_host H for H :: "'w host" +
  fixes N :: "'w cc_host" and me :: address and plain :: "address \<Rightarrow> bool" and credit :: "address \<Rightarrow> 'w \<Rightarrow> int"
  assumes credit_transfer: "tk_transfer H e tok a b x w = Some w' \<Longrightarrow> credit t w' = credit t w"
    and credit_transfer_from: "tk_transfer_from H e tok p a b x w = Some w' \<Longrightarrow> credit t w' = credit t w"
    and claim_law: "ch_claim N e vlt me n x me w = Some (v, w') \<Longrightarrow> plain t \<Longrightarrow>
      tk_balance H t me w \<le> tk_balance H t me w' \<and> credit t w' = credit t w"
    and redeem_law: "ch_request_redeem N e [auth_entry rwa ''transfer'' [AddressVal me, AddressVal vlt, I128Val x]] vlt me x me w =
      Some (n, w') \<Longrightarrow> plain t \<Longrightarrow> 0 \<le> x \<Longrightarrow>
      tk_balance H t me w - (if t = rwa then x else 0) \<le> tk_balance H t me w' \<and> credit t w' = credit t w"
    and ct_law: "ch_ct_of N e vlt n w = Some ct \<Longrightarrow> \<not> plain ct"
    and quote_law: "ch_quote_rfq_order N e rfq ro x w = Some q \<Longrightarrow> 0 \<le> cq_fee q"
    and signer_law: "ch_is_order_signer N e rfq me k w = Some ok \<Longrightarrow> \<not> ok"
    and account_law: "wire_address (ch_from_xdr N) k False \<noteq> (Inr me :: (CcError, address) res)"

locale bridge_laws = cc_outside H N me plain credit for H :: "'w host" and N me plain credit +
  fixes T :: "('b, 'w) transport" and cfg_ok :: "'b CcConfig \<Rightarrow> bool"
  assumes cfg_law: "cfg_ok c \<Longrightarrow> 0 \<le> cf_tip c \<and> \<not> plain (cf_xlm c)"
    and send_law: "tp_send T e cfg chain m p s w = Inr w' \<Longrightarrow> cfg_ok cfg \<Longrightarrow> current_contract e = me \<Longrightarrow> plain t \<Longrightarrow>
      tk_balance H t me w \<le> tk_balance H t me w' \<and> credit t w' = credit t w"
    and bridge_law: "tp_bridge T e cfg chain tok x m p s w = Inr w' \<Longrightarrow> cfg_ok cfg \<Longrightarrow> current_contract e = me \<Longrightarrow> plain t \<Longrightarrow>
      (t = tok \<longrightarrow> 0 \<le> x) \<Longrightarrow> tk_balance H t me w - (if t = tok then x else 0) \<le> tk_balance H t me w' \<and> credit t w' = credit t w"
begin

text \<open>What the contract holds beyond its liabilities and the deliveries still to come.\<close>

lemma send_or_hold_slack:
  assumes "send_or_hold H e tok to x s w = Inr (s', w')" "current_contract e = me" "cc_inv cfg_ok s"
  shows "cc_inv cfg_ok s'" "slack H me t s w - (if t = tok then max 0 x else 0) \<le> slack H me t s' w'" "credit t w' = credit t w"
    "s' = s\<lparr>cs_owed := cs_owed s'\<rparr>"
proof -
  have "cc_inv cfg_ok s' \<and> slack H me t s w - (if t = tok then max 0 x else 0) \<le> slack H me t s' w' \<and> credit t w' = credit t w \<and>
    s' = s\<lparr>cs_owed := cs_owed s'\<rparr>"
  proof (cases "x \<le> 0")
    case True
    with assms show ?thesis by (auto simp: send_or_hold_def)
  next
    case False
    show ?thesis
    proof (cases "tk_transfer H (calling e tok) tok me to x w")
      case None
      with False assms(1,2) have s': "s' = s\<lparr>cs_owed := (cs_owed s)((to, tok) \<mapsto> cc_owed to tok s + x)\<rparr>" "w' = w"
        by (auto simp: send_or_hold_def rs)
      with False assms(3) cc_owed_nonneg [OF assms(3), of to tok] show ?thesis
        by (auto simp: slack_def held_upd cc_inv_D(2) [OF assms(3)] intro!: cc_inv_owed)
    next
      case (Some v)
      with False assms(1,2) have "s' = s" "w' = v" by (auto simp: send_or_hold_def)
      with host_transfer [OF Some] credit_transfer [OF Some] assms(3) False show ?thesis
        by (auto simp: slack_def moved_def)
    qed
  qed
  then show "cc_inv cfg_ok s'" "slack H me t s w - (if t = tok then max 0 x else 0) \<le> slack H me t s' w'" "credit t w' = credit t w"
    "s' = s\<lparr>cs_owed := cs_owed s'\<rparr>" by blast+
qed

text \<open>A request whose floor is not negative, between two tokens.\<close>

lemma unit_of_pos: "unit_of N e tok w = Inr u \<Longrightarrow> 0 < u"
  by (auto simp: unit_of_def pow10_i128_def rs)

lemma fill_slack:
  assumes fill: "cc_fill H N T e r chain bid signature s w = Inr (i, s', w')" and me: "current_contract e = me" "\<not> authorised e me"
    and inv: "cc_inv cfg_ok s" and r: "0 \<le> rq_min_received_amount r" "rq_taker_token r \<noteq> rq_maker_token r"
  shows "cc_inv cfg_ok s'" "plain t \<Longrightarrow> slack H me t s w \<le> slack H me t s' w' \<and> credit t w' = credit t w"
proof -
  from fill obtain cfg taker tip q recipient ord u w1 w2 xlm amount where c: "cs_config s = Some cfg" "rq_taker r = Some taker" "authorised e taker"
    "cs_filled s i = None" "cc_quote N e cfg r bid tip w = Inr q" "unit_of N e (rq_maker_token r) w = Inr u" "tip = cf_tip cfg * u"
    and ord0: "ord = \<lparr>od_taker = taker, od_chain = chain, od_rwa = rq_taker_token r, od_units = rq_taker_amount r,
      od_stable = rq_maker_token r, od_amount = cq_maker_amount q, od_fee = cq_fee q, od_tip = tip,
      od_fee_recipient = rq_fee_recipient r, od_delivery = bd_delivery bid, od_recipient = recipient,
      od_maker = bd_maker bid, od_maker_is_contract = bd_maker_is_contract bid\<rparr>"
    and s': "s' = s\<lparr>cs_filled := (cs_filled s)(i \<mapsto> True), cs_orders := (cs_orders s)(i \<mapsto> ord)\<rparr>"
    and t1: "token_transfer H e (rq_taker_token r) taker (current_contract e) (rq_taker_amount r) w = (Inr w1 :: (CcError, _) res)"
    and t2: "token_transfer H e (cf_xlm cfg) taker (current_contract e) xlm w1 = (Inr w2 :: (CcError, _) res)"
    and sd: "tp_send T e cfg chain (wire_fill i amount bid signature) taker s' w2 = Inr w'"
    and rcp: "wire_address (ch_from_xdr N) (bd_recipient bid) (bd_recipient_is_contract bid) = (Inr recipient :: (CcError, _) res)"
    by (rule cc_fill_Inr)
  have ord: "od_rwa ord = rq_taker_token r" "od_units ord = rq_taker_amount r" "od_stable ord = rq_maker_token r"
      "od_amount ord = cq_maker_amount q" "od_fee ord = cq_fee q" "od_tip ord = tip" by (simp_all add: ord0)
  have cfg: "cfg_ok cfg" using cc_inv_D(7) [OF inv c(1)] .
  then have tip: "0 \<le> tip" "\<not> plain (cf_xlm cfg)" using cfg_law [OF cfg] unit_of_pos [OF c(6)] by (simp_all add: c(7))
  have taker: "taker \<noteq> me" using c(3) me(2) by auto
  from c(5) have "0 \<le> cq_fee q" "0 \<le> cq_maker_amount q - cq_fee q - tip"
    using r(1) by (auto elim!: cc_quote_Inr dest: quote_law)
  then have ok: "order_ok ord" using tip token_transfer_moves(1) [OF t1] r(2) by (simp add: order_ok_def ord)
  have none: "cs_orders s i = None" using cc_inv_D(4) [OF inv, of i] c(4) by (cases "cs_orders s i") auto
  show "cc_inv cfg_ok s'" unfolding s' by (rule cc_inv_order_put [OF inv ok])
  assume t: "plain t"
  then have x: "t \<noteq> cf_xlm cfg" using tip(2) by auto
  have "tk_balance H t me w2 = tk_balance H t me w + (if t = rq_taker_token r then rq_taker_amount r else 0)"
    using token_transfer_moves(4) [OF t1, of t me] token_transfer_moves(4) [OF t2, of t me] taker x by (simp add: me(1) moved_def)
  moreover have "credit t w2 = credit t w" using t1 t2 credit_transfer by (fastforce simp: token_transfer_def rs)
  ultimately show "slack H me t s w \<le> slack H me t s' w' \<and> credit t w' = credit t w"
    using send_law [OF sd cfg me(1) t] escrow_upd(2) [OF cc_inv_D(1) [OF inv] none, of t ord]
    by (auto simp: slack_def s' ord escrow_def held_def)
qed

lemma fail_slack:
  assumes "on_fail H e chain i s w = Inr (s', w')" "current_contract e = me" "cc_inv cfg_ok s"
  shows "cc_inv cfg_ok s'" "slack H me t s w \<le> slack H me t s' w'" "credit t w' = credit t w"
proof -
  let ?s = "s\<lparr>cs_orders := (cs_orders s)(i := None), cs_filled := (cs_filled s)(i := None)\<rparr>"
  from assms(1) obtain ord where ord: "cs_orders s i = Some ord" and so: "send_or_hold H e (od_rwa ord) (od_taker ord) (od_units ord) ?s w = Inr (s', w')"
    by (auto simp: on_fail_def cc_order_def rs Let_def split: option.splits if_splits)
  note inv = cc_inv_order_gone(2) [OF assms(3), of i]
  have "0 \<le> od_units ord" using cc_inv_D(3) [OF assms(3) ord] by (simp add: order_ok_def)
  then have "slack H me t s w + (if t = od_rwa ord then max 0 (od_units ord) else 0) = slack H me t ?s w"
    using escrow_upd(1) [OF cc_inv_D(1) [OF assms(3)], of t i] ord by (auto simp: slack_def)
  with send_or_hold_slack(1) [OF so assms(2) inv] send_or_hold_slack(2,3) [OF so assms(2) inv, of t]
  show "cc_inv cfg_ok s'" "slack H me t s w \<le> slack H me t s' w'" "credit t w' = credit t w" by auto
qed

lemma pay_slack:
  assumes pay: "cc_pay H N T e cfg chain m s w = Inr (Inr (s', w'))" and me: "current_contract e = me" and inv: "cc_inv cfg_ok s" and cfg: "cfg_ok cfg"
  shows "cc_inv cfg_ok s'" "plain t \<Longrightarrow> slack H me t s w \<le> slack H me t s' w' \<and> credit t w' = credit t w"
proof -
  from pay obtain bid i maker stbl loc w1 hash where
    mk: "wire_address (ch_from_xdr N) (bd_maker bid) (bd_maker_is_contract bid) = (Inr maker :: (CcError, _) res)"
    and sg: "check_signed N e cfg maker bid hash (drop SIG_AT m) w = Inr None"
    and tf: "tk_transfer_from H (calling e stbl) stbl (current_contract e) maker (current_contract e) loc w = Some w1"
    and s': "s' = s\<lparr>cs_used := (cs_used s)(hash \<mapsto> True)\<rparr>"
    and br: "tp_bridge T e cfg chain stbl loc (about PAID i) (current_contract e) s' w1 = Inr w'"
    by (rule cc_pay_Inr) blast
  show "cc_inv cfg_ok s'" unfolding s' by (rule cc_inv_misc(1) [OF inv])
  assume t: "plain t"
  have "maker \<noteq> me"
  proof
    assume "maker = me"
    then have "bd_maker_is_contract bid" using mk account_law [of "bd_maker bid"] by (cases "bd_maker_is_contract bid") auto
    with sg \<open>maker = me\<close> show False
      by (auto simp: check_signed_def Let_def rs dest: signer_law split: if_splits)
  qed
  with host_transfer_from [OF tf] have "0 \<le> loc" "tk_balance H t me w1 = tk_balance H t me w + (if t = stbl then loc else 0)"
    by (auto simp: me moved_def)
  with bridge_law [OF br cfg me t] credit_transfer_from [OF tf, of t]
  show "slack H me t s w \<le> slack H me t s' w' \<and> credit t w' = credit t w" by (auto simp: slack_def s')
qed

lemma on_fill_slack:
  assumes "on_fill H N T e cfg chain m s w = Inr (s', w')" "current_contract e = me" "cc_inv cfg_ok s" "cfg_ok cfg"
  shows "cc_inv cfg_ok s'" "plain t \<Longrightarrow> slack H me t s w \<le> slack H me t s' w' \<and> credit t w' = credit t w"
proof -
  from assms(1) obtain r where "cc_pay H N T e cfg chain m s w = Inr r" by (auto simp: on_fill_def rs)
  with assms(1) consider (paid) "cc_pay H N T e cfg chain m s w = Inr (Inr (s', w'))"
    | (refused) i where "s' = s" "tp_send T e cfg chain (about FAIL i) (current_contract e) s w = Inr w'"
    by (cases r) (auto simp: on_fill_def rs)
  then have "cc_inv cfg_ok s' \<and> (plain t \<longrightarrow> slack H me t s w \<le> slack H me t s' w' \<and> credit t w' = credit t w)"
  proof cases
    case paid
    with pay_slack [OF paid assms(2-4)] show ?thesis by blast
  next
    case refused
    with send_law [OF refused(2) assms(4,2), of t] assms(3) show ?thesis by (auto simp: slack_def)
  qed
  then show "cc_inv cfg_ok s'" "plain t \<Longrightarrow> slack H me t s w \<le> slack H me t s' w' \<and> credit t w' = credit t w" by blast+
qed

lemma route_slack:
  assumes rt: "route_rwa H N T e cfg i ord s w = Inr (s', w')" and me: "current_contract e = me" and inv: "cc_inv cfg_ok s" and cfg: "cfg_ok cfg"
    and ord: "order_ok ord" and t: "plain t"
  shows "cc_inv cfg_ok s' \<and> slack H me t s w - (if t = od_rwa ord then od_units ord else 0) \<le> slack H me t s' w' \<and> credit t w' = credit t w"
proof -
  have u: "0 \<le> od_units ord" "od_rwa ord \<noteq> od_stable ord" using ord by (simp_all add: order_ok_def)
  consider (deliver) "od_delivery ord = DELIVER" | (cross) "od_delivery ord = CROSS_DELIVER"
    | (redeem) "od_delivery ord \<noteq> DELIVER" "od_delivery ord \<noteq> CROSS_DELIVER" by blast
  then show ?thesis
  proof cases
    case deliver
    with rt have "send_or_hold H e (od_rwa ord) (od_recipient ord) (od_units ord) s w = Inr (s', w')" by (simp add: route_rwa_def)
    from send_or_hold_slack(1) [OF this me inv] send_or_hold_slack(2,3) [OF this me inv, of t] u show ?thesis by (auto simp: max_def split: if_splits)
  next
    case cross
    with rt have "s' = s" "tp_bridge T e cfg (od_chain ord) (od_rwa ord) (od_units ord) (payout (od_maker ord) (od_maker_is_contract ord)) me s w = Inr w'"
      by (auto simp: route_rwa_def Let_def delivery_consts rs me)
    with bridge_law [OF this(2) cfg me t] u(1) inv show ?thesis by (auto simp: slack_def)
  next
    case redeem
    with rt obtain vlt n w1 where rr: "ch_request_redeem N (calling e vlt) [auth_entry (od_rwa ord) ''transfer''
        [AddressVal me, AddressVal vlt, I128Val (od_units ord)]] vlt me (od_units ord) me w = Some (n, w1)"
      and rest: "(if od_delivery ord = REDEEM_CT then
          and_then (call_result (ch_ct_of N (calling e vlt) vlt n w1)) (\<lambda>ct. send_or_hold H e ct (od_recipient ord) (od_units ord) s w1)
        else Inr (s\<lparr>cs_pushes := (cs_pushes s)(i \<mapsto> \<lparr>pu_vault = vlt, pu_rwa = od_rwa ord, pu_recipient = od_recipient ord, pu_batch = n,
                 pu_units = od_units ord, pu_chain = od_chain ord, pu_stable = od_stable ord, pu_maker = od_maker ord,
                 pu_maker_is_contract = od_maker_is_contract ord\<rparr>)\<rparr>, w1)) = Inr (s', w')"
      unfolding route_rwa_def Let_def by (auto simp: rs me simp del: if_split)
    have w1: "slack H me t s w - (if t = od_rwa ord then od_units ord else 0) \<le> slack H me t s w1" "credit t w1 = credit t w"
      using redeem_law [OF rr t u(1)] by (auto simp: slack_def)
    show ?thesis
    proof (cases "od_delivery ord = REDEEM_CT")
      case True
      with rest obtain ct where ct: "ch_ct_of N (calling e vlt) vlt n w1 = Some ct" and so: "send_or_hold H e ct (od_recipient ord) (od_units ord) s w1 = Inr (s', w')"
        by (auto simp: rs)
      have "t \<noteq> ct" using ct_law [OF ct] t by auto
      with w1 send_or_hold_slack(1) [OF so me inv] send_or_hold_slack(2,3) [OF so me inv, of t] show ?thesis by auto
    next
      case False
      with rest w1 inv u(2) show ?thesis by (auto simp: slack_def intro!: cc_inv_misc(4))
    qed
  qed
qed

lemma funds_slack:
  assumes fu: "on_funds H N T e cfg chain tok amount payload relayer s w = Inr (s', w')" and me: "current_contract e = me"
    and inv: "cc_inv cfg_ok s" and cfg: "cfg_ok cfg" and amount: "0 \<le> amount" and t: "plain t"
  shows "cc_inv cfg_ok s' \<and> slack H me t s w - (if t = tok then amount else 0) \<le> slack H me t s' w' \<and> credit t w' = credit t w"
proof -
  from fu obtain knd where knd: "wire_kind payload = (Inr knd :: (CcError, _) res)" by (auto simp: on_funds_def rs)
  show ?thesis
  proof (cases "knd = PAYOUT")
    case True
    from fu knd True obtain to tip s1 w1 where
      tip: "(case relayer of None \<Rightarrow> Inr 0 | Some rl \<Rightarrow>
          and_then (unit_of N e tok w) (\<lambda>u. and_then (i128_mul (cf_tip cfg) u) (\<lambda>t. Inr (min t amount)))) = Inr tip"
      and s1: "send_or_hold H e tok (case relayer of None \<Rightarrow> to | Some rl \<Rightarrow> rl) tip s w = Inr (s1, w1)"
      and s2: "send_or_hold H e tok to (amount - tip) s1 w1 = Inr (s', w')"
      by (auto simp: on_funds_def rs)
    have "0 \<le> tip" "tip \<le> amount"
      using tip cfg_law [OF cfg] amount by (auto simp: rs dest!: unit_of_pos split: option.splits)
    with send_or_hold_slack(1) [OF s2 me send_or_hold_slack(1) [OF s1 me inv]] send_or_hold_slack(2,3) [OF s1 me inv, of t]
      send_or_hold_slack(2,3) [OF s2 me send_or_hold_slack(1) [OF s1 me inv], of t]
    show ?thesis by (auto split: if_splits)
  next
    case False
    from fu knd False obtain i ord where ord: "word_nth payload 1 = (Inr i :: (CcError, _) res)" "cs_orders s i = Some ord" "knd = PAID"
      "od_chain ord = chain" "od_stable ord = tok" "od_amount ord \<le> amount"
      by (auto simp: on_funds_def Let_def cc_order_def rs not_less split: option.splits if_splits)
    let ?s = "s\<lparr>cs_orders := (cs_orders s)(i := None)\<rparr>"
    have ok: "order_ok ord" by (rule cc_inv_D(3) [OF inv ord(2)])
    from fu knd ord obtain s1 w1 s2 w2 s3 w3 where
      s1: "send_or_hold H e tok (od_taker ord) (amount - od_fee ord - od_tip ord) ?s w = Inr (s1, w1)"
      and s2: "send_or_hold H e tok (od_fee_recipient ord) (od_fee ord) s1 w1 = Inr (s2, w2)"
      and s3: "send_or_hold H e tok (case relayer of None \<Rightarrow> od_taker ord | Some rl \<Rightarrow> rl) (od_tip ord) s2 w2 = Inr (s3, w3)"
      and rt: "route_rwa H N T e cfg i ord s3 w3 = Inr (s', w')"
      by (auto simp: on_funds_def Let_def cc_order_def wire_consts rs)
    note i0 = cc_inv_order_gone(1) [OF inv, of i]
    note i1 = send_or_hold_slack(1) [OF s1 me i0]
    note i2 = send_or_hold_slack(1) [OF s2 me i1]
    note i3 = send_or_hold_slack(1) [OF s3 me i2]
    have "slack H me t ?s w = slack H me t s w + (if t = od_rwa ord then od_units ord else 0)"
      using escrow_upd(1) [OF cc_inv_D(1) [OF inv], of t i] ord(2) by (auto simp: slack_def)
    with send_or_hold_slack(2,3) [OF s1 me i0, of t] send_or_hold_slack(2,3) [OF s2 me i1, of t] send_or_hold_slack(2,3) [OF s3 me i2, of t]
      route_slack [OF rt me i3 cfg ok t] ok ord(6)
    show ?thesis by (auto simp: order_ok_def split: if_splits)
  qed
qed

lemma push_slack:
  assumes pu: "push_claim H N T e caller i s w = Inr (v, s', w')" and me: "current_contract e = me" and inv: "cc_inv cfg_ok s"
    and t: "plain t"
  shows "cc_inv cfg_ok s' \<and> slack H me t s w \<le> slack H me t s' w' \<and> credit t w' = credit t w"
proof -
  let ?s = "s\<lparr>cs_pushes := (cs_pushes s)(i := None)\<rparr>"
  from pu me obtain cfg p x w1 s1 w2 u dust where c: "cs_config s = Some cfg" "cs_pushes s i = Some p"
    and cl: "ch_claim N (calling e (pu_vault p)) (pu_vault p) me (pu_batch p) (pu_units p) me w = Some (x, w1)"
    and so: "send_or_hold H e (pu_rwa p) (pu_recipient p) (tk_balance H (pu_rwa p) me w1 - tk_balance H (pu_rwa p) me w) ?s w1 = Inr (s1, w2)"
    and u: "unit_of N e (pu_stable p) w2 = Inr u"
    and du: "i128_rem (tk_balance H (pu_stable p) me w2 - tk_balance H (pu_stable p) me w) u = (Inr dust :: (CcError, _) res)"
    and br: "tp_bridge T e cfg (pu_chain p) (pu_stable p) (tk_balance H (pu_stable p) me w2 - tk_balance H (pu_stable p) me w - dust)
        (payout (pu_maker p) (pu_maker_is_contract p)) caller s1 w2 = Inr w'" "s' = s1"
    by (auto simp: push_claim_def Let_def push_of_def rs)
  have cfg: "cfg_ok cfg" by (rule cc_inv_D(7) [OF inv c(1)])
  have ne: "pu_rwa p \<noteq> pu_stable p" by (rule cc_inv_D(6) [OF inv c(2)])
  note i1 = cc_inv_misc(3) [OF inv, of i]
  note kd = send_or_hold_slack [OF so me i1]
  have same: "tk_balance H (pu_stable p) me w2 = tk_balance H (pu_stable p) me w1"
  proof -
    from so me have "w2 = w1 \<or> (\<exists>x. tk_transfer H (calling e (pu_rwa p)) (pu_rwa p) me (pu_recipient p) x w1 = Some w2)"
      by (auto simp: send_or_hold_def rs split: if_splits option.splits)
    with ne show ?thesis by (auto dest!: host_transfer)
  qed
  let ?paid = "tk_balance H (pu_stable p) me w1 - tk_balance H (pu_stable p) me w"
  have dust: "0 \<le> ?paid - dust \<and> 0 \<le> dust" if "t = pu_stable p"
  proof -
    have u0: "0 < u" by (rule unit_of_pos [OF u])
    have paid: "0 \<le> ?paid" using claim_law [OF cl t] that by simp
    with u0 du have "dust = ?paid mod u"
      by (auto simp: i128_rem_def i128_quot_def rs same sgn_if minus_mult_div_eq_mod split: if_splits)
    with u0 paid show ?thesis by (simp add: zmod_le_nonneg_dividend)
  qed
  have br': "tk_balance H t me w2 - (if t = pu_stable p then ?paid - dust else 0) \<le> tk_balance H t me w' \<and> credit t w' = credit t w2"
    using bridge_law [OF br(1) cfg me t] dust unfolding same by auto
  have "slack H me t ?s w1 = slack H me t s w + (tk_balance H t me w1 - tk_balance H t me w)" by (simp add: slack_def)
  with claim_law [OF cl t] kd(1) kd(2,3) [of t] br' dust ne show ?thesis by (auto simp: slack_def br(2) split: if_splits)
qed

lemma withdraw_slack:
  assumes "cc_withdraw H e a tok s w = Inr (s', w')" "current_contract e = me" "cc_inv cfg_ok s"
  shows "cc_inv cfg_ok s' \<and> slack H me t s w \<le> slack H me t s' w' \<and> credit t w' = credit t w"
proof -
  from assms(1,2) have s': "s' = s\<lparr>cs_owed := (cs_owed s)((a, tok) := None)\<rparr>"
    and tr: "token_transfer H e tok me a (cc_owed a tok s) w = (Inr w' :: (CcError, _) res)"
    by (auto simp: cc_withdraw_def Let_def rs)
  have "credit t w' = credit t w" using tr credit_transfer by (auto simp: token_transfer_def rs)
  with token_transfer_moves(4) [OF tr, of t me] held_upd(1) [OF cc_inv_D(2) [OF assms(3)], of t a tok] cc_owed_nonneg [OF assms(3), of a tok]
  show ?thesis using cc_inv_owed(2) [OF assms(3), of "(a, tok)"] by (auto simp: slack_def s' moved_def)
qed

lemma governance_slack:
  assumes "cc_inv cfg_ok s"
  shows "cc_submit N T e c s w = Inr (v, s') \<Longrightarrow> (\<And>x. c = CC_Config x \<Longrightarrow> cfg_ok x) \<Longrightarrow> cc_inv cfg_ok s' \<and> slack H me t s' w = slack H me t s w"
    "cc_accept T e k s w = Inr s' \<Longrightarrow> cc_inv cfg_ok s' \<and> slack H me t s' w = slack H me t s w"
    "cc_revoke e k a s = Inr s' \<Longrightarrow> cc_inv cfg_ok s' \<and> slack H me t s' w = slack H me t s w"
proof -
  assume "cc_submit N T e c s w = Inr (v, s')" and c: "\<And>x. c = CC_Config x \<Longrightarrow> cfg_ok x"
  then obtain v' where "s' = s\<lparr>cs_timelock := (cs_timelock s)\<lparr>tl_pending := (tl_pending (cs_timelock s))(cc_kind_of N c \<mapsto> (c, v'))\<rparr>\<rparr>"
    by (auto simp: cc_submit_def rs)
  with c cc_inv_D(7,8) [OF assms] show "cc_inv cfg_ok s' \<and> slack H me t s' w = slack H me t s w"
    by (intro conjI cc_inv_frame [OF assms]) (auto simp: slack_def split: if_splits)
next
  assume acc: "cc_accept T e k s w = Inr s'"
  let ?t = "(cs_timelock s)\<lparr>tl_pending := (tl_pending (cs_timelock s))(k := None)\<rparr>"
  from acc obtain c v where c: "tl_pending (cs_timelock s) k = Some (c, v)" by (auto simp: cc_accept_def rs Let_def)
  have pend: "cfg_ok x" if "tl_pending ?t j = Some (CC_Config x, u)" for j x u
    using cc_inv_D(8) [OF assms, of j x u] that by (simp split: if_splits)
  have new: "cfg_ok x" if "c = CC_Config x" for x using cc_inv_D(8) [OF assms] c that by blast
  have "cs_orders s' = cs_orders s \<and> cs_owed s' = cs_owed s \<and> cs_filled s' = cs_filled s \<and> cs_pushes s' = cs_pushes s \<and>
      tl_pending (cs_timelock s') = tl_pending ?t \<and> (cs_config s' = cs_config s \<or> (\<exists>x. c = CC_Config x \<and> cs_config s' = Some x))"
    using acc c by (cases c) (auto simp: cc_accept_def rs Let_def init_def)
  with pend new cc_inv_D(7) [OF assms] show "cc_inv cfg_ok s' \<and> slack H me t s' w = slack H me t s w"
    by (intro conjI cc_inv_frame [OF assms]) (auto simp: slack_def escrow_def held_def)
next
  assume "cc_revoke e k a s = Inr s'"
  then have s': "s' = s\<lparr>cs_timelock := (cs_timelock s)\<lparr>tl_pending := (tl_pending (cs_timelock s))(k := None)\<rparr>\<rparr>"
    by (auto simp: cc_revoke_def rs)
  have "cfg_ok x" if "tl_pending (cs_timelock s') j = Some (CC_Config x, u)" for j x u
    using cc_inv_D(8) [OF assms, of j x u] that by (simp add: s' split: if_splits)
  with cc_inv_D(7) [OF assms] show "cc_inv cfg_ok s' \<and> slack H me t s' w = slack H me t s w"
    by (intro conjI cc_inv_frame [OF assms]) (auto simp: slack_def s')
qed

end

subsection \<open>Entry points common to every bridge\<close>

datatype 'b cc_op = CO_Submit "'b CcChange" | CO_Accept kind | CO_Revoke kind address | CO_Sweep address int
  | CO_Fill Request nat Bid "byte list" | CO_Push address bytes32 | CO_Withdraw address address

fun cc_exec :: "'w host \<Rightarrow> 'w cc_host \<Rightarrow> ('b, 'w) transport \<Rightarrow> env \<Rightarrow> 'b cc_op \<Rightarrow> 'b cross_chain \<Rightarrow> 'w \<Rightarrow> (CcError, 'b cross_chain \<times> 'w) res" where
  "cc_exec H N T e (CO_Submit c) s w = and_then (cc_submit N T e c s w) (\<lambda>(v, s). Inr (s, w))"
| "cc_exec H N T e (CO_Accept k) s w = and_then (cc_accept T e k s w) (\<lambda>s. Inr (s, w))"
| "cc_exec H N T e (CO_Revoke k a) s w = and_then (cc_revoke e k a s) (\<lambda>s. Inr (s, w))"
| "cc_exec H N T e (CO_Sweep a x) s w = and_then (cc_sweep H e a x s w) (\<lambda>w. Inr (s, w))"
| "cc_exec H N T e (CO_Fill r chain bid sig) s w = and_then (cc_fill H N T e r chain bid sig s w) (\<lambda>(i, s, w). Inr (s, w))"
| "cc_exec H N T e (CO_Push a i) s w = and_then (push_claim H N T e a i s w) (\<lambda>(v, s, w). Inr (s, w))"
| "cc_exec H N T e (CO_Withdraw a tok) s w = cc_withdraw H e a tok s w"

lemma cc_exec_Inr:
  "cc_exec H N T e (CO_Submit c) s w = Inr (s', w') \<longleftrightarrow> (\<exists>v. cc_submit N T e c s w = Inr (v, s')) \<and> w' = w"
  "cc_exec H N T e (CO_Accept k) s w = Inr (s', w') \<longleftrightarrow> cc_accept T e k s w = Inr s' \<and> w' = w"
  "cc_exec H N T e (CO_Revoke k a) s w = Inr (s', w') \<longleftrightarrow> cc_revoke e k a s = Inr s' \<and> w' = w"
  "cc_exec H N T e (CO_Sweep a x) s w = Inr (s', w') \<longleftrightarrow> cc_sweep H e a x s w = Inr w' \<and> s' = s"
  "cc_exec H N T e (CO_Fill r chain bid sig) s w = Inr (s', w') \<longleftrightarrow> (\<exists>i. cc_fill H N T e r chain bid sig s w = Inr (i, s', w'))"
  "cc_exec H N T e (CO_Push a i) s w = Inr (s', w') \<longleftrightarrow> (\<exists>v. push_claim H N T e a i s w = Inr (v, s', w'))"
  by (auto simp: and_then_Inr_iff)

text \<open>
  Calls whose custody is shown: a fill's floor is not negative and its two tokens differ (neither is checked by the
  contract, nor by the quote it asks for), and a configuration submitted is in order.
\<close>

fun op_ok :: "('b CcConfig \<Rightarrow> bool) \<Rightarrow> 'b cc_op \<Rightarrow> bool" where
  "op_ok cfg_ok (CO_Submit (CC_Config c)) \<longleftrightarrow> cfg_ok c"
| "op_ok cfg_ok (CO_Fill r chain bid sig) \<longleftrightarrow> 0 \<le> rq_min_received_amount r \<and> rq_taker_token r \<noteq> rq_maker_token r"
| "op_ok cfg_ok _ \<longleftrightarrow> True"

context bridge_laws
begin

lemma cc_exec_slack:
  assumes ex: "cc_exec H N T e op s w = Inr (s', w')" and me: "current_contract e = me" "\<not> authorised e me"
    and inv: "cc_inv cfg_ok s" and op: "op_ok cfg_ok op" and t: "plain t"
  shows "cc_inv cfg_ok s' \<and> slack H me t s w \<le> slack H me t s' w' \<and> credit t w' = credit t w"
proof (cases op)
  case (CO_Submit c)
  from ex obtain v where sub: "cc_submit N T e c s w = Inr (v, s')" and w': "w' = w" unfolding CO_Submit cc_exec_Inr by blast
  have "\<And>x. c = CC_Config x \<Longrightarrow> cfg_ok x" using op CO_Submit by simp
  with governance_slack(1) [OF inv sub, of t] w' show ?thesis by simp
next
  case (CO_Accept k)
  from ex have "cc_accept T e k s w = Inr s'" "w' = w" unfolding CO_Accept cc_exec_Inr by blast+
  with governance_slack(2) [OF inv this(1), of t] show ?thesis by simp
next
  case (CO_Revoke k a)
  from ex have "cc_revoke e k a s = Inr s'" "w' = w" unfolding CO_Revoke cc_exec_Inr by blast+
  with governance_slack(3) [OF inv this(1), of t w] show ?thesis by simp
next
  case (CO_Sweep a x)
  from ex have sw: "cc_sweep H e a x s w = Inr w'" and s': "s' = s" unfolding CO_Sweep cc_exec_Inr by blast+
  from sw me(1) obtain cfg where cfg: "cs_config s = Some cfg" and tr: "token_transfer H e (cf_xlm cfg) me a x w = (Inr w' :: (CcError, _) res)"
    by (auto simp: cc_sweep_def rs)
  have "t \<noteq> cf_xlm cfg" using cfg_law [OF cc_inv_D(7) [OF inv cfg]] t by auto
  moreover have "credit t w' = credit t w" using tr credit_transfer by (auto simp: token_transfer_def rs)
  ultimately show ?thesis using token_transfer_moves(4) [OF tr, of t me] inv s' by (simp add: slack_def)
next
  case (CO_Fill r chain bid sig)
  from ex obtain i where "cc_fill H N T e r chain bid sig s w = Inr (i, s', w')" unfolding CO_Fill cc_exec_Inr by blast
  with fill_slack [OF this me inv] op CO_Fill t show ?thesis by simp
next
  case (CO_Push a i)
  from ex obtain v where "push_claim H N T e a i s w = Inr (v, s', w')" unfolding CO_Push cc_exec_Inr by blast
  from push_slack [OF this me(1) inv t] show ?thesis .
next
  case (CO_Withdraw a tok)
  with ex withdraw_slack [OF _ me(1) inv] show ?thesis by simp
qed

end

end
