(* ===== verification/Cctp.thy ===== *)
theory Cctp
  imports Crosschain_Inv
begin

text \<open>
  \<open>contracts/crosschain_settle/src/cctp.rs\<close>: the bridge of \<open>cctp_settle\<close>, Circle's CCTP. Its MessageTransmitter and
  TokenMessenger are contracts outside the repository, the fields of \<open>cctp_host\<close>; what is relied on is \<open>cctp_laws\<close>. Chain
  ids are CCTP domains. Shown: over any run of the contract, with deliveries of any messages by anyone, the escrow of
  every order in flight and everything owed is held.
\<close>

record cctp_bridge =
  cb_transmitter :: address
  cb_messenger :: address

record 'w cctp_host =
  mt_send_message :: "env \<Rightarrow> address \<Rightarrow> address \<Rightarrow> nat \<Rightarrow> bytes32 \<Rightarrow> bytes32 \<Rightarrow> nat \<Rightarrow> byte list \<Rightarrow> 'w \<Rightarrow> 'w option"
  mt_receive_message :: "env \<Rightarrow> address \<Rightarrow> address \<Rightarrow> byte list \<Rightarrow> byte list \<Rightarrow> 'w \<Rightarrow> (bool \<times> 'w) option"
  tm_deposit_for_burn_with_hook :: "env \<Rightarrow> address \<Rightarrow> address \<Rightarrow> int \<Rightarrow> nat \<Rightarrow> bytes32 \<Rightarrow> address \<Rightarrow> bytes32 \<Rightarrow> int \<Rightarrow> nat \<Rightarrow>
    byte list \<Rightarrow> 'w \<Rightarrow> 'w option"
  tm_get_local_token :: "env \<Rightarrow> address \<Rightarrow> nat \<Rightarrow> bytes32 \<Rightarrow> 'w \<Rightarrow> address option option"

definition FINALIZED :: nat where "FINALIZED = 2000"
definition HOOK :: nat where "HOOK = 376"
definition SOURCE_DOMAIN :: nat where "SOURCE_DOMAIN = 4"
definition RECIPIENT :: nat where "RECIPIENT = 76"
definition BURN_TOKEN :: nat where "BURN_TOKEN = 152"
definition MESSAGE_SENDER :: nat where "MESSAGE_SENDER = 248"

lemmas cctp_consts = FINALIZED_def HOOK_def SOURCE_DOMAIN_def RECIPIENT_def BURN_TOKEN_def MESSAGE_SENDER_def

subsection \<open>The transport\<close>

definition origin :: "byte list \<Rightarrow> (CcError, (nat \<times> bytes32) option) res" where
  "origin message =
    (if HOOK < length message then
       and_then (word_at message MESSAGE_SENDER) (\<lambda>sender.
         Inr (Some (be_value (take 4 (drop SOURCE_DOMAIN message)), sender)))
     else Inr None)"

definition cctp_init :: "env \<Rightarrow> cctp_bridge CcConfig \<Rightarrow> address \<Rightarrow> 'w \<Rightarrow> (CcError, 'w) res" where
  "cctp_init e cfg admin w = Inr w"

definition cctp_fee :: "env \<Rightarrow> cctp_bridge CcConfig \<Rightarrow> nat \<Rightarrow> byte list \<Rightarrow> cctp_bridge cross_chain \<Rightarrow> 'w \<Rightarrow> (CcError, int) res" where
  "cctp_fee e cfg chain payload s w = Inr 0"

definition cctp_bridge_fee :: "env \<Rightarrow> cctp_bridge CcConfig \<Rightarrow> nat \<Rightarrow> address \<Rightarrow> int \<Rightarrow> byte list \<Rightarrow> cctp_bridge cross_chain \<Rightarrow> 'w \<Rightarrow>
    (CcError, int) res" where
  "cctp_bridge_fee e cfg chain tok amount payload s w = Inl (Err CE_NoRoute)"

definition cctp_send :: "'w cctp_host \<Rightarrow> env \<Rightarrow> cctp_bridge CcConfig \<Rightarrow> nat \<Rightarrow> byte list \<Rightarrow> address \<Rightarrow> cctp_bridge cross_chain \<Rightarrow> 'w \<Rightarrow>
    (CcError, 'w) res" where
  "cctp_send M e cfg chain payload payer s w =
    and_then (peer_of chain s) (\<lambda>peer.
      let tr = cb_transmitter (cf_bridge cfg) in
      call_result (mt_send_message M (calling e tr) tr (current_contract e) chain (pe_addr peer) 0 FINALIZED payload w))"

definition cctp_bridge_to :: "'w host \<Rightarrow> 'w cctp_host \<Rightarrow> env \<Rightarrow> cctp_bridge CcConfig \<Rightarrow> nat \<Rightarrow> address \<Rightarrow> int \<Rightarrow> byte list \<Rightarrow> address \<Rightarrow>
    cctp_bridge cross_chain \<Rightarrow> 'w \<Rightarrow> (CcError, 'w) res" where
  "cctp_bridge_to H M e cfg chain stbl amount payload payer s w =
    and_then (peer_of chain s) (\<lambda>peer.
      let me = current_contract e; messenger = cb_messenger (cf_bridge cfg) in
      and_then (token_approve H e stbl me messenger amount (ledger_sequence e) w) (\<lambda>w.
        call_result (tm_deposit_for_burn_with_hook M (calling e messenger) messenger me amount chain (pe_addr peer) stbl
          (pe_addr peer) 0 FINALIZED payload w)))"

definition cctp_check_route :: "'w cctp_host \<Rightarrow> env \<Rightarrow> cctp_bridge CcConfig \<Rightarrow> nat \<Rightarrow> address \<Rightarrow> bytes32 \<Rightarrow> 'w \<Rightarrow> (CcError, unit) res" where
  "cctp_check_route M e cfg chain stbl remote w =
    (let messenger = cb_messenger (cf_bridge cfg) in
     and_then (call_result (tm_get_local_token M (calling e messenger) messenger chain remote w)) (\<lambda>loc.
       panic_if (loc \<noteq> Some stbl) CE_NoRoute))"

definition cctp_transport :: "'w host \<Rightarrow> 'w cctp_host \<Rightarrow> (cctp_bridge, 'w) transport" where
  "cctp_transport H M = \<lparr>tp_init = cctp_init, tp_fee = cctp_fee, tp_bridge_fee = cctp_bridge_fee, tp_send = cctp_send M,
     tp_bridge = cctp_bridge_to H M, tp_check_route = cctp_check_route M\<rparr>"

subsection \<open>Deliveries\<close>

definition handle_recv_finalized_message :: "'w host \<Rightarrow> 'w cc_host \<Rightarrow> env \<Rightarrow> nat \<Rightarrow> bytes32 \<Rightarrow> nat \<Rightarrow> byte list \<Rightarrow>
    cctp_bridge cross_chain \<Rightarrow> 'w \<Rightarrow> (CcError, bool \<times> cctp_bridge cross_chain \<times> 'w) res" where
  "handle_recv_finalized_message H N e source_domain sender finality message_body s w =
    and_then (cc_config s) (\<lambda>cfg.
    and_then (require_auth e (cb_transmitter (cf_bridge cfg))) (\<lambda>_.
    and_then (check_peer source_domain sender s) (\<lambda>_.
    and_then (wire_kind message_body) (\<lambda>knd.
      if knd \<noteq> FILL then
        and_then (word_nth message_body 1) (\<lambda>i.
        and_then (on_fail H e source_domain i s w) (\<lambda>(s, w).
          Inr (True, s, w)))
      else
        let k = sha256 (ch_crypto N) message_body in
        Inr (True, s\<lparr>cs_inbox := (cs_inbox s)(k \<mapsto> source_domain)\<rparr>, w)))))"

definition cctp_execute :: "'w host \<Rightarrow> 'w cc_host \<Rightarrow> 'w cctp_host \<Rightarrow> env \<Rightarrow> byte list \<Rightarrow> cctp_bridge cross_chain \<Rightarrow> 'w \<Rightarrow>
    (CcError, cctp_bridge cross_chain \<times> 'w) res" where
  "cctp_execute H N M e message s w =
    (let k = sha256 (ch_crypto N) message in
     and_then (or_panic (cs_inbox s k) CE_NotFound) (\<lambda>chain.
       let s = s\<lparr>cs_inbox := (cs_inbox s)(k := None)\<rparr> in
       and_then (cc_config s) (\<lambda>cfg.
         on_fill H N (cctp_transport H M) e cfg chain message s w)))"

definition complete :: "'w host \<Rightarrow> 'w cc_host \<Rightarrow> 'w cctp_host \<Rightarrow> env \<Rightarrow> address \<Rightarrow> byte list \<Rightarrow> byte list \<Rightarrow> cctp_bridge cross_chain \<Rightarrow> 'w \<Rightarrow>
    (CcError, cctp_bridge cross_chain \<times> 'w) res" where
  "complete H N M e caller message attestation s w =
    and_then (require_auth e caller) (\<lambda>_.
    and_then (cc_config s) (\<lambda>cfg.
      let messenger = cb_messenger (cf_bridge cfg); transmitter = cb_transmitter (cf_bridge cfg); me = current_contract e in
      and_then (wire_key (ch_crypto N) messenger) (\<lambda>mkey.
      and_then (origin message) (\<lambda>org.
      and_then (case org of
          None \<Rightarrow> Inr None
        | Some x \<Rightarrow> and_then (word_at message RECIPIENT) (\<lambda>rcp. Inr (if rcp = mkey then Some x else None))) (\<lambda>org.
      and_then (or_panic org CE_UnknownSender) (\<lambda>(chain, sender).
      and_then (check_peer chain sender s) (\<lambda>_.
      and_then (word_at message BURN_TOKEN) (\<lambda>burned.
      and_then (call_result (tm_get_local_token M (calling e messenger) messenger chain burned w)) (\<lambda>loc.
      and_then (or_panic loc CE_NoRoute) (\<lambda>stbl.
        let before = tk_balance H stbl me w in
        and_then (call_result (mt_receive_message M (calling e transmitter) transmitter me message attestation w)) (\<lambda>(ok, w).
        and_then (i128_sub (tk_balance H stbl me w) before) (\<lambda>received.
          on_funds H N (cctp_transport H M) e cfg chain stbl received (drop HOOK message) (Some caller) s w))))))))))))"

datatype cctp_op = CP_Common "cctp_bridge cc_op" | CP_Handle nat bytes32 nat "byte list" | CP_Execute "byte list"
  | CP_Complete address "byte list" "byte list"

fun cctp_exec :: "'w host \<Rightarrow> 'w cc_host \<Rightarrow> 'w cctp_host \<Rightarrow> env \<Rightarrow> cctp_op \<Rightarrow> cctp_bridge cross_chain \<Rightarrow> 'w \<Rightarrow>
    (CcError, cctp_bridge cross_chain \<times> 'w) res" where
  "cctp_exec H N M e (CP_Common op) s w = cc_exec H N (cctp_transport H M) e op s w"
| "cctp_exec H N M e (CP_Handle d sender f body) s w =
    and_then (handle_recv_finalized_message H N e d sender f body s w) (\<lambda>(b, s, w). Inr (s, w))"
| "cctp_exec H N M e (CP_Execute m) s w = cctp_execute H N M e m s w"
| "cctp_exec H N M e (CP_Complete a m at) s w = complete H N M e a m at s w"

fun cctp_op_ok :: "(cctp_bridge CcConfig \<Rightarrow> bool) \<Rightarrow> cctp_op \<Rightarrow> bool" where
  "cctp_op_ok cfg_ok (CP_Common op) \<longleftrightarrow> op_ok cfg_ok op"
| "cctp_op_ok cfg_ok _ \<longleftrightarrow> True"

definition cctp_cfg_ok :: "(address \<Rightarrow> bool) \<Rightarrow> cctp_bridge CcConfig \<Rightarrow> bool" where
  "cctp_cfg_ok plain c \<longleftrightarrow> 0 \<le> cf_tip c \<and> \<not> plain (cf_xlm c)"

subsection \<open>What is relied on\<close>

text \<open>
  Sending a message moves no tokens of the contract. A burn takes the amount approved of the token named, for the caller.
  Receiving a message takes nothing from the contract (a burn received mints to it).
\<close>

locale cctp_laws = cc_outside H N me plain "\<lambda>_ _. 0" for H :: "'w host" and N me plain +
  fixes M :: "'w cctp_host"
  assumes message_law: "mt_send_message M e tr me chain rcp dc f m w = Some w' \<Longrightarrow> plain t \<Longrightarrow> tk_balance H t me w \<le> tk_balance H t me w'"
    and burn_law: "tm_deposit_for_burn_with_hook M e ms me x chain rcp tok dc fee f m w = Some w' \<Longrightarrow> plain t \<Longrightarrow>
      (t = tok \<longrightarrow> 0 \<le> x) \<Longrightarrow> tk_balance H t me w - (if t = tok then x else 0) \<le> tk_balance H t me w'"
    and receive_law: "mt_receive_message M e tr me m att w = Some (b, w') \<Longrightarrow> tk_balance H t me w \<le> tk_balance H t me w'"

sublocale cctp_laws \<subseteq> cctp: bridge_laws H N me plain "\<lambda>_ _. 0" "cctp_transport H M" "cctp_cfg_ok plain"
proof
  fix e :: env and cfg chain m p s w w' t
  assume "tp_send (cctp_transport H M) e cfg chain m p s w = Inr w'" "current_contract e = me" "plain t"
  then show "tk_balance H t me w \<le> tk_balance H t me w' \<and> (0::int) = 0"
    using message_law by (auto simp: cctp_transport_def cctp_send_def Let_def rs)
next
  fix e :: env and cfg chain tok x m p s w w' t
  assume "tp_bridge (cctp_transport H M) e cfg chain tok x m p s w = Inr w'" "current_contract e = me" "plain t" "t = tok \<longrightarrow> 0 \<le> x"
  then obtain w1 and peer :: Peer where "token_approve H e tok me (cb_messenger (cf_bridge cfg)) x (ledger_sequence e) w = (Inr w1 :: (CcError, _) res)"
    "tm_deposit_for_burn_with_hook M (calling e (cb_messenger (cf_bridge cfg))) (cb_messenger (cf_bridge cfg)) me x chain (pe_addr peer) tok
       (pe_addr peer) 0 FINALIZED m w1 = Some w'"
    by (auto simp: cctp_transport_def cctp_bridge_to_def Let_def rs)
  with burn_law [OF this(2) \<open>plain t\<close>] token_approve_keeps [OF this(1), of t me] \<open>t = tok \<longrightarrow> 0 \<le> x\<close>
  show "tk_balance H t me w - (if t = tok then x else 0) \<le> tk_balance H t me w' \<and> (0::int) = 0" by simp
qed (simp add: cctp_cfg_ok_def)

subsection \<open>Runs\<close>

text \<open>
  The contract deployed, called by anyone but itself, and the world around it, which cannot take its tokens.
\<close>

inductive cctp_run :: "'w host \<Rightarrow> 'w cc_host \<Rightarrow> 'w cctp_host \<Rightarrow> address \<Rightarrow> (address \<Rightarrow> bool) \<Rightarrow> cctp_bridge cross_chain \<Rightarrow> 'w \<Rightarrow> bool"
  for H :: "'w host" and N :: "'w cc_host" and M :: "'w cctp_host" and me :: address and plain :: "address \<Rightarrow> bool" where
  deployed: "cc_constructor (cctp_transport H M) e admin gd dl cfg cs_empty w = Inr (s, w') \<Longrightarrow> current_contract e = me \<Longrightarrow>
    cctp_cfg_ok plain cfg \<Longrightarrow> (\<And>t. plain t \<Longrightarrow> 0 \<le> tk_balance H t me w) \<Longrightarrow> cctp_run H N M me plain s w'"
| called: "cctp_run H N M me plain s w \<Longrightarrow> cctp_exec H N M e op s w = Inr (s', w') \<Longrightarrow> current_contract e = me \<Longrightarrow>
    \<not> authorised e me \<Longrightarrow> cctp_op_ok (cctp_cfg_ok plain) op \<Longrightarrow> cctp_run H N M me plain s' w'"
| outside: "cctp_run H N M me plain s w \<Longrightarrow> (\<And>t. plain t \<Longrightarrow> tk_balance H t me w \<le> tk_balance H t me w') \<Longrightarrow>
    cctp_run H N M me plain s w'"

context cctp_laws
begin

lemma cctp_exec_covers:
  assumes ex: "cctp_exec H N M e op s w = Inr (s', w')" and me: "current_contract e = me" "\<not> authorised e me"
    and inv: "cc_inv (cctp_cfg_ok plain) s" and op: "cctp_op_ok (cctp_cfg_ok plain) op" and t: "plain t"
  shows "cc_inv (cctp_cfg_ok plain) s' \<and> slack H me t s w \<le> slack H me t s' w'"
proof (cases op)
  case (CP_Common c)
  with cctp.cc_exec_slack [OF _ me inv _ t, of c] ex op show ?thesis by simp
next
  case (CP_Handle d sender f body)
  with ex consider (fail) i where "on_fail H e d i s w = Inr (s', w')"
    | (kept) k where "s' = s\<lparr>cs_inbox := (cs_inbox s)(k \<mapsto> d)\<rparr>" "w' = w"
    by (auto simp: handle_recv_finalized_message_def rs Let_def split: if_splits)
  then show ?thesis
  proof cases
    case fail
    from cctp.fail_slack [OF fail me(1) inv] show ?thesis by blast
  next
    case kept
    with cc_inv_misc(2) [OF inv] show ?thesis by (simp add: slack_def)
  qed
next
  case (CP_Execute m)
  let ?s = "\<lambda>k. s\<lparr>cs_inbox := (cs_inbox s)(k := None)\<rparr>"
  from ex obtain k chain cfg where cfg: "cs_config s = Some cfg" and of: "on_fill H N (cctp_transport H M) e cfg chain m (?s k) w = Inr (s', w')"
    unfolding CP_Execute by (auto simp: cctp_execute_def rs Let_def)
  from cctp.on_fill_slack [OF of me(1) cc_inv_misc(2) [OF inv] cc_inv_D(7) [OF inv cfg]] t show ?thesis by (simp add: slack_def)
next
  case (CP_Complete a m att)
  from ex me(1) obtain cfg chain stbl ok w1 where cfg: "cs_config s = Some cfg"
    and rc: "mt_receive_message M (calling e (cb_transmitter (cf_bridge cfg))) (cb_transmitter (cf_bridge cfg)) me m att w = Some (ok, w1)"
    and fu: "on_funds H N (cctp_transport H M) e cfg chain stbl (tk_balance H stbl me w1 - tk_balance H stbl me w) (drop HOOK m) (Some a) s w1 = Inr (s', w')"
    unfolding CP_Complete by (auto simp: complete_def rs Let_def)
  have "0 \<le> tk_balance H stbl me w1 - tk_balance H stbl me w" using receive_law [OF rc, of stbl] by simp
  from cctp.funds_slack [OF fu me(1) inv cc_inv_D(7) [OF inv cfg] this t] receive_law [OF rc, of t]
  show ?thesis by (auto simp: slack_def split: if_splits)
qed

lemma cctp_run_covers:
  assumes "cctp_run H N M me plain s w" "plain t"
  shows "cc_inv (cctp_cfg_ok plain) s \<and> 0 \<le> slack H me t s w"
  using assms(1)
proof (induction rule: cctp_run.induct)
  case (deployed e admin gd dl cfg w s w')
  then have "s = cs_empty\<lparr>cs_timelock := init dl gd tl_empty, cs_admin := Some admin, cs_config := Some cfg\<rparr>" "w' = w"
    by (auto simp: cc_constructor_def cctp_transport_def cctp_init_def Let_def cs_empty_def)
  with deployed assms(2) show ?case
    by (auto simp: cc_inv_def slack_def escrow_def held_def map_total_def total_over_def cs_empty_def tl_empty_def init_def)
next
  case (called s w e op s' w')
  with cctp_exec_covers [OF called(2,3,4) _ called(5) assms(2)] show ?case by force
next
  case (outside s w w')
  from outside(2) [OF assms(2)] outside(3) show ?case by (simp add: slack_def)
qed

end

end
