(* ===== verification/Lz.thy ===== *)
theory Lz
  imports Crosschain_Inv
begin

text \<open>
  \<open>contracts/crosschain_settle/src/lz.rs\<close>: the bridge of \<open>lz_settle\<close>, LayerZero. The endpoint and the OFTs are contracts
  outside the repository, the fields of \<open>lz_host\<close>; what is relied on is \<open>lz_laws\<close>. Chain ids are LayerZero EIDs. The map
  from tokens to OFTs is the list of its entries in key order. Shown: over any run of the contract the escrow of every
  order in flight, everything owed and every payment minted but not yet composed are held.
\<close>

record lz_bridge =
  lb_endpoint :: address
  lb_ofts :: "(address \<times> address) list"

record MessagingParams =
  mp_dst_eid :: nat
  mp_receiver :: bytes32
  mp_message :: "byte list"
  mp_options :: "byte list"
  mp_pay_in_zro :: bool

record MessagingFee =
  mf_native_fee :: int
  mf_zro_fee :: int

record MessagingReceipt =
  mr_guid :: bytes32
  mr_nonce :: nat
  mr_fee :: MessagingFee

record Origin =
  og_src_eid :: nat
  og_sender :: bytes32
  og_nonce :: nat

record SendParam =
  sp_dst_eid :: nat
  sp_to :: bytes32
  sp_amount_ld :: int
  sp_min_amount_ld :: int
  sp_extra_options :: "byte list"
  sp_compose_msg :: "byte list"
  sp_oft_cmd :: "byte list"

record OftReceipt =
  ot_amount_sent_ld :: int
  ot_amount_received_ld :: int

record 'w lz_host =
  ep_quote :: "env \<Rightarrow> address \<Rightarrow> address \<Rightarrow> MessagingParams \<Rightarrow> 'w \<Rightarrow> MessagingFee option"
  ep_send :: "env \<Rightarrow> address \<Rightarrow> address \<Rightarrow> MessagingParams \<Rightarrow> address \<Rightarrow> 'w \<Rightarrow> (MessagingReceipt \<times> 'w) option"
  ep_clear :: "env \<Rightarrow> address \<Rightarrow> address \<Rightarrow> Origin \<Rightarrow> address \<Rightarrow> bytes32 \<Rightarrow> byte list \<Rightarrow> 'w \<Rightarrow> 'w option"
  ep_clear_compose :: "env \<Rightarrow> address \<Rightarrow> address \<Rightarrow> address \<Rightarrow> bytes32 \<Rightarrow> nat \<Rightarrow> byte list \<Rightarrow> 'w \<Rightarrow> 'w option"
  ep_set_delegate :: "env \<Rightarrow> address \<Rightarrow> address \<Rightarrow> address option \<Rightarrow> 'w \<Rightarrow> 'w option"
  oft_quote_send :: "env \<Rightarrow> address \<Rightarrow> address \<Rightarrow> SendParam \<Rightarrow> bool \<Rightarrow> 'w \<Rightarrow> MessagingFee option"
  oft_send :: "env \<Rightarrow> Auth list \<Rightarrow> address \<Rightarrow> address \<Rightarrow> SendParam \<Rightarrow> MessagingFee \<Rightarrow> address \<Rightarrow> 'w \<Rightarrow>
    ((MessagingReceipt \<times> OftReceipt) \<times> 'w) option"

subsection \<open>The transport\<close>

definition lz_init :: "'w lz_host \<Rightarrow> env \<Rightarrow> lz_bridge CcConfig \<Rightarrow> address \<Rightarrow> 'w \<Rightarrow> (CcError, 'w) res" where
  "lz_init L e cfg admin w =
    (let ep = lb_endpoint (cf_bridge cfg) in
     call_result (ep_set_delegate L (calling e ep) ep (current_contract e) (Some admin) w))"

definition params :: "nat \<Rightarrow> byte list \<Rightarrow> lz_bridge cross_chain \<Rightarrow> (CcError, MessagingParams) res" where
  "params chain message s =
    and_then (peer_of chain s) (\<lambda>peer.
      Inr \<lparr>mp_dst_eid = chain, mp_receiver = pe_addr peer, mp_message = message, mp_options = pe_options peer,
        mp_pay_in_zro = False\<rparr>)"

definition send_param :: "nat \<Rightarrow> int \<Rightarrow> byte list \<Rightarrow> lz_bridge cross_chain \<Rightarrow> (CcError, SendParam) res" where
  "send_param chain amount payload s =
    and_then (peer_of chain s) (\<lambda>peer.
      Inr \<lparr>sp_dst_eid = chain, sp_to = pe_addr peer, sp_amount_ld = amount, sp_min_amount_ld = amount,
        sp_extra_options = pe_options peer, sp_compose_msg = payload, sp_oft_cmd = []\<rparr>)"

definition oft_of :: "lz_bridge CcConfig \<Rightarrow> address \<Rightarrow> (CcError, address) res" where
  "oft_of cfg tok = or_panic (map_of (lb_ofts (cf_bridge cfg)) tok) CE_NoRoute"

definition lz_fee :: "'w lz_host \<Rightarrow> env \<Rightarrow> lz_bridge CcConfig \<Rightarrow> nat \<Rightarrow> byte list \<Rightarrow> lz_bridge cross_chain \<Rightarrow> 'w \<Rightarrow> (CcError, int) res" where
  "lz_fee L e cfg chain payload s w =
    (let ep = lb_endpoint (cf_bridge cfg) in
     and_then (params chain payload s) (\<lambda>p.
     and_then (call_result (ep_quote L (calling e ep) ep (current_contract e) p w)) (\<lambda>f.
       Inr (mf_native_fee f))))"

definition lz_send :: "'w host \<Rightarrow> 'w lz_host \<Rightarrow> env \<Rightarrow> lz_bridge CcConfig \<Rightarrow> nat \<Rightarrow> byte list \<Rightarrow> address \<Rightarrow> lz_bridge cross_chain \<Rightarrow> 'w \<Rightarrow>
    (CcError, 'w) res" where
  "lz_send H L e cfg chain payload payer s w =
    (let me = current_contract e; ep = lb_endpoint (cf_bridge cfg) in
     and_then (params chain payload s) (\<lambda>p.
     and_then (call_result (ep_quote L (calling e ep) ep me p w)) (\<lambda>f.
     and_then (token_transfer H e (cf_xlm cfg) payer ep (mf_native_fee f) w) (\<lambda>w.
     and_then (call_result (ep_send L (calling e ep) ep me p me w)) (\<lambda>(r, w).
       Inr w)))))"

definition lz_bridge_fee :: "'w lz_host \<Rightarrow> env \<Rightarrow> lz_bridge CcConfig \<Rightarrow> nat \<Rightarrow> address \<Rightarrow> int \<Rightarrow> byte list \<Rightarrow> lz_bridge cross_chain \<Rightarrow> 'w \<Rightarrow>
    (CcError, int) res" where
  "lz_bridge_fee L e cfg chain tok amount payload s w =
    and_then (send_param chain amount payload s) (\<lambda>p.
    and_then (oft_of cfg tok) (\<lambda>oft.
    and_then (call_result (oft_quote_send L (calling e oft) oft (current_contract e) p False w)) (\<lambda>f.
      Inr (mf_native_fee f))))"

definition lz_bridge_to :: "'w host \<Rightarrow> 'w lz_host \<Rightarrow> env \<Rightarrow> lz_bridge CcConfig \<Rightarrow> nat \<Rightarrow> address \<Rightarrow> int \<Rightarrow> byte list \<Rightarrow> address \<Rightarrow>
    lz_bridge cross_chain \<Rightarrow> 'w \<Rightarrow> (CcError, 'w) res" where
  "lz_bridge_to H L e cfg chain stbl amount payload payer s w =
    (let me = current_contract e in
     and_then (send_param chain amount payload s) (\<lambda>p.
     and_then (oft_of cfg stbl) (\<lambda>oft.
     and_then (call_result (oft_quote_send L (calling e oft) oft me p False w)) (\<lambda>f.
     and_then (if payer \<noteq> me then token_transfer H e (cf_xlm cfg) payer me (mf_native_fee f) w else Inr w) (\<lambda>w.
       let burn = [AddressVal me, I128Val amount];
           pay = [AddressVal me, AddressVal (lb_endpoint (cf_bridge cfg)), I128Val (mf_native_fee f)];
           auths = [auth_entry stbl ''burn'' burn, auth_entry (cf_xlm cfg) ''transfer'' pay] in
       and_then (call_result (oft_send L (calling e oft) auths oft me p f me w)) (\<lambda>(r, w).
         Inr w))))))"

definition lz_check_route :: "lz_bridge CcConfig \<Rightarrow> nat \<Rightarrow> address \<Rightarrow> bytes32 \<Rightarrow> (CcError, unit) res" where
  "lz_check_route cfg chain stbl remote = panic_if (map_of (lb_ofts (cf_bridge cfg)) stbl = None) CE_NoRoute"

definition lz_transport :: "'w host \<Rightarrow> 'w lz_host \<Rightarrow> (lz_bridge, 'w) transport" where
  "lz_transport H L = \<lparr>tp_init = lz_init L, tp_fee = lz_fee L, tp_bridge_fee = lz_bridge_fee L, tp_send = lz_send H L,
     tp_bridge = lz_bridge_to H L, tp_check_route = (\<lambda>e cfg chain stbl remote w. lz_check_route cfg chain stbl remote)\<rparr>"

subsection \<open>Deliveries\<close>

definition take_value :: "'w host \<Rightarrow> env \<Rightarrow> lz_bridge CcConfig \<Rightarrow> address \<Rightarrow> int \<Rightarrow> 'w \<Rightarrow> (CcError, 'w) res" where
  "take_value H e cfg executor v w =
    (if v \<noteq> 0 then token_transfer H e (cf_xlm cfg) executor (current_contract e) v w else Inr w)"

definition lz_receive :: "'w host \<Rightarrow> 'w cc_host \<Rightarrow> 'w lz_host \<Rightarrow> env \<Rightarrow> address \<Rightarrow> Origin \<Rightarrow> bytes32 \<Rightarrow> byte list \<Rightarrow> int \<Rightarrow>
    lz_bridge cross_chain \<Rightarrow> 'w \<Rightarrow> (CcError, lz_bridge cross_chain \<times> 'w) res" where
  "lz_receive H N L e executor org guid message v s w =
    and_then (require_auth e executor) (\<lambda>_.
    and_then (cc_config s) (\<lambda>cfg.
    and_then (check_peer (og_src_eid org) (og_sender org) s) (\<lambda>_.
      let me = current_contract e; ep = lb_endpoint (cf_bridge cfg) in
      and_then (call_result (ep_clear L (calling e ep) ep me org me guid message w)) (\<lambda>w.
      and_then (take_value H e cfg executor v w) (\<lambda>w.
      and_then (wire_kind message) (\<lambda>knd.
        if knd \<noteq> FILL then
          and_then (word_nth message 1) (\<lambda>i. on_fail H e (og_src_eid org) i s w)
        else on_fill H N (lz_transport H L) e cfg (og_src_eid org) message s w))))))"

text \<open>The compose message: nonce, source EID at 8, amount (\<open>i128\<close>) at 12, sender at 28, ours from 60.\<close>

definition compose_eid :: "byte list \<Rightarrow> nat" where
  "compose_eid message = be_value (take 4 (drop 8 message))"

definition compose_amount :: "byte list \<Rightarrow> int" where
  "compose_amount message = as_i128 (be_value (take 16 (drop 12 message)))"

definition lz_compose :: "'w host \<Rightarrow> 'w cc_host \<Rightarrow> 'w lz_host \<Rightarrow> env \<Rightarrow> address \<Rightarrow> address \<Rightarrow> bytes32 \<Rightarrow> nat \<Rightarrow> byte list \<Rightarrow> int \<Rightarrow>
    lz_bridge cross_chain \<Rightarrow> 'w \<Rightarrow> (CcError, lz_bridge cross_chain \<times> 'w) res" where
  "lz_compose H N L e executor from guid index message v s w =
    and_then (require_auth e executor) (\<lambda>_.
    and_then (cc_config s) (\<lambda>cfg.
    and_then (or_panic (find (\<lambda>(t, oft). oft = from) (lb_ofts (cf_bridge cfg))) CE_UnknownSender) (\<lambda>(tok, oft).
      let me = current_contract e; ep = lb_endpoint (cf_bridge cfg) in
      and_then (call_result (ep_clear_compose L (calling e ep) ep me from guid index message w)) (\<lambda>w.
      and_then (take_value H e cfg executor v w) (\<lambda>w.
      and_then (if 28 \<le> length message then Inr () else Inl (Trap Unwrap)) (\<lambda>_.
      and_then (word_at message 28) (\<lambda>sender.
      and_then (check_peer (compose_eid message) sender s) (\<lambda>_.
        on_funds H N (lz_transport H L) e cfg (compose_eid message) tok (compose_amount message) (drop 60 message) None s w))))))))"

definition allow_initialize_path :: "Origin \<Rightarrow> lz_bridge cross_chain \<Rightarrow> bool" where
  "allow_initialize_path org s = (case cc_peer (og_src_eid org) s of None \<Rightarrow> False | Some p \<Rightarrow> pe_addr p = og_sender org)"

definition next_nonce :: "nat \<Rightarrow> bytes32 \<Rightarrow> nat" where
  "next_nonce src_eid sender = 0"

datatype lz_op = LZ_Common "lz_bridge cc_op" | LZ_Receive address Origin bytes32 "byte list" int
  | LZ_Compose address address bytes32 nat "byte list" int

fun lz_exec :: "'w host \<Rightarrow> 'w cc_host \<Rightarrow> 'w lz_host \<Rightarrow> env \<Rightarrow> lz_op \<Rightarrow> lz_bridge cross_chain \<Rightarrow> 'w \<Rightarrow> (CcError, lz_bridge cross_chain \<times> 'w) res" where
  "lz_exec H N L e (LZ_Common op) s w = cc_exec H N (lz_transport H L) e op s w"
| "lz_exec H N L e (LZ_Receive x org guid m v) s w = lz_receive H N L e x org guid m v s w"
| "lz_exec H N L e (LZ_Compose x from guid index m v) s w = lz_compose H N L e x from guid index m v s w"

fun lz_op_ok :: "(lz_bridge CcConfig \<Rightarrow> bool) \<Rightarrow> lz_op \<Rightarrow> bool" where
  "lz_op_ok cfg_ok (LZ_Common op) \<longleftrightarrow> op_ok cfg_ok op"
| "lz_op_ok cfg_ok _ \<longleftrightarrow> True"

text \<open>A configuration in order: each OFT listed is the token's own.\<close>

definition lz_cfg_ok :: "(address \<Rightarrow> bool) \<Rightarrow> (address \<Rightarrow> address) \<Rightarrow> lz_bridge CcConfig \<Rightarrow> bool" where
  "lz_cfg_ok plain home c \<longleftrightarrow> 0 \<le> cf_tip c \<and> \<not> plain (cf_xlm c) \<and> (\<forall>(t, oft)\<in>set (lb_ofts (cf_bridge c)). home oft = t)"

subsection \<open>What is relied on\<close>

text \<open>
  \<open>credit t\<close> is what the OFT of \<open>t\<close> has minted to the contract with a composed message the endpoint has not cleared yet.
  Clearing a composed message of an OFT uses up the amount it carries, which is not negative; no other call does. The
  endpoint moves no other token of the contract, and an OFT burns exactly the amount signed for.
\<close>

locale lz_laws = cc_outside H N me plain credit for H :: "'w host" and N me plain credit +
  fixes L :: "'w lz_host" and home :: "address \<Rightarrow> address"
  assumes endpoint_send_law: "ep_send L e ep me p ra w = Some (r, w') \<Longrightarrow> plain t \<Longrightarrow>
      tk_balance H t me w \<le> tk_balance H t me w' \<and> credit t w' = credit t w"
    and clear_law: "ep_clear L e ep me org me guid m w = Some w' \<Longrightarrow> plain t \<Longrightarrow>
      tk_balance H t me w \<le> tk_balance H t me w' \<and> credit t w' = credit t w"
    and compose_law: "ep_clear_compose L e ep me from guid ix m w = Some w' \<Longrightarrow> plain t \<Longrightarrow>
      tk_balance H t me w \<le> tk_balance H t me w' \<and> 0 \<le> compose_amount m \<and>
      credit t w' = credit t w - (if home from = t then compose_amount m else 0)"
    and oft_law: "oft_send L e [auth_entry tok ''burn'' [AddressVal me, I128Val x], auth_entry xlm ''transfer'' [AddressVal me, AddressVal ep, I128Val y]]
        oft me sp f ra w = Some (rc, w') \<Longrightarrow> plain t \<Longrightarrow> t \<noteq> xlm \<Longrightarrow> (t = tok \<longrightarrow> 0 \<le> x) \<Longrightarrow>
      tk_balance H t me w - (if t = tok then x else 0) \<le> tk_balance H t me w' \<and> credit t w' = credit t w"

sublocale lz_laws \<subseteq> lz: bridge_laws H N me plain credit "lz_transport H L" "lz_cfg_ok plain home"
proof
  fix c
  assume "lz_cfg_ok plain home c"
  then show "0 \<le> cf_tip c \<and> \<not> plain (cf_xlm c)" by (simp add: lz_cfg_ok_def)
next
  fix e :: env and cfg chain m p s w w' t
  assume "tp_send (lz_transport H L) e cfg chain m p s w = Inr w'" and me: "current_contract e = me" and t: "plain t" and cfg: "lz_cfg_ok plain home cfg"
  then obtain x q r w1 where tr: "token_transfer H e (cf_xlm cfg) p (lb_endpoint (cf_bridge cfg)) x w = (Inr w1 :: (CcError, _) res)"
    and sd: "ep_send L (calling e (lb_endpoint (cf_bridge cfg))) (lb_endpoint (cf_bridge cfg)) me q me w1 = Some (r, w')"
    by (auto simp: lz_transport_def lz_send_def Let_def rs)
  have "t \<noteq> cf_xlm cfg" using t cfg by (auto simp: lz_cfg_ok_def)
  then have "tk_balance H t me w1 = tk_balance H t me w" using token_transfer_moves(4) [OF tr, of t me] by simp
  moreover have "credit t w1 = credit t w" using tr credit_transfer by (auto simp: token_transfer_def rs)
  ultimately show "tk_balance H t me w \<le> tk_balance H t me w' \<and> credit t w' = credit t w"
    using endpoint_send_law [OF sd t] by simp
next
  fix e :: env and cfg chain tok x m p s w w' t
  assume "tp_bridge (lz_transport H L) e cfg chain tok x m p s w = Inr w'" and me: "current_contract e = me" and t: "plain t" "t = tok \<longrightarrow> 0 \<le> x"
    and cfg: "lz_cfg_ok plain home cfg"
  then obtain y oft sp f w1 rc where
    pay: "(if p \<noteq> me then token_transfer H e (cf_xlm cfg) p me y w else Inr w) = (Inr w1 :: (CcError, _) res)"
    and sd: "oft_send L (calling e oft) [auth_entry tok ''burn'' [AddressVal me, I128Val x],
        auth_entry (cf_xlm cfg) ''transfer'' [AddressVal me, AddressVal (lb_endpoint (cf_bridge cfg)), I128Val y]] oft me sp f me w1 = Some (rc, w')"
    unfolding lz_transport_def lz_bridge_to_def Let_def by (auto simp: rs simp del: if_split)
  have x: "t \<noteq> cf_xlm cfg" using t cfg by (auto simp: lz_cfg_ok_def)
  have "tk_balance H t me w1 = tk_balance H t me w \<and> credit t w1 = credit t w"
  proof (cases "p = me")
    case True
    with pay show ?thesis by simp
  next
    case False
    with pay have tr: "token_transfer H e (cf_xlm cfg) p me y w = (Inr w1 :: (CcError, _) res)" by simp
    then have "credit t w1 = credit t w" using credit_transfer by (auto simp: token_transfer_def rs)
    with token_transfer_moves(4) [OF tr, of t me] x show ?thesis by simp
  qed
  with oft_law [OF sd t(1) x t(2)]
  show "tk_balance H t me w - (if t = tok then x else 0) \<le> tk_balance H t me w' \<and> credit t w' = credit t w" by simp
qed

subsection \<open>Runs\<close>

inductive lz_run :: "'w host \<Rightarrow> 'w cc_host \<Rightarrow> 'w lz_host \<Rightarrow> address \<Rightarrow> (address \<Rightarrow> bool) \<Rightarrow> (address \<Rightarrow> 'w \<Rightarrow> int) \<Rightarrow> (address \<Rightarrow> address) \<Rightarrow>
    lz_bridge cross_chain \<Rightarrow> 'w \<Rightarrow> bool"
  for H :: "'w host" and N :: "'w cc_host" and L :: "'w lz_host" and me :: address and plain :: "address \<Rightarrow> bool"
    and credit :: "address \<Rightarrow> 'w \<Rightarrow> int" and home :: "address \<Rightarrow> address" where
  deployed: "cc_constructor (lz_transport H L) e admin gd dl cfg cs_empty w = Inr (s, w') \<Longrightarrow> current_contract e = me \<Longrightarrow>
    lz_cfg_ok plain home cfg \<Longrightarrow> (\<And>t. plain t \<Longrightarrow> credit t w' \<le> tk_balance H t me w') \<Longrightarrow> lz_run H N L me plain credit home s w'"
| called: "lz_run H N L me plain credit home s w \<Longrightarrow> lz_exec H N L e op s w = Inr (s', w') \<Longrightarrow> current_contract e = me \<Longrightarrow>
    \<not> authorised e me \<Longrightarrow> lz_op_ok (lz_cfg_ok plain home) op \<Longrightarrow> lz_run H N L me plain credit home s' w'"
| outside: "lz_run H N L me plain credit home s w \<Longrightarrow>
    (\<And>t. plain t \<Longrightarrow> tk_balance H t me w - credit t w \<le> tk_balance H t me w' - credit t w') \<Longrightarrow> lz_run H N L me plain credit home s w'"

context lz_laws
begin

lemma take_value_keeps:
  assumes "take_value H e cfg x v w = Inr w'" "lz_cfg_ok plain home cfg" "plain t"
  shows "tk_balance H t c w' = tk_balance H t c w" "credit t w' = credit t w"
proof -
  have x: "t \<noteq> cf_xlm cfg" using assms(2,3) by (auto simp: lz_cfg_ok_def)
  have "tk_balance H t c w' = tk_balance H t c w \<and> credit t w' = credit t w"
  proof (cases "v = 0")
    case True
    with assms(1) show ?thesis by (simp add: take_value_def)
  next
    case False
    with assms(1) have tr: "token_transfer H e (cf_xlm cfg) x (current_contract e) v w = (Inr w' :: (CcError, _) res)" by (simp add: take_value_def)
    then have "credit t w' = credit t w" using credit_transfer by (auto simp: token_transfer_def rs)
    with token_transfer_moves(4) [OF tr, of t c] x show ?thesis by simp
  qed
  then show "tk_balance H t c w' = tk_balance H t c w" "credit t w' = credit t w" by blast+
qed

lemma lz_exec_covers:
  assumes ex: "lz_exec H N L e op s w = Inr (s', w')" and me: "current_contract e = me" "\<not> authorised e me"
    and inv: "cc_inv (lz_cfg_ok plain home) s" and op: "lz_op_ok (lz_cfg_ok plain home) op" and t: "plain t"
  shows "cc_inv (lz_cfg_ok plain home) s' \<and> slack H me t s w - credit t w \<le> slack H me t s' w' - credit t w'"
proof (cases op)
  case (LZ_Common c)
  with lz.cc_exec_slack [OF _ me inv _ t, of c] ex op show ?thesis by force
next
  case (LZ_Receive x org guid m v)
  from ex me(1) obtain cfg w1 w2 knd where cfg: "cs_config s = Some cfg"
    and cl: "ep_clear L (calling e (lb_endpoint (cf_bridge cfg))) (lb_endpoint (cf_bridge cfg)) me org me guid m w = Some w1"
    and tv: "take_value H e cfg x v w1 = Inr w2"
    and rest: "(if knd \<noteq> FILL then and_then (word_nth m 1) (\<lambda>i. on_fail H e (og_src_eid org) i s w2)
        else on_fill H N (lz_transport H L) e cfg (og_src_eid org) m s w2) = Inr (s', w')"
    unfolding LZ_Receive lz_exec.simps lz_receive_def Let_def by (auto simp: rs simp del: if_split)
  note cfg_ok = cc_inv_D(7) [OF inv cfg]
  have w2: "slack H me t s w - credit t w \<le> slack H me t s w2 - credit t w2"
    using clear_law [OF cl t] take_value_keeps(1) [OF tv cfg_ok t, of me] take_value_keeps(2) [OF tv cfg_ok t] by (simp add: slack_def)
  show ?thesis
  proof (cases "knd = FILL")
    case True
    with rest have "on_fill H N (lz_transport H L) e cfg (og_src_eid org) m s w2 = Inr (s', w')" by simp
    from lz.on_fill_slack [OF this me(1) inv cfg_ok] t w2 show ?thesis by force
  next
    case False
    with rest obtain i where "on_fail H e (og_src_eid org) i s w2 = Inr (s', w')" by (auto simp: rs)
    from lz.fail_slack(1) [OF this me(1) inv] lz.fail_slack(2,3) [OF this me(1) inv, of t] w2 show ?thesis by simp
  qed
next
  case (LZ_Compose x src guid ix m v)
  from ex me(1) obtain cfg tok oft w1 w2 where cfg: "cs_config s = Some cfg"
    and fnd: "find (\<lambda>(t, oft). oft = src) (lb_ofts (cf_bridge cfg)) = Some (tok, oft)"
    and cl: "ep_clear_compose L (calling e (lb_endpoint (cf_bridge cfg))) (lb_endpoint (cf_bridge cfg)) me src guid ix m w = Some w1"
    and tv: "take_value H e cfg x v w1 = Inr w2"
    and fu: "on_funds H N (lz_transport H L) e cfg (compose_eid m) tok (compose_amount m) (drop 60 m) None s w2 = Inr (s', w')"
    unfolding LZ_Compose lz_exec.simps lz_compose_def Let_def by (auto simp: rs split: if_splits)
  note cfg_ok = cc_inv_D(7) [OF inv cfg]
  from fnd have "(tok, oft) \<in> set (lb_ofts (cf_bridge cfg))" "oft = src" by (auto simp: find_Some_iff in_set_conv_nth)
  with cfg_ok have home: "home src = tok" by (auto simp: lz_cfg_ok_def)
  have w2: "slack H me t s w - credit t w \<le> slack H me t s w2 - credit t w2 - (if tok = t then compose_amount m else 0)"
    using compose_law [OF cl t] take_value_keeps(1) [OF tv cfg_ok t, of me] take_value_keeps(2) [OF tv cfg_ok t] home by (simp add: slack_def)
  have "0 \<le> compose_amount m" using compose_law [OF cl t] by simp
  from lz.funds_slack [OF fu me(1) inv cfg_ok this t] w2 show ?thesis by (auto split: if_splits)
qed

lemma lz_run_covers:
  assumes "lz_run H N L me plain credit home s w" "plain t"
  shows "cc_inv (lz_cfg_ok plain home) s \<and> credit t w \<le> slack H me t s w"
  using assms(1)
proof (induction rule: lz_run.induct)
  case (deployed e admin gd dl cfg w s w')
  then have "s = cs_empty\<lparr>cs_timelock := init dl gd tl_empty, cs_admin := Some admin, cs_config := Some cfg\<rparr>"
    by (auto simp: cc_constructor_def Let_def cs_empty_def rs)
  with deployed(3) deployed(4) [OF assms(2)] show ?case
    by (auto simp: cc_inv_def slack_def escrow_def held_def map_total_def total_over_def cs_empty_def tl_empty_def init_def)
next
  case (called s w e op s' w')
  with lz_exec_covers [OF called(2,3,4) _ called(5) assms(2)] show ?case by force
next
  case (outside s w w')
  from outside(2) [OF assms(2)] outside(3) show ?case by (simp add: slack_def)
qed

end

end
