(* ===== verification/Crosschain_World.thy ===== *)
theory Crosschain_World
  imports Cctp Lz Rfq_Settlement Ledger
begin

text \<open>
  Worlds around the cross-chain settlement contract, built of the repository's own contracts where it has them: the RFQ
  contract that quotes and knows signers and cancelled salts, the ed25519 verifier, test tokens. The CCTP contracts and the
  LayerZero endpoint and OFTs are outside the repository: what stands for them moves tokens as documented. The two worlds
  meet \<open>cctp_laws\<close> and \<open>lz_laws\<close>.
\<close>

subsection \<open>The contracts called\<close>

text \<open>\<open>contracts/verifier/src/lib.rs\<close>: \<open>ed25519_verify\<close> behind a call, whose trap its caller can catch.\<close>

definition verifier_verify :: "crypto \<Rightarrow> bytes32 \<Rightarrow> byte list \<Rightarrow> 512 word \<Rightarrow> (unit, unit) res" where
  "verifier_verify C key message signature =
    (if ed25519_ok C key message signature then Inr () else Inl (Trap CallFailed))"

fun slot_bytes :: "slot \<Rightarrow> byte list" where
  "slot_bytes (Slot_Peer n) = 0 # varint n"
| "slot_bytes (Slot_Route n a) = 1 # varint n @ scval_address a"
| "slot_bytes (Slot_Vault a) = 2 # scval_address a"

definition cc_quote_of :: "Quote \<Rightarrow> CcQuote" where
  "cc_quote_of q = \<lparr>cq_maker_amount = qt_maker_amount q, cq_fee = qt_fee q, cq_horizon_seconds = qt_horizon_seconds q\<rparr>"

text \<open>No redemption vault is deployed here: calls to one fail.\<close>

definition cc_fns :: "crypto \<Rightarrow> 'w host \<Rightarrow> ('w \<Rightarrow> ledger) \<Rightarrow> rfq \<Rightarrow> 'w cc_host" where
  "cc_fns C H lg rs =
    \<lparr>ch_crypto = C, ch_from_xdr = scval_parse, ch_slot_xdr = slot_bytes,
     ch_hash_request = (\<lambda>e a r w. Some (hash_request C e r)),
     ch_quote_rfq_order = (\<lambda>e a ro x w. map_option cc_quote_of (try_call (quote_rfq_order H e ro x rs w))),
     ch_is_order_signer = (\<lambda>e a maker k w. Some (is_signer rs maker k)),
     ch_is_salt_cancelled = (\<lambda>e a maker salt w. Some (is_salt_cancelled rs maker salt)),
     ch_vault_init = (\<lambda>e v w. None),
     ch_request_redeem = (\<lambda>e au v a x b w. None),
     ch_claim = (\<lambda>e v a n x b w. None),
     ch_ct_of = (\<lambda>e v n w. None),
     ch_verify = (\<lambda>e a k m sg w. try_call (verifier_verify C k m (word_rcat sg))),
     ch_decimals = (\<lambda>e tok w. map_option fst (tt_meta (fst (lg w) tok)))\<rparr>"

lemma cc_fns_simps [simp]:
  "ch_crypto (cc_fns C H lg rs) = C" "ch_from_xdr (cc_fns C H lg rs) = scval_parse"
  "ch_claim (cc_fns C H lg rs) e v a n x b w = None" "ch_request_redeem (cc_fns C H lg rs) e au v a x b w = None"
  "ch_ct_of (cc_fns C H lg rs) e v n w = None"
  "ch_is_order_signer (cc_fns C H lg rs) e a m k w = Some (is_signer rs m k)"
  by (simp_all add: cc_fns_def)

lemma quote_fee_nonneg: "quote_rfq_order H e ro x rs w = Inr q \<Longrightarrow> 0 \<le> qt_fee q"
proof -
  assume "quote_rfq_order H e ro x rs w = Inr q"
  then obtain m where "rfq_mul_div m (int (ro_fee_bps ro)) BPS = Inr (qt_fee q)"
    by (auto simp: quote_rfq_order_def and_then_Inr_iff)
  then show "0 \<le> qt_fee q" by (auto simp: rfq_mul_div_Inr_iff dest: mul_div_nonneg)
qed

lemma cc_fns_laws:
  assumes "sep41_host H" "\<And>k. \<not> is_signer rs (Contract m) k"
    and "\<And>e tok a b x w w' t. tk_transfer H e tok a b x w = Some w' \<Longrightarrow> credit t w' = credit t w"
    and "\<And>e tok p a b x w w' t. tk_transfer_from H e tok p a b x w = Some w' \<Longrightarrow> credit t w' = credit t w"
  shows "cc_outside H (cc_fns C H lg rs) (Contract m) plain credit"
proof -
  have quote: "0 \<le> cq_fee q" if "ch_quote_rfq_order (cc_fns C H lg rs) e a ro x w = Some q" for e a ro x w q
    using that quote_fee_nonneg by (auto simp: cc_fns_def cc_quote_of_def rs)
  have "wire_address scval_parse k False \<noteq> (Inr (Contract m) :: (CcError, address) res)" for k
    by (simp add: plain_wire.address_of_key)
  with assms quote show ?thesis
    by (intro cc_outside.intro cc_outside_axioms.intro) simp_all
qed

subsection \<open>A CCTP deployment\<close>

definition rfq_addr :: address where "rfq_addr = Contract 20"
definition verifier_addr :: address where "verifier_addr = Contract 21"
definition xlm_addr :: address where "xlm_addr = Contract 22"
definition transmitter_addr :: address where "transmitter_addr = Contract 23"
definition messenger_addr :: address where "messenger_addr = Contract 24"
definition endpoint_addr :: address where "endpoint_addr = Contract 25"
definition oft_a :: address where "oft_a = Contract 26"
definition oft_b :: address where "oft_b = Contract 27"

lemmas cc_addrs = rfq_addr_def verifier_addr_def xlm_addr_def transmitter_addr_def messenger_addr_def endpoint_addr_def oft_a_def oft_b_def

definition plain_tokens :: "address \<Rightarrow> bool" where "plain_tokens t \<longleftrightarrow> t \<in> {token_a, token_b}"

text \<open>
  The messenger takes what it burns with the caller's approval; the transmitter pays a burn received, whose amount stands
  at byte 216 of the message, out of a reserve of \<open>token_b\<close>, which every remote token named \<open>7\<close> is linked to.
\<close>

definition cctp_net :: "ledger cctp_host" where
  "cctp_net =
    \<lparr>mt_send_message = (\<lambda>e tr a chain rcp dc f m w. Some w),
     mt_receive_message = (\<lambda>e tr a m att w.
       map_option (Pair True) (tk_transfer ledger_host (calling e token_b) token_b tr a (uint (of_bytes (take 32 (drop 216 m)))) w)),
     tm_deposit_for_burn_with_hook = (\<lambda>e ms a x chain rcp tok dc fee f m w.
       tk_transfer_from ledger_host (calling e tok) tok ms a ms x w),
     tm_get_local_token = (\<lambda>e ms chain remote w. Some (if remote = 7 then Some token_b else None))\<rparr>"

abbreviation cctp_fns :: "ledger cc_host" where "cctp_fns \<equiv> cc_fns plain_crypto ledger_host (\<lambda>w. w) demo_rfq"

lemma demo_rfq_signers: "\<not> is_signer demo_rfq a k" by (simp add: is_signer_def demo_rfq_def rfq_empty_def)

interpretation cctp_demo: cctp_laws ledger_host cctp_fns this_contract plain_tokens cctp_net
proof -
  have "cc_outside ledger_host cctp_fns this_contract plain_tokens (\<lambda>_ _. 0)"
    unfolding this_contract_def by (rule cc_fns_laws [OF ledger.sep41_host_axioms demo_rfq_signers]) simp_all
  moreover have "cctp_laws_axioms ledger_host this_contract plain_tokens cctp_net"
  proof
    fix e tr m att w b w' t
    assume "mt_receive_message cctp_net e tr this_contract m att w = Some (b, w')"
    then show "tk_balance ledger_host t this_contract w \<le> tk_balance ledger_host t this_contract w'"
      by (auto simp: cctp_net_def moved_def dest!: ledger.host_transfer)
  next
    fix e ms x chain rcp tok dc fee f m w w' t
    assume "tm_deposit_for_burn_with_hook cctp_net e ms this_contract x chain rcp tok dc fee f m w = Some w'"
    then show "tk_balance ledger_host t this_contract w - (if t = tok then x else 0) \<le> tk_balance ledger_host t this_contract w'"
      by (auto simp: cctp_net_def moved_def dest!: ledger.host_transfer_from)
  qed (simp add: cctp_net_def)
  ultimately show "cctp_laws ledger_host cctp_fns this_contract plain_tokens cctp_net" by (rule cctp_laws.intro)
qed

subsection \<open>A LayerZero deployment\<close>

text \<open>
  The world has, beside the ledger, what each OFT has minted to the contract and not composed yet. An OFT burns by a
  transfer to itself, with the caller's signature for it, and pays the endpoint.
\<close>

type_synonym lz_world = "ledger \<times> (address \<Rightarrow> int)"

abbreviation lz_tokens :: "lz_world host" where "lz_tokens \<equiv> host_beside ledger_host"

interpretation lzt: sep41_host lz_tokens by (rule host_beside_sep41 [OF ledger.sep41_host_axioms])

definition home_of :: "address \<Rightarrow> address" where "home_of oft = (if oft = oft_a then token_a else token_b)"

definition unsent_fee :: MessagingFee where "unsent_fee = \<lparr>mf_native_fee = 3, mf_zro_fee = 0\<rparr>"

definition sent_receipt :: MessagingReceipt where "sent_receipt = \<lparr>mr_guid = 0, mr_nonce = 1, mr_fee = unsent_fee\<rparr>"

text \<open>A transfer the caller one level up has signed for.\<close>

definition signed_transfer :: "env \<Rightarrow> address \<Rightarrow> address \<Rightarrow> address \<Rightarrow> int \<Rightarrow> lz_world \<Rightarrow> lz_world option" where
  "signed_transfer e tok a b x w = tk_transfer lz_tokens ((calling e tok)\<lparr>invoker := Some a\<rparr>) tok a b x w"

fun oft_moves :: "env \<Rightarrow> Auth list \<Rightarrow> address \<Rightarrow> lz_world \<Rightarrow> lz_world option" where
  "oft_moves e [b, p] oft w =
    (case (au_args b, au_args p) of
       ([AddressVal a, I128Val x], [AddressVal c, AddressVal d, I128Val y]) \<Rightarrow>
         Option.bind (signed_transfer e (au_contract b) a oft x w) (signed_transfer e (au_contract p) c d y)
     | _ \<Rightarrow> None)"
| "oft_moves e _ oft w = None"

definition lz_net :: "lz_world lz_host" where
  "lz_net =
    \<lparr>ep_quote = (\<lambda>e ep a p w. Some unsent_fee),
     ep_send = (\<lambda>e ep a p ra w. Some (sent_receipt, w)),
     ep_clear = (\<lambda>e ep a org me guid m w. Some w),
     ep_clear_compose = (\<lambda>e ep a src guid ix m w.
       if 0 \<le> compose_amount m \<and> compose_amount m \<le> snd w (home_of src)
       then Some (fst w, (snd w)(home_of src := snd w (home_of src) - compose_amount m)) else None),
     ep_set_delegate = (\<lambda>e ep a d w. Some w),
     oft_quote_send = (\<lambda>e oft a p z w. Some unsent_fee),
     oft_send = (\<lambda>e auths oft a p f ra w.
       map_option (\<lambda>w. ((sent_receipt, \<lparr>ot_amount_sent_ld = sp_amount_ld p, ot_amount_received_ld = sp_amount_ld p\<rparr>), w)) (oft_moves e auths oft w))\<rparr>"

definition lz_credit :: "address \<Rightarrow> lz_world \<Rightarrow> int" where "lz_credit t w = snd w t"

lemma lz_tokens_credit:
  "tk_transfer lz_tokens e tok a b x w = Some w' \<Longrightarrow> lz_credit t w' = lz_credit t w"
  "tk_transfer_from lz_tokens e tok p a b x w = Some w' \<Longrightarrow> lz_credit t w' = lz_credit t w"
  by (auto simp: host_beside_def beside_Some lz_credit_def)

abbreviation lz_fns :: "lz_world cc_host" where "lz_fns \<equiv> cc_fns plain_crypto lz_tokens fst demo_rfq"

interpretation lz_demo: lz_laws lz_tokens lz_fns this_contract plain_tokens lz_credit lz_net home_of
proof -
  have "cc_outside lz_tokens lz_fns this_contract plain_tokens lz_credit"
    unfolding this_contract_def
    by (rule cc_fns_laws [OF lzt.sep41_host_axioms demo_rfq_signers]) (erule lz_tokens_credit)+
  moreover have "lz_laws_axioms lz_tokens this_contract plain_tokens lz_credit lz_net home_of"
  proof
    fix e and ep src :: address and guid ix m w w' t
    assume "ep_clear_compose lz_net e ep this_contract src guid ix m w = Some w'"
    then show "tk_balance lz_tokens t this_contract w \<le> tk_balance lz_tokens t this_contract w' \<and> 0 \<le> compose_amount m \<and>
        lz_credit t w' = lz_credit t w - (if home_of src = t then compose_amount m else 0)"
      by (auto simp: lz_net_def host_beside_def lz_credit_def split: if_splits)
  next
    fix e tok x xlm ep y oft sp f ra w rc w' t
    assume "oft_send lz_net e [auth_entry tok ''burn'' [AddressVal this_contract, I128Val x],
        auth_entry xlm ''transfer'' [AddressVal this_contract, AddressVal ep, I128Val y]] oft this_contract sp f ra w = Some (rc, w')"
      and t: "t \<noteq> xlm"
    then obtain v where v: "signed_transfer e tok this_contract oft x w = Some v" "signed_transfer e xlm this_contract ep y v = Some w'"
      by (auto simp: lz_net_def auth_entry_def bind_eq_Some_conv)
    have "lz_credit t w' = lz_credit t w" using v unfolding signed_transfer_def by (auto dest!: lz_tokens_credit(1) [where t = t])
    with v t show "tk_balance lz_tokens t this_contract w - (if t = tok then x else 0) \<le> tk_balance lz_tokens t this_contract w' \<and>
        lz_credit t w' = lz_credit t w"
      unfolding signed_transfer_def by (auto simp: moved_def dest!: lzt.host_transfer)
  qed (simp_all add: lz_net_def)
  ultimately show "lz_laws lz_tokens lz_fns this_contract plain_tokens lz_credit lz_net home_of" by (rule lz_laws.intro)
qed

end
