(* ===== verification/Crosschain_Runs.thy ===== *)
theory Crosschain_Runs
  imports Crosschain_World
begin

text \<open>
  What the operations of the cross-chain settlement contract keep, what a delivery adds to what an address holds or is
  owed (\<open>due\<close>), and concrete runs in the worlds of \<open>Crosschain_World\<close>: deployment, a peer and a route through the timelock, a
  fill, its settlement over CCTP, and the same fill over LayerZero.
\<close>

subsection \<open>Used bids stay used\<close>

lemma send_or_hold_keeps:
  "send_or_hold H e tok to x s w = Inr (s', w') \<Longrightarrow> cs_used s' = cs_used s \<and> cs_orders s' = cs_orders s \<and> cs_filled s' = cs_filled s"
  by (auto simp: send_or_hold_def rs split: if_splits option.splits)

lemma route_rwa_keeps:
  "route_rwa H N T e cfg i ord s w = Inr (s', w') \<Longrightarrow> cs_used s' = cs_used s \<and> cs_orders s' = cs_orders s \<and> cs_filled s' = cs_filled s"
  unfolding route_rwa_def Let_def by (auto simp: rs split: if_splits dest!: send_or_hold_keeps)

lemma on_funds_used: "on_funds H N T e cfg chain tok x m rl s w = Inr (s', w') \<Longrightarrow> cs_used s' = cs_used s"
  unfolding on_funds_def Let_def
  by (auto simp: rs split: if_splits dest!: send_or_hold_keeps route_rwa_keeps)

lemma on_fail_used: "on_fail H e chain i s w = Inr (s', w') \<Longrightarrow> cs_used s' = cs_used s"
  unfolding on_fail_def Let_def by (auto simp: rs dest!: send_or_hold_keeps)

lemma cc_pay_used: "cc_pay H N T e cfg chain m s w = Inr (Inr (s', w')) \<Longrightarrow> cs_used s \<subseteq>\<^sub>m cs_used s'"
  by (elim cc_pay_Inr) (auto simp: map_le_def)

lemma on_fill_Inr:
  assumes "on_fill H N T e cfg chain m s w = Inr (s', w')"
  obtains (paid) "cc_pay H N T e cfg chain m s w = Inr (Inr (s', w'))"
    | (failed) err i where "cc_pay H N T e cfg chain m s w = Inr (Inl err)" "word_nth m 1 = (Inr i :: (CcError, _) res)"
        "tp_send T e cfg chain (about FAIL i) (current_contract e) s w = Inr w'" "s' = s"
proof -
  from assms obtain r where r: "cc_pay H N T e cfg chain m s w = Inr r" by (auto simp: on_fill_def rs)
  show thesis
  proof (cases r)
    case (Inl err)
    with assms r failed show thesis by (auto simp: on_fill_def rs)
  next
    case (Inr sw)
    with assms r paid show thesis by (cases sw) (auto simp: on_fill_def rs)
  qed
qed

lemma on_fill_used: "on_fill H N T e cfg chain m s w = Inr (s', w') \<Longrightarrow> cs_used s \<subseteq>\<^sub>m cs_used s'"
  by (elim on_fill_Inr) (auto dest: cc_pay_used)

lemma cc_accept_used:
  assumes "cc_accept T e k s w = Inr s'"
  shows "cs_used s' = cs_used s"
proof -
  from assms obtain c v where "tl_pending (cs_timelock s) k = Some (c, v)" by (auto simp: cc_accept_def rs Let_def)
  with assms show ?thesis by (cases c) (auto simp: cc_accept_def rs Let_def)
qed

lemma governance_used:
  "cc_submit N T e c s w = Inr (v, s') \<Longrightarrow> cs_used s' = cs_used s"
  "cc_revoke e k a s = Inr s' \<Longrightarrow> cs_used s' = cs_used s"
  "cc_withdraw H e a tok s w = Inr (s', w') \<Longrightarrow> cs_used s' = cs_used s"
  "push_claim H N T e a i s w = Inr (n, s', w') \<Longrightarrow> cs_used s' = cs_used s"
  by (auto simp: cc_submit_def cc_revoke_def cc_withdraw_def push_claim_def Let_def rs
      dest!: send_or_hold_keeps)

lemma cc_exec_used: "cc_exec H N T e op s w = Inr (s', w') \<Longrightarrow> cs_used s' = cs_used s"
proof (cases op)
  case (CO_Fill r chain bid sig)
  assume "cc_exec H N T e op s w = Inr (s', w')"
  then obtain i where "cc_fill H N T e r chain bid sig s w = Inr (i, s', w')" unfolding CO_Fill cc_exec_Inr by blast
  then show ?thesis by (rule cc_fill_Inr) simp
qed (simp_all only: cc_exec_Inr, auto dest: governance_used cc_accept_used)

lemma cctp_exec_used: "cctp_exec H N M e op s w = Inr (s', w') \<Longrightarrow> cs_used s \<subseteq>\<^sub>m cs_used s'"
  by (cases op) (auto simp: handle_recv_finalized_message_def cctp_execute_def complete_def Let_def rs
      split: if_splits dest!: cc_exec_used on_fail_used on_fill_used on_funds_used)

lemma lz_exec_used: "lz_exec H N L e op s w = Inr (s', w') \<Longrightarrow> cs_used s \<subseteq>\<^sub>m cs_used s'"
  by (cases op) (auto simp: lz_receive_def lz_compose_def Let_def rs
      split: if_splits dest!: cc_exec_used on_fail_used on_fill_used on_funds_used)

subsection \<open>Deliveries\<close>

text \<open>What a delivery adds: \<open>due\<close> is what an address holds of a token or can withdraw from the contract.\<close>

definition due :: "'w host \<Rightarrow> address \<Rightarrow> address \<Rightarrow> 'b cross_chain \<Rightarrow> 'w \<Rightarrow> int" where
  "due H a t s w = tk_balance H t a w + cc_owed a t s"

context sep41_host
begin

lemma send_or_hold_due:
  assumes "send_or_hold H e tok to x s w = Inr (s', w')" "a \<noteq> current_contract e"
  shows "due H a t s' w' = due H a t s w + (if a = to \<and> t = tok then max 0 x else 0)"
proof (cases "x \<le> 0 \<or> tk_transfer H (calling e tok) tok (current_contract e) to x w = None")
  case True
  with assms show ?thesis by (auto simp: send_or_hold_def due_def cc_owed_def rs split: if_splits option.splits)
next
  case False
  with assms have "s' = s" "tk_transfer H (calling e tok) tok (current_contract e) to x w = Some w'"
    by (auto simp: send_or_hold_def split: if_splits)
  with assms(2) host_transfer [OF this(2)] False show ?thesis by (auto simp: due_def moved_def)
qed

end

lemma cc_fill_order:
  assumes "cc_fill H N T e r chain bid sig s w = Inr (i, s', w')" "rq_taker r = Some taker"
    "wire_address (ch_from_xdr N) (bd_recipient bid) (bd_recipient_is_contract bid) = (Inr rcp :: (CcError, _) res)"
  obtains ord where "cs_orders s' i = Some ord" "od_taker ord = taker" "od_chain ord = chain" "od_rwa ord = rq_taker_token r"
    "od_units ord = rq_taker_amount r" "od_stable ord = rq_maker_token r" "od_delivery ord = bd_delivery bid" "od_recipient ord = rcp"
    "rq_min_received_amount r \<le> od_amount ord - od_fee ord - od_tip ord"
proof (rule cc_fill_Inr [OF assms(1)])
  fix cfg taker' tip q recipient ord u w1 w2 xlm amount
  assume c: "rq_taker r = Some taker'" "cc_quote N e cfg r bid tip w = Inr q"
    and ord: "ord = \<lparr>od_taker = taker', od_chain = chain, od_rwa = rq_taker_token r, od_units = rq_taker_amount r,
      od_stable = rq_maker_token r, od_amount = cq_maker_amount q, od_fee = cq_fee q, od_tip = tip,
      od_fee_recipient = rq_fee_recipient r, od_delivery = bd_delivery bid, od_recipient = recipient,
      od_maker = bd_maker bid, od_maker_is_contract = bd_maker_is_contract bid\<rparr>"
    and s': "s' = s\<lparr>cs_filled := (cs_filled s)(i \<mapsto> True), cs_orders := (cs_orders s)(i \<mapsto> ord)\<rparr>"
    and "wire_address (ch_from_xdr N) (bd_recipient bid) (bd_recipient_is_contract bid) = (Inr recipient :: (CcError, _) res)"
  then have "recipient = rcp" using assms(3) by simp
  moreover have "rq_min_received_amount r \<le> cq_maker_amount q - cq_fee q - tip" using c(2) by (rule cc_quote_Inr)
  ultimately show thesis using c(1) assms(2) by (intro that [of ord]) (simp_all add: s' ord)
qed

lemma on_funds_paid:
  assumes "on_funds H N T e cfg chain tok amount payload rl s w = Inr (s', w')" "wire_kind payload = (Inr PAID :: (CcError, _) res)"
    "word_nth payload 1 = (Inr i :: (CcError, _) res)"
  obtains ord s1 w1 s2 w2 s3 w3 where "cs_orders s i = Some ord" "od_chain ord = chain" "od_stable ord = tok" "od_amount ord \<le> amount"
    "send_or_hold H e tok (od_taker ord) (amount - od_fee ord - od_tip ord) (s\<lparr>cs_orders := (cs_orders s)(i := None)\<rparr>) w = Inr (s1, w1)"
    "send_or_hold H e tok (od_fee_recipient ord) (od_fee ord) s1 w1 = Inr (s2, w2)"
    "send_or_hold H e tok (case rl of None \<Rightarrow> od_taker ord | Some rl \<Rightarrow> rl) (od_tip ord) s2 w2 = Inr (s3, w3)"
    "route_rwa H N T e cfg i ord s3 w3 = Inr (s', w')"
proof -
  have ne: "PAID \<noteq> PAYOUT" by (simp add: wire_consts)
  from assms obtain ord where o: "cs_orders s i = Some ord" "od_chain ord = chain" "od_stable ord = tok" "od_amount ord \<le> amount"
    by (auto simp: on_funds_def Let_def cc_order_def rs not_less ne split: option.splits if_splits)
  with assms that [of ord] show thesis
    by (auto simp: on_funds_def Let_def cc_order_def rs ne)
qed

context sep41_host
begin

lemma send_or_hold_gains:
  assumes "send_or_hold H e tok to x s w = Inr (s', w')"
  shows "a \<noteq> current_contract e \<Longrightarrow> due H a t s w \<le> due H a t s' w'"
    "to \<noteq> current_contract e \<Longrightarrow> due H to tok s w + x \<le> due H to tok s' w'"
  using send_or_hold_due [OF assms] by simp_all

lemma cross_delivery_pays:
  assumes fu: "on_funds H N T e cfg chain tok amount payload rl s w = Inr (s', w')" "wire_kind payload = (Inr PAID :: (CcError, _) res)"
    "word_nth payload 1 = (Inr i :: (CcError, _) res)" and ord: "cs_orders s i = Some ord" "od_delivery ord = DELIVER"
  shows "od_chain ord = chain \<and> od_stable ord = tok \<and> cs_orders s' = (cs_orders s)(i := None) \<and> cs_filled s' = cs_filled s"
    "od_taker ord \<noteq> current_contract e \<Longrightarrow>
      od_amount ord - od_fee ord - od_tip ord \<le> due H (od_taker ord) (od_stable ord) s' w' - due H (od_taker ord) (od_stable ord) s w"
    "od_recipient ord \<noteq> current_contract e \<Longrightarrow>
      od_units ord \<le> due H (od_recipient ord) (od_rwa ord) s' w' - due H (od_recipient ord) (od_rwa ord) s w"
proof -
  let ?s = "s\<lparr>cs_orders := (cs_orders s)(i := None)\<rparr>"
  from fu obtain ord' s1 w1 s2 w2 s3 w3 where o: "cs_orders s i = Some ord'" "od_chain ord' = chain" "od_stable ord' = tok" "od_amount ord' \<le> amount"
    and p: "send_or_hold H e tok (od_taker ord') (amount - od_fee ord' - od_tip ord') ?s w = Inr (s1, w1)"
      "send_or_hold H e tok (od_fee_recipient ord') (od_fee ord') s1 w1 = Inr (s2, w2)"
      "send_or_hold H e tok (case rl of None \<Rightarrow> od_taker ord' | Some rl \<Rightarrow> rl) (od_tip ord') s2 w2 = Inr (s3, w3)"
    and rt: "route_rwa H N T e cfg i ord' s3 w3 = Inr (s', w')"
    by (rule on_funds_paid)
  from o(1) ord(1) have eq: "ord' = ord" by simp
  have d: "send_or_hold H e (od_rwa ord) (od_recipient ord) (od_units ord) s3 w3 = Inr (s', w')"
    using rt ord(2) by (simp add: route_rwa_def eq)
  have keep: "due H a t ?s w = due H a t s w" for a t by (simp add: due_def cc_owed_def)
  note more = send_or_hold_gains(1) [OF p(1)] send_or_hold_gains(1) [OF p(2)] send_or_hold_gains(1) [OF p(3)] send_or_hold_gains(1) [OF d]
  from p d o show "od_chain ord = chain \<and> od_stable ord = tok \<and> cs_orders s' = (cs_orders s)(i := None) \<and> cs_filled s' = cs_filled s"
    by (simp add: send_or_hold_keeps eq)
  show "od_taker ord \<noteq> current_contract e \<Longrightarrow>
      od_amount ord - od_fee ord - od_tip ord \<le> due H (od_taker ord) (od_stable ord) s' w' - due H (od_taker ord) (od_stable ord) s w"
    using send_or_hold_gains(2) [OF p(1)] more(2-4) [of "od_taker ord" tok] o(3,4) by (simp add: keep eq)
  show "od_recipient ord \<noteq> current_contract e \<Longrightarrow>
      od_units ord \<le> due H (od_recipient ord) (od_rwa ord) s' w' - due H (od_recipient ord) (od_rwa ord) s w"
    using send_or_hold_gains(2) [OF d] more(1-3) [of "od_recipient ord" "od_rwa ord"] by (simp add: keep)
qed

lemma cross_refund_pays:
  assumes "on_fail H e chain i s w = Inr (s', w')" "cs_orders s i = Some ord" "od_taker ord \<noteq> current_contract e" "0 \<le> od_units ord"
  shows "od_chain ord = chain \<and> cs_orders s' i = None \<and> cs_filled s' i = None \<and>
    due H (od_taker ord) (od_rwa ord) s' w' = due H (od_taker ord) (od_rwa ord) s w + od_units ord"
proof -
  let ?s = "s\<lparr>cs_orders := (cs_orders s)(i := None), cs_filled := (cs_filled s)(i := None)\<rparr>"
  from assms(1,2) have c: "od_chain ord = chain" and so: "send_or_hold H e (od_rwa ord) (od_taker ord) (od_units ord) ?s w = Inr (s', w')"
    by (auto simp: on_fail_def cc_order_def rs Let_def split: if_splits)
  have "due H a t ?s w = due H a t s w" for a t by (simp add: due_def cc_owed_def)
  with send_or_hold_due [OF so] send_or_hold_keeps [OF so] c assms(3,4) show ?thesis by simp
qed

end

subsection \<open>A run for the witnesses\<close>

lemma cc_distinct [simp]:
  "endpoint_addr \<noteq> alice" "alice \<noteq> endpoint_addr" "endpoint_addr \<noteq> this_contract" "this_contract \<noteq> endpoint_addr"
  "endpoint_addr \<noteq> bob" "endpoint_addr \<noteq> transmitter_addr"
  "xlm_addr \<noteq> alice" "alice \<noteq> xlm_addr" "xlm_addr \<noteq> bob" "bob \<noteq> xlm_addr" "xlm_addr \<noteq> carol"
  "carol \<noteq> xlm_addr" "xlm_addr \<noteq> this_contract" "this_contract \<noteq> xlm_addr" "xlm_addr \<noteq> token_a" "token_a \<noteq> xlm_addr"
  "xlm_addr \<noteq> token_b" "token_b \<noteq> xlm_addr" "transmitter_addr \<noteq> alice" "alice \<noteq> transmitter_addr" "transmitter_addr \<noteq> bob"
  "bob \<noteq> transmitter_addr" "transmitter_addr \<noteq> carol" "carol \<noteq> transmitter_addr" "transmitter_addr \<noteq> this_contract" "this_contract \<noteq> transmitter_addr"
  "transmitter_addr \<noteq> token_a" "token_a \<noteq> transmitter_addr" "transmitter_addr \<noteq> token_b" "token_b \<noteq> transmitter_addr" "messenger_addr \<noteq> alice"
  "alice \<noteq> messenger_addr" "messenger_addr \<noteq> bob" "bob \<noteq> messenger_addr" "messenger_addr \<noteq> carol" "carol \<noteq> messenger_addr"
  "messenger_addr \<noteq> this_contract" "this_contract \<noteq> messenger_addr" "messenger_addr \<noteq> token_a" "token_a \<noteq> messenger_addr" "messenger_addr \<noteq> token_b"
  "token_b \<noteq> messenger_addr" "oft_a \<noteq> alice" "alice \<noteq> oft_a" "oft_a \<noteq> bob" "bob \<noteq> oft_a"
  "oft_a \<noteq> carol" "carol \<noteq> oft_a" "oft_a \<noteq> this_contract" "this_contract \<noteq> oft_a" "oft_a \<noteq> token_a"
  "token_a \<noteq> oft_a" "oft_a \<noteq> token_b" "token_b \<noteq> oft_a" "oft_b \<noteq> alice" "alice \<noteq> oft_b"
  "oft_b \<noteq> bob" "bob \<noteq> oft_b" "oft_b \<noteq> carol" "carol \<noteq> oft_b" "oft_b \<noteq> this_contract"
  "this_contract \<noteq> oft_b" "oft_b \<noteq> token_a" "token_a \<noteq> oft_b" "oft_b \<noteq> token_b" "token_b \<noteq> oft_b"
  "xlm_addr \<noteq> transmitter_addr" "xlm_addr \<noteq> messenger_addr" "xlm_addr \<noteq> oft_a" "xlm_addr \<noteq> oft_b" "transmitter_addr \<noteq> xlm_addr"
  "transmitter_addr \<noteq> messenger_addr" "transmitter_addr \<noteq> oft_a" "transmitter_addr \<noteq> oft_b" "messenger_addr \<noteq> xlm_addr" "messenger_addr \<noteq> transmitter_addr"
  "messenger_addr \<noteq> oft_a" "messenger_addr \<noteq> oft_b" "oft_a \<noteq> xlm_addr" "oft_a \<noteq> transmitter_addr" "oft_a \<noteq> messenger_addr"
  "oft_a \<noteq> oft_b" "oft_b \<noteq> xlm_addr" "oft_b \<noteq> transmitter_addr" "oft_b \<noteq> messenger_addr" "oft_b \<noteq> oft_a"
  "carol \<noteq> this_contract" "this_contract \<noteq> carol"
  by (simp_all add: cc_addrs demo_defs)

definition cc_token :: token_state where
  "cc_token = \<lparr>tt_admin = None, tt_meta = Some (7, [], []),
     tt_balances = [alice \<mapsto> 10000, bob \<mapsto> 10000, transmitter_addr \<mapsto> 10000],
     tt_allowances = [(bob, this_contract) \<mapsto> \<lparr>al_amount = 10000, al_expiration_ledger = 10 ^ 6\<rparr>]\<rparr>"

definition cc_ledger :: ledger where "cc_ledger = (\<lambda>_. cc_token, \<lambda>_. po_empty)"

definition cc_demo_config :: "'b \<Rightarrow> 'b CcConfig" where
  "cc_demo_config b = \<lparr>cf_rfq = rfq_addr, cf_verifier = verifier_addr, cf_xlm = xlm_addr, cf_tip = 1, cf_bridge = b\<rparr>"

definition cctp_demo_bridge :: cctp_bridge where
  "cctp_demo_bridge = \<lparr>cb_transmitter = transmitter_addr, cb_messenger = messenger_addr\<rparr>"

definition demo_peer :: Peer where "demo_peer = \<lparr>pe_addr = 99, pe_return_fee = 5, pe_options = []\<rparr>"

definition cc_fresh :: "'b \<Rightarrow> 'b cross_chain" where
  "cc_fresh b = cs_empty\<lparr>cs_timelock := init 0 admin_addr tl_empty, cs_admin := Some admin_addr, cs_config := Some (cc_demo_config b)\<rparr>"

definition cc_demo :: "'b \<Rightarrow> 'b cross_chain" where
  "cc_demo b = (cc_fresh b)\<lparr>cs_peers := [1 \<mapsto> demo_peer], cs_routes := [(1, token_b) \<mapsto> 7]\<rparr>"

definition cross_request :: "int \<Rightarrow> nat \<Rightarrow> Request" where
  "cross_request floor fee_bps = \<lparr>rq_maker_token = token_b, rq_taker_token = token_a, rq_taker_amount = 400,
     rq_min_received_amount = floor, rq_fee_bps = fee_bps, rq_taker = Some alice, rq_sender = Some this_contract,
     rq_fee_recipient = carol, rq_expiry = 5000, rq_salt = 9, rq_taker_max_bps_per_day = 300, rq_order_type = Rfq\<rparr>"

definition cross_bid :: Bid where
  "cross_bid = \<lparr>bd_maker = 2, bd_maker_is_contract = False, bd_stable = 7, bd_max_amount = 100, bd_maker_bps_per_day = 250,
     bd_delivery = DELIVER, bd_recipient = 2, bd_recipient_is_contract = False, bd_deadline = 5000, bd_salt = 9\<rparr>"

definition cross_order :: "int \<Rightarrow> Order" where
  "cross_order fee = \<lparr>od_taker = alice, od_chain = 1, od_rwa = token_a, od_units = 400, od_stable = token_b, od_amount = 399,
     od_fee = fee, od_tip = 10, od_fee_recipient = carol, od_delivery = DELIVER, od_recipient = bob, od_maker = 2,
     od_maker_is_contract = False\<rparr>"

definition cc_filled_demo :: "'b \<Rightarrow> int \<Rightarrow> 'b cross_chain" where
  "cc_filled_demo b fee = (cc_demo b)\<lparr>cs_filled := [0 \<mapsto> True], cs_orders := [0 \<mapsto> cross_order fee]\<rparr>"

definition holding :: "(address \<rightharpoonup> int) \<Rightarrow> token_state" where
  "holding f = cc_token\<lparr>tt_balances := f\<rparr>"

definition cc_ledger_filled :: ledger where
  "cc_ledger_filled = ((fst cc_ledger)
    (token_a := holding ((tt_balances cc_token)(alice \<mapsto> 9600, this_contract \<mapsto> 400)),
     xlm_addr := holding ((tt_balances cc_token)(alice \<mapsto> 9995, this_contract \<mapsto> 5))), \<lambda>_. po_empty)"

lemmas cc_demo_defs = cc_token_def cc_ledger_def cc_demo_config_def cctp_demo_bridge_def demo_peer_def cc_fresh_def cc_demo_def
  cross_request_def cross_bid_def cs_empty_def tl_empty_def init_def

lemma cc_deployed:
  "tp_init T (user_env 10) (cc_demo_config b) admin_addr w = Inr w \<Longrightarrow>
   cc_constructor T (user_env 10) admin_addr admin_addr 0 (cc_demo_config b) cs_empty w = Inr (cc_fresh b, w)"
  by (simp add: cc_constructor_def cc_fresh_def) (simp add: cs_empty_def)

lemma cc_governed:
  fixes w :: 'w and b :: 'b and T :: "('b, 'w) transport"
  assumes crypto: "ch_crypto N = plain_crypto" and route: "tp_check_route T (user_env 10) (cc_demo_config b) 1 token_b 7 w = Inr ()"
  defines "k \<equiv> kind_of (\<lambda>_. 0) []" and "peered \<equiv> (cc_fresh b)\<lparr>cs_peers := [1 \<mapsto> demo_peer]\<rparr>"
  shows "\<exists>s. cc_exec H N T (user_env 10) (CO_Submit (CC_Peer 1 demo_peer)) (cc_fresh b) w = Inr (s, w) \<and>
      cc_exec H N T (user_env 10) (CO_Accept k) s w = Inr (peered, w)"
    "\<exists>s. cc_exec H N T (user_env 10) (CO_Submit (CC_Route 1 token_b (Some 7))) peered w = Inr (s, w) \<and>
      cc_exec H N T (user_env 10) (CO_Accept k) s w = Inr (cc_demo b, w)"
proof -
  note defs = k_def peered_def cc_submit_def cc_accept_def cc_admin_def cc_config_def check_change_def cc_kind_of_def crypto plain_crypto_def
    kind_of_def submit_def delay_def take_change_def cc_fresh_def cc_demo_def cs_empty_def tl_empty_def init_def arith_defs width_defs
    unwrap_def or_panic_def and_then_def panic_if_def map_err_def set_or_remove_def
  show "\<exists>s. cc_exec H N T (user_env 10) (CO_Submit (CC_Peer 1 demo_peer)) (cc_fresh b) w = Inr (s, w) \<and>
      cc_exec H N T (user_env 10) (CO_Accept k) s w = Inr (peered, w)"
    "\<exists>s. cc_exec H N T (user_env 10) (CO_Submit (CC_Route 1 token_b (Some 7))) peered w = Inr (s, w) \<and>
      cc_exec H N T (user_env 10) (CO_Accept k) s w = Inr (cc_demo b, w)"
    using route by (simp_all add: defs)
qed

lemma cc_demo_unit: "unit_of cctp_fns e token_b cc_ledger = Inr 10"
  by (simp add: unit_of_def cc_fns_def cc_ledger_def cc_token_def pow10_i128_def call_result_def arith_defs width_defs and_then_def Let_def)

lemma cc_demo_rfq_quote:
  fixes fee_bps :: nat
  assumes "fee_bps \<in> {100, 50000}" "ro_maker_token ro = token_b" "ro_taker_token ro = token_a" "ro_fee_bps ro = fee_bps"
    "ro_maker_bps_per_day ro = 250" "ro_taker_max_bps_per_day ro = 300"
  shows "ch_quote_rfq_order cctp_fns (calling (user_env 2000) rfq_addr) rfq_addr ro 400 cc_ledger =
     Some \<lparr>cq_maker_amount = 399, cq_fee = 399 * int fee_bps div 10000, cq_horizon_seconds = 86400\<rparr>"
  using assms
  by (auto simp: cc_fns_def cc_quote_of_def fill_eval calling_def user_env_def demo_env_def try_call_def)

lemma cc_demo_quote:
  fixes fee_bps :: nat
  assumes "fee_bps \<in> {100, 50000}" "floor \<le> 389 - 399 * int fee_bps div 10000"
  shows "cc_quote cctp_fns (user_env 2000) (cc_demo_config b) (cross_request floor fee_bps) cross_bid 10 cc_ledger =
     Inr \<lparr>cq_maker_amount = 399, cq_fee = 399 * int fee_bps div 10000, cq_horizon_seconds = 86400\<rparr>"
  using assms
  by (auto simp: cc_quote_def cc_demo_unit cross_request_def cross_bid_def cc_demo_config_def cc_demo_rfq_quote arith_defs width_defs)

lemma cc_demo_fill_steps:
  fixes N :: "'w cc_host" and T :: "('b, 'w) transport"
  assumes quote: "cc_quote N (user_env 2000) (cc_demo_config b) (cross_request floor fee_bps) cross_bid 10 w =
      Inr \<lparr>cq_maker_amount = 399, cq_fee = fee, cq_horizon_seconds = 86400\<rparr>"
    and unit: "unit_of N (user_env 2000) token_b w = Inr 10" and hash: "\<And>e a r. ch_hash_request N e a r w = Some 0"
    and xdr: "ch_from_xdr N = scval_parse"
    and t1: "token_transfer H (user_env 2000) token_a alice this_contract 400 w = (Inr w1 :: (CcError, _) res)"
    and t2: "token_transfer H (user_env 2000) xlm_addr alice this_contract 5 w1 = (Inr w2 :: (CcError, _) res)"
    and sd: "\<And>m s. cs_peers s = [1 \<mapsto> demo_peer] \<Longrightarrow> tp_send T (user_env 2000) (cc_demo_config b) 1 m alice s w2 = Inr w3"
  shows "cc_fill H N T (user_env 2000) (cross_request floor fee_bps) 1 cross_bid sig (cc_demo b) w = Inr (0, cc_filled_demo b fee, w3)"
proof -
  let ?r = "cross_request floor fee_bps"
  have r: "rq_taker ?r = Some alice" "rq_maker_token ?r = token_b" "rq_taker_token ?r = token_a" "rq_taker_amount ?r = 400" "rq_fee_recipient ?r = carol"
    by (simp_all add: cross_request_def)
  have bid: "bd_delivery cross_bid = DELIVER" "bd_recipient cross_bid = 2" "\<not> bd_recipient_is_contract cross_bid" "bd_maker cross_bid = 2"
    "\<not> bd_maker_is_contract cross_bid"
    by (simp_all add: cross_bid_def)
  have cfg: "cc_config (cc_demo b) = Inr (cc_demo_config b)" by (simp add: cc_demo_defs cc_config_def unwrap_def)
  have req: "check_request (user_env 2000) ?r 0 (cc_demo b) = Inr ()"
    by (simp add: check_request_def cc_demo_defs cc_filled_def)
  have check: "check_bid N (user_env 2000) ?r 1 cross_bid (cc_demo b) w = Inr ()"
    by (simp add: check_bid_def cc_demo_defs cc_route_def delivery_consts)
  have bob: "wire_address scval_parse 2 False = (Inr bob :: (CcError, _) res)" by (simp add: plain_wire.address_of_key bob_def)
  have c: "cf_tip (cc_demo_config b) = 1" "cf_xlm (cc_demo_config b) = xlm_addr" by (simp_all add: cc_demo_config_def)
  have s: "cs_peers (cc_demo b) = [1 \<mapsto> demo_peer]" "cs_filled (cc_demo b) = Map.empty" "cs_orders (cc_demo b) = Map.empty"
    by (simp_all add: cc_demo_defs)
  show ?thesis
    unfolding cc_fill_def
    by (simp add: cfg r or_panic_def req check hash unit c quote bid xdr bob t1 i128_quot_def peer_of_def cc_peer_def s
      arith_defs width_defs demo_peer_def t2 sd [unfolded demo_peer_def] Let_def cc_filled_demo_def cross_order_def delivery_consts del: One_nat_def)
qed

lemma cc_demo_fill:
  assumes "fee_bps \<in> {100, 50000}" "floor \<le> 389 - 399 * int fee_bps div 10000"
  shows "cc_fill ledger_host cctp_fns (cctp_transport ledger_host cctp_net) (user_env 2000) (cross_request floor fee_bps) 1 cross_bid sig
     (cc_demo cctp_demo_bridge) cc_ledger = Inr (0, cc_filled_demo cctp_demo_bridge (399 * int fee_bps div 10000), cc_ledger_filled)"
proof (rule cc_demo_fill_steps [OF cc_demo_quote [OF assms] cc_demo_unit])
  let ?l = "((fst cc_ledger)(token_a := holding ((tt_balances cc_token)(alice \<mapsto> 9600, this_contract \<mapsto> 400))), \<lambda>_. po_empty)"
  show "token_transfer ledger_host (user_env 2000) token_a alice this_contract 400 cc_ledger = (Inr ?l :: (CcError, _) res)"
    by (simp add: ledger_eval cc_ledger_def cc_token_def holding_def arith_defs width_defs Let_def try_call_def and_then_def)
  show "token_transfer ledger_host (user_env 2000) xlm_addr alice this_contract 5 ?l = (Inr cc_ledger_filled :: (CcError, _) res)"
    by (simp add: ledger_eval cc_ledger_filled_def cc_ledger_def cc_token_def holding_def arith_defs width_defs Let_def try_call_def and_then_def)
  show "ch_hash_request cctp_fns e a r cc_ledger = Some 0" for e a r by (simp add: cc_fns_def hash_request_def digest_def plain_crypto_def)
  show "tp_send (cctp_transport ledger_host cctp_net) (user_env 2000) (cc_demo_config cctp_demo_bridge) 1 m alice s cc_ledger_filled = Inr cc_ledger_filled"
    if "cs_peers s = [1 \<mapsto> demo_peer]" for m s
    using that by (simp add: cctp_transport_def cctp_send_def cctp_net_def peer_of_def cc_peer_def or_panic_def Let_def)
qed simp

text \<open>The same fill over LayerZero: the RFQ contract's answers depend on the ledger only.\<close>

lemma beside_oracle: "try_oracle (host_beside H) e a b s (w, g) = try_oracle H e a b s w"
  by (auto simp: try_oracle_def host_beside_def split: option.splits)

lemma beside_unit_price: "unit_price (host_beside H) e a s (w, g) = unit_price H e a s w"
  unfolding unit_price_def beside_oracle ..

lemma beside_price: "price_of (host_beside H) e a b s (w, g) = price_of H e a b s w"
  unfolding price_of_def beside_oracle beside_unit_price ..

lemma beside_unit: "unit_of lz_fns e t (w, g) = unit_of cctp_fns e t w"
  by (simp add: unit_of_def cc_fns_def)

lemma quote_rfq_beside: "ch_quote_rfq_order lz_fns e a ro x (w, g) = ch_quote_rfq_order cctp_fns e a ro x w"
  by (simp add: cc_fns_def quote_rfq_order_def beside_price)

lemma beside_quote: "cc_quote lz_fns e cfg r bid tip (w, g) = cc_quote cctp_fns e cfg r bid tip w"
  by (simp add: cc_quote_def beside_unit quote_rfq_beside)


definition lz_demo_bridge :: lz_bridge where
  "lz_demo_bridge = \<lparr>lb_endpoint = endpoint_addr, lb_ofts = [(token_a, oft_a), (token_b, oft_b)]\<rparr>"

definition lz_ledger_filled :: ledger where
  "lz_ledger_filled = ((fst cc_ledger)
    (token_a := holding ((tt_balances cc_token)(alice \<mapsto> 9600, this_contract \<mapsto> 400)),
     xlm_addr := holding ((tt_balances cc_token)(this_contract \<mapsto> 5, alice \<mapsto> 9992, endpoint_addr \<mapsto> 3))), \<lambda>_. po_empty)"

lemma beside_transfer:
  "token_transfer H e t a b x w = Inr w' \<Longrightarrow> token_transfer (host_beside H) e t a b x (w, g) = Inr (w', g)"
  by (auto simp: token_transfer_def host_beside_def beside_def rs)

lemma lz_demo_fill:
  "cc_fill lz_tokens lz_fns (lz_transport lz_tokens lz_net) (user_env 2000) (cross_request 300 100) 1 cross_bid sig
     (cc_demo lz_demo_bridge) (cc_ledger, g) = Inr (0, cc_filled_demo lz_demo_bridge 3, (lz_ledger_filled, g))"
proof (rule cc_demo_fill_steps)
  let ?l = "((fst cc_ledger)(token_a := holding ((tt_balances cc_token)(alice \<mapsto> 9600, this_contract \<mapsto> 400))), \<lambda>_. po_empty)"
  note ev = ledger_eval cc_ledger_filled_def lz_ledger_filled_def cc_ledger_def cc_token_def holding_def arith_defs width_defs Let_def try_call_def and_then_def
  show "cc_quote lz_fns (user_env 2000) (cc_demo_config lz_demo_bridge) (cross_request 300 100) cross_bid 10 (cc_ledger, g) =
      Inr \<lparr>cq_maker_amount = 399, cq_fee = 3, cq_horizon_seconds = 86400\<rparr>"
    using cc_demo_quote [of 100 300 lz_demo_bridge] by (simp add: beside_quote)
  show "unit_of lz_fns (user_env 2000) token_b (cc_ledger, g) = Inr 10" by (simp add: beside_unit cc_demo_unit)
  show "token_transfer lz_tokens (user_env 2000) token_a alice this_contract 400 (cc_ledger, g) = (Inr (?l, g) :: (CcError, _) res)"
    by (rule beside_transfer) (simp add: ev)
  show "token_transfer lz_tokens (user_env 2000) xlm_addr alice this_contract 5 (?l, g) = (Inr (cc_ledger_filled, g) :: (CcError, _) res)"
    by (rule beside_transfer) (simp add: ev)
  show "ch_hash_request lz_fns e a r (cc_ledger, g) = Some 0" for e a r by (simp add: cc_fns_def hash_request_def digest_def plain_crypto_def)
  have "token_transfer lz_tokens (user_env 2000) xlm_addr alice endpoint_addr 3 (cc_ledger_filled, g) = (Inr (lz_ledger_filled, g) :: (CcError, _) res)"
    by (rule beside_transfer) (simp add: ev)
  then show "tp_send (lz_transport lz_tokens lz_net) (user_env 2000) (cc_demo_config lz_demo_bridge) 1 m alice s (cc_ledger_filled, g) = Inr (lz_ledger_filled, g)"
    if "cs_peers s = [1 \<mapsto> demo_peer]" for m s
    using that by (simp add: lz_transport_def lz_send_def lz_net_def params_def peer_of_def cc_peer_def or_panic_def Let_def cc_demo_config_def lz_demo_bridge_def
      unsent_fee_def)
qed simp

text \<open>A CCTP message from the peer: a burn of \<open>x\<close> that pays for the order \<open>i\<close>.\<close>

definition burn_message :: "int \<Rightarrow> bytes32 \<Rightarrow> byte list" where
  "burn_message x i = replicate 4 0 @ [0, 0, 0, 1] @ replicate 68 0 @ bytes_of 24 @ replicate 44 0 @ bytes_of 7 @ replicate 32 0 @
     bytes_of (word_of_int x) @ bytes_of 99 @ replicate 96 0 @ about PAID i"

lemma burn_message_fields:
  "HOOK < length (burn_message x i)" "drop HOOK (burn_message x i) = about PAID i"
  "be_value (take 4 (drop SOURCE_DOMAIN (burn_message x i))) = 1"
  "word_at (burn_message x i) RECIPIENT = Inr 24" "word_at (burn_message x i) BURN_TOKEN = Inr 7"
  "word_at (burn_message x i) MESSAGE_SENDER = Inr 99" "of_bytes (take 32 (drop 216 (burn_message x i))) = word_of_int x"
  by (simp_all add: burn_message_def cctp_consts about_def words_bytes_def word_at_def be_value_def)

lemma about_fields: "wire_kind (about PAID i) = Inr PAID" "word_nth (about PAID i) 1 = Inr i" "word_nth (about PAID i) (Suc 0) = Inr i"
  by (simp_all add: wire_kind_def word_nth_def word_at_def about_def words_bytes_def tail_uint_word PAID_def as_u32_def)

definition cc_ledger_paid :: ledger where
  "cc_ledger_paid = ((fst cc_ledger_filled)
    (token_b := holding ((tt_balances cc_token)(transmitter_addr \<mapsto> 9600, this_contract \<mapsto> 400))), \<lambda>_. po_empty)"

lemma burn_received: "mt_receive_message cctp_net (calling (user_env t) transmitter_addr) transmitter_addr this_contract (burn_message 400 i) att cc_ledger_filled =
    Some (True, cc_ledger_paid)"
  by (simp add: cctp_net_def burn_message_fields ledger_eval cc_ledger_filled_def cc_ledger_paid_def cc_ledger_def cc_token_def holding_def
      arith_defs width_defs Let_def try_call_def and_then_def calling_def require_auth_def authorised_def)

lemma burn_balances: "tk_balance ledger_host token_b this_contract cc_ledger_paid = 400" "tk_balance ledger_host token_b this_contract cc_ledger_filled = 0"
  by (simp_all add: ledger_eval cc_ledger_filled_def cc_ledger_paid_def cc_ledger_def cc_token_def holding_def)

lemma cc_demo_complete:
  assumes s: "cs_config s = Some (cc_demo_config cctp_demo_bridge)" "cs_peers s = [1 \<mapsto> demo_peer]"
  shows "complete ledger_host cctp_fns cctp_net (user_env t) bob (burn_message 400 i) att s cc_ledger_filled =
    on_funds ledger_host cctp_fns (cctp_transport ledger_host cctp_net) (user_env t) (cc_demo_config cctp_demo_bridge) 1 token_b 400
      (about PAID i) (Some bob) s cc_ledger_paid"
proof -
  have b: "cb_messenger (cf_bridge (cc_demo_config cctp_demo_bridge)) = messenger_addr" "cb_transmitter (cf_bridge (cc_demo_config cctp_demo_bridge)) = transmitter_addr"
    by (simp_all add: cc_demo_config_def cctp_demo_bridge_def)
  have k: "wire_key plain_crypto messenger_addr = (Inr 24 :: (CcError, _) res)" by (simp add: plain_wire.key_of_address messenger_addr_def)
  have p: "check_peer 1 99 s = Inr ()" by (simp add: check_peer_def peer_of_def cc_peer_def s or_panic_def demo_peer_def)
  have l: "tm_get_local_token cctp_net e ms chain 7 w = Some (Some token_b)" for e ms chain w by (simp add: cctp_net_def)
  show ?thesis
    by (simp add: complete_def cc_config_def s unwrap_def b k origin_def burn_message_fields or_panic_def p l burn_received burn_balances Let_def
        arith_defs width_defs del: One_nat_def)
qed

definition cc_ledger_short :: ledger where
  "cc_ledger_short = ((fst cc_ledger_paid)
    (token_b := holding ((tt_balances cc_token)(transmitter_addr \<mapsto> 9600, this_contract \<mapsto> 390, bob \<mapsto> 10010)),
     token_a := holding ((tt_balances cc_token)(alice \<mapsto> 9600, this_contract \<mapsto> 0, bob \<mapsto> 10400))), \<lambda>_. po_empty)"

definition cc_short :: "cctp_bridge cross_chain" where
  "cc_short = (cc_demo cctp_demo_bridge)\<lparr>cs_filled := [0 \<mapsto> True], cs_owed := [(carol, token_b) \<mapsto> 1995]\<rparr>"

definition cc_ledger_settled :: ledger where
  "cc_ledger_settled = ((fst cc_ledger_paid)
    (token_b := holding ((tt_balances cc_token)(transmitter_addr \<mapsto> 9600, alice \<mapsto> 10387, carol \<mapsto> 3, this_contract \<mapsto> 0, bob \<mapsto> 10010)),
     token_a := holding ((tt_balances cc_token)(alice \<mapsto> 9600, this_contract \<mapsto> 0, bob \<mapsto> 10400))), \<lambda>_. po_empty)"

definition cc_settled :: "cctp_bridge cross_chain" where
  "cc_settled = (cc_demo cctp_demo_bridge)\<lparr>cs_filled := [0 \<mapsto> True]\<rparr>"

lemmas cc_ledgers = cc_ledger_filled_def cc_ledger_paid_def cc_ledger_def cc_token_def holding_def cc_ledger_short_def cc_ledger_settled_def

lemma cc_states:
  "cs_orders (cc_filled_demo b fee) = [0 \<mapsto> cross_order fee]" "cs_owed (cc_demo b) = Map.empty" "cs_owed (cc_filled_demo b fee) = Map.empty"
  "cs_config (cc_filled_demo b fee) = Some (cc_demo_config b)" "cs_peers (cc_filled_demo b fee) = [1 \<mapsto> demo_peer]"
  "(cc_filled_demo b fee)\<lparr>cs_orders := Map.empty\<rparr> = (cc_demo b)\<lparr>cs_filled := [0 \<mapsto> True]\<rparr>"
  by (simp_all add: cc_filled_demo_def cc_demo_defs)

lemma cross_order_simps:
  "od_delivery (cross_order fee) = DELIVER" "od_chain (cross_order fee) = 1" "od_stable (cross_order fee) = token_b" "od_amount (cross_order fee) = 399"
  "od_fee (cross_order fee) = fee" "od_tip (cross_order fee) = 10" "od_taker (cross_order fee) = alice" "od_rwa (cross_order fee) = token_a"
  "od_units (cross_order fee) = 400" "od_recipient (cross_order fee) = bob" "od_fee_recipient (cross_order fee) = carol"
  by (simp_all add: cross_order_def)

lemma cc_short_runs:
  "complete ledger_host cctp_fns cctp_net (user_env 3000) bob (burn_message 400 0) att (cc_filled_demo cctp_demo_bridge 1995) cc_ledger_filled =
     Inr (cc_short, cc_ledger_short)"
proof -
  let ?s = "cc_filled_demo cctp_demo_bridge 1995" and ?s1 = "(cc_demo cctp_demo_bridge)\<lparr>cs_filled := [0 \<mapsto> True]\<rparr>"
  let ?w = "((fst cc_ledger_paid)(token_b := holding ((tt_balances cc_token)(transmitter_addr \<mapsto> 9600, this_contract \<mapsto> 390, bob \<mapsto> 10010))), \<lambda>_. po_empty)"
  have 1: "send_or_hold ledger_host (user_env 3000) token_b carol 1995 ?s1 cc_ledger_paid = Inr (cc_short, cc_ledger_paid)"
    by (simp add: send_or_hold_def cc_ledgers ledger_eval cc_owed_def cc_states cc_short_def arith_defs width_defs try_call_def and_then_def Let_def panic_if_def)
  have 2: "send_or_hold ledger_host (user_env 3000) token_b bob 10 cc_short cc_ledger_paid = Inr (cc_short, ?w)"
    by (simp add: send_or_hold_def cc_ledgers ledger_eval arith_defs width_defs try_call_def and_then_def Let_def panic_if_def)
  have 3: "send_or_hold ledger_host (user_env 3000) token_a bob 400 cc_short ?w = Inr (cc_short, cc_ledger_short)"
    by (simp add: send_or_hold_def cc_ledgers ledger_eval arith_defs width_defs try_call_def and_then_def Let_def panic_if_def) 
  have 4: "send_or_hold ledger_host (user_env 3000) token_b alice (-1605) ?s1 cc_ledger_paid = Inr (?s1, cc_ledger_paid)" by (simp add: send_or_hold_def)
  have "PAID \<noteq> PAYOUT" by (simp add: wire_consts)
  then show ?thesis
    unfolding cc_demo_complete [OF cc_states(4,5)]
    by (simp add: on_funds_def about_fields cc_order_def cc_states(1) cross_order_simps or_panic_def Let_def i128_sub_def arith_defs width_defs
       route_rwa_def cc_states(6) 1 2 3 4 del: One_nat_def) 
qed

lemma cc_settled_runs:
  "complete ledger_host cctp_fns cctp_net (user_env 3000) bob (burn_message 400 0) att (cc_filled_demo cctp_demo_bridge 3) cc_ledger_filled =
     Inr (cc_settled, cc_ledger_settled)"
proof -
  let ?b = "\<lambda>f. ((fst cc_ledger_paid)(token_b := holding f), \<lambda>_. po_empty) :: ledger"
  let ?f = "(tt_balances cc_token)(transmitter_addr \<mapsto> 9600, this_contract \<mapsto> 13, alice \<mapsto> 10387)"
  let ?g = "(tt_balances cc_token)(transmitter_addr \<mapsto> 9600, alice \<mapsto> 10387, this_contract \<mapsto> 10, carol \<mapsto> 3)"
  let ?h = "(tt_balances cc_token)(transmitter_addr \<mapsto> 9600, alice \<mapsto> 10387, carol \<mapsto> 3, this_contract \<mapsto> 0, bob \<mapsto> 10010)"
  note ev = send_or_hold_def cc_ledgers ledger_eval arith_defs width_defs try_call_def and_then_def Let_def panic_if_def
  have 1: "send_or_hold ledger_host (user_env 3000) token_b alice 387 s cc_ledger_paid = Inr (s, ?b ?f)" for s :: "cctp_bridge cross_chain" by (simp add: ev)
  have 2: "send_or_hold ledger_host (user_env 3000) token_b carol 3 s (?b ?f) = Inr (s, ?b ?g)" for s :: "cctp_bridge cross_chain"
    by (simp add: ev)
  have 3: "send_or_hold ledger_host (user_env 3000) token_b bob 10 s (?b ?g) = Inr (s, ?b ?h)" for s :: "cctp_bridge cross_chain" by (simp add: ev)
  have 4: "send_or_hold ledger_host (user_env 3000) token_a bob 400 s (?b ?h) = Inr (s, cc_ledger_settled)" for s :: "cctp_bridge cross_chain"
    by (simp add: ev)
  have "PAID \<noteq> PAYOUT" by (simp add: wire_consts)
  then show ?thesis
    unfolding cc_demo_complete [OF cc_states(4,5)]
    by (simp add: on_funds_def about_fields cc_order_def cc_states(1) cross_order_simps or_panic_def Let_def i128_sub_def arith_defs width_defs
       route_rwa_def cc_states(6) 1 2 3 4 cc_settled_def del: One_nat_def)
qed

lemma short_slack: "slack ledger_host this_contract token_b cc_short cc_ledger_short = - 1605"
  by (simp add: slack_def escrow_def held_def map_total_def total_over_def cc_short_def ledger_eval cc_ledgers) (simp add: cc_demo_defs)

subsection \<open>Runs\<close>

lemma cctp_demo_run: "cctp_run ledger_host cctp_fns cctp_net this_contract plain_tokens (cc_demo cctp_demo_bridge) cc_ledger"
proof -
  let ?run = "cctp_run ledger_host cctp_fns cctp_net this_contract plain_tokens" and ?T = "cctp_transport ledger_host cctp_net"
  have step: "?run s' w'" if "?run s w" "cc_exec ledger_host cctp_fns ?T (user_env t) op s w = Inr (s', w')" "op_ok (cctp_cfg_ok plain_tokens) op" for s w t op s' w'
    using cctp_run.called [OF that(1), of "user_env t" "CP_Common op"] that(2,3) by simp
  have init: "tp_init ?T (user_env 10) (cc_demo_config cctp_demo_bridge) admin_addr cc_ledger = Inr cc_ledger" by (simp add: cctp_transport_def cctp_init_def)
  have route: "tp_check_route ?T (user_env 10) (cc_demo_config cctp_demo_bridge) 1 token_b 7 cc_ledger = Inr ()"
    by (simp add: cctp_transport_def cctp_check_route_def cctp_net_def Let_def)
  have crypto: "ch_crypto cctp_fns = plain_crypto" by simp
  have run: "?run (cc_fresh cctp_demo_bridge) cc_ledger"
    by (rule cctp_run.deployed [OF cc_deployed [OF init] user_env_simps(3)])
      (simp_all add: cctp_cfg_ok_def cc_demo_config_def plain_tokens_def ledger_eval cc_ledger_def cc_token_def)
  let ?peered = "(cc_fresh cctp_demo_bridge)\<lparr>cs_peers := [1 \<mapsto> demo_peer]\<rparr>"
  have two: "?run s' v'" if "\<exists>s. cc_exec ledger_host cctp_fns ?T (user_env 10) op s0 v = Inr (s, v) \<and>
      cc_exec ledger_host cctp_fns ?T (user_env 10) op' s v = Inr (s', v')" "?run s0 v" "op_ok (cctp_cfg_ok plain_tokens) op" "op_ok (cctp_cfg_ok plain_tokens) op'"
    for s0 v op op' s' v'
    using that(1) by (elim exE conjE) (rule step [OF step [OF that(2) _ that(3)] _ that(4)])
  have "?run ?peered cc_ledger" by (rule two [OF cc_governed(1) [where H = ledger_host, OF crypto route] run]) simp_all
  then show ?thesis by (rule two [OF cc_governed(2) [where H = ledger_host, OF crypto route]]) simp_all
qed

lemma cctp_demo_filled: "cctp_run ledger_host cctp_fns cctp_net this_contract plain_tokens (cc_filled_demo cctp_demo_bridge 3) cc_ledger_filled"
proof -
  have "cctp_exec ledger_host cctp_fns cctp_net (user_env 2000) (CP_Common (CO_Fill (cross_request 300 100) 1 cross_bid [])) (cc_demo cctp_demo_bridge) cc_ledger =
      Inr (cc_filled_demo cctp_demo_bridge 3, cc_ledger_filled)"
    using cc_demo_fill [of 100 300 "[]"] by simp
  from cctp_run.called [OF cctp_demo_run this] show ?thesis by (simp add: cross_request_def)
qed

lemma lz_demo_run: "lz_run lz_tokens lz_fns lz_net this_contract plain_tokens lz_credit home_of (cc_demo lz_demo_bridge) (cc_ledger, \<lambda>_. 0)"
proof -
  let ?run = "lz_run lz_tokens lz_fns lz_net this_contract plain_tokens lz_credit home_of" and ?T = "lz_transport lz_tokens lz_net"
  let ?w = "(cc_ledger, \<lambda>_. 0) :: lz_world"
  have step: "?run s' w'" if "?run s w" "cc_exec lz_tokens lz_fns ?T (user_env t) op s w = Inr (s', w')" "op_ok (lz_cfg_ok plain_tokens home_of) op" for s w t op s' w'
    using lz_run.called [OF that(1), of "user_env t" "LZ_Common op"] that(2,3) by simp
  have init: "tp_init ?T (user_env 10) (cc_demo_config lz_demo_bridge) admin_addr ?w = Inr ?w" by (simp add: lz_transport_def lz_init_def lz_net_def)
  have route: "tp_check_route ?T (user_env 10) (cc_demo_config lz_demo_bridge) 1 token_b 7 ?w = Inr ()"
    by (simp add: lz_transport_def lz_check_route_def cc_demo_config_def lz_demo_bridge_def)
  have crypto: "ch_crypto lz_fns = plain_crypto" by simp
  have run: "?run (cc_fresh lz_demo_bridge) ?w"
    by (rule lz_run.deployed [OF cc_deployed [OF init] user_env_simps(3)])
      (simp_all add: lz_cfg_ok_def cc_demo_config_def lz_demo_bridge_def home_of_def plain_tokens_def host_beside_def lz_credit_def ledger_eval cc_ledger_def
        cc_token_def)
  let ?peered = "(cc_fresh lz_demo_bridge)\<lparr>cs_peers := [1 \<mapsto> demo_peer]\<rparr>"
  have two: "?run s' v'" if "\<exists>s. cc_exec lz_tokens lz_fns ?T (user_env 10) op s0 v = Inr (s, v) \<and>
      cc_exec lz_tokens lz_fns ?T (user_env 10) op' s v = Inr (s', v')" "?run s0 v" "op_ok (lz_cfg_ok plain_tokens home_of) op" "op_ok (lz_cfg_ok plain_tokens home_of) op'"
    for s0 v op op' s' v'
    using that(1) by (elim exE conjE) (rule step [OF step [OF that(2) _ that(3)] _ that(4)])
  have "?run ?peered ?w" by (rule two [OF cc_governed(1) [where H = lz_tokens, OF crypto route] run]) simp_all
  then show ?thesis by (rule two [OF cc_governed(2) [where H = lz_tokens, OF crypto route]]) simp_all
qed

lemma lz_demo_filled: "lz_run lz_tokens lz_fns lz_net this_contract plain_tokens lz_credit home_of (cc_filled_demo lz_demo_bridge 3) (lz_ledger_filled, \<lambda>_. 0)"
proof -
  have "lz_exec lz_tokens lz_fns lz_net (user_env 2000) (LZ_Common (CO_Fill (cross_request 300 100) 1 cross_bid [])) (cc_demo lz_demo_bridge) (cc_ledger, \<lambda>_. 0) =
      Inr (cc_filled_demo lz_demo_bridge 3, (lz_ledger_filled, \<lambda>_. 0))"
    using lz_demo_fill [of "[]"] by simp
  from lz_run.called [OF lz_demo_run this] show ?thesis by (simp add: cross_request_def)
qed

end
