(* ===== verification/Crosschain_Props.thy ===== *)
theory Crosschain_Props
  imports Crosschain_Runs
begin

text \<open>
  What takers, makers and holders of claims on the cross-chain settlement contract can count on, on both bridges.
\<close>

subsection \<open>Custody\<close>

lemma liabilities_nonneg:
  assumes "cc_inv cfg_ok s"
  shows "0 \<le> escrow t s" "0 \<le> held t s"
proof -
  show "0 \<le> escrow t s"
    unfolding escrow_def using cc_inv_D(3) [OF assms] by (intro map_total_nonneg) (auto simp: order_ok_def)
  show "0 \<le> held t s"
    unfolding held_def using cc_inv_D(5) [OF assms] by (intro map_total_nonneg) auto
qed






subsection \<open>Bids\<close>

inductive cctp_later :: "'w host \<Rightarrow> 'w cc_host \<Rightarrow> 'w cctp_host \<Rightarrow> cctp_bridge cross_chain \<Rightarrow> cctp_bridge cross_chain \<Rightarrow> bool"
  for H :: "'w host" and N :: "'w cc_host" and M :: "'w cctp_host" where
  now: "cctp_later H N M s s"
| call: "cctp_later H N M s s' \<Longrightarrow> cctp_exec H N M e op s' w = Inr (s'', w') \<Longrightarrow> cctp_later H N M s s''"

lemma cctp_later_used: "cctp_later H N M s s' \<Longrightarrow> cs_used s \<subseteq>\<^sub>m cs_used s'"
  by (induction rule: cctp_later.induct) (auto intro: map_le_trans dest: cctp_exec_used)

lemma used_bid_refused:
  assumes "cs_used s (bid_hash N i chain (take (SIG_AT - BID_AT) (drop BID_AT m))) \<noteq> None" "word_nth m 1 = (Inr i :: (CcError, _) res)"
  shows "cc_pay H N T e cfg chain m s w \<noteq> Inr (Inr sw)"
proof
  assume "cc_pay H N T e cfg chain m s w = Inr (Inr sw)"
  then show False using assms by (cases sw) (auto elim!: cc_pay_Inr)
qed

text \<open>The key beside the signature is the maker's own or one the maker registered, and it signed the hash.\<close>

definition maker_signed :: "'w cc_host \<Rightarrow> env \<Rightarrow> 'b CcConfig \<Rightarrow> address \<Rightarrow> Bid \<Rightarrow> bytes32 \<Rightarrow> byte list \<Rightarrow> 'w \<Rightarrow> bool" where
  "maker_signed N e cfg maker bid hash sig w \<longleftrightarrow> (let key = of_bytes (take 32 sig) in
     ch_verify N (calling e (cf_verifier cfg)) (cf_verifier cfg) key (bytes_of (sep53 (ch_crypto N) hash)) (take 64 (drop 32 sig)) w \<noteq> None \<and>
     (\<not> bd_maker_is_contract bid \<and> bd_maker bid = key \<or>
      ch_is_order_signer N (calling e (cf_rfq cfg)) (cf_rfq cfg) maker key w = Some True))"

lemma check_signed_None: "check_signed N e cfg maker bid hash sig w = Inr None \<Longrightarrow> maker_signed N e cfg maker bid hash sig w"
  by (auto simp: maker_signed_def check_signed_def Let_def rs sep53_def split: if_splits)

text \<open>
  C37 (safety). A maker pays a signed bid at most once and never more than it allows. A payment needs the signature of the
  maker's key, or of one the maker registered, over exactly the request, chain and bid in the message; an amount within the
  bid's; a deadline not passed; and it takes from the maker that amount, scaled to the token. Once paid, no message with the same
  request, chain and bid is ever paid again, whatever calls come between.
\<close>

theorem cctp_bid_paid_once:
  fixes m :: "byte list"
  assumes paid: "cc_pay H N (cctp_transport H M) e cfg chain m s w = Inr (Inr (s1, w1))" and later: "cctp_later H N M s1 s2"
    and same: "word_nth m' 1 = (word_nth m 1 :: (CcError, bytes32) res)" "take (SIG_AT - BID_AT) (drop BID_AT m') = take (SIG_AT - BID_AT) (drop BID_AT m)"
  shows "cc_pay H N (cctp_transport H M) e' cfg' chain m' s2 w2 \<noteq> Inr (Inr sw) \<and>
    (\<exists>bid i x maker stbl u w0. parse_bid m = (Inr (Some bid) :: (CcError, _) res) \<and> word_nth m 1 = (Inr i :: (CcError, _) res) \<and>
      word_nth m 2 = (Inr x :: (CcError, _) res) \<and> as_i128 (tail x) \<le> bd_max_amount bid \<and> ledger_timestamp e \<le> bd_deadline bid \<and>
      wire_address (ch_from_xdr N) (bd_maker bid) (bd_maker_is_contract bid) = (Inr maker :: (CcError, _) res) \<and>
      wire_address (ch_from_xdr N) (bd_stable bid) True = (Inr stbl :: (CcError, _) res) \<and> cc_route chain stbl s \<noteq> None \<and>
      maker_signed N e cfg maker bid (bid_hash N i chain (take (SIG_AT - BID_AT) (drop BID_AT m))) (drop SIG_AT m) w \<and>
      unit_of N e stbl w = Inr u \<and>
      tk_transfer_from H (calling e stbl) stbl (current_contract e) maker (current_contract e) (as_i128 (tail x) * u) w = Some w0)"
proof -
  from paid obtain bid i x maker stbl u loc w0 hash where p: "parse_bid m = (Inr (Some bid) :: (CcError, _) res)" "word_nth m 1 = (Inr i :: (CcError, _) res)"
    "word_nth m 2 = (Inr x :: (CcError, _) res)" and hash: "hash = bid_hash N i chain (take (SIG_AT - BID_AT) (drop BID_AT m))"
    and q: "wire_address (ch_from_xdr N) (bd_maker bid) (bd_maker_is_contract bid) = (Inr maker :: (CcError, _) res)"
    "wire_address (ch_from_xdr N) (bd_stable bid) True = (Inr stbl :: (CcError, _) res)"
    "as_i128 (tail x) \<le> bd_max_amount bid" "ledger_timestamp e \<le> bd_deadline bid" "cs_used s hash = None" "cc_route chain stbl s \<noteq> None"
    "ch_is_salt_cancelled N (calling e (cf_rfq cfg)) (cf_rfq cfg) maker (as_u64 (int (tail (bd_salt bid)))) w = Some False"
    and sig: "check_signed N e cfg maker bid hash (drop SIG_AT m) w = Inr None"
    and r: "unit_of N e stbl w = Inr u" "loc = as_i128 (tail x) * u"
    "tk_transfer_from H (calling e stbl) stbl (current_contract e) maker (current_contract e) loc w = Some w0"
    and s1: "s1 = s\<lparr>cs_used := (cs_used s)(hash \<mapsto> True)\<rparr>"
    and br: "tp_bridge (cctp_transport H M) e cfg chain stbl loc (about PAID i) (current_contract e) s1 w0 = Inr w1"
    by (rule cc_pay_Inr)
  have "cs_used s1 hash = Some True" by (simp add: s1)
  then have "cs_used s2 hash \<noteq> None" using cctp_later_used [OF later] by (metis domI map_le_def option.distinct(1))
  moreover have "word_nth m' 1 = (Inr i :: (CcError, _) res)" using same(1) p(2) by simp
  ultimately have "cc_pay H N (cctp_transport H M) e' cfg' chain m' s2 w2 \<noteq> Inr (Inr sw)"
    unfolding hash same(2) [symmetric] by (rule used_bid_refused)
  with p q(1-4,6) r check_signed_None [OF sig] show ?thesis unfolding hash by blast
qed

definition cc_ledger_bid :: ledger where
  "cc_ledger_bid = ((fst cc_ledger)(token_b :=
     cc_token\<lparr>tt_balances := (tt_balances cc_token)(bob \<mapsto> 9600, this_contract \<mapsto> 0, messenger_addr \<mapsto> 400),
       tt_allowances := [(bob, this_contract) \<mapsto> \<lparr>al_amount = 9600, al_expiration_ledger = 1000000\<rparr>,
         (this_contract, messenger_addr) \<mapsto> \<lparr>al_amount = 0, al_expiration_ledger = 3000\<rparr>]\<rparr>), \<lambda>_. po_empty)"

definition bid_sig :: "byte list" where "bid_sig = bytes_of 2 @ replicate 64 0"

lemma bid_typed_cross: "bid_typed cross_bid" by (simp add: bid_typed_def cross_bid_def delivery_consts width_defs)

lemma cc_demo_pay:
  "cc_pay ledger_host cctp_fns (cctp_transport ledger_host cctp_net) (user_env 3000) (cc_demo_config cctp_demo_bridge) 1 (wire_fill 5 40 cross_bid bid_sig)
     (cc_demo cctp_demo_bridge) cc_ledger = Inr (Inr ((cc_demo cctp_demo_bridge)\<lparr>cs_used := [0 \<mapsto> True]\<rparr>, cc_ledger_bid))"
proof -
  let ?m = "wire_fill 5 40 cross_bid bid_sig" and ?s = "cc_demo cctp_demo_bridge" and ?cfg = "cc_demo_config cctp_demo_bridge"
  have m: "parse_bid ?m = (Inr (Some cross_bid) :: (CcError, _) res)" "word_nth ?m 1 = (Inr 5 :: (CcError, _) res)"
      "word_nth ?m 2 = (Inr (uint_word (as_u128 40)) :: (CcError, _) res)" "drop SIG_AT ?m = bid_sig"
    by (rule parse_bid_fill [OF bid_typed_cross], simp_all add: word_nth_def fill_words_at [simplified] fill_words_def)
      (simp add: wire_fill_def bid_words_def wire_consts)
  have i: "as_i128 (tail (uint_word (as_u128 40))) = 40" by (rule i128_word) (simp add: width_defs)
  have a: "wire_address scval_parse 2 False = (Inr bob :: (CcError, _) res)" "wire_address scval_parse 7 True = (Inr token_b :: (CcError, _) res)"
    by (simp_all add: plain_wire.address_of_key bob_def token_b_def)
  have b: "bd_maker cross_bid = 2" "\<not> bd_maker_is_contract cross_bid" "bd_stable cross_bid = 7" "bd_max_amount cross_bid = 100" "bd_deadline cross_bid = 5000"
    by (simp_all add: cross_bid_def)
  have s: "cs_used ?s = Map.empty" "cc_route 1 token_b ?s = Some 7" by (simp_all add: cc_demo_defs cc_route_def)
  have h: "bid_hash cctp_fns x c ws = 0" for x c ws by (simp add: bid_hash_def plain_crypto_def)
  have salt: "ch_is_salt_cancelled cctp_fns e a k n w = Some False" for e a k n w
    by (simp add: cc_fns_def is_salt_cancelled_def demo_rfq_def rfq_empty_def)
  have sg: "check_signed cctp_fns (user_env 3000) ?cfg bob cross_bid h bid_sig cc_ledger = Inr None" for h
    by (simp add: check_signed_def bid_sig_def b Let_def cc_fns_def verifier_verify_def try_call_def)
  let ?w = "((fst cc_ledger)(token_b := cc_token\<lparr>tt_balances := (tt_balances cc_token)(bob \<mapsto> 9600, this_contract \<mapsto> 400),
       tt_allowances := [(bob, this_contract) \<mapsto> \<lparr>al_amount = 9600, al_expiration_ledger = 1000000\<rparr>]\<rparr>), \<lambda>_. po_empty) :: ledger"
  have t: "tk_transfer_from ledger_host (calling (user_env 3000) token_b) token_b this_contract bob this_contract 400 cc_ledger = Some ?w"
    by (simp add: ledger_eval cc_ledgers arith_defs width_defs try_call_def and_then_def Let_def panic_if_def)
  let ?v = "((fst cc_ledger)(token_b := cc_token\<lparr>tt_balances := (tt_balances cc_token)(bob \<mapsto> 9600, this_contract \<mapsto> 400),
       tt_allowances := [(bob, this_contract) \<mapsto> \<lparr>al_amount = 9600, al_expiration_ledger = 1000000\<rparr>,
         (this_contract, messenger_addr) \<mapsto> \<lparr>al_amount = 400, al_expiration_ledger = 3000\<rparr>]\<rparr>), \<lambda>_. po_empty) :: ledger"
  have ap: "token_approve ledger_host (user_env 3000) token_b this_contract messenger_addr 400 3000 ?w = (Inr ?v :: (CcError, _) res)"
    by (simp add: ledger_eval cc_ledgers arith_defs width_defs try_call_def and_then_def Let_def panic_if_def)
  have auth: "require_auth (calling (calling (user_env 3000) messenger_addr) token_b) messenger_addr = (Inr () :: (TokenError, _) res)"
    by (simp add: require_auth_def authorised_def calling_def user_env_def)
  have seq: "ledger_sequence (calling (calling (user_env 3000) messenger_addr) token_b) = 3000" by (simp add: calling_def)
  have bu: "tk_transfer_from ledger_host (calling (calling (user_env 3000) messenger_addr) token_b) token_b messenger_addr this_contract messenger_addr 400 ?v = Some cc_ledger_bid"
    by (simp add: ledger_eval cc_ledgers cc_ledger_bid_def arith_defs width_defs try_call_def and_then_def Let_def panic_if_def auth [unfolded user_env_def] auth seq)
  have br: "tp_bridge (cctp_transport ledger_host cctp_net) (user_env 3000) ?cfg 1 token_b 400 (about PAID 5) this_contract s ?w = Inr cc_ledger_bid"
    if "cs_peers s = [1 \<mapsto> demo_peer]" for s
    using that ap bu
    by (simp add: cctp_transport_def cctp_bridge_to_def peer_of_def cc_peer_def or_panic_def cc_demo_config_def cctp_demo_bridge_def cctp_net_def)
  have p: "cs_peers (?s\<lparr>cs_used := u\<rparr>) = [1 \<mapsto> demo_peer]" for u by (simp add: cc_demo_defs)
  show ?thesis
    by (simp add: cc_pay_def m i a b s h salt sg cc_demo_unit t Let_def arith_defs width_defs br [OF p] del: One_nat_def)
qed


theorem cctp_bid_paid_once_witness:
  "(let m = wire_fill 5 40 cross_bid bid_sig; T = cctp_transport ledger_host cctp_net; cfg = cc_demo_config cctp_demo_bridge;
        s = (cc_demo cctp_demo_bridge)\<lparr>cs_used := [0 \<mapsto> True]\<rparr> in
     cc_pay ledger_host cctp_fns T (user_env 3000) cfg 1 m (cc_demo cctp_demo_bridge) cc_ledger = Inr (Inr (s, cc_ledger_bid)) \<and>
     cc_pay ledger_host cctp_fns T (user_env 3001) cfg 1 m s cc_ledger_bid \<noteq> Inr (Inr (s, cc_ledger_bid)))"
  using cctp_bid_paid_once [OF cc_demo_pay cctp_later.now refl refl, of "user_env 3001" "cc_demo_config cctp_demo_bridge" cc_ledger_bid]
  by (simp add: cc_demo_pay [simplified] Let_def)

subsection \<open>Fills\<close>



end
