(* ===== verification/Facility_Aggregator.thy ===== *)
theory Facility_Aggregator
  imports Facility_Inv Vault Queue Redemption_Vault
begin

text \<open>
  \<open>contracts/aggregators/facility/src/lib.rs\<close>: deploys vaults, facilities, queues and venue adapters, lists the facilities
  that may trade, and routes trades to them. The storage is the record \<open>facility_aggregator\<close>. The facilities, the host's
  deployer and the decoder of a route are the fields of \<open>market_fns\<close>, \<open>None\<close> a call that fails. Events and TTL extension
  are left out.
\<close>

datatype AggError = FA_InvalidConfig | FA_NotRegistered | FA_TooManyActive | FA_AdapterNotAllowed | FA_FacilityNotActive
  | FA_InvalidData | FA_BelowMinOut | FA_Paused

definition AGG_MAX_FEE_BPS :: nat where "AGG_MAX_FEE_BPS = 500"
definition MAX_ACTIVE :: nat where "MAX_ACTIVE = 20"

record Wasms =
  wa_vault :: bytes32
  wa_facility :: bytes32
  wa_queue :: bytes32

record FacilityQuote =
  fq_facility :: address
  fq_amount_out :: int

record FacilityRoute =
  frt_facility :: address
  frt_payer :: address

datatype Kind = K_Vault | K_Facility | K_Queue

record facility_aggregator =
  ag_admin :: "address option"
  ag_router :: "address option"
  ag_wasms :: "Wasms option"
  ag_fee :: "(address \<times> nat) option"
  ag_paused :: "bool option"
  ag_active :: "address list option"
  ag_salt :: "nat option"
  ag_deployed :: "address \<rightharpoonup> Kind"
  ag_adapters :: "bytes32 \<rightharpoonup> bool"

definition ag_empty :: facility_aggregator where
  "ag_empty = \<lparr>ag_admin = None, ag_router = None, ag_wasms = None, ag_fee = None, ag_paused = None, ag_active = None,
     ag_salt = None, ag_deployed = Map.empty, ag_adapters = Map.empty\<rparr>"

text \<open>The constructor arguments of what it deploys.\<close>

datatype deploy_args = A_Vault address VaultConfig | A_Facility address FacilityConfig | A_Queue QueueConfig
  | A_Adapter address address address

record 'w market_fns =
  mk_base :: "env \<Rightarrow> address \<Rightarrow> 'w \<Rightarrow> address option"
  mk_quote :: "env \<Rightarrow> address \<Rightarrow> address \<Rightarrow> address \<Rightarrow> int \<Rightarrow> 'w \<Rightarrow> int option"
  mk_trade :: "env \<Rightarrow> address \<Rightarrow> address \<Rightarrow> address \<Rightarrow> address \<Rightarrow> address \<Rightarrow> int \<Rightarrow> int \<Rightarrow> 'w \<Rightarrow> (int \<times> 'w) option"
  mk_deploy :: "env \<Rightarrow> bytes32 \<Rightarrow> bytes32 \<Rightarrow> deploy_args \<Rightarrow> 'w \<Rightarrow> (address \<times> 'w) option"
  mk_route_of :: "byte list \<Rightarrow> FacilityRoute option"

subsection \<open>Views and helpers\<close>

definition agg_admin :: "facility_aggregator \<Rightarrow> (AggError, address) res" where
  "agg_admin s = unwrap (ag_admin s)"

definition agg_wasms :: "facility_aggregator \<Rightarrow> (AggError, Wasms) res" where
  "agg_wasms s = unwrap (ag_wasms s)"

definition agg_fee :: "facility_aggregator \<Rightarrow> (AggError, address \<times> nat) res" where
  "agg_fee s = unwrap (ag_fee s)"

definition agg_router :: "facility_aggregator \<Rightarrow> (AggError, address) res" where
  "agg_router s = unwrap (ag_router s)"

definition active :: "facility_aggregator \<Rightarrow> address list" where
  "active s = (case ag_active s of None \<Rightarrow> [] | Some xs \<Rightarrow> xs)"

definition deployed_kind :: "address \<Rightarrow> facility_aggregator \<Rightarrow> Kind option" where
  "deployed_kind a s = ag_deployed s a"

definition agg_paused :: "facility_aggregator \<Rightarrow> bool" where
  "agg_paused s = (ag_paused s = Some True)"

definition agg_admin_auth :: "env \<Rightarrow> facility_aggregator \<Rightarrow> (AggError, unit) res" where
  "agg_admin_auth e s = and_then (agg_admin s) (\<lambda>admin. require_auth e admin)"

definition expect :: "address \<Rightarrow> Kind \<Rightarrow> facility_aggregator \<Rightarrow> (AggError, unit) res" where
  "expect a k s = panic_if (deployed_kind a s \<noteq> Some k) FA_NotRegistered"

text \<open>\<open>mul_div(..).unwrap_or(0)\<close>: an \<open>Err\<close> is 0, a trap stays a trap.\<close>

definition fee_on :: "int \<Rightarrow> nat \<Rightarrow> (AggError, int) res" where
  "fee_on amount bps = (case mul_div amount (int bps) BPS of
      Inr q \<Rightarrow> Inr q | Inl (Err _) \<Rightarrow> Inr 0 | Inl (Trap t) \<Rightarrow> Inl (Trap t))"

definition agg_check_fee :: "nat \<Rightarrow> (AggError, unit) res" where
  "agg_check_fee bps = panic_if (AGG_MAX_FEE_BPS < bps) FA_InvalidConfig"

definition next_salt :: "facility_aggregator \<Rightarrow> (AggError, bytes32 \<times> facility_aggregator) res" where
  "next_salt s =
    (let n = (case ag_salt s of None \<Rightarrow> 0 | Some n \<Rightarrow> n) in
     and_then (u64_add n 1) (\<lambda>m. Inr (of_bytes (replicate 24 0 @ be64 n), s\<lparr>ag_salt := Some m\<rparr>)))"

definition agg_deploy :: "'w market_fns \<Rightarrow> env \<Rightarrow> Kind \<Rightarrow> bytes32 \<Rightarrow> deploy_args \<Rightarrow> facility_aggregator \<Rightarrow> 'w \<Rightarrow>
    (AggError, address \<times> facility_aggregator \<times> 'w) res" where
  "agg_deploy F e k wasm args s w =
    and_then (next_salt s) (\<lambda>(slt, s).
    and_then (call_result (mk_deploy F e slt wasm args w)) (\<lambda>(addr, w).
      Inr (addr, s\<lparr>ag_deployed := (ag_deployed s)(addr \<mapsto> k)\<rparr>, w)))"

subsection \<open>Deployment and governance\<close>

definition agg_constructor :: "address \<Rightarrow> address \<Rightarrow> Wasms \<Rightarrow> address \<Rightarrow> nat \<Rightarrow> facility_aggregator \<Rightarrow> (AggError, facility_aggregator) res" where
  "agg_constructor admin router wasms fee_recipient fee_bps s =
    and_then (agg_check_fee fee_bps) (\<lambda>_.
      Inr (s\<lparr>ag_admin := Some admin, ag_router := Some router, ag_wasms := Some wasms,
             ag_fee := Some (fee_recipient, fee_bps), ag_active := Some []\<rparr>))"

definition create_vault :: "'w market_fns \<Rightarrow> env \<Rightarrow> VaultConfig \<Rightarrow> facility_aggregator \<Rightarrow> 'w \<Rightarrow>
    (AggError, address \<times> facility_aggregator \<times> 'w) res" where
  "create_vault F e cfg s w =
    and_then (require_auth e (vc_curator cfg)) (\<lambda>_.
    and_then (agg_wasms s) (\<lambda>ws.
      agg_deploy F e K_Vault (wa_vault ws) (A_Vault (current_contract e) cfg) s w))"

definition create_facility :: "'w market_fns \<Rightarrow> env \<Rightarrow> FacilityConfig \<Rightarrow> facility_aggregator \<Rightarrow> 'w \<Rightarrow>
    (AggError, address \<times> facility_aggregator \<times> 'w) res" where
  "create_facility F e cfg s w =
    and_then (require_auth e (fg_curator cfg)) (\<lambda>_.
    and_then (expect (fg_base_vault cfg) K_Vault s) (\<lambda>_.
    and_then (agg_wasms s) (\<lambda>ws.
      agg_deploy F e K_Facility (wa_facility ws) (A_Facility (current_contract e) cfg) s w)))"

definition create_queue :: "'w market_fns \<Rightarrow> env \<Rightarrow> QueueConfig \<Rightarrow> facility_aggregator \<Rightarrow> 'w \<Rightarrow>
    (AggError, address \<times> facility_aggregator \<times> 'w) res" where
  "create_queue F e cfg s w =
    and_then (require_auth e (qc_curator cfg)) (\<lambda>_.
    and_then (expect (qc_facility cfg) K_Facility s) (\<lambda>_.
    and_then (agg_wasms s) (\<lambda>ws.
      agg_deploy F e K_Queue (wa_queue ws) (A_Queue cfg) s w)))"

definition set_active :: "env \<Rightarrow> address \<Rightarrow> bool \<Rightarrow> facility_aggregator \<Rightarrow> (AggError, facility_aggregator) res" where
  "set_active e fac act s =
    and_then (agg_admin_auth e s) (\<lambda>_.
    and_then (expect fac K_Facility s) (\<lambda>_.
      let xs = active s in
      if fac \<notin> set xs \<and> act then
        and_then (panic_if (MAX_ACTIVE \<le> length xs) FA_TooManyActive) (\<lambda>_. Inr (s\<lparr>ag_active := Some (xs @ [fac])\<rparr>))
      else if fac \<in> set xs \<and> \<not> act then Inr (s\<lparr>ag_active := Some (remove1 fac xs)\<rparr>)
      else Inr s))"

definition allow_adapter :: "env \<Rightarrow> bytes32 \<Rightarrow> bool \<Rightarrow> facility_aggregator \<Rightarrow> (AggError, facility_aggregator) res" where
  "allow_adapter e wasm_hash allowed s =
    and_then (agg_admin_auth e s) (\<lambda>_. Inr (s\<lparr>ag_adapters := (ag_adapters s)(wasm_hash \<mapsto> allowed)\<rparr>))"

definition set_wasms :: "env \<Rightarrow> Wasms \<Rightarrow> facility_aggregator \<Rightarrow> (AggError, facility_aggregator) res" where
  "set_wasms e wasms s = and_then (agg_admin_auth e s) (\<lambda>_. Inr (s\<lparr>ag_wasms := Some wasms\<rparr>))"

definition set_fee :: "env \<Rightarrow> address \<Rightarrow> nat \<Rightarrow> facility_aggregator \<Rightarrow> (AggError, facility_aggregator) res" where
  "set_fee e recipient fee_bps s =
    and_then (agg_admin_auth e s) (\<lambda>_.
    and_then (agg_check_fee fee_bps) (\<lambda>_. Inr (s\<lparr>ag_fee := Some (recipient, fee_bps)\<rparr>)))"

definition set_router :: "env \<Rightarrow> address \<Rightarrow> facility_aggregator \<Rightarrow> (AggError, facility_aggregator) res" where
  "set_router e router s = and_then (agg_admin_auth e s) (\<lambda>_. Inr (s\<lparr>ag_router := Some router\<rparr>))"

definition agg_set_paused :: "env \<Rightarrow> bool \<Rightarrow> facility_aggregator \<Rightarrow> (AggError, facility_aggregator) res" where
  "agg_set_paused e paused s = and_then (agg_admin_auth e s) (\<lambda>_. Inr (s\<lparr>ag_paused := Some paused\<rparr>))"

text \<open>\<open>upgrade\<close>: the code hash handed to the host.\<close>

definition agg_upgrade :: "env \<Rightarrow> bytes32 \<Rightarrow> facility_aggregator \<Rightarrow> (AggError, bytes32) res" where
  "agg_upgrade e wasm_hash s = and_then (agg_admin_auth e s) (\<lambda>_. Inr wasm_hash)"

definition agg_vault_wasm :: "facility_aggregator \<Rightarrow> (AggError, bytes32) res" where
  "agg_vault_wasm s = and_then (agg_wasms s) (\<lambda>ws. Inr (wa_vault ws))"

definition deploy_adapter :: "'w market_fns \<Rightarrow> env \<Rightarrow> address \<Rightarrow> bytes32 \<Rightarrow> address \<Rightarrow> address \<Rightarrow> facility_aggregator \<Rightarrow> 'w \<Rightarrow>
    (AggError, address \<times> facility_aggregator \<times> 'w) res" where
  "deploy_adapter F e vlt wasm_hash asset venue s w =
    and_then (require_auth e vlt) (\<lambda>_.
    and_then (expect vlt K_Vault s) (\<lambda>_.
    and_then (panic_if (ag_adapters s wasm_hash \<noteq> Some True) FA_AdapterNotAllowed) (\<lambda>_.
    and_then (next_salt s) (\<lambda>(slt, s).
    and_then (call_result (mk_deploy F e slt wasm_hash (A_Adapter vlt asset venue) w)) (\<lambda>(addr, w).
      Inr (addr, s, w))))))"

subsection \<open>Quotes and trades\<close>

definition quote_one :: "'w market_fns \<Rightarrow> env \<Rightarrow> address \<Rightarrow> address \<Rightarrow> address \<Rightarrow> int \<Rightarrow> facility_aggregator \<Rightarrow> 'w \<Rightarrow> (AggError, int) res" where
  "quote_one F e fac token_in token_out amount_in s w =
    (case mk_base F (calling e fac) fac w of
       None \<Rightarrow> Inr 0
     | Some base \<Rightarrow>
         and_then (agg_fee s) (\<lambda>(fee_to, bps).
           let q = (\<lambda>amount. case mk_quote F (calling e fac) fac token_in token_out amount w of Some v \<Rightarrow> v | None \<Rightarrow> 0) in
           if token_out = base then
             let gross = q amount_in in and_then (fee_on gross bps) (\<lambda>fee. i128_sub gross fee)
           else if token_in = base then
             and_then (fee_on amount_in bps) (\<lambda>fee. and_then (i128_sub amount_in fee) (\<lambda>x. Inr (q x)))
           else Inr (q amount_in)))"

primrec quote_list :: "'w market_fns \<Rightarrow> env \<Rightarrow> address \<Rightarrow> address \<Rightarrow> int \<Rightarrow> facility_aggregator \<Rightarrow> 'w \<Rightarrow> address list \<Rightarrow>
    (AggError, FacilityQuote list) res" where
  "quote_list F e token_in token_out amount_in s w [] = Inr []"
| "quote_list F e token_in token_out amount_in s w (fac # facs) =
    and_then (quote_one F e fac token_in token_out amount_in s w) (\<lambda>q.
    and_then (quote_list F e token_in token_out amount_in s w facs) (\<lambda>out.
      Inr (if 0 < q then \<lparr>fq_facility = fac, fq_amount_out = q\<rparr> # out else out)))"

definition quote_all :: "'w market_fns \<Rightarrow> env \<Rightarrow> address \<Rightarrow> address \<Rightarrow> int \<Rightarrow> facility_aggregator \<Rightarrow> 'w \<Rightarrow>
    (AggError, FacilityQuote list) res" where
  "quote_all F e token_in token_out amount_in s w =
    (if agg_paused s then Inr [] else quote_list F e token_in token_out amount_in s w (active s))"

definition agg_quote :: "'w market_fns \<Rightarrow> env \<Rightarrow> address \<Rightarrow> address \<Rightarrow> int \<Rightarrow> facility_aggregator \<Rightarrow> 'w \<Rightarrow> (AggError, int) res" where
  "agg_quote F e token_in token_out amount_in s w =
    and_then (quote_all F e token_in token_out amount_in s w) (\<lambda>qs.
      Inr (fold (\<lambda>q best. max best (fq_amount_out q)) qs 0))"

definition agg_execute :: "'w host \<Rightarrow> 'w market_fns \<Rightarrow> env \<Rightarrow> address \<Rightarrow> address \<Rightarrow> address \<Rightarrow> address \<Rightarrow> int \<Rightarrow> int \<Rightarrow> address \<Rightarrow>
    facility_aggregator \<Rightarrow> 'w \<Rightarrow> (AggError, int \<times> 'w) res" where
  "agg_execute H F e payer recipient token_in token_out amount_in min_out fac s w =
    and_then (require_auth e payer) (\<lambda>_.
    and_then (panic_if (agg_paused s) FA_Paused) (\<lambda>_.
    and_then (panic_if (fac \<notin> set (active s)) FA_FacilityNotActive) (\<lambda>_.
    and_then (call_result (mk_base F (calling e fac) fac w)) (\<lambda>base.
    and_then (agg_fee s) (\<lambda>(fee_to, bps).
      let me = current_contract e in
      and_then
        (if token_out = base then
           and_then (call_result (mk_trade F (calling e fac) fac payer me token_in token_out amount_in min_out w)) (\<lambda>(gross, w).
           and_then (fee_on gross bps) (\<lambda>fee.
           and_then (token_transfer H e base me fee_to fee w) (\<lambda>w.
           and_then (i128_sub gross fee) (\<lambda>net.
           and_then (token_transfer H e base me recipient net w) (\<lambda>w.
             Inr (net, w))))))
         else if token_in = base then
           and_then (fee_on amount_in bps) (\<lambda>fee.
           and_then (token_transfer H e base payer fee_to fee w) (\<lambda>w.
           and_then (i128_sub amount_in fee) (\<lambda>x.
             call_result (mk_trade F (calling e fac) fac payer recipient token_in token_out x min_out w))))
         else
           call_result (mk_trade F (calling e fac) fac payer recipient token_in token_out amount_in min_out w)) (\<lambda>(out, w).
      and_then (panic_if (out < min_out) FA_BelowMinOut) (\<lambda>_.
        Inr (out, w))))))))"

definition swap :: "'w host \<Rightarrow> 'w market_fns \<Rightarrow> env \<Rightarrow> address \<Rightarrow> address \<Rightarrow> address \<Rightarrow> address \<Rightarrow> int \<Rightarrow> int \<Rightarrow> address \<Rightarrow>
    facility_aggregator \<Rightarrow> 'w \<Rightarrow> (AggError, int \<times> 'w) res" where
  "swap H F e payer recipient token_in token_out amount_in min_out fac s w =
    agg_execute H F e payer recipient token_in token_out amount_in min_out fac s w"

definition agg_fill :: "'w host \<Rightarrow> 'w market_fns \<Rightarrow> env \<Rightarrow> address \<Rightarrow> address \<Rightarrow> address \<Rightarrow> int \<Rightarrow> int \<Rightarrow> byte list \<Rightarrow>
    facility_aggregator \<Rightarrow> 'w \<Rightarrow> (AggError, int \<times> 'w) res" where
  "agg_fill H F e recipient token_in token_out amount_in min_amount_out data s w =
    and_then (agg_router s) (\<lambda>router.
    and_then (require_auth e router) (\<lambda>_.
    and_then (or_panic (mk_route_of F data) FA_InvalidData) (\<lambda>route.
      agg_execute H F e (frt_payer route) recipient token_in token_out amount_in min_amount_out (frt_facility route) s w)))"

subsection \<open>Calls\<close>

datatype agg_op = AG_Vault VaultConfig | AG_Facility FacilityConfig | AG_Queue QueueConfig | AG_Active address bool
  | AG_Allow bytes32 bool | AG_Wasms Wasms | AG_Fee address nat | AG_Router address | AG_Paused bool
  | AG_Adapter address bytes32 address address | AG_Swap address address address address int int address
  | AG_Fill address address address int int "byte list"

fun agg_exec :: "'w host \<Rightarrow> 'w market_fns \<Rightarrow> env \<Rightarrow> agg_op \<Rightarrow> facility_aggregator \<Rightarrow> 'w \<Rightarrow> (AggError, facility_aggregator \<times> 'w) res" where
  "agg_exec H F e (AG_Vault c) s w = and_then (create_vault F e c s w) (\<lambda>(a, sw). Inr sw)"
| "agg_exec H F e (AG_Facility c) s w = and_then (create_facility F e c s w) (\<lambda>(a, sw). Inr sw)"
| "agg_exec H F e (AG_Queue c) s w = and_then (create_queue F e c s w) (\<lambda>(a, sw). Inr sw)"
| "agg_exec H F e (AG_Active f b) s w = and_then (set_active e f b s) (\<lambda>s. Inr (s, w))"
| "agg_exec H F e (AG_Allow h b) s w = and_then (allow_adapter e h b s) (\<lambda>s. Inr (s, w))"
| "agg_exec H F e (AG_Wasms ws) s w = and_then (set_wasms e ws s) (\<lambda>s. Inr (s, w))"
| "agg_exec H F e (AG_Fee a n) s w = and_then (set_fee e a n s) (\<lambda>s. Inr (s, w))"
| "agg_exec H F e (AG_Router a) s w = and_then (set_router e a s) (\<lambda>s. Inr (s, w))"
| "agg_exec H F e (AG_Paused b) s w = and_then (agg_set_paused e b s) (\<lambda>s. Inr (s, w))"
| "agg_exec H F e (AG_Adapter v h a vn) s w = and_then (deploy_adapter F e v h a vn s w) (\<lambda>(a, sw). Inr sw)"
| "agg_exec H F e (AG_Swap p r i j x m f) s w = and_then (swap H F e p r i j x m f s w) (\<lambda>(out, w). Inr (s, w))"
| "agg_exec H F e (AG_Fill r i j x m d) s w = and_then (agg_fill H F e r i j x m d s w) (\<lambda>(out, w). Inr (s, w))"

text \<open>The contract deployed, then called by anyone, in a world that changes freely between calls.\<close>

inductive agg_run :: "'w host \<Rightarrow> 'w market_fns \<Rightarrow> address \<Rightarrow> facility_aggregator \<Rightarrow> bool"
  for H :: "'w host" and F :: "'w market_fns" and me :: address where
  deployed: "agg_constructor admin router ws fee_to bps ag_empty = Inr s \<Longrightarrow> agg_run H F me s"
| called: "agg_run H F me s \<Longrightarrow> current_contract e = me \<Longrightarrow> agg_exec H F e op s w = Inr (s', w') \<Longrightarrow> agg_run H F me s'"

end
