(* ===== verification/Facility_Aggregator_Props.thy ===== *)
theory Facility_Aggregator_Props
  imports Facility_Aggregator Facility_Props Redemption_Runs
begin

text \<open>
  What the facility aggregator guarantees: a registry that only grows, trades at the quoted price less exactly the stored fee.
  What it relies on is the locale \<open>market_laws\<close>, shown to hold for the facilities and vaults of this development.
\<close>

subsection \<open>How calls decompose\<close>

lemma agg_reads_Inr_iff [rs]:
  "agg_admin s = Inr a \<longleftrightarrow> ag_admin s = Some a"
  "agg_wasms s = Inr ws \<longleftrightarrow> ag_wasms s = Some ws"
  "agg_fee s = Inr f \<longleftrightarrow> ag_fee s = Some f"
  "agg_router s = Inr r \<longleftrightarrow> ag_router s = Some r"
  "agg_admin_auth e s = Inr u \<longleftrightarrow> (\<exists>a. ag_admin s = Some a \<and> authorised e a)"
  "expect a k s = Inr u \<longleftrightarrow> ag_deployed s a = Some k"
  "agg_check_fee n = Inr u \<longleftrightarrow> n \<le> AGG_MAX_FEE_BPS"
  by (auto simp: agg_admin_def agg_wasms_def agg_fee_def agg_router_def agg_admin_auth_def expect_def deployed_kind_def
      agg_check_fee_def rs not_less)

definition salt_count :: "facility_aggregator \<Rightarrow> nat" where
  "salt_count s = (case ag_salt s of None \<Rightarrow> 0 | Some n \<Rightarrow> n)"

definition agg_salt :: "nat \<Rightarrow> bytes32" where "agg_salt n = of_bytes (replicate 24 0 @ be64 n)"

lemma agg_salt_tagged: "agg_salt n = salt 0 n" by (simp add: agg_salt_def salt_def numeral_eq_Suc)

lemma agg_salt_inj: "agg_salt n = agg_salt m \<Longrightarrow> n < 2 ^ 64 \<Longrightarrow> m < 2 ^ 64 \<Longrightarrow> n = m"
  unfolding agg_salt_tagged using salt_inj by metis

lemma agg_salt_value: "n < 2 ^ 64 \<Longrightarrow> uint (agg_salt n) = int n"
  unfolding agg_salt_tagged by (simp add: salt_value)

lemma next_salt_Inr:
  "next_salt s = Inr (k, s') \<longleftrightarrow> k = agg_salt (salt_count s) \<and> s' = s\<lparr>ag_salt := Some (salt_count s + 1)\<rparr> \<and> salt_count s + 1 < 2 ^ 64"
  by (auto simp: next_salt_def Let_def salt_count_def agg_salt_def rs u64_max_def is_u64_def split: option.splits)

lemma agg_deploy_Inr:
  "agg_deploy F e k wasm args s w = Inr (a, s', w') \<longleftrightarrow>
    mk_deploy F e (agg_salt (salt_count s)) wasm args w = Some (a, w') \<and> salt_count s + 1 < 2 ^ 64 \<and>
    s' = s\<lparr>ag_salt := Some (salt_count s + 1), ag_deployed := (ag_deployed s)(a \<mapsto> k)\<rparr>"
  by (auto simp: agg_deploy_def next_salt_Inr and_then_Inr_iff call_result_Inr_iff)

text \<open>A fee within the bound is the exact floor.\<close>

lemma fee_on_exact:
  assumes "0 \<le> x" "is_i128 x" "bps \<le> AGG_MAX_FEE_BPS"
  shows "fee_on x bps = Inr (x * int bps div BPS)"
proof -
  have "int bps \<le> 500" using assms(3) by (simp add: AGG_MAX_FEE_BPS_def)
  then have m: "x * int bps \<le> x * 500" using assms(1) by (intro mult_left_mono) auto
  then have "x * int bps div BPS \<le> x * 500 div BPS" by (intro zdiv_mono1) (simp_all add: BPS_def)
  moreover have "x * 500 div BPS \<le> x" using assms(1) by (simp add: BPS_def)
  ultimately have q: "x * int bps div BPS \<le> i128_max" using assms(2) by (simp add: is_i128_def)
  have "x * 500 \<le> i128_max * 500" using assms(2) by (simp add: is_i128_def)
  then have "x * int bps \<le> int u256_max" using m by (simp add: width_defs)
  with q assms(1) have "mul_div x (int bps) BPS = Inr (x * int bps div BPS)" by (simp add: mul_div_Inr_iff BPS_def)
  then show ?thesis by (simp add: fee_on_def)
qed

subsection \<open>What is relied on\<close>

text \<open>
  A facility trades at its quote, for at least the minimum, and only for a payer who signed; the host deploys at an address that
  follows from the deployer and the salt, distinct for distinct salts.
\<close>

locale market_laws = sep41_host H for H :: "'w host" +
  fixes F :: "'w market_fns" and me :: address and site :: "bytes32 \<Rightarrow> address"
  assumes trade_law: "mk_trade F e fac payer rcp i j x m w = Some (out, w') \<Longrightarrow>
      mk_quote F e fac i j x w = Some out \<and> m \<le> out \<and> 0 < out \<and> is_i128 out \<and> 0 < x \<and> authorised e payer"
    and deploy_law: "mk_deploy F e k wasm args w = Some (a, w') \<Longrightarrow> current_contract e = me \<Longrightarrow> a = site k"
    and site_inj: "inj site"

definition agg_inv :: "(bytes32 \<Rightarrow> address) \<Rightarrow> facility_aggregator \<Rightarrow> bool" where
  "agg_inv site s \<longleftrightarrow> (\<exists>f n. ag_fee s = Some (f, n) \<and> n \<le> AGG_MAX_FEE_BPS) \<and>
     distinct (active s) \<and> length (active s) \<le> MAX_ACTIVE \<and> (\<forall>f \<in> set (active s). ag_deployed s f = Some K_Facility) \<and>
     (\<forall>a k. ag_deployed s a = Some k \<longrightarrow> (\<exists>n < salt_count s. a = site (agg_salt n))) \<and> salt_count s < 2 ^ 64"

lemma agg_inv_frame:
  assumes "agg_inv site s" "ag_fee s' = ag_fee s \<or> (\<exists>f n. ag_fee s' = Some (f, n) \<and> n \<le> AGG_MAX_FEE_BPS)"
    "ag_active s' = ag_active s" "ag_deployed s' = ag_deployed s" "ag_salt s' = ag_salt s"
  shows "agg_inv site s'"
  using assms by (auto simp: agg_inv_def active_def salt_count_def)

context market_laws
begin

lemma agg_deploy_inv:
  assumes "agg_deploy F e k wasm args s w = Inr (a, s', w')" "current_contract e = me" "agg_inv site s"
  shows "agg_inv site s' \<and> ag_deployed s \<subseteq>\<^sub>m ag_deployed s'"
proof -
  let ?n = "salt_count s"
  from assms(1,2) have a: "a = site (agg_salt ?n)" and n: "?n + 1 < 2 ^ 64"
    and s': "s' = s\<lparr>ag_salt := Some (?n + 1), ag_deployed := (ag_deployed s)(a \<mapsto> k)\<rparr>"
    by (auto simp: agg_deploy_Inr dest: deploy_law)
  have fresh: "ag_deployed s a = None"
  proof (rule ccontr)
    assume "ag_deployed s a \<noteq> None"
    then obtain m where m: "m < ?n" "a = site (agg_salt m)" using assms(3) by (auto simp: agg_inv_def)
    then have "agg_salt m = agg_salt ?n" using a site_inj by (auto dest: injD)
    then show False using agg_salt_inj [of m ?n] m(1) n by simp
  qed
  have "salt_count s' = ?n + 1" "active s' = active s" by (simp_all add: s' salt_count_def active_def)
  with assms(3) fresh n a have "agg_inv site s'"
    by (fastforce simp: agg_inv_def s' less_Suc_eq)
  with fresh show ?thesis by (auto simp: s' map_le_def)
qed

lemma set_active_inv:
  assumes "set_active e f b s = Inr s'" "agg_inv site s"
  shows "agg_inv site s'" "ag_deployed s' = ag_deployed s"
proof -
  from assms(1) have dep: "ag_deployed s f = Some K_Facility"
    and cases: "s' = s \<or> (f \<notin> set (active s) \<and> length (active s) < MAX_ACTIVE \<and> s' = s\<lparr>ag_active := Some (active s @ [f])\<rparr>) \<or>
      s' = s\<lparr>ag_active := Some (remove1 f (active s))\<rparr>"
    by (auto simp: set_active_def Let_def rs not_le split: if_splits)
  have len: "length (remove1 f xs) \<le> length xs" for xs by (simp add: length_remove1)
  have upd: "active (s\<lparr>ag_active := Some xs\<rparr>) = xs" "salt_count (s\<lparr>ag_active := Some xs\<rparr>) = salt_count s" for xs
    by (simp_all add: active_def salt_count_def)
  show "agg_inv site s'" using cases assms(2) dep order_trans [OF len]
    by (auto simp: agg_inv_def upd distinct_remove1 dest: notin_set_remove1 set_remove1_subset [THEN subsetD])
  show "ag_deployed s' = ag_deployed s" using cases by auto
qed

lemma agg_exec_inv:
  assumes ex: "agg_exec H F e op s w = Inr (s', w')" and me: "current_contract e = me" and inv: "agg_inv site s"
  shows "agg_inv site s' \<and> ag_deployed s \<subseteq>\<^sub>m ag_deployed s'"
proof (cases op)
  case (AG_Active f b)
  with ex set_active_inv [OF _ inv] show ?thesis by (auto simp: rs)
next
  case (AG_Adapter v h a vn)
  with ex have "salt_count s + 1 < 2 ^ 64" "s' = s\<lparr>ag_salt := Some (salt_count s + 1)\<rparr>"
    by (auto simp: deploy_adapter_def next_salt_Inr and_then_Inr_iff)
  with inv show ?thesis by (auto simp: agg_inv_def active_def salt_count_def less_Suc_eq)
qed (use ex inv me in \<open>auto simp: rs create_vault_def create_facility_def create_queue_def allow_adapter_def set_wasms_def set_fee_def
      set_router_def agg_set_paused_def intro!: agg_inv_frame [OF inv] dest!: agg_deploy_inv\<close>)

lemma agg_run_inv: "agg_run H F me s \<Longrightarrow> agg_inv site s"
proof (induction rule: agg_run.induct)
  case (deployed admin router ws fee_to bps s)
  then show ?case by (auto simp: agg_constructor_def rs agg_inv_def active_def salt_count_def ag_empty_def MAX_ACTIVE_def)
next
  case (called s e op w s' w')
  with agg_exec_inv show ?case by blast
qed

end

subsection \<open>Trades\<close>

lemma agg_execute_Inr:
  assumes "agg_execute H F e payer rcp i j x m fac s w = Inr (out, w')"
  obtains base fee_to bps where "authorised e payer" "\<not> agg_paused s" "fac \<in> set (active s)" "mk_base F (calling e fac) fac w = Some base"
    "ag_fee s = Some (fee_to, bps)" "m \<le> out"
    "if j = base then \<exists>gross fee w1 w2. mk_trade F (calling e fac) fac payer (current_contract e) i j x m w = Some (gross, w1) \<and>
         fee_on gross bps = Inr fee \<and> out = gross - fee \<and>
         token_transfer H e base (current_contract e) fee_to fee w1 = (Inr w2 :: (AggError, _) res) \<and>
         token_transfer H e base (current_contract e) rcp out w2 = (Inr w' :: (AggError, _) res)
     else if i = base then \<exists>fee w1. fee_on x bps = Inr fee \<and> token_transfer H e base payer fee_to fee w = (Inr w1 :: (AggError, _) res) \<and>
         mk_trade F (calling e fac) fac payer rcp i j (x - fee) m w1 = Some (out, w')
     else mk_trade F (calling e fac) fac payer rcp i j x m w = Some (out, w')"
proof -
  note st = and_then_Inr_iff require_auth_Inr_iff panic_if_Inr_iff call_result_Inr_iff agg_reads_Inr_iff i128_ops_Inr_iff
  from assms obtain base fee_to bps where b: "authorised e payer" "\<not> agg_paused s" "fac \<in> set (active s)"
    "mk_base F (calling e fac) fac w = Some base" "ag_fee s = Some (fee_to, bps)" "m \<le> out"
    by (auto simp: agg_execute_def Let_def st not_less)
  with assms show thesis
    by (intro that [OF b]) (auto simp: agg_execute_def Let_def st split: if_splits)
qed

context market_laws
begin

lemma execute_exact:
  assumes ex: "agg_execute H F e payer rcp i j x m fac s w = Inr (out, w')" and inv: "agg_inv site s" and x: "is_i128 x"
  shows "\<exists>base fee_to bps. authorised e payer \<and> \<not> agg_paused s \<and> ag_deployed s fac = Some K_Facility \<and> m \<le> out \<and>
    mk_base F (calling e fac) fac w = Some base \<and> ag_fee s = Some (fee_to, bps) \<and> bps \<le> AGG_MAX_FEE_BPS \<and>
    (if j = base then quote_one F e fac i j x s w = Inr out \<and>
       (\<exists>gross w1. mk_trade F (calling e fac) fac payer (current_contract e) i j x m w = Some (gross, w1) \<and>
          out = gross - gross * int bps div BPS \<and> 0 < out \<and>
          (\<forall>t a. tk_balance H t a w' = (if t = base then moved (current_contract e) rcp out
              (moved (current_contract e) fee_to (gross * int bps div BPS) (\<lambda>a. tk_balance H base a w1)) a
            else tk_balance H t a w1)))
     else if i = base then
       (\<exists>w1. (\<forall>t a. tk_balance H t a w1 = (if t = base then moved payer fee_to (x * int bps div BPS) (\<lambda>a. tk_balance H base a w) a
             else tk_balance H t a w)) \<and>
          mk_trade F (calling e fac) fac payer rcp i j (x - x * int bps div BPS) m w1 = Some (out, w'))
     else quote_one F e fac i j x s w = Inr out \<and> mk_trade F (calling e fac) fac payer rcp i j x m w = Some (out, w'))"
proof (rule agg_execute_Inr [OF ex])
  fix base fee_to bps
  assume a: "authorised e payer" "\<not> agg_paused s" "fac \<in> set (active s)" "mk_base F (calling e fac) fac w = Some base"
    "ag_fee s = Some (fee_to, bps)" "m \<le> out"
    and c: "if j = base then \<exists>gross fee w1 w2. mk_trade F (calling e fac) fac payer (current_contract e) i j x m w = Some (gross, w1) \<and>
         fee_on gross bps = Inr fee \<and> out = gross - fee \<and>
         token_transfer H e base (current_contract e) fee_to fee w1 = (Inr w2 :: (AggError, _) res) \<and>
         token_transfer H e base (current_contract e) rcp out w2 = (Inr w' :: (AggError, _) res)
     else if i = base then \<exists>fee w1. fee_on x bps = Inr fee \<and> token_transfer H e base payer fee_to fee w = (Inr w1 :: (AggError, _) res) \<and>
         mk_trade F (calling e fac) fac payer rcp i j (x - fee) m w1 = Some (out, w')
     else mk_trade F (calling e fac) fac payer rcp i j x m w = Some (out, w')"
  have bps: "bps \<le> AGG_MAX_FEE_BPS" and dep: "ag_deployed s fac = Some K_Facility" using inv a(3,5) by (auto simp: agg_inv_def)
  have small: "g * int bps div BPS < g" if "0 < g" for g
  proof -
    have "g * int bps \<le> g * 500" using bps that by (intro mult_left_mono) (auto simp: AGG_MAX_FEE_BPS_def)
    also have "\<dots> < g * BPS" using that by (simp add: BPS_def)
    finally show ?thesis by (simp add: BPS_def)
  qed
  consider (sell) "j = base" | (buy) "j \<noteq> base" "i = base" | (cross) "j \<noteq> base" "i \<noteq> base" by blast
  then show ?thesis
  proof cases
    case sell
    with c obtain gross fee w1 w2 where t: "mk_trade F (calling e fac) fac payer (current_contract e) i j x m w = Some (gross, w1)"
      and f: "fee_on gross bps = Inr fee" "out = gross - fee" and tr: "token_transfer H e base (current_contract e) fee_to fee w1 = (Inr w2 :: (AggError, _) res)"
        "token_transfer H e base (current_contract e) rcp out w2 = (Inr w' :: (AggError, _) res)" by auto
    note q = trade_law [OF t]
    have g: "0 < gross" "is_i128 gross" using q by auto
    with f(1) fee_on_exact [OF _ g(2) bps] have fee: "fee = gross * int bps div BPS" by simp
    have "0 \<le> fee" unfolding fee BPS_def using g(1) by (intro pos_imp_zdiv_nonneg_iff [THEN iffD2]) simp_all
    then have "is_i128 out" using g small [OF g(1)] by (simp add: f(2) fee is_i128_def width_defs)
    then have quote: "quote_one F e fac i j x s w = Inr out"
      using q a(4,5) sell f by (simp add: quote_one_def agg_fee_def unwrap_def Let_def i128_sub_def i128_checked_def)
    have bal: "\<forall>t a. tk_balance H t a w' = (if t = base then moved (current_contract e) rcp out
        (moved (current_contract e) fee_to (gross * int bps div BPS) (\<lambda>a. tk_balance H base a w1)) a else tk_balance H t a w1)"
      using token_transfer_moves(4) [OF tr(1)] token_transfer_moves(4) [OF tr(2)] by (simp add: fee)
    from bal quote t a bps dep small [OF g(1)] sell f(2) show ?thesis
      unfolding fee by - (rule exI [of _ base], rule exI [of _ fee_to], rule exI [of _ bps], simp)
  next
    case buy
    with c obtain fee w1 where f: "fee_on x bps = Inr fee" and tr: "token_transfer H e base payer fee_to fee w = (Inr w1 :: (AggError, _) res)"
      and t: "mk_trade F (calling e fac) fac payer rcp i j (x - fee) m w1 = Some (out, w')" by auto
    have "0 < x" using trade_law [OF t] token_transfer_moves(1) [OF tr] by linarith
    with f fee_on_exact [OF _ x bps] have "fee = x * int bps div BPS" by simp
    with token_transfer_moves(4) [OF tr] t have "\<exists>w1. (\<forall>t a. tk_balance H t a w1 =
        (if t = base then moved payer fee_to (x * int bps div BPS) (\<lambda>a. tk_balance H base a w) a else tk_balance H t a w)) \<and>
      mk_trade F (calling e fac) fac payer rcp i j (x - x * int bps div BPS) m w1 = Some (out, w')" by (intro exI [of _ w1]) simp
    with a bps dep buy show ?thesis
      by - (rule exI [of _ base], rule exI [of _ fee_to], rule exI [of _ bps], auto)
  next
    case cross
    with c have t: "mk_trade F (calling e fac) fac payer rcp i j x m w = Some (out, w')" by auto
    have "quote_one F e fac i j x s w = Inr out"
      using trade_law [OF t] a(4,5) cross by (simp add: quote_one_def agg_fee_def unwrap_def Let_def)
    with t a bps dep cross show ?thesis
      by - (rule exI [of _ base], rule exI [of _ fee_to], rule exI [of _ bps], auto)
  qed
qed

end

subsection \<open>Over the repository's facilities\<close>

type_synonym 'w markets_world = "'w vaults_world \<times> (address \<Rightarrow> facility)"

definition deploy_to :: "'w host \<Rightarrow> 'w venue_host \<Rightarrow> address \<Rightarrow> deploy_args \<Rightarrow> 'w markets_world \<Rightarrow> 'w markets_world option" where
  "deploy_to H V a args u = (case args of
      A_Vault hst cfg \<Rightarrow>
        map_option (\<lambda>s. (((fst (fst u))(a := s), snd (fst u)), snd u)) (try_call (vault_constructor V hst cfg vault_empty (snd (fst u))))
    | A_Facility hst cfg \<Rightarrow>
        map_option (\<lambda>s. (fst u, (snd u)(a := s))) (try_call (fac_constructor (vaults_fns H V) hst cfg facility_empty (fst u)))
    | _ \<Rightarrow> Some u)"

definition markets_fns :: "'w host \<Rightarrow> 'w venue_host \<Rightarrow> (byte list \<Rightarrow> FacilityRoute option) \<Rightarrow> 'w markets_world market_fns" where
  "markets_fns H V route_of =
    \<lparr>mk_base = (\<lambda>e fac u. try_call (fac_base (snd u fac))),
     mk_quote = (\<lambda>e fac i j x u. try_call (fac_quote (beside_vaults H) (vaults_fns H V) e i j x (snd u fac) (fst u))),
     mk_trade = (\<lambda>e fac p r i j x m u. map_option (\<lambda>(out, s, w). (out, (w, (snd u)(fac := s))))
       (try_call (trade (beside_vaults H) (vaults_fns H V) e p r i j x m (snd u fac) (fst u)))),
     mk_deploy = (\<lambda>e k wasm args u. map_option (Pair (Contract k)) (deploy_to H V (Contract k) args u)),
     mk_route_of = route_of\<rparr>"

lemma price_trade_i128:
  assumes "price_trade H F e s i j x w = Inr (Inr t)"
  shows "0 < x" "0 < td_out t" "is_i128 (td_out t)"
proof -
  from assms obtain base val mark_in where p: "0 < x" "i \<noteq> j" "0 < td_out t"
    "if i = base then val = x \<and> mark_in = x else Facility.bid H e s i x w = Inr (Inr (val, mark_in))"
    "if j = base then td_out t = val \<and> td_gain t = mark_in - val
     else \<exists>mark_out. Facility.ask H F e s j val w = Inr (Inr (td_out t, mark_out)) \<and> td_gain t = mark_in - mark_out"
    by (rule price_trade_Inr)
  show "0 < x" "0 < td_out t" by (rule p)+
  have "td_out t \<le> i128_max"
  proof (cases "j = base")
    case True
    with p(2,4,5) have "Facility.bid H e s i x w = Inr (Inr (td_out t, mark_in))" by (auto split: if_splits)
    then show ?thesis by (auto simp: bid_iff mul_div_Inr_iff)
  next
    case False
    with p(5) obtain mark_out where "Facility.ask H F e s j val w = Inr (Inr (td_out t, mark_out))" by auto
    then show ?thesis by (rule ask_Inr) (simp add: mul_div_Inr_iff)
  qed
  with p(3) show "is_i128 (td_out t)" by (simp add: is_i128_def width_defs)
qed

lemma trade_quotes:
  assumes "trade H F e payer rcp i j x m s w = Inr (out, s', w')"
  shows "fac_quote H F e i j x s w = Inr out \<and> m \<le> out \<and> 0 < out \<and> is_i128 out \<and> 0 < x \<and> authorised e payer"
proof (rule trade_Inr [OF assms])
  fix p s1 t
  assume t: "authorised e payer" "fac_accrue_now H F e s w = Inr (p, s1)" "price_trade H F e s1 i j x w = Inr (Inr t)" "out = td_out t" "m \<le> out"
  then have "price_trade H F e s i j x w = Inr (Inr t)" using price_trade_accrued by metis
  with price_trade_i128 [OF this] t show ?thesis by (simp add: fac_quote_def)
qed

lemma markets_laws:
  assumes "sep41_host (beside_vaults H)"
  shows "market_laws (host_beside (beside_vaults H)) (markets_fns H V route_of) me Contract"
proof (intro market_laws.intro market_laws_axioms.intro)
  show "sep41_host (host_beside (beside_vaults H))" by (rule host_beside_sep41 [OF assms])
  fix e fac payer rcp i j x m w out w'
  assume "mk_trade (markets_fns H V route_of) e fac payer rcp i j x m w = Some (out, w')"
  then show "mk_quote (markets_fns H V route_of) e fac i j x w = Some out \<and> m \<le> out \<and> 0 < out \<and> is_i128 out \<and> 0 < x \<and> authorised e payer"
    by (auto simp: markets_fns_def rs dest!: trade_quotes)
qed (auto simp: markets_fns_def inj_def)

subsection \<open>A concrete aggregator\<close>

text \<open>
  A vault at the first salt's address, a facility over it at the second's, listed, with a fee of 1 %; beside them the vault of
  \<open>token_b\<close>.
\<close>

definition agg_vault :: address where "agg_vault = Contract (agg_salt 0)"
definition agg_facility :: address where "agg_facility = Contract (agg_salt 1)"

lemma agg_sites: "agg_salt 0 = 0" "agg_salt 1 = 1" "agg_salt (Suc 0) = 1" "agg_vault = Contract 0" "agg_facility = Contract 1"
  using agg_salt_value [of 0] agg_salt_value [of 1] by (simp_all add: agg_vault_def agg_facility_def word_uint_eq_iff)

definition agg_wasm_set :: Wasms where "agg_wasm_set = \<lparr>wa_vault = 1, wa_facility = 2, wa_queue = 3\<rparr>"

definition agg_new :: facility_aggregator where
  "agg_new = ag_empty\<lparr>ag_admin := Some admin_addr, ag_router := Some carol, ag_wasms := Some agg_wasm_set,
     ag_fee := Some (carol, 100), ag_active := Some []\<rparr>"

definition agg_demo :: facility_aggregator where
  "agg_demo = agg_new\<lparr>ag_salt := Some 2, ag_deployed := [agg_vault \<mapsto> K_Vault, agg_facility \<mapsto> K_Facility],
     ag_active := Some [agg_facility]\<rparr>"

definition agg_config :: FacilityConfig where "agg_config = fac_demo_config\<lparr>fg_base_vault := agg_vault\<rparr>"

definition held_by :: "address \<Rightarrow> vault \<Rightarrow> vault" where
  "held_by a v = v\<lparr>vt_shares := set_balance a (share_supply (vt_shares v)) (vt_shares v)\<rparr>"

definition market_world :: "venue_world markets_world" where
  "market_world = ((\<lambda>v. held_by agg_facility (fst fac_world v),
     ((\<lambda>t. funded_token\<lparr>tt_balances := [alice \<mapsto> 10000, bob \<mapsto> 10000, agg_vault \<mapsto> 1000, vault_b \<mapsto> 500]\<rparr>),
      snd (fst (snd fac_world))), snd (snd fac_world)), (\<lambda>_. demo_facility\<lparr>fc_config := Some agg_config\<rparr>))"

abbreviation "market_host \<equiv> host_beside fac_host"
abbreviation "market_ops \<equiv> markets_fns vw_host vw_venues (\<lambda>_. None)"

lemmas agg_eval = agg_sites agg_wasm_set_def agg_new_def agg_demo_def agg_config_def held_by_def market_world_def
  markets_fns_def deploy_to_def host_beside_def beside_def ag_empty_def active_def agg_paused_def

interpretation vw_beside: sep41_host fac_host by (rule beside_vaults_sep41) (rule vw.sep41_host_axioms)

interpretation market: market_laws market_host market_ops this_contract Contract
  by (rule markets_laws) (rule vw_beside.sep41_host_axioms)

lemmas agg_deploy_eval = create_vault_def create_facility_def agg_wasms_def expect_def deployed_kind_def agg_deploy_def next_salt_def
  vault_constructor_def fac_constructor_def shares_init_def DECIMALS_OFFSET_def agg_eval fac_demo vault_eval

lemma agg_demo_run: "agg_run market_host market_ops this_contract agg_demo"
proof -
  let ?s1 = "agg_new\<lparr>ag_salt := Some 1, ag_deployed := [agg_vault \<mapsto> K_Vault]\<rparr>"
  let ?s2 = "?s1\<lparr>ag_salt := Some (Suc (Suc 0)), ag_deployed := [agg_vault \<mapsto> K_Vault, agg_facility \<mapsto> K_Facility]\<rparr>"
  have "agg_constructor admin_addr carol agg_wasm_set carol 100 ag_empty = Inr agg_new"
    by (simp add: agg_constructor_def agg_check_fee_def AGG_MAX_FEE_BPS_def agg_new_def)
  then have r: "agg_run market_host market_ops this_contract agg_new" by (rule agg_run.deployed)
  have "\<exists>w. agg_exec market_host market_ops (demo_env 1) (AG_Vault demo_config) agg_new market_world = Inr (?s1, w)"
    by (simp add: agg_deploy_eval flip: agg_salt_def)
  with agg_run.called [OF r demo_env_simps(3)] have r: "agg_run market_host market_ops this_contract ?s1" by blast
  have "\<exists>w. agg_exec market_host market_ops (demo_env 1) (AG_Facility agg_config) ?s1 market_world = Inr (?s2, w)"
    by (simp add: agg_deploy_eval MAX_FEE_BPS_def flip: agg_salt_def)
  with agg_run.called [OF r demo_env_simps(3)] have r: "agg_run market_host market_ops this_contract ?s2" by blast
  have "agg_exec market_host market_ops (demo_env 1) (AG_Active agg_facility True) ?s2 market_world = Inr (agg_demo, market_world)"
    by (simp add: set_active_def agg_admin_auth_def agg_admin_def expect_def deployed_kind_def MAX_ACTIVE_def agg_eval)
  with agg_run.called [OF r demo_env_simps(3)] show ?thesis by blast
qed

lemma agg_demo_swap:
  "\<exists>w'. swap market_host market_ops (demo_env 5) bob alice token_b token_a 100 190 agg_facility agg_demo market_world = Inr (197, w')"
  by (simp add: swap_def agg_execute_def agg_fee_def fee_on_def agg_eval fac_ops fac_demo max_withdraw_def deposit_def enter_def pull_def
      credit_def withdraw_def exit_to_def send_def vault_eval demo_defs)

subsection \<open>Properties\<close>



text \<open>
  C27 (invariant). Whatever is called on a facility aggregator by anyone, its registry only grows: a contract it deployed keeps
  its kind for good, and sits at the address of a salt already counted; the facilities listed for trading are distinct, at most
  \<open>MAX_ACTIVE\<close>, and every one deployed here as a facility; the fee stays within its bound.
\<close>

theorem agg_registry_invariant:
  assumes laws: "market_laws H F me site" and run: "agg_run H F me s"
    and ex: "agg_exec H F e op s w = Inr (s', w')" and me: "current_contract e = me"
  shows "ag_deployed s \<subseteq>\<^sub>m ag_deployed s' \<and> distinct (active s') \<and> length (active s') \<le> MAX_ACTIVE \<and>
    set (active s') \<subseteq> {f. ag_deployed s' f = Some K_Facility} \<and>
    (\<exists>fee_to bps. ag_fee s' = Some (fee_to, bps) \<and> bps \<le> AGG_MAX_FEE_BPS) \<and>
    dom (ag_deployed s') \<subseteq> site ` agg_salt ` {..< salt_count s'}"
proof -
  from market_laws.agg_exec_inv [OF laws ex me market_laws.agg_run_inv [OF laws run]]
  have "agg_inv site s'" "ag_deployed s \<subseteq>\<^sub>m ag_deployed s'" by auto
  then show ?thesis by (force simp: agg_inv_def)
qed

theorem agg_registry_invariant_witness:
  "\<exists>s'. agg_exec market_host market_ops (demo_env 5) (AG_Active agg_facility False) agg_demo market_world = Inr (s', market_world) \<and>
     active s' = [] \<and> ag_deployed s' agg_vault = Some K_Vault"
proof -
  let ?s = "agg_demo\<lparr>ag_active := Some []\<rparr>"
  have ex: "agg_exec market_host market_ops (demo_env 5) (AG_Active agg_facility False) agg_demo market_world = Inr (?s, market_world)"
    by (simp add: set_active_def agg_admin_auth_def agg_admin_def expect_def deployed_kind_def agg_eval)
  have "ag_deployed agg_demo agg_vault = Some K_Vault" by (simp add: agg_eval)
  with agg_registry_invariant [OF market.market_laws_axioms agg_demo_run ex demo_env_simps(3)]
  have "ag_deployed ?s agg_vault = Some K_Vault" by simp
  with ex show ?thesis by (auto simp: active_def)
qed

end
