(* ===== verification/Dex_Aggregator.thy ===== *)
theory Dex_Aggregator
  imports Token_Interface
begin

text \<open>
  \<open>contracts/aggregators/dex/src/lib.rs\<close>: swaps along routes computed off-chain, through allowlisted DEX adapters or as calls of
  allowlisted routers, and keeps the fees until they are claimed. The storage is the record \<open>dex_aggregator\<close>. The adapters, the
  routers, the pre-authorisation of their transfers and the decoder of a route are the fields of \<open>dex_fns\<close>, \<open>None\<close> a call that
  fails. Events and TTL extension are left out.
\<close>

datatype DexError = DX_InvalidConfig | DX_InvalidRoute | DX_VenueNotAllowed | DX_BelowMinOut | DX_InputShortfall
  | DX_PartnerFeeTooHigh | DX_Paused | DX_TooManyVenues | DX_Overflow

definition MAX_PROTOCOL_FEE_BPS :: nat where "MAX_PROTOCOL_FEE_BPS = 100"
definition MAX_PARTNER_FEE_BPS :: nat where "MAX_PARTNER_FEE_BPS = 300"
definition MAX_DEX_VENUES :: nat where "MAX_DEX_VENUES = 16"
definition MAX_SPLITS :: nat where "MAX_SPLITS = 8"
definition MAX_HOPS :: nat where "MAX_HOPS = 4"

record Hop =
  hp_venue :: address
  hp_token_out :: address
  hp_data :: "byte list"

record Split =
  sp_amount_in :: int
  sp_hops :: "Hop list"

record Partner =
  pt_address :: address
  pt_fee_bps :: nat

record FeeConfig =
  fe_recipient :: address
  fe_protocol_fee_bps :: nat
  fe_max_partner_fee_bps :: nat
  fe_partner_share_bps :: nat

record SwapResult =
  sr_gross_out :: int
  sr_protocol_fee :: int
  sr_partner_fee :: int
  sr_amount_out :: int

record SwapDescription =
  sd_token_in :: address
  sd_token_out :: address
  sd_amount_in :: int
  sd_min_out :: int
  sd_to :: address

record DexCall =
  dc_target :: address
  dc_function :: symbol
  dc_args :: "val list"
  dc_auth :: "InvokerContractAuthEntry list"

datatype Route = R_Splits "Split list" | R_Calls "DexCall list"

record dex_aggregator =
  dx_admin :: "address option"
  dx_router :: "address option"
  dx_fees :: "FeeConfig option"
  dx_paused :: "bool option"
  dx_venues :: "address list option"
  dx_targets :: "address list option"
  dx_owed :: "address \<times> address \<rightharpoonup> int"
  dx_total_owed :: "address \<rightharpoonup> int"

definition dx_empty :: dex_aggregator where
  "dx_empty = \<lparr>dx_admin = None, dx_router = None, dx_fees = None, dx_paused = None, dx_venues = None, dx_targets = None,
     dx_owed = Map.empty, dx_total_owed = Map.empty\<rparr>"

record 'w dex_fns =
  da_quote :: "env \<Rightarrow> address \<Rightarrow> address \<Rightarrow> address \<Rightarrow> int \<Rightarrow> byte list \<Rightarrow> 'w \<Rightarrow> int option"
  da_swap :: "env \<Rightarrow> address \<Rightarrow> address \<Rightarrow> address \<Rightarrow> int \<Rightarrow> int \<Rightarrow> byte list \<Rightarrow> address \<Rightarrow> 'w \<Rightarrow> (int \<times> 'w) option"
  invoke_authorized :: "env \<Rightarrow> InvokerContractAuthEntry list \<Rightarrow> address \<Rightarrow> symbol \<Rightarrow> val list \<Rightarrow> 'w \<Rightarrow> (val \<times> 'w) option"
  dx_route_of :: "byte list \<Rightarrow> Route option"

text \<open>\<open>i128::try_from_val\<close>.\<close>

fun val_i128 :: "val \<Rightarrow> int option" where
  "val_i128 (I128Val x) = Some x"
| "val_i128 _ = None"

subsection \<open>Views and helpers\<close>

definition dex_admin :: "dex_aggregator \<Rightarrow> (DexError, address) res" where
  "dex_admin s = unwrap (dx_admin s)"

definition dex_router :: "dex_aggregator \<Rightarrow> (DexError, address) res" where
  "dex_router s = unwrap (dx_router s)"

definition fees :: "dex_aggregator \<Rightarrow> (DexError, FeeConfig) res" where
  "fees s = unwrap (dx_fees s)"

definition dex_paused :: "dex_aggregator \<Rightarrow> bool" where
  "dex_paused s = (dx_paused s = Some True)"

definition targets :: "dex_aggregator \<Rightarrow> address list" where
  "targets s = (case dx_targets s of None \<Rightarrow> [] | Some xs \<Rightarrow> xs)"

definition dex_venues :: "dex_aggregator \<Rightarrow> address list" where
  "dex_venues s = (case dx_venues s of None \<Rightarrow> [] | Some xs \<Rightarrow> xs)"

definition owed :: "address \<Rightarrow> address \<Rightarrow> dex_aggregator \<Rightarrow> int" where
  "owed recipient tok s = (case dx_owed s (recipient, tok) of None \<Rightarrow> 0 | Some x \<Rightarrow> x)"

definition total_owed :: "address \<Rightarrow> dex_aggregator \<Rightarrow> int" where
  "total_owed tok s = (case dx_total_owed s tok of None \<Rightarrow> 0 | Some x \<Rightarrow> x)"

definition not_paused :: "dex_aggregator \<Rightarrow> (DexError, unit) res" where
  "not_paused s = panic_if (dex_paused s) DX_Paused"

definition dex_admin_auth :: "env \<Rightarrow> dex_aggregator \<Rightarrow> (DexError, unit) res" where
  "dex_admin_auth e s = and_then (dex_admin s) (\<lambda>admin. require_auth e admin)"

definition free_balance :: "'w host \<Rightarrow> env \<Rightarrow> address \<Rightarrow> dex_aggregator \<Rightarrow> 'w \<Rightarrow> (DexError, int) res" where
  "free_balance H e tok s w = i128_sub (tk_balance H tok (current_contract e) w) (total_owed tok s)"

definition bps_of :: "int \<Rightarrow> nat \<Rightarrow> (DexError, int) res" where
  "bps_of amount bps = checked_math DX_Overflow DX_Overflow (mul_div amount (int bps) BPS)"

definition check_fees :: "FeeConfig \<Rightarrow> (DexError, unit) res" where
  "check_fees f = panic_if (MAX_PROTOCOL_FEE_BPS < fe_protocol_fee_bps f \<or> MAX_PARTNER_FEE_BPS < fe_max_partner_fee_bps f \<or>
     BPS < int (fe_partner_share_bps f)) DX_InvalidConfig"

definition dex_credit :: "address \<Rightarrow> address \<Rightarrow> int \<Rightarrow> dex_aggregator \<Rightarrow> (DexError, dex_aggregator) res" where
  "dex_credit recipient tok amount s =
    (if amount = 0 then Inr s
     else and_then (i128_add (owed recipient tok s) amount) (\<lambda>o'.
          and_then (i128_add (total_owed tok s) amount) (\<lambda>t'.
            Inr (s\<lparr>dx_owed := (dx_owed s)((recipient, tok) \<mapsto> o'), dx_total_owed := (dx_total_owed s)(tok \<mapsto> t')\<rparr>))))"

definition fees_on :: "int \<Rightarrow> Partner option \<Rightarrow> dex_aggregator \<Rightarrow> (DexError, int \<times> int) res" where
  "fees_on gross partner s =
    and_then (fees s) (\<lambda>f.
    and_then (bps_of gross (fe_protocol_fee_bps f)) (\<lambda>protocol.
    and_then (case partner of
        Some p \<Rightarrow> if fe_max_partner_fee_bps f < pt_fee_bps p then Inl (Err DX_PartnerFeeTooHigh) else bps_of gross (pt_fee_bps p)
      | None \<Rightarrow> Inr 0) (\<lambda>partner_fee.
      Inr (protocol, partner_fee))))"

definition accrue_fees :: "address \<Rightarrow> int \<Rightarrow> int \<Rightarrow> Partner option \<Rightarrow> dex_aggregator \<Rightarrow> (DexError, dex_aggregator) res" where
  "accrue_fees tok protocol_fee partner_fee partner s =
    and_then (fees s) (\<lambda>f.
    and_then (case partner of
        None \<Rightarrow> Inr (protocol_fee, s)
      | Some p \<Rightarrow>
          and_then (bps_of partner_fee (fe_partner_share_bps f)) (\<lambda>cut.
          and_then (i128_add protocol_fee cut) (\<lambda>to_protocol.
          and_then (i128_sub partner_fee cut) (\<lambda>rest.
          and_then (dex_credit (pt_address p) tok rest s) (\<lambda>s.
            Inr (to_protocol, s)))))) (\<lambda>(to_protocol, s).
      dex_credit (fe_recipient f) tok to_protocol s))"

subsection \<open>Deployment and governance\<close>

definition dex_constructor :: "address \<Rightarrow> address \<Rightarrow> FeeConfig \<Rightarrow> dex_aggregator \<Rightarrow> (DexError, dex_aggregator) res" where
  "dex_constructor admin router f s =
    and_then (check_fees f) (\<lambda>_.
      Inr (s\<lparr>dx_admin := Some admin, dx_router := Some router, dx_fees := Some f, dx_venues := Some []\<rparr>))"

definition allow_venue :: "env \<Rightarrow> address \<Rightarrow> bool \<Rightarrow> dex_aggregator \<Rightarrow> (DexError, dex_aggregator) res" where
  "allow_venue e venue allowed s =
    and_then (dex_admin_auth e s) (\<lambda>_.
      let xs = dex_venues s in
      case (index_of venue xs, allowed) of
        (None, True) \<Rightarrow> and_then (panic_if (MAX_DEX_VENUES \<le> length xs) DX_TooManyVenues) (\<lambda>_. Inr (s\<lparr>dx_venues := Some (xs @ [venue])\<rparr>))
      | (Some i, False) \<Rightarrow> Inr (s\<lparr>dx_venues := Some (remove_at i xs)\<rparr>)
      | _ \<Rightarrow> Inr s)"

definition allow_target :: "env \<Rightarrow> address \<Rightarrow> bool \<Rightarrow> dex_aggregator \<Rightarrow> (DexError, dex_aggregator) res" where
  "allow_target e target allowed s =
    and_then (dex_admin_auth e s) (\<lambda>_.
      let xs = targets s in
      case (index_of target xs, allowed) of
        (None, True) \<Rightarrow> and_then (panic_if (MAX_DEX_VENUES \<le> length xs) DX_TooManyVenues) (\<lambda>_. Inr (s\<lparr>dx_targets := Some (xs @ [target])\<rparr>))
      | (Some i, False) \<Rightarrow> Inr (s\<lparr>dx_targets := Some (remove_at i xs)\<rparr>)
      | _ \<Rightarrow> Inr s)"

definition set_fees :: "env \<Rightarrow> FeeConfig \<Rightarrow> dex_aggregator \<Rightarrow> (DexError, dex_aggregator) res" where
  "set_fees e f s = and_then (dex_admin_auth e s) (\<lambda>_. and_then (check_fees f) (\<lambda>_. Inr (s\<lparr>dx_fees := Some f\<rparr>)))"

definition dex_set_router :: "env \<Rightarrow> address \<Rightarrow> dex_aggregator \<Rightarrow> (DexError, dex_aggregator) res" where
  "dex_set_router e router s = and_then (dex_admin_auth e s) (\<lambda>_. Inr (s\<lparr>dx_router := Some router\<rparr>))"

definition dex_set_paused :: "env \<Rightarrow> bool \<Rightarrow> dex_aggregator \<Rightarrow> (DexError, dex_aggregator) res" where
  "dex_set_paused e paused s = and_then (dex_admin_auth e s) (\<lambda>_. Inr (s\<lparr>dx_paused := Some paused\<rparr>))"

text \<open>\<open>upgrade\<close>: the code hash handed to the host.\<close>

definition dex_upgrade :: "env \<Rightarrow> bytes32 \<Rightarrow> dex_aggregator \<Rightarrow> (DexError, bytes32) res" where
  "dex_upgrade e wasm_hash s = and_then (dex_admin_auth e s) (\<lambda>_. Inr wasm_hash)"

subsection \<open>Validation\<close>

primrec hops_allowed :: "address list \<Rightarrow> Hop list \<Rightarrow> (DexError, unit) res" where
  "hops_allowed venues [] = Inr ()"
| "hops_allowed venues (h # hs) = and_then (panic_if (index_of (hp_venue h) venues = None) DX_VenueNotAllowed) (\<lambda>_. hops_allowed venues hs)"

definition ends_right :: "address \<Rightarrow> Hop list \<Rightarrow> bool" where
  "ends_right token_out hops = (hops \<noteq> [] \<and> hp_token_out (last hops) = token_out)"

definition validate_split :: "address list \<Rightarrow> address \<Rightarrow> Split \<Rightarrow> (DexError, unit) res" where
  "validate_split venues token_out sp =
    and_then (panic_if (sp_amount_in sp \<le> 0 \<or> MAX_HOPS < length (sp_hops sp) \<or> \<not> ends_right token_out (sp_hops sp)) DX_InvalidRoute) (\<lambda>_.
      hops_allowed venues (sp_hops sp))"

primrec splits_total :: "address list \<Rightarrow> address \<Rightarrow> Split list \<Rightarrow> int \<Rightarrow> (DexError, int) res" where
  "splits_total venues token_out [] acc = Inr acc"
| "splits_total venues token_out (sp # sps) acc =
    and_then (validate_split venues token_out sp) (\<lambda>_.
    and_then (i128_add acc (sp_amount_in sp)) (\<lambda>acc. splits_total venues token_out sps acc))"

definition validate :: "address \<Rightarrow> address \<Rightarrow> int \<Rightarrow> Split list \<Rightarrow> dex_aggregator \<Rightarrow> (DexError, unit) res" where
  "validate token_in token_out amount_in route s =
    and_then (panic_if (token_in = token_out \<or> amount_in \<le> 0 \<or> route = [] \<or> MAX_SPLITS < length route) DX_InvalidRoute) (\<lambda>_.
    and_then (splits_total (dex_venues s) token_out route 0) (\<lambda>acc.
      panic_if (acc \<noteq> amount_in) DX_InvalidRoute))"

subsection \<open>Quotes\<close>

primrec quote_hops :: "'w dex_fns \<Rightarrow> env \<Rightarrow> Hop list \<Rightarrow> address \<Rightarrow> int \<Rightarrow> 'w \<Rightarrow> (DexError, int) res" where
  "quote_hops F e [] tok amount w = Inr amount"
| "quote_hops F e (h # hs) tok amount w =
    and_then (call_result (da_quote F (calling e (hp_venue h)) (hp_venue h) tok (hp_token_out h) amount (hp_data h) w)) (\<lambda>amount.
      quote_hops F e hs (hp_token_out h) amount w)"

primrec quote_splits :: "'w dex_fns \<Rightarrow> env \<Rightarrow> address \<Rightarrow> Split list \<Rightarrow> int \<Rightarrow> 'w \<Rightarrow> (DexError, int) res" where
  "quote_splits F e token_in [] gross w = Inr gross"
| "quote_splits F e token_in (sp # sps) gross w =
    and_then (quote_hops F e (sp_hops sp) token_in (sp_amount_in sp) w) (\<lambda>amount.
    and_then (i128_add gross amount) (\<lambda>gross. quote_splits F e token_in sps gross w))"

definition quote_route :: "'w dex_fns \<Rightarrow> env \<Rightarrow> address \<Rightarrow> address \<Rightarrow> int \<Rightarrow> Split list \<Rightarrow> Partner option \<Rightarrow> dex_aggregator \<Rightarrow> 'w \<Rightarrow>
    (DexError, int) res" where
  "quote_route F e token_in token_out amount_in route partner s w =
    and_then (validate token_in token_out amount_in route s) (\<lambda>_.
    and_then (quote_splits F e token_in route 0 w) (\<lambda>gross.
    and_then (fees_on gross partner s) (\<lambda>(protocol, partner_fee).
    and_then (i128_sub gross protocol) (\<lambda>x. i128_sub x partner_fee))))"

primrec best_quote :: "'w dex_fns \<Rightarrow> env \<Rightarrow> address \<Rightarrow> address \<Rightarrow> int \<Rightarrow> 'w \<Rightarrow> address list \<Rightarrow> int \<Rightarrow> int" where
  "best_quote F e token_in token_out amount_in w [] best = best"
| "best_quote F e token_in token_out amount_in w (v # vs) best =
    best_quote F e token_in token_out amount_in w vs
      (case da_quote F (calling e v) v token_in token_out amount_in [] w of Some q \<Rightarrow> max best q | None \<Rightarrow> best)"

definition dex_quote :: "'w dex_fns \<Rightarrow> env \<Rightarrow> address \<Rightarrow> address \<Rightarrow> int \<Rightarrow> dex_aggregator \<Rightarrow> 'w \<Rightarrow> (DexError, int) res" where
  "dex_quote F e token_in token_out amount_in s w =
    (let best = best_quote F e token_in token_out amount_in w (dex_venues s) 0 in
     and_then (fees_on best None s) (\<lambda>(protocol, _). i128_sub best protocol))"

subsection \<open>Execution\<close>

text \<open>Each hop's output is what arrived at the aggregator.\<close>

primrec execute_hops :: "'w host \<Rightarrow> 'w dex_fns \<Rightarrow> env \<Rightarrow> Hop list \<Rightarrow> address \<Rightarrow> int \<Rightarrow> 'w \<Rightarrow> (DexError, int \<times> 'w) res" where
  "execute_hops H F e [] tok amount w = Inr (amount, w)"
| "execute_hops H F e (h # hs) tok amount w =
    (let me = current_contract e; venue = hp_venue h; out = hp_token_out h in
     and_then (token_transfer H e tok me venue amount w) (\<lambda>w.
     let before = tk_balance H out me w in
     and_then (call_result (da_swap F (calling e venue) venue tok out amount 0 (hp_data h) me w)) (\<lambda>(_, w).
     and_then (i128_sub (tk_balance H out me w) before) (\<lambda>amount.
       execute_hops H F e hs out amount w))))"

primrec execute_splits :: "'w host \<Rightarrow> 'w dex_fns \<Rightarrow> env \<Rightarrow> address \<Rightarrow> Split list \<Rightarrow> int \<Rightarrow> 'w \<Rightarrow> (DexError, int \<times> 'w) res" where
  "execute_splits H F e token_in [] gross w = Inr (gross, w)"
| "execute_splits H F e token_in (sp # sps) gross w =
    and_then (execute_hops H F e (sp_hops sp) token_in (sp_amount_in sp) w) (\<lambda>(amount, w).
    and_then (i128_add gross amount) (\<lambda>gross.
      execute_splits H F e token_in sps gross w))"

definition dex_execute :: "'w host \<Rightarrow> 'w dex_fns \<Rightarrow> env \<Rightarrow> address \<Rightarrow> Split list \<Rightarrow> 'w \<Rightarrow> (DexError, int \<times> 'w) res" where
  "dex_execute H F e token_in route w = execute_splits H F e token_in route 0 w"

definition spend_of :: "address \<Rightarrow> address \<Rightarrow> InvokerContractAuthEntry \<Rightarrow> (DexError, int) res" where
  "spend_of token_in me entry =
    (case entry of
       ContractEntry contract fn_name args sub \<Rightarrow>
         (let arg = (\<lambda>i. if i < length args then Some (args ! i) else None);
              from_arg = Option.bind (arg 0) val_address; amount = Option.bind (arg 2) val_i128 in
          if contract = token_in \<and> fn_name = ''transfer'' \<and> sub = [] \<and> from_arg = Some me then
            (case amount of Some a \<Rightarrow> if 0 \<le> a then Inr a else Inl (Err DX_InvalidRoute) | None \<Rightarrow> Inl (Err DX_InvalidRoute))
          else Inl (Err DX_InvalidRoute))
     | _ \<Rightarrow> Inl (Err DX_InvalidRoute))"

primrec spend_all :: "address \<Rightarrow> address \<Rightarrow> InvokerContractAuthEntry list \<Rightarrow> int \<Rightarrow> (DexError, int) res" where
  "spend_all token_in me [] budget = Inr budget"
| "spend_all token_in me (en # ens) budget =
    and_then (spend_of token_in me en) (\<lambda>x.
    and_then (i128_sub budget x) (\<lambda>budget. spend_all token_in me ens budget))"

primrec run_calls :: "'w dex_fns \<Rightarrow> env \<Rightarrow> address list \<Rightarrow> address \<Rightarrow> address \<Rightarrow> DexCall list \<Rightarrow> int \<Rightarrow> 'w \<Rightarrow> (DexError, 'w) res" where
  "run_calls F e allowed token_in token_out [] budget w = Inr w"
| "run_calls F e allowed token_in token_out (c # cs) budget w =
    and_then (panic_if (index_of (dc_target c) allowed = None \<or> dc_target c = token_in \<or> dc_target c = token_out) DX_VenueNotAllowed) (\<lambda>_.
    and_then (spend_all token_in (current_contract e) (dc_auth c) budget) (\<lambda>budget.
    and_then (panic_if (budget < 0) DX_InvalidRoute) (\<lambda>_.
    and_then (call_result (invoke_authorized F (calling e (dc_target c)) (dc_auth c) (dc_target c) (dc_function c) (dc_args c) w)) (\<lambda>(_, w).
      run_calls F e allowed token_in token_out cs budget w))))"

definition execute_calls :: "'w host \<Rightarrow> 'w dex_fns \<Rightarrow> env \<Rightarrow> address \<Rightarrow> address \<Rightarrow> int \<Rightarrow> DexCall list \<Rightarrow> address \<Rightarrow> dex_aggregator \<Rightarrow> 'w \<Rightarrow>
    (DexError, int \<times> 'w) res" where
  "execute_calls H F e token_in token_out amount_in calls refund s w =
    (let me = current_contract e; in_before = tk_balance H token_in me w; out_before = tk_balance H token_out me w in
     and_then (run_calls F e (targets s) token_in token_out calls amount_in w) (\<lambda>w.
     and_then (i128_sub in_before (tk_balance H token_in me w)) (\<lambda>spent.
     and_then (panic_if (amount_in < spent) DX_InputShortfall) (\<lambda>_.
     and_then (if spent < amount_in then and_then (i128_sub amount_in spent) (\<lambda>x. token_transfer H e token_in me refund x w)
               else Inr w) (\<lambda>w.
     and_then (i128_sub (tk_balance H token_out me w) out_before) (\<lambda>gross.
       Inr (gross, w)))))))"

definition settle :: "'w host \<Rightarrow> env \<Rightarrow> address \<Rightarrow> int \<Rightarrow> Partner option \<Rightarrow> int \<Rightarrow> address \<Rightarrow> dex_aggregator \<Rightarrow> 'w \<Rightarrow>
    (DexError, SwapResult \<times> dex_aggregator \<times> 'w) res" where
  "settle H e token_out gross partner min_out to s w =
    and_then (fees_on gross partner s) (\<lambda>(protocol_fee, partner_fee).
    and_then (i128_sub gross protocol_fee) (\<lambda>x.
    and_then (i128_sub x partner_fee) (\<lambda>amount_out.
    and_then (panic_if (amount_out < min_out) DX_BelowMinOut) (\<lambda>_.
    and_then (accrue_fees token_out protocol_fee partner_fee partner s) (\<lambda>s.
    and_then (token_transfer H e token_out (current_contract e) to amount_out w) (\<lambda>w.
      Inr (\<lparr>sr_gross_out = gross, sr_protocol_fee = protocol_fee, sr_partner_fee = partner_fee, sr_amount_out = amount_out\<rparr>, s, w)))))))"

text \<open>The input of a direct swap, held to what arrived.\<close>

definition take_input :: "'w host \<Rightarrow> env \<Rightarrow> address \<Rightarrow> SwapDescription \<Rightarrow> dex_aggregator \<Rightarrow> 'w \<Rightarrow> (DexError, 'w) res" where
  "take_input H e user desc s w =
    and_then (free_balance H e (sd_token_in desc) s w) (\<lambda>before.
    and_then (token_transfer H e (sd_token_in desc) user (current_contract e) (sd_amount_in desc) w) (\<lambda>w.
    and_then (free_balance H e (sd_token_in desc) s w) (\<lambda>after.
    and_then (i128_sub after before) (\<lambda>got.
    and_then (panic_if (got < sd_amount_in desc) DX_InputShortfall) (\<lambda>_. Inr w)))))"

definition dex_swap :: "'w host \<Rightarrow> 'w dex_fns \<Rightarrow> env \<Rightarrow> address \<Rightarrow> SwapDescription \<Rightarrow> Split list \<Rightarrow> Partner option \<Rightarrow> dex_aggregator \<Rightarrow> 'w \<Rightarrow>
    (DexError, SwapResult \<times> dex_aggregator \<times> 'w) res" where
  "dex_swap H F e user desc route partner s w =
    and_then (require_auth e user) (\<lambda>_.
    and_then (not_paused s) (\<lambda>_.
    and_then (validate (sd_token_in desc) (sd_token_out desc) (sd_amount_in desc) route s) (\<lambda>_.
    and_then (take_input H e user desc s w) (\<lambda>w.
    and_then (dex_execute H F e (sd_token_in desc) route w) (\<lambda>(gross, w).
      settle H e (sd_token_out desc) gross partner (sd_min_out desc) (sd_to desc) s w)))))"

definition swap_calls :: "'w host \<Rightarrow> 'w dex_fns \<Rightarrow> env \<Rightarrow> address \<Rightarrow> SwapDescription \<Rightarrow> DexCall list \<Rightarrow> Partner option \<Rightarrow> dex_aggregator \<Rightarrow> 'w \<Rightarrow>
    (DexError, SwapResult \<times> dex_aggregator \<times> 'w) res" where
  "swap_calls H F e user desc calls partner s w =
    and_then (require_auth e user) (\<lambda>_.
    and_then (not_paused s) (\<lambda>_.
    and_then (panic_if (sd_token_in desc = sd_token_out desc \<or> sd_amount_in desc \<le> 0 \<or> calls = []) DX_InvalidRoute) (\<lambda>_.
    and_then (take_input H e user desc s w) (\<lambda>w.
    and_then (execute_calls H F e (sd_token_in desc) (sd_token_out desc) (sd_amount_in desc) calls user s w) (\<lambda>(gross, w).
      settle H e (sd_token_out desc) gross partner (sd_min_out desc) (sd_to desc) s w)))))"

definition dex_fill :: "'w host \<Rightarrow> 'w dex_fns \<Rightarrow> env \<Rightarrow> address \<Rightarrow> address \<Rightarrow> address \<Rightarrow> int \<Rightarrow> int \<Rightarrow> byte list \<Rightarrow> dex_aggregator \<Rightarrow> 'w \<Rightarrow>
    (DexError, int \<times> dex_aggregator \<times> 'w) res" where
  "dex_fill H F e recipient token_in token_out amount_in min_amount_out data s w =
    and_then (dex_router s) (\<lambda>router.
    and_then (require_auth e router) (\<lambda>_.
    and_then (not_paused s) (\<lambda>_.
    and_then (panic_if (data = []) DX_InvalidRoute) (\<lambda>_.
    and_then (free_balance H e token_in s w) (\<lambda>avail.
    and_then (panic_if (avail < amount_in) DX_InputShortfall) (\<lambda>_.
    and_then (case dx_route_of F data of
        Some (R_Splits route) \<Rightarrow> and_then (validate token_in token_out amount_in route s) (\<lambda>_. dex_execute H F e token_in route w)
      | Some (R_Calls calls) \<Rightarrow> execute_calls H F e token_in token_out amount_in calls recipient s w
      | None \<Rightarrow> Inl (Err DX_InvalidRoute)) (\<lambda>(gross, w).
    and_then (settle H e token_out gross None min_amount_out recipient s w) (\<lambda>(r, sw).
      Inr (sr_amount_out r, sw)))))))))"

primrec claim_tokens :: "'w host \<Rightarrow> env \<Rightarrow> address \<Rightarrow> address list \<Rightarrow> dex_aggregator \<Rightarrow> 'w \<Rightarrow>
    (DexError, int list \<times> dex_aggregator \<times> 'w) res" where
  "claim_tokens H e recipient [] s w = Inr ([], s, w)"
| "claim_tokens H e recipient (tok # toks) s w =
    (let amount = owed recipient tok s in
     and_then (if 0 < amount then
         and_then (dex_credit recipient tok (- amount) s) (\<lambda>s.
         and_then (token_transfer H e tok (current_contract e) recipient amount w) (\<lambda>w. Inr (s, w)))
       else Inr (s, w)) (\<lambda>(s, w).
     and_then (claim_tokens H e recipient toks s w) (\<lambda>(paid, sw).
       Inr (amount # paid, sw))))"

definition dex_claim :: "'w host \<Rightarrow> env \<Rightarrow> address \<Rightarrow> address list \<Rightarrow> dex_aggregator \<Rightarrow> 'w \<Rightarrow>
    (DexError, int list \<times> dex_aggregator \<times> 'w) res" where
  "dex_claim H e recipient toks s w = and_then (require_auth e recipient) (\<lambda>_. claim_tokens H e recipient toks s w)"

subsection \<open>Calls\<close>

datatype dex_op = DX_Venue address bool | DX_Target address bool | DX_Fees FeeConfig | DX_Router address | DX_Pause bool
  | DX_Swap address SwapDescription "Split list" "Partner option" | DX_Calls address SwapDescription "DexCall list" "Partner option"
  | DX_Fill address address address int int "byte list" | DX_Claim address "address list"

fun dex_exec :: "'w host \<Rightarrow> 'w dex_fns \<Rightarrow> env \<Rightarrow> dex_op \<Rightarrow> dex_aggregator \<Rightarrow> 'w \<Rightarrow> (DexError, dex_aggregator \<times> 'w) res" where
  "dex_exec H F e (DX_Venue a b) s w = and_then (allow_venue e a b s) (\<lambda>s. Inr (s, w))"
| "dex_exec H F e (DX_Target a b) s w = and_then (allow_target e a b s) (\<lambda>s. Inr (s, w))"
| "dex_exec H F e (DX_Fees f) s w = and_then (set_fees e f s) (\<lambda>s. Inr (s, w))"
| "dex_exec H F e (DX_Router a) s w = and_then (dex_set_router e a s) (\<lambda>s. Inr (s, w))"
| "dex_exec H F e (DX_Pause b) s w = and_then (dex_set_paused e b s) (\<lambda>s. Inr (s, w))"
| "dex_exec H F e (DX_Swap u d r p) s w = and_then (dex_swap H F e u d r p s w) (\<lambda>(_, sw). Inr sw)"
| "dex_exec H F e (DX_Calls u d cs p) s w = and_then (swap_calls H F e u d cs p s w) (\<lambda>(_, sw). Inr sw)"
| "dex_exec H F e (DX_Fill r i j x m d) s w = and_then (dex_fill H F e r i j x m d s w) (\<lambda>(_, sw). Inr sw)"
| "dex_exec H F e (DX_Claim r ts) s w = and_then (dex_claim H e r ts s w) (\<lambda>(_, sw). Inr sw)"

end
