(* ===== verification/Dex_Adapters.thy ===== *)
theory Dex_Adapters
  imports Dex_Aggregator "HOL-Library.Signed_Division"
begin

text \<open>
  The DEX adapters behind the aggregator: \<open>contracts/adapters/soroswap\<close>, \<open>contracts/adapters/aquarius\<close> and the test venue
  \<open>contracts/mocks/mock_dex\<close>. The Soroswap router and the Aquarius pools are parameters; a call that is made right after
  \<open>authorize_as_current_contract\<close> takes the entries that were authorised.
\<close>

subsection \<open>The test venue\<close>

record mock_dex =
  md_rate :: "int option"
  md_shortfall :: "int option"

definition md_constructor :: "int \<Rightarrow> int \<Rightarrow> mock_dex \<Rightarrow> mock_dex" where
  "md_constructor rate_bps shortfall s = s\<lparr>md_rate := Some rate_bps, md_shortfall := Some shortfall\<rparr>"

definition md_quote :: "int \<Rightarrow> mock_dex \<Rightarrow> ('e, int) res" where
  "md_quote amount_in s =
    and_then (unwrap (md_rate s)) (\<lambda>rate.
    and_then (i128_mul amount_in rate) (\<lambda>x. i128_checked (x sdiv 10000)))"

definition md_swap :: "'w host \<Rightarrow> env \<Rightarrow> address \<Rightarrow> address \<Rightarrow> int \<Rightarrow> int \<Rightarrow> byte list \<Rightarrow> address \<Rightarrow> mock_dex \<Rightarrow> 'w \<Rightarrow> ('e, int \<times> 'w) res" where
  "md_swap H e token_in token_out amount_in min_out data to s w =
    and_then (unwrap (md_shortfall s)) (\<lambda>short.
    and_then (md_quote amount_in s) (\<lambda>q.
    and_then (i128_sub q short) (\<lambda>out.
    and_then (if min_out \<le> out then Inr () else Inl (Trap AssertFailed)) (\<lambda>_.
    and_then (token_transfer H e token_out (current_contract e) to out w) (\<lambda>w.
      Inr (out, w))))))"

subsection \<open>Soroswap\<close>

record 'w soroswap_fns =
  sw_swap_exact :: "env \<Rightarrow> InvokerContractAuthEntry list \<Rightarrow> address \<Rightarrow> int \<Rightarrow> int \<Rightarrow> address list \<Rightarrow> address \<Rightarrow> nat \<Rightarrow> 'w \<Rightarrow> (int list \<times> 'w) option"
  sw_get_amounts_out :: "env \<Rightarrow> address \<Rightarrow> int \<Rightarrow> address list \<Rightarrow> 'w \<Rightarrow> int list option"
  sw_pair_for :: "env \<Rightarrow> address \<Rightarrow> address \<Rightarrow> address \<Rightarrow> 'w \<Rightarrow> address option"

record soroswap_adapter =
  so_aggregator :: "address option"
  so_router :: "address option"

definition so_constructor :: "address \<Rightarrow> address \<Rightarrow> soroswap_adapter \<Rightarrow> soroswap_adapter" where
  "so_constructor aggregator router s = s\<lparr>so_aggregator := Some aggregator, so_router := Some router\<rparr>"

definition soroswap_router :: "soroswap_adapter \<Rightarrow> ('e, address) res" where
  "soroswap_router s = unwrap (so_router s)"

definition so_quote :: "'w soroswap_fns \<Rightarrow> env \<Rightarrow> address \<Rightarrow> address \<Rightarrow> int \<Rightarrow> soroswap_adapter \<Rightarrow> 'w \<Rightarrow> ('e, int) res" where
  "so_quote R e token_in token_out amount_in s w =
    and_then (soroswap_router s) (\<lambda>router.
    and_then (call_result (sw_get_amounts_out R (calling e router) router amount_in [token_in, token_out] w)) (\<lambda>amounts.
      Inr (if amounts = [] then 0 else last amounts)))"

definition so_swap :: "'w host \<Rightarrow> 'w soroswap_fns \<Rightarrow> env \<Rightarrow> address \<Rightarrow> address \<Rightarrow> int \<Rightarrow> int \<Rightarrow> address \<Rightarrow> soroswap_adapter \<Rightarrow> 'w \<Rightarrow>
    ('e, int \<times> 'w) res" where
  "so_swap H R e token_in token_out amount_in min_out to s w =
    and_then (unwrap (so_aggregator s)) (\<lambda>aggregator.
    and_then (require_auth e aggregator) (\<lambda>_.
      let me = current_contract e in
      and_then (soroswap_router s) (\<lambda>router.
      and_then (call_result (sw_pair_for R (calling e router) router token_in token_out w)) (\<lambda>pair.
        let before = tk_balance H token_out me w in
        and_then (u64_add (ledger_timestamp e) 1) (\<lambda>deadline.
        and_then (call_result (sw_swap_exact R (calling e router) [transfer_entry token_in me pair amount_in] router
            amount_in min_out [token_in, token_out] me deadline w)) (\<lambda>(_, w).
        and_then (i128_sub (tk_balance H token_out me w) before) (\<lambda>received.
        and_then (token_transfer H e token_out me to received w) (\<lambda>w.
          Inr (received, w)))))))))"

subsection \<open>Aquarius\<close>

datatype AquariusError = AQ_InvalidPool | AQ_TokenNotInPool | AQ_InvalidAmount

record 'w aqua_fns =
  aq_pool_swap :: "env \<Rightarrow> InvokerContractAuthEntry list \<Rightarrow> address \<Rightarrow> address \<Rightarrow> nat \<Rightarrow> nat \<Rightarrow> nat \<Rightarrow> nat \<Rightarrow> 'w \<Rightarrow> (nat \<times> 'w) option"
  aq_estimate_swap :: "env \<Rightarrow> address \<Rightarrow> nat \<Rightarrow> nat \<Rightarrow> nat \<Rightarrow> 'w \<Rightarrow> nat option"
  aq_get_tokens :: "env \<Rightarrow> address \<Rightarrow> 'w \<Rightarrow> address list option"
  aq_address_of :: "byte list \<Rightarrow> address option"

record aquarius_adapter =
  aq_aggregator :: "address option"

definition CONTRACT_ADDRESS_XDR_LEN :: nat where "CONTRACT_ADDRESS_XDR_LEN = 40"

definition aq_constructor :: "address \<Rightarrow> aquarius_adapter \<Rightarrow> aquarius_adapter" where
  "aq_constructor aggregator s = s\<lparr>aq_aggregator := Some aggregator\<rparr>"

definition aq_pool :: "'w aqua_fns \<Rightarrow> byte list \<Rightarrow> (AquariusError, address) res" where
  "aq_pool P data =
    and_then (panic_if (length data \<noteq> CONTRACT_ADDRESS_XDR_LEN) AQ_InvalidPool) (\<lambda>_. or_panic (aq_address_of P data) AQ_InvalidPool)"

definition aq_indices :: "'w aqua_fns \<Rightarrow> env \<Rightarrow> address \<Rightarrow> address \<Rightarrow> address \<Rightarrow> 'w \<Rightarrow> (AquariusError, nat \<times> nat) res" where
  "aq_indices P e pool token_in token_out w =
    and_then (call_result (aq_get_tokens P (calling e pool) pool w)) (\<lambda>tokens.
      case (index_of token_in tokens, index_of token_out tokens) of
        (Some i, Some o') \<Rightarrow> Inr (i, o')
      | _ \<Rightarrow> Inl (Err AQ_TokenNotInPool))"

definition aq_unsigned :: "int \<Rightarrow> (AquariusError, nat) res" where
  "aq_unsigned v = and_then (panic_if (v < 0) AQ_InvalidAmount) (\<lambda>_. Inr (nat v))"

text \<open>The cast \<open>u128 as i128\<close>.\<close>

definition u128_as_i128 :: "nat \<Rightarrow> int" where
  "u128_as_i128 n = (if int n \<le> i128_max then int n else int n - 2 ^ 128)"

definition aq_quote :: "'w aqua_fns \<Rightarrow> env \<Rightarrow> address \<Rightarrow> address \<Rightarrow> int \<Rightarrow> byte list \<Rightarrow> 'w \<Rightarrow> (AquariusError, int) res" where
  "aq_quote P e token_in token_out amount_in data w =
    and_then (aq_pool P data) (\<lambda>pool.
    and_then (aq_indices P e pool token_in token_out w) (\<lambda>(i, o').
    and_then (aq_unsigned amount_in) (\<lambda>x.
    and_then (call_result (aq_estimate_swap P (calling e pool) pool i o' x w)) (\<lambda>q.
      Inr (u128_as_i128 q)))))"

definition aq_swap :: "'w host \<Rightarrow> 'w aqua_fns \<Rightarrow> env \<Rightarrow> address \<Rightarrow> address \<Rightarrow> int \<Rightarrow> int \<Rightarrow> byte list \<Rightarrow> address \<Rightarrow> aquarius_adapter \<Rightarrow> 'w \<Rightarrow>
    (AquariusError, int \<times> 'w) res" where
  "aq_swap H P e token_in token_out amount_in min_out data to s w =
    and_then (unwrap (aq_aggregator s)) (\<lambda>aggregator.
    and_then (require_auth e aggregator) (\<lambda>_.
      let me = current_contract e in
      and_then (aq_pool P data) (\<lambda>pool.
      and_then (aq_indices P e pool token_in token_out w) (\<lambda>(i, o').
        let before = tk_balance H token_out me w in
        and_then (aq_unsigned amount_in) (\<lambda>x.
        and_then (aq_unsigned min_out) (\<lambda>m.
        and_then (call_result (aq_pool_swap P (calling e pool) [transfer_entry token_in me pool amount_in] pool me i o' x m w)) (\<lambda>(_, w).
        and_then (i128_sub (tk_balance H token_out me w) before) (\<lambda>received.
        and_then (token_transfer H e token_out me to received w) (\<lambda>w.
          Inr (received, w))))))))))"

end
