(* ===== verification/Dex_Inv.thy ===== *)
theory Dex_Inv
  imports Dex_Adapters
begin

text \<open>
  The book of fees of the DEX aggregator and what its operations do to it. Inside \<open>dex_laws\<close>, which says that the contracts
  it calls cannot take its tokens, every entry point keeps the aggregator's balances above the fees it owes.
\<close>

subsection \<open>The book of fees\<close>

definition fees_ok :: "FeeConfig \<Rightarrow> bool" where
  "fees_ok f \<longleftrightarrow> fe_protocol_fee_bps f \<le> MAX_PROTOCOL_FEE_BPS \<and> fe_max_partner_fee_bps f \<le> MAX_PARTNER_FEE_BPS \<and>
     int (fe_partner_share_bps f) \<le> BPS"

definition owed_sum :: "address \<Rightarrow> dex_aggregator \<Rightarrow> int" where
  "owed_sum t s = map_total (\<lambda>k x. if snd k = t then x else 0) (dx_owed s)"

definition books :: "dex_aggregator \<Rightarrow> bool" where
  "books s \<longleftrightarrow> finite (dom (dx_owed s)) \<and> (\<forall>k x. dx_owed s k = Some x \<longrightarrow> 0 \<le> x) \<and> (\<forall>t. total_owed t s = owed_sum t s) \<and> (\<forall>t. is_i128 (owed_sum t s))"

text \<open>What the operations on the book leave alone.\<close>

definition same_settings :: "dex_aggregator \<Rightarrow> dex_aggregator \<Rightarrow> bool" where
  "same_settings s s' \<longleftrightarrow> s'\<lparr>dx_owed := dx_owed s, dx_total_owed := dx_total_owed s\<rparr> = s"

lemma same_settings_fields:
  assumes "same_settings s s'"
  shows "dx_admin s' = dx_admin s" "dx_router s' = dx_router s" "dx_fees s' = dx_fees s" "dx_paused s' = dx_paused s"
    "dx_venues s' = dx_venues s" "dx_targets s' = dx_targets s"
  using arg_cong [OF assms [unfolded same_settings_def], of dx_admin] arg_cong [OF assms [unfolded same_settings_def], of dx_router]
    arg_cong [OF assms [unfolded same_settings_def], of dx_fees] arg_cong [OF assms [unfolded same_settings_def], of dx_paused]
    arg_cong [OF assms [unfolded same_settings_def], of dx_venues] arg_cong [OF assms [unfolded same_settings_def], of dx_targets]
  by simp_all

lemma same_settings_trans: "same_settings s s' \<Longrightarrow> same_settings s' s'' \<Longrightarrow> same_settings s s''"
  using same_settings_fields [of s s'] same_settings_fields [of s' s''] unfolding same_settings_def
  by (intro dex_aggregator.equality) simp_all

lemma owed_nonneg: "books s \<Longrightarrow> 0 \<le> owed r t s"
  by (auto simp: books_def owed_def split: option.splits)

lemma owed_le_total: assumes "books s" shows "owed r t s \<le> total_owed t s"
proof (cases "dx_owed s (r, t)")
  case None
  have "0 \<le> owed_sum t s" unfolding owed_sum_def using assms by (intro map_total_nonneg) (auto simp: books_def)
  with None assms show ?thesis by (simp add: owed_def books_def)
next
  case (Some x)
  let ?g = "\<lambda>k. case dx_owed s k of None \<Rightarrow> 0 | Some v \<Rightarrow> if snd k = t then v else 0"
  have "?g (r, t) \<le> total_over (dom (dx_owed s)) ?g"
    using assms Some by (intro total_over_ge) (auto simp: books_def split: option.splits)
  with Some assms show ?thesis by (simp add: books_def owed_sum_def map_total_def owed_def)
qed

lemma dex_credit_Inr:
  assumes "dex_credit r t x s = Inr s'" "books s" "0 \<le> owed r t s + x"
  shows "books s'" "owed a u s' = owed a u s + (if a = r \<and> u = t then x else 0)"
    "total_owed u s' = total_owed u s + (if u = t then x else 0)" "same_settings s s'"
proof -
  have "books s' \<and> owed a u s' = owed a u s + (if a = r \<and> u = t then x else 0) \<and>
    total_owed u s' = total_owed u s + (if u = t then x else 0) \<and> same_settings s s'"
  proof (cases "x = 0")
    case True
    with assms(1,2) show ?thesis by (simp add: dex_credit_def same_settings_def)
  next
    case False
    with assms(1) have s': "s' = s\<lparr>dx_owed := (dx_owed s)((r, t) \<mapsto> owed r t s + x), dx_total_owed := (dx_total_owed s)(t \<mapsto> total_owed t s + x)\<rparr>"
      and fits: "is_i128 (total_owed t s + x)" by (auto simp: dex_credit_def rs)
    have tot: "total_owed u s' = total_owed u s + (if u = t then x else 0)" for u by (simp add: s' total_owed_def)
    have "owed_sum u s' = owed_sum u s + (if u = t then x else 0)" for u
      using map_total_put [of "dx_owed s" "\<lambda>k x. if snd k = u then x else 0" "(r, t)"] assms(2)
      by (simp add: owed_sum_def s' books_def owed_def split: option.splits)
    then have "books s'" using assms(2,3) tot fits by (auto simp: books_def s')
    with tot show ?thesis by (simp add: s' owed_def same_settings_def)
  qed
  then show "books s'" "owed a u s' = owed a u s + (if a = r \<and> u = t then x else 0)"
    "total_owed u s' = total_owed u s + (if u = t then x else 0)" "same_settings s s'" by auto
qed

subsection \<open>Fees\<close>

lemma dex_reads_Inr_iff [rs]:
  "dex_admin s = Inr a \<longleftrightarrow> dx_admin s = Some a"
  "dex_router s = Inr a \<longleftrightarrow> dx_router s = Some a"
  "fees s = Inr f \<longleftrightarrow> dx_fees s = Some f"
  "not_paused s = Inr u \<longleftrightarrow> \<not> dex_paused s"
  "dex_admin_auth e s = Inr u \<longleftrightarrow> (\<exists>a. dx_admin s = Some a \<and> authorised e a)"
  "check_fees f = Inr u \<longleftrightarrow> fees_ok f"
  "bps_of x n = Inr q \<longleftrightarrow> mul_div x (int n) BPS = Inr q"
  "free_balance H e t s w = Inr x \<longleftrightarrow> x = tk_balance H t (current_contract e) w - total_owed t s \<and> is_i128 x"
  by (auto simp: dex_admin_def dex_router_def fees_def not_paused_def dex_admin_auth_def check_fees_def bps_of_def free_balance_def rs fees_ok_def not_less)

definition cut_of :: "int \<Rightarrow> nat \<Rightarrow> int" where "cut_of x n = x * int n div BPS"

lemma cut_of_bounds:
  assumes "0 \<le> x" "int n \<le> k"
  shows "0 \<le> cut_of x n" "BPS * cut_of x n \<le> k * x"
proof -
  have "x * int n \<le> k * x" using mult_left_mono [OF assms(2,1)] by (simp add: mult.commute)
  moreover have "BPS * cut_of x n \<le> x * int n"
    unfolding cut_of_def BPS_def using minus_mod_eq_mult_div [of "x * int n" 10000] pos_mod_sign [of 10000 "x * int n"] by linarith
  ultimately show "BPS * cut_of x n \<le> k * x" by linarith
  show "0 \<le> cut_of x n" using assms(1) by (simp add: cut_of_def BPS_def pos_imp_zdiv_nonneg_iff)
qed

definition partner_cut :: "int \<Rightarrow> Partner option \<Rightarrow> int" where
  "partner_cut x partner = (case partner of None \<Rightarrow> 0 | Some p \<Rightarrow> cut_of x (pt_fee_bps p))"

lemma fees_on_Inr:
  assumes "fees_on gross partner s = Inr (p, q)" "dx_fees s = Some f" "fees_ok f"
  shows "0 \<le> gross" "p = cut_of gross (fe_protocol_fee_bps f)" "q = partner_cut gross partner" "0 \<le> p" "0 \<le> q" "BPS * (p + q) \<le> 400 * gross"
    "p + q \<le> gross"
proof -
  from assms(1,2) have g: "0 \<le> gross" and p: "p = cut_of gross (fe_protocol_fee_bps f)"
    and q: "q = partner_cut gross partner" "\<And>pt. partner = Some pt \<Longrightarrow> pt_fee_bps pt \<le> fe_max_partner_fee_bps f"
    by (auto simp: fees_on_def rs mul_div_Inr_iff cut_of_def partner_cut_def split: option.splits if_splits)
  have p': "0 \<le> p" "BPS * p \<le> 100 * gross" using cut_of_bounds [OF g, of "fe_protocol_fee_bps f" 100] assms(3)
    by (auto simp: p fees_ok_def MAX_PROTOCOL_FEE_BPS_def)
  have q': "0 \<le> q \<and> BPS * q \<le> 300 * gross"
  proof (cases partner)
    case None
    with g show ?thesis by (simp add: q partner_cut_def)
  next
    case (Some pt)
    with q(2) assms(3) have "int (pt_fee_bps pt) \<le> 300" by (fastforce simp: fees_ok_def MAX_PARTNER_FEE_BPS_def)
    with cut_of_bounds [OF g this] show ?thesis by (simp add: q(1) partner_cut_def Some)
  qed
  show "0 \<le> gross" "p = cut_of gross (fe_protocol_fee_bps f)" "q = partner_cut gross partner" "0 \<le> p" "0 \<le> q" using g p q(1) p' q' by auto
  show s: "BPS * (p + q) \<le> 400 * gross" using p' q' by (simp add: distrib_left)
  then show "p + q \<le> gross" using g p' q' by (simp add: BPS_def)
qed

definition partner_due :: "FeeConfig \<Rightarrow> int \<Rightarrow> Partner option \<Rightarrow> address \<Rightarrow> int" where
  "partner_due f q partner a = (case partner of None \<Rightarrow> 0
     | Some p \<Rightarrow> (if a = pt_address p then q - cut_of q (fe_partner_share_bps f) else 0) +
         (if a = fe_recipient f then cut_of q (fe_partner_share_bps f) else 0))"

lemma accrue_fees_Inr:
  assumes ac: "accrue_fees t p q partner s = Inr s'" and bk: "books s" and f: "dx_fees s = Some f" "fees_ok f"
    and pq: "0 \<le> p" "0 \<le> q" "partner = None \<Longrightarrow> q = 0"
  shows "books s'" "same_settings s s'" "total_owed u s' = total_owed u s + (if u = t then p + q else 0)"
    "owed a u s' = owed a u s + (if u = t then (if a = fe_recipient f then p else 0) + partner_due f q partner a else 0)"
proof -
  have "books s' \<and> same_settings s s' \<and> total_owed u s' = total_owed u s + (if u = t then p + q else 0) \<and>
    owed a u s' = owed a u s + (if u = t then (if a = fe_recipient f then p else 0) + partner_due f q partner a else 0)"
  proof (cases partner)
    case None
    with ac f(1) have "dex_credit (fe_recipient f) t p s = Inr s'" by (auto simp: accrue_fees_def rs)
    from dex_credit_Inr [OF this bk] owed_nonneg [OF bk] pq None show ?thesis by (auto simp: partner_due_def)
  next
    case (Some pt)
    let ?c = "cut_of q (fe_partner_share_bps f)"
    have "int (fe_partner_share_bps f) \<le> BPS" using f(2) by (simp add: fees_ok_def)
    from cut_of_bounds [OF pq(2) this] have c: "0 \<le> ?c" "?c \<le> q" by (simp_all add: BPS_def)
    from ac f(1) Some obtain s1 where s1: "dex_credit (pt_address pt) t (q - ?c) s = Inr s1"
      and s2: "dex_credit (fe_recipient f) t (p + ?c) s1 = Inr s'"
      by (auto simp: accrue_fees_def rs mul_div_Inr_iff cut_of_def)
    note c1 = dex_credit_Inr [OF s1 bk]
    have nn: "0 \<le> owed (pt_address pt) t s + (q - ?c)" using owed_nonneg [OF bk] c by (simp add: add_nonneg_nonneg)
    note c2 = dex_credit_Inr [OF s2 c1(1) [OF nn]]
    have nn2: "0 \<le> owed (fe_recipient f) t s1 + (p + ?c)" using owed_nonneg [OF c1(1) [OF nn]] c pq(1) by (simp add: add_nonneg_nonneg)
    from c2 [OF nn2] c1 [OF nn] same_settings_trans Some show ?thesis by (auto simp: partner_due_def)
  qed
  then show "books s'" "same_settings s s'" "total_owed u s' = total_owed u s + (if u = t then p + q else 0)"
    "owed a u s' = owed a u s + (if u = t then (if a = fe_recipient f then p else 0) + partner_due f q partner a else 0)" by auto
qed

subsection \<open>What is relied on\<close>

text \<open>
  The host lets only a contract itself move its tokens: a call the aggregator makes to a contract of \<open>apps\<close>, which is no token,
  lowers none of its balances, except that of the token whose transfers the call pre-authorises.
\<close>

locale dex_laws = sep41_host H for H :: "'w host" +
  fixes F :: "'w dex_fns" and me :: address and apps :: "address set"
  assumes swap_law: "da_swap F (calling e v) v i j x m d to w = Some (out, w') \<Longrightarrow> current_contract e = me \<Longrightarrow> v \<in> apps \<Longrightarrow>
      tk_balance H t me w \<le> tk_balance H t me w'"
    and invoke_law: "invoke_authorized F (calling e target) auth target fn args w = Some (r, w') \<Longrightarrow> current_contract e = me \<Longrightarrow>
      target \<in> apps \<Longrightarrow> \<forall>en \<in> set auth. \<exists>x. spend_of tok me en = Inr x \<Longrightarrow> t \<noteq> tok \<Longrightarrow>
      tk_balance H t me w \<le> tk_balance H t me w'"

definition free_of :: "'w host \<Rightarrow> address \<Rightarrow> address \<Rightarrow> dex_aggregator \<Rightarrow> 'w \<Rightarrow> int" where
  "free_of H me t s w = tk_balance H t me w - total_owed t s"

lemma hops_allowed_Inr [rs]: "hops_allowed vs hs = Inr u \<longleftrightarrow> hp_venue ` set hs \<subseteq> set vs"
  by (induction hs) (auto simp: rs)

lemma validate_split_Inr:
  "validate_split vs j sp = Inr u \<longleftrightarrow> 0 < sp_amount_in sp \<and> length (sp_hops sp) \<le> MAX_HOPS \<and> ends_right j (sp_hops sp) \<and>
     hp_venue ` set (sp_hops sp) \<subseteq> set vs"
  by (auto simp: validate_split_def rs not_le not_less)

lemma splits_total_Inr:
  "splits_total vs j sps acc = Inr n \<Longrightarrow> n = acc + sum_list (map sp_amount_in sps) \<and> (\<forall>sp \<in> set sps. validate_split vs j sp = Inr ())"
  by (induction sps arbitrary: acc) (fastforce simp: rs)+

lemma validate_Inr:
  assumes "validate i j x route s = Inr u"
  shows "i \<noteq> j" "0 < x" "route \<noteq> []" "length route \<le> MAX_SPLITS" "sum_list (map sp_amount_in route) = x"
    "\<And>sp. sp \<in> set route \<Longrightarrow> 0 < sp_amount_in sp \<and> length (sp_hops sp) \<le> MAX_HOPS \<and> ends_right j (sp_hops sp) \<and>
      hp_venue ` set (sp_hops sp) \<subseteq> set (dex_venues s)"
proof -
  from assms have c: "i \<noteq> j" "0 < x" "route \<noteq> []" "length route \<le> MAX_SPLITS" and t: "splits_total (dex_venues s) j route 0 = Inr x"
    by (auto simp: validate_def rs not_le not_less)
  show "i \<noteq> j" "0 < x" "route \<noteq> []" "length route \<le> MAX_SPLITS" by (rule c)+
  from splits_total_Inr [OF t] show "sum_list (map sp_amount_in route) = x"
    "\<And>sp. sp \<in> set route \<Longrightarrow> 0 < sp_amount_in sp \<and> length (sp_hops sp) \<le> MAX_HOPS \<and> ends_right j (sp_hops sp) \<and>
      hp_venue ` set (sp_hops sp) \<subseteq> set (dex_venues s)"
    by (auto simp: validate_split_Inr)
qed

lemma spend_all_Inr:
  "spend_all tok me ens b = Inr b' \<Longrightarrow> b' \<le> b \<and> (\<forall>en \<in> set ens. \<exists>x. spend_of tok me en = Inr x)"
proof (induction ens arbitrary: b)
  case (Cons en ens)
  from Cons.prems obtain x where x: "spend_of tok me en = Inr x" "spend_all tok me ens (b - x) = Inr b'" by (auto simp: rs)
  have "0 \<le> x" using x(1) by (auto simp: spend_of_def Let_def split: InvokerContractAuthEntry.splits if_splits option.splits)
  with Cons.IH [OF x(2)] x(1) show ?case by auto
qed simp

context dex_laws
begin

abbreviation "bal t w \<equiv> tk_balance H t me w"

lemma pay_out_bound:
  assumes "token_transfer H e tok me b x w = (Inr w' :: (DexError, _) res)"
  shows "bal t w - (if t = tok then x else 0) \<le> bal t w'"
  using token_transfer_moves(4) [OF assms, of t me] token_transfer_moves(1) [OF assms] by (auto simp: moved_def)

lemma execute_hops_keeps:
  assumes "execute_hops H F e hs tok x w = Inr (out, w')" "current_contract e = me" "hp_venue ` set hs \<subseteq> apps"
  shows "bal t w - (if t = tok then x else 0) + (if t = last (tok # map hp_token_out hs) then out else 0) \<le> bal t w'"
  using assms
proof (induction hs arbitrary: tok x w)
  case Nil
  then show ?case by simp
next
  case (Cons h hs)
  let ?out = "hp_token_out h" and ?v = "hp_venue h"
  from Cons.prems obtain w1 w2 r where w1: "token_transfer H e tok me ?v x w = (Inr w1 :: (DexError, _) res)"
    and w2: "da_swap F (calling e ?v) ?v tok ?out x 0 (hp_data h) me w1 = Some (r, w2)"
    and rest: "execute_hops H F e hs ?out (bal ?out w2 - bal ?out w1) w2 = Inr (out, w')"
    by (auto simp: Let_def rs)
  note b1 = pay_out_bound [OF w1, of t] and b2 = swap_law [OF w2, of t]
  note b3 = Cons.IH [OF rest Cons.prems(2)]
  show ?case
  proof (cases hs)
    case Nil
    with rest have "w' = w2" "out = bal ?out w2 - bal ?out w1" by auto
    with b1 b2 Nil Cons.prems(2,3) show ?thesis by auto
  next
    case (Cons h' hs')
    with b1 b2 b3 Cons.prems(2,3) show ?thesis by (auto split: if_splits)
  qed
qed

lemma execute_splits_keeps:
  assumes "execute_splits H F e i sps g w = Inr (g', w')" "current_contract e = me"
    "\<And>sp. sp \<in> set sps \<Longrightarrow> ends_right j (sp_hops sp) \<and> hp_venue ` set (sp_hops sp) \<subseteq> apps"
  shows "bal t w - (if t = i then sum_list (map sp_amount_in sps) else 0) + (if t = j then g' - g else 0) \<le> bal t w'"
  using assms
proof (induction sps arbitrary: g w)
  case Nil
  then show ?case by simp
next
  case (Cons sp sps)
  from Cons.prems(1) obtain x w1 where h: "execute_hops H F e (sp_hops sp) i (sp_amount_in sp) w = Inr (x, w1)"
    and r: "execute_splits H F e i sps (g + x) w1 = Inr (g', w')" by (auto simp: rs)
  from Cons.prems(3) [of sp] have sp: "hp_venue ` set (sp_hops sp) \<subseteq> apps" "last (i # map hp_token_out (sp_hops sp)) = j"
    by (auto simp: ends_right_def last_map)
  from execute_hops_keeps [OF h Cons.prems(2) sp(1), of t] Cons.IH [OF r Cons.prems(2,3)] show ?case
    unfolding sp(2) by (auto split: if_splits)
qed

lemma run_calls_keeps:
  assumes "run_calls F e vs i j cs b w = Inr w'" "current_contract e = me" "set vs \<subseteq> apps"
  shows "t \<noteq> i \<Longrightarrow> bal t w \<le> bal t w'" "b < 0 \<Longrightarrow> cs = []"
proof -
  have "(t \<noteq> i \<longrightarrow> bal t w \<le> bal t w') \<and> (b < 0 \<longrightarrow> cs = [])" using assms
  proof (induction cs arbitrary: b w)
    case (Cons c cs)
    let ?a = "dc_target c"
    from Cons.prems obtain b' r w1 where a: "?a \<in> set vs" and b: "spend_all i me (dc_auth c) b = Inr b'" "\<not> b' < 0"
      and c: "invoke_authorized F (calling e ?a) (dc_auth c) ?a (dc_function c) (dc_args c) w = Some (r, w1)"
      and rest: "run_calls F e vs i j cs b' w1 = Inr w'" by (auto simp: rs)
    from spend_all_Inr [OF b(1)] have "\<forall>en \<in> set (dc_auth c). \<exists>x. spend_of i me en = Inr x" "b' \<le> b" by auto
    with invoke_law [OF c _ _ this(1), of t] a b(2) Cons.prems Cons.IH [OF rest] show ?case by auto
  qed simp
  then show "t \<noteq> i \<Longrightarrow> bal t w \<le> bal t w'" "b < 0 \<Longrightarrow> cs = []" by auto
qed

lemma execute_calls_keeps:
  assumes ex: "execute_calls H F e i j x cs refund s w = Inr (g, w')" and me: "current_contract e = me" and ts: "set (targets s) \<subseteq> apps"
  shows "0 \<le> x" "bal t w - (if t = i then x else 0) + (if t = j then g else 0) \<le> bal t w'"
proof -
  from ex me obtain w1 where c: "run_calls F e (targets s) i j cs x w = Inr w1" and sp: "bal i w - bal i w1 \<le> x"
    and r: "if bal i w - bal i w1 < x then token_transfer H e i me refund (x - (bal i w - bal i w1)) w1 = (Inr w' :: (DexError, _) res) else w' = w1"
    and g: "g = bal j w' - bal j w"
    by (auto simp: execute_calls_def Let_def rs not_less split: if_splits)
  note k = run_calls_keeps [OF c me ts]
  show x: "0 \<le> x"
  proof (rule ccontr)
    assume "\<not> 0 \<le> x"
    with k(2) c have "w1 = w" by auto
    with sp \<open>\<not> 0 \<le> x\<close> show False by simp
  qed
  have "bal t w1 - (if t = i then x - (bal i w - bal i w1) else 0) \<le> bal t w'"
    using r sp pay_out_bound [of e i refund "x - (bal i w - bal i w1)" w1 w' t] by (auto split: if_splits)
  with k(1) [of t] x g show "bal t w - (if t = i then x else 0) + (if t = j then g else 0) \<le> bal t w'" by (auto split: if_splits)
qed

lemma settle_Inr:
  assumes st: "settle H e j g partner m to s w = Inr (r, s', w')" and me: "current_contract e = me" and bk: "books s"
    and f: "dx_fees s = Some f" "fees_ok f"
  shows "books s' \<and> same_settings s s' \<and> m \<le> sr_amount_out r \<and> sr_gross_out r = g \<and> sr_protocol_fee r = cut_of g (fe_protocol_fee_bps f) \<and>
    sr_partner_fee r = partner_cut g partner \<and> sr_amount_out r = g - sr_protocol_fee r - sr_partner_fee r \<and> 0 \<le> sr_amount_out r \<and>
    BPS * (sr_protocol_fee r + sr_partner_fee r) \<le> 400 * g \<and>
    (\<forall>u. total_owed u s' = total_owed u s + (if u = j then sr_protocol_fee r + sr_partner_fee r else 0)) \<and>
    (\<forall>a u. owed a u s' = owed a u s +
       (if u = j then (if a = fe_recipient f then sr_protocol_fee r else 0) + partner_due f (sr_partner_fee r) partner a else 0)) \<and>
    (\<forall>t. free_of H me t s w - (if t = j then g else 0) \<le> free_of H me t s' w')"
proof -
  from st me obtain p q where pq: "fees_on g partner s = Inr (p, q)" and m: "m \<le> g - p - q"
    and ac: "accrue_fees j p q partner s = Inr s'" and tr: "token_transfer H e j me to (g - p - q) w = (Inr w' :: (DexError, _) res)"
    and r: "r = \<lparr>sr_gross_out = g, sr_protocol_fee = p, sr_partner_fee = q, sr_amount_out = g - p - q\<rparr>"
    by (auto simp: settle_def rs not_less)
  note fe = fees_on_Inr [OF pq f]
  have q: "partner = None \<Longrightarrow> q = 0" using fe(3) by (simp add: partner_cut_def)
  note a = accrue_fees_Inr [OF ac bk f fe(4,5) q]
  have "free_of H me t s w - (if t = j then g else 0) \<le> free_of H me t s' w'" for t
    using pay_out_bound [OF tr, of t] a(3) [of t] by (auto simp: free_of_def)
  with a fe m token_transfer_moves(1) [OF tr] show ?thesis by (simp add: r)
qed

lemma take_input_Inr:
  assumes "take_input H e user d s w = Inr w'" "current_contract e = me" "0 < sd_amount_in d"
  shows "user \<noteq> me" "tk_balance H t a w' =
    (if t = sd_token_in d then moved user me (sd_amount_in d) (\<lambda>a. tk_balance H (sd_token_in d) a w) a else tk_balance H t a w)"
proof -
  from assms(1,2) have tr: "token_transfer H e (sd_token_in d) user me (sd_amount_in d) w = (Inr w' :: (DexError, _) res)"
    and got: "sd_amount_in d \<le> bal (sd_token_in d) w' - bal (sd_token_in d) w"
    by (auto simp: take_input_def rs not_less)
  note mv = token_transfer_moves(4) [OF tr]
  show "tk_balance H t a w' =
    (if t = sd_token_in d then moved user me (sd_amount_in d) (\<lambda>a. tk_balance H (sd_token_in d) a w) a else tk_balance H t a w)" by (rule mv)
  show "user \<noteq> me" using got assms(3) mv [of "sd_token_in d" me] by auto
qed

lemma take_input_free:
  assumes "take_input H e user d s w = Inr w'" "current_contract e = me" "0 < sd_amount_in d"
  shows "bal t w' = bal t w + (if t = sd_token_in d then sd_amount_in d else 0)"
  using take_input_Inr [OF assms] by (auto simp: moved_def)

end

subsection \<open>Runs\<close>

definition dex_inv :: "address set \<Rightarrow> dex_aggregator \<Rightarrow> bool" where
  "dex_inv apps s \<longleftrightarrow> books s \<and> (\<exists>f. dx_fees s = Some f \<and> fees_ok f) \<and> set (dex_venues s) \<subseteq> apps \<and> set (targets s) \<subseteq> apps \<and>
     length (dex_venues s) \<le> MAX_DEX_VENUES \<and> length (targets s) \<le> MAX_DEX_VENUES"

text \<open>The admin lists only contracts of \<open>apps\<close>.\<close>

fun lists_only :: "address set \<Rightarrow> dex_op \<Rightarrow> bool" where
  "lists_only apps (DX_Venue a b) \<longleftrightarrow> (b \<longrightarrow> a \<in> apps)"
| "lists_only apps (DX_Target a b) \<longleftrightarrow> (b \<longrightarrow> a \<in> apps)"
| "lists_only apps _ \<longleftrightarrow> True"

lemma dex_inv_frame:
  assumes "dex_inv apps s" "books s'" "same_settings s s'"
  shows "dex_inv apps s'"
  using assms(1,2) same_settings_fields [OF assms(3)] by (simp add: dex_inv_def dex_venues_def targets_def)

lemma dex_config_inv:
  assumes "dex_inv apps s" "dx_owed s' = dx_owed s" "dx_total_owed s' = dx_total_owed s" "\<exists>f. dx_fees s' = Some f \<and> fees_ok f"
    "set (dex_venues s') \<subseteq> apps" "set (targets s') \<subseteq> apps" "length (dex_venues s') \<le> MAX_DEX_VENUES" "length (targets s') \<le> MAX_DEX_VENUES"
  shows "dex_inv apps s'" "free_of H me t s' w = free_of H me t s w"
  using assms by (simp_all add: dex_inv_def books_def owed_sum_def total_owed_def free_of_def)

inductive dex_run :: "'w host \<Rightarrow> 'w dex_fns \<Rightarrow> address \<Rightarrow> address set \<Rightarrow> dex_aggregator \<Rightarrow> 'w \<Rightarrow> bool"
  for H :: "'w host" and F :: "'w dex_fns" and me :: address and apps :: "address set" where
  deployed: "dex_constructor admin router f dx_empty = Inr s \<Longrightarrow> \<forall>t. 0 \<le> tk_balance H t me w \<Longrightarrow> dex_run H F me apps s w"
| called: "dex_run H F me apps s w \<Longrightarrow> current_contract e = me \<Longrightarrow> lists_only apps op \<Longrightarrow> dex_exec H F e op s w = Inr (s', w') \<Longrightarrow>
    dex_run H F me apps s' w'"
| outside: "dex_run H F me apps s w \<Longrightarrow> \<forall>t. tk_balance H t me w \<le> tk_balance H t me w' \<Longrightarrow> dex_run H F me apps s w'"

lemma set_remove_at: "index_of x xs = Some i \<Longrightarrow> set (remove_at i xs) \<subseteq> set xs \<and> length (remove_at i xs) \<le> length xs"
  by (simp add: remove_at_index_of set_remove1_subset length_remove1)

context dex_laws
begin

lemma dex_swap_Inr:
  assumes sw: "dex_swap H F e user d route partner s w = Inr (r, s', w')" and me: "current_contract e = me" and inv: "dex_inv apps s"
    and f: "dx_fees s = Some f"
  shows "authorised e user \<and> \<not> dex_paused s \<and> user \<noteq> me \<and> sum_list (map sp_amount_in route) = sd_amount_in d \<and>
    (\<Union>sp \<in> set route. hp_venue ` set (sp_hops sp)) \<subseteq> set (dex_venues s) \<and>
    (\<exists>w1. settle H e (sd_token_out d) (sr_gross_out r) partner (sd_min_out d) (sd_to d) s w1 = Inr (r, s', w') \<and>
       (\<forall>t. free_of H me t s w + (if t = sd_token_out d then sr_gross_out r else 0) \<le> free_of H me t s w1))"
proof -
  from sw have a: "authorised e user" "\<not> dex_paused s"
    and v: "validate (sd_token_in d) (sd_token_out d) (sd_amount_in d) route s = Inr ()" by (auto simp: dex_swap_def rs)
  from sw obtain w0 g w1 where t: "take_input H e user d s w = Inr w0"
    and x: "execute_splits H F e (sd_token_in d) route 0 w0 = Inr (g, w1)"
    and st: "settle H e (sd_token_out d) g partner (sd_min_out d) (sd_to d) s w1 = Inr (r, s', w')"
    by (auto simp: dex_swap_def dex_execute_def rs)
  note v = validate_Inr [OF v]
  have "ends_right (sd_token_out d) (sp_hops sp) \<and> hp_venue ` set (sp_hops sp) \<subseteq> apps" if "sp \<in> set route" for sp
    using v(6) [OF that] inv by (auto simp: dex_inv_def)
  note k = execute_splits_keeps [OF x me this]
  from inv f have fo: "fees_ok f" and bk: "books s" by (auto simp: dex_inv_def)
  from settle_Inr [OF st me bk f fo] have g: "sr_gross_out r = g" by auto
  have "free_of H me t s w + (if t = sd_token_out d then g else 0) \<le> free_of H me t s w1" for t
    using k [of t] take_input_free [OF t me v(2), of t] v(5) by (auto simp: free_of_def split: if_splits)
  with a v(5,6) take_input_Inr(1) [OF t me v(2)] st show ?thesis unfolding g by blast
qed

lemma swap_calls_Inr:
  assumes sw: "swap_calls H F e user d cs partner s w = Inr (r, s', w')" and me: "current_contract e = me" and inv: "dex_inv apps s"
    and f: "dx_fees s = Some f"
  shows "authorised e user \<and> \<not> dex_paused s \<and> user \<noteq> me \<and>
    (\<exists>w1. settle H e (sd_token_out d) (sr_gross_out r) partner (sd_min_out d) (sd_to d) s w1 = Inr (r, s', w') \<and>
       (\<forall>t. free_of H me t s w + (if t = sd_token_out d then sr_gross_out r else 0) \<le> free_of H me t s w1))"
proof -
  from sw have a: "authorised e user" "\<not> dex_paused s" and p: "0 < sd_amount_in d" by (auto simp: swap_calls_def rs)
  from sw obtain w0 g w1 where t: "take_input H e user d s w = Inr w0"
    and x: "execute_calls H F e (sd_token_in d) (sd_token_out d) (sd_amount_in d) cs user s w0 = Inr (g, w1)"
    and st: "settle H e (sd_token_out d) g partner (sd_min_out d) (sd_to d) s w1 = Inr (r, s', w')"
    by (auto simp: swap_calls_def rs)
  from inv f have fo: "fees_ok f" and bk: "books s" and ts: "set (targets s) \<subseteq> apps" by (auto simp: dex_inv_def)
  note k = execute_calls_keeps(2) [OF x me ts]
  from settle_Inr [OF st me bk f fo] have g: "sr_gross_out r = g" by auto
  have "free_of H me t s w + (if t = sd_token_out d then g else 0) \<le> free_of H me t s w1" for t
    using k [of t] take_input_free [OF t me p, of t] by (auto simp: free_of_def split: if_splits)
  with a take_input_Inr(1) [OF t me p] st show ?thesis unfolding g by blast
qed

lemma dex_fill_Inr:
  assumes fi: "dex_fill H F e rcp i j x m data s w = Inr (out, s', w')" and me: "current_contract e = me" and inv: "dex_inv apps s"
  shows "\<not> dex_paused s \<and> (\<exists>rt. dx_router s = Some rt \<and> authorised e rt) \<and> x \<le> free_of H me i s w \<and>
    (\<exists>r w1. out = sr_amount_out r \<and> settle H e j (sr_gross_out r) None m rcp s w1 = Inr (r, s', w') \<and>
       (\<forall>t. free_of H me t s w - (if t = i then x else 0) + (if t = j then sr_gross_out r else 0) \<le> free_of H me t s w1))"
proof -
  from inv obtain f where f: "dx_fees s = Some f" "fees_ok f" and bk: "books s" and ts: "set (targets s) \<subseteq> apps" "set (dex_venues s) \<subseteq> apps"
    by (auto simp: dex_inv_def)
  from fi obtain g w1 r where a: "\<not> dex_paused s" "\<exists>rt. dx_router s = Some rt \<and> authorised e rt" "x \<le> free_of H me i s w"
    and ex: "(\<exists>route. validate i j x route s = Inr () \<and> execute_splits H F e i route 0 w = Inr (g, w1)) \<or>
      (\<exists>cs. execute_calls H F e i j x cs rcp s w = Inr (g, w1))"
    and st: "settle H e j g None m rcp s w1 = Inr (r, s', w')" "out = sr_amount_out r"
    using me by (auto simp: dex_fill_def rs dex_execute_def free_of_def not_less split: option.splits Route.splits) blast+
  from settle_Inr [OF st(1) me bk f] have g: "sr_gross_out r = g" by auto
  have "tk_balance H t me w - (if t = i then x else 0) + (if t = j then g else 0) \<le> tk_balance H t me w1" for t
    using ex
  proof (elim disjE exE conjE)
    fix route assume v: "validate i j x route s = Inr ()" and e: "execute_splits H F e i route 0 w = Inr (g, w1)"
    note v = validate_Inr [OF v]
    have "ends_right j (sp_hops sp) \<and> hp_venue ` set (sp_hops sp) \<subseteq> apps" if "sp \<in> set route" for sp
      using v(6) [OF that] ts(2) by auto
    from execute_splits_keeps [OF e me this, of t] v(5) show ?thesis by auto
  next
    fix cs assume "execute_calls H F e i j x cs rcp s w = Inr (g, w1)"
    from execute_calls_keeps(2) [OF this me ts(1)] show ?thesis .
  qed
  then have "free_of H me t s w - (if t = i then x else 0) + (if t = j then g else 0) \<le> free_of H me t s w1" for t
    by (simp add: free_of_def diff_right_mono diff_right_commute add_diff_eq flip: diff_diff_eq2) (smt (verit))
  with a st show ?thesis unfolding g [symmetric] by blast
qed

lemma claim_tokens_Inr:
  assumes "claim_tokens H e rcp toks s w = Inr (paid, s', w')" "current_contract e = me" "books s"
  shows "books s' \<and> same_settings s s' \<and> (\<forall>t. free_of H me t s w \<le> free_of H me t s' w')"
  using assms
proof (induction toks arbitrary: s w paid)
  case Nil
  then show ?case by (simp add: same_settings_def)
next
  case (Cons tok toks)
  let ?x = "owed rcp tok s"
  from Cons.prems obtain s1 w1 paid' where h: "if 0 < ?x then dex_credit rcp tok (- ?x) s = Inr s1 \<and>
      token_transfer H e tok me rcp ?x w = (Inr w1 :: (DexError, _) res) else s1 = s \<and> w1 = w"
    and r: "claim_tokens H e rcp toks s1 w1 = Inr (paid', s', w')"
    by (auto simp: Let_def rs split: if_splits)
  have "books s1 \<and> same_settings s s1 \<and> (\<forall>t. free_of H me t s w \<le> free_of H me t s1 w1)"
  proof (cases "0 < ?x")
    case True
    with h have c: "dex_credit rcp tok (- ?x) s = Inr s1" and tr: "token_transfer H e tok me rcp ?x w = (Inr w1 :: (DexError, _) res)" by auto
    have "free_of H me t s w \<le> free_of H me t s1 w1" for t
      using dex_credit_Inr(3) [OF c Cons.prems(3), of t] pay_out_bound [OF tr, of t] by (auto simp: free_of_def split: if_splits)
    with dex_credit_Inr(1,4) [OF c Cons.prems(3)] show ?thesis by simp
  qed (use h Cons.prems(3) in \<open>auto simp: same_settings_def\<close>)
  with Cons.IH [OF r Cons.prems(2)] same_settings_trans show ?case by (meson order_trans)
qed

lemma settle_covers:
  assumes "settle H e j g partner m to s w = Inr (r, s', w')" "current_contract e = me" "dex_inv apps s"
    "\<And>t. (if t = j then g else 0) \<le> free_of H me t s w"
  shows "dex_inv apps s' \<and> (\<forall>t. 0 \<le> free_of H me t s' w')"
proof -
  from assms(3) obtain f where f: "dx_fees s = Some f" "fees_ok f" and bk: "books s" by (auto simp: dex_inv_def)
  from settle_Inr [OF assms(1,2) bk f] have s: "books s'" "same_settings s s'"
    and fr: "\<And>t. free_of H me t s w - (if t = j then g else 0) \<le> free_of H me t s' w'" by auto
  have "0 \<le> free_of H me t s' w'" for t using fr [of t] assms(4) [of t] by (auto split: if_splits)
  with dex_inv_frame [OF assms(3) s] show ?thesis by blast
qed

lemma dex_exec_covers:
  assumes ex: "dex_exec H F e op s w = Inr (s', w')" and me: "current_contract e = me" and ls: "lists_only apps op"
    and inv: "dex_inv apps s" and cov: "\<And>t. 0 \<le> free_of H me t s w"
  shows "dex_inv apps s' \<and> (\<forall>t. 0 \<le> free_of H me t s' w')"
proof -
  have step: ?thesis if "w' = w" "dx_owed s' = dx_owed s" "dx_total_owed s' = dx_total_owed s" "\<exists>f. dx_fees s' = Some f \<and> fees_ok f"
    "set (dex_venues s') \<subseteq> apps" "set (targets s') \<subseteq> apps" "length (dex_venues s') \<le> MAX_DEX_VENUES" "length (targets s') \<le> MAX_DEX_VENUES"
    using dex_config_inv [OF inv that(2-)] cov that(1) by metis
  from inv obtain f where f: "dx_fees s = Some f" "fees_ok f" by (auto simp: dex_inv_def)
  have tidy: "dex_venues (s\<lparr>dx_venues := Some xs\<rparr>) = xs" "targets (s\<lparr>dx_targets := Some xs\<rparr>) = xs"
    "dex_venues (s\<lparr>dx_targets := t\<rparr>) = dex_venues s" "targets (s\<lparr>dx_venues := t\<rparr>) = targets s"
    "dex_venues (s\<lparr>dx_fees := g\<rparr>) = dex_venues s" "targets (s\<lparr>dx_fees := g\<rparr>) = targets s"
    "dex_venues (s\<lparr>dx_router := c\<rparr>) = dex_venues s" "targets (s\<lparr>dx_router := c\<rparr>) = targets s"
    "dex_venues (s\<lparr>dx_paused := b\<rparr>) = dex_venues s" "targets (s\<lparr>dx_paused := b\<rparr>) = targets s" for xs t g c b
    by (simp_all add: dex_venues_def targets_def)
  show ?thesis
  proof (cases op)
    case (DX_Venue a b)
    with ex have "w' = w \<and> (s' = s \<or> (b \<and> length (dex_venues s) < MAX_DEX_VENUES \<and> s' = s\<lparr>dx_venues := Some (dex_venues s @ [a])\<rparr>) \<or>
       (\<exists>i. index_of a (dex_venues s) = Some i \<and> s' = s\<lparr>dx_venues := Some (remove_at i (dex_venues s))\<rparr>))"
      by (auto simp: allow_venue_def Let_def rs not_le split: option.splits bool.splits)
    with inv ls DX_Venue set_remove_at [of a "dex_venues s"] show ?thesis by (intro step) (auto simp: dex_inv_def tidy, blast+)
  next
    case (DX_Target a b)
    with ex have "w' = w \<and> (s' = s \<or> (b \<and> length (targets s) < MAX_DEX_VENUES \<and> s' = s\<lparr>dx_targets := Some (targets s @ [a])\<rparr>) \<or>
       (\<exists>i. index_of a (targets s) = Some i \<and> s' = s\<lparr>dx_targets := Some (remove_at i (targets s))\<rparr>))"
      by (auto simp: allow_target_def Let_def rs not_le split: option.splits bool.splits)
    with inv ls DX_Target set_remove_at [of a "targets s"] show ?thesis by (intro step) (auto simp: dex_inv_def tidy, blast+)
  next
    case (DX_Swap u d r p)
    with ex obtain res where sw: "dex_swap H F e u d r p s w = Inr (res, s', w')" by (auto simp: rs)
    from dex_swap_Inr [OF sw me inv f(1)] obtain w1 where st: "settle H e (sd_token_out d) (sr_gross_out res) p (sd_min_out d) (sd_to d) s w1 = Inr (res, s', w')"
      and fr: "\<And>t. free_of H me t s w + (if t = sd_token_out d then sr_gross_out res else 0) \<le> free_of H me t s w1" by auto
    have "(if t = sd_token_out d then sr_gross_out res else 0) \<le> free_of H me t s w1" for t using fr [of t] cov [of t] by linarith
    from settle_covers [OF st me inv this] show ?thesis .
  next
    case (DX_Calls u d cs p)
    with ex obtain res where sw: "swap_calls H F e u d cs p s w = Inr (res, s', w')" by (auto simp: rs)
    from swap_calls_Inr [OF sw me inv f(1)] obtain w1 where st: "settle H e (sd_token_out d) (sr_gross_out res) p (sd_min_out d) (sd_to d) s w1 = Inr (res, s', w')"
      and fr: "\<And>t. free_of H me t s w + (if t = sd_token_out d then sr_gross_out res else 0) \<le> free_of H me t s w1" by auto
    have "(if t = sd_token_out d then sr_gross_out res else 0) \<le> free_of H me t s w1" for t using fr [of t] cov [of t] by linarith
    from settle_covers [OF st me inv this] show ?thesis .
  next
    case (DX_Fill rcp i j x m data)
    with ex obtain out where fi: "dex_fill H F e rcp i j x m data s w = Inr (out, s', w')" by (auto simp: rs)
    from dex_fill_Inr [OF fi me inv] obtain r w1 where x: "x \<le> free_of H me i s w" and st: "settle H e j (sr_gross_out r) None m rcp s w1 = Inr (r, s', w')"
      and fr: "\<And>t. free_of H me t s w - (if t = i then x else 0) + (if t = j then sr_gross_out r else 0) \<le> free_of H me t s w1" by auto
    have "(if t = j then sr_gross_out r else 0) \<le> free_of H me t s w1" for t using fr [of t] cov [of t] x by (auto split: if_splits)
    from settle_covers [OF st me inv this] show ?thesis .
  next
    case (DX_Claim rcp ts)
    with ex obtain paid where "claim_tokens H e rcp ts s w = Inr (paid, s', w')" by (auto simp: dex_claim_def rs)
    from claim_tokens_Inr [OF this me] inv have c: "books s'" "same_settings s s'" "\<And>t. free_of H me t s w \<le> free_of H me t s' w'"
      by (auto simp: dex_inv_def)
    have "0 \<le> free_of H me t s' w'" for t using c(3) [of t] cov [of t] by linarith
    with dex_inv_frame [OF inv c(1,2)] show ?thesis by blast
  next
    case (DX_Fees g)
    with ex have "w' = w \<and> s' = s\<lparr>dx_fees := Some g\<rparr> \<and> fees_ok g" by (auto simp: set_fees_def rs)
    with inv show ?thesis by (intro step) (auto simp: dex_inv_def tidy)
  next
    case (DX_Router a)
    with ex have "w' = w \<and> s' = s\<lparr>dx_router := Some a\<rparr>" by (auto simp: dex_set_router_def rs)
    with inv show ?thesis by (intro step) (auto simp: dex_inv_def tidy)
  next
    case (DX_Pause b)
    with ex have "w' = w \<and> s' = s\<lparr>dx_paused := Some b\<rparr>" by (auto simp: dex_set_paused_def rs)
    with inv show ?thesis by (intro step) (auto simp: dex_inv_def tidy)
  qed
qed

lemma dex_run_covers: "dex_run H F me apps s w \<Longrightarrow> dex_inv apps s \<and> (\<forall>t. 0 \<le> free_of H me t s w)"
proof (induction rule: dex_run.induct)
  case (deployed admin router f s w)
  then show ?case
    by (auto simp: dex_constructor_def rs dex_inv_def books_def owed_sum_def map_total_def total_over_def total_owed_def free_of_def
        dx_empty_def dex_venues_def targets_def)
next
  case (called s w e op s' w')
  with dex_exec_covers show ?case by blast
next
  case (outside s w w')
  then show ?case by (simp add: free_of_def) (meson order_trans)
qed

end

end
