(* ===== verification/Dex_Props.thy ===== *)
theory Dex_Props
  imports Dex_Inv Ledger
begin

text \<open>
  What the DEX aggregator guarantees: fees covered by its balance in every run, swaps that split exactly what was delivered,
  claims that always pay. \<open>dex_laws\<close> is shown to hold for the repository's adapters over any pools that leave third parties
  alone, and for a concrete deployment.
\<close>

subsection \<open>Claims\<close>

text \<open>A host whose tokens move whatever their owner has.\<close>

locale paying_host = sep41_host H for H :: "'w host" +
  assumes pays: "0 \<le> x \<Longrightarrow> x \<le> tk_balance H tok a w \<Longrightarrow> authorised e a \<Longrightarrow> tk_balance H tok a w \<le> i128_max \<Longrightarrow> a \<noteq> b \<Longrightarrow>
      is_i128 (tk_balance H tok b w + x) \<Longrightarrow> \<exists>w'. tk_transfer H e tok a b x w = Some w'"
begin

lemma token_transfer_pays:
  assumes "0 \<le> x" "x \<le> tk_balance H tok (current_contract e) w" "tk_balance H tok (current_contract e) w \<le> i128_max"
    "b \<noteq> current_contract e" "is_i128 (tk_balance H tok b w + x)"
  shows "\<exists>w'. token_transfer H e tok (current_contract e) b x w = (Inr w' :: ('e, _) res)"
  using pays [OF assms(1,2) _ assms(3) assms(4) [symmetric] assms(5), of "calling e tok"] by (auto simp: token_transfer_def)

lemma claim_tokens_pays:
  assumes "books s" "\<And>t. total_owed t s \<le> tk_balance H t (current_contract e) w" "rcp \<noteq> current_contract e" "distinct toks"
    "\<And>t. t \<in> set toks \<Longrightarrow> tk_balance H t (current_contract e) w \<le> i128_max \<and> is_i128 (tk_balance H t rcp w + owed rcp t s)"
  shows "\<exists>s' w'. claim_tokens H e rcp toks s w = Inr (map (\<lambda>t. owed rcp t s) toks, s', w') \<and>
    (\<forall>t. owed rcp t s' = (if t \<in> set toks then 0 else owed rcp t s)) \<and>
    (\<forall>t. tk_balance H t rcp w' = tk_balance H t rcp w + (if t \<in> set toks then owed rcp t s else 0))"
  using assms
proof (induction toks arbitrary: s w)
  case Nil
  then show ?case by simp
next
  case (Cons tok toks)
  let ?me = "current_contract e" and ?x = "owed rcp tok s"
  note bk = Cons.prems(1) and cov = Cons.prems(2) and rcp = Cons.prems(3)
  have x: "0 \<le> ?x" "?x \<le> total_owed tok s" using owed_nonneg [OF bk] owed_le_total [OF bk] by auto
  obtain s1 w1 where h: "(if 0 < ?x then and_then (dex_credit rcp tok (- ?x) s) (\<lambda>s.
         and_then (token_transfer H e tok ?me rcp ?x w) (\<lambda>w. Inr (s, w))) else Inr (s, w)) = Inr (s1, w1)"
    and s1: "books s1" "\<And>a u. owed a u s1 = owed a u s + (if a = rcp \<and> u = tok then - ?x else 0)"
      "\<And>u. total_owed u s1 = total_owed u s + (if u = tok then - ?x else 0)"
    and w1: "\<And>t c. tk_balance H t c w1 = (if t = tok then moved ?me rcp ?x (\<lambda>c. tk_balance H tok c w) c else tk_balance H t c w)"
  proof (cases "0 < ?x")
    case True
    have fit: "is_i128 (total_owed tok s)" using bk by (simp add: books_def)
    have "0 \<le> total_owed tok s - ?x" "total_owed tok s - ?x \<le> total_owed tok s" using x by auto
    with fit have "is_i128 (total_owed tok s - ?x)" using is_i128_between [OF is_i128_0 fit] by blast
    then obtain s1 where s1: "dex_credit rcp tok (- ?x) s = Inr s1" using True by (simp add: dex_credit_def i128_add_def i128_checked_def)
    have "?x \<le> tk_balance H tok ?me w" using x(2) cov [of tok] by linarith
    with token_transfer_pays [of ?x tok e w rcp] x(1) Cons.prems(5) [of tok] rcp
    obtain w1 where w1: "token_transfer H e tok ?me rcp ?x w = (Inr w1 :: (DexError, _) res)" by auto
    show ?thesis
    proof (rule that [of s1 w1])
      show "(if 0 < ?x then and_then (dex_credit rcp tok (- ?x) s) (\<lambda>s.
         and_then (token_transfer H e tok ?me rcp ?x w) (\<lambda>w. Inr (s, w))) else Inr (s, w)) = Inr (s1, w1)" using True s1 w1 by simp
    qed (use dex_credit_Inr [OF s1 bk] token_transfer_moves(4) [OF w1] in auto)
  next
    case False
    with x(1) have "?x = 0" by simp
    with bk show ?thesis by (intro that [of s w]) (auto simp: moved_def)
  qed
  have cov1: "total_owed t s1 \<le> tk_balance H t ?me w1" for t using cov [of t] rcp by (auto simp: s1(3) w1 moved_def)
  have fit: "tk_balance H t ?me w1 \<le> i128_max \<and> is_i128 (tk_balance H t rcp w1 + owed rcp t s1)" if "t \<in> set toks" for t
    using Cons.prems(4) Cons.prems(5) [of t] that by (auto simp: s1(2) w1)
  from Cons.IH [OF s1(1) cov1 rcp _ fit] Cons.prems(4)
  obtain s' w' where r: "claim_tokens H e rcp toks s1 w1 = Inr (map (\<lambda>t. owed rcp t s1) toks, s', w')"
    "\<And>t. owed rcp t s' = (if t \<in> set toks then 0 else owed rcp t s1)"
    "\<And>t. tk_balance H t rcp w' = tk_balance H t rcp w1 + (if t \<in> set toks then owed rcp t s1 else 0)" by auto
  have eq: "map (\<lambda>t. owed rcp t s1) toks = map (\<lambda>t. owed rcp t s) toks" using Cons.prems(4) by (auto simp: s1(2))
  have "claim_tokens H e rcp (tok # toks) s w = Inr (?x # map (\<lambda>t. owed rcp t s) toks, s', w')"
    using h r(1) by (simp add: Let_def eq)
  moreover have "\<forall>t. owed rcp t s' = (if t \<in> set (tok # toks) then 0 else owed rcp t s)" by (auto simp: r(2) s1(2))
  moreover have "\<forall>t. tk_balance H t rcp w' = tk_balance H t rcp w + (if t \<in> set (tok # toks) then owed rcp t s else 0)"
    using Cons.prems(4) rcp by (auto simp: r(3) s1(2) w1 moved_def)
  ultimately show ?case by auto
qed

end

subsection \<open>Over the repository's adapters\<close>

datatype dex_venue = V_Mock mock_dex | V_Soroswap soroswap_adapter | V_Aquarius aquarius_adapter

type_synonym 'w invoke_fn = "env \<Rightarrow> InvokerContractAuthEntry list \<Rightarrow> address \<Rightarrow> symbol \<Rightarrow> val list \<Rightarrow> 'w \<Rightarrow> (val \<times> 'w) option"

fun venue_quote :: "'w soroswap_fns \<Rightarrow> 'w aqua_fns \<Rightarrow> env \<Rightarrow> address \<Rightarrow> address \<Rightarrow> int \<Rightarrow> byte list \<Rightarrow> dex_venue \<Rightarrow> 'w \<Rightarrow> int option" where
  "venue_quote R P e i j x d (V_Mock s) w = try_call (md_quote x s :: (unit, _) res)"
| "venue_quote R P e i j x d (V_Soroswap s) w = try_call (so_quote R e i j x s w :: (unit, _) res)"
| "venue_quote R P e i j x d (V_Aquarius s) w = try_call (aq_quote P e i j x d w)"

fun venue_swap :: "'w host \<Rightarrow> 'w soroswap_fns \<Rightarrow> 'w aqua_fns \<Rightarrow> env \<Rightarrow> address \<Rightarrow> address \<Rightarrow> int \<Rightarrow> int \<Rightarrow> byte list \<Rightarrow> address \<Rightarrow> dex_venue \<Rightarrow> 'w \<Rightarrow>
    (int \<times> 'w) option" where
  "venue_swap H R P e i j x m d to (V_Mock s) w = try_call (md_swap H e i j x m d to s w :: (unit, _) res)"
| "venue_swap H R P e i j x m d to (V_Soroswap s) w = try_call (so_swap H R e i j x m to s w :: (unit, _) res)"
| "venue_swap H R P e i j x m d to (V_Aquarius s) w = try_call (aq_swap H P e i j x m d to s w)"

definition venue_fns :: "'w host \<Rightarrow> 'w soroswap_fns \<Rightarrow> 'w aqua_fns \<Rightarrow> (address \<rightharpoonup> dex_venue) \<Rightarrow> 'w invoke_fn \<Rightarrow> (byte list \<Rightarrow> Route option) \<Rightarrow>
    'w dex_fns" where
  "venue_fns H R P vs ivk route_of =
    \<lparr>da_quote = (\<lambda>e v i j x d w. Option.bind (vs v) (\<lambda>s. venue_quote R P e i j x d s w)),
     da_swap = (\<lambda>e v i j x m d to w. Option.bind (vs v) (\<lambda>s. venue_swap H R P e i j x m d to s w)),
     invoke_authorized = ivk, dx_route_of = route_of\<rparr>"

text \<open>Routers and pools move no tokens of a third party \<open>me\<close>.\<close>

locale pool_laws = sep41_host H for H :: "'w host" +
  fixes R :: "'w soroswap_fns" and P :: "'w aqua_fns" and me :: address
  assumes router_keeps: "sw_swap_exact R (calling e r) auth r x m path to dl w = Some (xs, w') \<Longrightarrow> current_contract e \<noteq> me \<Longrightarrow>
      tk_balance H t me w \<le> tk_balance H t me w'"
    and pool_keeps: "aq_pool_swap P (calling e p) auth p user i j y n w = Some (z, w') \<Longrightarrow> current_contract e \<noteq> me \<Longrightarrow>
      tk_balance H t me w \<le> tk_balance H t me w'"
begin

lemma others_keep:
  assumes "token_transfer H e tok a b x w = (Inr w' :: ('e, _) res)" "a \<noteq> me"
  shows "tk_balance H t me w \<le> tk_balance H t me w'"
  using token_transfer_moves(4) [OF assms(1), of t me] token_transfer_moves(1) [OF assms(1)] assms(2) by (auto simp: moved_def)

lemma venue_swap_keeps:
  assumes "venue_swap H R P e i j x m d to v w = Some (out, w')" "current_contract e \<noteq> me"
  shows "tk_balance H t me w \<le> tk_balance H t me w'"
proof (cases v)
  case (V_Mock s)
  with assms(1) obtain o' where "token_transfer H e j (current_contract e) to o' w = (Inr w' :: (unit, _) res)"
    by (auto simp: rs md_swap_def)
  from others_keep [OF this assms(2)] show ?thesis .
next
  case (V_Soroswap s)
  with assms(1) obtain w1 o' r au ps dl xs where c: "sw_swap_exact R (calling e r) au r x m ps (current_contract e) dl w = Some (xs, w1)"
    and p: "token_transfer H e j (current_contract e) to o' w1 = (Inr w' :: (unit, _) res)"
    by (auto simp: rs so_swap_def Let_def)
  from router_keeps [OF c assms(2)] others_keep [OF p assms(2)] show ?thesis by (rule order_trans)
next
  case (V_Aquarius s)
  with assms(1) obtain w1 o' p au a b x' m' y where c: "aq_pool_swap P (calling e p) au p (current_contract e) a b x' m' w = Some (y, w1)"
    and p: "token_transfer H e j (current_contract e) to o' w1 = (Inr w' :: (AquariusError, _) res)"
    by (auto simp: rs aq_swap_def Let_def)
  from pool_keeps [OF c assms(2)] others_keep [OF p assms(2)] show ?thesis by (rule order_trans)
qed

lemma venue_dex_laws:
  assumes "\<And>e target auth fn args w r w' tok t. ivk (calling e target) auth target fn args w = Some (r, w') \<Longrightarrow> current_contract e = me \<Longrightarrow>
      target \<in> apps \<Longrightarrow> \<forall>en \<in> set auth. \<exists>x. spend_of tok me en = Inr x \<Longrightarrow> t \<noteq> tok \<Longrightarrow> tk_balance H t me w \<le> tk_balance H t me w'"
    and "me \<notin> apps"
  shows "dex_laws H (venue_fns H R P vs ivk route_of) me apps"
proof
  fix e v i j x m d to w out w' t
  assume a: "da_swap (venue_fns H R P vs ivk route_of) (calling e v) v i j x m d to w = Some (out, w')" "current_contract e = me" "v \<in> apps"
  then obtain s where "venue_swap H R P (calling e v) i j x m d to s w = Some (out, w')" by (auto simp: venue_fns_def bind_eq_Some_conv)
  moreover have "current_contract (calling e v) \<noteq> me" using a(3) assms(2) by auto
  ultimately show "tk_balance H t me w \<le> tk_balance H t me w'" by (rule venue_swap_keeps)
next
  fix e target auth fn args w r w' tok t
  assume "invoke_authorized (venue_fns H R P vs ivk route_of) (calling e target) auth target fn args w = Some (r, w')" "current_contract e = me"
    "target \<in> apps" "\<forall>en \<in> set auth. \<exists>x. spend_of tok me en = Inr x" "t \<noteq> tok"
  then show "tk_balance H t me w \<le> tk_balance H t me w'" using assms(1) by (simp add: venue_fns_def)
qed

end

text \<open>The aggregator is handed exactly what arrived at the adapter, which keeps nothing.\<close>

lemma so_swap_passes_on:
  assumes "sep41_host H" "so_swap H R e i j x m to s w = (Inr (out, w') :: ('e, _) res)" "to \<noteq> current_contract e"
  shows "tk_balance H j (current_contract e) w' = tk_balance H j (current_contract e) w"
    "\<exists>a. so_aggregator s = Some a \<and> authorised e a"
proof -
  from assms(2) obtain w1 where p: "token_transfer H e j (current_contract e) to out w1 = (Inr w' :: ('e, _) res)"
    and o': "out = tk_balance H j (current_contract e) w1 - tk_balance H j (current_contract e) w"
    and a: "\<exists>a. so_aggregator s = Some a \<and> authorised e a"
    by (auto simp: rs so_swap_def Let_def)
  from sep41_host.token_transfer_moves(4) [OF assms(1) p, of j "current_contract e"] assms(3) o' a
  show "tk_balance H j (current_contract e) w' = tk_balance H j (current_contract e) w" "\<exists>a. so_aggregator s = Some a \<and> authorised e a"
    by (auto simp: moved_def)
qed

lemma aq_swap_passes_on:
  assumes "sep41_host H" "aq_swap H P e i j x m d to s w = Inr (out, w')" "to \<noteq> current_contract e"
  shows "tk_balance H j (current_contract e) w' = tk_balance H j (current_contract e) w"
    "\<exists>a. aq_aggregator s = Some a \<and> authorised e a"
proof -
  from assms(2) obtain w1 where p: "token_transfer H e j (current_contract e) to out w1 = (Inr w' :: (AquariusError, _) res)"
    and o': "out = tk_balance H j (current_contract e) w1 - tk_balance H j (current_contract e) w"
    and a: "\<exists>a. aq_aggregator s = Some a \<and> authorised e a"
    by (auto simp: rs aq_swap_def Let_def)
  from sep41_host.token_transfer_moves(4) [OF assms(1) p, of j "current_contract e"] assms(3) o' a
  show "tk_balance H j (current_contract e) w' = tk_balance H j (current_contract e) w" "\<exists>a. aq_aggregator s = Some a \<and> authorised e a"
    by (auto simp: moved_def)
qed

subsection \<open>A concrete deployment\<close>

text \<open>
  Over the ledger of test tokens: the three adapters, a Soroswap router and an Aquarius pool that take what was authorised and
  pay one for one, and a router for calls that does the same and pays what it is told.
\<close>

definition mock_addr :: address where "mock_addr = Contract 51"
definition soro_addr :: address where "soro_addr = Contract 52"
definition aqua_addr :: address where "aqua_addr = Contract 53"
definition call_router :: address where "call_router = Contract 54"
definition soro_pair :: address where "soro_pair = Contract 55"
definition aqua_pool :: address where "aqua_pool = Contract 56"

lemmas dex_addrs = mock_addr_def soro_addr_def aqua_addr_def call_router_def soro_pair_def aqua_pool_def this_contract_def token_a_def token_b_def

definition dex_apps :: "address set" where "dex_apps = {mock_addr, soro_addr, aqua_addr, call_router}"

primrec pull_entries :: "env \<Rightarrow> InvokerContractAuthEntry list \<Rightarrow> ledger \<Rightarrow> ledger option" where
  "pull_entries e [] w = Some w"
| "pull_entries e (en # ens) w =
    (case en of
       ContractEntry tok fn [AddressVal a, AddressVal b, I128Val x] [] \<Rightarrow>
         (if invoker e = Some a then Option.bind (tk_transfer ledger_host (e\<lparr>current_contract := tok\<rparr>) tok a b x w) (pull_entries e ens) else None)
     | _ \<Rightarrow> None)"

definition pull_and_pay :: "env \<Rightarrow> InvokerContractAuthEntry list \<Rightarrow> address \<Rightarrow> address \<Rightarrow> int \<Rightarrow> ledger \<Rightarrow> ledger option" where
  "pull_and_pay e auth tok to x w =
    Option.bind (pull_entries e auth w) (\<lambda>w. tk_transfer ledger_host (calling e tok) tok (current_contract e) to x w)"

definition demo_soroswap :: "ledger soroswap_fns" where
  "demo_soroswap = \<lparr>sw_swap_exact = (\<lambda>e auth r x m path to dl w. if r = soro_pair \<and> current_contract e = r then
       map_option (Pair [x, x]) (pull_and_pay e auth (last path) to x w) else None),
     sw_get_amounts_out = (\<lambda>e r x path w. Some [x, x]), sw_pair_for = (\<lambda>e r a b w. Some soro_pair)\<rparr>"

definition demo_aqua :: "ledger aqua_fns" where
  "demo_aqua = \<lparr>aq_pool_swap = (\<lambda>e auth p user i j x m w. if p = aqua_pool \<and> current_contract e = p then
       map_option (Pair x) (pull_and_pay e auth ([token_a, token_b] ! (j mod 2)) user (int x) w) else None),
     aq_estimate_swap = (\<lambda>e p i j x w. Some x), aq_get_tokens = (\<lambda>e p w. Some [token_a, token_b]), aq_address_of = (\<lambda>d. Some aqua_pool)\<rparr>"

definition demo_invoke :: "ledger invoke_fn" where
  "demo_invoke e auth target fn args w =
    (case args of [AddressVal tok, AddressVal to, I128Val x] \<Rightarrow> map_option (Pair VoidVal) (pull_and_pay e auth tok to x w) | _ \<Rightarrow> None)"

definition demo_dex_venues :: "address \<rightharpoonup> dex_venue" where
  "demo_dex_venues = [mock_addr \<mapsto> V_Mock \<lparr>md_rate = Some 9900, md_shortfall = Some 0\<rparr>,
     soro_addr \<mapsto> V_Soroswap \<lparr>so_aggregator = Some this_contract, so_router = Some soro_pair\<rparr>,
     aqua_addr \<mapsto> V_Aquarius \<lparr>aq_aggregator = Some this_contract\<rparr>]"

abbreviation "dex_ops \<equiv> venue_fns ledger_host demo_soroswap demo_aqua demo_dex_venues demo_invoke (\<lambda>_. None)"

lemma pull_entries_keeps:
  assumes "pull_entries e ens w = Some w'" "invoker e \<noteq> Some c \<or> (\<forall>en \<in> set ens. \<exists>x. spend_of tok c en = Inr x) \<and> t \<noteq> tok"
  shows "tk_balance ledger_host t c w \<le> tk_balance ledger_host t c w'"
  using assms
proof (induction ens arbitrary: w)
  case (Cons en ens)
  from Cons.prems(1) obtain tk fn a b x w1 where en: "en = ContractEntry tk fn [AddressVal a, AddressVal b, I128Val x] []"
    and a: "invoker e = Some a" and tr: "tk_transfer ledger_host (e\<lparr>current_contract := tk\<rparr>) tk a b x w = Some w1"
    and r: "pull_entries e ens w1 = Some w'"
    by (auto simp: bind_eq_Some_conv split: InvokerContractAuthEntry.splits list.splits val.splits if_splits)
  have "c \<noteq> a \<or> t \<noteq> tk" using Cons.prems(2) a by (auto simp: en spend_of_def split: if_splits)
  then have "tk_balance ledger_host t c w \<le> tk_balance ledger_host t c w1"
    using ledger.host_transfer [OF tr] by (auto simp: moved_def)
  with Cons.IH [OF r] Cons.prems(2) show ?case by auto
qed simp

lemma pull_and_pay_keeps:
  assumes "pull_and_pay e auth tk to x w = Some w'" "current_contract e \<noteq> c"
    "invoker e \<noteq> Some c \<or> (\<forall>en \<in> set auth. \<exists>x. spend_of tok c en = Inr x) \<and> t \<noteq> tok"
  shows "tk_balance ledger_host t c w \<le> tk_balance ledger_host t c w'"
proof -
  from assms(1) obtain w1 where p: "pull_entries e auth w = Some w1"
    and tr: "tk_transfer ledger_host (calling e tk) tk (current_contract e) to x w1 = Some w'"
    by (auto simp: pull_and_pay_def bind_eq_Some_conv)
  from pull_entries_keeps [OF p assms(3)] ledger.host_transfer [OF tr] assms(2) show ?thesis by (auto simp: moved_def)
qed

lemma invoker_calling [simp]: "invoker (calling e c) = Some (current_contract e)" by (simp add: calling_def)

interpretation ledger_pools: pool_laws ledger_host demo_soroswap demo_aqua this_contract
proof
  fix e r auth x m path to dl w xs w' t
  assume "sw_swap_exact demo_soroswap (calling e r) auth r x m path to dl w = Some (xs, w')" "current_contract e \<noteq> this_contract"
  then show "tk_balance ledger_host t this_contract w \<le> tk_balance ledger_host t this_contract w'"
    by (auto simp: demo_soroswap_def dex_addrs split: if_splits dest!: pull_and_pay_keeps [where c = this_contract and t = t])
next
  fix e p auth user i j y n w z w' t
  assume "aq_pool_swap demo_aqua (calling e p) auth p user i j y n w = Some (z, w')" "current_contract e \<noteq> this_contract"
  then show "tk_balance ledger_host t this_contract w \<le> tk_balance ledger_host t this_contract w'"
    by (auto simp: demo_aqua_def dex_addrs split: if_splits dest!: pull_and_pay_keeps [where c = this_contract and t = t])
qed

lemma demo_apps_apart: "this_contract \<notin> dex_apps" by (simp add: dex_apps_def dex_addrs)

interpretation ledger_dex: dex_laws ledger_host dex_ops this_contract dex_apps
proof (rule ledger_pools.venue_dex_laws [OF _ demo_apps_apart])
  fix e target auth fn args w r w' tok t
  assume i: "demo_invoke (calling e target) auth target fn args w = Some (r, w')" and t: "target \<in> dex_apps"
    and sp: "\<forall>en \<in> set auth. \<exists>x. spend_of tok this_contract en = Inr x" "t \<noteq> tok"
  from i obtain tk to x where p: "pull_and_pay (calling e target) auth tk to x w = Some w'"
    by (auto simp: demo_invoke_def split: list.splits val.splits)
  have "current_contract (calling e target) \<noteq> this_contract" using t demo_apps_apart by auto
  from pull_and_pay_keeps [OF p this] sp show "tk_balance ledger_host t this_contract w \<le> tk_balance ledger_host t this_contract w'" by blast
qed

interpretation ledger_pays: paying_host ledger_host
proof
  fix x tok a and w :: ledger and e b
  assume a: "0 \<le> x" "x \<le> tk_balance ledger_host tok a w" "authorised e a" "tk_balance ledger_host tok a w \<le> i128_max" "a \<noteq> b"
    "is_i128 (tk_balance ledger_host tok b w + x)"
  have "is_i128 (tk_balance ledger_host tok a w - x)"
    by (rule is_i128_between [OF is_i128_0, of i128_max]) (use a in \<open>simp_all add: width_defs\<close>)
  with a show "\<exists>w'. tk_transfer ledger_host e tok a b x w = Some w'"
    by (auto simp: ledger_eval require_auth_def i128_sub_def i128_add_def i128_checked_def Let_def)
qed

subsection \<open>A swap on it\<close>

definition dex_fee_config :: FeeConfig where
  "dex_fee_config = \<lparr>fe_recipient = carol, fe_protocol_fee_bps = 50, fe_max_partner_fee_bps = 200, fe_partner_share_bps = 2000\<rparr>"

definition dex_new :: dex_aggregator where
  "dex_new = dx_empty\<lparr>dx_admin := Some admin_addr, dx_router := Some carol, dx_fees := Some dex_fee_config, dx_venues := Some []\<rparr>"

definition dex_listed :: dex_aggregator where "dex_listed = dex_new\<lparr>dx_venues := Some [mock_addr]\<rparr>"

definition dex_desc :: SwapDescription where
  "dex_desc = \<lparr>sd_token_in = token_a, sd_token_out = token_b, sd_amount_in = 1000, sd_min_out = 970, sd_to = bob\<rparr>"

definition dex_route :: "Split list" where
  "dex_route = [\<lparr>sp_amount_in = 1000, sp_hops = [\<lparr>hp_venue = mock_addr, hp_token_out = token_b, hp_data = []\<rparr>]\<rparr>]"

definition dex_partner :: Partner where "dex_partner = \<lparr>pt_address = alice, pt_fee_bps = 100\<rparr>"

definition dex_after :: dex_aggregator where
  "dex_after = dex_listed\<lparr>dx_owed := [(alice, token_b) \<mapsto> 8, (carol, token_b) \<mapsto> 5], dx_total_owed := [token_b \<mapsto> 13]\<rparr>"

lemmas dex_eval = dex_fee_config_def dex_new_def dex_listed_def dx_empty_def dex_desc_def dex_route_def dex_partner_def
  dex_venues_def targets_def owed_def total_owed_def fees_def dex_paused_def not_paused_def

definition dex_w0 :: ledger where
  "dex_w0 = (\<lambda>tok. funded_token\<lparr>tt_balances := [alice \<mapsto> 10000, mock_addr \<mapsto> 5000]\<rparr>, \<lambda>_. po_empty)"

lemma dex_demo_valid: "validate token_a token_b 1000 dex_route dex_listed = Inr ()"
  by (simp add: validate_def validate_split_def ends_right_def MAX_SPLITS_def MAX_HOPS_def arith_defs width_defs dex_eval dex_addrs)

definition dex_w1 :: ledger where
  "dex_w1 = ((fst dex_w0)(token_a := funded_token\<lparr>tt_balances := [mock_addr \<mapsto> 5000, alice \<mapsto> 9000, this_contract \<mapsto> 1000]\<rparr>), \<lambda>_. po_empty)"

lemma dex_demo_input: "take_input ledger_host (demo_env 1) alice dex_desc dex_listed dex_w0 = Inr dex_w1"
  by (simp add: take_input_def free_balance_def arith_defs width_defs Let_def ledger_eval dex_eval dex_addrs demo_defs dex_w0_def dex_w1_def)

definition dex_w2 :: ledger where
  "dex_w2 = ((fst dex_w0)(token_a := funded_token\<lparr>tt_balances := [alice \<mapsto> 9000, this_contract \<mapsto> 0, mock_addr \<mapsto> 6000]\<rparr>,
     token_b := funded_token\<lparr>tt_balances := [alice \<mapsto> 10000, mock_addr \<mapsto> 4010, this_contract \<mapsto> 990]\<rparr>), \<lambda>_. po_empty)"

lemma dex_demo_execute: "dex_execute ledger_host dex_ops (demo_env 1) token_a dex_route dex_w1 = Inr (990, dex_w2)"
  by (simp add: dex_execute_def dex_route_def venue_fns_def demo_dex_venues_def md_swap_def md_quote_def signed_divide_int_def arith_defs width_defs
      Let_def ledger_eval require_auth_calling dex_addrs demo_defs dex_w0_def dex_w1_def dex_w2_def)

definition dex_w3 :: ledger where
  "dex_w3 = ((fst dex_w2)(token_b := funded_token\<lparr>tt_balances := [alice \<mapsto> 10000, mock_addr \<mapsto> 4010, this_contract \<mapsto> 13, bob \<mapsto> 977]\<rparr>), \<lambda>_. po_empty)"

definition dex_result :: SwapResult where
  "dex_result = \<lparr>sr_gross_out = 990, sr_protocol_fee = 4, sr_partner_fee = 9, sr_amount_out = 977\<rparr>"

lemma dex_demo_settle: "settle ledger_host (demo_env 1) token_b 990 (Some dex_partner) 970 bob dex_listed dex_w2 = Inr (dex_result, dex_after, dex_w3)"
  by (simp add: settle_def fees_on_def accrue_fees_def dex_credit_def bps_of_def checked_math_def mul_div_def mul_div_round_floor BPS_def arith_defs width_defs
      Let_def ledger_eval dex_eval dex_after_def dex_result_def dex_addrs demo_defs dex_w0_def dex_w2_def dex_w3_def)

lemma dex_demo_swap:
  "dex_swap ledger_host dex_ops (demo_env 1) alice dex_desc dex_route (Some dex_partner) dex_listed dex_w0 = Inr (dex_result, dex_after, dex_w3)"
  using dex_demo_valid dex_demo_input dex_demo_execute dex_demo_settle
  by (simp add: dex_swap_def dex_desc_def not_paused_def dex_paused_def dex_eval)

lemma dex_demo_run: "dex_run ledger_host dex_ops this_contract dex_apps dex_listed dex_w0"
  "dex_run ledger_host dex_ops this_contract dex_apps dex_after dex_w3"
proof -
  have "dex_constructor admin_addr carol dex_fee_config dx_empty = Inr dex_new"
    by (simp add: dex_constructor_def check_fees_def dex_fee_config_def MAX_PROTOCOL_FEE_BPS_def MAX_PARTNER_FEE_BPS_def BPS_def dex_new_def)
  then have r: "dex_run ledger_host dex_ops this_contract dex_apps dex_new dex_w0"
    by (rule dex_run.deployed) (simp add: ledger_eval dex_w0_def dex_addrs demo_defs)
  have "dex_exec ledger_host dex_ops (demo_env 1) (DX_Venue mock_addr True) dex_new dex_w0 = Inr (dex_listed, dex_w0)"
    by (simp add: allow_venue_def dex_admin_auth_def dex_admin_def MAX_DEX_VENUES_def dex_eval)
  from dex_run.called [OF r demo_env_simps(3) _ this]
  show r: "dex_run ledger_host dex_ops this_contract dex_apps dex_listed dex_w0" by (simp add: dex_apps_def)
  have "dex_exec ledger_host dex_ops (demo_env 1) (DX_Swap alice dex_desc dex_route (Some dex_partner)) dex_listed dex_w0 = Inr (dex_after, dex_w3)"
    using dex_demo_swap by simp
  from dex_run.called [OF r demo_env_simps(3) _ this] show "dex_run ledger_host dex_ops this_contract dex_apps dex_after dex_w3" by simp
qed

subsection \<open>Properties\<close>

text \<open>
  C23 (invariant). Over any run of the DEX aggregator, whoever calls it and however the adapters and routers behave within the host's
  rules, the fees booked in a token are the sum of what each recipient is owed, none is negative, and the aggregator's balance
  never falls below them. (The admin lists no token as a venue or target: the code refuses only the two tokens of the swap.)
\<close>

theorem dex_fees_covered:
  assumes "dex_laws H F me apps" "dex_run H F me apps s w"
  shows "total_owed t s = owed_sum t s \<and> 0 \<le> owed r t s \<and> owed r t s \<le> total_owed t s \<and> total_owed t s \<le> tk_balance H t me w"
proof -
  from dex_laws.dex_run_covers [OF assms] have "books s" "0 \<le> free_of H me t s w" by (auto simp: dex_inv_def)
  with owed_nonneg [of s r t] owed_le_total [of s r t] show ?thesis by (auto simp: books_def free_of_def)
qed

theorem dex_fees_covered_witness:
  "total_owed token_b dex_after = 13 \<and> owed alice token_b dex_after = 8 \<and> owed_sum token_b dex_after = 13 \<and>
     total_owed token_b dex_after \<le> tk_balance ledger_host token_b this_contract dex_w3"
proof -
  have "total_owed token_b dex_after = 13 \<and> owed alice token_b dex_after = 8" by (simp add: dex_after_def owed_def total_owed_def demo_defs)
  with dex_fees_covered [OF ledger_dex.dex_laws_axioms dex_demo_run(2), of token_b alice] show ?thesis by simp
qed



text \<open>
  C25 (liveness). Whoever is owed fees can always claim them, also while swaps are paused: over tokens that move what their owner
  has, a claim signed by the recipient succeeds, pays all that is owed in each of the tokens named, and leaves nothing owed.
\<close>

theorem dex_claim_always_pays:
  assumes laws: "dex_laws H F me apps" and pay: "paying_host H" and run: "dex_run H F me apps s w" and me: "current_contract e = me"
    and auth: "authorised e rcp" and rcp: "rcp \<noteq> me" "distinct toks"
    and fit: "\<And>t. t \<in> set toks \<Longrightarrow> tk_balance H t me w \<le> i128_max \<and> is_i128 (tk_balance H t rcp w + owed rcp t s)"
  shows "\<exists>s' w'. dex_claim H e rcp toks s w = Inr (map (\<lambda>t. owed rcp t s) toks, s', w') \<and>
    (\<forall>t. owed rcp t s' = (if t \<in> set toks then 0 else owed rcp t s)) \<and>
    (\<forall>t. tk_balance H t rcp w' = tk_balance H t rcp w + (if t \<in> set toks then owed rcp t s else 0))"
proof -
  from dex_laws.dex_run_covers [OF laws run] have bk: "books s" and cov: "\<And>t. total_owed t s \<le> tk_balance H t (current_contract e) w"
    by (auto simp: dex_inv_def free_of_def me)
  from paying_host.claim_tokens_pays [OF pay bk cov, of rcp toks] rcp fit me auth show ?thesis
    by (simp add: dex_claim_def require_auth_def)
qed

theorem dex_claim_always_pays_witness:
  "\<exists>s' w'. dex_claim ledger_host (demo_env 2) alice [token_b] dex_after dex_w3 = Inr ([8], s', w') \<and> owed alice token_b s' = 0 \<and>
     tk_balance ledger_host token_b alice w' = 10008"
proof -
  have o8: "owed alice token_b dex_after = 8" by (simp add: dex_after_def owed_def demo_defs)
  have b: "tk_balance ledger_host token_b alice dex_w3 = 10000" "tk_balance ledger_host token_b this_contract dex_w3 = 13"
    by (simp_all add: ledger_eval dex_w0_def dex_w2_def dex_w3_def dex_addrs demo_defs)
  have "\<exists>s' w'. dex_claim ledger_host (demo_env 2) alice [token_b] dex_after dex_w3 = Inr (map (\<lambda>t. owed alice t dex_after) [token_b], s', w') \<and>
    (\<forall>t. owed alice t s' = (if t \<in> set [token_b] then 0 else owed alice t dex_after)) \<and>
    (\<forall>t. tk_balance ledger_host t alice w' = tk_balance ledger_host t alice dex_w3 + (if t \<in> set [token_b] then owed alice t dex_after else 0))"
    by (rule dex_claim_always_pays [OF ledger_dex.dex_laws_axioms ledger_pays.paying_host_axioms dex_demo_run(2) demo_env_simps(3)])
      (simp_all add: o8 b width_defs)
  then show ?thesis by (auto simp: o8 b)
qed

subsection \<open>Quotes of routes that meet in one pool\<close>

text \<open>A constant-product pool as a venue: it quotes against its own balances, and swaps what has already arrived.\<close>

definition amm_fns :: "ledger dex_fns" where
  "amm_fns = \<lparr>da_quote = (\<lambda>e v i j x d w. Some (x * tk_balance ledger_host j v w div (tk_balance ledger_host i v w + x))),
     da_swap = (\<lambda>e v i j x m d to w.
       let out = x * tk_balance ledger_host j v w div tk_balance ledger_host i v w in
       map_option (Pair out) (tk_transfer ledger_host (calling e j) j v to out w)),
     invoke_authorized = (\<lambda>e auth target fn args w. None), dx_route_of = (\<lambda>_. None)\<rparr>"

definition amm_hop :: Hop where "amm_hop = \<lparr>hp_venue = mock_addr, hp_token_out = token_b, hp_data = []\<rparr>"

definition amm_route :: "Split list" where
  "amm_route = [\<lparr>sp_amount_in = 500, sp_hops = [amm_hop]\<rparr>, \<lparr>sp_amount_in = 500, sp_hops = [amm_hop]\<rparr>]"

definition amm_agg :: dex_aggregator where
  "amm_agg = dex_listed\<lparr>dx_fees := Some \<lparr>fe_recipient = carol, fe_protocol_fee_bps = 0, fe_max_partner_fee_bps = 0, fe_partner_share_bps = 0\<rparr>\<rparr>"

definition amm_token :: "(address \<rightharpoonup> int) \<Rightarrow> token_state" where "amm_token b = funded_token\<lparr>tt_balances := b\<rparr>"

definition amm_world :: "(address \<rightharpoonup> int) \<Rightarrow> (address \<rightharpoonup> int) \<Rightarrow> ledger" where
  "amm_world a b = ((\<lambda>_. funded_token)(token_a := amm_token a, token_b := amm_token b), \<lambda>_. po_empty)"

lemma amm_balance:
  "tk_balance ledger_host token_a c (amm_world a b) = (case a c of None \<Rightarrow> 0 | Some x \<Rightarrow> x)"
  "tk_balance ledger_host token_b c (amm_world a b) = (case b c of None \<Rightarrow> 0 | Some x \<Rightarrow> x)"
  by (simp_all add: amm_world_def amm_token_def ledger_eval)

lemma amm_transfer:
  assumes "a \<noteq> c" "p a = Some y" "0 \<le> x" "x \<le> y" "y \<le> i128_max" "authorised e a" "z = (case p c of None \<Rightarrow> 0 | Some z \<Rightarrow> z)" "is_i128 (z + x)"
  shows "tk_transfer ledger_host e token_a a c x (amm_world p q) = Some (amm_world (p(a \<mapsto> y - x, c \<mapsto> z + x)) q)"
    "tk_transfer ledger_host e token_b a c x (amm_world q p) = Some (amm_world q (p(a \<mapsto> y - x, c \<mapsto> z + x)))"
proof -
  have "is_i128 (y - x)" using assms(3-5) by (simp add: width_defs)
  with assms show "tk_transfer ledger_host e token_a a c x (amm_world p q) = Some (amm_world (p(a \<mapsto> y - x, c \<mapsto> z + x)) q)"
    "tk_transfer ledger_host e token_b a c x (amm_world q p) = Some (amm_world q (p(a \<mapsto> y - x, c \<mapsto> z + x)))"
    by (simp_all add: amm_world_def amm_token_def ledger_eval require_auth_def i128_sub_def i128_add_def i128_checked_def Let_def fun_upd_twist)
qed

text \<open>What \<open>alice\<close>, the pool and the aggregator hold.\<close>

definition holds :: "int \<Rightarrow> int \<Rightarrow> int \<Rightarrow> address \<rightharpoonup> int" where
  "holds a m t = [alice \<mapsto> a, mock_addr \<mapsto> m, this_contract \<mapsto> t]"

lemma amm_apart [simp]: "mock_addr \<noteq> alice" "alice \<noteq> mock_addr" "mock_addr \<noteq> this_contract" "this_contract \<noteq> mock_addr"
  by (simp_all add: dex_addrs demo_defs)

lemma holds_simps [simp]:
  "holds a m t alice = Some a" "holds a m t mock_addr = Some m" "holds a m t this_contract = Some t"
  "(holds a m t)(alice \<mapsto> x) = holds x m t" "(holds a m t)(mock_addr \<mapsto> x) = holds a x t" "(holds a m t)(this_contract \<mapsto> x) = holds a m x"
  by (auto simp: holds_def)

definition amm_start :: ledger where "amm_start = amm_world (holds 10000 1000 0) (holds 0 1000 0)"

definition amm_desc :: SwapDescription where
  "amm_desc = \<lparr>sd_token_in = token_a, sd_token_out = token_b, sd_amount_in = 1000, sd_min_out = 666, sd_to = alice\<rparr>"

lemmas amm_eval = amm_route_def amm_hop_def amm_agg_def amm_fns_def amm_balance

lemma amm_valid: "validate token_a token_b 1000 amm_route amm_agg = Inr ()"
  by (simp add: validate_def validate_split_def ends_right_def MAX_SPLITS_def MAX_HOPS_def arith_defs width_defs dex_eval amm_eval)

lemma amm_input: "take_input ledger_host (demo_env 1) alice amm_desc amm_agg amm_start = Inr (amm_world (holds 9000 1000 1000) (holds 0 1000 0))"
  by (simp add: take_input_def free_balance_def amm_desc_def amm_start_def token_transfer_def amm_transfer [of alice this_contract _ 10000] amm_balance
      dex_eval amm_agg_def arith_defs width_defs)

lemma amm_execute:
  "dex_execute ledger_host amm_fns (demo_env 1) token_a amm_route (amm_world (holds 9000 1000 1000) (holds 0 1000 0)) =
    Inr (499, amm_world (holds 9000 2000 0) (holds 0 501 499))"
  by (simp add: dex_execute_def amm_eval token_transfer_def amm_transfer [of this_contract mock_addr _ 1000] amm_transfer [of this_contract mock_addr _ 500]
      amm_transfer [of mock_addr this_contract _ 1000] amm_transfer [of mock_addr this_contract _ 667] arith_defs width_defs Let_def)

text \<open>
  \<open>quote_route\<close> prices every split against the pool as it stands, and a swap runs them one after the other: of two halves through
  one pool the quote promises 666 where the swap delivers 499, and a swap that asks for what was quoted is refused.
\<close>

theorem quote_route_ignores_impact:
  "quote_route amm_fns (demo_env 1) token_a token_b 1000 amm_route None amm_agg amm_start = Inr 666 \<and>
   dex_execute ledger_host amm_fns (demo_env 1) token_a amm_route (amm_world (holds 9000 1000 1000) (holds 0 1000 0)) =
     Inr (499, amm_world (holds 9000 2000 0) (holds 0 501 499)) \<and>
   dex_swap ledger_host amm_fns (demo_env 1) alice amm_desc amm_route None amm_agg amm_start = Inl (Err DX_BelowMinOut)"
proof (intro conjI amm_execute)
  show "quote_route amm_fns (demo_env 1) token_a token_b 1000 amm_route None amm_agg amm_start = Inr 666"
    by (simp add: quote_route_def amm_valid) (simp add: amm_eval amm_start_def fees_on_def bps_of_def checked_math_def mul_div_def mul_div_round_floor BPS_def
        arith_defs width_defs dex_eval)
  have "settle ledger_host (demo_env 1) token_b 499 None 666 alice amm_agg w = Inl (Err DX_BelowMinOut)" for w
    by (simp add: settle_def fees_on_def bps_of_def checked_math_def mul_div_def mul_div_round_floor BPS_def arith_defs width_defs dex_eval amm_agg_def)
  with amm_valid amm_input amm_execute
  show "dex_swap ledger_host amm_fns (demo_env 1) alice amm_desc amm_route None amm_agg amm_start = Inl (Err DX_BelowMinOut)"
    by (simp add: dex_swap_def amm_desc_def not_paused_def dex_paused_def dex_eval amm_agg_def)
qed

end
