(* ===== verification/Venue_Adapters.thy ===== *)
theory Venue_Adapters
  imports Token_Interface
begin

text \<open>
  The adapters through which a vault lends its idle assets: \<open>contracts/adapters/sep56\<close> over any SEP-56 vault,
  \<open>contracts/adapters/defindex\<close> over a DeFindex vault, \<open>contracts/adapters/blend\<close> over a Blend v2 pool. The venues are
  parameters. A call made right after \<open>authorize_as_current_contract\<close> takes the entries that were authorised. All three keep the
  owning vault, the asset and the venue.
\<close>

record venue_adapter =
  an_owner :: "address option"
  an_asset :: "address option"
  an_venue :: "address option"

subsection \<open>SEP-56 vaults\<close>

datatype Sep56Error = S5_AssetMismatch

record 'w sep56_fns =
  s5_query_asset :: "env \<Rightarrow> address \<Rightarrow> 'w \<Rightarrow> address option"
  s5_deposit :: "env \<Rightarrow> InvokerContractAuthEntry list \<Rightarrow> address \<Rightarrow> int \<Rightarrow> address \<Rightarrow> address \<Rightarrow> address \<Rightarrow> 'w \<Rightarrow> (int \<times> 'w) option"
  s5_withdraw :: "env \<Rightarrow> address \<Rightarrow> int \<Rightarrow> address \<Rightarrow> address \<Rightarrow> address \<Rightarrow> 'w \<Rightarrow> (int \<times> 'w) option"
  s5_convert_to_assets :: "env \<Rightarrow> address \<Rightarrow> int \<Rightarrow> 'w \<Rightarrow> int option"
  s5_max_withdraw :: "env \<Rightarrow> address \<Rightarrow> address \<Rightarrow> 'w \<Rightarrow> int option"
  s5_balance :: "env \<Rightarrow> address \<Rightarrow> address \<Rightarrow> 'w \<Rightarrow> int option"

definition sep56_constructor :: "'w sep56_fns \<Rightarrow> env \<Rightarrow> address \<Rightarrow> address \<Rightarrow> address \<Rightarrow> venue_adapter \<Rightarrow> 'w \<Rightarrow> (Sep56Error, venue_adapter) res" where
  "sep56_constructor S e owner asset venue s w =
    and_then (call_result (s5_query_asset S (calling e venue) venue w)) (\<lambda>a.
    and_then (panic_if (a \<noteq> asset) S5_AssetMismatch) (\<lambda>_.
      Inr (s\<lparr>an_owner := Some owner, an_asset := Some asset, an_venue := Some venue\<rparr>)))"

definition sep56_venue :: "venue_adapter \<Rightarrow> (Sep56Error, address) res" where
  "sep56_venue s = unwrap (an_venue s)"

definition sep56_deposit :: "'w sep56_fns \<Rightarrow> env \<Rightarrow> int \<Rightarrow> venue_adapter \<Rightarrow> 'w \<Rightarrow> (Sep56Error, int \<times> 'w) res" where
  "sep56_deposit S e amount s w =
    and_then (unwrap (an_owner s)) (\<lambda>owner.
    and_then (require_auth e owner) (\<lambda>_.
      let me = current_contract e in
      and_then (sep56_venue s) (\<lambda>venue.
      and_then (unwrap (an_asset s)) (\<lambda>asset.
      and_then (call_result (s5_deposit S (calling e venue) [transfer_entry asset me venue amount] venue amount me me me w)) (\<lambda>(_, w).
        Inr (amount, w))))))"

definition sep56_withdraw :: "'w sep56_fns \<Rightarrow> env \<Rightarrow> int \<Rightarrow> address \<Rightarrow> venue_adapter \<Rightarrow> 'w \<Rightarrow> (Sep56Error, int \<times> 'w) res" where
  "sep56_withdraw S e amount to s w =
    and_then (unwrap (an_owner s)) (\<lambda>owner.
    and_then (require_auth e owner) (\<lambda>_.
      let me = current_contract e in
      and_then (sep56_venue s) (\<lambda>venue.
      and_then (call_result (s5_max_withdraw S (calling e venue) venue me w)) (\<lambda>limit.
        let sent = min amount limit in
        if sent \<le> 0 then Inr (0, w)
        else and_then (call_result (s5_withdraw S (calling e venue) venue sent to me me w)) (\<lambda>(_, w). Inr (sent, w))))))"

definition sep56_total_assets :: "'w sep56_fns \<Rightarrow> env \<Rightarrow> venue_adapter \<Rightarrow> 'w \<Rightarrow> (Sep56Error, int) res" where
  "sep56_total_assets S e s w =
    and_then (sep56_venue s) (\<lambda>venue.
    and_then (call_result (s5_balance S (calling e venue) venue (current_contract e) w)) (\<lambda>shrs.
      call_result (s5_convert_to_assets S (calling e venue) venue shrs w)))"

definition sep56_max_withdraw :: "'w sep56_fns \<Rightarrow> env \<Rightarrow> venue_adapter \<Rightarrow> 'w \<Rightarrow> (Sep56Error, int) res" where
  "sep56_max_withdraw S e s w =
    and_then (sep56_venue s) (\<lambda>venue. call_result (s5_max_withdraw S (calling e venue) venue (current_contract e) w))"

subsection \<open>DeFindex\<close>

record 'w defindex_fns =
  df_deposit :: "env \<Rightarrow> InvokerContractAuthEntry list \<Rightarrow> address \<Rightarrow> int list \<Rightarrow> int list \<Rightarrow> address \<Rightarrow> bool \<Rightarrow> 'w \<Rightarrow> 'w option"
  df_vault_withdraw :: "env \<Rightarrow> address \<Rightarrow> int \<Rightarrow> int list \<Rightarrow> address \<Rightarrow> 'w \<Rightarrow> (int list \<times> 'w) option"
  df_amounts_per_shares :: "env \<Rightarrow> address \<Rightarrow> int \<Rightarrow> 'w \<Rightarrow> int list option"
  df_total_supply :: "env \<Rightarrow> address \<Rightarrow> 'w \<Rightarrow> int option"
  df_balance :: "env \<Rightarrow> address \<Rightarrow> address \<Rightarrow> 'w \<Rightarrow> int option"

definition defindex_constructor :: "address \<Rightarrow> address \<Rightarrow> address \<Rightarrow> venue_adapter \<Rightarrow> venue_adapter" where
  "defindex_constructor owner asset venue s = s\<lparr>an_owner := Some owner, an_asset := Some asset, an_venue := Some venue\<rparr>"

definition defindex_vault :: "venue_adapter \<Rightarrow> ('e, address) res" where
  "defindex_vault s = unwrap (an_venue s)"

definition defindex_value_of :: "'w defindex_fns \<Rightarrow> env \<Rightarrow> int \<Rightarrow> venue_adapter \<Rightarrow> 'w \<Rightarrow> ('e, int) res" where
  "defindex_value_of D e shrs s w =
    (if shrs \<le> 0 then Inr 0
     else and_then (defindex_vault s) (\<lambda>vault.
          and_then (call_result (df_amounts_per_shares D (calling e vault) vault shrs w)) (\<lambda>amounts.
            Inr (if amounts = [] then 0 else hd amounts))))"

definition defindex_deposit :: "'w defindex_fns \<Rightarrow> env \<Rightarrow> int \<Rightarrow> venue_adapter \<Rightarrow> 'w \<Rightarrow> ('e, int \<times> 'w) res" where
  "defindex_deposit D e amount s w =
    and_then (unwrap (an_owner s)) (\<lambda>owner.
    and_then (require_auth e owner) (\<lambda>_.
      let me = current_contract e in
      and_then (defindex_vault s) (\<lambda>vault.
      and_then (unwrap (an_asset s)) (\<lambda>asset.
      and_then (call_result (df_deposit D (calling e vault) [transfer_entry asset me vault amount] vault [amount] [amount] me True w)) (\<lambda>w.
        Inr (amount, w))))))"

text \<open>\<open>mul_div_ceil(..)\<close> with an \<open>Err\<close> replaced: a trap stays a trap.\<close>

definition math_or :: "'a \<Rightarrow> (MathError, 'a) res \<Rightarrow> ('e, 'a) res" where
  "math_or d r = (case r of Inr v \<Rightarrow> Inr v | Inl (Err _) \<Rightarrow> Inr d | Inl (Trap t) \<Rightarrow> Inl (Trap t))"

definition defindex_withdraw :: "'w host \<Rightarrow> 'w defindex_fns \<Rightarrow> env \<Rightarrow> int \<Rightarrow> address \<Rightarrow> venue_adapter \<Rightarrow> 'w \<Rightarrow> ('e, int \<times> 'w) res" where
  "defindex_withdraw H D e amount to s w =
    and_then (unwrap (an_owner s)) (\<lambda>owner.
    and_then (require_auth e owner) (\<lambda>_.
      let me = current_contract e in
      and_then (defindex_vault s) (\<lambda>vault.
      and_then (call_result (df_balance D (calling e vault) vault me w)) (\<lambda>held.
        if amount \<le> 0 \<or> held = 0 then Inr (0, w)
        else
          and_then (call_result (df_total_supply D (calling e vault) vault w)) (\<lambda>spl.
          and_then (defindex_value_of D e spl s w) (\<lambda>managed.
          and_then (math_or held (map_sum id (\<lambda>x. min x held) (mul_div_ceil amount spl (max managed 1)))) (\<lambda>shrs.
          and_then (unwrap (an_asset s)) (\<lambda>asset.
            let before = tk_balance H asset me w in
            and_then (call_result (df_vault_withdraw D (calling e vault) vault shrs [0] me w)) (\<lambda>(_, w).
            and_then (i128_sub (tk_balance H asset me w) before) (\<lambda>received.
            and_then (token_transfer H e asset me to received w) (\<lambda>w.
              Inr (received, w))))))))))))"

definition defindex_total_assets :: "'w defindex_fns \<Rightarrow> env \<Rightarrow> venue_adapter \<Rightarrow> 'w \<Rightarrow> ('e, int) res" where
  "defindex_total_assets D e s w =
    and_then (defindex_vault s) (\<lambda>vault.
    and_then (call_result (df_balance D (calling e vault) vault (current_contract e) w)) (\<lambda>held.
      defindex_value_of D e held s w))"

definition defindex_max_withdraw :: "'w defindex_fns \<Rightarrow> env \<Rightarrow> venue_adapter \<Rightarrow> 'w \<Rightarrow> ('e, int) res" where
  "defindex_max_withdraw D e s w = defindex_total_assets D e s w"

subsection \<open>Blend\<close>

definition SCALAR_12 :: int where "SCALAR_12 = 1000000000000"
definition SCALAR_7 :: int where "SCALAR_7 = 10000000"
definition SUPPLY :: nat where "SUPPLY = 0"
definition WITHDRAW :: nat where "WITHDRAW = 1"

record BlendRequest =
  br_request_type :: nat
  br_address :: address
  br_amount :: int

record Positions =
  po_liabilities :: "nat \<rightharpoonup> int"
  po_collateral :: "nat \<rightharpoonup> int"
  po_supply :: "nat \<rightharpoonup> int"

record ReserveConfig =
  rc_index :: nat
  rc_decimals :: nat
  rc_c_factor :: nat
  rc_l_factor :: nat
  rc_util :: nat
  rc_max_util :: nat
  rc_r_base :: nat
  rc_r_one :: nat
  rc_r_two :: nat
  rc_r_three :: nat
  rc_reactivity :: nat
  rc_supply_cap :: int
  rc_enabled :: bool

record ReserveData =
  rd_d_rate :: int
  rd_b_rate :: int
  rd_ir_mod :: int
  rd_b_supply :: int
  rd_d_supply :: int
  rd_backstop_credit :: int
  rd_last_time :: nat

record Reserve =
  re_asset :: address
  re_config :: ReserveConfig
  re_data :: ReserveData
  re_scalar :: int

record 'w blend_fns =
  bl_submit :: "env \<Rightarrow> InvokerContractAuthEntry list \<Rightarrow> address \<Rightarrow> address \<Rightarrow> address \<Rightarrow> address \<Rightarrow> BlendRequest list \<Rightarrow> 'w \<Rightarrow> (Positions \<times> 'w) option"
  bl_get_positions :: "env \<Rightarrow> address \<Rightarrow> address \<Rightarrow> 'w \<Rightarrow> Positions option"
  bl_get_reserve :: "env \<Rightarrow> address \<Rightarrow> address \<Rightarrow> 'w \<Rightarrow> Reserve option"

definition blend_constructor :: "'w blend_fns \<Rightarrow> env \<Rightarrow> address \<Rightarrow> address \<Rightarrow> address \<Rightarrow> venue_adapter \<Rightarrow> 'w \<Rightarrow> ('e, venue_adapter) res" where
  "blend_constructor B e owner asset venue s w =
    and_then (call_result (bl_get_reserve B (calling e venue) venue asset w)) (\<lambda>_.
      Inr (s\<lparr>an_owner := Some owner, an_asset := Some asset, an_venue := Some venue\<rparr>))"

definition blend_pool :: "venue_adapter \<Rightarrow> ('e, address) res" where
  "blend_pool s = unwrap (an_venue s)"

definition blend_request :: "nat \<Rightarrow> int \<Rightarrow> venue_adapter \<Rightarrow> ('e, BlendRequest list) res" where
  "blend_request request_type amount s =
    and_then (unwrap (an_asset s)) (\<lambda>asset. Inr [\<lparr>br_request_type = request_type, br_address = asset, br_amount = amount\<rparr>])"

definition blend_floor :: "int \<Rightarrow> int \<Rightarrow> ('e, int) res" where
  "blend_floor a rate = math_or 0 (mul_div a rate SCALAR_12)"

definition blend_available :: "ReserveData \<Rightarrow> ('e, int) res" where
  "blend_available r =
    and_then (blend_floor (rd_b_supply r) (rd_b_rate r)) (\<lambda>spl.
    and_then (math_or spl (mul_div_ceil (rd_d_supply r) (rd_d_rate r) SCALAR_12)) (\<lambda>owed.
      if owed = 0 then Inr spl
      else
        and_then (math_or spl (mul_div_ceil owed SCALAR_7 (SCALAR_7 - 1))) (\<lambda>flr.
        and_then (i128_sub spl flr) (\<lambda>x.
        and_then (i128_sub x 1) (\<lambda>x. Inr (max x 0))))))"

definition blend_total_assets :: "'w blend_fns \<Rightarrow> env \<Rightarrow> venue_adapter \<Rightarrow> 'w \<Rightarrow> ('e, int) res" where
  "blend_total_assets B e s w =
    and_then (blend_pool s) (\<lambda>pool.
    and_then (unwrap (an_asset s)) (\<lambda>asset.
    and_then (call_result (bl_get_reserve B (calling e pool) pool asset w)) (\<lambda>r.
    and_then (call_result (bl_get_positions B (calling e pool) pool (current_contract e) w)) (\<lambda>p.
      let held = (case po_supply p (rc_index (re_config r)) of None \<Rightarrow> 0 | Some x \<Rightarrow> x) in
      blend_floor held (rd_b_rate (re_data r))))))"

definition blend_max_withdraw :: "'w blend_fns \<Rightarrow> env \<Rightarrow> venue_adapter \<Rightarrow> 'w \<Rightarrow> ('e, int) res" where
  "blend_max_withdraw B e s w =
    and_then (blend_pool s) (\<lambda>pool.
    and_then (unwrap (an_asset s)) (\<lambda>asset.
    and_then (call_result (bl_get_reserve B (calling e pool) pool asset w)) (\<lambda>r.
    and_then (blend_total_assets B e s w) (\<lambda>total.
    and_then (blend_available (re_data r)) (\<lambda>avail.
      Inr (min total avail))))))"

definition blend_deposit :: "'w blend_fns \<Rightarrow> env \<Rightarrow> int \<Rightarrow> venue_adapter \<Rightarrow> 'w \<Rightarrow> ('e, int \<times> 'w) res" where
  "blend_deposit B e amount s w =
    and_then (unwrap (an_owner s)) (\<lambda>owner.
    and_then (require_auth e owner) (\<lambda>_.
      let me = current_contract e in
      and_then (blend_pool s) (\<lambda>pool.
      and_then (unwrap (an_asset s)) (\<lambda>asset.
      and_then (blend_request SUPPLY amount s) (\<lambda>rq.
      and_then (call_result (bl_submit B (calling e pool) [transfer_entry asset me pool amount] pool me me me rq w)) (\<lambda>(_, w).
        Inr (amount, w)))))))"

definition blend_withdraw :: "'w blend_fns \<Rightarrow> env \<Rightarrow> int \<Rightarrow> address \<Rightarrow> venue_adapter \<Rightarrow> 'w \<Rightarrow> ('e, int \<times> 'w) res" where
  "blend_withdraw B e amount to s w =
    and_then (unwrap (an_owner s)) (\<lambda>owner.
    and_then (require_auth e owner) (\<lambda>_.
    and_then (blend_max_withdraw B e s w) (\<lambda>limit.
      let sent = min amount limit; me = current_contract e in
      if sent \<le> 0 then Inr (0, w)
      else
        and_then (blend_pool s) (\<lambda>pool.
        and_then (blend_request WITHDRAW sent s) (\<lambda>rq.
        and_then (call_result (bl_submit B (calling e pool) [] pool me me to rq w)) (\<lambda>(_, w).
          Inr (sent, w)))))))"

subsection \<open>What the adapters send\<close>

lemma math_or_Inr_iff [rs]: "math_or d r = Inr v \<longleftrightarrow> r = Inr v \<or> (\<exists>k. r = Inl (Err k)) \<and> v = d"
  by (auto simp: math_or_def split: sum.splits failure.splits)

lemma sep56_withdraw_Inr:
  assumes "sep56_withdraw S e x to s w = Inr (sent, w')" "0 < sent"
  shows "\<exists>owner venue limit y. an_owner s = Some owner \<and> authorised e owner \<and> an_venue s = Some venue \<and>
    sep56_max_withdraw S e s w = Inr limit \<and> sent = min x limit \<and>
    s5_withdraw S (calling e venue) venue sent to (current_contract e) (current_contract e) w = Some (y, w')"
  using assms by (auto simp: sep56_withdraw_def sep56_max_withdraw_def sep56_venue_def Let_def rs split: if_splits)

text \<open>A DeFindex exit burns at most what is held and forwards everything that arrived.\<close>

lemma defindex_withdraw_Inr:
  assumes "sep41_host H" "defindex_withdraw H D e x to s w = (Inr (sent, w') :: ('e, _) res)" "to \<noteq> current_contract e" "an_asset s = Some asset"
  shows "tk_balance H asset (current_contract e) w' = tk_balance H asset (current_contract e) w \<or> w' = w \<and> sent = 0"
    "\<exists>owner. an_owner s = Some owner \<and> authorised e owner"
proof -
  from assms(2,4) have o1: "\<exists>owner. an_owner s = Some owner \<and> authorised e owner" by (auto simp: defindex_withdraw_def Let_def rs)
  from assms(2,4) consider "w' = w" "sent = 0"
    | w1 where "token_transfer H e asset (current_contract e) to sent w1 = (Inr w' :: ('e, _) res)"
      "sent = tk_balance H asset (current_contract e) w1 - tk_balance H asset (current_contract e) w"
    by (auto simp: defindex_withdraw_def Let_def rs split: if_splits)
  then show "tk_balance H asset (current_contract e) w' = tk_balance H asset (current_contract e) w \<or> w' = w \<and> sent = 0"
  proof cases
    case (2 w1)
    from sep41_host.token_transfer_moves(4) [OF assms(1) 2(1), of asset "current_contract e"] assms(3) 2(2) show ?thesis by (simp add: moved_def)
  qed simp
  show "\<exists>owner. an_owner s = Some owner \<and> authorised e owner" by (rule o1)
qed

lemma defindex_shares_bounded:
  assumes "math_or held (map_sum id (\<lambda>x. min x held) (mul_div_ceil x spl m)) = Inr shrs"
  shows "shrs \<le> held"
  using assms by (cases "mul_div_ceil x spl m") (auto simp: math_or_def split: failure.splits)

subsection \<open>Blend's reserve\<close>

text \<open>What the pool's suppliers are worth and what its borrowers owe, in the underlying.\<close>

definition reserve_supply :: "ReserveData \<Rightarrow> int" where "reserve_supply r = rd_b_supply r * rd_b_rate r div SCALAR_12"
definition reserve_owed :: "ReserveData \<Rightarrow> int" where "reserve_owed r = ceil_div (rd_d_supply r * rd_d_rate r) SCALAR_12"

lemma blend_available_bound:
  assumes av: "blend_available r = (Inr a :: ('e, _) res)" and x: "0 < x" "x \<le> a"
  shows "x \<le> reserve_supply r" "reserve_owed r \<noteq> 0 \<Longrightarrow> reserve_owed r * SCALAR_7 \<le> (reserve_supply r - x - 1) * (SCALAR_7 - 1)"
proof -
  from av obtain spl ow where spl: "math_or 0 (mul_div (rd_b_supply r) (rd_b_rate r) SCALAR_12) = (Inr spl :: ('e, _) res)"
    and ow: "math_or spl (mul_div_ceil (rd_d_supply r) (rd_d_rate r) SCALAR_12) = (Inr ow :: ('e, _) res)"
    and rest: "ow = 0 \<and> a = spl \<or> (\<exists>flr. ow \<noteq> 0 \<and> math_or spl (mul_div_ceil ow SCALAR_7 (SCALAR_7 - 1)) = (Inr flr :: ('e, _) res) \<and> a = max (spl - flr - 1) 0)"
    by (auto simp: blend_available_def blend_floor_def and_then_Inr_iff i128_ops_Inr_iff split: if_splits)
  have spl0: "0 \<le> spl" using spl mul_div_nonneg unfolding math_or_Inr_iff by blast
  have s: "spl = reserve_supply r" if "0 < spl" using spl that unfolding math_or_Inr_iff mul_div_Inr_iff reserve_supply_def by blast
  have o': "ow = spl \<or> ow = reserve_owed r" using ow unfolding math_or_Inr_iff mul_div_ceil_Inr_iff reserve_owed_def by blast
  have ow0: "0 \<le> ow" using ow spl0 mul_div_ceil_nonneg unfolding math_or_Inr_iff by blast
  from rest have "0 < spl \<and> x \<le> spl \<and> (reserve_owed r \<noteq> 0 \<longrightarrow> reserve_owed r * SCALAR_7 \<le> (spl - x - 1) * (SCALAR_7 - 1))"
  proof (elim disjE exE conjE)
    assume z: "ow = 0" "a = spl"
    with x have "0 < spl" by simp
    with z o' x show ?thesis by auto
  next
    fix flr
    assume n: "ow \<noteq> 0" and flr: "math_or spl (mul_div_ceil ow SCALAR_7 (SCALAR_7 - 1)) = (Inr flr :: ('e, _) res)" and a: "a = max (spl - flr - 1) 0"
    with x have b: "flr \<le> spl - x - 1" by simp
    then have "flr \<noteq> spl" using x by simp
    with flr have m: "mul_div_ceil ow SCALAR_7 (SCALAR_7 - 1) = Inr flr" by (auto simp: math_or_Inr_iff)
    then have f: "flr = ceil_div (ow * SCALAR_7) (SCALAR_7 - 1)" "0 \<le> flr" using mul_div_ceil_nonneg [OF m] by (auto simp: mul_div_ceil_Inr_iff)
    have ge: "ow * SCALAR_7 \<le> flr * (SCALAR_7 - 1)" unfolding f(1) by (rule ceil_div_mult_ge) (simp add: SCALAR_7_def)
    also have "\<dots> \<le> (spl - x - 1) * (SCALAR_7 - 1)" using b by (intro mult_right_mono) (simp_all add: SCALAR_7_def)
    finally have key: "ow * SCALAR_7 \<le> (spl - x - 1) * (SCALAR_7 - 1)" .
    have "ow \<le> flr" using ge ow0 f(2) by (simp add: SCALAR_7_def)
    then have "ow \<noteq> spl" using b x by linarith
    with key b f(2) x o' show ?thesis by auto
  qed
  with s show "x \<le> reserve_supply r" "reserve_owed r \<noteq> 0 \<Longrightarrow> reserve_owed r * SCALAR_7 \<le> (reserve_supply r - x - 1) * (SCALAR_7 - 1)" by auto
qed

text \<open>
  C28 (bounds). A withdrawal through the Blend adapter is signed by its owner and asks the pool once, for at most the amount wanted
  and at most the position's value, and for so little that the reserve's utilisation stays below 100 % after it: where anything is
  borrowed, the debt is at most \<open>(SCALAR_7 - 1) / SCALAR_7\<close> of what is left supplied, with one unit to spare for the pool's rounding.
\<close>

theorem blend_withdraw_leaves_reserve:
  assumes wd: "blend_withdraw B e x to s w = (Inr (sent, w') :: ('e, _) res)" and "0 < sent"
    and pool: "an_venue s = Some pool" "an_asset s = Some asset" and r: "bl_get_reserve B (calling e pool) pool asset w = Some r"
  shows "(\<exists>owner. an_owner s = Some owner \<and> authorised e owner) \<and> sent \<le> x \<and>
    (\<exists>total. blend_total_assets B e s w = (Inr total :: ('e, _) res) \<and> sent \<le> total) \<and> sent \<le> reserve_supply (re_data r) \<and>
    (reserve_owed (re_data r) = 0 \<or>
      reserve_owed (re_data r) * SCALAR_7 \<le> (reserve_supply (re_data r) - sent - 1) * (SCALAR_7 - 1)) \<and>
    (\<exists>p. bl_submit B (calling e pool) [] pool (current_contract e) (current_contract e) to
       [\<lparr>br_request_type = WITHDRAW, br_address = asset, br_amount = sent\<rparr>] w = Some (p, w'))"
proof -
  from wd assms(2) pool obtain owner total avail p where o1: "an_owner s = Some owner" "authorised e owner"
    and t: "blend_total_assets B e s w = (Inr total :: ('e, _) res)" and av: "blend_available (re_data r) = (Inr avail :: ('e, _) res)"
    and sent: "sent = min x (min total avail)"
    and sub: "bl_submit B (calling e pool) [] pool (current_contract e) (current_contract e) to
       [\<lparr>br_request_type = WITHDRAW, br_address = asset, br_amount = sent\<rparr>] w = Some (p, w')"
    using r by (auto simp: blend_withdraw_def blend_max_withdraw_def blend_pool_def blend_request_def Let_def rs split: if_splits)
  have "sent \<le> x" "sent \<le> total" "sent \<le> avail" using sent by auto
  with blend_available_bound [OF av assms(2)] o1 t sub show ?thesis by blast
qed

text \<open>A pool with 1000 supplied, 800 of it by the adapter, and 500 lent out.\<close>

definition blend_reserve :: Reserve where
  "blend_reserve = \<lparr>re_asset = token_a, re_config = \<lparr>rc_index = 3, rc_decimals = 7, rc_c_factor = 0, rc_l_factor = 0, rc_util = 0,
     rc_max_util = 0, rc_r_base = 0, rc_r_one = 0, rc_r_two = 0, rc_r_three = 0, rc_reactivity = 0, rc_supply_cap = 0, rc_enabled = True\<rparr>,
     re_data = \<lparr>rd_d_rate = SCALAR_12, rd_b_rate = SCALAR_12, rd_ir_mod = 0, rd_b_supply = 1000, rd_d_supply = 500,
       rd_backstop_credit = 0, rd_last_time = 0\<rparr>, re_scalar = 10000000\<rparr>"

definition blend_demo :: "int blend_fns" where
  "blend_demo = \<lparr>bl_submit = (\<lambda>e auth pool f sp to rq w. Some (\<lparr>po_liabilities = Map.empty, po_collateral = Map.empty, po_supply = [3 \<mapsto> w]\<rparr>,
       w - br_amount (hd rq))),
     bl_get_positions = (\<lambda>e pool a w. Some \<lparr>po_liabilities = Map.empty, po_collateral = Map.empty, po_supply = [3 \<mapsto> w]\<rparr>),
     bl_get_reserve = (\<lambda>e pool a w. Some blend_reserve)\<rparr>"

definition blend_adapter :: venue_adapter where
  "blend_adapter = \<lparr>an_owner = Some alice, an_asset = Some token_a, an_venue = Some (Contract 61)\<rparr>"

theorem blend_withdraw_leaves_reserve_witness:
  "blend_withdraw blend_demo (demo_env 1) 600 bob blend_adapter 800 = (Inr (498, 302) :: (unit, _) res) \<and>
     500 * SCALAR_7 \<le> (1000 - 498 - 1) * (SCALAR_7 - 1)"
proof -
  have wd: "blend_withdraw blend_demo (demo_env 1) 600 bob blend_adapter 800 = (Inr (498, 302) :: (unit, _) res)"
    by (simp add: blend_withdraw_def blend_max_withdraw_def blend_total_assets_def blend_available_def blend_floor_def blend_pool_def
        blend_request_def math_or_def mul_div_def mul_div_ceil_def mul_div_round_floor mul_div_round_ceil ceil_div_def blend_demo_def
        blend_adapter_def blend_reserve_def SCALAR_12_def SCALAR_7_def arith_defs width_defs Let_def)
  have "reserve_owed (re_data blend_reserve) = 500" "reserve_supply (re_data blend_reserve) = 1000"
    by (simp_all add: reserve_owed_def reserve_supply_def ceil_div_def blend_reserve_def SCALAR_12_def)
  with wd blend_withdraw_leaves_reserve [OF wd, of "Contract 61" token_a blend_reserve]
  show ?thesis by (simp add: blend_adapter_def blend_demo_def)
qed

end
