(* ===== verification/Faucet.thy ===== *)
theory Faucet
  imports Ledger
begin

text \<open>
  \<open>contracts/faucet/src/lib.rs\<close>: hands out a fixed drip of every listed token, at most once per cooldown and address, and
  \<open>contracts/mocks/mock_oracle/src/lib.rs\<close>, the price feed of the tests. Events and TTL extension are left out.
\<close>

datatype FaucetError = FT_Cooldown | FT_InvalidAmount

record faucet =
  ft_admin :: "address option"
  ft_cooldown :: "nat option"
  ft_drips :: "(address \<times> int) list option"
  ft_last_claim :: "address \<rightharpoonup> nat"

definition ft_empty :: faucet where
  "ft_empty = \<lparr>ft_admin = None, ft_cooldown = None, ft_drips = None, ft_last_claim = Map.empty\<rparr>"

definition faucet_constructor :: "address \<Rightarrow> nat \<Rightarrow> faucet \<Rightarrow> faucet" where
  "faucet_constructor admin cooldown s = s\<lparr>ft_admin := Some admin, ft_cooldown := Some cooldown, ft_drips := Some []\<rparr>"

definition faucet_admin :: "faucet \<Rightarrow> (FaucetError, address) res" where
  "faucet_admin s = unwrap (ft_admin s)"

definition faucet_cooldown :: "faucet \<Rightarrow> (FaucetError, nat) res" where
  "faucet_cooldown s = unwrap (ft_cooldown s)"

definition drips :: "faucet \<Rightarrow> (FaucetError, (address \<times> int) list) res" where
  "drips s = unwrap (ft_drips s)"

definition time_until_next_claim :: "env \<Rightarrow> address \<Rightarrow> faucet \<Rightarrow> (FaucetError, nat) res" where
  "time_until_next_claim e who s =
    (case ft_last_claim s who of
       Some t \<Rightarrow> and_then (faucet_cooldown s) (\<lambda>c. Inr (u64_saturating_add t c - ledger_timestamp e))
     | None \<Rightarrow> Inr 0)"

definition set_drip :: "env \<Rightarrow> address \<Rightarrow> int \<Rightarrow> faucet \<Rightarrow> (FaucetError, faucet) res" where
  "set_drip e tok amount s =
    and_then (faucet_admin s) (\<lambda>admin.
    and_then (require_auth e admin) (\<lambda>_.
    and_then (panic_if (amount < 0) FT_InvalidAmount) (\<lambda>_.
    and_then (drips s) (\<lambda>ds.
      let ds' = (case index_of tok (map fst ds) of
          Some i \<Rightarrow> if amount = 0 then remove_at i ds else ds[i := (tok, amount)]
        | None \<Rightarrow> if amount = 0 then ds else ds @ [(tok, amount)]) in
      Inr (s\<lparr>ft_drips := Some ds'\<rparr>)))))"

definition set_cooldown :: "env \<Rightarrow> nat \<Rightarrow> faucet \<Rightarrow> (FaucetError, faucet) res" where
  "set_cooldown e cooldown s =
    and_then (faucet_admin s) (\<lambda>admin.
    and_then (require_auth e admin) (\<lambda>_. Inr (s\<lparr>ft_cooldown := Some cooldown\<rparr>)))"

text \<open>\<open>upgrade\<close>: the code hash handed to the host.\<close>

definition faucet_upgrade :: "env \<Rightarrow> bytes32 \<Rightarrow> faucet \<Rightarrow> (FaucetError, bytes32) res" where
  "faucet_upgrade e wasm_hash s = and_then (faucet_admin s) (\<lambda>admin. and_then (require_auth e admin) (\<lambda>_. Inr wasm_hash))"

text \<open>The loop of \<open>claim\<close>: a token that is out of stock or whose transfer fails is skipped.\<close>

primrec drip_all :: "'w host \<Rightarrow> env \<Rightarrow> address \<Rightarrow> (address \<times> int) list \<Rightarrow> 'w \<Rightarrow> (address \<times> int) list \<times> 'w" where
  "drip_all H e to [] w = ([], w)"
| "drip_all H e to (d # ds) w =
    (case d of (tok, drip) \<Rightarrow>
       (case (if drip \<le> tk_balance H tok (current_contract e) w
              then tk_transfer H (calling e tok) tok (current_contract e) to drip w else None) of
          Some w' \<Rightarrow> (case drip_all H e to ds w' of (sent, w'') \<Rightarrow> ((tok, drip) # sent, w''))
        | None \<Rightarrow> drip_all H e to ds w))"

definition faucet_claim :: "'w host \<Rightarrow> env \<Rightarrow> address \<Rightarrow> faucet \<Rightarrow> 'w \<Rightarrow> (FaucetError, (address \<times> int) list \<times> faucet \<times> 'w) res" where
  "faucet_claim H e to s w =
    and_then (require_auth e to) (\<lambda>_.
    and_then (time_until_next_claim e to s) (\<lambda>t.
    and_then (panic_if (0 < t) FT_Cooldown) (\<lambda>_.
    and_then (drips s) (\<lambda>ds.
      case drip_all H e to ds w of (sent, w) \<Rightarrow>
        Inr (sent, s\<lparr>ft_last_claim := (ft_last_claim s)(to \<mapsto> ledger_timestamp e)\<rparr>, w)))))"

lemma faucet_claim_Inr:
  "faucet_claim H e to s w = Inr (sent, s', w') \<longleftrightarrow>
    authorised e to \<and> time_until_next_claim e to s = Inr 0 \<and> s' = s\<lparr>ft_last_claim := (ft_last_claim s)(to \<mapsto> ledger_timestamp e)\<rparr> \<and>
    (\<exists>ds. ft_drips s = Some ds \<and> drip_all H e to ds w = (sent, w'))"
  unfolding faucet_claim_def case_prod_beta by (auto simp: rs drips_def prod_eq_iff)

subsection \<open>The test oracle\<close>

record mock_oracle =
  mo_operator :: "address option"
  mo_price :: "int option"
  mo_stamp :: "nat option"

definition mo_constructor :: "address \<Rightarrow> int \<Rightarrow> mock_oracle \<Rightarrow> mock_oracle" where
  "mo_constructor operator price s = s\<lparr>mo_operator := Some operator, mo_price := Some price\<rparr>"

definition mo_set_price :: "env \<Rightarrow> int \<Rightarrow> nat option \<Rightarrow> mock_oracle \<Rightarrow> ('e, mock_oracle) res" where
  "mo_set_price e price timestamp s =
    and_then (unwrap (mo_operator s)) (\<lambda>operator.
    and_then (require_auth e operator) (\<lambda>_. Inr (s\<lparr>mo_price := Some price, mo_stamp := timestamp\<rparr>)))"

definition mo_get_price :: "env \<Rightarrow> address \<Rightarrow> address \<Rightarrow> mock_oracle \<Rightarrow> ('e, PriceData) res" where
  "mo_get_price e base quote s =
    and_then (unwrap (mo_price s)) (\<lambda>p.
      Inr \<lparr>pd_price = p, pd_timestamp = (case mo_stamp s of None \<Rightarrow> ledger_timestamp e | Some t \<Rightarrow> t)\<rparr>)"

lemma mo_reads_back:
  assumes "mo_set_price e p t s = (Inr s' :: ('e, _) res)"
  shows "mo_get_price e' b q s' = (Inr \<lparr>pd_price = p, pd_timestamp = (case t of None \<Rightarrow> ledger_timestamp e' | Some x \<Rightarrow> x)\<rparr> :: ('f, _) res)"
  using assms by (auto simp: mo_set_price_def mo_get_price_def rs)

subsection \<open>Runs of the faucet\<close>

datatype faucet_op = FT_Drip address int | FT_SetCooldown nat | FT_Claim address

fun faucet_exec :: "'w host \<Rightarrow> env \<Rightarrow> faucet_op \<Rightarrow> faucet \<Rightarrow> 'w \<Rightarrow> (FaucetError, faucet \<times> 'w) res" where
  "faucet_exec H e (FT_Drip t x) s w = and_then (set_drip e t x s) (\<lambda>s. Inr (s, w))"
| "faucet_exec H e (FT_SetCooldown c) s w = and_then (set_cooldown e c s) (\<lambda>s. Inr (s, w))"
| "faucet_exec H e (FT_Claim a) s w = and_then (faucet_claim H e a s w) (\<lambda>(_, sw). Inr sw)"

text \<open>The drips name each token once, with a positive amount.\<close>

definition faucet_inv :: "faucet \<Rightarrow> bool" where
  "faucet_inv s \<longleftrightarrow> (\<exists>ds. ft_drips s = Some ds \<and> distinct (map fst ds) \<and> (\<forall>d \<in> set ds. 0 < snd d))"

lemma map_remove_at: "map f (remove_at i xs) = remove_at i (map f xs)"
  by (simp add: remove_at_def take_map drop_map)

lemma set_remove_at_subset: "set (remove_at i xs) \<subseteq> set xs"
  by (auto simp: remove_at_def dest: in_set_takeD in_set_dropD)

lemma faucet_exec_inv:
  assumes "faucet_exec H e op s w = Inr (s', w')" "faucet_inv s"
  shows "faucet_inv s'"
proof (cases op)
  case (FT_Drip t x)
  from assms(2) obtain ds where ds: "ft_drips s = Some ds" "distinct (map fst ds)" "\<forall>d \<in> set ds. 0 < snd d" by (auto simp: faucet_inv_def)
  show ?thesis
  proof (cases "index_of t (map fst ds)")
    case None
    with FT_Drip assms(1) ds show ?thesis by (auto simp: set_drip_def drips_def Let_def rs faucet_inv_def not_less split: if_splits)
  next
    case (Some i)
    then have i: "i < length ds" "fst (ds ! i) = t" using index_of_Some [OF Some] by auto
    have "distinct (map fst (remove_at i ds))" using ds(2) remove_at_index_of [OF Some] by (simp add: map_remove_at distinct_remove1)
    moreover have "map fst (ds[i := (t, x)]) = map fst ds" using i by (metis fst_conv list_update_id map_update nth_map)
    moreover have "\<forall>d \<in> set (remove_at i ds). 0 < snd d" using ds(3) set_remove_at_subset [of i ds] by blast
    ultimately show ?thesis using FT_Drip assms(1) ds Some
      by (auto simp: set_drip_def drips_def Let_def rs faucet_inv_def not_less split: if_splits dest!: set_update_subset_insert [THEN subsetD])
  qed
qed (use assms in \<open>auto simp: set_cooldown_def faucet_claim_Inr rs faucet_inv_def\<close>)

text \<open>What a claim sends is what leaves the faucet.\<close>

lemma drip_all_sends:
  assumes "sep41_host H" "drip_all H e to ds w = (sent, w')" "to \<noteq> current_contract e" "distinct (map fst ds)"
  shows "set sent \<subseteq> set ds" "distinct (map fst sent)"
    "tk_balance H t to w' = tk_balance H t to w + (case map_of sent t of None \<Rightarrow> 0 | Some x \<Rightarrow> x)"
proof -
  have "set sent \<subseteq> set ds \<and> distinct (map fst sent) \<and>
    tk_balance H t to w' = tk_balance H t to w + (case map_of sent t of None \<Rightarrow> 0 | Some x \<Rightarrow> x)"
    using assms(2,4)
  proof (induction ds arbitrary: w sent)
    case (Cons d ds)
    obtain tok x where d: "d = (tok, x)" by fastforce
    show ?case
    proof (cases "if x \<le> tk_balance H tok (current_contract e) w then tk_transfer H (calling e tok) tok (current_contract e) to x w else None")
      case None
      with Cons.IH [of w sent] Cons.prems d show ?thesis by auto
    next
      case (Some w1)
      with Cons.prems(1) d obtain sent' where r: "drip_all H e to ds w1 = (sent', w')" and s: "sent = (tok, x) # sent'"
        by (auto split: prod.splits)
      from Some have "tk_transfer H (calling e tok) tok (current_contract e) to x w = Some w1" by (simp split: if_splits)
      from sep41_host.host_transfer [OF assms(1) this] assms(3)
      have b: "tk_balance H t to w1 = tk_balance H t to w + (if t = tok then x else 0)" by (auto simp: moved_def)
      from Cons.IH [OF r] Cons.prems(2) d have ih: "set sent' \<subseteq> set ds" "distinct (map fst sent')"
        "tk_balance H t to w' = tk_balance H t to w1 + (case map_of sent' t of None \<Rightarrow> 0 | Some x \<Rightarrow> x)" by auto
      have "tok \<notin> fst ` set sent'" using ih(1) Cons.prems(2) d by auto
      then have "map_of sent' tok = None" by (simp add: map_of_eq_None_iff)
      with ih b Cons.prems(2) d \<open>tok \<notin> fst ` set sent'\<close> show ?thesis by (auto simp: s)
    qed
  qed simp
  then show "set sent \<subseteq> set ds" "distinct (map fst sent)"
    "tk_balance H t to w' = tk_balance H t to w + (case map_of sent t of None \<Rightarrow> 0 | Some x \<Rightarrow> x)" by auto
qed

text \<open>
  After a claim no other of the same address goes through before the cooldown has passed, whatever is called in between, as
  long as the cooldown itself stays.
\<close>

inductive faucet_later :: "'w host \<Rightarrow> address \<Rightarrow> faucet \<Rightarrow> faucet \<Rightarrow> bool" for H :: "'w host" and who :: address where
  now: "faucet_later H who s s"
| step: "faucet_later H who s s' \<Longrightarrow> faucet_exec H e op s' w = Inr (s'', w') \<Longrightarrow> op \<noteq> FT_Claim who \<Longrightarrow> (\<forall>c. op \<noteq> FT_SetCooldown c) \<Longrightarrow>
    faucet_later H who s s''"

lemma faucet_later_keeps:
  assumes "faucet_later H who s s'"
  shows "ft_last_claim s' who = ft_last_claim s who" "ft_cooldown s' = ft_cooldown s"
proof -
  have "ft_last_claim s' who = ft_last_claim s who \<and> ft_cooldown s' = ft_cooldown s" using assms
  proof induction
    case (step s s' e op w s'' w')
    then show ?case by (cases op) (auto simp: set_drip_def faucet_claim_Inr Let_def rs)
  qed simp
  then show "ft_last_claim s' who = ft_last_claim s who" "ft_cooldown s' = ft_cooldown s" by auto
qed

lemma faucet_once_per_cooldown:
  assumes "faucet_claim H e who s w = Inr (sent, s1, w1)" "faucet_later H who s1 s2" "ft_cooldown s1 = Some c"
    "ledger_timestamp e' < u64_saturating_add (ledger_timestamp e) c" "authorised e' who"
  shows "faucet_claim H e' who s2 w2 = Inl (Err FT_Cooldown)"
proof -
  from assms(1) have "ft_last_claim s1 who = Some (ledger_timestamp e)" by (auto simp: faucet_claim_Inr)
  with faucet_later_keeps [OF assms(2)] assms(3-5) show ?thesis
    by (simp add: faucet_claim_def require_auth_def time_until_next_claim_def faucet_cooldown_def)
qed

end
