(* ===== verification/Spec2Isabelle.thy ===== *)
theory Spec2Isabelle
  imports Feed_Oracle Push_Oracle Rfq_Transfers Rfq_Listings Rfq_Keepers Rfq_Settlement Vault_Liquidity Facility_Props Queue_Props Router_Props Wire Call_Verifier_Props
    Redemption_Props Crosschain_Props Facility_Aggregator_Props Dex_Props Venue_Adapters Faucet
begin

text \<open>
  Octarine settlement on Soroban: a verification library for the contracts under \<open>src/contracts\<close> and the crates under
  \<open>src/crates\<close>.

  The program. Octarine settles trades of tokenised real-world assets (RWAs) on Stellar. Market makers sign RFQ and fixed-price
  orders that takers settle through \<open>contracts/rfq\<close>, which also runs Dutch listings. Liquidity providers deposit in SEP-56 vaults
  (\<open>contracts/vault\<close>), which lend idle assets through venue adapters; a facility (\<open>contracts/facility\<close>) holds shares of several
  vaults, buys RWAs at a discount for the time to redemption, and issues its own share, the oLP; a queue (\<open>contracts/queue\<close>) pays
  those who want to leave when the facility has no cash. A redemption vault (\<open>contracts/redemption_vault\<close>) takes RWAs in batches to
  their issuer, through redemption accounts whose calls a verifier allows, and issues a claim token per batch. A router
  (\<open>contracts/router\<close>) settles one taker's order across signed bids and two aggregators: the facility aggregator, which deploys and
  lists facilities, and the DEX aggregator, which swaps through adapters and routers and keeps fees until they are claimed. The
  cross-chain contract (\<open>contracts/crosschain_settle\<close>) fills orders between chains over CCTP or LayerZero.

  Conventions (\<open>Prelude\<close>, \<open>Token_Interface\<close>). A call returns a value of type \<open>('e, 'a) res\<close>: \<open>Inr\<close> the result, \<open>Inl (Err e)\<close> a
  \<open>panic_with_error!\<close> with the contract's code, \<open>Inl (Trap t)\<close> a host trap (overflow, a missing entry, a missing signature, a call
  that failed). A failed call reverts, so the states it would leave are not represented. \<open>i128\<close>, \<open>u64\<close> and \<open>u32\<close> are \<open>int\<close> and
  \<open>nat\<close> with checked operators, as the release profile compiles them; hashes, keys and argument masks are words. A contract's
  storage is a record, an absent entry \<open>None\<close>. Everything outside the contract under study is a world \<open>'w\<close>, reached only through
  records of functions (\<open>host\<close> for tokens and oracles, one more for each set of contracts called); the host forbids re-entry, so a
  call never changes the caller's storage. \<open>env\<close> carries the time, the current contract, its invoker and who signed.

  Theories, in the order of the code.

  \<^item> \<open>Common_Math\<close>, \<open>Schedule\<close>, \<open>Timelock\<close> (\<open>crates/common\<close>): the 256-bit multiply-divide and its exact rounding, redemption dates,
    governed changes and their delay. \<open>Shares\<close> (\<open>crates/shares\<close>): the share ledger and its conversions. \<open>Orders\<close> (\<open>crates/orders\<close>,
    \<open>rfq/src/hash.rs\<close>): what is signed and its digests.
  \<^item> \<open>Test_Token\<close>, \<open>Push_Oracle\<close>, \<open>Feed_Oracle\<close>, \<open>Mock_Venue\<close>, \<open>Faucet\<close> (which also has the test oracle): the small contracts.
    \<open>Ledger\<close> makes of the first two a concrete world for the witnesses.
  \<^item> \<open>Rfq_Price\<close> and \<open>Rfq\<close> (\<open>contracts/rfq\<close>): storage, prices, every entry point and runs of calls. \<open>Rfq_Settlement\<close> shows that fills
    never exceed what was signed, over any run; \<open>Rfq_Transfers\<close> what a fill moves on standard tokens; \<open>Rfq_Listings\<close> that the
    escrow of listings is covered; \<open>Rfq_Keepers\<close> what keepers cannot do.
  \<^item> \<open>Vault\<close>, with \<open>Vault_Props\<close> (well-formed states, fair entry and exit, governed changes) and \<open>Vault_Liquidity\<close> (the liquidity a vault
    reports can be paid out, on venues that meet \<open>venue_laws\<close>). \<open>Venue_Adapters\<close>: the SEP-56, DeFindex and Blend adapters.
  \<^item> \<open>Facility\<close>, with \<open>Facility_Inv\<close> and \<open>Facility_Props\<close> (well-formed states, fair exits, trades at the quote that no round trip profits
    from, vesting of gains); \<open>Vault_Fns\<close> puts the vault's model in the place of the vaults it calls. \<open>Queue\<close>, with \<open>Queue_Props\<close>: it
    refines a list, holds what it owes, and its loop ends.
  \<^item> \<open>Router\<close>, with \<open>Router_Props\<close>: the taker's bounds hold on the taker's own balances.
  \<^item> \<open>Facility_Aggregator\<close>, with \<open>Facility_Aggregator_Props\<close>: the registry, and trades that take exactly the stored fee; over the
    repository's facilities and vaults.
  \<^item> \<open>Dex_Aggregator\<close> and \<open>Dex_Adapters\<close> (with the Soroswap and Aquarius adapters and the test venue), with \<open>Dex_Inv\<close> and \<open>Dex_Props\<close>:
    fees are covered, a swap splits what was delivered, claims always pay.
  \<^item> \<open>Redemption_Vault\<close>, \<open>Redemption_Account\<close>, \<open>Claim_Token\<close>, \<open>Call_Verifier\<close>, with \<open>Redemption_Inv\<close> (its books, in \<open>redemption_laws\<close>),
    \<open>Redemption_World\<close> (these contracts together), \<open>Redemption_Runs\<close>, \<open>Redemption_Props\<close> and \<open>Call_Verifier_Props\<close>: the vault can pay
    what it owes, holders are always paid, batches go out exactly and only through calls granted in time.
  \<^item> \<open>Wire\<close>, \<open>Crosschain\<close>, \<open>Cctp\<close>, \<open>Lz\<close>, with \<open>Crosschain_Inv\<close> (custody, in \<open>bridge_laws\<close>), \<open>Crosschain_World\<close> (two worlds, with the ed25519
    verifier), \<open>Crosschain_Runs\<close> and \<open>Crosschain_Props\<close>: escrow is covered over any order of messages, a fill pays or refunds, a bid
    is paid once.

  Interfaces. What a contract relies on is a locale, and the locale is interpreted on the contracts of the repository wherever it
  has them: \<open>sep41_token\<close> by the test token and the share ledger, \<open>sep41_host\<close> by ledgers of these, \<open>venue_laws\<close> by the mock venue,
  \<open>olp_laws\<close> (the queue on its facility) and \<open>market_laws\<close> (the aggregator on its facilities) by the facility, \<open>redemption_laws\<close> by claim
  tokens, accounts and the verifier, \<open>dex_laws\<close> by the DEX adapters, over pools that meet \<open>pool_laws\<close>. Code outside the
  repository (issuers, CCTP and LayerZero contracts, Soroswap, Aquarius, Blend, DeFindex, the XDR codec, SHA-256 and ed25519) is a
  parameter; its laws say what it documents, and each has a concrete instance.

  Loops and bounds. Loops over vectors are structural recursion; the loop of \<open>process\<close> recurses on the distance from head to tail. No
  definition takes fuel; the cut-off version of that loop only serves to state that it ends. Runs are inductive predicates over any
  number of calls by anyone; where the world outside moves between calls, that is a step of the run.

  What is relied on beyond the code. The DEX aggregator refuses only the two tokens of a swap as call targets: that its fees are
  covered supposes that the admin lists no other token as a target. Custody of the cross-chain contract supposes fills whose floor is
  not negative; without that it fails, and the failure is shown. A position too small to be worth one unit stops the queue, and a
  verifier rule with exactly 32 arguments cannot be added; both are shown too.

  Not modelled. Events and TTL extension, which no result depends on; the replacement of code by \<open>upgrade\<close>, of which only the
  permission is modelled; tests and the randomised invariant harnesses (\<open>test.rs\<close>, \<open>invariant.rs\<close>); the keeper bot, the SDK and the
  scripts, which are TypeScript and shell clients of the contracts.
\<close>

end
